(* ===== verification/Prelude.thy ===== *)
theory Prelude
  imports Complex_Main "HOL-Library.Word" "HOL-Library.AList" "HOL-Library.List_Lexorder"
    "HOL-Library.Code_Target_Nat"
begin

text \<open>
  What every component of the development shares: Python strings as lists of code points, bytes,
  the dynamically typed values that \<^verbatim>\<open>json.loads\<close> returns, Python's dictionaries as association
  lists in insertion order, Python's \<^verbatim>\<open>==\<close> on those values, results with errors as values, and a
  locale for transition systems with an invariant that the stateful components interpret.
\<close>

section \<open>Collections of rules\<close>

named_theorems result_simps "case analysis of results of the error monad"
named_theorems model_defs "definitions of operations that proofs usually unfold"
named_theorems inv_rules "an operation keeps the invariant of its component"

section \<open>Strings\<close>

text \<open>
  A Python \<^verbatim>\<open>str\<close> is a sequence of code points. Literals are written \<^verbatim>\<open>u ''abc''\<close>; \<open>u\<close> is injective
  and stays folded in proofs, so that comparing two literals is comparing two character lists.
\<close>

type_synonym ustr = "nat list"
type_synonym bytes = "8 word list"

definition u :: "string \<Rightarrow> ustr" where
  "u s = map of_char s"

lemma u_eq_iff [simp]: "u s = u t \<longleftrightarrow> s = t"
  unfolding u_def by (metis inj_map_eq_map inj_onI of_char_eq_iff)

lemma u_Nil_iff [simp]: "u s = [] \<longleftrightarrow> s = []" "[] = u s \<longleftrightarrow> s = []"
  by (auto simp: u_def)

lemma length_u [simp]: "length (u s) = length s"
  by (simp add: u_def)

definition py_space :: "nat \<Rightarrow> bool" where
  \<comment> \<open>the code points \<^verbatim>\<open>str.isspace\<close> and \<^verbatim>\<open>str.strip\<close> treat as white space\<close>
  "py_space c \<longleftrightarrow>
     9 \<le> c \<and> c \<le> 13 \<or> 28 \<le> c \<and> c \<le> 32 \<or> c = 133 \<or> c = 160 \<or> c = 5760
     \<or> 8192 \<le> c \<and> c \<le> 8202 \<or> c = 8232 \<or> c = 8233 \<or> c = 8239 \<or> c = 8287 \<or> c = 12288"

definition strip :: "ustr \<Rightarrow> ustr" where
  "strip s = rev (dropWhile py_space (rev (dropWhile py_space s)))"

definition blank :: "ustr \<Rightarrow> bool" where
  \<comment> \<open>\<^verbatim>\<open>not s.strip()\<close>\<close>
  "blank s \<longleftrightarrow> list_all py_space s"

lemma blank_strip: "blank s \<longleftrightarrow> strip s = []"
proof
  assume "blank s"
  then show "strip s = []"
    by (auto simp: blank_def strip_def list_all_iff dropWhile_eq_Nil_conv dest: set_dropWhileD)
next
  assume "strip s = []"
  then have *: "\<forall>x \<in> set (dropWhile py_space s). py_space x"
    by (simp add: strip_def dropWhile_eq_Nil_conv)
  show "blank s"
  proof (cases "dropWhile py_space s")
    case Nil
    then show ?thesis by (simp add: blank_def list_all_iff dropWhile_eq_Nil_conv)
  next
    case (Cons c t)
    then have "\<not> py_space c" by (metis dropWhile_eq_Cons_conv)
    moreover from * Cons have "py_space c" by simp
    ultimately show ?thesis by simp
  qed
qed

definition utf8_size :: "nat \<Rightarrow> nat" where
  "utf8_size c = (if c < 128 then 1 else if c < 2048 then 2 else if c < 65536 then 3 else 4)"

definition utf8_len :: "ustr \<Rightarrow> nat" where
  \<comment> \<open>\<^verbatim>\<open>len(s.encode("utf-8"))\<close> where that encoding exists\<close>
  "utf8_len s = sum_list (map utf8_size s)"

definition surrogate :: "nat \<Rightarrow> bool" where
  "surrogate c \<longleftrightarrow> 55296 \<le> c \<and> c \<le> 57343"

definition encodable :: "ustr \<Rightarrow> bool" where
  \<comment> \<open>\<^verbatim>\<open>s.encode("utf-8")\<close> raises UnicodeEncodeError exactly on surrogate code points\<close>
  "encodable s \<longleftrightarrow> list_all (\<lambda>c. \<not> surrogate c) s"

lemma utf8_len_append [simp]: "utf8_len (s @ t) = utf8_len s + utf8_len t"
  by (simp add: utf8_len_def)

lemma utf8_len_Nil [simp]: "utf8_len [] = 0"
  by (simp add: utf8_len_def)

lemma utf8_size_pos: "0 < utf8_size c"
  by (simp add: utf8_size_def)

lemma length_le_utf8_len: "length s \<le> utf8_len s"
  by (induction s) (auto simp: utf8_len_def utf8_size_def)

lemma utf8_len_u: "(\<forall>c \<in> set s. of_char c < (128::nat)) \<Longrightarrow> utf8_len (u s) = length s"
  by (induction s) (auto simp: utf8_len_def utf8_size_def u_def)

definition is_lower :: "nat \<Rightarrow> bool" where "is_lower c \<longleftrightarrow> 97 \<le> c \<and> c \<le> 122"
definition is_upper :: "nat \<Rightarrow> bool" where "is_upper c \<longleftrightarrow> 65 \<le> c \<and> c \<le> 90"
definition is_digit :: "nat \<Rightarrow> bool" where "is_digit c \<longleftrightarrow> 48 \<le> c \<and> c \<le> 57"
definition is_hex :: "nat \<Rightarrow> bool" where
  "is_hex c \<longleftrightarrow> is_digit c \<or> 97 \<le> c \<and> c \<le> 102"

definition starts_with :: "ustr \<Rightarrow> ustr \<Rightarrow> bool" where
  "starts_with s p \<longleftrightarrow> take (length p) s = p"

definition ends_with :: "ustr \<Rightarrow> ustr \<Rightarrow> bool" where
  "ends_with s p \<longleftrightarrow> length p \<le> length s \<and> drop (length s - length p) s = p"

lemma starts_with_u [simp]: "starts_with (u s) (u p) \<longleftrightarrow> take (length p) s = p"
  by (simp add: starts_with_def u_def take_map) (metis u_def u_eq_iff)

lemma ends_with_u [simp]:
  "ends_with (u s) (u p) \<longleftrightarrow> length p \<le> length s \<and> drop (length s - length p) s = p"
  by (simp add: ends_with_def u_def drop_map) (metis u_def u_eq_iff)

section \<open>Python values\<close>

text \<open>
  The values of \<^verbatim>\<open>json.loads\<close>, and the tuples that \<^verbatim>\<open>dataclasses.asdict\<close> leaves in a snapshot. A
  float is an exact rational or one of the three special values; a dictionary is its list of items
  in insertion order, with string keys (the JSON objects the source handles have no others).
\<close>

datatype pyfloat = Fin rat | PosInf | NegInf | NaN

datatype pyval =
    VNone
  | VBool bool
  | VInt int
  | VFloat pyfloat
  | VStr ustr
  | VList "pyval list"
  | VTuple "pyval list"
  | VDict "(ustr \<times> pyval) list"

abbreviation vs :: "string \<Rightarrow> pyval" where "vs s \<equiv> VStr (u s)"

type_synonym dict = "(ustr \<times> pyval) list"

definition dget :: "dict \<Rightarrow> ustr \<Rightarrow> pyval" where
  \<comment> \<open>\<^verbatim>\<open>d.get(key)\<close>\<close>
  "dget d k = (case map_of d k of None \<Rightarrow> VNone | Some v \<Rightarrow> v)"

definition dkeys :: "('k \<times> 'v) list \<Rightarrow> 'k set" where
  "dkeys d = set (map fst d)"

definition has_key :: "('k \<times> 'v) list \<Rightarrow> 'k \<Rightarrow> bool" where
  "has_key d k \<longleftrightarrow> k \<in> set (map fst d)"

lemma dkeys_dom: "dkeys d = dom (map_of d)"
  by (simp add: dkeys_def dom_map_of_conv_image_fst)

lemma has_key_iff: "has_key d k \<longleftrightarrow> map_of d k \<noteq> None"
  by (simp add: has_key_def map_of_eq_None_iff)

lemma has_key_dkeys: "has_key d k \<longleftrightarrow> k \<in> dkeys d"
  by (simp add: has_key_def dkeys_def)

definition key_set_is :: "('k \<times> 'v) list \<Rightarrow> 'k list \<Rightarrow> bool" where
  \<comment> \<open>\<^verbatim>\<open>set(d) == {...}\<close>\<close>
  "key_set_is d ks \<longleftrightarrow> list_all (\<lambda>k. k \<in> set ks) (map fst d) \<and> list_all (has_key d) ks"

definition keys_within :: "('k \<times> 'v) list \<Rightarrow> 'k list \<Rightarrow> bool" where
  \<comment> \<open>\<^verbatim>\<open>set(d).issubset({...})\<close>\<close>
  "keys_within d ks \<longleftrightarrow> list_all (\<lambda>k. k \<in> set ks) (map fst d)"

lemma key_set_is_iff: "key_set_is d ks \<longleftrightarrow> dkeys d = set ks"
  by (auto simp: key_set_is_def dkeys_def has_key_def list_all_iff)

lemma keys_within_iff: "keys_within d ks \<longleftrightarrow> dkeys d \<subseteq> set ks"
  by (auto simp: keys_within_def dkeys_def list_all_iff)

fun truthy :: "pyval \<Rightarrow> bool" where
  "truthy VNone = False"
| "truthy (VBool b) = b"
| "truthy (VInt i) = (i \<noteq> 0)"
| "truthy (VFloat f) = (f \<noteq> Fin 0)"
| "truthy (VStr s) = (s \<noteq> [])"
| "truthy (VList xs) = (xs \<noteq> [])"
| "truthy (VTuple xs) = (xs \<noteq> [])"
| "truthy (VDict d) = (d \<noteq> [])"

subsection \<open>Numbers and equality\<close>

text \<open>Python's \<^verbatim>\<open>bool\<close> is an \<^verbatim>\<open>int\<close>, and comparing an \<^verbatim>\<open>int\<close> with a \<^verbatim>\<open>float\<close> is exact.\<close>

fun num_of :: "pyval \<Rightarrow> pyfloat option" where
  "num_of (VBool b) = Some (Fin (if b then 1 else 0))"
| "num_of (VInt i) = Some (Fin (of_int i))"
| "num_of (VFloat f) = Some f"
| "num_of _ = None"

fun num_eq :: "pyfloat \<Rightarrow> pyfloat \<Rightarrow> bool" where
  "num_eq (Fin x) (Fin y) = (x = y)"
| "num_eq PosInf PosInf = True"
| "num_eq NegInf NegInf = True"
| "num_eq _ _ = False"

fun num_le :: "pyfloat \<Rightarrow> pyfloat \<Rightarrow> bool" where
  "num_le NaN _ = False"
| "num_le _ NaN = False"
| "num_le NegInf _ = True"
| "num_le _ PosInf = True"
| "num_le (Fin x) (Fin y) = (x \<le> y)"
| "num_le _ _ = False"

fun py_eq :: "pyval \<Rightarrow> pyval \<Rightarrow> bool"
  and py_eq_list :: "pyval list \<Rightarrow> pyval list \<Rightarrow> bool"
  and py_eq_items :: "(ustr \<times> pyval) list \<Rightarrow> dict \<Rightarrow> bool" where
  "py_eq VNone w = (w = VNone)"
| "py_eq (VBool b) w =
     (case num_of w of None \<Rightarrow> False | Some y \<Rightarrow> num_eq (Fin (if b then 1 else 0)) y)"
| "py_eq (VInt i) w = (case num_of w of None \<Rightarrow> False | Some y \<Rightarrow> num_eq (Fin (of_int i)) y)"
| "py_eq (VFloat f) w = (case num_of w of None \<Rightarrow> False | Some y \<Rightarrow> num_eq f y)"
| "py_eq (VStr s) w = (w = VStr s)"
| "py_eq (VList xs) w = (case w of VList ys \<Rightarrow> py_eq_list xs ys | _ \<Rightarrow> False)"
| "py_eq (VTuple xs) w = (case w of VTuple ys \<Rightarrow> py_eq_list xs ys | _ \<Rightarrow> False)"
| "py_eq (VDict d) w =
     (case w of VDict e \<Rightarrow> length d = length e \<and> py_eq_items d e | _ \<Rightarrow> False)"
| "py_eq_list [] ys = (ys = [])"
| "py_eq_list (x # xs) ys =
     (case ys of [] \<Rightarrow> False | y # ys' \<Rightarrow> py_eq x y \<and> py_eq_list xs ys')"
| "py_eq_items [] e = True"
| "py_eq_items (kv # d) e =
     (case map_of e (fst kv) of
        None \<Rightarrow> False
      | Some w \<Rightarrow> py_eq (snd kv) w \<and> py_eq_items d e)"

section \<open>Results\<close>

text \<open>
  An operation that can raise returns \<open>Inl\<close> of the exception or \<open>Inr\<close> of its value. \<open>andthen\<close> is the
  sequential composition: the exception of the first operation is the result of the whole.
\<close>

fun andthen :: "'e + 'a \<Rightarrow> ('a \<Rightarrow> 'e + 'b) \<Rightarrow> 'e + 'b" where
  "andthen (Inl e) f = Inl e"
| "andthen (Inr a) f = f a"

lemma andthen_Inr_iff [result_simps]: "andthen m f = Inr b \<longleftrightarrow> (\<exists>a. m = Inr a \<and> f a = Inr b)"
  by (cases m) auto

lemma andthen_Inl_iff [result_simps]:
  "andthen m f = Inl e \<longleftrightarrow> m = Inl e \<or> (\<exists>a. m = Inr a \<and> f a = Inl e)"
  by (cases m) auto

lemma andthen_cong [fundef_cong]:
  "m = m' \<Longrightarrow> (\<And>a. m' = Inr a \<Longrightarrow> f a = g a) \<Longrightarrow> andthen m f = andthen m' g"
  by (cases m') auto

lemma andthen_case [code_unfold]: "andthen m f = case_sum Inl f m"
  \<comment> \<open>evaluation reaches the second operation only with the value of the first\<close>
  by (cases m) auto

lemma andthen_weak_cong: "m = m' \<Longrightarrow> andthen m f = andthen m' f"
  by simp

lemma andthen_assoc: "andthen (andthen m f) g = andthen m (\<lambda>x. andthen (f x) g)"
  by (cases m) auto

fun each :: "('a \<Rightarrow> 'e + 'b) \<Rightarrow> 'a list \<Rightarrow> 'e + 'b list" where
  \<comment> \<open>a comprehension whose element expression may raise\<close>
  "each f [] = Inr []"
| "each f (x # xs) = andthen (f x) (\<lambda>y. andthen (each f xs) (\<lambda>ys. Inr (y # ys)))"

lemma each_cong [fundef_cong]:
  "xs = ys \<Longrightarrow> (\<And>x. x \<in> set ys \<Longrightarrow> f x = g x) \<Longrightarrow> each f xs = each g ys"
proof -
  assume "xs = ys" and "\<And>x. x \<in> set ys \<Longrightarrow> f x = g x"
  then show ?thesis by (induction ys arbitrary: xs) auto
qed

lemma each_Inr_iff: "each f xs = Inr ys \<longleftrightarrow> list_all2 (\<lambda>x y. f x = Inr y) xs ys"
  by (induction xs arbitrary: ys) (auto simp: result_simps list_all2_Cons1)

lemma each_map_Inr: "(\<And>x. x \<in> set xs \<Longrightarrow> f x = Inr (g x)) \<Longrightarrow> each f xs = Inr (map g xs)"
  by (induction xs) auto

fun fold_r :: "('s \<Rightarrow> 'a \<Rightarrow> 'e + 's) \<Rightarrow> 's \<Rightarrow> 'a list \<Rightarrow> 'e + 's" where
  \<comment> \<open>a \<^verbatim>\<open>for\<close> loop over a state whose body may raise\<close>
  "fold_r f s [] = Inr s"
| "fold_r f s (x # xs) = andthen (f s x) (\<lambda>s'. fold_r f s' xs)"

lemma fold_r_append: "fold_r f s (xs @ ys) = andthen (fold_r f s xs) (\<lambda>s'. fold_r f s' ys)"
  by (induction xs arbitrary: s) (auto simp: andthen_assoc)

lemma fold_r_invariant:
  assumes "\<And>a x b. I a \<Longrightarrow> x \<in> set xs \<Longrightarrow> f a x = Inr b \<Longrightarrow> I b"
  shows "fold_r f s xs = Inr t \<Longrightarrow> I s \<Longrightarrow> I t"
  using assms
proof (induction xs arbitrary: s)
  case Nil
  then show ?case by simp
next
  case (Cons x xs)
  from Cons.prems(1) obtain s' where s': "f s x = Inr s'" "fold_r f s' xs = Inr t"
    by (auto simp: result_simps)
  have "I s'" by (rule Cons.prems(3) [OF Cons.prems(2) _ s'(1)]) simp
  then show ?case by (rule Cons.IH [OF s'(2)]) (rule Cons.prems(3), auto)
qed

fun seq_st :: "('e + 'a) \<times> 's \<Rightarrow> ('a \<Rightarrow> 's \<Rightarrow> ('e + 'b) \<times> 's) \<Rightarrow> ('e + 'b) \<times> 's" where
  \<comment> \<open>composition of operations on a state that keeps what the first one wrote when it raises\<close>
  "seq_st (Inl e, s) f = (Inl e, s)"
| "seq_st (Inr a, s) f = f a s"

lemma seq_st_fst_Inr [result_simps]:
  "fst (seq_st m f) = Inr b \<longleftrightarrow> (\<exists>a s. m = (Inr a, s) \<and> fst (f a s) = Inr b)"
proof -
  obtain x s where m: "m = (x, s)" by (cases m)
  show ?thesis by (cases x) (simp_all add: m)
qed

section \<open>Association lists\<close>

lemma map_of_filter_key:
  "map_of (filter (\<lambda>kv. P (fst kv) (snd kv)) al) k = Some v \<Longrightarrow> distinct (map fst al)
   \<Longrightarrow> map_of al k = Some v \<and> P k v"
  by (induction al) (auto split: if_splits dest: map_of_SomeD simp: rev_image_eqI)

lemma map_of_filter_eq:
  "distinct (map fst al) \<Longrightarrow>
   map_of (filter (\<lambda>kv. P (fst kv) (snd kv)) al) k =
     (case map_of al k of None \<Rightarrow> None | Some v \<Rightarrow> if P k v then Some v else None)"
proof (induction al)
  case Nil
  then show ?case by simp
next
  case (Cons kv al)
  then show ?case
    by (cases kv) (auto simp: map_of_eq_None_iff split: option.splits)
qed

lemma distinct_filter_keys: "distinct (map fst al) \<Longrightarrow> distinct (map fst (filter P al))"
  by (simp add: distinct_map_filter)

section \<open>Transition systems\<close>

text \<open>
  A stateful component is a set of start states and a step relation. What a component promises in
  every state it can reach is an invariant of the system: it holds at the start and every step
  keeps it. The locales carry the induction over the run once for all components.
\<close>

inductive reach :: "('s \<Rightarrow> bool) \<Rightarrow> ('s \<Rightarrow> 's \<Rightarrow> bool) \<Rightarrow> 's \<Rightarrow> bool" for start step where
  reach_start: "start s \<Longrightarrow> reach start step s"
| reach_step: "reach start step s \<Longrightarrow> step s t \<Longrightarrow> reach start step t"

lemma reach_rtranclp: "reach start step s \<Longrightarrow> step\<^sup>*\<^sup>* s t \<Longrightarrow> reach start step t"
  by (rotate_tac 1, induction rule: rtranclp_induct) (auto intro: reach_step)

locale invariant_system =
  fixes start :: "'s \<Rightarrow> bool"
    and step :: "'s \<Rightarrow> 's \<Rightarrow> bool"
    and inv :: "'s \<Rightarrow> bool"
  assumes inv_start: "start s \<Longrightarrow> inv s"
    and inv_step: "inv s \<Longrightarrow> step s t \<Longrightarrow> inv t"
begin

lemma inv_reach: "reach start step s \<Longrightarrow> inv s"
  by (induction rule: reach.induct) (auto intro: inv_start inv_step)

lemma inv_run: "inv s \<Longrightarrow> step\<^sup>*\<^sup>* s t \<Longrightarrow> inv t"
  by (rotate_tac 1, induction rule: rtranclp_induct) (auto intro: inv_step)

end

locale monotone_system = invariant_system start step inv
  for start :: "'s \<Rightarrow> bool" and step and inv +
  fixes le :: "'s \<Rightarrow> 's \<Rightarrow> bool"
  assumes le_refl: "le s s"
    and le_trans: "le s t \<Longrightarrow> le t r \<Longrightarrow> le s r"
    and le_step: "inv s \<Longrightarrow> step s t \<Longrightarrow> le s t"
begin

lemma le_run: "inv s \<Longrightarrow> step\<^sup>*\<^sup>* s t \<Longrightarrow> le s t"
proof (rotate_tac 1, induction rule: rtranclp_induct)
  case base
  show ?case by (rule le_refl)
next
  case (step t r)
  then show ?case by (blast intro: le_trans le_step inv_run)
qed

end

end
