(* ===== verification/Errors.thy ===== *)
theory Errors
  imports Prelude
begin

text \<open>
  The stable error codes, the content-free failure context and the exceptions of
  \<^verbatim>\<open>realtime/contracts.py\<close>. An enumeration of the source is a datatype with the string value of each
  member; building a member from a string, as \<^verbatim>\<open>RealtimeErrorCode(text)\<close> does, is a partial function.
\<close>

section \<open>Error codes\<close>

datatype error_code =
    E_INVALID_REQUEST | E_UNAUTHENTICATED | E_FORBIDDEN | E_UNSUPPORTED | E_BUSY | E_RATE_LIMITED
  | E_UNAVAILABLE | E_TIMEOUT | E_PROTOCOL_ERROR | E_SESSION_EXPIRED | E_BILLING_REJECTED
  | E_CANCELLED | E_INTERNAL

fun code_name :: "error_code \<Rightarrow> string" where
  "code_name E_INVALID_REQUEST = ''invalid_request''"
| "code_name E_UNAUTHENTICATED = ''unauthenticated''"
| "code_name E_FORBIDDEN = ''forbidden''"
| "code_name E_UNSUPPORTED = ''unsupported''"
| "code_name E_BUSY = ''busy''"
| "code_name E_RATE_LIMITED = ''rate_limited''"
| "code_name E_UNAVAILABLE = ''unavailable''"
| "code_name E_TIMEOUT = ''timeout''"
| "code_name E_PROTOCOL_ERROR = ''protocol_error''"
| "code_name E_SESSION_EXPIRED = ''session_expired''"
| "code_name E_BILLING_REJECTED = ''billing_rejected''"
| "code_name E_CANCELLED = ''cancelled''"
| "code_name E_INTERNAL = ''internal''"

definition code_value :: "error_code \<Rightarrow> ustr" where
  "code_value c = u (code_name c)"

definition all_codes :: "error_code list" where
  "all_codes = [E_INVALID_REQUEST, E_UNAUTHENTICATED, E_FORBIDDEN, E_UNSUPPORTED, E_BUSY,
     E_RATE_LIMITED, E_UNAVAILABLE, E_TIMEOUT, E_PROTOCOL_ERROR, E_SESSION_EXPIRED,
     E_BILLING_REJECTED, E_CANCELLED, E_INTERNAL]"

definition code_of :: "ustr \<Rightarrow> error_code option" where
  \<comment> \<open>\<^verbatim>\<open>RealtimeErrorCode(s)\<close>, \<open>None\<close> for the ValueError\<close>
  "code_of s = find (\<lambda>c. code_value c = s) all_codes"

lemma code_value_inj [simp]: "code_value c = code_value d \<longleftrightarrow> c = d"
  by (cases c; cases d) (simp_all add: code_value_def)

lemma code_of_value [simp]: "code_of (code_value c) = Some c"
  by (cases c) (simp_all add: code_of_def all_codes_def)

lemma code_of_Some: "code_of s = Some c \<longleftrightarrow> s = code_value c"
proof
  assume "code_of s = Some c"
  then show "s = code_value c" unfolding code_of_def by (auto simp: find_Some_iff)
qed simp

section \<open>Failure context\<close>

definition SAFE_FAILURE_FIELDS :: "ustr list" where
  "SAFE_FAILURE_FIELDS = map u
     [''type'', ''event_id'', ''related_event_id'', ''response_id'', ''item_id'', ''call_id'', ''id'',
      ''output_index'', ''content_index'', ''session'', ''response'', ''item'', ''part'',
      ''content'', ''role'', ''status'', ''code'', ''retryable'', ''fatal'', ''message_class'',
      ''retry_after_ms'', ''transcript'', ''delta'', ''audio'', ''text'', ''instructions'',
      ''tools'', ''arguments'', ''name'', ''initiator'', ''disposition'', ''active_response'',
      ''settlement'', ''remaining_ms'', ''error'', ''control_version'', ''sdk_protocol_version'',
      ''relay_session_id'', ''provider'', ''wire_protocol'', ''wire_version'', ''capability'',
      ''capability_digest'', ''expires_at_ms'', ''reason'', ''usage'']"

definition EXTRA_VALIDATION_FIELDS :: "ustr list" where
  "EXTRA_VALIDATION_FIELDS = map u
     [''fields'', ''response.id'', ''item.id'', ''item.call_id'', ''session.id'']"

definition FAILURE_REASONS :: "ustr list" where
  "FAILURE_REASONS = map u
     [''validation_failed'', ''missing_identity'', ''invalid_integer'', ''invalid_object'',
      ''invalid_string'', ''invalid_identity'', ''invalid_range'', ''unknown_enum'',
      ''non_terminal_error'', ''field_set'', ''missing_field'',
      ''unresolved_item_missing_response_id'', ''suspected_assistant_missing_response_id'']"

definition stable_char :: "nat \<Rightarrow> bool" where
  "stable_char c \<longleftrightarrow> is_lower c \<or> is_digit c \<or> c = 95 \<or> c = 46 \<or> c = 45"

fun stable_metadata :: "ustr \<Rightarrow> bool" where
  \<comment> \<open>the regular expression \<^verbatim>\<open>^[a-z][a-z0-9_.-]{0,127}$\<close>\<close>
  "stable_metadata [] = False"
| "stable_metadata (c # s) = (is_lower c \<and> length s \<le> 127 \<and> list_all stable_char s)"

definition printable_id :: "ustr \<Rightarrow> bool" where
  \<comment> \<open>the regular expression \<^verbatim>\<open>[!-~]{1,128}\<close>\<close>
  "printable_id s \<longleftrightarrow> 1 \<le> length s \<and> length s \<le> 128 \<and> list_all (\<lambda>c. 33 \<le> c \<and> c \<le> 126) s"

record failure_context =
  fc_stage :: ustr
  fc_event_type :: ustr
  fc_generation :: int
  fc_field_names :: "ustr list"
  fc_validation_field :: "ustr option"
  fc_validation_reason :: "ustr option"
  fc_related_event_id :: "ustr option"
  fc_client_event_type :: "ustr option"
  fc_control_code :: "error_code option"
  fc_message_class :: "ustr option"
  fc_retryable :: "bool option"
  fc_fatal :: "bool option"
  fc_retry_after_ms :: "int option"

definition opt_ok :: "('a \<Rightarrow> bool) \<Rightarrow> 'a option \<Rightarrow> bool" where
  "opt_ok P x = (case x of None \<Rightarrow> True | Some v \<Rightarrow> P v)"

lemma opt_ok_simps [simp]: "opt_ok P None" "opt_ok P (Some v) = P v"
  by (simp_all add: opt_ok_def)

definition failure_error :: "failure_context \<Rightarrow> string option" where
  \<comment> \<open>\<^verbatim>\<open>RealtimeFailureContext.__post_init__\<close>: the message of the ValueError, if it raises one\<close>
  "failure_error f =
    (if \<not> (stable_metadata (fc_stage f) \<and> stable_metadata (fc_event_type f)
            \<and> opt_ok stable_metadata (fc_validation_reason f)
            \<and> opt_ok stable_metadata (fc_client_event_type f)
            \<and> opt_ok stable_metadata (fc_message_class f))
     then Some ''invalid failure metadata''
     else if fc_generation f < 1 then Some ''invalid failure generation''
     else if \<not> list_all (\<lambda>v. v \<in> set SAFE_FAILURE_FIELDS) (fc_field_names f)
     then Some ''invalid failure field names''
     else if \<not> opt_ok (\<lambda>v. v \<in> set (SAFE_FAILURE_FIELDS @ EXTRA_VALIDATION_FIELDS))
                 (fc_validation_field f)
     then Some ''invalid validation field''
     else if \<not> opt_ok printable_id (fc_related_event_id f)
     then Some ''invalid related event identity''
     else if \<not> opt_ok (\<lambda>n. 0 \<le> n \<and> n \<le> 3600000) (fc_retry_after_ms f)
     then Some ''invalid retry interval''
     else None)"

definition failure_ok :: "failure_context \<Rightarrow> bool" where
  "failure_ok f \<longleftrightarrow> failure_error f = None"

lemma failure_ok_iff:
  "failure_ok f \<longleftrightarrow>
     stable_metadata (fc_stage f) \<and> stable_metadata (fc_event_type f)
     \<and> opt_ok stable_metadata (fc_validation_reason f)
     \<and> opt_ok stable_metadata (fc_client_event_type f)
     \<and> opt_ok stable_metadata (fc_message_class f)
     \<and> 1 \<le> fc_generation f
     \<and> list_all (\<lambda>v. v \<in> set SAFE_FAILURE_FIELDS) (fc_field_names f)
     \<and> opt_ok (\<lambda>v. v \<in> set (SAFE_FAILURE_FIELDS @ EXTRA_VALIDATION_FIELDS))
         (fc_validation_field f)
     \<and> opt_ok printable_id (fc_related_event_id f)
     \<and> opt_ok (\<lambda>n. 0 \<le> n \<and> n \<le> 3600000) (fc_retry_after_ms f)"
  by (auto simp: failure_ok_def failure_error_def not_less split: if_splits)

section \<open>Exceptions\<close>

text \<open>
  The exceptions the modelled code raises or reacts to. A \<^verbatim>\<open>RealtimeError\<close> keeps its code, whether it
  is retryable, the validation field and reason and the failure context it carries; message texts
  are kept because they name the check that failed.
\<close>

datatype exn =
    RealtimeErr (err_code: error_code) (err_message: string) (err_retryable: bool)
      (err_field: "ustr option") (err_reason: "ustr option") (err_failure: "failure_context option")
  | ValueErr string
  | UnicodeErr
  | TypeErr
  | KeyErr
  | RuntimeErr
  | RecursionErr
  | CancelledErr
  | OtherErr string \<comment> \<open>a class of the standard library that the source neither raises nor catches by name\<close>

abbreviation rt_error :: "error_code \<Rightarrow> string \<Rightarrow> exn" where
  "rt_error c m \<equiv> RealtimeErr c m False None None None"

abbreviation rt_plain :: "error_code \<Rightarrow> exn" where
  \<comment> \<open>\<^verbatim>\<open>RealtimeError(code)\<close>: the message is the value of the code\<close>
  "rt_plain c \<equiv> RealtimeErr c (code_name c) False None None None"

abbreviation protocol_error :: "string \<Rightarrow> exn" where
  "protocol_error m \<equiv> rt_error E_PROTOCOL_ERROR m"

abbreviation protocol_field_error :: "string \<Rightarrow> ustr \<Rightarrow> string \<Rightarrow> exn" where
  "protocol_field_error m f r \<equiv> RealtimeErr E_PROTOCOL_ERROR m False (Some f) (Some (u r)) None"

definition is_value_error :: "exn \<Rightarrow> bool" where
  \<comment> \<open>UnicodeError is a subclass of ValueError\<close>
  "is_value_error e = (case e of ValueErr _ \<Rightarrow> True | UnicodeErr \<Rightarrow> True | _ \<Rightarrow> False)"

definition has_code :: "error_code \<Rightarrow> exn \<Rightarrow> bool" where
  "has_code c e = (case e of RealtimeErr d _ _ _ _ _ \<Rightarrow> c = d | _ \<Rightarrow> False)"

lemma has_code_simps [simp]:
  "has_code c (RealtimeErr d m b f r x) \<longleftrightarrow> c = d"
  "\<not> has_code c (ValueErr m)" "\<not> has_code c UnicodeErr" "\<not> has_code c TypeErr"
  "\<not> has_code c KeyErr" "\<not> has_code c RuntimeErr" "\<not> has_code c RecursionErr"
  "\<not> has_code c CancelledErr" "\<not> has_code c (OtherErr m)"
  by (simp_all add: has_code_def)

type_synonym 'a res = "exn + 'a"

definition build_failure :: "failure_context \<Rightarrow> failure_context res" where
  "build_failure f =
    (case failure_error f of None \<Rightarrow> Inr f | Some m \<Rightarrow> Inl (ValueErr m))"

lemma build_failure_Inr: "build_failure f = Inr g \<longleftrightarrow> g = f \<and> failure_ok f"
  by (auto simp: build_failure_def failure_ok_def split: option.splits)

section \<open>Checks\<close>

definition check :: "bool \<Rightarrow> exn \<Rightarrow> unit res" where
  \<comment> \<open>raise the exception unless the condition holds\<close>
  "check b e = (if b then Inr () else Inl e)"

lemma check_Inr [simp]: "check b e = Inr x \<longleftrightarrow> b"
  by (simp add: check_def)

lemma check_Inl [simp]: "check b e = Inl f \<longleftrightarrow> \<not> b \<and> f = e"
  by (auto simp: check_def)

fun each_unit :: "('a \<Rightarrow> unit res) \<Rightarrow> 'a list \<Rightarrow> unit res" where
  "each_unit f [] = Inr ()"
| "each_unit f (x # xs) = andthen (f x) (\<lambda>_. each_unit f xs)"

lemma each_unit_Inr: "each_unit f xs = Inr y \<longleftrightarrow> (\<forall>x \<in> set xs. f x = Inr ())"
  by (induction xs) (auto simp: andthen_Inr_iff)

fun seq_all :: "unit res list \<Rightarrow> unit res" where
  \<comment> \<open>checks one after the other, up to the first that raises\<close>
  "seq_all [] = Inr ()"
| "seq_all (m # ms) = andthen m (\<lambda>_. seq_all ms)"

lemma seq_all_Inr: "seq_all ms = Inr y \<longleftrightarrow> (\<forall>m \<in> set ms. m = Inr ())"
  by (induction ms) (auto simp: andthen_Inr_iff)

end
