(* ===== verification/Json_Text.thy ===== *)
theory Json_Text
  imports Errors
begin

text \<open>
  What the source uses of Python's \<^verbatim>\<open>json\<close> module: \<^verbatim>\<open>json.dumps\<close> with its separators, key order and
  escapes, and \<^verbatim>\<open>json.loads\<close> with the \<^verbatim>\<open>object_pairs_hook\<close> and \<^verbatim>\<open>parse_constant\<close> hooks. The shortest
  decimal text of a float, the rounding of a decimal text to a float and the interpreter's nesting
  limits (\<open>je_nesting\<close> for the scanner and the writer of the module, \<open>je_calls\<close> for nested calls of the
  program's own functions) are parameters of type \<open>json_env\<close>. The parser follows the accelerated scanner of CPython; its
  fuel is twice the length of the text: every value consumes a character, and a level of nesting takes
  two units.
\<close>

record json_env =
  je_float_text :: "rat \<Rightarrow> ustr"
  je_float_parse :: "ustr \<Rightarrow> pyfloat"
  je_nesting :: nat
  je_calls :: nat

section \<open>Writing\<close>

record json_style =
  js_ascii :: bool
  js_nan :: bool
  js_sort :: bool
  js_item_sep :: ustr
  js_key_sep :: ustr

definition hex_digit :: "nat \<Rightarrow> nat" where
  "hex_digit n = (if n < 10 then 48 + n else 87 + n)"

definition hex4 :: "nat \<Rightarrow> ustr" where
  "hex4 n = [hex_digit (n div 4096 mod 16), hex_digit (n div 256 mod 16),
             hex_digit (n div 16 mod 16), hex_digit (n mod 16)]"

definition uescape :: "nat \<Rightarrow> ustr" where
  "uescape c = [92, 117] @ hex4 c"

definition escape_char :: "bool \<Rightarrow> nat \<Rightarrow> ustr" where
  "escape_char ascii c =
    (if c = 34 then [92, 34]
     else if c = 92 then [92, 92]
     else if c = 10 then [92, 110]
     else if c = 13 then [92, 114]
     else if c = 9 then [92, 116]
     else if c = 12 then [92, 102]
     else if c = 8 then [92, 98]
     else if c < 32 then uescape c
     else if ascii \<and> 126 < c then
       (if c < 65536 then uescape c
        else uescape (55296 + (c - 65536) div 1024) @ uescape (56320 + (c - 65536) mod 1024))
     else [c])"

definition quote :: "bool \<Rightarrow> ustr \<Rightarrow> ustr" where
  "quote ascii s = [34] @ concat (map (escape_char ascii) s) @ [34]"

fun nat_text :: "nat \<Rightarrow> ustr" where
  "nat_text n = (if n < 10 then [48 + n] else nat_text (n div 10) @ [48 + n mod 10])"

declare nat_text.simps [simp del]

definition DIGIT_LIMIT :: nat where
  \<comment> \<open>the interpreter refuses to convert an integer of more decimal digits\<close>
  "DIGIT_LIMIT = 4300"

definition int_text :: "int \<Rightarrow> ustr res" where
  "int_text i =
    (let ds = nat_text (nat \<bar>i\<bar>) in
     if DIGIT_LIMIT < length ds then Inl (ValueErr ''integer string conversion'')
     else Inr ((if i < 0 then [45] else []) @ ds))"

fun join :: "ustr \<Rightarrow> ustr list \<Rightarrow> ustr" where
  "join sep [] = []"
| "join sep [x] = x"
| "join sep (x # y # xs) = x @ sep @ join sep (y # xs)"

definition sort_items :: "dict \<Rightarrow> dict" where
  "sort_items d = sort_key fst d"

fun float_json :: "json_env \<Rightarrow> json_style \<Rightarrow> pyfloat \<Rightarrow> ustr res" where
  "float_json env st (Fin q) = Inr (je_float_text env q)"
| "float_json env st x =
    (if js_nan st then Inr (u (case x of PosInf \<Rightarrow> ''Infinity'' | NegInf \<Rightarrow> ''-Infinity'' | _ \<Rightarrow> ''NaN''))
     else Inl (ValueErr ''Out of range float values are not JSON compliant''))"

fun text_of :: "json_env \<Rightarrow> json_style \<Rightarrow> nat \<Rightarrow> pyval \<Rightarrow> ustr res"
  and texts_of :: "json_env \<Rightarrow> json_style \<Rightarrow> nat \<Rightarrow> pyval list \<Rightarrow> ustr list res"
  and item_texts :: "json_env \<Rightarrow> json_style \<Rightarrow> nat \<Rightarrow> dict \<Rightarrow> (ustr \<times> ustr) list res" where
  \<comment> \<open>the natural number is what is left of the nesting limit\<close>
  "text_of env st n VNone = Inr (u ''null'')"
| "text_of env st n (VBool b) = Inr (u (if b then ''true'' else ''false''))"
| "text_of env st n (VInt i) = int_text i"
| "text_of env st n (VFloat f) = float_json env st f"
| "text_of env st n (VStr s) = Inr (quote (js_ascii st) s)"
| "text_of env st n (VList xs) =
    (if n = 0 then Inl RecursionErr
     else andthen (texts_of env st (n - 1) xs) (\<lambda>ts. Inr ([91] @ join (js_item_sep st) ts @ [93])))"
| "text_of env st n (VTuple xs) =
    (if n = 0 then Inl RecursionErr
     else andthen (texts_of env st (n - 1) xs) (\<lambda>ts. Inr ([91] @ join (js_item_sep st) ts @ [93])))"
| "text_of env st n (VDict d) =
    (if n = 0 then Inl RecursionErr
     else andthen (item_texts env st (n - 1) d)
       (\<lambda>ts. Inr ([123] @ join (js_item_sep st)
          (map (\<lambda>kt. quote (js_ascii st) (fst kt) @ js_key_sep st @ snd kt)
             (if js_sort st then sort_key fst ts else ts)) @ [125])))"
| "texts_of env st n [] = Inr []"
| "texts_of env st n (x # xs) =
    andthen (text_of env st n x) (\<lambda>t. andthen (texts_of env st n xs) (\<lambda>ts. Inr (t # ts)))"
| "item_texts env st n [] = Inr []"
| "item_texts env st n (kv # d) =
    andthen (text_of env st n (snd kv))
      (\<lambda>t. andthen (item_texts env st n d) (\<lambda>ts. Inr ((fst kv, t) # ts)))"

definition dumps :: "json_env \<Rightarrow> json_style \<Rightarrow> pyval \<Rightarrow> ustr res" where
  "dumps env st v = text_of env st (je_nesting env) v"

definition compact_style :: json_style where
  \<comment> \<open>\<^verbatim>\<open>ensure_ascii=False, separators=(",", ":"), allow_nan=False\<close>\<close>
  "compact_style = \<lparr>js_ascii = False, js_nan = False, js_sort = False,
     js_item_sep = u '','', js_key_sep = u '':''\<rparr>"

definition default_style :: json_style where
  \<comment> \<open>\<^verbatim>\<open>json.dumps(value)\<close> without options\<close>
  "default_style = \<lparr>js_ascii = True, js_nan = True, js_sort = False,
     js_item_sep = u '', '', js_key_sep = u '': ''\<rparr>"

definition encode_utf8 :: "ustr \<Rightarrow> ustr res" where
  \<comment> \<open>\<^verbatim>\<open>text.encode("utf-8")\<close>: the byte string is represented by the text it encodes\<close>
  "encode_utf8 s = (if encodable s then Inr s else Inl UnicodeErr)"

section \<open>Reading\<close>

definition jspace :: "nat \<Rightarrow> bool" where
  "jspace c \<longleftrightarrow> c = 32 \<or> c = 9 \<or> c = 10 \<or> c = 13"

definition skip_ws :: "ustr \<Rightarrow> ustr" where
  "skip_ws s = dropWhile jspace s"

definition hex_val :: "nat \<Rightarrow> nat option" where
  "hex_val c =
    (if is_digit c then Some (c - 48)
     else if 97 \<le> c \<and> c \<le> 102 then Some (c - 87)
     else if 65 \<le> c \<and> c \<le> 70 then Some (c - 55) else None)"

fun read_hex4 :: "ustr \<Rightarrow> (nat \<times> ustr) option" where
  "read_hex4 (a # b # c # d # s) =
    (case (hex_val a, hex_val b, hex_val c, hex_val d) of
       (Some x, Some y, Some z, Some w) \<Rightarrow> Some (4096 * x + 256 * y + 16 * z + w, s)
     | _ \<Rightarrow> None)"
| "read_hex4 _ = None"

definition high_surrogate :: "nat \<Rightarrow> bool" where
  "high_surrogate c \<longleftrightarrow> 55296 \<le> c \<and> c \<le> 56319"

definition low_surrogate :: "nat \<Rightarrow> bool" where
  "low_surrogate c \<longleftrightarrow> 56320 \<le> c \<and> c \<le> 57343"

definition join_surrogates :: "nat \<Rightarrow> nat \<Rightarrow> nat" where
  "join_surrogates h l = 65536 + (h - 55296) * 1024 + (l - 56320)"

fun read_unicode :: "ustr \<Rightarrow> (nat \<times> ustr) option" where
  \<comment> \<open>what follows a backslash and a \<^verbatim>\<open>u\<close>\<close>
  "read_unicode s =
    (case read_hex4 s of
       None \<Rightarrow> None
     | Some (c, r) \<Rightarrow>
         (if high_surrogate c \<and> take 2 r = [92, 117] then
            (case read_hex4 (drop 2 r) of
               None \<Rightarrow> None
             | Some (d, r') \<Rightarrow>
                 if low_surrogate d then Some (join_surrogates c d, r') else Some (c, r))
          else Some (c, r)))"

definition simple_escape :: "nat \<Rightarrow> nat option" where
  "simple_escape c =
    (if c = 34 \<or> c = 92 \<or> c = 47 then Some c
     else if c = 98 then Some 8 else if c = 102 then Some 12 else if c = 110 then Some 10
     else if c = 114 then Some 13 else if c = 116 then Some 9 else None)"

fun read_char :: "ustr \<Rightarrow> (nat \<times> ustr) option" where
  \<comment> \<open>one character of a string body that does not close it\<close>
  "read_char [] = None"
| "read_char (c # s) =
    (if c = 92 then
       (case s of
          [] \<Rightarrow> None
        | e # r \<Rightarrow>
            (if e = 117 then read_unicode r
             else (case simple_escape e of None \<Rightarrow> None | Some x \<Rightarrow> Some (x, r))))
     else if c < 32 then None else Some (c, s))"

fun read_string :: "nat \<Rightarrow> ustr \<Rightarrow> (ustr \<times> ustr) option" where
  \<comment> \<open>the body of a string, after its opening quote\<close>
  "read_string 0 s = None"
| "read_string (Suc f) s =
    (case s of
       [] \<Rightarrow> None
     | c # r \<Rightarrow>
         (if c = 34 then Some ([], r)
          else (case read_char s of
                  None \<Rightarrow> None
                | Some (x, r') \<Rightarrow>
                    (case read_string f r' of None \<Rightarrow> None | Some (xs, t) \<Rightarrow> Some (x # xs, t)))))"

fun digits_value :: "nat \<Rightarrow> ustr \<Rightarrow> nat" where
  "digits_value a [] = a"
| "digits_value a (c # s) = digits_value (10 * a + (c - 48)) s"

definition fraction_part :: "ustr \<Rightarrow> ustr \<times> ustr" where
  "fraction_part s =
    (case s of
       c # r \<Rightarrow>
         (if c = 46 \<and> takeWhile is_digit r \<noteq> []
          then (c # takeWhile is_digit r, dropWhile is_digit r) else ([], s))
     | [] \<Rightarrow> ([], s))"

definition exponent_part :: "ustr \<Rightarrow> ustr \<times> ustr" where
  "exponent_part s =
    (case s of
       c # r \<Rightarrow>
         (if c = 101 \<or> c = 69 then
            (let sg = (case r of d # _ \<Rightarrow> if d = 43 \<or> d = 45 then [d] else [] | [] \<Rightarrow> []);
                 r' = drop (length sg) r
             in if takeWhile is_digit r' \<noteq> []
                then (c # sg @ takeWhile is_digit r', dropWhile is_digit r') else ([], s))
          else ([], s))
     | [] \<Rightarrow> ([], s))"

definition expecting_value :: exn where "expecting_value = ValueErr ''Expecting value''"

definition read_number :: "json_env \<Rightarrow> ustr \<Rightarrow> (pyval \<times> ustr) res" where
  "read_number env s =
    (let neg = (case s of c # _ \<Rightarrow> c = 45 | [] \<Rightarrow> False);
         s1 = (if neg then tl s else s)
     in case s1 of
          [] \<Rightarrow> Inl expecting_value
        | c # r \<Rightarrow>
            if \<not> is_digit c then Inl expecting_value
            else
              (let ds = (if c = 48 then [c] else takeWhile is_digit s1);
                   s2 = drop (length ds) s1;
                   fr = fraction_part s2;
                   ex = exponent_part (snd fr)
               in if fst fr = [] \<and> fst ex = [] then
                    (if DIGIT_LIMIT < length ds
                     then Inl (ValueErr ''integer string conversion'')
                     else Inr (VInt (if neg then - int (digits_value 0 ds)
                                     else int (digits_value 0 ds)), snd ex))
                  else Inr (VFloat (je_float_parse env
                         ((if neg then [45] else []) @ ds @ fst fr @ fst ex)), snd ex)))"

record json_hooks =
  jh_duplicate :: "exn option" \<comment> \<open>\<open>None\<close>: no hook, the last value of a key counts\<close>
  jh_constant :: "exn option" \<comment> \<open>\<open>None\<close>: the constants \<^verbatim>\<open>NaN\<close> and \<^verbatim>\<open>Infinity\<close> are read\<close>

definition read_constant :: "json_hooks \<Rightarrow> pyfloat \<Rightarrow> ustr \<Rightarrow> (pyval \<times> ustr) res" where
  "read_constant hk f r =
    (case jh_constant hk of None \<Rightarrow> Inr (VFloat f, r) | Some e \<Rightarrow> Inl e)"

definition read_atom :: "json_env \<Rightarrow> json_hooks \<Rightarrow> ustr \<Rightarrow> (pyval \<times> ustr) res" where
  "read_atom env hk s =
    (if starts_with s (u ''null'') then Inr (VNone, drop 4 s)
     else if starts_with s (u ''true'') then Inr (VBool True, drop 4 s)
     else if starts_with s (u ''false'') then Inr (VBool False, drop 5 s)
     else if starts_with s (u ''NaN'') then read_constant hk NaN (drop 3 s)
     else if starts_with s (u ''Infinity'') then read_constant hk PosInf (drop 8 s)
     else if starts_with s (u ''-Infinity'') then read_constant hk NegInf (drop 9 s)
     else read_number env s)"

definition pairs_hook :: "json_hooks \<Rightarrow> dict \<Rightarrow> pyval res" where
  \<comment> \<open>the \<^verbatim>\<open>object_pairs_hook\<close>: the dictionary, or the exception if a key occurs twice\<close>
  "pairs_hook hk items =
    (if distinct (map fst items) then Inr (VDict items)
     else (case jh_duplicate hk of
             Some e \<Rightarrow> Inl e
           | None \<Rightarrow> Inr (VDict (fold (\<lambda>kv. AList.update (fst kv) (snd kv)) items []))))"

definition default_hooks :: json_hooks where
  "default_hooks = \<lparr>jh_duplicate = None, jh_constant = None\<rparr>"

fun parse :: "json_env \<Rightarrow> json_hooks \<Rightarrow> nat \<Rightarrow> nat \<Rightarrow> ustr \<Rightarrow> (pyval \<times> ustr) res"
  and parse_items :: "json_env \<Rightarrow> json_hooks \<Rightarrow> nat \<Rightarrow> nat \<Rightarrow> ustr \<Rightarrow> (pyval list \<times> ustr) res"
  and parse_pairs :: "json_env \<Rightarrow> json_hooks \<Rightarrow> nat \<Rightarrow> nat \<Rightarrow> ustr \<Rightarrow> (dict \<times> ustr) res" where
  \<comment> \<open>fuel, then what is left of the nesting limit\<close>
  "parse env hk 0 n s = Inl expecting_value"
| "parse env hk (Suc f) n s =
    (case s of
       [] \<Rightarrow> Inl expecting_value
     | c # r \<Rightarrow>
         if c = 34 then
           (case read_string (length r) r of
              None \<Rightarrow> Inl (ValueErr ''Invalid string'')
            | Some (t, r') \<Rightarrow> Inr (VStr t, r'))
         else if c = 91 then
           (if n = 0 then Inl RecursionErr
            else if take 1 (skip_ws r) = [93] then Inr (VList [], drop 1 (skip_ws r))
            else andthen (parse_items env hk f (n - 1) (skip_ws r))
                   (\<lambda>vr. Inr (VList (fst vr), snd vr)))
         else if c = 123 then
           (if n = 0 then Inl RecursionErr
            else if take 1 (skip_ws r) = [125]
            then andthen (pairs_hook hk []) (\<lambda>v. Inr (v, drop 1 (skip_ws r)))
            else andthen (parse_pairs env hk f (n - 1) (skip_ws r))
                   (\<lambda>vr. andthen (pairs_hook hk (fst vr)) (\<lambda>v. Inr (v, snd vr))))
         else read_atom env hk s)"
| "parse_items env hk 0 n s = Inl expecting_value"
| "parse_items env hk (Suc f) n s =
    andthen (parse env hk f n s)
      (\<lambda>vr. let r = skip_ws (snd vr) in
         if take 1 r = [93] then Inr ([fst vr], drop 1 r)
         else if take 1 r = [44] then
           andthen (parse_items env hk f n (skip_ws (drop 1 r)))
             (\<lambda>vsr. Inr (fst vr # fst vsr, snd vsr))
         else Inl (ValueErr ''Expecting comma delimiter''))"
| "parse_pairs env hk 0 n s = Inl expecting_value"
| "parse_pairs env hk (Suc f) n s =
    (if take 1 s \<noteq> [34] then Inl (ValueErr ''Expecting property name'')
     else (case read_string (length (drop 1 s)) (drop 1 s) of
             None \<Rightarrow> Inl (ValueErr ''Invalid string'')
           | Some (k, r) \<Rightarrow>
               (if take 1 (skip_ws r) \<noteq> [58] then Inl (ValueErr ''Expecting colon delimiter'')
                else andthen (parse env hk f n (skip_ws (drop 1 (skip_ws r))))
                  (\<lambda>vr. let r' = skip_ws (snd vr) in
                     if take 1 r' = [125] then Inr ([(k, fst vr)], drop 1 r')
                     else if take 1 r' = [44] then
                       andthen (parse_pairs env hk f n (skip_ws (drop 1 r')))
                         (\<lambda>kvr. Inr ((k, fst vr) # fst kvr, snd kvr))
                     else Inl (ValueErr ''Expecting comma delimiter'')))))"

definition loads :: "json_env \<Rightarrow> json_hooks \<Rightarrow> ustr \<Rightarrow> pyval res" where
  "loads env hk s =
    (if take 1 s = [65279] then Inl (ValueErr ''Unexpected UTF-8 BOM'')
     else andthen (parse env hk (2 * length s) (je_nesting env) (skip_ws s))
       (\<lambda>vr. if skip_ws (snd vr) = [] then Inr (fst vr) else Inl (ValueErr ''Extra data'')))"

end
