(* ===== verification/Tool_Schema.thy ===== *)
theory Tool_Schema
  imports Json_Text
begin

text \<open>
  \<^verbatim>\<open>realtime/tool_schema.py\<close>: the bounded JSON Schema subset for function tools. Schemas and values
  are Python values; every check that raises is a branch with its error. A branch that Python would
  leave with an AttributeError or a TypeError because a schema has the wrong shape returns
  \<open>TypeErr\<close>; \<open>matches_schema_total\<close> shows that no schema \<open>validate_schema\<close> accepted reaches one.
\<close>

section \<open>Definitions\<close>

definition SCHEMA_TYPES :: "ustr list" where
  "SCHEMA_TYPES = map u [''object'', ''array'', ''string'', ''number'', ''integer'', ''boolean'', ''null'']"

definition SCHEMA_KEYWORDS :: "ustr list" where
  "SCHEMA_KEYWORDS = map u
     [''type'', ''description'', ''title'', ''properties'', ''required'', ''additionalProperties'',
      ''items'', ''enum'', ''const'', ''minimum'', ''maximum'', ''minLength'', ''maxLength'',
      ''minItems'', ''maxItems'', ''anyOf'', ''oneOf'', ''allOf'']"

definition json_bytes :: "json_env \<Rightarrow> pyval \<Rightarrow> ustr res" where
  "json_bytes env v = andthen (dumps env compact_style v) encode_utf8"

fun is_str :: "pyval \<Rightarrow> bool" where "is_str (VStr _) = True" | "is_str _ = False"
fun is_bool :: "pyval \<Rightarrow> bool" where "is_bool (VBool _) = True" | "is_bool _ = False"
fun is_list :: "pyval \<Rightarrow> bool" where "is_list (VList _) = True" | "is_list _ = False"
fun is_dict :: "pyval \<Rightarrow> bool" where "is_dict (VDict _) = True" | "is_dict _ = False"

fun is_int :: "pyval \<Rightarrow> bool" where
  \<comment> \<open>\<^verbatim>\<open>isinstance(v, int)\<close> without the booleans\<close>
  "is_int (VInt _) = True" | "is_int _ = False"

fun is_float :: "pyval \<Rightarrow> bool" where "is_float (VFloat _) = True" | "is_float _ = False"

definition kinds_of :: "pyval \<Rightarrow> pyval list" where
  "kinds_of kind = (case kind of VList ks \<Rightarrow> ks | _ \<Rightarrow> [kind])"

definition known_kind :: "pyval \<Rightarrow> bool" where
  "known_kind k = (case k of VStr s \<Rightarrow> s \<in> set SCHEMA_TYPES | _ \<Rightarrow> False)"

definition get_or :: "dict \<Rightarrow> string \<Rightarrow> pyval \<Rightarrow> pyval" where
  \<comment> \<open>\<^verbatim>\<open>d.get(key, default)\<close>\<close>
  "get_or d k v = (case map_of d (u k) of None \<Rightarrow> v | Some w \<Rightarrow> w)"

definition alternatives_children :: "pyval \<Rightarrow> pyval list res" where
  "alternatives_children v =
    (case v of VList cs \<Rightarrow> if cs = [] then Inl (ValueErr ''invalid schema alternatives'') else Inr cs
     | _ \<Rightarrow> Inl (ValueErr ''invalid schema alternatives''))"

definition bound_ok :: "string \<Rightarrow> pyval \<Rightarrow> unit res" where
  "bound_ok key bound =
    (if \<not> (is_int bound \<or> is_float bound) then Inl (ValueErr ''invalid schema bound'')
     else if key \<noteq> ''minimum'' \<and> key \<noteq> ''maximum''
             \<and> (case bound of VInt i \<Rightarrow> i < 0 | _ \<Rightarrow> True)
     then Inl (ValueErr ''invalid schema size bound'')
     else Inr ())"

definition schema_body :: "(pyval \<Rightarrow> unit res) \<Rightarrow> pyval \<Rightarrow> unit res" where
  \<comment> \<open>the body of \<^verbatim>\<open>validate_schema\<close> at a depth of at most 32; \<open>rc\<close> is the call one level deeper\<close>
  "schema_body rc v =
    (case v of
       VDict s \<Rightarrow>
         if \<not> keys_within s SCHEMA_KEYWORDS
         then Inl (ValueErr ''unsupported tool schema'')
         else seq_all
           [check (dget s (u ''type'') = VNone
                   \<or> kinds_of (dget s (u ''type'')) \<noteq> []
                     \<and> list_all known_kind (kinds_of (dget s (u ''type''))))
              (ValueErr ''invalid schema type''),
            each_unit (\<lambda>key. check (has_key s (u key) \<longrightarrow> is_str (dget s (u key)))
              (ValueErr ''invalid schema annotation'')) [''description'', ''title''],
            (case get_or s ''properties'' (VDict []) of
               VDict ps \<Rightarrow> each_unit (\<lambda>kv. rc (snd kv)) ps
             | _ \<Rightarrow> Inl (ValueErr ''invalid schema properties'')),
            (case get_or s ''required'' (VList []) of
               VList ks \<Rightarrow> check (list_all is_str ks \<and> distinct ks)
                 (ValueErr ''invalid schema required'')
             | _ \<Rightarrow> Inl (ValueErr ''invalid schema required'')),
            (case get_or s ''additionalProperties'' (VBool True) of
               VBool _ \<Rightarrow> Inr () | a \<Rightarrow> rc a),
            (case map_of s (u ''items'') of None \<Rightarrow> Inr () | Some c \<Rightarrow> rc c),
            each_unit (\<lambda>key. case map_of s (u key) of
                None \<Rightarrow> Inr ()
              | Some cs \<Rightarrow> andthen (alternatives_children cs) (each_unit rc))
              [''anyOf'', ''oneOf'', ''allOf''],
            (case map_of s (u ''enum'') of
               None \<Rightarrow> Inr ()
             | Some e \<Rightarrow> check (case e of VList xs \<Rightarrow> xs \<noteq> [] | _ \<Rightarrow> False)
                 (ValueErr ''invalid schema enum'')),
            each_unit (\<lambda>key. case map_of s (u key) of None \<Rightarrow> Inr () | Some b \<Rightarrow> bound_ok key b)
              [''minimum'', ''maximum'', ''minLength'', ''maxLength'', ''minItems'', ''maxItems'']]
     | _ \<Rightarrow> Inl (ValueErr ''unsupported tool schema''))"

primrec schema_levels :: "nat \<Rightarrow> pyval \<Rightarrow> unit res" where
  \<comment> \<open>the number is how many levels the depth bound still allows\<close>
  "schema_levels 0 v = Inl (ValueErr ''unsupported tool schema'')"
| "schema_levels (Suc k) v = schema_body (schema_levels k) v"

definition SCHEMA_DEPTH :: nat where "SCHEMA_DEPTH = 32"

definition validate_schema :: "pyval \<Rightarrow> nat \<Rightarrow> unit res" where
  \<comment> \<open>a depth above 32 leaves no level\<close>
  "validate_schema v depth = schema_levels (SCHEMA_DEPTH + 1 - depth) v"

definition tool_name_char :: "nat \<Rightarrow> bool" where
  "tool_name_char c \<longleftrightarrow> is_upper c \<or> is_lower c \<or> is_digit c \<or> c = 95 \<or> c = 45"

definition tool_name_ok :: "ustr \<Rightarrow> bool" where
  \<comment> \<open>the regular expression \<^verbatim>\<open>[A-Za-z0-9_-]{1,64}\<close>\<close>
  "tool_name_ok s \<longleftrightarrow> 1 \<le> length s \<and> length s \<le> 64 \<and> list_all tool_name_char s"

definition validate_tool :: "ustr list \<Rightarrow> pyval \<Rightarrow> ustr list res" where
  \<comment> \<open>one turn of the loop of \<^verbatim>\<open>validate_tools\<close>; the state is the set of names seen\<close>
  "validate_tool names tool =
    (case tool of
       VDict t \<Rightarrow>
         if \<not> keys_within t (map u [''type'', ''name'', ''description'', ''parameters'', ''strict''])
         then Inl (ValueErr ''invalid function tool'')
         else
           (case (dget t (u ''type'') = vs ''function'', dget t (u ''name'')) of
              (True, VStr name) \<Rightarrow>
                (if \<not> tool_name_ok name \<or> name \<in> set names
                 then Inl (ValueErr ''invalid or duplicate function name'')
                 else if has_key t (u ''description'') \<and> \<not> is_str (dget t (u ''description''))
                 then Inl (ValueErr ''invalid function description'')
                 else if has_key t (u ''strict'') \<and> \<not> is_bool (dget t (u ''strict''))
                 then Inl (ValueErr ''invalid function strict flag'')
                 else andthen (validate_schema (dget t (u ''parameters'')) 0) (\<lambda>_.
                   (case dget t (u ''parameters'') of
                      VDict p \<Rightarrow>
                        if dget p (u ''type'') = vs ''object'' then Inr (name # names)
                        else Inl (ValueErr ''function parameters must be an object schema'')
                    | _ \<Rightarrow> Inl (ValueErr ''function parameters must be an object schema''))))
            | _ \<Rightarrow> Inl (ValueErr ''invalid or duplicate function name''))
     | _ \<Rightarrow> Inl (ValueErr ''invalid function tool''))"

definition validate_tools :: "json_env \<Rightarrow> nat \<Rightarrow> pyval \<Rightarrow> unit res" where
  "validate_tools env limit tools =
    (case tools of
       VList ts \<Rightarrow>
         (case json_bytes env tools of
            Inl _ \<Rightarrow> Inl (ValueErr ''tool catalog must contain bounded JSON'')
          | Inr payload \<Rightarrow>
              if limit < utf8_len payload then Inl (ValueErr ''tool catalog is too large'')
              else andthen (fold_r validate_tool [] ts) (\<lambda>_. Inr ()))
     | _ \<Rightarrow> Inl (ValueErr ''tool catalog must be a list''))"

definition TOOL_CATALOG_LIMIT :: nat where "TOOL_CATALOG_LIMIT = 65536"

fun float_is_integer :: "pyfloat \<Rightarrow> bool" where
  "float_is_integer (Fin q) = (snd (quotient_of q) = 1)"
| "float_is_integer _ = False"

definition has_type :: "pyval \<Rightarrow> pyval \<Rightarrow> bool" where
  "has_type v kind =
    (if kind = vs ''null'' then v = VNone
     else if kind = vs ''boolean'' then is_bool v
     else if kind = vs ''string'' then is_str v
     else if kind = vs ''object'' then is_dict v
     else if kind = vs ''array'' then is_list v
     else if \<not> (is_int v \<or> is_float v) then False
     else kind = vs ''number''
          \<or> kind = vs ''integer''
            \<and> (case v of VFloat f \<Rightarrow> float_is_integer f | _ \<Rightarrow> True))"

definition and_r :: "bool res \<Rightarrow> bool res \<Rightarrow> bool res" where
  \<comment> \<open>\<^verbatim>\<open>if not check: return False\<close>, then the rest\<close>
  "and_r m k = andthen m (\<lambda>b. if b then k else Inr False)"

fun all_r :: "('a \<Rightarrow> bool res) \<Rightarrow> 'a list \<Rightarrow> bool res" where
  \<comment> \<open>\<^verbatim>\<open>all(f(x) for x in xs)\<close>, stopping at the first \<^verbatim>\<open>False\<close>\<close>
  "all_r f [] = Inr True"
| "all_r f (x # xs) = andthen (f x) (\<lambda>b. if b then all_r f xs else Inr False)"

primrec json_equal :: "nat \<Rightarrow> pyval \<Rightarrow> pyval \<Rightarrow> bool res" where
  \<comment> \<open>\<^verbatim>\<open>_json_equal\<close>, where the number is how many nested calls the interpreter's stack still admits\<close>
  "json_equal 0 v w = Inl RecursionErr"
| "json_equal (Suc n) v w =
    (if is_bool v \<or> is_bool w then Inr (is_bool v \<and> is_bool w \<and> v = w)
     else
       (case (v, w) of
          (VDict d, VDict e) \<Rightarrow>
            if dkeys d \<noteq> dkeys e then Inr False
            else all_r (\<lambda>kv. case map_of e (fst kv) of
                None \<Rightarrow> Inl KeyErr | Some x \<Rightarrow> json_equal n (snd kv) x) d
        | (VList xs, VList ys) \<Rightarrow>
            if length xs \<noteq> length ys then Inr False
            else all_r (\<lambda>xy. json_equal n (fst xy) (snd xy)) (zip xs ys)
        | _ \<Rightarrow> Inr (py_eq v w)))"

fun any_r :: "('a \<Rightarrow> bool res) \<Rightarrow> 'a list \<Rightarrow> bool res" where
  \<comment> \<open>\<^verbatim>\<open>any(f(x) for x in xs)\<close>, stopping at the first \<^verbatim>\<open>True\<close>\<close>
  "any_r f [] = Inr False"
| "any_r f (x # xs) = andthen (f x) (\<lambda>b. if b then Inr True else any_r f xs)"

definition list_of :: "pyval \<Rightarrow> pyval list res" where
  "list_of v = (case v of VList xs \<Rightarrow> Inr xs | _ \<Rightarrow> Inl TypeErr)"

definition dict_of :: "pyval \<Rightarrow> dict res" where
  "dict_of v = (case v of VDict d \<Rightarrow> Inr d | _ \<Rightarrow> Inl TypeErr)"

definition le_r :: "pyval \<Rightarrow> pyval \<Rightarrow> bool res" where
  "le_r a b = (case (num_of a, num_of b) of (Some x, Some y) \<Rightarrow> Inr (num_le x y) | _ \<Rightarrow> Inl TypeErr)"

definition between :: "pyval \<Rightarrow> pyval \<Rightarrow> pyval \<Rightarrow> bool res" where
  \<comment> \<open>the chained comparison \<^verbatim>\<open>a <= x <= b\<close>\<close>
  "between a x b = and_r (le_r a x) (le_r x b)"

definition alternatives_ok :: "string \<Rightarrow> bool list \<Rightarrow> bool" where
  "alternatives_ok keyword results =
    (if keyword = ''anyOf'' then list_ex id results
     else if keyword = ''oneOf'' then length (filter id results) = 1
     else list_all id results)"

text \<open>
  The body of \<^verbatim>\<open>matches_schema\<close> at a depth of at most 32, in its order; \<open>rc\<close> is the call one level
  deeper and \<open>room\<close> the number of nested calls the interpreter's stack still admits, counted in calls of
  the two recursive functions; one that has no room raises a \<^verbatim>\<open>RecursionError\<close>. \<open>and_all\<close> stops at the
  first check that does not hold.
\<close>

fun and_all :: "bool res list \<Rightarrow> bool res" where
  "and_all [] = Inr True"
| "and_all (m # ms) = and_r m (and_all ms)"

definition enum_check :: "nat \<Rightarrow> pyval \<Rightarrow> dict \<Rightarrow> bool res" where
  "enum_check room v s =
    (case map_of s (u ''enum'') of
       None \<Rightarrow> Inr True
     | Some e \<Rightarrow> andthen (list_of e) (any_r (json_equal room v)))"

definition const_check :: "nat \<Rightarrow> pyval \<Rightarrow> dict \<Rightarrow> bool res" where
  "const_check room v s =
    (case map_of s (u ''const'') of None \<Rightarrow> Inr True | Some c \<Rightarrow> json_equal room v c)"

definition alternatives_check ::
    "(pyval \<Rightarrow> dict \<Rightarrow> bool res) \<Rightarrow> pyval \<Rightarrow> dict \<Rightarrow> string \<Rightarrow> bool res" where
  "alternatives_check rc v s keyword =
    (case map_of s (u keyword) of
       None \<Rightarrow> Inr True
     | Some cs \<Rightarrow>
         andthen (list_of cs) (\<lambda>children.
         andthen (each (\<lambda>c. andthen (dict_of c) (rc v)) children) (\<lambda>results.
         Inr (alternatives_ok keyword results))))"

definition required_check :: "dict \<Rightarrow> dict \<Rightarrow> bool res" where
  "required_check d s =
    andthen (list_of (get_or s ''required'' (VList []))) (\<lambda>ks.
      Inr (list_all (\<lambda>k. case k of VStr n \<Rightarrow> has_key d n | _ \<Rightarrow> False) ks))"

definition child_schema :: "dict \<Rightarrow> dict \<Rightarrow> ustr \<Rightarrow> pyval" where
  "child_schema ps s key =
    (case map_of ps key of Some c \<Rightarrow> c | None \<Rightarrow> get_or s ''additionalProperties'' (VBool True))"

definition children_check :: "(pyval \<Rightarrow> dict \<Rightarrow> bool res) \<Rightarrow> dict \<Rightarrow> dict \<Rightarrow> bool res" where
  "children_check rc d s =
    all_r (\<lambda>kv. andthen (dict_of (get_or s ''properties'' (VDict []))) (\<lambda>ps.
      case child_schema ps s (fst kv) of
        VBool b \<Rightarrow> Inr b
      | VDict child \<Rightarrow> rc (snd kv) child
      | _ \<Rightarrow> Inr True)) d"

definition items_check :: "(pyval \<Rightarrow> dict \<Rightarrow> bool res) \<Rightarrow> pyval list \<Rightarrow> dict \<Rightarrow> bool res" where
  "items_check rc xs s =
    (case map_of s (u ''items'') of
       None \<Rightarrow> Inr True
     | Some c \<Rightarrow> all_r (\<lambda>x. andthen (dict_of c) (rc x)) xs)"

definition matches_body :: "nat \<Rightarrow> (pyval \<Rightarrow> dict \<Rightarrow> bool res) \<Rightarrow> pyval \<Rightarrow> dict \<Rightarrow> bool res" where
  "matches_body room rc v s = and_all
     [Inr (dget s (u ''type'') = VNone \<or> list_ex (has_type v) (kinds_of (dget s (u ''type'')))),
      enum_check room v s,
      const_check room v s,
      all_r (alternatives_check rc v s) [''anyOf'', ''oneOf'', ''allOf''],
      (case v of
         VDict d \<Rightarrow> and_all [required_check d s, children_check rc d s]
       | VList xs \<Rightarrow> and_all
           [between (get_or s ''minItems'' (VInt 0)) (VInt (int (length xs)))
              (get_or s ''maxItems'' (VFloat PosInf)),
            items_check rc xs s]
       | VStr t \<Rightarrow> between (get_or s ''minLength'' (VInt 0)) (VInt (int (length t)))
              (get_or s ''maxLength'' (VFloat PosInf))
       | _ \<Rightarrow>
           (if is_int v \<or> is_float v
            then between (get_or s ''minimum'' (VFloat NegInf)) v
                   (get_or s ''maximum'' (VFloat PosInf))
            else Inr True))]"

primrec matches_levels :: "nat \<Rightarrow> nat \<Rightarrow> pyval \<Rightarrow> dict \<Rightarrow> bool res" where
  \<comment> \<open>a call needs room on the stack, and the calls nested in it have one place less\<close>
  "matches_levels 0 room v s = (if room = 0 then Inl RecursionErr else Inr False)"
| "matches_levels (Suc k) room v s =
    (if room = 0 then Inl RecursionErr else matches_body (room - 1) (matches_levels k (room - 1)) v s)"

definition matches_schema :: "nat \<Rightarrow> pyval \<Rightarrow> dict \<Rightarrow> nat \<Rightarrow> bool res" where
  "matches_schema room v s depth = matches_levels (SCHEMA_DEPTH + 1 - depth) room v s"

definition argument_hooks :: json_hooks where
  "argument_hooks = \<lparr>jh_duplicate = Some (ValueErr ''duplicate argument key''),
     jh_constant = Some (ValueErr ''nonfinite argument'')\<rparr>"

definition parse_arguments :: "json_env \<Rightarrow> ustr \<Rightarrow> dict res" where
  "parse_arguments env payload =
    andthen (loads env argument_hooks payload) (\<lambda>v.
      (case v of
         VDict d \<Rightarrow> andthen (json_bytes env v) (\<lambda>_. Inr d)
       | _ \<Rightarrow> Inl (ValueErr ''tool arguments must be an object'')))"

section \<open>Equality of JSON values\<close>

text \<open>
  What the comparison decides, without the stack of the interpreter: equality of JSON values, where a
  boolean is only equal to itself.
\<close>

fun json_same :: "pyval \<Rightarrow> pyval \<Rightarrow> bool"
  and json_same_list :: "pyval list \<Rightarrow> pyval list \<Rightarrow> bool"
  and json_same_items :: "(ustr \<times> pyval) list \<Rightarrow> dict \<Rightarrow> bool" where
  "json_same (VBool b) r = (r = VBool b)"
| "json_same (VDict d) r =
    (case r of VDict e \<Rightarrow> dkeys d = dkeys e \<and> json_same_items d e | _ \<Rightarrow> False)"
| "json_same (VList xs) r = (case r of VList ys \<Rightarrow> json_same_list xs ys | _ \<Rightarrow> False)"
| "json_same VNone r = (r = VNone)"
| "json_same (VInt i) r = (\<not> is_bool r \<and> py_eq (VInt i) r)"
| "json_same (VFloat f) r = (\<not> is_bool r \<and> py_eq (VFloat f) r)"
| "json_same (VStr s) r = (r = VStr s)"
| "json_same (VTuple xs) r = py_eq (VTuple xs) r"
| "json_same_list [] ys = (ys = [])"
| "json_same_list (x # xs) ys =
    (case ys of [] \<Rightarrow> False | y # ys' \<Rightarrow> json_same x y \<and> json_same_list xs ys')"
| "json_same_items [] e = True"
| "json_same_items (kv # d) e =
    (case map_of e (fst kv) of
       None \<Rightarrow> False
     | Some w \<Rightarrow> json_same (snd kv) w \<and> json_same_items d e)"

fun json_value :: "pyval \<Rightarrow> bool" and json_values :: "pyval list \<Rightarrow> bool"
  and json_items :: "(ustr \<times> pyval) list \<Rightarrow> bool" where
  \<comment> \<open>the values a JSON document can hold: no tuple, no NaN, no repeated key\<close>
  "json_value (VFloat f) = (f \<noteq> NaN)"
| "json_value (VTuple _) = False"
| "json_value (VList xs) = json_values xs"
| "json_value (VDict d) = (distinct (map fst d) \<and> json_items d)"
| "json_value _ = True"
| "json_values [] = True"
| "json_values (x # xs) = (json_value x \<and> json_values xs)"
| "json_items [] = True"
| "json_items (kv # d) = (json_value (snd kv) \<and> json_items d)"

lemma json_values_iff: "json_values xs \<longleftrightarrow> (\<forall>x \<in> set xs. json_value x)"
  by (induction xs) auto

lemma json_items_iff: "json_items d \<longleftrightarrow> (\<forall>kv \<in> set d. json_value (snd kv))"
  by (induction d) auto

lemma json_same_list_iff: "json_same_list xs ys \<longleftrightarrow> list_all2 json_same xs ys"
  by (induction xs arbitrary: ys) (auto simp: list_all2_Cons1 split: list.splits)

lemma json_same_items_iff:
  "json_same_items d e \<longleftrightarrow> (\<forall>kv \<in> set d. \<exists>w. map_of e (fst kv) = Some w \<and> json_same (snd kv) w)"
  by (induction d) (auto split: option.splits)

lemma num_eq_refl: "x \<noteq> NaN \<Longrightarrow> num_eq x x"
  by (cases x) auto

lemma num_eq_sym: "num_eq x y \<Longrightarrow> num_eq y x"
  by (cases x; cases y) auto

lemma json_same_refl: "json_value v \<Longrightarrow> json_same v v"
proof (induction v)
  case (VList xs)
  then show ?case by (auto simp: json_same_list_iff json_values_iff list_all2_same)
next
  case (VDict d)
  show ?case unfolding json_same.simps pyval.case json_same_items_iff
  proof (intro conjI ballI exI)
    fix kv assume kv: "kv \<in> set d"
    show "map_of d (fst kv) = Some (snd kv)" using VDict.prems kv by auto
    show "json_same (snd kv) (snd kv)"
      using VDict.IH [OF kv, of "snd kv"] VDict.prems kv by (auto simp: json_items_iff snds.simps)
  qed (rule refl)
qed (auto intro: num_eq_refl)

lemma json_same_num_sym:
  "num_of a = Some x \<Longrightarrow> \<not> is_bool a \<Longrightarrow> json_same a b \<Longrightarrow> json_value b \<Longrightarrow> json_same b a"
  by (cases a; cases b) (auto dest: num_eq_sym)

lemma json_same_sym: "json_same v w \<Longrightarrow> json_value v \<Longrightarrow> json_value w \<Longrightarrow> json_same w v"
proof (induction v arbitrary: w)
  case (VList xs)
  from VList.prems(1) obtain ys where w: "w = VList ys" "list_all2 json_same xs ys"
    by (auto simp: json_same_list_iff split: pyval.splits)
  have "list_all2 json_same ys xs"
    using w(2) VList.IH VList.prems(2,3) w(1)
    by (auto simp: list_all2_conv_all_nth json_values_iff)
  then show ?case using w(1) by (simp add: json_same_list_iff)
next
  case (VDict d)
  from VDict.prems(1) obtain e where w: "w = VDict e" "dkeys d = dkeys e" "json_same_items d e"
    by (auto split: pyval.splits)
  have "\<exists>v. map_of d (fst kv) = Some v \<and> json_same (snd kv) v" if kv: "kv \<in> set e" for kv
  proof -
    have "fst kv \<in> dkeys d" using kv w(2) by (auto simp: dkeys_def)
    then obtain v where v: "(fst kv, v) \<in> set d" by (auto simp: dkeys_def)
    have d: "map_of d (fst kv) = Some v" using v VDict.prems(2) by simp
    have "map_of e (fst kv) = Some (snd kv)" using kv VDict.prems(3) w(1) by auto
    then have "json_same v (snd kv)" using w(3) v by (force simp: json_same_items_iff)
    then have "json_same (snd kv) v"
      using VDict.IH [OF v, of v "snd kv"] VDict.prems(2,3) v kv w(1)
      by (auto simp: json_items_iff snds.simps)
    with d show ?thesis by blast
  qed
  then show ?case using w by (simp add: json_same_items_iff)
next
  case (VInt i)
  then show ?case using json_same_num_sym [of "VInt i"] by simp
next
  case (VFloat f)
  then show ?case using json_same_num_sym [of "VFloat f"] by simp
qed auto

text \<open>
  \<open>depth_ok n v\<close>: the value is nested at most \<open>n\<close> deep. \<open>below m m'\<close>: \<open>m\<close> is the same result as \<open>m'\<close>, or it
  ran out of stack. The comparison is below the equality, and it decides it when one value fits.
\<close>

primrec depth_ok :: "nat \<Rightarrow> pyval \<Rightarrow> bool" where
  "depth_ok 0 v = False"
| "depth_ok (Suc n) v =
    (case v of
       VList xs \<Rightarrow> list_all (depth_ok n) xs
     | VDict d \<Rightarrow> list_all (\<lambda>kv. depth_ok n (snd kv)) d
     | _ \<Rightarrow> True)"

definition below :: "'a res \<Rightarrow> 'a res \<Rightarrow> bool" where
  "below m m' \<longleftrightarrow> m = Inl RecursionErr \<or> m = m'"

lemma below_refl [simp, intro]: "below m m"
  by (simp add: below_def)

lemma below_raised [simp, intro]: "below (Inl RecursionErr) m"
  by (simp add: below_def)

lemma below_Inr: "below (Inr x) m \<longleftrightarrow> m = Inr x"
  by (auto simp: below_def)

lemma below_andthen: "below m m' \<Longrightarrow> (\<And>x. m' = Inr x \<Longrightarrow> below (f x) (g x)) \<Longrightarrow> below (andthen m f) (andthen m' g)"
  by (cases m') (auto simp: below_def)

lemma below_and_r: "below m m' \<Longrightarrow> below k k' \<Longrightarrow> below (and_r m k) (and_r m' k')"
  unfolding and_r_def by (rule below_andthen) auto

lemma below_and_all: "list_all2 below ms ms' \<Longrightarrow> below (and_all ms) (and_all ms')"
  by (induction rule: list_all2_induct) (auto intro: below_and_r)

lemma below_all_r: "(\<And>x. x \<in> set xs \<Longrightarrow> below (f x) (g x)) \<Longrightarrow> below (all_r f xs) (all_r g xs)"
  by (induction xs) (auto intro!: below_andthen)

lemma below_any_r: "(\<And>x. x \<in> set xs \<Longrightarrow> below (f x) (g x)) \<Longrightarrow> below (any_r f xs) (any_r g xs)"
  by (induction xs) (auto intro!: below_andthen)

lemma below_each: "(\<And>x. x \<in> set xs \<Longrightarrow> below (f x) (g x)) \<Longrightarrow> below (each f xs) (each g xs)"
  by (induction xs) (auto intro!: below_andthen)

lemma all_r_Inr: "(\<And>x. x \<in> set xs \<Longrightarrow> f x = Inr (P x)) \<Longrightarrow> all_r f xs = Inr (list_all P xs)"
  by (induction xs) auto

lemma depth_ok_mono: "depth_ok n v \<Longrightarrow> n \<le> m \<Longrightarrow> depth_ok m v"
proof (induction n arbitrary: v m)
  case (Suc n)
  then obtain m' where m: "m = Suc m'" "n \<le> m'" by (cases m) auto
  then show ?case using Suc by (cases v) (auto simp: list_all_iff)
qed simp

lemma json_equal_mono: "n \<le> m \<Longrightarrow> below (json_equal n v w) (json_equal m v w)"
proof (induction n arbitrary: v w m)
  case (Suc n)
  then obtain m' where m: "m = Suc m'" "n \<le> m'" by (cases m) auto
  show ?case
    using Suc.IH [OF m(2)] unfolding m(1)
    by (cases v; cases w) (auto intro!: below_all_r split: option.split)
qed simp

lemma zip_all2: "length xs = length ys \<Longrightarrow> list_all (\<lambda>xy. P (fst xy) (snd xy)) (zip xs ys) = list_all2 P xs ys"
  by (auto simp: list_all2_iff list_all_iff)

lemma json_equal_decides: "depth_ok n v \<Longrightarrow> json_equal n v w = Inr (json_same v w)"
proof (induction n arbitrary: v w)
  case (Suc n)
  show ?case
  proof (cases "is_bool v \<or> is_bool w")
    case True
    then show ?thesis by (cases v; cases w) auto
  next
    case plain: False
    show ?thesis
    proof (cases v)
      case (VList xs)
      have "all_r (\<lambda>xy. json_equal n (fst xy) (snd xy)) (zip xs ys)
          = Inr (list_all (\<lambda>xy. json_same (fst xy) (snd xy)) (zip xs ys))" for ys
        by (rule all_r_Inr, rule Suc.IH)
          (use Suc.prems VList in \<open>auto simp: list_all_iff dest: set_zip_leftD\<close>)
      then show ?thesis using VList plain
        by (cases w) (auto simp: json_same_list_iff zip_all2 list_all2_lengthD)
    next
      case (VDict d)
      have "all_r (\<lambda>kv. case map_of e (fst kv) of None \<Rightarrow> Inl KeyErr | Some x \<Rightarrow> json_equal n (snd kv) x) d
          = Inr (list_all (\<lambda>kv. \<exists>w. map_of e (fst kv) = Some w \<and> json_same (snd kv) w) d)"
        if keys: "dkeys d = dkeys e" for e
      proof (rule all_r_Inr)
        fix kv assume kv: "kv \<in> set d"
        then have "fst kv \<in> fst ` set e" using keys by (auto simp: dkeys_def)
        then obtain x where x: "map_of e (fst kv) = Some x"
          by (cases "map_of e (fst kv)") (simp_all add: map_of_eq_None_iff)
        have "depth_ok n (snd kv)" using Suc.prems VDict kv by (auto simp: list_all_iff)
        then show "(case map_of e (fst kv) of None \<Rightarrow> Inl KeyErr | Some x \<Rightarrow> json_equal n (snd kv) x)
            = Inr (\<exists>w. map_of e (fst kv) = Some w \<and> json_same (snd kv) w)"
          using Suc.IH x by simp
      qed
      then show ?thesis using VDict plain
        by (cases w) (auto simp: json_same_items_iff list_all_iff)
    qed (use plain in \<open>auto split: pyval.split\<close>)
  qed
qed simp

section \<open>A validated schema never fails to be applied\<close>

definition returns :: "'a res \<Rightarrow> bool" where
  "returns m \<longleftrightarrow> (\<exists>x. m = Inr x)"

lemma returns_Inr [simp, intro]: "returns (Inr x)"
  by (simp add: returns_def)

lemma returns_and_r [intro]: "returns m \<Longrightarrow> returns k \<Longrightarrow> returns (and_r m k)"
  by (auto simp: returns_def and_r_def)

lemma returns_andthen: "m = Inr x \<Longrightarrow> returns (f x) \<Longrightarrow> returns (andthen m f)"
  by simp

lemma returns_all_r [intro]: "(\<And>x. x \<in> set xs \<Longrightarrow> returns (f x)) \<Longrightarrow> returns (all_r f xs)"
proof (induction xs)
  case (Cons x xs)
  obtain b where "f x = Inr b" using Cons.prems [of x] by (auto simp: returns_def)
  then show ?case using Cons by simp
qed simp

lemma returns_each: "(\<And>x. x \<in> set xs \<Longrightarrow> returns (f x)) \<Longrightarrow> returns (each f xs)"
proof (induction xs)
  case (Cons x xs)
  obtain b where "f x = Inr b" using Cons.prems [of x] by (auto simp: returns_def)
  moreover obtain bs where "each f xs = Inr bs" using Cons by (auto simp: returns_def)
  ultimately show ?case by simp
qed simp

lemma returns_between [intro]:
  "num_of a \<noteq> None \<Longrightarrow> num_of x \<noteq> None \<Longrightarrow> num_of b \<noteq> None \<Longrightarrow> returns (between a x b)"
  by (auto simp: between_def le_r_def)

lemma all_r_cong: "(\<And>x. x \<in> set xs \<Longrightarrow> f x = g x) \<Longrightarrow> all_r f xs = all_r g xs"
proof (induction xs)
  case (Cons x xs)
  have "f x = g x" "all_r f xs = all_r g xs" using Cons by auto
  then show ?case by (simp only: all_r.simps)
qed simp

lemma num_of_bound: "bound_ok key b = Inr () \<Longrightarrow> num_of b \<noteq> None"
  by (cases b) (auto simp: bound_ok_def split: if_splits)

lemma schema_bodyD:
  assumes "schema_body rc (VDict s) = Inr ()"
  shows "\<exists>ps. get_or s ''properties'' (VDict []) = VDict ps \<and> (\<forall>kv \<in> set ps. rc (snd kv) = Inr ())"
    and "\<exists>ks. get_or s ''required'' (VList []) = VList ks \<and> list_all is_str ks"
    and "is_bool (get_or s ''additionalProperties'' (VBool True))
         \<or> rc (get_or s ''additionalProperties'' (VBool True)) = Inr ()"
    and "map_of s (u ''items'') = Some c \<Longrightarrow> rc c = Inr ()"
    and "k \<in> {''anyOf'', ''oneOf'', ''allOf''} \<Longrightarrow> map_of s (u k) = Some v \<Longrightarrow>
         \<exists>cs. v = VList cs \<and> (\<forall>c \<in> set cs. rc c = Inr ())"
    and "map_of s (u ''enum'') = Some v \<Longrightarrow> \<exists>es. v = VList es"
    and "k \<in> {''minimum'', ''maximum'', ''minLength'', ''maxLength'', ''minItems'', ''maxItems''} \<Longrightarrow>
         num_of d \<noteq> None \<Longrightarrow> num_of (get_or s k d) \<noteq> None"
proof -
  have props: "(case get_or s ''properties'' (VDict []) of
      VDict ps \<Rightarrow> each_unit (\<lambda>kv. rc (snd kv)) ps
    | _ \<Rightarrow> Inl (ValueErr ''invalid schema properties'')) = Inr ()"
    and req: "(case get_or s ''required'' (VList []) of
      VList ks \<Rightarrow> check (list_all is_str ks \<and> distinct ks) (ValueErr ''invalid schema required'')
    | _ \<Rightarrow> Inl (ValueErr ''invalid schema required'')) = Inr ()"
    and add: "(case get_or s ''additionalProperties'' (VBool True) of
      VBool _ \<Rightarrow> Inr () | a \<Rightarrow> rc a) = Inr ()"
    and items: "(case map_of s (u ''items'') of None \<Rightarrow> Inr () | Some c \<Rightarrow> rc c) = Inr ()"
    and alts: "each_unit (\<lambda>key. case map_of s (u key) of None \<Rightarrow> Inr ()
      | Some cs \<Rightarrow> andthen (alternatives_children cs) (each_unit rc))
      [''anyOf'', ''oneOf'', ''allOf''] = Inr ()"
    and enum: "(case map_of s (u ''enum'') of None \<Rightarrow> Inr ()
      | Some e \<Rightarrow> check (case e of VList xs \<Rightarrow> xs \<noteq> [] | _ \<Rightarrow> False)
          (ValueErr ''invalid schema enum'')) = Inr ()"
    and bounds: "each_unit (\<lambda>key. case map_of s (u key) of None \<Rightarrow> Inr () | Some b \<Rightarrow> bound_ok key b)
      [''minimum'', ''maximum'', ''minLength'', ''maxLength'', ''minItems'', ''maxItems''] = Inr ()"
    using assms by (simp_all add: schema_body_def seq_all_Inr del: each_unit.simps seq_all.simps split: if_splits)
  show "\<exists>ps. get_or s ''properties'' (VDict []) = VDict ps \<and> (\<forall>kv \<in> set ps. rc (snd kv) = Inr ())"
    using props by (auto simp: each_unit_Inr split: pyval.splits)
  show "\<exists>ks. get_or s ''required'' (VList []) = VList ks \<and> list_all is_str ks"
    using req by (auto split: pyval.splits)
  show "is_bool (get_or s ''additionalProperties'' (VBool True))
         \<or> rc (get_or s ''additionalProperties'' (VBool True)) = Inr ()"
    using add by (auto split: pyval.splits)
  show "rc c = Inr ()" if "map_of s (u ''items'') = Some c"
    using items that by simp
  show "\<exists>cs. v = VList cs \<and> (\<forall>c \<in> set cs. rc c = Inr ())"
    if k: "k \<in> {''anyOf'', ''oneOf'', ''allOf''}" and v: "map_of s (u k) = Some v"
  proof -
    have "\<forall>key \<in> set [''anyOf'', ''oneOf'', ''allOf'']. (case map_of s (u key) of None \<Rightarrow> Inr ()
      | Some cs \<Rightarrow> andthen (alternatives_children cs) (each_unit rc)) = Inr ()"
      using alts unfolding each_unit_Inr .
    then have "andthen (alternatives_children v) (each_unit rc) = Inr ()"
      using k v by (metis (no_types, lifting) list.set(1,2) option.simps(5))
    then show ?thesis
      by (auto simp: andthen_Inr_iff each_unit_Inr alternatives_children_def
            split: pyval.splits if_splits)
  qed
  show "\<exists>es. v = VList es" if "map_of s (u ''enum'') = Some v"
    using enum that by (auto split: pyval.splits)
  show "num_of (get_or s k d) \<noteq> None"
    if k: "k \<in> {''minimum'', ''maximum'', ''minLength'', ''maxLength'', ''minItems'', ''maxItems''}"
      and d: "num_of d \<noteq> None"
  proof (cases "map_of s (u k)")
    case None
    then show ?thesis using d by (simp add: get_or_def)
  next
    case (Some b)
    have "\<forall>key \<in> set [''minimum'', ''maximum'', ''minLength'', ''maxLength'', ''minItems'', ''maxItems''].
      (case map_of s (u key) of None \<Rightarrow> Inr () | Some b \<Rightarrow> bound_ok key b) = Inr ()"
      using bounds unfolding each_unit_Inr .
    then have "bound_ok k b = Inr ()"
      using k Some by (metis (no_types, lifting) list.set(1,2) option.simps(5))
    then show ?thesis using Some num_of_bound by (simp add: get_or_def)
  qed
qed

lemma schema_levels_dict: "schema_levels k c = Inr () \<Longrightarrow> \<exists>d. c = VDict d"
  by (cases k; cases c) (auto simp: schema_body_def)

lemma is_bool_cases: "is_bool c \<Longrightarrow> \<exists>b. c = VBool b"
  by (cases c) auto

lemma returns_and_all [intro]: "(\<And>m. m \<in> set ms \<Longrightarrow> returns m) \<Longrightarrow> returns (and_all ms)"
  by (induction ms) auto

lemma child_schema_dict:
  assumes body: "schema_body (schema_levels k) (VDict s) = Inr ()"
    and ps: "get_or s ''properties'' (VDict []) = VDict ps"
  shows "(\<exists>b. child_schema ps s key = VBool b)
         \<or> (\<exists>d. child_schema ps s key = VDict d \<and> schema_levels k (VDict d) = Inr ())"
proof (cases "map_of ps key")
  case None
  then show ?thesis
    using schema_bodyD(3) [OF body] schema_levels_dict [of k "child_schema ps s key"]
    by (auto simp: child_schema_def dest: is_bool_cases)
next
  case (Some c)
  then have "(key, c) \<in> set ps" by (rule map_of_SomeD)
  then have "schema_levels k c = Inr ()" using schema_bodyD(1) [OF body] ps by auto
  then show ?thesis using Some schema_levels_dict by (auto simp: child_schema_def)
qed

text \<open>
  The parts of \<open>matches_body\<close> on a schema that has been accepted: where the calls one level
  deeper, \<open>rc\<close> and \<open>rc'\<close>, are one below the other on accepted schemas, so are the parts, and where the
  calls return for the nested values, the part returns.
\<close>

lemma alternatives_check_below:
  assumes body: "schema_body (schema_levels k) (VDict s) = Inr ()"
    and rc: "\<And>d. schema_levels k (VDict d) = Inr () \<Longrightarrow> below (rc v d) (rc' v d)"
    and kw: "keyword \<in> {''anyOf'', ''oneOf'', ''allOf''}"
  shows "below (alternatives_check rc v s keyword) (alternatives_check rc' v s keyword)"
proof (cases "map_of s (u keyword)")
  case (Some cs)
  obtain children where ch: "cs = VList children" "\<forall>c \<in> set children. schema_levels k c = Inr ()"
    using schema_bodyD(5) [OF body kw Some] by auto
  have "below (each (\<lambda>c. andthen (dict_of c) (rc v)) children)
      (each (\<lambda>c. andthen (dict_of c) (rc' v)) children)"
    by (rule below_each) (use ch rc schema_levels_dict in \<open>fastforce simp: dict_of_def\<close>)
  then show ?thesis
    using Some ch by (auto simp: alternatives_check_def list_of_def intro: below_andthen)
qed (simp add: alternatives_check_def)

lemma alternatives_check_returns:
  assumes body: "schema_body (schema_levels k) (VDict s) = Inr ()"
    and ret: "\<And>d. schema_levels k (VDict d) = Inr () \<Longrightarrow> returns (rc v d)"
    and kw: "keyword \<in> {''anyOf'', ''oneOf'', ''allOf''}"
  shows "returns (alternatives_check rc v s keyword)"
proof (cases "map_of s (u keyword)")
  case (Some cs)
  obtain children where ch: "cs = VList children" "\<forall>c \<in> set children. schema_levels k c = Inr ()"
    using schema_bodyD(5) [OF body kw Some] by auto
  have "returns (each (\<lambda>c. andthen (dict_of c) (rc v)) children)"
    by (rule returns_each) (use ch ret schema_levels_dict in \<open>fastforce simp: dict_of_def\<close>)
  then show ?thesis
    using Some ch by (auto simp: alternatives_check_def returns_def list_of_def)
qed (simp add: alternatives_check_def)

lemma children_check_below:
  assumes body: "schema_body (schema_levels k) (VDict s) = Inr ()"
    and rc: "\<And>v d. schema_levels k (VDict d) = Inr () \<Longrightarrow> below (rc v d) (rc' v d)"
  shows "below (children_check rc d s) (children_check rc' d s)"
proof -
  obtain ps where ps: "get_or s ''properties'' (VDict []) = VDict ps"
    using schema_bodyD(1) [OF body] by auto
  show ?thesis unfolding children_check_def ps dict_of_def pyval.case
  proof (rule below_all_r)
    fix kv
    show "below (andthen (Inr ps) (\<lambda>ps. case child_schema ps s (fst kv) of
          VBool b \<Rightarrow> Inr b | VDict child \<Rightarrow> rc (snd kv) child | _ \<Rightarrow> Inr True))
        (andthen (Inr ps) (\<lambda>ps. case child_schema ps s (fst kv) of
          VBool b \<Rightarrow> Inr b | VDict child \<Rightarrow> rc' (snd kv) child | _ \<Rightarrow> Inr True))"
      using child_schema_dict [OF body ps, of "fst kv"] rc by auto
  qed
qed

lemma children_check_returns:
  assumes body: "schema_body (schema_levels k) (VDict s) = Inr ()"
    and ret: "\<And>kv sc. kv \<in> set d \<Longrightarrow> schema_levels k (VDict sc) = Inr () \<Longrightarrow> returns (rc (snd kv) sc)"
  shows "returns (children_check rc d s)"
proof -
  obtain ps where ps: "get_or s ''properties'' (VDict []) = VDict ps"
    using schema_bodyD(1) [OF body] by auto
  have "returns (case child_schema ps s (fst kv) of
      VBool b \<Rightarrow> Inr b | VDict child \<Rightarrow> rc (snd kv) child | _ \<Rightarrow> Inr True)" if "kv \<in> set d" for kv
    using child_schema_dict [OF body ps, of "fst kv"] ret [OF that] by auto
  then show ?thesis unfolding children_check_def ps dict_of_def by (auto intro!: returns_all_r)
qed

lemma items_check_below:
  assumes body: "schema_body (schema_levels k) (VDict s) = Inr ()"
    and rc: "\<And>v d. schema_levels k (VDict d) = Inr () \<Longrightarrow> below (rc v d) (rc' v d)"
  shows "below (items_check rc xs s) (items_check rc' xs s)"
proof (cases "map_of s (u ''items'')")
  case (Some c)
  then obtain d where "c = VDict d" "schema_levels k (VDict d) = Inr ()"
    using schema_bodyD(4) [OF body] schema_levels_dict by blast
  then show ?thesis using rc Some by (auto simp: items_check_def dict_of_def intro!: below_all_r)
qed (simp add: items_check_def)

lemma items_check_returns:
  assumes body: "schema_body (schema_levels k) (VDict s) = Inr ()"
    and ret: "\<And>v d. v \<in> set xs \<Longrightarrow> schema_levels k (VDict d) = Inr () \<Longrightarrow> returns (rc v d)"
  shows "returns (items_check rc xs s)"
proof (cases "map_of s (u ''items'')")
  case (Some c)
  then obtain d where "c = VDict d" "schema_levels k (VDict d) = Inr ()"
    using schema_bodyD(4) [OF body] schema_levels_dict by blast
  then show ?thesis using ret Some by (auto simp: items_check_def dict_of_def intro!: returns_all_r)
qed (simp add: items_check_def)

lemma comparisons_below:
  assumes "n \<le> m"
  shows "below (enum_check n v s) (enum_check m v s)" and "below (const_check n v s) (const_check m v s)"
  unfolding enum_check_def const_check_def using json_equal_mono [OF assms]
  by (auto split: option.split intro!: below_andthen below_any_r)

lemma returns_any_r: "(\<And>x. x \<in> set xs \<Longrightarrow> returns (f x)) \<Longrightarrow> returns (any_r f xs)"
proof (induction xs)
  case (Cons x xs)
  obtain b where "f x = Inr b" using Cons.prems [of x] by (auto simp: returns_def)
  then show ?case using Cons by simp
qed simp

lemma simple_checks_return:
  assumes body: "schema_body (schema_levels k) (VDict s) = Inr ()"
  shows "depth_ok n v \<Longrightarrow> returns (enum_check n v s)" and "depth_ok n v \<Longrightarrow> returns (const_check n v s)"
    and "returns (required_check d s)"
    and "key \<in> {''minItems'', ''minLength'', ''minimum''} \<Longrightarrow>
         key' \<in> {''maxItems'', ''maxLength'', ''maximum''} \<Longrightarrow> num_of a \<noteq> None \<Longrightarrow> num_of b \<noteq> None \<Longrightarrow>
         num_of x \<noteq> None \<Longrightarrow> returns (between (get_or s key a) x (get_or s key' b))"
proof -
  show "returns (enum_check n v s)" if "depth_ok n v"
    using schema_bodyD(6) [OF body] json_equal_decides [OF that]
    by (fastforce simp: enum_check_def list_of_def intro!: returns_any_r split: option.splits)
  show "returns (const_check n v s)" if "depth_ok n v"
    using json_equal_decides [OF that] by (simp add: const_check_def split: option.splits)
  show "returns (required_check d s)"
    using schema_bodyD(2) [OF body] by (fastforce simp: required_check_def list_of_def)
  show "returns (between (get_or s key a) x (get_or s key' b))"
    if "key \<in> {''minItems'', ''minLength'', ''minimum''}"
      "key' \<in> {''maxItems'', ''maxLength'', ''maximum''}"
      "num_of a \<noteq> None" "num_of b \<noteq> None" "num_of x \<noteq> None"
    by (rule returns_between) (use that schema_bodyD(7) [OF body] in auto)
qed

lemma matches_body_below:
  assumes body: "schema_body (schema_levels k) (VDict s) = Inr ()" and "n \<le> m"
    and rc: "\<And>v d. schema_levels k (VDict d) = Inr () \<Longrightarrow> below (rc v d) (rc' v d)"
  shows "below (matches_body n rc v s) (matches_body m rc' v s)"
proof -
  have "below (all_r (alternatives_check rc v s) [''anyOf'', ''oneOf'', ''allOf''])
      (all_r (alternatives_check rc' v s) [''anyOf'', ''oneOf'', ''allOf''])"
    by (rule below_all_r, rule alternatives_check_below [OF body rc]) auto
  moreover note comparisons_below [OF assms(2), of v s]
    children_check_below [OF body rc] items_check_below [OF body rc]
  ultimately show ?thesis
    unfolding matches_body_def by (cases v) (auto intro!: below_and_all simp del: all_r.simps and_all.simps)
qed

lemma matches_body_returns:
  assumes body: "schema_body (schema_levels k) (VDict s) = Inr ()" and p: "depth_ok p v" "p \<le> n"
    and ret: "\<And>v d. depth_ok p v \<Longrightarrow> schema_levels k (VDict d) = Inr () \<Longrightarrow> returns (rc v d)"
  shows "returns (matches_body n rc v s)"
proof -
  note simple = simple_checks_return [OF body]
  obtain p' where p': "p = Suc p'" using p(1) by (cases p) auto
  have ret': "returns (rc w d)" if "depth_ok p' w" "schema_levels k (VDict d) = Inr ()" for w d
    using ret that depth_ok_mono [of p' w p] p' by simp
  have alts: "returns (all_r (alternatives_check rc v s) [''anyOf'', ''oneOf'', ''allOf''])"
    by (rule returns_all_r, rule alternatives_check_returns [OF body]) (use ret p(1) in auto)
  have children: "returns (children_check rc d s)" if "v = VDict d" for d
    by (rule children_check_returns [OF body]) (use that p(1) p' ret' in \<open>auto simp: list_all_iff\<close>)
  have items: "returns (items_check rc xs s)" if "v = VList xs" for xs
    by (rule items_check_returns [OF body]) (use that p(1) p' ret' in \<open>auto simp: list_all_iff\<close>)
  have "returns (case v of
         VDict d \<Rightarrow> and_all [required_check d s, children_check rc d s]
       | VList xs \<Rightarrow> and_all
           [between (get_or s ''minItems'' (VInt 0)) (VInt (int (length xs)))
              (get_or s ''maxItems'' (VFloat PosInf)),
            items_check rc xs s]
       | VStr t \<Rightarrow> between (get_or s ''minLength'' (VInt 0)) (VInt (int (length t)))
              (get_or s ''maxLength'' (VFloat PosInf))
       | _ \<Rightarrow>
           (if is_int v \<or> is_float v
            then between (get_or s ''minimum'' (VFloat NegInf)) v
                   (get_or s ''maximum'' (VFloat PosInf))
            else Inr True))"
    using simple(3) children items
    by (cases v) (auto intro!: returns_and_r simple(4))
  then show ?thesis
    unfolding matches_body_def using simple(1,2) [OF depth_ok_mono [OF p]] alts by (intro returns_and_all) auto
qed

lemma matches_levels_below:
  "schema_levels k (VDict s) = Inr () \<Longrightarrow> room \<le> room' \<Longrightarrow>
   below (matches_levels k room v s) (matches_levels (k + j) room' v s)"
proof (induction k arbitrary: s v room room')
  case (Suc k)
  then show ?case
    by (cases "room = 0") (auto simp del: schema_levels.simps(1) intro!: matches_body_below)
qed simp

lemma matches_levels_returns:
  "schema_levels k (VDict s) = Inr () \<Longrightarrow> depth_ok n v \<Longrightarrow> n + k \<le> room \<Longrightarrow> returns (matches_levels k room v s)"
proof (induction k arbitrary: s v room)
  case (Suc k)
  have "returns (matches_body (room - 1) (matches_levels k (room - 1)) v s)"
    by (rule matches_body_returns [OF _ Suc.prems(2)]) (use Suc in auto)
  then show ?case using Suc.prems(3) by simp
qed simp

section \<open>Accepted catalogs\<close>

definition accepted_tool :: "pyval \<Rightarrow> ustr \<Rightarrow> bool" where
  \<comment> \<open>a function tool with this name and a valid object schema for its arguments\<close>
  "accepted_tool tool name \<longleftrightarrow>
     (\<exists>t p. tool = VDict t \<and> dget t (u ''type'') = vs ''function'' \<and> dget t (u ''name'') = VStr name
        \<and> tool_name_ok name \<and> dget t (u ''parameters'') = VDict p
        \<and> validate_schema (VDict p) 0 = Inr () \<and> dget p (u ''type'') = vs ''object'')"

lemma validate_tool_Inr:
  "validate_tool names tool = Inr ns \<Longrightarrow>
   \<exists>name. ns = name # names \<and> name \<notin> set names \<and> accepted_tool tool name"
  unfolding validate_tool_def accepted_tool_def
  by (auto simp: andthen_Inr_iff split: pyval.splits if_splits bool.splits)

lemma validate_tool_fold:
  "fold_r validate_tool names ts = Inr ns \<Longrightarrow> distinct names \<Longrightarrow>
   \<exists>new. ns = rev new @ names \<and> distinct (new @ names) \<and> list_all2 accepted_tool ts new"
proof (induction ts arbitrary: names)
  case Nil
  then show ?case by simp
next
  case (Cons t ts)
  from Cons.prems(1) obtain ms where ms: "validate_tool names t = Inr ms"
    "fold_r validate_tool ms ts = Inr ns" by (auto simp: andthen_Inr_iff)
  from validate_tool_Inr [OF ms(1)] obtain name where
    name: "ms = name # names" "name \<notin> set names" "accepted_tool t name" by auto
  from Cons.IH [OF ms(2)] name Cons.prems(2) obtain new where
    "ns = rev new @ ms" "distinct (new @ ms)" "list_all2 accepted_tool ts new" by auto
  then show ?case using name by (intro exI [of _ "name # new"]) auto
qed

section \<open>Properties\<close>

text \<open>
  C19. A schema that \<^verbatim>\<open>validate_schema\<close> accepts has one verdict on every value: whatever room the
  interpreter's stack has, \<^verbatim>\<open>matches_schema\<close> returns this verdict or raises a \<^verbatim>\<open>RecursionError\<close>, and
  no other exception. It returns it whenever the stack admits 33 nested calls more than the value is deep,
  however deep the constants of the schema are; and the depth bound of 32 takes no part in it, since any
  larger bound gives the same verdict.
\<close>

theorem validated_schema_decides:
  assumes "validate_schema (VDict s) 0 = Inr ()" and "depth_ok n v"
  shows "\<exists>b. (\<forall>room. matches_schema room v s 0 = Inr b \<or> matches_schema room v s 0 = Inl RecursionErr)
      \<and> (\<forall>extra more. matches_levels (SCHEMA_DEPTH + 1 + extra) (n + SCHEMA_DEPTH + 1 + more) v s = Inr b)"
proof -
  have accepted: "schema_levels (SCHEMA_DEPTH + 1) (VDict s) = Inr ()"
    using assms(1) by (simp add: validate_schema_def)
  obtain b where b: "matches_levels (SCHEMA_DEPTH + 1) (n + (SCHEMA_DEPTH + 1)) v s = Inr b"
    using matches_levels_returns [OF accepted assms(2) order_refl] unfolding returns_def by blast
  note below = matches_levels_below [OF accepted]
  have more: "matches_levels (SCHEMA_DEPTH + 1 + extra) room v s = Inr b" if "n + (SCHEMA_DEPTH + 1) \<le> room" for extra room
    using below [OF that, of v extra] b by (simp add: below_Inr)
  have "matches_schema room v s 0 = Inr b \<or> matches_schema room v s 0 = Inl RecursionErr" for room
    using below [of room "max room (n + (SCHEMA_DEPTH + 1))" v 0] more [of "max room (n + (SCHEMA_DEPTH + 1))" 0]
    by (auto simp: matches_schema_def below_def)
  moreover have "matches_levels (SCHEMA_DEPTH + 1 + extra) (n + SCHEMA_DEPTH + 1 + k) v s = Inr b" for extra k
    by (rule more) simp
  ultimately show ?thesis by blast
qed

definition example_schema :: dict where
  "example_schema =
     [(u ''type'', vs ''object''),
      (u ''properties'', VDict [(u ''n'', VDict [(u ''type'', vs ''integer''), (u ''minimum'', VInt 1)])]),
      (u ''required'', VList [vs ''n'']),
      (u ''additionalProperties'', VBool False)]"

theorem validated_schema_decides_witness:
  "\<exists>b. (\<forall>room. matches_schema room (VDict [(u ''n'', VInt 3)]) example_schema 0 = Inr b
          \<or> matches_schema room (VDict [(u ''n'', VInt 3)]) example_schema 0 = Inl RecursionErr)
      \<and> (\<forall>extra more. matches_levels (SCHEMA_DEPTH + 1 + extra) (2 + SCHEMA_DEPTH + 1 + more)
            (VDict [(u ''n'', VInt 3)]) example_schema = Inr b)"
proof (rule validated_schema_decides)
  show "validate_schema (VDict example_schema) 0 = Inr ()" by code_simp
  show "depth_ok 2 (VDict [(u ''n'', VInt 3)])" by code_simp
qed

text \<open>
  A catalog that \<^verbatim>\<open>validate_tools\<close> accepts is a list of function tools with pairwise different
  valid names, every tool has an object schema that \<^verbatim>\<open>validate_schema\<close> accepts, and its JSON text
  is within the size limit.
\<close>

lemma accepted_catalog:
  assumes "validate_tools env n tools = Inr ()"
  shows "\<exists>ts names payload. tools = VList ts \<and> list_all2 accepted_tool ts names \<and> distinct names
           \<and> json_bytes env tools = Inr payload \<and> utf8_len payload \<le> n"
proof -
  obtain ts payload ns where ts: "tools = VList ts" "json_bytes env tools = Inr payload"
    "utf8_len payload \<le> n" "fold_r validate_tool [] ts = Inr ns"
    using assms unfolding validate_tools_def
    by (auto simp: andthen_Inr_iff split: pyval.splits sum.splits if_splits)
  from validate_tool_fold [OF ts(4)] obtain new where
    "distinct (new @ [])" "list_all2 accepted_tool ts new" by auto
  then show ?thesis using ts by auto
qed

definition example_env :: json_env where
  "example_env = \<lparr>je_float_text = (\<lambda>_. u ''0.5''), je_float_parse = (\<lambda>_. Fin (1 / 2)), je_nesting = 100, je_calls = 100\<rparr>"

definition example_tool :: "string \<Rightarrow> pyval" where
  "example_tool name =
     VDict [(u ''type'', vs ''function''), (u ''name'', vs name), (u ''parameters'', VDict example_schema)]"

text \<open>
  On JSON values \<^verbatim>\<open>_json_equal\<close> is reflexive and symmetric at every nesting depth the stack admits, and
  unlike Python's \<^verbatim>\<open>==\<close> it never identifies a boolean with a number.
\<close>

lemma json_equal_laws:
  assumes "json_value v" "json_value w" "depth_ok n v" "depth_ok n w"
  shows "json_equal n v v = Inr True" and "json_equal n v w = json_equal n w v"
    and "json_equal n v w = Inr True \<Longrightarrow> is_bool v = is_bool w"
proof -
  show "json_equal n v v = Inr True"
    using json_same_refl assms(1) json_equal_decides [OF assms(3)] by simp
  show "json_equal n v w = json_equal n w v"
    using json_same_sym assms(1,2) json_equal_decides assms(3,4) by auto
  show "is_bool v = is_bool w" if "json_equal n v w = Inr True"
    using that json_equal_decides [OF assms(3)] by (cases v; cases w) auto
qed

end
