(* ===== verification/Contracts.thy ===== *)
theory Contracts
  imports Tool_Schema
begin

text \<open>
  The provider-neutral data of \<^verbatim>\<open>realtime/contracts.py\<close> and \<^verbatim>\<open>realtime/ports.py\<close>: enumerations with
  their string values, audio formats, features, limits, capability, the open request, the events a
  session hands to the product and the record an adapter decodes a provider frame into. A
  \<^verbatim>\<open>__post_init__\<close> that can raise is a \<open>_error\<close> function or a constructor returning a result.
\<close>

section \<open>Enumerations\<close>

datatype feature =
    F_SERVER_TURN_DETECTION | F_AUTOMATIC_RESPONSE | F_INTERRUPTION | F_INPUT_TRANSCRIPTION
  | F_TEXT_OUTPUT | F_AUDIO_OUTPUT | F_CANCEL_RESPONSE | F_TRUNCATE_OUTPUT | F_TOOL_CALLING
  | F_RESUME

definition all_features :: "feature list" where
  "all_features = [F_SERVER_TURN_DETECTION, F_AUTOMATIC_RESPONSE, F_INTERRUPTION,
     F_INPUT_TRANSCRIPTION, F_TEXT_OUTPUT, F_AUDIO_OUTPUT, F_CANCEL_RESPONSE, F_TRUNCATE_OUTPUT,
     F_TOOL_CALLING, F_RESUME]"

fun feature_name :: "feature \<Rightarrow> string" where
  "feature_name F_SERVER_TURN_DETECTION = ''server_turn_detection''"
| "feature_name F_AUTOMATIC_RESPONSE = ''automatic_response''"
| "feature_name F_INTERRUPTION = ''interruption''"
| "feature_name F_INPUT_TRANSCRIPTION = ''input_transcription''"
| "feature_name F_TEXT_OUTPUT = ''text_output''"
| "feature_name F_AUDIO_OUTPUT = ''audio_output''"
| "feature_name F_CANCEL_RESPONSE = ''cancel_response''"
| "feature_name F_TRUNCATE_OUTPUT = ''truncate_output''"
| "feature_name F_TOOL_CALLING = ''tool_calling''"
| "feature_name F_RESUME = ''resume''"

datatype response_status = RS_COMPLETED | RS_CANCELLED | RS_INCOMPLETE | RS_FAILED

fun status_name :: "response_status \<Rightarrow> string" where
  "status_name RS_COMPLETED = ''completed''"
| "status_name RS_CANCELLED = ''cancelled''"
| "status_name RS_INCOMPLETE = ''incomplete''"
| "status_name RS_FAILED = ''failed''"

definition status_of :: "ustr \<Rightarrow> response_status option" where
  "status_of s = find (\<lambda>x. u (status_name x) = s)
     [RS_COMPLETED, RS_CANCELLED, RS_INCOMPLETE, RS_FAILED]"

datatype close_initiator =
    CI_CLIENT | CI_PROVIDER | CI_RELAY | CI_NETWORK | CI_TIMEOUT | CI_SHUTDOWN

fun initiator_name :: "close_initiator \<Rightarrow> string" where
  "initiator_name CI_CLIENT = ''client''"
| "initiator_name CI_PROVIDER = ''provider''"
| "initiator_name CI_RELAY = ''relay''"
| "initiator_name CI_NETWORK = ''network''"
| "initiator_name CI_TIMEOUT = ''timeout''"
| "initiator_name CI_SHUTDOWN = ''shutdown''"

definition initiator_of :: "ustr \<Rightarrow> close_initiator option" where
  "initiator_of s = find (\<lambda>x. u (initiator_name x) = s)
     [CI_CLIENT, CI_PROVIDER, CI_RELAY, CI_NETWORK, CI_TIMEOUT, CI_SHUTDOWN]"

datatype close_disposition = CD_CLEAN | CD_RETRYABLE | CD_FATAL | CD_CLEAN_EXPIRED

fun disposition_name :: "close_disposition \<Rightarrow> string" where
  "disposition_name CD_CLEAN = ''clean''"
| "disposition_name CD_RETRYABLE = ''retryable''"
| "disposition_name CD_FATAL = ''fatal''"
| "disposition_name CD_CLEAN_EXPIRED = ''clean_expired''"

definition disposition_of :: "ustr \<Rightarrow> close_disposition option" where
  "disposition_of s = find (\<lambda>x. u (disposition_name x) = s)
     [CD_CLEAN, CD_RETRYABLE, CD_FATAL, CD_CLEAN_EXPIRED]"

lemma status_of_name [simp]: "status_of (u (status_name x)) = Some x"
  by (cases x) (simp_all add: status_of_def)

lemma initiator_of_name [simp]: "initiator_of (u (initiator_name x)) = Some x"
  by (cases x) (simp_all add: initiator_of_def)

lemma disposition_of_name [simp]: "disposition_of (u (disposition_name x)) = Some x"
  by (cases x) (simp_all add: disposition_of_def)

subsection \<open>Tool call states\<close>

datatype tool_state =
    TS_REQUESTED | TS_RESULT_SENT | TS_RESULT_ACKED | TS_FOLLOWUP_REQUESTED | TS_FOLLOWUP_STARTED

fun tool_rank :: "tool_state \<Rightarrow> nat" where
  \<comment> \<open>the order in which a tool call goes through its states\<close>
  "tool_rank TS_REQUESTED = 0"
| "tool_rank TS_RESULT_SENT = 1"
| "tool_rank TS_RESULT_ACKED = 2"
| "tool_rank TS_FOLLOWUP_REQUESTED = 3"
| "tool_rank TS_FOLLOWUP_STARTED = 4"

lemma tool_rank_inj: "tool_rank a = tool_rank b \<Longrightarrow> a = b"
  by (cases a; cases b) simp_all

instantiation tool_state :: linorder
begin

definition less_eq_tool_state :: "tool_state \<Rightarrow> tool_state \<Rightarrow> bool" where
  "less_eq_tool_state a b \<longleftrightarrow> tool_rank a \<le> tool_rank b"

definition less_tool_state :: "tool_state \<Rightarrow> tool_state \<Rightarrow> bool" where
  "less_tool_state a b \<longleftrightarrow> tool_rank a < tool_rank b"

instance
  by standard (auto simp: less_eq_tool_state_def less_tool_state_def tool_rank_inj)

end

section \<open>Audio, features, limits, capability\<close>

record audio_format =
  af_codec :: ustr
  af_sample_rate :: int
  af_channels :: int

definition audio_format_error :: "audio_format \<Rightarrow> string option" where
  "audio_format_error f =
    (if af_codec f \<noteq> u ''pcm_s16le'' then Some ''only raw pcm_s16le is supported''
     else if af_sample_rate f \<le> 0 \<or> af_channels f \<le> 0
     then Some ''sample_rate and channels must be positive'' else None)"

record feature_set =
  fs_server_turn_detection :: bool
  fs_automatic_response :: bool
  fs_interruption :: bool
  fs_input_transcription :: bool
  fs_text_output :: bool
  fs_audio_output :: bool
  fs_cancel_response :: bool
  fs_truncate_output :: bool
  fs_tool_calling :: bool
  fs_resume :: bool

fun feature_on :: "feature_set \<Rightarrow> feature \<Rightarrow> bool" where
  \<comment> \<open>\<^verbatim>\<open>getattr(self, feature.value)\<close>\<close>
  "feature_on s F_SERVER_TURN_DETECTION = fs_server_turn_detection s"
| "feature_on s F_AUTOMATIC_RESPONSE = fs_automatic_response s"
| "feature_on s F_INTERRUPTION = fs_interruption s"
| "feature_on s F_INPUT_TRANSCRIPTION = fs_input_transcription s"
| "feature_on s F_TEXT_OUTPUT = fs_text_output s"
| "feature_on s F_AUDIO_OUTPUT = fs_audio_output s"
| "feature_on s F_CANCEL_RESPONSE = fs_cancel_response s"
| "feature_on s F_TRUNCATE_OUTPUT = fs_truncate_output s"
| "feature_on s F_TOOL_CALLING = fs_tool_calling s"
| "feature_on s F_RESUME = fs_resume s"

definition supports :: "feature_set \<Rightarrow> feature list \<Rightarrow> bool" where
  "supports s required = list_all (feature_on s) required"

definition enabled_features :: "feature_set \<Rightarrow> feature list" where
  "enabled_features s = filter (feature_on s) all_features"

lemma all_features_complete: "f \<in> set all_features"
  by (cases f) (simp_all add: all_features_def)

lemma supports_enabled: "supports s req \<longleftrightarrow> set req \<subseteq> set (enabled_features s)"
  using all_features_complete by (auto simp: supports_def enabled_features_def list_all_iff)

record rt_limits =
  li_json_frame_bytes :: int
  li_input_audio_event_bytes :: int
  li_output_audio_event_bytes :: int
  li_input_queue_frames :: int
  li_input_queue_bytes :: int
  li_output_queue_frames :: int
  li_output_queue_bytes :: int
  li_tool_payload_bytes :: int

definition default_limits :: rt_limits where
  "default_limits = \<lparr>li_json_frame_bytes = 1048576, li_input_audio_event_bytes = 65536,
     li_output_audio_event_bytes = 262144, li_input_queue_frames = 256,
     li_input_queue_bytes = 4194304, li_output_queue_frames = 512,
     li_output_queue_bytes = 16777216, li_tool_payload_bytes = 65536\<rparr>"

definition limits_error :: "rt_limits \<Rightarrow> string option" where
  "limits_error l =
    (if list_ex (\<lambda>v. v \<le> 0)
          [li_json_frame_bytes l, li_input_audio_event_bytes l, li_output_audio_event_bytes l,
           li_input_queue_frames l, li_input_queue_bytes l, li_output_queue_frames l,
           li_output_queue_bytes l, li_tool_payload_bytes l]
     then Some ''Realtime limits must be positive'' else None)"

record rt_capability =
  ca_control_version :: ustr
  ca_sdk_protocol_version :: ustr
  ca_provider :: ustr
  ca_wire_protocol :: ustr
  ca_wire_version :: ustr
  ca_input_audio :: audio_format
  ca_output_audio :: audio_format
  ca_features :: feature_set
  ca_limits :: rt_limits

definition required_text :: "ustr \<Rightarrow> nat \<Rightarrow> unit res" where
  \<comment> \<open>\<^verbatim>\<open>_required_text\<close>: not blank, no NUL, encodable and within the size in bytes\<close>
  "required_text s max_bytes =
    (if blank s \<or> 0 \<in> set s then Inl (ValueErr ''is required'')
     else if \<not> encodable s then Inl UnicodeErr
     else if max_bytes < utf8_len s then Inl (ValueErr ''is too large'')
     else Inr ())"

definition capability_init :: "rt_capability \<Rightarrow> unit res" where
  "capability_init c = seq_all (map (\<lambda>s. required_text s 256)
     [ca_control_version c, ca_sdk_protocol_version c, ca_provider c, ca_wire_protocol c,
      ca_wire_version c])"

record rt_profile =
  pr_name :: ustr
  pr_provider :: ustr
  pr_wire_protocol :: ustr
  pr_wire_version :: ustr
  pr_public_model :: ustr
  pr_voice :: ustr
  pr_capability :: rt_capability

definition profile_init :: "rt_profile \<Rightarrow> unit res" where
  "profile_init p = seq_all (map (\<lambda>s. required_text s 256)
     [pr_name p, pr_provider p, pr_wire_protocol p, pr_wire_version p, pr_public_model p,
      pr_voice p])"

record open_request =
  or_external_session_id :: ustr
  or_instructions :: ustr
  or_required_features :: "feature list"
  or_input_audio :: audio_format
  or_output_audio :: audio_format
  or_tools :: pyval

definition open_request_init :: "json_env \<Rightarrow> open_request \<Rightarrow> unit res" where
  "open_request_init env r = seq_all
     [required_text (or_external_session_id r) 512,
      required_text (or_instructions r) 65536,
      validate_tools env TOOL_CATALOG_LIMIT (or_tools r)]"

record minted_credential =
  mc_secret :: ustr
  mc_expires_at_ms :: int
  mc_websocket_path :: ustr
  mc_capability :: rt_capability
  mc_capability_document :: dict
  mc_capability_digest :: ustr

definition minted_init :: "minted_credential \<Rightarrow> unit res" where
  "minted_init m = seq_all
     [required_text (mc_secret m) 4096,
      required_text (mc_websocket_path m) 512,
      required_text (mc_capability_digest m) 64,
      check (0 < mc_expires_at_ms m) (ValueErr ''expires_at_ms must be positive'')]"

section \<open>Events\<close>

record response_usage =
  ru_input_text_tokens :: int
  ru_input_audio_tokens :: int
  ru_output_text_tokens :: int
  ru_output_audio_tokens :: int

definition usage_error :: "response_usage \<Rightarrow> string option" where
  "usage_error x =
    (if list_ex (\<lambda>v. v < 0) [ru_input_text_tokens x, ru_input_audio_tokens x,
          ru_output_text_tokens x, ru_output_audio_tokens x]
     then Some ''token counts must be non-negative'' else None)"

record session_closed =
  sc_reason :: ustr
  sc_initiator :: close_initiator
  sc_disposition :: close_disposition
  sc_active_response :: ustr
  sc_settlement :: ustr
  sc_related_event_id :: "ustr option"
  sc_control_code :: "error_code option"
  sc_message_class :: "ustr option"
  sc_client_event_type :: "ustr option"
  sc_failure :: "failure_context option"

record session_failed =
  sf_code :: error_code
  sf_retryable :: bool
  sf_control_code :: "error_code option"
  sf_message_class :: "ustr option"
  sf_related_event_id :: "ustr option"
  sf_client_event_type :: "ustr option"
  sf_fatal :: "bool option"
  sf_retry_after_ms :: "int option"
  sf_failure :: "failure_context option"

datatype rt_event =
    SessionReady int ustr audio_format audio_format bool
      \<comment> \<open>generation, correlation, input audio, output audio, tools acknowledged\<close>
  | SpeechStarted ustr
  | SpeechStopped ustr
  | TranscriptDelta ustr ustr
  | TranscriptCompleted ustr ustr
  | ResponseStarted ustr ustr \<comment> \<open>turn, response\<close>
  | OutputText ustr ustr int int ustr bool
      \<comment> \<open>response, item, output index, content index, text, is a delta\<close>
  | OutputAudioStarted ustr ustr int int
  | OutputAudio ustr ustr int int bytes
  | OutputAudioCompleted ustr ustr int int
  | ToolCallRequested ustr ustr ustr ustr int
      \<comment> \<open>response, call, name, arguments, generation\<close>
  | ResponseFinished ustr response_status "response_usage option" bool
      \<comment> \<open>response, status, usage, local\<close>
  | SessionExpiring int
  | SessionClosed session_closed
  | SessionFailed session_failed

definition session_closed_error :: "session_closed \<Rightarrow> string option" where
  "session_closed_error c =
    (if sc_active_response c \<notin> set (map u [''none'', ''completed'', ''cancelled''])
     then Some ''invalid active response disposition''
     else if sc_settlement c \<notin> set (map u [''none'', ''settled'', ''released'', ''deferred''])
     then Some ''invalid settlement disposition'' else None)"

definition closed_event :: "ustr \<Rightarrow> close_initiator \<Rightarrow> close_disposition \<Rightarrow> session_closed" where
  \<comment> \<open>\<^verbatim>\<open>SessionClosed(reason, initiator, disposition)\<close> with its defaults\<close>
  "closed_event r i d = \<lparr>sc_reason = r, sc_initiator = i, sc_disposition = d,
     sc_active_response = u ''none'', sc_settlement = u ''none'', sc_related_event_id = None,
     sc_control_code = None, sc_message_class = None, sc_client_event_type = None,
     sc_failure = None\<rparr>"

definition failed_event :: "error_code \<Rightarrow> bool \<Rightarrow> session_failed" where
  \<comment> \<open>\<^verbatim>\<open>SessionFailed(code, retryable)\<close> with its defaults\<close>
  "failed_event c b = \<lparr>sf_code = c, sf_retryable = b, sf_control_code = None,
     sf_message_class = None, sf_related_event_id = None, sf_client_event_type = None,
     sf_fatal = None, sf_retry_after_ms = None, sf_failure = None\<rparr>"

fun is_terminal :: "rt_event \<Rightarrow> bool" where
  \<comment> \<open>\<^verbatim>\<open>isinstance(event, (SessionClosed, SessionFailed))\<close>\<close>
  "is_terminal (SessionClosed _) = True"
| "is_terminal (SessionFailed _) = True"
| "is_terminal _ = False"

section \<open>Decoded provider events\<close>

record decoded_event =
  de_event_id :: ustr
  de_events :: "rt_event list"
  de_provider_ready :: bool
  de_session_acknowledged :: bool
  de_introduced_response_id :: "ustr option"
  de_introduced_item :: "(ustr \<times> ustr) option"
  de_introduced_item_detail :: "(ustr \<times> ustr \<times> int \<times> ustr) option"
  de_introduced_content :: "(ustr \<times> ustr \<times> int \<times> int) option"
  de_completed_item :: "(ustr \<times> ustr) option"
  de_completed_content :: "(ustr \<times> ustr \<times> int \<times> int) option"
  de_tool_ack_call_id :: "ustr option"
  de_tool_ack_identity :: "(ustr \<times> ustr \<times> ustr \<times> ustr \<times> ustr) option"
  de_tool_call_identity :: "(ustr \<times> ustr \<times> int \<times> ustr) option"
  de_tools_acknowledged :: bool
  de_tool_catalog_normalized :: bool
  de_context_ack_id :: "ustr option"
  de_rejected_event_id :: "ustr option"
  de_context_request_id :: "ustr option"
  de_user_side_transcript_ignored :: bool
  de_user_side_response_event_ignored :: "ustr option"
  de_item_role_metadata_mismatch :: "(ustr \<times> ustr) option"

definition decoded :: "ustr \<Rightarrow> decoded_event" where
  \<comment> \<open>\<^verbatim>\<open>DecodedProviderEvent(event_id)\<close> with its defaults\<close>
  "decoded eid = \<lparr>de_event_id = eid, de_events = [], de_provider_ready = False,
     de_session_acknowledged = False, de_introduced_response_id = None,
     de_introduced_item = None, de_introduced_item_detail = None, de_introduced_content = None,
     de_completed_item = None, de_completed_content = None, de_tool_ack_call_id = None,
     de_tool_ack_identity = None, de_tool_call_identity = None, de_tools_acknowledged = False,
     de_tool_catalog_normalized = False, de_context_ack_id = None, de_rejected_event_id = None,
     de_context_request_id = None, de_user_side_transcript_ignored = False,
     de_user_side_response_event_ignored = None, de_item_role_metadata_mismatch = None\<rparr>"

lemma decoded_simps [simp]:
  "de_event_id (decoded eid) = eid" "de_events (decoded eid) = []"
  "\<not> de_provider_ready (decoded eid)" "\<not> de_session_acknowledged (decoded eid)"
  "de_introduced_response_id (decoded eid) = None" "de_introduced_item (decoded eid) = None"
  "de_introduced_item_detail (decoded eid) = None" "de_introduced_content (decoded eid) = None"
  "de_completed_item (decoded eid) = None" "de_completed_content (decoded eid) = None"
  "de_tool_ack_call_id (decoded eid) = None" "de_tool_ack_identity (decoded eid) = None"
  "de_tool_call_identity (decoded eid) = None" "\<not> de_tools_acknowledged (decoded eid)"
  "\<not> de_tool_catalog_normalized (decoded eid)" "de_context_ack_id (decoded eid) = None"
  "de_rejected_event_id (decoded eid) = None" "de_context_request_id (decoded eid) = None"
  "\<not> de_user_side_transcript_ignored (decoded eid)"
  "de_user_side_response_event_ignored (decoded eid) = None"
  "de_item_role_metadata_mismatch (decoded eid) = None"
  by (simp_all add: decoded_def)

end
