(* ===== verification/Recovery.thy ===== *)
theory Recovery
  imports Contracts
begin

text \<open>
  \<^verbatim>\<open>realtime/recovery.py\<close>: the table of item identities of a logical session, the idempotency records
  of its messages, and the snapshot of all sessions. A dictionary is an association list in insertion
  order, a set of strings is a set. A table or a session is returned updated; where an operation can
  raise after it has changed the state, both the exception and the state are returned.
\<close>

section \<open>Identities\<close>

datatype role = Role_user | Role_assistant | Role_system

fun role_name :: "role \<Rightarrow> string" where
  "role_name Role_user = ''user''"
| "role_name Role_assistant = ''assistant''"
| "role_name Role_system = ''system''"

definition identity_text :: "ustr \<Rightarrow> bool" where
  "identity_text s \<longleftrightarrow> \<not> blank s \<and> length s \<le> 512"

definition identity :: "pyval \<Rightarrow> ustr res" where
  \<comment> \<open>\<^verbatim>\<open>_identity\<close>\<close>
  "identity v =
    (case v of VStr s \<Rightarrow> if identity_text s then Inr s else Inl (ValueErr ''invalid recovery identity'')
     | _ \<Rightarrow> Inl (ValueErr ''invalid recovery identity''))"

record item_identity =
  ii_canonical :: ustr
  ii_role :: role
  ii_source :: ustr
  ii_generation :: int
  ii_confirmed :: bool
  ii_aliases :: "ustr list"
  ii_origin :: "ustr option"

record id_table =
  tb_generation :: int
  tb_items :: "(ustr \<times> item_identity) list"

definition empty_table :: id_table where
  "empty_table = \<lparr>tb_generation = 0, tb_items = []\<rparr>"

definition confirmed_user :: "item_identity \<Rightarrow> bool" where
  "confirmed_user it \<longleftrightarrow> ii_role it = Role_user \<and> ii_confirmed it"

definition begin_generation :: "int \<Rightarrow> id_table \<Rightarrow> id_table" where
  "begin_generation g t =
    t\<lparr>tb_generation := g, tb_items := filter (\<lambda>kv. confirmed_user (snd kv)) (tb_items t)\<rparr>"

definition lookup_item :: "id_table \<Rightarrow> ustr \<Rightarrow> item_identity option" where
  "lookup_item t k = map_of (tb_items t) k"

definition is_user_item :: "id_table \<Rightarrow> ustr \<Rightarrow> bool" where
  "is_user_item t k =
    (case lookup_item t k of
       None \<Rightarrow> False
     | Some it \<Rightarrow> ii_role it = Role_user \<and> k = ii_canonical it)"

definition dedup :: "'a list \<Rightarrow> 'a list" where
  \<comment> \<open>\<^verbatim>\<open>tuple(dict.fromkeys(xs))\<close>: the first occurrence of every element\<close>
  "dedup xs = rev (remdups (rev xs))"

lemma set_dedup [simp]: "set (dedup xs) = set xs"
  by (simp add: dedup_def)

lemma distinct_dedup [simp]: "distinct (dedup xs)"
  by (simp add: dedup_def)

definition text_or :: "ustr option \<Rightarrow> ustr \<Rightarrow> ustr" where
  \<comment> \<open>\<^verbatim>\<open>a or b\<close> for an optional string\<close>
  "text_or a b = (case a of None \<Rightarrow> b | Some s \<Rightarrow> if s = [] then b else s)"

definition check_alias :: "id_table \<Rightarrow> ustr \<Rightarrow> ustr \<Rightarrow> unit res" where
  "check_alias t item_id alias =
    (if \<not> identity_text alias then Inl (ValueErr ''invalid recovery identity'')
     else (case lookup_item t alias of
             None \<Rightarrow> Inr ()
           | Some previous \<Rightarrow>
               check (ii_canonical previous = item_id) (protocol_error ''conflicting item alias'')))"

definition linked_aliases :: "id_table \<Rightarrow> ustr \<Rightarrow> ustr list \<Rightarrow> ustr list" where
  "linked_aliases t item_id aliases =
    dedup (item_id # aliases @ (case lookup_item t item_id of None \<Rightarrow> [] | Some e \<Rightarrow> ii_aliases e))"

definition new_identity ::
    "id_table \<Rightarrow> ustr \<Rightarrow> role \<Rightarrow> ustr \<Rightarrow> bool \<Rightarrow> ustr list \<Rightarrow> ustr option \<Rightarrow> item_identity" where
  "new_identity t item_id r source confirmed aliases origin =
    \<lparr>ii_canonical = item_id, ii_role = r, ii_source = source, ii_generation = tb_generation t,
     ii_confirmed = (confirmed \<or> (case lookup_item t item_id of
                                    None \<Rightarrow> False
                                  | Some e \<Rightarrow> ii_role e = r \<and> ii_confirmed e)),
     ii_aliases = linked_aliases t item_id aliases,
     ii_origin = Some (case lookup_item t item_id of
                         None \<Rightarrow> text_or origin source
                       | Some e \<Rightarrow> text_or (ii_origin e) (ii_source e))\<rparr>"

definition store_item :: "item_identity \<Rightarrow> id_table \<Rightarrow> id_table" where
  \<comment> \<open>\<^verbatim>\<open>for alias in linked: self._items[alias] = item\<close>\<close>
  "store_item it t =
    t\<lparr>tb_items := fold (\<lambda>alias. AList.update alias it) (ii_aliases it) (tb_items t)\<rparr>"

definition register ::
    "id_table \<Rightarrow> ustr \<Rightarrow> role \<Rightarrow> ustr \<Rightarrow> bool \<Rightarrow> ustr list \<Rightarrow> ustr option
     \<Rightarrow> (item_identity \<times> id_table) res" where
  "register t item_id r source confirmed aliases origin =
    (if \<not> identity_text item_id then Inl (ValueErr ''invalid recovery identity'')
     else
       (case lookup_item t item_id of
          Some e \<Rightarrow>
            if ii_role e \<noteq> r then
              (if source = u ''conversation_item'' \<or> source = u ''output_item'' then Inr (e, t)
               else Inl (protocol_error ''conflicting item role''))
            else
              andthen (each_unit (check_alias t item_id) (linked_aliases t item_id aliases)) (\<lambda>_.
                let it = new_identity t item_id r source confirmed aliases origin
                in Inr (it, store_item it t))
        | None \<Rightarrow>
            andthen (each_unit (check_alias t item_id) (linked_aliases t item_id aliases)) (\<lambda>_.
              let it = new_identity t item_id r source confirmed aliases origin
              in Inr (it, store_item it t))))"

definition identity_dict :: "item_identity \<Rightarrow> pyval" where
  \<comment> \<open>\<^verbatim>\<open>asdict(item)\<close>\<close>
  "identity_dict it = VDict
    [(u ''canonical_id'', VStr (ii_canonical it)),
     (u ''role'', vs (role_name (ii_role it))),
     (u ''source'', VStr (ii_source it)),
     (u ''generation'', VInt (ii_generation it)),
     (u ''confirmed'', VBool (ii_confirmed it)),
     (u ''aliases'', VTuple (map VStr (ii_aliases it))),
     (u ''origin'', (case ii_origin it of None \<Rightarrow> VNone | Some s \<Rightarrow> VStr s))]"

definition table_snapshot :: "id_table \<Rightarrow> pyval list" where
  "table_snapshot t =
    map (\<lambda>kv. identity_dict (snd kv))
      (filter (\<lambda>kv. fst kv = ii_canonical (snd kv) \<and> confirmed_user (snd kv))
         (sort_key fst (tb_items t)))"

section \<open>Logical sessions\<close>

record message =
  me_digest :: ustr
  me_status :: ustr
  me_item_id :: pyval

record logical_session =
  ls_table :: id_table
  ls_tool_calls :: "ustr set"
  ls_completed_inputs :: "ustr set"
  ls_messages :: "(ustr \<times> message) list"

definition new_session :: logical_session where
  "new_session = \<lparr>ls_table = empty_table, ls_tool_calls = {}, ls_completed_inputs = {}, ls_messages = []\<rparr>"

type_synonym recovery = "(ustr \<times> logical_session) list"

definition the_session :: "recovery \<Rightarrow> ustr \<Rightarrow> logical_session" where
  "the_session rs ext = (case map_of rs ext of None \<Rightarrow> new_session | Some s \<Rightarrow> s)"

definition get_session :: "recovery \<Rightarrow> ustr \<Rightarrow> (logical_session \<times> recovery) res" where
  \<comment> \<open>\<^verbatim>\<open>self._sessions.setdefault(_identity(id), _SessionState())\<close>\<close>
  "get_session rs ext =
    (if \<not> identity_text ext then Inl (ValueErr ''invalid recovery identity'')
     else (case map_of rs ext of
             Some s \<Rightarrow> Inr (s, rs)
           | None \<Rightarrow> Inr (new_session, rs @ [(ext, new_session)])))"

definition put_session :: "ustr \<Rightarrow> logical_session \<Rightarrow> recovery \<Rightarrow> recovery" where
  "put_session ext s rs = AList.update ext s rs"

definition begin_session :: "recovery \<Rightarrow> ustr \<Rightarrow> int \<Rightarrow> (int \<times> recovery) res" where
  "begin_session rs ext minimum =
    andthen (get_session rs ext) (\<lambda>(s, rs').
      let g = max (tb_generation (ls_table s) + 1) minimum
      in Inr (g, put_session ext (s\<lparr>ls_table := begin_generation g (ls_table s)\<rparr>) rs'))"

definition claim_message ::
    "recovery \<Rightarrow> ustr \<Rightarrow> ustr \<Rightarrow> ustr \<Rightarrow> pyval res \<times> recovery" where
  "claim_message rs ext key digest =
    (case get_session rs ext of
       Inl e \<Rightarrow> (Inl e, rs)
     | Inr (s, rs') \<Rightarrow>
         if \<not> identity_text key then (Inl (ValueErr ''invalid recovery identity''), rs')
         else
           (case map_of (ls_messages s) key of
              Some m \<Rightarrow>
                if me_digest m \<noteq> digest
                then (Inl (rt_error E_INVALID_REQUEST ''idempotency payload changed''), rs')
                else if me_status m \<noteq> u ''confirmed''
                then (Inl (rt_error E_BUSY ''message outcome is ambiguous''), rs')
                else (Inr (me_item_id m), rs')
            | None \<Rightarrow>
                (Inr VNone, put_session ext
                  (s\<lparr>ls_messages := AList.update key
                       \<lparr>me_digest = digest, me_status = u ''pending'', me_item_id = VNone\<rparr>
                       (ls_messages s)\<rparr>) rs')))"

definition confirm_message :: "recovery \<Rightarrow> ustr \<Rightarrow> ustr \<Rightarrow> ustr \<Rightarrow> unit res \<times> recovery" where
  "confirm_message rs ext key item_id =
    (case get_session rs ext of
       Inl e \<Rightarrow> (Inl e, rs)
     | Inr (s, rs') \<Rightarrow>
         (case map_of (ls_messages s) key of
            None \<Rightarrow> (Inl KeyErr, rs')
          | Some m \<Rightarrow>
              (Inr (), put_session ext
                (s\<lparr>ls_messages := AList.update key
                     (m\<lparr>me_status := u ''confirmed'', me_item_id := VStr item_id\<rparr>) (ls_messages s)\<rparr>)
                rs')))"

section \<open>Snapshots\<close>

definition message_dict :: "message \<Rightarrow> pyval" where
  "message_dict m = VDict
    [(u ''digest'', VStr (me_digest m)), (u ''status'', VStr (me_status m)),
     (u ''item_id'', me_item_id m)]"

definition session_dict :: "logical_session \<Rightarrow> pyval" where
  "session_dict s = VDict
    [(u ''generation'', VInt (tb_generation (ls_table s))),
     (u ''identities'', VList (table_snapshot (ls_table s))),
     (u ''tool_calls'', VList (map VStr (sorted_list_of_set (ls_tool_calls s)))),
     (u ''completed_inputs'', VList (map VStr (sorted_list_of_set (ls_completed_inputs s)))),
     (u ''messages'', VDict (map (\<lambda>km. (fst km, message_dict (snd km))) (ls_messages s)))]"

definition snapshot :: "recovery \<Rightarrow> pyval" where
  "snapshot rs = VDict
    [(u ''schema_version'', VInt 1),
     (u ''sessions'', VDict (map (\<lambda>ks. (fst ks, session_dict (snd ks))) rs))]"

definition RECOVERED_SOURCES :: "ustr list" where
  "RECOVERED_SOURCES = map u [''context_ack'', ''speech_started'', ''committed'', ''transcript'',
     ''output_item'', ''input_audio_item'']"

definition sequence_of :: "pyval \<Rightarrow> pyval list option" where
  \<comment> \<open>the elements of a list or a tuple\<close>
  "sequence_of v = (case v of VList xs \<Rightarrow> Some xs | VTuple xs \<Rightarrow> Some xs | _ \<Rightarrow> None)"

definition restore_identity :: "int \<Rightarrow> id_table \<Rightarrow> pyval \<Rightarrow> id_table res" where
  \<comment> \<open>one turn of the loop over \<^verbatim>\<open>record["identities"]\<close>\<close>
  "restore_identity generation t item =
    (case item of
       VDict d \<Rightarrow>
         if \<not> (key_set_is d (map u [''canonical_id'', ''role'', ''source'', ''generation'',
                   ''confirmed'', ''aliases''])
               \<or> key_set_is d (map u [''canonical_id'', ''role'', ''source'', ''generation'',
                   ''confirmed'', ''aliases'', ''origin'']))
            \<or> dget d (u ''role'') \<noteq> vs ''user'' \<or> dget d (u ''confirmed'') \<noteq> VBool True
         then Inl (ValueErr ''invalid recovered user'')
         else
           (case dget d (u ''generation'') of
              VInt g \<Rightarrow>
                if \<not> (0 < g \<and> g \<le> generation) then Inl (ValueErr ''invalid recovered item generation'')
                else
                  (case (dget d (u ''source''), sequence_of (dget d (u ''aliases''))) of
                     (VStr source, Some aliases) \<Rightarrow>
                       if source \<notin> set RECOVERED_SOURCES then Inl (ValueErr ''invalid recovered source'')
                       else
                         (case get_or d ''origin'' (VStr source) of
                            VStr origin \<Rightarrow>
                              if origin \<notin> set RECOVERED_SOURCES
                              then Inl (ValueErr ''invalid recovered origin'')
                              else
                                andthen (identity (dget d (u ''canonical_id''))) (\<lambda>cid.
                                andthen (each identity aliases) (\<lambda>as.
                                andthen (register (t\<lparr>tb_generation := g\<rparr>) cid Role_user source True as
                                          (Some origin)) (\<lambda>(_, t').
                                Inr (t'\<lparr>tb_generation := generation\<rparr>))))
                          | _ \<Rightarrow> Inl (ValueErr ''invalid recovered origin''))
                   | _ \<Rightarrow> Inl (ValueErr ''invalid recovered source''))
            | _ \<Rightarrow> Inl (ValueErr ''invalid recovered item generation''))
     | _ \<Rightarrow> Inl (ValueErr ''invalid recovered user''))"

definition digest_text :: "ustr \<Rightarrow> bool" where
  "digest_text s \<longleftrightarrow> length s = 64 \<and> list_all is_hex s"

definition restore_message ::
    "id_table \<Rightarrow> (ustr \<times> message) list \<Rightarrow> ustr \<times> pyval \<Rightarrow> (ustr \<times> message) list res" where
  \<comment> \<open>one turn of the loop over \<^verbatim>\<open>record["messages"]\<close>\<close>
  "restore_message t ms kv =
    (case snd kv of
       VDict d \<Rightarrow>
         if \<not> key_set_is d (map u [''digest'', ''status'', ''item_id''])
         then Inl (ValueErr ''invalid recovered message'')
         else
           (case (dget d (u ''digest''), dget d (u ''status'')) of
              (VStr digest, VStr status) \<Rightarrow>
                if \<not> digest_text digest \<or> \<not> (status = u ''pending'' \<or> status = u ''confirmed'')
                then Inl (ValueErr ''invalid recovered message state'')
                else if status = u ''confirmed''
                        \<and> (case dget d (u ''item_id'') of
                             VStr item_id \<Rightarrow> lookup_item t item_id = None
                           | _ \<Rightarrow> True)
                then Inl (ValueErr ''unregistered recovered message'')
                else andthen (identity (VStr (fst kv))) (\<lambda>k.
                  Inr (AList.update k \<lparr>me_digest = digest, me_status = status,
                                       me_item_id = dget d (u ''item_id'')\<rparr> ms))
            | _ \<Rightarrow> Inl (ValueErr ''invalid recovered message state''))
     | _ \<Rightarrow> Inl (ValueErr ''invalid recovered message''))"

definition MAX_COLLECTION :: nat where "MAX_COLLECTION = 10000"
definition MAX_SESSIONS :: nat where "MAX_SESSIONS = 1024"

definition restore_session :: "recovery \<Rightarrow> ustr \<times> pyval \<Rightarrow> recovery res" where
  \<comment> \<open>one turn of the loop over \<^verbatim>\<open>sessions.items()\<close>\<close>
  "restore_session rs kr =
    (case snd kr of
       VDict r \<Rightarrow>
         if \<not> key_set_is r (map u [''generation'', ''identities'', ''tool_calls'',
                ''completed_inputs'', ''messages''])
         then Inl (ValueErr ''invalid recovery session'')
         else
           (case dget r (u ''generation'') of
              VInt generation \<Rightarrow>
                if generation < 0 then Inl (ValueErr ''invalid recovery generation'')
                else
                  andthen (identity (VStr (fst kr))) (\<lambda>key.
                  andthen (get_session rs key) (\<lambda>(s, rs').
                    (case (dget r (u ''identities''), dget r (u ''tool_calls''),
                           dget r (u ''completed_inputs''), dget r (u ''messages'')) of
                       (VList ids, VList calls, VList inputs, VDict ms) \<Rightarrow>
                         if MAX_COLLECTION < length ids \<or> MAX_COLLECTION < length calls
                            \<or> MAX_COLLECTION < length inputs \<or> MAX_COLLECTION < length ms
                         then Inl (ValueErr ''recovery collection is too large'')
                         else
                           andthen (fold_r (restore_identity generation)
                                     ((ls_table s)\<lparr>tb_generation := generation\<rparr>) ids) (\<lambda>t.
                           andthen (each identity calls) (\<lambda>cs.
                           andthen (each identity inputs) (\<lambda>ins.
                           andthen (fold_r (restore_message t) (ls_messages s) ms) (\<lambda>msgs.
                             Inr (put_session key
                               (s\<lparr>ls_table := t, ls_tool_calls := ls_tool_calls s \<union> set cs,
                                  ls_completed_inputs := ls_completed_inputs s \<union> set ins,
                                  ls_messages := msgs\<rparr>) rs')))))
                     | _ \<Rightarrow> Inl (ValueErr ''invalid recovery collections''))))
            | _ \<Rightarrow> Inl (ValueErr ''invalid recovery generation''))
     | _ \<Rightarrow> Inl (ValueErr ''invalid recovery session''))"

definition from_snapshot :: "pyval \<Rightarrow> recovery res" where
  "from_snapshot v =
    (case v of
       VDict d \<Rightarrow>
         if \<not> key_set_is d (map u [''schema_version'', ''sessions''])
            \<or> dget d (u ''schema_version'') \<noteq> VInt 1
         then Inl (ValueErr ''invalid recovery snapshot'')
         else
           (case dget d (u ''sessions'') of
              VDict ss \<Rightarrow>
                if MAX_SESSIONS < length ss then Inl (ValueErr ''invalid recovery sessions'')
                else fold_r restore_session [] ss
            | _ \<Rightarrow> Inl (ValueErr ''invalid recovery sessions''))
     | _ \<Rightarrow> Inl (ValueErr ''invalid recovery snapshot''))"

section \<open>The identity table\<close>

definition table_wf :: "id_table \<Rightarrow> bool" where
  \<comment> \<open>an item is stored under all its aliases, its canonical name first, and under nothing else\<close>
  "table_wf t \<longleftrightarrow>
     distinct (map fst (tb_items t))
     \<and> (\<forall>k it. lookup_item t k = Some it \<longrightarrow>
          k \<in> set (ii_aliases it) \<and> distinct (ii_aliases it)
          \<and> (\<exists>rest. ii_aliases it = ii_canonical it # rest)
          \<and> (\<forall>a \<in> set (ii_aliases it). lookup_item t a = Some it))"

lemma table_wfD:
  assumes "table_wf t" and "lookup_item t k = Some it"
  shows "k \<in> set (ii_aliases it)" and "distinct (ii_aliases it)"
    and "\<exists>rest. ii_aliases it = ii_canonical it # rest"
    and "a \<in> set (ii_aliases it) \<Longrightarrow> lookup_item t a = Some it"
    and "lookup_item t (ii_canonical it) = Some it"
proof -
  show "k \<in> set (ii_aliases it)" "distinct (ii_aliases it)"
    "\<exists>rest. ii_aliases it = ii_canonical it # rest"
    "a \<in> set (ii_aliases it) \<Longrightarrow> lookup_item t a = Some it"
    using assms unfolding table_wf_def by blast+
  then show "lookup_item t (ii_canonical it) = Some it"
    using assms unfolding table_wf_def by (metis list.set_intros(1))
qed

lemma table_wf_empty: "table_wf empty_table"
  by (simp add: table_wf_def empty_table_def lookup_item_def)

lemma map_of_fold_update:
  "map_of (fold (\<lambda>a. AList.update a v) ks al) k = (if k \<in> set ks then Some v else map_of al k)"
  by (induction ks arbitrary: al) (auto simp: update_conv')

lemma distinct_fold_update:
  "distinct (map fst al) \<Longrightarrow> distinct (map fst (fold (\<lambda>a. AList.update a v) ks al))"
  by (induction ks arbitrary: al) (auto simp: distinct_update)

lemma lookup_store_item:
  "lookup_item (store_item it t) k = (if k \<in> set (ii_aliases it) then Some it else lookup_item t k)"
  by (simp add: lookup_item_def store_item_def map_of_fold_update)

lemma dedup_Cons: "dedup (x # xs) = x # filter (\<lambda>y. y \<noteq> x) (dedup xs)"
proof (induction xs rule: rev_induct)
  case Nil
  then show ?case by (simp add: dedup_def)
next
  case (snoc y xs)
  have "dedup (zs @ [y]) = (if y \<in> set zs then dedup zs else dedup zs @ [y])" for zs :: "'a list"
    by (simp add: dedup_def)
  from this [of "x # xs"] this [of xs] snoc show ?case by auto
qed

lemma dedup_distinct: "distinct xs \<Longrightarrow> dedup xs = xs"
  by (simp add: dedup_def distinct_remdups_id)

lemma new_identity_simps [simp]:
  "ii_aliases (new_identity t k r source confirmed aliases origin) = linked_aliases t k aliases"
  "ii_canonical (new_identity t k r source confirmed aliases origin) = k"
  "ii_role (new_identity t k r source confirmed aliases origin) = r"
  "ii_generation (new_identity t k r source confirmed aliases origin) = tb_generation t"
  "ii_source (new_identity t k r source confirmed aliases origin) = source"
  by (simp_all add: new_identity_def)

lemma distinct_linked [simp]: "distinct (linked_aliases t k aliases)"
  by (simp add: linked_aliases_def)

lemma register_Inr:
  assumes "register t k r source confirmed aliases origin = Inr (it, t')"
  shows "(\<exists>e. lookup_item t k = Some e \<and> ii_role e \<noteq> r \<and> it = e \<and> t' = t)
    \<or> (it = new_identity t k r source confirmed aliases origin \<and> t' = store_item it t
       \<and> (\<forall>a \<in> set (ii_aliases it). identity_text a)
       \<and> (\<forall>a \<in> set (ii_aliases it). \<forall>p. lookup_item t a = Some p \<longrightarrow> ii_canonical p = k)
       \<and> (\<forall>e. lookup_item t k = Some e \<longrightarrow> ii_role e = r))"
proof -
  have *: "each_unit (check_alias t k) (linked_aliases t k aliases) = Inr () \<Longrightarrow>
     (\<forall>a \<in> set (linked_aliases t k aliases). identity_text a)
     \<and> (\<forall>a \<in> set (linked_aliases t k aliases). \<forall>p. lookup_item t a = Some p \<longrightarrow> ii_canonical p = k)"
    by (auto simp: each_unit_Inr check_alias_def split: if_splits option.splits)
  show ?thesis
    using assms * unfolding register_def
    by (cases "lookup_item t k") (auto simp: andthen_Inr_iff Let_def split: if_splits)
qed

lemma register_keeps_wf:
  assumes wf: "table_wf t" and reg: "register t k r source confirmed aliases origin = Inr (it, t')"
  shows "table_wf t'"
  using register_Inr [OF reg]
proof (elim disjE exE conjE)
  fix e assume "t' = t"
  then show ?thesis using wf by simp
next
  assume it: "it = new_identity t k r source confirmed aliases origin" and t': "t' = store_item it t"
    and prev: "\<forall>a \<in> set (ii_aliases it). \<forall>p. lookup_item t a = Some p \<longrightarrow> ii_canonical p = k"
  have al: "ii_aliases it = linked_aliases t k aliases" and can: "ii_canonical it = k"
    by (simp_all add: it)
  have own: "k \<in> set (ii_aliases it)" by (simp add: al linked_aliases_def)
  have old: "a \<in> set (ii_aliases it)" if "lookup_item t k = Some e" "a \<in> set (ii_aliases e)" for e a
    using that by (simp add: al linked_aliases_def)
  have other: "lookup_item t' a = Some p"
    if p: "lookup_item t b = Some p" "b \<notin> set (ii_aliases it)" "a \<in> set (ii_aliases p)" for a b p
  proof -
    have la: "lookup_item t a = Some p" by (rule table_wfD(4) [OF wf p(1,3)])
    have "a \<notin> set (ii_aliases it)"
    proof
      assume "a \<in> set (ii_aliases it)"
      then have "ii_canonical p = k" using prev la by blast
      then have "lookup_item t k = Some p" using table_wfD(5) [OF wf la] by simp
      then show False using old p(2) table_wfD(1) [OF wf p(1)] by blast
    qed
    then show ?thesis using la by (simp add: t' lookup_store_item)
  qed
  show ?thesis unfolding table_wf_def
  proof (intro conjI allI impI)
    show "distinct (map fst (tb_items t'))"
      using wf by (simp add: t' store_item_def table_wf_def distinct_fold_update)
    fix b p assume b: "lookup_item t' b = Some p"
    show "b \<in> set (ii_aliases p)"
      using b table_wfD(1) [OF wf, of b p] by (auto simp: t' lookup_store_item split: if_splits)
    show "distinct (ii_aliases p)"
      using b table_wfD(2) [OF wf, of b p]
      by (auto simp: t' lookup_store_item it split: if_splits)
    have "\<exists>rest. ii_aliases it = ii_canonical it # rest"
      unfolding al can linked_aliases_def dedup_Cons by simp
    then show "\<exists>rest. ii_aliases p = ii_canonical p # rest"
      using b table_wfD(3) [OF wf, of b p]
      by (cases "b \<in> set (ii_aliases it)") (simp_all add: t' lookup_store_item)
    show "\<forall>a \<in> set (ii_aliases p). lookup_item t' a = Some p"
    proof (cases "b \<in> set (ii_aliases it)")
      case True
      then have "p = it" using b by (simp add: t' lookup_store_item)
      then show ?thesis by (simp add: t' lookup_store_item)
    next
      case False
      then have "lookup_item t b = Some p" using b by (simp add: t' lookup_store_item)
      then show ?thesis using other False by blast
    qed
  qed
qed

lemma register_stored:
  assumes "register t k r source confirmed aliases origin = Inr (it, t')"
  shows "lookup_item t' k = Some it"
  using register_Inr [OF assms]
  by (auto simp: lookup_store_item new_identity_def linked_aliases_def)

text \<open>What is known of an item stays known: its name, its role, its confirmation, its aliases.\<close>

definition item_le :: "item_identity \<Rightarrow> item_identity \<Rightarrow> bool" where
  "item_le a b \<longleftrightarrow>
     ii_canonical a = ii_canonical b \<and> ii_role a = ii_role b \<and> (ii_confirmed a \<longrightarrow> ii_confirmed b)
     \<and> set (ii_aliases a) \<subseteq> set (ii_aliases b)"

lemma item_le_refl: "item_le a a"
  by (simp add: item_le_def)

lemma item_le_trans: "item_le a b \<Longrightarrow> item_le b c \<Longrightarrow> item_le a c"
  by (auto simp: item_le_def)

lemma register_item_le:
  assumes wf: "table_wf t" and reg: "register t k r source confirmed aliases origin = Inr (it, t')"
    and b: "lookup_item t b = Some p"
  shows "\<exists>q. lookup_item t' b = Some q \<and> item_le p q \<and> (ii_canonical p \<noteq> k \<longrightarrow> q = p)"
  using register_Inr [OF reg]
proof (elim disjE exE conjE)
  fix e assume "t' = t"
  then show ?thesis using b item_le_refl by blast
next
  assume it: "it = new_identity t k r source confirmed aliases origin" and t': "t' = store_item it t"
    and prev: "\<forall>a \<in> set (ii_aliases it). \<forall>p. lookup_item t a = Some p \<longrightarrow> ii_canonical p = k"
    and same: "\<forall>e. lookup_item t k = Some e \<longrightarrow> ii_role e = r"
  show ?thesis
  proof (cases "b \<in> set (ii_aliases it)")
    case True
    then have "ii_canonical p = k" using prev b by blast
    then have k: "lookup_item t k = Some p" using table_wfD(5) [OF wf b] by simp
    have "item_le p it"
      using k same \<open>ii_canonical p = k\<close>
      by (auto simp: item_le_def it new_identity_def linked_aliases_def)
    then show ?thesis using True \<open>ii_canonical p = k\<close> by (simp add: t' lookup_store_item)
  next
    case False
    then show ?thesis using b item_le_refl by (auto simp: t' lookup_store_item)
  qed
qed

lemma lookup_begin_generation:
  "table_wf t \<Longrightarrow> lookup_item (begin_generation g t) k =
    (case lookup_item t k of None \<Rightarrow> None | Some it \<Rightarrow> if confirmed_user it then Some it else None)"
  by (simp add: lookup_item_def begin_generation_def table_wf_def map_of_filter_eq
        [where P = "\<lambda>_ it. confirmed_user it"])

lemma lookup_begin_generation_Some:
  assumes "table_wf t"
  shows "lookup_item (begin_generation g t) k = Some it \<longleftrightarrow> lookup_item t k = Some it \<and> confirmed_user it"
  by (auto simp: lookup_begin_generation [OF assms] split: option.splits if_splits)

lemma begin_generation_keeps_wf:
  assumes wf: "table_wf t"
  shows "table_wf (begin_generation g t)"
proof -
  have "distinct (map fst (tb_items (begin_generation g t)))"
    using wf by (simp add: table_wf_def begin_generation_def distinct_filter_keys)
  then show ?thesis
    using table_wfD [OF wf] unfolding table_wf_def lookup_begin_generation_Some [OF wf] by blast
qed

end
