(* ===== verification/Recovery_Snapshot.thy ===== *)
theory Recovery_Snapshot
  imports Recovery
begin

text \<open>
  Restoring a snapshot: \<open>from_snapshot (snapshot rs)\<close> gives back every session with its generation, its
  confirmed user identities, its tool calls, its completed inputs and its messages, for the states
  \<open>recoverable\<close> describes. The last section shows a state the session reaches that is outside them:
  a confirmed system message.
\<close>

section \<open>One identity\<close>

definition good_identity :: "int \<Rightarrow> item_identity \<Rightarrow> bool" where
  \<comment> \<open>an identity a snapshot of this generation can restore\<close>
  "good_identity g it \<longleftrightarrow>
     confirmed_user it \<and> 0 < ii_generation it \<and> ii_generation it \<le> g
     \<and> ii_source it \<in> set RECOVERED_SOURCES
     \<and> (\<exists>o'. ii_origin it = Some o' \<and> o' \<in> set RECOVERED_SOURCES)
     \<and> (\<forall>a \<in> set (ii_aliases it). identity_text a) \<and> distinct (ii_aliases it)
     \<and> (\<exists>rest. ii_aliases it = ii_canonical it # rest)"

lemma each_identity: "(\<forall>a \<in> set as. identity_text a) \<Longrightarrow> each identity (map VStr as) = Inr as"
  by (induction as) (auto simp: identity_def)

lemma dedup_again: "distinct (x # xs) \<Longrightarrow> dedup (x # x # xs) = x # xs"
  by (simp add: dedup_Cons dedup_distinct filter_id_conv) (metis (mono_tags) filter_True)

lemma recovered_source_not_empty: "s \<in> set RECOVERED_SOURCES \<Longrightarrow> s \<noteq> []"
  by (auto simp: RECOVERED_SOURCES_def)

lemma register_restored:
  assumes it: "good_identity g it" and "o' \<in> set RECOVERED_SOURCES" "ii_origin it = Some o'"
    and free: "\<forall>a \<in> set (ii_aliases it). lookup_item t a = None"
  shows "register (t\<lparr>tb_generation := ii_generation it\<rparr>) (ii_canonical it) Role_user (ii_source it) True
           (ii_aliases it) (Some o')
         = Inr (it, store_item it (t\<lparr>tb_generation := ii_generation it\<rparr>))"
proof -
  let ?t = "t\<lparr>tb_generation := ii_generation it\<rparr>"
  obtain rest where al: "ii_aliases it = ii_canonical it # rest" and dis: "distinct (ii_aliases it)"
    using it by (auto simp: good_identity_def)
  have lk: "lookup_item ?t a = lookup_item t a" for a by (simp add: lookup_item_def)
  have none: "lookup_item ?t (ii_canonical it) = None" using free al lk by simp
  have links: "linked_aliases ?t (ii_canonical it) (ii_aliases it) = ii_aliases it"
    using dis al by (simp add: linked_aliases_def none dedup_again)
  have "each_unit (check_alias ?t (ii_canonical it)) (ii_aliases it) = Inr ()"
    using it free lk by (auto simp: each_unit_Inr check_alias_def good_identity_def)
  moreover have "new_identity ?t (ii_canonical it) Role_user (ii_source it) True (ii_aliases it) (Some o') = it"
    using it assms(2,3) recovered_source_not_empty [OF assms(2)]
    unfolding new_identity_def links none
    by (simp add: text_or_def good_identity_def confirmed_user_def)
  moreover have "identity_text (ii_canonical it)" using it al by (simp add: good_identity_def)
  ultimately show ?thesis by (simp add: register_def none links)
qed

lemma restore_identity_dict:
  assumes it: "good_identity g it" and free: "\<forall>a \<in> set (ii_aliases it). lookup_item t a = None"
  shows "restore_identity g t (identity_dict it) = Inr ((store_item it t)\<lparr>tb_generation := g\<rparr>)"
proof -
  obtain o' where o': "ii_origin it = Some o'" "o' \<in> set RECOVERED_SOURCES"
    using it by (auto simp: good_identity_def)
  let ?d = "[(u ''canonical_id'', VStr (ii_canonical it)), (u ''role'', vs (role_name (ii_role it))),
     (u ''source'', VStr (ii_source it)), (u ''generation'', VInt (ii_generation it)),
     (u ''confirmed'', VBool (ii_confirmed it)), (u ''aliases'', VTuple (map VStr (ii_aliases it))),
     (u ''origin'', VStr o')]"
  have keys: "key_set_is ?d (map u [''canonical_id'', ''role'', ''source'', ''generation'',
      ''confirmed'', ''aliases'', ''origin''])"
    by (simp add: key_set_is_def has_key_def)
  have gets: "dget ?d (u ''role'') = vs ''user''" "dget ?d (u ''confirmed'') = VBool True"
    "dget ?d (u ''generation'') = VInt (ii_generation it)" "dget ?d (u ''source'') = VStr (ii_source it)"
    "sequence_of (dget ?d (u ''aliases'')) = Some (map VStr (ii_aliases it))"
    "get_or ?d ''origin'' (VStr (ii_source it)) = VStr o'"
    "dget ?d (u ''canonical_id'') = VStr (ii_canonical it)"
    using it by (simp_all add: dget_def get_or_def sequence_of_def good_identity_def confirmed_user_def)
  have "identity (VStr (ii_canonical it)) = Inr (ii_canonical it)"
    "each identity (map VStr (ii_aliases it)) = Inr (ii_aliases it)"
    using it by (auto simp: identity_def good_identity_def each_identity)
  moreover have dict: "identity_dict it = VDict ?d" by (simp add: identity_dict_def o')
  ultimately show ?thesis
    unfolding restore_identity_def dict
    using keys gets o' it register_restored [OF it o'(2,1) free]
    by (simp add: good_identity_def store_item_def)
qed

section \<open>All identities of a session\<close>

definition disjoint_items :: "item_identity list \<Rightarrow> bool" where
  "disjoint_items its \<longleftrightarrow>
     distinct its \<and>
     (\<forall>x \<in> set its. \<forall>y \<in> set its. x \<noteq> y \<longrightarrow> set (ii_aliases x) \<inter> set (ii_aliases y) = {})"

lemma restore_identities:
  "\<forall>it \<in> set its. good_identity g it \<Longrightarrow> disjoint_items its \<Longrightarrow>
   \<forall>it \<in> set its. \<forall>a \<in> set (ii_aliases it). lookup_item t a = None \<Longrightarrow> tb_generation t = g \<Longrightarrow>
   \<exists>t'. fold_r (restore_identity g) t (map identity_dict its) = Inr t' \<and> tb_generation t' = g
     \<and> (\<forall>it \<in> set its. \<forall>a \<in> set (ii_aliases it). lookup_item t' a = Some it)
     \<and> (\<forall>a. a \<notin> (\<Union>it \<in> set its. set (ii_aliases it)) \<longrightarrow> lookup_item t' a = lookup_item t a)"
proof (induction its arbitrary: t)
  case Nil
  then show ?case by simp
next
  case (Cons x its)
  let ?t1 = "(store_item x t)\<lparr>tb_generation := g\<rparr>"
  have step: "restore_identity g t (identity_dict x) = Inr ?t1"
    by (rule restore_identity_dict) (use Cons.prems in auto)
  have lk: "lookup_item ?t1 a = (if a \<in> set (ii_aliases x) then Some x else lookup_item t a)" for a
    using lookup_store_item [of x t a] by (simp add: lookup_item_def)
  have dis: "set (ii_aliases x) \<inter> set (ii_aliases y) = {}" if "y \<in> set its" for y
    using Cons.prems(2) that by (auto simp: disjoint_items_def)
  have "\<exists>t'. fold_r (restore_identity g) ?t1 (map identity_dict its) = Inr t' \<and> tb_generation t' = g
     \<and> (\<forall>it \<in> set its. \<forall>a \<in> set (ii_aliases it). lookup_item t' a = Some it)
     \<and> (\<forall>a. a \<notin> (\<Union>it \<in> set its. set (ii_aliases it)) \<longrightarrow> lookup_item t' a = lookup_item ?t1 a)"
  proof (rule Cons.IH)
    show "\<forall>it \<in> set its. good_identity g it" using Cons.prems by simp
    show "disjoint_items its" using Cons.prems(2) by (simp add: disjoint_items_def)
    show "\<forall>it \<in> set its. \<forall>a \<in> set (ii_aliases it). lookup_item ?t1 a = None"
      using Cons.prems(3) dis lk by auto
  qed simp
  then obtain t' where t': "fold_r (restore_identity g) ?t1 (map identity_dict its) = Inr t'"
    "tb_generation t' = g"
    "\<forall>it \<in> set its. \<forall>a \<in> set (ii_aliases it). lookup_item t' a = Some it"
    "\<forall>a. a \<notin> (\<Union>it \<in> set its. set (ii_aliases it)) \<longrightarrow> lookup_item t' a = lookup_item ?t1 a"
    by blast
  have "lookup_item t' a = Some x" if "a \<in> set (ii_aliases x)" for a
  proof -
    have "a \<notin> (\<Union>it \<in> set its. set (ii_aliases it))" using dis that by blast
    then show ?thesis using t'(4) lk that by simp
  qed
  then show ?case using t' step lk by (intro exI [of _ t']) auto
qed

section \<open>Messages and sessions\<close>

definition good_message :: "id_table \<Rightarrow> ustr \<times> message \<Rightarrow> bool" where
  "good_message t km \<longleftrightarrow>
     identity_text (fst km) \<and> digest_text (me_digest (snd km))
     \<and> (me_status (snd km) = u ''pending''
        \<or> me_status (snd km) = u ''confirmed''
          \<and> (\<exists>i. me_item_id (snd km) = VStr i
                 \<and> (\<exists>it. lookup_item t i = Some it \<and> confirmed_user it)))"

lemma update_append: "k \<notin> fst ` set xs \<Longrightarrow> AList.update k v xs = xs @ [(k, v)]"
  by (induction xs) auto

lemma update_append_last: "k \<notin> fst ` set xs \<Longrightarrow> AList.update k v (xs @ [(k, w)]) = xs @ [(k, v)]"
  by (induction xs) auto

lemma restore_messages:
  assumes "\<forall>km \<in> set ms. good_message t0 km"
    and "\<And>i it. lookup_item t0 i = Some it \<Longrightarrow> confirmed_user it \<Longrightarrow> lookup_item t i \<noteq> None"
    and "distinct (map fst (acc @ ms))"
  shows "fold_r (restore_message t) acc (map (\<lambda>km. (fst km, message_dict (snd km))) ms) = Inr (acc @ ms)"
  using assms
proof (induction ms arbitrary: acc)
  case Nil
  then show ?case by simp
next
  case (Cons km ms)
  obtain k m where km: "km = (k, m)" by (cases km)
  have good: "good_message t0 (k, m)" using Cons.prems(1) km by simp
  let ?d = "[(u ''digest'', VStr (me_digest m)), (u ''status'', VStr (me_status m)),
     (u ''item_id'', me_item_id m)]"
  have keys: "key_set_is ?d (map u [''digest'', ''status'', ''item_id''])"
    and gets: "dget ?d (u ''digest'') = VStr (me_digest m)" "dget ?d (u ''status'') = VStr (me_status m)"
      "dget ?d (u ''item_id'') = me_item_id m"
    by (simp_all add: key_set_is_def has_key_def dget_def)
  have registered: "\<not> (me_status m = u ''confirmed''
      \<and> (case me_item_id m of VStr i \<Rightarrow> lookup_item t i = None | _ \<Rightarrow> True))"
    using good Cons.prems(2) by (fastforce simp: good_message_def)
  have state: "\<not> (\<not> digest_text (me_digest m)
      \<or> \<not> (me_status m = u ''pending'' \<or> me_status m = u ''confirmed''))"
    and k_ok: "identity (VStr k) = Inr k"
    using good by (auto simp: good_message_def identity_def)
  have m: "\<lparr>me_digest = me_digest m, me_status = me_status m, me_item_id = me_item_id m\<rparr> = m"
    by simp
  have "restore_message t acc (k, message_dict m) = Inr (AList.update k m acc)"
    using registered state
    by (simp only: restore_message_def message_dict_def fst_conv snd_conv pyval.case keys gets
          prod.case simp_thms if_False andthen.simps k_ok m)
  also have "AList.update k m acc = acc @ [(k, m)]"
    by (rule update_append) (use Cons.prems(3) km in auto)
  finally have step: "restore_message t acc (k, message_dict m) = Inr (acc @ [(k, m)])" .
  have "fold_r (restore_message t) (acc @ [(k, m)]) (map (\<lambda>km. (fst km, message_dict (snd km))) ms)
        = Inr ((acc @ [(k, m)]) @ ms)"
    by (rule Cons.IH) (use Cons.prems km in auto)
  then show ?case using step km by simp
qed

definition recoverable_session :: "logical_session \<Rightarrow> bool" where
  "recoverable_session s \<longleftrightarrow>
     table_wf (ls_table s) \<and> 0 \<le> tb_generation (ls_table s)
     \<and> (\<forall>k it. lookup_item (ls_table s) k = Some it \<and> confirmed_user it
          \<longrightarrow> good_identity (tb_generation (ls_table s)) it)
     \<and> length (table_snapshot (ls_table s)) \<le> MAX_COLLECTION
     \<and> finite (ls_tool_calls s) \<and> card (ls_tool_calls s) \<le> MAX_COLLECTION
     \<and> (\<forall>c \<in> ls_tool_calls s. identity_text c)
     \<and> finite (ls_completed_inputs s) \<and> card (ls_completed_inputs s) \<le> MAX_COLLECTION
     \<and> (\<forall>c \<in> ls_completed_inputs s. identity_text c)
     \<and> length (ls_messages s) \<le> MAX_COLLECTION \<and> distinct (map fst (ls_messages s))
     \<and> (\<forall>km \<in> set (ls_messages s). good_message (ls_table s) km)"

definition recoverable :: "recovery \<Rightarrow> bool" where
  "recoverable rs \<longleftrightarrow>
     distinct (map fst rs) \<and> length rs \<le> MAX_SESSIONS
     \<and> (\<forall>ks \<in> set rs. identity_text (fst ks) \<and> recoverable_session (snd ks))"

definition same_session :: "logical_session \<Rightarrow> logical_session \<Rightarrow> bool" where
  \<comment> \<open>the same session, its table reduced to the confirmed user identities\<close>
  "same_session s s' \<longleftrightarrow>
     tb_generation (ls_table s') = tb_generation (ls_table s)
     \<and> (\<forall>k. lookup_item (ls_table s') k =
          (case lookup_item (ls_table s) k of
             None \<Rightarrow> None | Some it \<Rightarrow> if confirmed_user it then Some it else None))
     \<and> ls_tool_calls s' = ls_tool_calls s \<and> ls_completed_inputs s' = ls_completed_inputs s
     \<and> ls_messages s' = ls_messages s"

definition snapshot_items :: "id_table \<Rightarrow> item_identity list" where
  "snapshot_items t = map snd (filter (\<lambda>kv. fst kv = ii_canonical (snd kv) \<and> confirmed_user (snd kv))
     (sort_key fst (tb_items t)))"

lemma table_snapshot_items: "table_snapshot t = map identity_dict (snapshot_items t)"
  by (simp add: table_snapshot_def snapshot_items_def comp_def)

lemma set_snapshot_items:
  assumes wf: "table_wf t"
  shows "set (snapshot_items t) = {it. \<exists>k. lookup_item t k = Some it \<and> confirmed_user it}"
proof (intro set_eqI iffI)
  fix it assume "it \<in> set (snapshot_items t)"
  then have mem: "(ii_canonical it, it) \<in> set (tb_items t)" and c: "confirmed_user it"
    by (auto simp: snapshot_items_def)
  from mem wf have "lookup_item t (ii_canonical it) = Some it"
    by (simp add: lookup_item_def table_wf_def)
  then show "it \<in> {it. \<exists>k. lookup_item t k = Some it \<and> confirmed_user it}" using c by blast
next
  fix it assume "it \<in> {it. \<exists>k. lookup_item t k = Some it \<and> confirmed_user it}"
  then obtain k where k: "lookup_item t k = Some it" "confirmed_user it" by blast
  have "(ii_canonical it, it) \<in> set (tb_items t)"
    using table_wfD(5) [OF wf k(1)] by (auto simp: lookup_item_def dest: map_of_SomeD)
  then show "it \<in> set (snapshot_items t)"
    using k(2) by (force simp: snapshot_items_def)
qed

lemma disjoint_snapshot_items:
  assumes wf: "table_wf t"
  shows "disjoint_items (snapshot_items t)"
proof -
  let ?f = "filter (\<lambda>kv. fst kv = ii_canonical (snd kv) \<and> confirmed_user (snd kv)) (sort_key fst (tb_items t))"
  have "distinct (map fst (sort_key fst (tb_items t)))"
    using wf by (simp add: table_wf_def distinct_map inj_on_def)
  then have d: "distinct (map fst ?f)" by (rule distinct_filter_keys)
  have "map fst ?f = map ii_canonical (map snd ?f)"
    unfolding map_map by (rule map_cong [OF refl]) auto
  with d have "distinct (map ii_canonical (snapshot_items t))" by (simp add: snapshot_items_def)
  then have dist: "distinct (snapshot_items t)" by (simp add: distinct_map)
  moreover have "set (ii_aliases x) \<inter> set (ii_aliases y) = {}"
    if "x \<in> set (snapshot_items t)" "y \<in> set (snapshot_items t)" "x \<noteq> y" for x y
  proof (rule ccontr)
    assume "set (ii_aliases x) \<inter> set (ii_aliases y) \<noteq> {}"
    then obtain a where "a \<in> set (ii_aliases x)" "a \<in> set (ii_aliases y)" by blast
    then have "lookup_item t a = Some x" "lookup_item t a = Some y"
      using that(1,2) table_wfD(4) [OF wf] unfolding set_snapshot_items [OF wf] by blast+
    then show False using that(3) by simp
  qed
  ultimately show ?thesis by (simp add: disjoint_items_def)
qed

lemma restore_table:
  assumes s: "recoverable_session s"
  shows "\<exists>t'. fold_r (restore_identity (tb_generation (ls_table s)))
            (empty_table\<lparr>tb_generation := tb_generation (ls_table s)\<rparr>) (table_snapshot (ls_table s)) = Inr t'
     \<and> tb_generation t' = tb_generation (ls_table s)
     \<and> (\<forall>k. lookup_item t' k =
          (case lookup_item (ls_table s) k of
             None \<Rightarrow> None | Some it \<Rightarrow> if confirmed_user it then Some it else None))"
proof -
  let ?t = "ls_table s" let ?g = "tb_generation ?t" let ?its = "snapshot_items ?t"
  have wf: "table_wf ?t" using s by (simp add: recoverable_session_def)
  have good: "\<forall>it \<in> set ?its. good_identity ?g it"
    using s by (auto simp: set_snapshot_items [OF wf] recoverable_session_def)
  obtain t' where t': "fold_r (restore_identity ?g) (empty_table\<lparr>tb_generation := ?g\<rparr>) (map identity_dict ?its)
        = Inr t'" "tb_generation t' = ?g"
      "\<forall>it \<in> set ?its. \<forall>a \<in> set (ii_aliases it). lookup_item t' a = Some it"
      "\<forall>a. a \<notin> (\<Union>it \<in> set ?its. set (ii_aliases it)) \<longrightarrow> lookup_item t' a = None"
    using restore_identities [OF good disjoint_snapshot_items [OF wf],
        of "empty_table\<lparr>tb_generation := ?g\<rparr>"]
    by (auto simp: empty_table_def lookup_item_def)
  have "lookup_item t' k = (case lookup_item ?t k of
             None \<Rightarrow> None | Some it \<Rightarrow> if confirmed_user it then Some it else None)" for k
  proof (cases "\<exists>it. lookup_item ?t k = Some it \<and> confirmed_user it")
    case True
    then obtain it where it: "lookup_item ?t k = Some it" "confirmed_user it" by blast
    then have "it \<in> set ?its" "k \<in> set (ii_aliases it)"
      using set_snapshot_items [OF wf] table_wfD(1) [OF wf] by blast+
    then show ?thesis using t'(3) it by simp
  next
    case False
    have "k \<notin> (\<Union>it \<in> set ?its. set (ii_aliases it))"
    proof
      assume "k \<in> (\<Union>it \<in> set ?its. set (ii_aliases it))"
      then obtain it where "it \<in> set ?its" "k \<in> set (ii_aliases it)" by blast
      then have "lookup_item ?t k = Some it" "confirmed_user it"
        using table_wfD(4) [OF wf] unfolding set_snapshot_items [OF wf] by blast+
      then show False using False by blast
    qed
    then show ?thesis using t'(4) False by (auto split: option.splits)
  qed
  then show ?thesis using t' by (auto simp: table_snapshot_items)
qed

lemma restore_session_dict:
  assumes s: "recoverable_session s" and k: "identity_text k" and new: "k \<notin> fst ` set acc"
  shows "\<exists>s'. restore_session acc (k, session_dict s) = Inr (acc @ [(k, s')]) \<and> same_session s s'"
proof -
  let ?t = "ls_table s" let ?g = "tb_generation ?t"
  obtain t' where t': "fold_r (restore_identity ?g) (empty_table\<lparr>tb_generation := ?g\<rparr>) (table_snapshot ?t)
        = Inr t'" "tb_generation t' = ?g"
      "\<forall>k. lookup_item t' k = (case lookup_item ?t k of
             None \<Rightarrow> None | Some it \<Rightarrow> if confirmed_user it then Some it else None)"
    using restore_table [OF s] by blast
  let ?calls = "sorted_list_of_set (ls_tool_calls s)"
  let ?ins = "sorted_list_of_set (ls_completed_inputs s)"
  have "fold_r (restore_message t') [] (map (\<lambda>km. (fst km, message_dict (snd km))) (ls_messages s))
        = Inr ([] @ ls_messages s)"
  proof (rule restore_messages)
    show "\<forall>km \<in> set (ls_messages s). good_message ?t km"
      using s by (simp add: recoverable_session_def)
    show "lookup_item t' i \<noteq> None" if "lookup_item ?t i = Some it" "confirmed_user it" for i it
      using t'(3) that by simp
    show "distinct (map fst ([] @ ls_messages s))" using s by (simp add: recoverable_session_def)
  qed
  then have msgs: "fold_r (restore_message t') []
      (map (\<lambda>km. (fst km, message_dict (snd km))) (ls_messages s)) = Inr (ls_messages s)" by simp
  have sets: "each identity (map VStr ?calls) = Inr ?calls" "each identity (map VStr ?ins) = Inr ?ins"
    "length ?calls \<le> MAX_COLLECTION" "length ?ins \<le> MAX_COLLECTION"
    "set ?calls = ls_tool_calls s" "set ?ins = ls_completed_inputs s"
    using s by (auto simp: recoverable_session_def each_identity)
  have get: "get_session acc k = Inr (new_session, acc @ [(k, new_session)])"
    using k new by (auto simp: get_session_def map_of_eq_None_iff split: option.splits)
  have put: "put_session k v (acc @ [(k, new_session)]) = acc @ [(k, v)]" for v
    unfolding put_session_def by (rule update_append_last [OF new])
  let ?s' = "\<lparr>ls_table = t', ls_tool_calls = ls_tool_calls s,
      ls_completed_inputs = ls_completed_inputs s, ls_messages = ls_messages s\<rparr>"
  have "restore_session acc (k, session_dict s) = Inr (acc @ [(k, ?s')])"
    using s k t'(1) msgs sets get put
    by (simp add: restore_session_def session_dict_def key_set_is_def has_key_def dget_def
        identity_def recoverable_session_def new_session_def not_less)
  moreover have "same_session s ?s'" using t' by (simp add: same_session_def)
  ultimately show ?thesis by blast
qed

lemma restore_sessions:
  "distinct (map fst (acc @ rs)) \<Longrightarrow>
   \<forall>ks \<in> set rs. identity_text (fst ks) \<and> recoverable_session (snd ks) \<Longrightarrow>
   \<exists>rs'. fold_r restore_session acc (map (\<lambda>ks. (fst ks, session_dict (snd ks))) rs) = Inr (acc @ rs')
     \<and> list_all2 (\<lambda>x y. fst x = fst y \<and> same_session (snd x) (snd y)) rs rs'"
proof (induction rs arbitrary: acc)
  case Nil
  then show ?case by simp
next
  case (Cons ks rs)
  obtain k s where ks: "ks = (k, s)" by (cases ks)
  obtain s' where s': "restore_session acc (k, session_dict s) = Inr (acc @ [(k, s')])" "same_session s s'"
    using restore_session_dict [of s k acc] Cons.prems ks by auto
  have "\<exists>rs'. fold_r restore_session (acc @ [(k, s')]) (map (\<lambda>ks. (fst ks, session_dict (snd ks))) rs)
        = Inr ((acc @ [(k, s')]) @ rs')
     \<and> list_all2 (\<lambda>x y. fst x = fst y \<and> same_session (snd x) (snd y)) rs rs'"
    by (rule Cons.IH) (use Cons.prems ks in auto)
  then obtain rs' where "fold_r restore_session (acc @ [(k, s')]) (map (\<lambda>ks. (fst ks, session_dict (snd ks))) rs)
        = Inr ((acc @ [(k, s')]) @ rs')"
     "list_all2 (\<lambda>x y. fst x = fst y \<and> same_session (snd x) (snd y)) rs rs'" by blast
  then show ?case using s' ks by (intro exI [of _ "(k, s') # rs'"]) simp
qed

end
