(* ===== verification/Recovery_System.thy ===== *)
theory Recovery_System
  imports Recovery_Snapshot
begin

text \<open>
  The recovery state as a transition system: any sequence of the operations the realtime session and
  its callers perform on it. The locale \<open>monotone_system\<close> is interpreted on it, so that what holds
  over every run follows from one lemma per operation.
\<close>

section \<open>Steps\<close>

inductive recovery_step :: "recovery \<Rightarrow> recovery \<Rightarrow> bool" where
  step_begin: "begin_session rs ext minimum = Inr (g, rs') \<Longrightarrow> recovery_step rs rs'"
| step_register:
    "get_session rs ext = Inr (s, rs1) \<Longrightarrow>
     register (ls_table s) k r source confirmed aliases origin = Inr (it, t) \<Longrightarrow>
     recovery_step rs (put_session ext (s\<lparr>ls_table := t\<rparr>) rs1)"
| step_claim: "claim_message rs ext key digest = (res, rs') \<Longrightarrow> recovery_step rs rs'"
| step_confirm: "confirm_message rs ext key item_id = (res, rs') \<Longrightarrow> recovery_step rs rs'"
| step_tool_call:
    "get_session rs ext = Inr (s, rs1) \<Longrightarrow>
     recovery_step rs (put_session ext (s\<lparr>ls_tool_calls := insert c (ls_tool_calls s)\<rparr>) rs1)"
| step_completed_input:
    "get_session rs ext = Inr (s, rs1) \<Longrightarrow>
     recovery_step rs (put_session ext (s\<lparr>ls_completed_inputs := insert c (ls_completed_inputs s)\<rparr>) rs1)"

definition messages_ok :: "(ustr \<times> message) list \<Rightarrow> bool" where
  "messages_ok ms \<longleftrightarrow>
     (\<forall>k m. map_of ms k = Some m \<and> me_status m = u ''confirmed'' \<longrightarrow> (\<exists>i. me_item_id m = VStr i))"

definition session_inv :: "logical_session \<Rightarrow> bool" where
  "session_inv s \<longleftrightarrow>
     table_wf (ls_table s) \<and> 0 \<le> tb_generation (ls_table s) \<and> messages_ok (ls_messages s)"

definition recovery_inv :: "recovery \<Rightarrow> bool" where
  "recovery_inv rs \<longleftrightarrow> (\<forall>ext. session_inv (the_session rs ext))"

definition message_le :: "message \<Rightarrow> message \<Rightarrow> bool" where
  "message_le m n \<longleftrightarrow> me_digest m = me_digest n
     \<and> (me_status m = u ''confirmed'' \<longrightarrow> me_status n = u ''confirmed'')"

definition messages_le :: "(ustr \<times> message) list \<Rightarrow> (ustr \<times> message) list \<Rightarrow> bool" where
  "messages_le ms ns \<longleftrightarrow>
     (\<forall>k m. map_of ms k = Some m \<longrightarrow> (\<exists>n. map_of ns k = Some n \<and> message_le m n))"

definition users_le :: "id_table \<Rightarrow> id_table \<Rightarrow> bool" where
  "users_le t t' \<longleftrightarrow>
     (\<forall>k it. lookup_item t k = Some it \<and> confirmed_user it
        \<longrightarrow> (\<exists>q. lookup_item t' k = Some q \<and> item_le it q))"

definition session_le :: "logical_session \<Rightarrow> logical_session \<Rightarrow> bool" where
  "session_le s t \<longleftrightarrow>
     tb_generation (ls_table s) \<le> tb_generation (ls_table t)
     \<and> ls_tool_calls s \<subseteq> ls_tool_calls t \<and> ls_completed_inputs s \<subseteq> ls_completed_inputs t
     \<and> users_le (ls_table s) (ls_table t) \<and> messages_le (ls_messages s) (ls_messages t)"

definition recovery_le :: "recovery \<Rightarrow> recovery \<Rightarrow> bool" where
  "recovery_le rs rs' \<longleftrightarrow> (\<forall>ext. session_le (the_session rs ext) (the_session rs' ext))"

section \<open>Sessions as a map\<close>

lemma the_session_get:
  "get_session rs ext = Inr (s, rs') \<Longrightarrow> s = the_session rs ext \<and> (\<forall>e. the_session rs' e = the_session rs e)"
  by (auto simp: get_session_def the_session_def map_add_def map_of_append split: if_splits option.splits)

lemma the_session_put:
  "the_session (put_session ext s rs) e = (if e = ext then s else the_session rs e)"
  by (simp add: the_session_def put_session_def update_conv')

lemma the_session_Nil [simp]: "the_session [] ext = new_session"
  by (simp add: the_session_def)

lemma session_inv_new: "session_inv new_session"
  by (simp add: session_inv_def new_session_def table_wf_empty messages_ok_def)
     (simp add: empty_table_def)

lemma messages_le_refl [simp]: "messages_le ms ms"
  by (simp add: messages_le_def message_le_def)

lemma users_le_refl [simp]: "users_le t t"
  using item_le_refl by (auto simp: users_le_def)

lemma session_le_refl: "session_le s s"
  by (simp add: session_le_def)

lemma confirmed_item_le: "confirmed_user it \<Longrightarrow> item_le it q \<Longrightarrow> confirmed_user q"
  by (auto simp: confirmed_user_def item_le_def)

lemma message_le_trans: "message_le a b \<Longrightarrow> message_le b c \<Longrightarrow> message_le a c"
  by (simp add: message_le_def)

lemma messages_le_trans: "messages_le a b \<Longrightarrow> messages_le b c \<Longrightarrow> messages_le a c"
  unfolding messages_le_def by (meson message_le_trans)

lemma users_le_trans: "users_le a b \<Longrightarrow> users_le b c \<Longrightarrow> users_le a c"
  unfolding users_le_def by (meson confirmed_item_le item_le_trans)

lemma session_le_trans: "session_le s t \<Longrightarrow> session_le t r \<Longrightarrow> session_le s r"
  unfolding session_le_def using messages_le_trans users_le_trans by (meson order_trans)

section \<open>One lemma per operation\<close>

lemma begin_session_Inr:
  assumes "begin_session rs ext minimum = Inr (g, rs')"
  shows "\<exists>s rs1. get_session rs ext = Inr (s, rs1)
     \<and> g = max (tb_generation (ls_table s) + 1) minimum
     \<and> rs' = put_session ext (s\<lparr>ls_table := begin_generation g (ls_table s)\<rparr>) rs1"
  using assms by (auto simp: begin_session_def andthen_Inr_iff Let_def)

lemma begin_generation_session:
  assumes "session_inv s" and "tb_generation (ls_table s) < g"
  shows "session_inv (s\<lparr>ls_table := begin_generation g (ls_table s)\<rparr>)"
    and "session_le s (s\<lparr>ls_table := begin_generation g (ls_table s)\<rparr>)"
proof -
  have wf: "table_wf (ls_table s)" using assms(1) by (simp add: session_inv_def)
  have g: "tb_generation (begin_generation g (ls_table s)) = g" by (simp add: begin_generation_def)
  show "session_inv (s\<lparr>ls_table := begin_generation g (ls_table s)\<rparr>)"
    using assms begin_generation_keeps_wf [OF wf] by (simp add: session_inv_def g)
  show "session_le s (s\<lparr>ls_table := begin_generation g (ls_table s)\<rparr>)"
    using assms(2) item_le_refl
    by (auto simp: session_le_def g lookup_begin_generation_Some [OF wf] users_le_def)
qed

lemma store_item_generation [simp]: "tb_generation (store_item it t) = tb_generation t"
  by (simp add: store_item_def)

lemma register_generation:
  "register t k r source confirmed aliases origin = Inr (it, t') \<Longrightarrow> tb_generation t' = tb_generation t"
  by (drule register_Inr) auto

lemma register_session:
  assumes "session_inv s" and "register (ls_table s) k r source confirmed aliases origin = Inr (it, t)"
  shows "session_inv (s\<lparr>ls_table := t\<rparr>)" and "session_le s (s\<lparr>ls_table := t\<rparr>)"
proof -
  have wf: "table_wf (ls_table s)" using assms(1) by (simp add: session_inv_def)
  note g = register_generation [OF assms(2)]
  show "session_inv (s\<lparr>ls_table := t\<rparr>)"
    using assms(1) register_keeps_wf [OF wf assms(2)] by (simp add: session_inv_def g)
  show "session_le s (s\<lparr>ls_table := t\<rparr>)"
    using register_item_le [OF wf assms(2)] by (simp add: session_le_def g users_le_def) blast
qed

lemma message_session:
  assumes "session_inv s" and "\<forall>m. map_of (ls_messages s) key = Some m \<longrightarrow> message_le m n"
    and "me_status n = u ''confirmed'' \<longrightarrow> (\<exists>i. me_item_id n = VStr i)"
  shows "session_inv (s\<lparr>ls_messages := AList.update key n (ls_messages s)\<rparr>)"
    and "session_le s (s\<lparr>ls_messages := AList.update key n (ls_messages s)\<rparr>)"
proof -
  have "messages_ok (AList.update key n (ls_messages s))"
    using assms(1,3) by (auto simp: session_inv_def messages_ok_def update_conv')
  then show "session_inv (s\<lparr>ls_messages := AList.update key n (ls_messages s)\<rparr>)"
    using assms(1) by (simp add: session_inv_def)
  have "messages_le (ls_messages s) (AList.update key n (ls_messages s))"
    unfolding messages_le_def
  proof (intro allI impI)
    fix k m assume "map_of (ls_messages s) k = Some m"
    then show "\<exists>x. map_of (AList.update key n (ls_messages s)) k = Some x \<and> message_le m x"
      using assms(2) by (cases "k = key") (auto simp: update_conv' message_le_def)
  qed
  then show "session_le s (s\<lparr>ls_messages := AList.update key n (ls_messages s)\<rparr>)"
    by (simp add: session_le_def)
qed

lemma step_session:
  assumes "recovery_step rs rs'" and inv: "recovery_inv rs"
  shows "\<exists>ext s. session_inv s \<and> session_le (the_session rs ext) s
           \<and> (\<forall>e. the_session rs' e = (if e = ext then s else the_session rs e))"
  using assms(1)
proof cases
  case (step_begin ext minimum g)
  from begin_session_Inr [OF step_begin] obtain s rs1 where
    s: "get_session rs ext = Inr (s, rs1)" "g = max (tb_generation (ls_table s) + 1) minimum"
      "rs' = put_session ext (s\<lparr>ls_table := begin_generation g (ls_table s)\<rparr>) rs1" by blast
  have e: "s = the_session rs ext" "\<forall>e. the_session rs1 e = the_session rs e"
    using the_session_get [OF s(1)] by simp_all
  have "session_inv s" using inv e by (simp add: recovery_inv_def)
  moreover have "tb_generation (ls_table s) < g" using s(2) by simp
  ultimately show ?thesis
    using begin_generation_session [of s g] s(3) e by (fastforce simp: the_session_put)
next
  case (step_register ext s rs1 k r source confirmed aliases origin it t)
  have e: "s = the_session rs ext" "\<forall>e. the_session rs1 e = the_session rs e"
    using the_session_get [OF step_register(2)] by simp_all
  have "session_inv s" using inv e by (simp add: recovery_inv_def)
  then show ?thesis
    using register_session [OF _ step_register(3)] step_register(1) e
    by (fastforce simp: the_session_put)
next
  case (step_claim ext key digest res)
  show ?thesis
  proof (cases "get_session rs ext")
    case (Inl x)
    then show ?thesis using step_claim inv session_le_refl
      by (auto simp: claim_message_def recovery_inv_def)
  next
    case (Inr p)
    then obtain s rs1 where s: "get_session rs ext = Inr (s, rs1)" by (cases p) auto
    have e: "s = the_session rs ext" "\<forall>e. the_session rs1 e = the_session rs e"
      using the_session_get [OF s] by simp_all
    have i: "session_inv s" using inv e by (simp add: recovery_inv_def)
    let ?n = "\<lparr>me_digest = digest, me_status = u ''pending'', me_item_id = VNone\<rparr>"
    have "rs' = rs1 \<or> map_of (ls_messages s) key = None
        \<and> rs' = put_session ext (s\<lparr>ls_messages := AList.update key ?n (ls_messages s)\<rparr>) rs1"
      using step_claim s by (auto simp: claim_message_def split: if_splits option.splits)
    then show ?thesis
    proof
      assume "rs' = rs1"
      then show ?thesis using i e session_le_refl by (intro exI [of _ ext] exI [of _ s]) auto
    next
      assume *: "map_of (ls_messages s) key = None
        \<and> rs' = put_session ext (s\<lparr>ls_messages := AList.update key ?n (ls_messages s)\<rparr>) rs1"
      then show ?thesis
        using message_session [OF i, of key ?n] e
        by (intro exI [of _ ext] exI [of _ "s\<lparr>ls_messages := AList.update key ?n (ls_messages s)\<rparr>"])
           (simp add: the_session_put)
    qed
  qed
next
  case (step_confirm ext key item_id res)
  show ?thesis
  proof (cases "get_session rs ext")
    case (Inl x)
    then show ?thesis using step_confirm inv session_le_refl
      by (auto simp: confirm_message_def recovery_inv_def)
  next
    case (Inr p)
    then obtain s rs1 where s: "get_session rs ext = Inr (s, rs1)" by (cases p) auto
    have e: "s = the_session rs ext" "\<forall>e. the_session rs1 e = the_session rs e"
      using the_session_get [OF s] by simp_all
    have i: "session_inv s" using inv e by (simp add: recovery_inv_def)
    show ?thesis
    proof (cases "map_of (ls_messages s) key")
      case None
      then have "rs' = rs1" using step_confirm s by (simp add: confirm_message_def)
      then show ?thesis using i e session_le_refl by (intro exI [of _ ext] exI [of _ s]) auto
    next
      case (Some m)
      let ?n = "m\<lparr>me_status := u ''confirmed'', me_item_id := VStr item_id\<rparr>"
      have "rs' = put_session ext (s\<lparr>ls_messages := AList.update key ?n (ls_messages s)\<rparr>) rs1"
        using step_confirm s Some by (simp add: confirm_message_def)
      then show ?thesis
        using message_session [OF i, of key ?n] e Some
        by (intro exI [of _ ext] exI [of _ "s\<lparr>ls_messages := AList.update key ?n (ls_messages s)\<rparr>"])
           (simp add: the_session_put message_le_def)
    qed
  qed
next
  case (step_tool_call ext s rs1 c)
  have e: "s = the_session rs ext" "\<forall>e. the_session rs1 e = the_session rs e"
    using the_session_get [OF step_tool_call(2)] by simp_all
  have "session_inv s" using inv e by (simp add: recovery_inv_def)
  then show ?thesis using step_tool_call(1) e
    by (intro exI [of _ ext] exI [of _ "s\<lparr>ls_tool_calls := insert c (ls_tool_calls s)\<rparr>"])
       (auto simp: the_session_put session_inv_def session_le_def)
next
  case (step_completed_input ext s rs1 c)
  have e: "s = the_session rs ext" "\<forall>e. the_session rs1 e = the_session rs e"
    using the_session_get [OF step_completed_input(2)] by simp_all
  have "session_inv s" using inv e by (simp add: recovery_inv_def)
  then show ?thesis using step_completed_input(1) e
    by (intro exI [of _ ext] exI [of _ "s\<lparr>ls_completed_inputs := insert c (ls_completed_inputs s)\<rparr>"])
       (auto simp: the_session_put session_inv_def session_le_def)
qed

interpretation recovery: monotone_system "\<lambda>rs. rs = []" recovery_step recovery_inv recovery_le
proof
  show "recovery_inv rs" if "rs = []" for rs
    using that session_inv_new by (simp add: recovery_inv_def)
  show "recovery_inv rs'" if "recovery_inv rs" "recovery_step rs rs'" for rs rs'
    using step_session [OF that(2,1)] that(1) by (auto simp: recovery_inv_def)
  show "recovery_le rs rs" for rs by (simp add: recovery_le_def session_le_refl)
  show "recovery_le a c" if "recovery_le a b" "recovery_le b c" for a b c
    using that session_le_trans unfolding recovery_le_def by blast
  show "recovery_le rs rs'" if "recovery_inv rs" "recovery_step rs rs'" for rs rs'
    using step_session [OF that(2,1)] session_le_refl by (auto simp: recovery_le_def)
qed

section \<open>Properties\<close>

lemma reach_inv: "reach (\<lambda>rs. rs = []) recovery_step rs \<Longrightarrow> session_inv (the_session rs ext)"
  using recovery.inv_reach by (simp add: recovery_inv_def)

lemma recovery_reach_step:
  "reach (\<lambda>rs. rs = []) recovery_step rs \<Longrightarrow> recovery_step rs rs' \<Longrightarrow>
   reach (\<lambda>rs. rs = []) recovery_step rs'"
  by (erule reach_step)

lemma recovery_reach_start: "reach (\<lambda>rs. rs = []) recovery_step []"
  by (rule reach_start) (rule refl)

lemma messages_okD:
  "messages_ok ms \<Longrightarrow> map_of ms k = Some m \<Longrightarrow> me_status m = u ''confirmed'' \<Longrightarrow> \<exists>i. me_item_id m = VStr i"
  unfolding messages_ok_def by blast

lemma get_session_ok: "identity_text ext \<Longrightarrow> \<exists>rs'. get_session rs ext = Inr (the_session rs ext, rs')"
  by (cases "map_of rs ext") (simp_all add: get_session_def the_session_def)

lemma claim_is_step: "recovery_step rs (snd (claim_message rs ext key digest))"
  by (rule step_claim) (rule surjective_pairing)

lemma claim_None:
  assumes "fst (claim_message rs ext key digest) = Inr VNone" and "session_inv (the_session rs ext)"
  shows "identity_text ext \<and> identity_text key
    \<and> map_of (ls_messages (the_session (snd (claim_message rs ext key digest)) ext)) key
      = Some \<lparr>me_digest = digest, me_status = u ''pending'', me_item_id = VNone\<rparr>"
proof -
  obtain s rs1 where s: "get_session rs ext = Inr (s, rs1)"
    using assms(1) by (auto simp: claim_message_def split: sum.splits)
  then have e: "s = the_session rs ext" using the_session_get by blast
  have "identity_text ext" using s by (simp add: get_session_def split: if_splits)
  moreover have "map_of (ls_messages s) key = None"
    using assms s e
    by (auto simp: claim_message_def session_inv_def dest: messages_okD split: if_splits option.splits)
  moreover have "identity_text key" using assms(1) s by (auto simp: claim_message_def split: if_splits)
  ultimately show ?thesis
    using s by (simp add: claim_message_def the_session_put update_conv')
qed

text \<open>
  C14. An idempotency key is claimed once in the life of a logical session: after a claim that told
  the caller to send the message, every later claim of the key, whatever happened in between, is
  refused because the payload changed, refused because the outcome is still open, or returns the item
  that was confirmed. It never tells the caller to send again.
\<close>

theorem message_sent_once:
  assumes "reach (\<lambda>rs. rs = []) recovery_step rs"
    and "fst (claim_message rs ext key digest) = Inr VNone"
    and "recovery_step\<^sup>*\<^sup>* (snd (claim_message rs ext key digest)) rs'"
  shows "fst (claim_message rs' ext key digest') =
           Inl (rt_error E_INVALID_REQUEST ''idempotency payload changed'') \<and> digest' \<noteq> digest
         \<or> fst (claim_message rs' ext key digest') =
             Inl (rt_error E_BUSY ''message outcome is ambiguous'') \<and> digest' = digest
         \<or> (\<exists>i. fst (claim_message rs' ext key digest') = Inr (VStr i)) \<and> digest' = digest"
proof -
  let ?rs1 = "snd (claim_message rs ext key digest)"
  have reach1: "reach (\<lambda>rs. rs = []) recovery_step ?rs1"
    by (rule reach_step [OF assms(1) claim_is_step])
  have reach': "reach (\<lambda>rs. rs = []) recovery_step rs'"
    by (rule reach_rtranclp [OF reach1 assms(3)])
  have claimed: "identity_text ext" "identity_text key"
    "map_of (ls_messages (the_session ?rs1 ext)) key
      = Some \<lparr>me_digest = digest, me_status = u ''pending'', me_item_id = VNone\<rparr>"
    using claim_None [OF assms(2) reach_inv [OF assms(1)]] by auto
  have "messages_le (ls_messages (the_session ?rs1 ext)) (ls_messages (the_session rs' ext))"
    using recovery.le_run [OF recovery.inv_reach [OF reach1] assms(3)]
    by (simp add: recovery_le_def session_le_def)
  then obtain m where m: "map_of (ls_messages (the_session rs' ext)) key = Some m" "me_digest m = digest"
    using claimed(3) by (fastforce simp: messages_le_def message_le_def)
  have ok: "messages_ok (ls_messages (the_session rs' ext))"
    using reach_inv [OF reach'] by (simp add: session_inv_def)
  obtain rs2 where "get_session rs' ext = Inr (the_session rs' ext, rs2)"
    using get_session_ok [OF claimed(1)] by blast
  then show ?thesis
    using m messages_okD [OF ok m(1)] claimed(2) by (auto simp: claim_message_def)
qed

theorem message_sent_once_witness:
  "\<exists>rs'. fst (confirm_message (snd (claim_message [] (u ''s'') (u ''k'') (u ''d''))) (u ''s'') (u ''k'') (u ''item''))
        = Inr ()
     \<and> rs' = snd (confirm_message (snd (claim_message [] (u ''s'') (u ''k'') (u ''d''))) (u ''s'') (u ''k'') (u ''item''))
     \<and> (\<exists>i. fst (claim_message rs' (u ''s'') (u ''k'') (u ''d'')) = Inr (VStr i))"
proof -
  let ?rs1 = "snd (claim_message [] (u ''s'') (u ''k'') (u ''d''))"
  let ?rs' = "snd (confirm_message ?rs1 (u ''s'') (u ''k'') (u ''item''))"
  have start: "reach (\<lambda>rs. rs = []) recovery_step []" by (rule reach_start) simp
  have first: "fst (claim_message [] (u ''s'') (u ''k'') (u ''d'')) = Inr VNone" by code_simp
  have "recovery_step ?rs1 ?rs'" by (rule step_confirm) (rule surjective_pairing)
  then have run: "recovery_step\<^sup>*\<^sup>* ?rs1 ?rs'" by (rule r_into_rtranclp)
  note once = message_sent_once [OF start first run, of "u ''d''"]
  have "fst (claim_message ?rs' (u ''s'') (u ''k'') (u ''d'')) \<noteq>
      Inl (rt_error E_BUSY ''message outcome is ambiguous'')" by code_simp
  moreover have "fst (confirm_message ?rs1 (u ''s'') (u ''k'') (u ''item'')) = Inr ()" by code_simp
  ultimately show ?thesis using once by auto
qed

text \<open>
  What a logical session knows of the user is never lost: over every run of the operations, an
  identity of the user that was confirmed stays registered under the same key with the same name,
  role and confirmation, the generation of the session never decreases, and no recorded tool call or
  completed input is forgotten.
\<close>

lemma confirmed_users_survive:
  assumes "reach (\<lambda>rs. rs = []) recovery_step rs" and "recovery_step\<^sup>*\<^sup>* rs rs'"
  shows "(\<forall>k it. lookup_item (ls_table (the_session rs ext)) k = Some it \<and> confirmed_user it
            \<longrightarrow> (\<exists>q. lookup_item (ls_table (the_session rs' ext)) k = Some q \<and> confirmed_user q
                    \<and> ii_canonical q = ii_canonical it))
         \<and> tb_generation (ls_table (the_session rs ext)) \<le> tb_generation (ls_table (the_session rs' ext))
         \<and> ls_tool_calls (the_session rs ext) \<subseteq> ls_tool_calls (the_session rs' ext)
         \<and> ls_completed_inputs (the_session rs ext) \<subseteq> ls_completed_inputs (the_session rs' ext)"
proof -
  have "session_le (the_session rs ext) (the_session rs' ext)"
    using recovery.le_run [OF recovery.inv_reach [OF assms(1)] assms(2)] by (simp add: recovery_le_def)
  then have le: "users_le (ls_table (the_session rs ext)) (ls_table (the_session rs' ext))"
    "tb_generation (ls_table (the_session rs ext)) \<le> tb_generation (ls_table (the_session rs' ext))"
    "ls_tool_calls (the_session rs ext) \<subseteq> ls_tool_calls (the_session rs' ext)"
    "ls_completed_inputs (the_session rs ext) \<subseteq> ls_completed_inputs (the_session rs' ext)"
    by (simp_all add: session_le_def)
  have "\<exists>q. lookup_item (ls_table (the_session rs' ext)) k = Some q \<and> confirmed_user q
            \<and> ii_canonical q = ii_canonical it"
    if "lookup_item (ls_table (the_session rs ext)) k = Some it" "confirmed_user it" for k it
    using le(1) that confirmed_item_le unfolding users_le_def item_le_def by metis
  then show ?thesis using le by blast
qed

definition example_recovery :: recovery where
  "example_recovery =
     [(u ''s'', new_session\<lparr>ls_table := store_item
          (new_identity empty_table (u ''item'') Role_user (u ''committed'') True [] None) empty_table\<rparr>)]"

lemma example_recovery_reached: "reach (\<lambda>rs. rs = []) recovery_step example_recovery"
proof -
  have "recovery_step [] (put_session (u ''s'') (new_session\<lparr>ls_table := store_item
          (new_identity empty_table (u ''item'') Role_user (u ''committed'') True [] None) empty_table\<rparr>)
          [(u ''s'', new_session)])"
    by (rule step_register [where k = "u ''item''" and r = Role_user and source = "u ''committed''"
          and confirmed = True and aliases = "[]" and origin = None and it =
            "new_identity empty_table (u ''item'') Role_user (u ''committed'') True [] None"])
      code_simp+
  then have "recovery_step [] example_recovery"
    by (simp add: example_recovery_def put_session_def)
  then show ?thesis by (blast intro: reach_step reach_start)
qed

text \<open>
  Registering an item keeps the table well formed, stores the item under the requested name, and
  never changes the name, the role or the aliases of an item that was there, nor drops its
  confirmation; an item with another canonical name is left exactly as it was.
\<close>

lemma register_keeps_identities:
  assumes "table_wf t" and "register t k r source confirmed aliases origin = Inr (it, t')"
  shows "table_wf t' \<and> lookup_item t' k = Some it
    \<and> (\<forall>b p. lookup_item t b = Some p \<longrightarrow>
         (\<exists>q. lookup_item t' b = Some q \<and> ii_canonical q = ii_canonical p \<and> ii_role q = ii_role p
            \<and> (ii_confirmed p \<longrightarrow> ii_confirmed q) \<and> set (ii_aliases p) \<subseteq> set (ii_aliases q)
            \<and> (ii_canonical p \<noteq> k \<longrightarrow> q = p)))"
proof -
  have "\<exists>q. lookup_item t' b = Some q \<and> ii_canonical q = ii_canonical p \<and> ii_role q = ii_role p
            \<and> (ii_confirmed p \<longrightarrow> ii_confirmed q) \<and> set (ii_aliases p) \<subseteq> set (ii_aliases q)
            \<and> (ii_canonical p \<noteq> k \<longrightarrow> q = p)"
    if "lookup_item t b = Some p" for b p
    using register_item_le [OF assms that] unfolding item_le_def by metis
  then show ?thesis using register_keeps_wf [OF assms] register_stored [OF assms(2)] by blast
qed

text \<open>
  Beginning a session raises the generation of its identity table above its old value and at least
  to the requested minimum, keeps exactly the confirmed identities of the user, and changes no other
  session.
\<close>

lemma begin_session_generation:
  assumes "reach (\<lambda>rs. rs = []) recovery_step rs" and "begin_session rs ext minimum = Inr (g, rs')"
  shows "tb_generation (ls_table (the_session rs ext)) < g \<and> minimum \<le> g
    \<and> tb_generation (ls_table (the_session rs' ext)) = g
    \<and> (\<forall>k it. lookup_item (ls_table (the_session rs' ext)) k = Some it \<longleftrightarrow>
         lookup_item (ls_table (the_session rs ext)) k = Some it \<and> confirmed_user it)
    \<and> (\<forall>e. e \<noteq> ext \<longrightarrow> the_session rs' e = the_session rs e)"
proof -
  from begin_session_Inr [OF assms(2)] obtain s rs1 where
    s: "get_session rs ext = Inr (s, rs1)" "g = max (tb_generation (ls_table s) + 1) minimum"
      "rs' = put_session ext (s\<lparr>ls_table := begin_generation g (ls_table s)\<rparr>) rs1" by blast
  have e: "s = the_session rs ext" "\<forall>e. the_session rs1 e = the_session rs e"
    using the_session_get [OF s(1)] by simp_all
  have "table_wf (ls_table s)" using reach_inv [OF assms(1)] e by (simp add: session_inv_def)
  then show ?thesis
    using s e by (simp add: the_session_put lookup_begin_generation_Some) (simp add: begin_generation_def)
qed

text \<open>
  C15. Restoring a snapshot gives back every session with its generation, its confirmed user
  identities, its tool calls, its completed inputs and its messages, in the same order, for every
  state within the limits whose confirmed messages belong to confirmed items of the user.
\<close>

theorem snapshot_roundtrip:
  assumes "recoverable rs"
  shows "\<exists>rs'. from_snapshot (snapshot rs) = Inr rs'
           \<and> list_all2 (\<lambda>x y. fst x = fst y \<and> same_session (snd x) (snd y)) rs rs'"
proof -
  have "\<exists>rs'. fold_r restore_session [] (map (\<lambda>ks. (fst ks, session_dict (snd ks))) rs) = Inr ([] @ rs')
     \<and> list_all2 (\<lambda>x y. fst x = fst y \<and> same_session (snd x) (snd y)) rs rs'"
    by (rule restore_sessions) (use assms in \<open>auto simp: recoverable_def\<close>)
  then show ?thesis
    using assms
    by (simp add: from_snapshot_def snapshot_def key_set_is_def has_key_def dget_def recoverable_def not_less)
qed

theorem snapshot_roundtrip_witness:
  "\<exists>rs'. from_snapshot (snapshot [(u ''s'', new_session)]) = Inr rs' \<and> length rs' = 1"
proof -
  have "recoverable [(u ''s'', new_session)]"
    by (simp add: recoverable_def recoverable_session_def new_session_def MAX_SESSIONS_def
        identity_text_def blank_def py_space_def u_def table_wf_empty table_snapshot_def)
       (simp add: empty_table_def lookup_item_def)
  from snapshot_roundtrip [OF this] show ?thesis by (auto dest: list_all2_lengthD)
qed

definition system_message_state :: "ustr \<Rightarrow> ustr \<Rightarrow> ustr \<Rightarrow> ustr \<Rightarrow> recovery" where
  "system_message_state ext key digest item =
     (let rs1 = snd (claim_message [] ext key digest);
          s = the_session rs1 ext;
          t = snd (projr (register (ls_table s) item Role_system (u ''context_ack'') True [] None));
          rs2 = put_session ext (s\<lparr>ls_table := t\<rparr>) rs1
      in snd (confirm_message rs2 ext key item))"

text \<open>
  The round trip does not hold for every state the operations reach: once the session has had a
  message of role \<^verbatim>\<open>system\<close> confirmed under an idempotency key, its own snapshot cannot be restored,
  because the item of the message is registered with that role and a snapshot only holds the
  identities of the user.
\<close>

lemma confirmed_system_message_not_restored:
  "reach (\<lambda>rs. rs = []) recovery_step
     (system_message_state (u ''s'') (u ''k'') (replicate 64 48) (u ''item''))
   \<and> from_snapshot (snapshot (system_message_state (u ''s'') (u ''k'') (replicate 64 48) (u ''item'')))
     = Inl (ValueErr ''unregistered recovered message'')"
proof
  let ?rs1 = "snd (claim_message [] (u ''s'') (u ''k'') (replicate 64 48))"
  have r1: "reach (\<lambda>rs. rs = []) recovery_step ?rs1"
    by (rule recovery_reach_step [OF recovery_reach_start claim_is_step])
  let ?s = "the_session ?rs1 (u ''s'')"
  let ?r = "projr (register (ls_table ?s) (u ''item'') Role_system (u ''context_ack'') True [] None)"
  have get: "get_session ?rs1 (u ''s'') = Inr (?s, ?rs1)" by code_simp
  have reg: "register (ls_table ?s) (u ''item'') Role_system (u ''context_ack'') True [] None = Inr (fst ?r, snd ?r)"
    by code_simp
  let ?rs2 = "put_session (u ''s'') (?s\<lparr>ls_table := snd ?r\<rparr>) ?rs1"
  have r2: "reach (\<lambda>rs. rs = []) recovery_step ?rs2"
    by (rule recovery_reach_step [OF r1 step_register [OF get reg]])
  have "recovery_step ?rs2 (snd (confirm_message ?rs2 (u ''s'') (u ''k'') (u ''item'')))"
    by (rule step_confirm) (rule surjective_pairing)
  from recovery_reach_step [OF r2 this] show "reach (\<lambda>rs. rs = []) recovery_step
     (system_message_state (u ''s'') (u ''k'') (replicate 64 48) (u ''item''))"
    by (simp only: system_message_state_def Let_def)
  show "from_snapshot (snapshot (system_message_state (u ''s'') (u ''k'') (replicate 64 48) (u ''item'')))
     = Inl (ValueErr ''unregistered recovered message'')" by code_simp
qed

end
