(* ===== verification/Observability.thy ===== *)
theory Observability
  imports Contracts
begin

text \<open>
  \<^verbatim>\<open>realtime/observability.py\<close>: the diagnostic events, their validation, and the bounded recorder with
  its sink worker. The durations the source reads from the clock are an argument. The recorder's
  methods and the worker's loop body are atomic steps between the points where they hold the lock.
\<close>

section \<open>Diagnostic events\<close>

datatype diag_stage =
    DS_MINT_STARTED | DS_MINT_COMPLETED | DS_MINT_FAILED
  | DS_CONNECT_STARTED | DS_CONNECT_COMPLETED | DS_CONNECT_FAILED
  | DS_OPEN_STARTED | DS_OPEN_COMPLETED | DS_OPEN_FAILED
  | DS_SESSION_READY | DS_INPUT_AUDIO | DS_INPUT_AUDIO_SUMMARY | DS_OUTPUT_AUDIO
  | DS_OUTPUT_AUDIO_SUMMARY | DS_CONTROL_EVENT_DECODE_FAILED | DS_CONTROL_TERMINATED
  | DS_RECOVERY | DS_PROVIDER_EVENT_RECEIVED | DS_PROVIDER_EVENT_DECODE_FAILED
  | DS_PROVIDER_EVENT_APPLY_FAILED | DS_PROVIDER_SEND_FAILED | DS_PROVIDER_RECEIVE_FAILED
  | DS_SESSION_TERMINAL | DS_CONTROLLED_CLOSE_STARTED | DS_CONTROLLED_CLOSE_COMPLETED
  | DS_CONTROLLED_CLOSE_TIMEOUT | DS_LOCAL_CONNECTING | DS_LOCAL_ACTIVE | DS_LOCAL_CLOSING
  | DS_LOCAL_ERROR | DS_LOCAL_CLOSED | DS_LOCAL_TIMEOUT

record diag_event =
  dg_correlation :: ustr
  dg_stage :: diag_stage
  dg_stable_code :: "error_code option"
  dg_close_class :: "close_disposition option"
  dg_generation :: "int option"
  dg_operation_kind :: "ustr option"
  dg_fingerprint :: "ustr option"
  dg_frame_count :: int
  dg_byte_count :: int
  dg_duration_ms :: int
  dg_provider_event_type :: "ustr option"
  dg_failure :: "failure_context option"
  dg_item_id :: "ustr option"
  dg_declared_role :: "ustr option"

definition correlation_char :: "nat \<Rightarrow> bool" where
  \<comment> \<open>the class \<^verbatim>\<open>[0-9A-HJKMNP-TV-Z]\<close> of Crockford's base 32\<close>
  "correlation_char c \<longleftrightarrow> is_digit c \<or> is_upper c \<and> c \<notin> {73, 76, 79, 85}"

definition correlation_ok :: "ustr \<Rightarrow> bool" where
  "correlation_ok s \<longleftrightarrow>
     take 5 s = u ''corr_'' \<and> length s = 31 \<and> list_all correlation_char (drop 5 s)"

definition fingerprint_ok :: "ustr \<Rightarrow> bool" where
  "fingerprint_ok s \<longleftrightarrow> length s = 64 \<and> list_all is_hex s"

definition DECLARED_ROLES :: "ustr list" where
  "DECLARED_ROLES = map u [''user'', ''assistant'', ''system'', ''missing'', ''invalid'']"

definition diag_error :: "diag_event \<Rightarrow> string option" where
  \<comment> \<open>\<^verbatim>\<open>RealtimeDiagnosticEvent.__post_init__\<close>\<close>
  "diag_error d =
    (if \<not> correlation_ok (dg_correlation d) then Some ''invalid opaque correlation''
     else if \<not> opt_ok (\<lambda>g. 0 < g) (dg_generation d) then Some ''generation must be a positive integer''
     else if \<not> opt_ok stable_metadata (dg_operation_kind d)
     then Some ''operation_kind must be a bounded stable identifier''
     else if \<not> opt_ok fingerprint_ok (dg_fingerprint d) then Some ''fingerprint must be a sha256 digest''
     else if \<not> opt_ok stable_metadata (dg_provider_event_type d)
     then Some ''provider_event_type must be a bounded stable identifier''
     else if \<not> opt_ok (\<lambda>i. \<not> blank i \<and> length i \<le> 512) (dg_item_id d)
     then Some ''invalid diagnostic item identity''
     else if \<not> opt_ok (\<lambda>r. r \<in> set DECLARED_ROLES) (dg_declared_role d)
     then Some ''invalid declared role''
     else if dg_frame_count d < 0 \<or> dg_byte_count d < 0 \<or> dg_duration_ms d < 0
     then Some ''must be a non-negative integer''
     else None)"

definition diag :: "ustr \<Rightarrow> diag_stage \<Rightarrow> diag_event" where
  \<comment> \<open>the event with its defaults\<close>
  "diag corr st = \<lparr>dg_correlation = corr, dg_stage = st, dg_stable_code = None, dg_close_class = None,
     dg_generation = None, dg_operation_kind = None, dg_fingerprint = None, dg_frame_count = 0,
     dg_byte_count = 0, dg_duration_ms = 0, dg_provider_event_type = None, dg_failure = None,
     dg_item_id = None, dg_declared_role = None\<rparr>"

section \<open>The recorder\<close>

datatype worker = No_worker | Waiting | Busy diag_event | Stopped

record recorder =
  rc_events :: "diag_event list"
  rc_max_events :: nat
  rc_emitted :: nat
  rc_sink_drops :: nat
  rc_sink_failures :: nat
  rc_pending :: nat
  rc_queued :: nat
  rc_max_queued :: nat
  rc_closed :: bool
  rc_queue :: "diag_event option list" \<comment> \<open>\<open>None\<close> is the stop sentinel\<close>
  rc_worker :: worker
  rc_stop_enqueued :: bool

definition recorder_init :: "bool \<Rightarrow> int \<Rightarrow> int \<Rightarrow> recorder res" where
  "recorder_init has_sink max_events max_pending =
    (if max_events \<le> 0 then Inl (ValueErr ''max_events must be a positive integer'')
     else if max_pending \<le> 0 then Inl (ValueErr ''max_pending_events must be a positive integer'')
     else Inr \<lparr>rc_events = [], rc_max_events = nat max_events, rc_emitted = 0, rc_sink_drops = 0,
            rc_sink_failures = 0, rc_pending = 0, rc_queued = 0, rc_max_queued = nat max_pending,
            rc_closed = False, rc_queue = [], rc_worker = (if has_sink then Waiting else No_worker),
            rc_stop_enqueued = False\<rparr>)"

definition deque_append :: "nat \<Rightarrow> 'a list \<Rightarrow> 'a \<Rightarrow> 'a list" where
  \<comment> \<open>\<^verbatim>\<open>deque(maxlen=n).append\<close>: the oldest elements fall out\<close>
  "deque_append n xs x = (let ys = xs @ [x] in drop (length ys - n) ys)"

definition record_event :: "diag_event \<Rightarrow> recorder \<Rightarrow> recorder" where
  \<comment> \<open>the locked part of \<^verbatim>\<open>emit\<close>\<close>
  "record_event d r =
    (let r1 = r\<lparr>rc_events := deque_append (rc_max_events r) (rc_events r) d,
                rc_emitted := rc_emitted r + 1\<rparr>
     in if rc_worker r = No_worker then r1
        else if rc_closed r \<or> rc_max_queued r \<le> rc_queued r
        then r1\<lparr>rc_sink_drops := rc_sink_drops r + 1\<rparr>
        else r1\<lparr>rc_queue := rc_queue r @ [Some d], rc_queued := rc_queued r + 1,
                rc_pending := rc_pending r + 1\<rparr>)"

definition emit_diag :: "diag_event \<Rightarrow> recorder \<Rightarrow> recorder res" where
  "emit_diag d r = (case diag_error d of Some m \<Rightarrow> Inl (ValueErr m) | None \<Rightarrow> Inr (record_event d r))"

record diag_snapshot =
  sp_events :: "diag_event list"
  sp_emitted :: nat
  sp_dropped :: int
  sp_sink_drops :: nat
  sp_sink_failures :: nat
  sp_pending :: nat
  sp_workers :: nat

definition recorder_snapshot :: "recorder \<Rightarrow> diag_snapshot" where
  "recorder_snapshot r = \<lparr>sp_events = rc_events r, sp_emitted = rc_emitted r,
     sp_dropped = int (rc_emitted r) - int (length (rc_events r)), sp_sink_drops = rc_sink_drops r,
     sp_sink_failures = rc_sink_failures r, sp_pending = rc_pending r,
     sp_workers = (case rc_worker r of Waiting \<Rightarrow> 1 | Busy _ \<Rightarrow> 1 | _ \<Rightarrow> 0)\<rparr>"

definition close_recorder :: "recorder \<Rightarrow> recorder" where
  \<comment> \<open>\<^verbatim>\<open>close\<close> up to the point where it may wait: the sentinel is put once\<close>
  "close_recorder r =
    (let r1 = r\<lparr>rc_closed := True\<rparr>
     in if rc_worker r \<noteq> No_worker \<and> \<not> rc_stop_enqueued r
        then r1\<lparr>rc_stop_enqueued := True, rc_queue := rc_queue r @ [None]\<rparr>
        else r1)"

definition worker_take :: "recorder \<Rightarrow> recorder option" where
  \<comment> \<open>the worker's \<^verbatim>\<open>get\<close>, with the decrement that follows it\<close>
  "worker_take r =
    (case (rc_worker r, rc_queue r) of
       (Waiting, Some d # q) \<Rightarrow> Some (r\<lparr>rc_worker := Busy d, rc_queue := q, rc_queued := rc_queued r - 1\<rparr>)
     | (Waiting, None # q) \<Rightarrow> Some (r\<lparr>rc_worker := Stopped, rc_queue := q\<rparr>)
     | _ \<Rightarrow> None)"

definition worker_done :: "bool \<Rightarrow> recorder \<Rightarrow> recorder option" where
  \<comment> \<open>the sink returned or raised\<close>
  "worker_done ok r =
    (case rc_worker r of
       Busy _ \<Rightarrow> Some (r\<lparr>rc_worker := Waiting, rc_pending := rc_pending r - 1,
                        rc_sink_failures := rc_sink_failures r + (if ok then 0 else 1)\<rparr>)
     | _ \<Rightarrow> None)"

definition timeout_ok :: "pyval \<Rightarrow> bool" where
  \<comment> \<open>\<^verbatim>\<open>_non_negative_timeout\<close>\<close>
  "timeout_ok v =
    (case v of VInt i \<Rightarrow> 0 \<le> i | VFloat (Fin q) \<Rightarrow> 0 \<le> q | _ \<Rightarrow> False)"

section \<open>Steps and invariant\<close>

inductive recorder_step :: "recorder \<Rightarrow> recorder \<Rightarrow> bool" where
  step_emit: "emit_diag d r = Inr r' \<Longrightarrow> recorder_step r r'"
| step_close: "recorder_step r (close_recorder r)"
| step_take: "worker_take r = Some r' \<Longrightarrow> recorder_step r r'"
| step_done: "worker_done ok r = Some r' \<Longrightarrow> recorder_step r r'"

definition recorder_start :: "recorder \<Rightarrow> bool" where
  "recorder_start r \<longleftrightarrow> (\<exists>has_sink max_events max_pending. recorder_init has_sink max_events max_pending = Inr r)"

definition queued_events :: "diag_event option list \<Rightarrow> nat" where
  "queued_events q = length (filter (\<lambda>x. x \<noteq> None) q)"

definition stop_count :: "diag_event option list \<Rightarrow> nat" where
  "stop_count q = length (filter (\<lambda>x. x = None) q)"

lemma queue_length: "length q = queued_events q + stop_count q"
  unfolding queued_events_def stop_count_def by (induction q) auto

definition recorder_inv :: "recorder \<Rightarrow> bool" where
  "recorder_inv r \<longleftrightarrow>
     length (rc_events r) = min (rc_emitted r) (rc_max_events r) \<and> 0 < rc_max_events r
     \<and> rc_queued r = queued_events (rc_queue r) \<and> rc_queued r \<le> rc_max_queued r
     \<and> rc_pending r = rc_queued r + (case rc_worker r of Busy _ \<Rightarrow> 1 | _ \<Rightarrow> 0)
     \<and> stop_count (rc_queue r) \<le> (if rc_stop_enqueued r then 1 else 0)
     \<and> (rc_stop_enqueued r \<longrightarrow> rc_closed r)
     \<and> (rc_worker r = No_worker \<longrightarrow> rc_queue r = [])
     \<and> (rc_worker r = Stopped \<longrightarrow> rc_stop_enqueued r \<and> stop_count (rc_queue r) = 0)"

lemma deque_append_length: "length (deque_append n xs x) = min (length xs + 1) n"
  by (simp add: deque_append_def Let_def)

lemma queue_count_simps [simp]:
  "queued_events [] = 0" "stop_count [] = 0"
  "queued_events (Some d # q) = queued_events q + 1" "stop_count (Some d # q) = stop_count q"
  "queued_events (None # q) = queued_events q" "stop_count (None # q) = stop_count q + 1"
  "queued_events (q @ [Some d]) = queued_events q + 1" "stop_count (q @ [Some d]) = stop_count q"
  "queued_events (q @ [None]) = queued_events q" "stop_count (q @ [None]) = stop_count q + 1"
  by (simp_all add: queued_events_def stop_count_def)

lemma recorder_inv_record:
  assumes "recorder_inv r"
  shows "recorder_inv (record_event d r)"
proof (cases "rc_worker r = No_worker \<or> rc_closed r \<or> rc_max_queued r \<le> rc_queued r")
  case True
  then show ?thesis using assms
    by (simp add: record_event_def Let_def recorder_inv_def deque_append_length min_def) blast
next
  case False
  then show ?thesis using assms
    by (simp add: record_event_def Let_def recorder_inv_def deque_append_length min_def) fastforce
qed

lemma recorder_inv_emit: "recorder_inv r \<Longrightarrow> emit_diag d r = Inr r' \<Longrightarrow> recorder_inv r'"
  using recorder_inv_record by (auto simp: emit_diag_def split: option.splits)

lemma recorder_inv_close: "recorder_inv r \<Longrightarrow> recorder_inv (close_recorder r)"
  by (cases "rc_worker r"; cases "rc_stop_enqueued r")
     (simp_all add: close_recorder_def recorder_inv_def Let_def)

lemma recorder_inv_take: "recorder_inv r \<Longrightarrow> worker_take r = Some r' \<Longrightarrow> recorder_inv r'"
proof -
  assume inv: "recorder_inv r" and t: "worker_take r = Some r'"
  from t have w: "rc_worker r = Waiting" by (simp add: worker_take_def split: worker.splits)
  show "recorder_inv r'"
  proof (cases "rc_queue r")
    case Nil
    then show ?thesis using t w by (simp add: worker_take_def)
  next
    case (Cons x q)
    then show ?thesis using t w inv
      by (cases x; cases "rc_stop_enqueued r") (auto simp: worker_take_def recorder_inv_def)
  qed
qed

lemma recorder_inv_done: "recorder_inv r \<Longrightarrow> worker_done ok r = Some r' \<Longrightarrow> recorder_inv r'"
  by (cases "rc_worker r") (auto simp: worker_done_def recorder_inv_def)

interpretation recorder: invariant_system recorder_start recorder_step recorder_inv
proof
  show "recorder_inv r" if "recorder_start r" for r
    using that by (auto simp: recorder_start_def recorder_init_def recorder_inv_def queued_events_def
        stop_count_def split: if_splits)
  show "recorder_inv r'" if "recorder_inv r" "recorder_step r r'" for r r'
    using that(2,1)
    by cases (auto intro: recorder_inv_emit recorder_inv_close recorder_inv_take recorder_inv_done)
qed

section \<open>Properties\<close>

text \<open>
  C20. In every state the diagnostic recorder can reach it keeps exactly the latest events up to its
  bound, its dropped count is the number of events that fell out, its pending count is the number of
  events queued or in the hands of the sink, and the sink queue never holds more than its physical
  capacity of one more than the bound, so that the non-blocking puts cannot fail.
\<close>

theorem recorder_is_bounded:
  assumes "reach recorder_start recorder_step r"
  shows "length (sp_events (recorder_snapshot r)) \<le> rc_max_events r
    \<and> sp_dropped (recorder_snapshot r) = int (rc_emitted r - rc_max_events r)
    \<and> sp_pending (recorder_snapshot r)
        = queued_events (rc_queue r) + (case rc_worker r of Busy _ \<Rightarrow> 1 | _ \<Rightarrow> 0)
    \<and> length (rc_queue r) \<le> rc_max_queued r + 1"
proof -
  have inv: "recorder_inv r" by (rule recorder.inv_reach [OF assms])
  then have "length (rc_queue r) \<le> rc_max_queued r + 1"
    unfolding queue_length recorder_inv_def by (auto split: if_splits)
  with inv show ?thesis
    by (auto simp: recorder_inv_def recorder_snapshot_def min_def split: worker.splits)
qed

definition example_diag :: diag_event where
  "example_diag = diag (u ''corr_00000000000000000000000000'') DS_RECOVERY"

theorem recorder_is_bounded_witness:
  "\<exists>r. reach recorder_start recorder_step r \<and> rc_emitted r = 2 \<and> rc_max_events r = 1
     \<and> sp_dropped (recorder_snapshot r) = 1"
proof -
  let ?r0 = "projr (recorder_init True 1 1)"
  let ?r1 = "projr (emit_diag example_diag ?r0)" let ?r2 = "projr (emit_diag example_diag ?r1)"
  have "recorder_start ?r0" unfolding recorder_start_def by (intro exI [of _ True] exI [of _ 1]) code_simp
  moreover have "emit_diag example_diag ?r0 = Inr ?r1" "emit_diag example_diag ?r1 = Inr ?r2" by code_simp+
  ultimately have reach: "reach recorder_start recorder_step ?r2"
    by (blast intro: reach_start reach_step step_emit)
  have n: "rc_emitted ?r2 = 2" "rc_max_events ?r2 = 1" by code_simp+
  from recorder_is_bounded [OF reach] have "sp_dropped (recorder_snapshot ?r2) = 1"
    unfolding n by simp
  with reach n show ?thesis by blast
qed

end
