(* ===== verification/Shared_Validation.thy ===== *)
theory Shared_Validation
  imports Contracts
begin

text \<open>
  \<^verbatim>\<open>realtime/adapters/_shared.py\<close>: the validation helpers of the provider adapters, strict JSON
  objects, base64 PCM and the usage totals of a response. Base64 is Python's strict decoder: complete
  groups of four, padding only at the end.
\<close>

section \<open>Fields\<close>

definition require_string :: "pyval \<Rightarrow> ustr \<Rightarrow> ustr res" where
  "require_string v name =
    (case v of VStr s \<Rightarrow> if s \<noteq> [] then Inr s
                        else Inl (protocol_field_error ''is required'' name ''invalid_string'')
     | _ \<Rightarrow> Inl (protocol_field_error ''is required'' name ''invalid_string''))"

definition optional_identifier :: "pyval \<Rightarrow> ustr option" where
  "optional_identifier v =
    (case v of VStr s \<Rightarrow> if blank s then None else Some s | _ \<Rightarrow> None)"

definition require_identifier :: "pyval \<Rightarrow> ustr \<Rightarrow> ustr res" where
  "require_identifier v name =
    (case optional_identifier v of
       None \<Rightarrow> Inl (protocol_field_error ''is required'' name ''missing_identity'')
     | Some s \<Rightarrow> Inr s)"

definition require_nonnegative_integer :: "pyval \<Rightarrow> ustr \<Rightarrow> int res" where
  "require_nonnegative_integer v name =
    (case v of VInt i \<Rightarrow> if 0 \<le> i then Inr i
                        else Inl (protocol_field_error ''must be an integer'' name ''invalid_integer'')
     | _ \<Rightarrow> Inl (protocol_field_error ''must be an integer'' name ''invalid_integer''))"

definition require_object :: "pyval \<Rightarrow> ustr \<Rightarrow> dict res" where
  "require_object v name =
    (case v of VDict d \<Rightarrow> Inr d
     | _ \<Rightarrow> Inl (protocol_field_error ''must be an object'' name ''invalid_object''))"

lemma require_string_Inr: "require_string v n = Inr s \<longleftrightarrow> v = VStr s \<and> s \<noteq> []"
  by (auto simp: require_string_def split: pyval.splits)

lemma require_identifier_Inr: "require_identifier v n = Inr s \<longleftrightarrow> v = VStr s \<and> \<not> blank s"
  by (auto simp: require_identifier_def optional_identifier_def split: pyval.splits option.splits if_splits)

lemma require_nonnegative_integer_Inr:
  "require_nonnegative_integer v n = Inr i \<longleftrightarrow> v = VInt i \<and> 0 \<le> i"
  by (auto simp: require_nonnegative_integer_def split: pyval.splits)

lemma require_object_Inr: "require_object v n = Inr d \<longleftrightarrow> v = VDict d"
  by (auto simp: require_object_def split: pyval.splits)

lemmas require_simps = require_string_Inr require_identifier_Inr require_nonnegative_integer_Inr
  require_object_Inr

section \<open>Strict JSON objects\<close>

definition event_hooks :: json_hooks where
  "event_hooks = \<lparr>jh_duplicate = Some (protocol_error ''duplicate JSON key''),
     jh_constant = Some (ValueErr ''non-finite'')\<rparr>"

definition strict_json_object :: "json_env \<Rightarrow> ustr \<Rightarrow> dict res" where
  "strict_json_object env payload =
    (case loads env event_hooks payload of
       Inl e \<Rightarrow> Inl (if is_value_error e \<or> e = TypeErr then protocol_error ''invalid JSON'' else e)
     | Inr (VDict d) \<Rightarrow> Inr d
     | Inr _ \<Rightarrow> Inl (protocol_error ''event must be an object''))"

section \<open>Base64\<close>

definition b64_value :: "nat \<Rightarrow> nat option" where
  "b64_value c =
    (if is_upper c then Some (c - 65)
     else if is_lower c then Some (c - 71)
     else if is_digit c then Some (c + 4)
     else if c = 43 then Some 62
     else if c = 47 then Some 63 else None)"

definition b64_char :: "nat \<Rightarrow> nat" where
  "b64_char v =
    (if v < 26 then v + 65
     else if v < 52 then v + 71
     else if v < 62 then v - 4
     else if v = 62 then 43 else 47)"

fun b64_decode :: "ustr \<Rightarrow> bytes option" where
  \<comment> \<open>\<^verbatim>\<open>base64.b64decode(text, validate=True)\<close>, \<open>None\<close> where it raises\<close>
  "b64_decode [] = Some []"
| "b64_decode (a # b # c # d # r) =
    (if r = [] \<and> d = 61 \<and> c = 61 then
       (case (b64_value a, b64_value b) of
          (Some x, Some y) \<Rightarrow> Some [of_nat (4 * x + y div 16)]
        | _ \<Rightarrow> None)
     else if r = [] \<and> d = 61 then
       (case (b64_value a, b64_value b, b64_value c) of
          (Some x, Some y, Some z) \<Rightarrow>
            Some [of_nat (4 * x + y div 16), of_nat (16 * (y mod 16) + z div 4)]
        | _ \<Rightarrow> None)
     else
       (case (b64_value a, b64_value b, b64_value c, b64_value d, b64_decode r) of
          (Some x, Some y, Some z, Some w, Some bs) \<Rightarrow>
            Some (of_nat (4 * x + y div 16) # of_nat (16 * (y mod 16) + z div 4)
                  # of_nat (64 * (z mod 4) + w) # bs)
        | _ \<Rightarrow> None))"
| "b64_decode _ = None"

fun b64_encode :: "bytes \<Rightarrow> ustr" where
  \<comment> \<open>\<^verbatim>\<open>base64.b64encode(data).decode("ascii")\<close>\<close>
  "b64_encode [] = []"
| "b64_encode [p] = [b64_char (unat p div 4), b64_char (16 * (unat p mod 4)), 61, 61]"
| "b64_encode [p, q] =
    [b64_char (unat p div 4), b64_char (16 * (unat p mod 4) + unat q div 16),
     b64_char (4 * (unat q mod 16)), 61]"
| "b64_encode (p # q # r # s) =
    b64_char (unat p div 4) # b64_char (16 * (unat p mod 4) + unat q div 16)
    # b64_char (4 * (unat q mod 16) + unat r div 64) # b64_char (unat r mod 64) # b64_encode s"

lemma b64_value_char [simp]: "v < 64 \<Longrightarrow> b64_value (b64_char v) = Some v"
  by (auto simp: b64_value_def b64_char_def is_upper_def is_lower_def is_digit_def)

lemma b64_char_not_pad [simp]: "v < 64 \<Longrightarrow> b64_char v \<noteq> 61"
  by (auto simp: b64_char_def)

lemma byte_lt: "unat (p :: 8 word) < 256"
  using unsigned_less [of p, where ?'a = nat] by simp

lemma byte_parts [simp]:
  "unat (p :: 8 word) div 4 < 64" "16 * (unat p mod 4) < 64" "16 * (unat p mod 4) + unat (q :: 8 word) div 16 < 64"
  "4 * (unat q mod 16) < 64" "4 * (unat q mod 16) + unat (r :: 8 word) div 64 < 64" "unat r mod 64 < 64"
  using byte_lt [of p] byte_lt [of q] byte_lt [of r] by linarith+

lemma byte_join:
  "(of_nat (4 * (unat p div 4) + (16 * (unat p mod 4) + unat q div 16) div 16) :: 8 word) = p"
  "(of_nat (4 * (unat p div 4) + (16 * (unat p mod 4)) div 16) :: 8 word) = p"
  "(of_nat (16 * ((16 * (unat p mod 4) + unat q div 16) mod 16)
      + (4 * (unat q mod 16) + unat r div 64) div 4) :: 8 word) = q"
  "(of_nat (16 * ((16 * (unat p mod 4) + unat q div 16) mod 16) + (4 * (unat q mod 16)) div 4) :: 8 word) = q"
  "(of_nat (64 * ((4 * (unat q mod 16) + unat r div 64) mod 4) + unat r mod 64) :: 8 word) = r"
proof -
  have "unat q div 16 < 16" "unat r div 64 < 4"
    using byte_lt [of q] byte_lt [of r] by linarith+
  then have *: "4 * (unat p div 4) + (16 * (unat p mod 4) + unat q div 16) div 16 = unat p"
    "4 * (unat p div 4) + (16 * (unat p mod 4)) div 16 = unat p"
    "16 * ((16 * (unat p mod 4) + unat q div 16) mod 16) + (4 * (unat q mod 16) + unat r div 64) div 4 = unat q"
    "16 * ((16 * (unat p mod 4) + unat q div 16) mod 16) + (4 * (unat q mod 16)) div 4 = unat q"
    "64 * ((4 * (unat q mod 16) + unat r div 64) mod 4) + unat r mod 64 = unat r"
    by simp_all
  show "(of_nat (4 * (unat p div 4) + (16 * (unat p mod 4) + unat q div 16) div 16) :: 8 word) = p"
  "(of_nat (4 * (unat p div 4) + (16 * (unat p mod 4)) div 16) :: 8 word) = p"
  "(of_nat (16 * ((16 * (unat p mod 4) + unat q div 16) mod 16)
      + (4 * (unat q mod 16) + unat r div 64) div 4) :: 8 word) = q"
  "(of_nat (16 * ((16 * (unat p mod 4) + unat q div 16) mod 16) + (4 * (unat q mod 16)) div 4) :: 8 word) = q"
  "(of_nat (64 * ((4 * (unat q mod 16) + unat r div 64) mod 4) + unat r mod 64) :: 8 word) = r"
    unfolding * by simp_all
qed

lemma b64_decode_group:
  "x < 64 \<Longrightarrow> y < 64 \<Longrightarrow> z < 64 \<Longrightarrow> w < 64 \<Longrightarrow> b64_decode r = Some bs \<Longrightarrow>
   b64_decode (b64_char x # b64_char y # b64_char z # b64_char w # r) =
     Some (of_nat (4 * x + y div 16) # of_nat (16 * (y mod 16) + z div 4) # of_nat (64 * (z mod 4) + w) # bs)"
  by simp

lemma b64_decode_tail:
  "x < 64 \<Longrightarrow> y < 64 \<Longrightarrow> b64_decode [b64_char x, b64_char y, 61, 61] = Some [of_nat (4 * x + y div 16)]"
  "x < 64 \<Longrightarrow> y < 64 \<Longrightarrow> z < 64 \<Longrightarrow> b64_decode [b64_char x, b64_char y, b64_char z, 61] =
     Some [of_nat (4 * x + y div 16), of_nat (16 * (y mod 16) + z div 4)]"
  by simp_all

lemma b64_roundtrip: "b64_decode (b64_encode bs) = Some bs"
proof (induction bs rule: b64_encode.induct)
  case (4 p q r s)
  then show ?case by (simp only: b64_encode.simps b64_decode_group byte_parts byte_join)
qed (simp_all only: b64_encode.simps b64_decode_tail byte_parts byte_join b64_decode.simps(1))

lemma b64_encode_not_empty: "bs \<noteq> [] \<Longrightarrow> b64_encode bs \<noteq> []"
  by (cases bs rule: b64_encode.cases) auto

definition decode_base64_pcm :: "pyval \<Rightarrow> nat \<Rightarrow> bytes res" where
  "decode_base64_pcm v limit =
    (case v of
       VStr s \<Rightarrow>
         if s = [] then Inl (protocol_error ''audio must be base64'')
         else (case b64_decode s of
                 None \<Rightarrow> Inl (protocol_error ''invalid base64 audio'')
               | Some bs \<Rightarrow>
                   if length bs = 0 \<or> length bs mod 2 \<noteq> 0
                   then Inl (protocol_error ''PCM must contain whole samples'')
                   else if limit < length bs then Inl (protocol_error ''PCM event is too large'')
                   else Inr bs)
     | _ \<Rightarrow> Inl (protocol_error ''audio must be base64''))"

lemma decode_base64_pcm_Inr:
  "decode_base64_pcm v limit = Inr bs \<Longrightarrow> bs \<noteq> [] \<and> even (length bs) \<and> length bs \<le> limit"
  by (auto simp: decode_base64_pcm_def even_iff_mod_2_eq_zero split: pyval.splits if_splits option.splits)

section \<open>Usage\<close>

definition parse_terminal_usage :: "dict \<Rightarrow> string \<Rightarrow> string \<Rightarrow> response_usage option res" where
  "parse_terminal_usage response in_details out_details =
    (if dget response (u ''usage'') = VNone then Inr None
     else
       andthen (require_object (dget response (u ''usage'')) (u ''usage'')) (\<lambda>usage.
       andthen (require_object (dget usage (u in_details)) (u in_details)) (\<lambda>ins.
       andthen (require_object (dget usage (u out_details)) (u out_details)) (\<lambda>outs.
       andthen (require_nonnegative_integer (dget usage (u ''input_tokens'')) (u ''input_tokens'')) (\<lambda>i.
       andthen (require_nonnegative_integer (dget usage (u ''output_tokens'')) (u ''output_tokens'')) (\<lambda>out.
       andthen (require_nonnegative_integer (dget usage (u ''total_tokens'')) (u ''total_tokens'')) (\<lambda>total.
       andthen (require_nonnegative_integer (dget ins (u ''text_tokens'')) (u ''input text tokens'')) (\<lambda>it.
       andthen (require_nonnegative_integer (dget ins (u ''audio_tokens'')) (u ''input audio tokens'')) (\<lambda>ia.
       andthen (require_nonnegative_integer (dget outs (u ''text_tokens'')) (u ''output text tokens'')) (\<lambda>ot.
       andthen (require_nonnegative_integer (dget outs (u ''audio_tokens'')) (u ''output audio tokens'')) (\<lambda>oa.
         if it + ia \<noteq> i then Inl (protocol_error ''input usage total mismatch'')
         else if ot + oa \<noteq> out then Inl (protocol_error ''output usage total mismatch'')
         else if i + out \<noteq> total then Inl (protocol_error ''usage total mismatch'')
         else Inr (Some \<lparr>ru_input_text_tokens = it, ru_input_audio_tokens = ia,
                        ru_output_text_tokens = ot, ru_output_audio_tokens = oa\<rparr>))))))))))))"

lemma parse_terminal_usage_Inr:
  assumes "parse_terminal_usage response in_details out_details = Inr (Some x)"
  shows "usage_error x = None
    \<and> (\<exists>usage. dget response (u ''usage'') = VDict usage
        \<and> dget usage (u ''total_tokens'') =
            VInt (ru_input_text_tokens x + ru_input_audio_tokens x + ru_output_text_tokens x
                  + ru_output_audio_tokens x))"
  using assms
  by (auto simp: parse_terminal_usage_def andthen_Inr_iff require_simps usage_error_def split: if_splits)

section \<open>Properties\<close>

text \<open>
  Audio the SDK encodes is the audio the adapters decode: for PCM of whole samples within the
  limit, decoding the base64 text of the bytes gives the bytes back; and whatever the decoder accepts
  is not empty, has whole samples and is within the limit.
\<close>

lemma base64_pcm_roundtrip:
  assumes "pcm \<noteq> []" and "even (length pcm)" and "length pcm \<le> limit"
  shows "decode_base64_pcm (VStr (b64_encode pcm)) limit = Inr pcm
         \<and> (\<forall>v bs. decode_base64_pcm v limit = Inr bs \<longrightarrow>
              bs \<noteq> [] \<and> even (length bs) \<and> length bs \<le> limit)"
  using assms decode_base64_pcm_Inr b64_encode_not_empty [OF assms(1)]
  by (auto simp: decode_base64_pcm_def b64_roundtrip even_iff_mod_2_eq_zero)

text \<open>
  A usage record that is accepted has no negative count, and its four counts add up to the total
  the provider reported.
\<close>

lemma usage_totals_agree:
  assumes "parse_terminal_usage response in_details out_details = Inr (Some x)"
  shows "usage_error x = None
    \<and> (\<exists>usage. dget response (u ''usage'') = VDict usage
        \<and> dget usage (u ''total_tokens'') =
            VInt (ru_input_text_tokens x + ru_input_audio_tokens x + ru_output_text_tokens x
                  + ru_output_audio_tokens x))"
  by (rule parse_terminal_usage_Inr [OF assms])

definition example_usage :: dict where
  "example_usage = [(u ''usage'', VDict
     [(u ''input_tokens'', VInt 3), (u ''output_tokens'', VInt 4), (u ''total_tokens'', VInt 7),
      (u ''in'', VDict [(u ''text_tokens'', VInt 1), (u ''audio_tokens'', VInt 2)]),
      (u ''out'', VDict [(u ''text_tokens'', VInt 4), (u ''audio_tokens'', VInt 0)])])]"

end
