(* ===== verification/Session.thy ===== *)
theory Session
  imports Recovery Observability Shared_Validation
begin

text \<open>
  \<^verbatim>\<open>realtime/session.py\<close>: the state of \<^verbatim>\<open>ManagedRealtimeSession\<close> and its operations. Every definition is
  the code between two points where the coroutine may be suspended, as a function on the state; what
  the awaited call returned is an argument. The locks of the source are never held across such a
  point, except the one of the shutdown, whose flag makes it run once. Clock readings are not
  modelled: every duration is 0. The provider adapter and the control codec are ports: an incoming
  frame carries what they decoded it to, an outgoing event is the object they built.
\<close>

section \<open>Frames and their content-free metadata\<close>

fun contains :: "ustr \<Rightarrow> ustr \<Rightarrow> bool" where
  "contains [] p = (p = [])"
| "contains (c # s) p = (starts_with (c # s) p \<or> contains s p)"

definition SECRET_MARKERS :: "ustr list" where
  "SECRET_MARKERS = map u [''sk-'', ''apikey'', ''api_key'', ''api-key'', ''authorization'', ''bearer'',
     ''cookie'', ''password'', ''token'']"

definition secret_marker :: "ustr \<Rightarrow> bool" where
  \<comment> \<open>\<^verbatim>\<open>_SECRET_MARKER.search\<close> on a text that has no capital letter\<close>
  "secret_marker s = list_ex (contains s) SECRET_MARKERS"

definition SAFE_CONTROL_KINDS :: "ustr list" where
  "SAFE_CONTROL_KINDS = map u
     [''tokenseller.error'', ''tokenseller.session.closed'', ''tokenseller.session.expiring'',
      ''tokenseller.session.open'', ''tokenseller.session.close'', ''tokenseller.session.created'']"

definition unknown_kind :: ustr where "unknown_kind = u ''unknown_provider_event''"
definition invalid_kind :: ustr where "invalid_kind = u ''invalid_provider_event''"

definition safe_event_fields :: "pyval \<Rightarrow> ustr \<times> ustr list" where
  \<comment> \<open>\<^verbatim>\<open>_safe_event_fields\<close> of a decoded object\<close>
  "safe_event_fields v =
    (case v of
       VDict d \<Rightarrow>
         ((case dget d (u ''type'') of
             VStr kind \<Rightarrow>
               if stable_metadata kind \<and> (\<not> secret_marker kind \<or> kind \<in> set SAFE_CONTROL_KINDS)
               then kind else unknown_kind
           | _ \<Rightarrow> unknown_kind),
          sort (filter (\<lambda>k. k \<in> set SAFE_FAILURE_FIELDS) (map fst d)))
     | _ \<Rightarrow> (invalid_kind, []))"

definition read_payload :: "json_env \<Rightarrow> ustr \<Rightarrow> pyval option res" where
  \<comment> \<open>\<^verbatim>\<open>json.loads(payload)\<close> where ValueError and TypeError are caught\<close>
  "read_payload env payload =
    (case loads env default_hooks payload of
       Inr v \<Rightarrow> Inr (Some v)
     | Inl e \<Rightarrow> if is_value_error e \<or> e = TypeErr then Inr None else Inl e)"

definition payload_fields :: "json_env \<Rightarrow> ustr \<Rightarrow> (ustr \<times> ustr list) res" where
  \<comment> \<open>\<^verbatim>\<open>_safe_event_fields\<close> of a text\<close>
  "payload_fields env payload =
    andthen (read_payload env payload) (\<lambda>v.
      Inr (case v of None \<Rightarrow> (invalid_kind, []) | Some w \<Rightarrow> safe_event_fields w))"

fun json_shape :: "pyval \<Rightarrow> pyval"
  and json_shapes :: "nat \<Rightarrow> pyval list \<Rightarrow> pyval list"
  and json_shape_items :: "(ustr \<times> pyval) list \<Rightarrow> (ustr \<times> pyval) list" where
  "json_shape (VDict d) = VDict (json_shape_items d)"
| "json_shape (VList xs) = VList (VInt (int (length xs)) # json_shapes 4 xs)"
| "json_shape VNone = vs ''null''"
| "json_shape (VBool _) = vs ''bool''"
| "json_shape (VStr s) = (if s = [] then vs ''string-empty'' else vs ''string'')"
| "json_shape (VInt _) = vs ''integer''"
| "json_shape (VFloat _) = vs ''number''"
| "json_shape (VTuple _) = vs ''unknown''"
| "json_shapes n [] = []"
| "json_shapes n (x # xs) = (if n = 0 then [] else json_shape x # json_shapes (n - 1) xs)"
| "json_shape_items [] = []"
| "json_shape_items (kv # d) = (fst kv, json_shape (snd kv)) # json_shape_items d"

definition sorted_style :: json_style where
  \<comment> \<open>\<^verbatim>\<open>sort_keys=True, separators=(",", ":")\<close>\<close>
  "sorted_style = \<lparr>js_ascii = True, js_nan = True, js_sort = True,
     js_item_sep = u '','', js_key_sep = u '':''\<rparr>"

definition relay_kind :: "ustr \<Rightarrow> ustr" where
  "relay_kind s = (if starts_with s (u ''tokenseller.'') then u ''relay.'' @ drop 12 s else s)"

definition diagnostic_kind :: "pyval \<Rightarrow> ustr" where
  "diagnostic_kind v =
    (case v of
       VDict d \<Rightarrow>
         (case dget d (u ''type'') of
            VStr k \<Rightarrow> let kind = relay_kind k
                      in if stable_metadata kind \<and> \<not> secret_marker kind then kind else unknown_kind
          | _ \<Rightarrow> unknown_kind)
     | _ \<Rightarrow> unknown_kind)"

definition payload_metadata :: "json_env \<Rightarrow> (ustr \<Rightarrow> ustr) \<Rightarrow> ustr \<Rightarrow> (ustr \<times> ustr) res" where
  \<comment> \<open>\<^verbatim>\<open>_provider_event_metadata\<close>; \<open>sha\<close> is the hexadecimal SHA-256 digest\<close>
  "payload_metadata env sha payload =
    andthen (read_payload env payload) (\<lambda>v.
      (case v of
         None \<Rightarrow> Inr (invalid_kind, sha (u ''invalid-json''))
       | Some w \<Rightarrow>
           Inr (diagnostic_kind w,
             (case andthen (dumps env sorted_style (json_shape w)) encode_utf8 of
                Inr text \<Rightarrow> sha text
              | Inl _ \<Rightarrow> sha (u ''shape-unavailable'')))))"

record error_attributes =
  \<comment> \<open>the attributes a transport error may carry\<close>
  ea_diagnostic_kind :: pyval
  ea_close_code :: pyval
  ea_transport_code :: pyval

definition transport_failure_kind :: "error_attributes \<Rightarrow> ustr" where
  "transport_failure_kind e =
    (case (ea_diagnostic_kind e, ea_close_code e, ea_transport_code e) of
       (dk, cc, tc) \<Rightarrow>
         if (case dk of VStr k \<Rightarrow> stable_metadata k | _ \<Rightarrow> False)
         then (case dk of VStr k \<Rightarrow> k | _ \<Rightarrow> [])
         else if (case cc of VInt c \<Rightarrow> 1000 \<le> c \<and> c \<le> 4999 | _ \<Rightarrow> False)
         then u ''transport.close.'' @ (case cc of VInt c \<Rightarrow> nat_text (nat c) | _ \<Rightarrow> [])
         else if (case tc of VStr t \<Rightarrow> stable_metadata (u ''transport.'' @ t) | _ \<Rightarrow> False)
         then u ''transport.'' @ (case tc of VStr t \<Rightarrow> t | _ \<Rightarrow> [])
         else u ''transport.failure'')"

section \<open>The size of an event\<close>

fun opt_val :: "('a \<Rightarrow> pyval) \<Rightarrow> 'a option \<Rightarrow> pyval" where
  "opt_val f None = VNone"
| "opt_val f (Some x) = f x"

definition audio_dict :: "audio_format \<Rightarrow> pyval" where
  "audio_dict a = VDict [(u ''codec'', VStr (af_codec a)), (u ''sample_rate'', VInt (af_sample_rate a)),
     (u ''channels'', VInt (af_channels a))]"

definition usage_dict :: "response_usage \<Rightarrow> pyval" where
  "usage_dict x = VDict
     [(u ''input_text_tokens'', VInt (ru_input_text_tokens x)),
      (u ''input_audio_tokens'', VInt (ru_input_audio_tokens x)),
      (u ''output_text_tokens'', VInt (ru_output_text_tokens x)),
      (u ''output_audio_tokens'', VInt (ru_output_audio_tokens x))]"

definition failure_dict :: "failure_context \<Rightarrow> pyval" where
  "failure_dict f = VDict
     [(u ''stage'', VStr (fc_stage f)), (u ''event_type'', VStr (fc_event_type f)),
      (u ''generation'', VInt (fc_generation f)),
      (u ''field_names'', VTuple (map VStr (fc_field_names f))),
      (u ''validation_field'', opt_val VStr (fc_validation_field f)),
      (u ''validation_reason'', opt_val VStr (fc_validation_reason f)),
      (u ''related_event_id'', opt_val VStr (fc_related_event_id f)),
      (u ''client_event_type'', opt_val VStr (fc_client_event_type f)),
      (u ''control_code'', opt_val (\<lambda>c. VStr (code_value c)) (fc_control_code f)),
      (u ''message_class'', opt_val VStr (fc_message_class f)),
      (u ''retryable'', opt_val VBool (fc_retryable f)), (u ''fatal'', opt_val VBool (fc_fatal f)),
      (u ''retry_after_ms'', opt_val VInt (fc_retry_after_ms f))]"

definition output_place :: "ustr \<Rightarrow> ustr \<Rightarrow> int \<Rightarrow> int \<Rightarrow> dict" where
  "output_place r i oi ci = [(u ''response_id'', VStr r), (u ''item_id'', VStr i),
     (u ''output_index'', VInt oi), (u ''content_index'', VInt ci)]"

definition kind_item :: "string \<Rightarrow> ustr \<times> pyval" where
  "kind_item s = (u ''kind'', vs s)"

fun event_dict :: "rt_event \<Rightarrow> dict" where
  \<comment> \<open>\<^verbatim>\<open>dataclasses.asdict(event)\<close>\<close>
  "event_dict (SessionReady g c i out t) =
     [(u ''generation'', VInt g), (u ''correlation'', VStr c), (u ''input_audio'', audio_dict i),
      (u ''output_audio'', audio_dict out), (u ''tools_acknowledged'', VBool t), kind_item ''SessionReady'']"
| "event_dict (SpeechStarted t) = [(u ''turn_id'', VStr t), kind_item ''SpeechStarted'']"
| "event_dict (SpeechStopped t) = [(u ''turn_id'', VStr t), kind_item ''SpeechStopped'']"
| "event_dict (TranscriptDelta t x) =
     [(u ''turn_id'', VStr t), (u ''text'', VStr x), kind_item ''TranscriptDelta'']"
| "event_dict (TranscriptCompleted t x) =
     [(u ''turn_id'', VStr t), (u ''text'', VStr x), kind_item ''TranscriptCompleted'']"
| "event_dict (ResponseStarted t r) =
     [(u ''turn_id'', VStr t), (u ''response_id'', VStr r), kind_item ''ResponseStarted'']"
| "event_dict (OutputText r i oi ci x b) =
     output_place r i oi ci @ [(u ''text'', VStr x), (u ''is_delta'', VBool b), kind_item ''OutputText'']"
| "event_dict (OutputAudioStarted r i oi ci) = output_place r i oi ci @ [kind_item ''OutputAudioStarted'']"
| "event_dict (OutputAudio r i oi ci data) = output_place r i oi ci @ [kind_item ''OutputAudio'']"
| "event_dict (OutputAudioCompleted r i oi ci) =
     output_place r i oi ci @ [kind_item ''OutputAudioCompleted'']"
| "event_dict (ToolCallRequested r c n a g) =
     [(u ''response_id'', VStr r), (u ''call_id'', VStr c), (u ''name'', VStr n),
      (u ''arguments_json'', VStr a), (u ''generation'', VInt g), kind_item ''ToolCallRequested'']"
| "event_dict (ResponseFinished r st us loc) =
     [(u ''response_id'', VStr r), (u ''status'', vs (status_name st)), (u ''usage'', opt_val usage_dict us),
      (u ''local'', VBool loc), kind_item ''ResponseFinished'']"
| "event_dict (SessionExpiring n) = [(u ''remaining_ms'', VInt n), kind_item ''SessionExpiring'']"
| "event_dict (SessionClosed c) =
     [(u ''reason'', VStr (sc_reason c)), (u ''initiator'', vs (initiator_name (sc_initiator c))),
      (u ''disposition'', vs (disposition_name (sc_disposition c))),
      (u ''active_response'', VStr (sc_active_response c)), (u ''settlement'', VStr (sc_settlement c)),
      (u ''related_event_id'', opt_val VStr (sc_related_event_id c)), kind_item ''SessionClosed'',
      (u ''control_code'', opt_val (\<lambda>x. VStr (code_value x)) (sc_control_code c)),
      (u ''message_class'', opt_val VStr (sc_message_class c)),
      (u ''client_event_type'', opt_val VStr (sc_client_event_type c)),
      (u ''failure'', opt_val failure_dict (sc_failure c))]"
| "event_dict (SessionFailed f) =
     [(u ''code'', VStr (code_value (sf_code f))), (u ''retryable'', VBool (sf_retryable f)),
      kind_item ''SessionFailed'',
      (u ''control_code'', opt_val (\<lambda>x. VStr (code_value x)) (sf_control_code f)),
      (u ''message_class'', opt_val VStr (sf_message_class f)),
      (u ''related_event_id'', opt_val VStr (sf_related_event_id f)),
      (u ''client_event_type'', opt_val VStr (sf_client_event_type f)),
      (u ''fatal'', opt_val VBool (sf_fatal f)), (u ''retry_after_ms'', opt_val VInt (sf_retry_after_ms f)),
      (u ''failure'', opt_val failure_dict (sf_failure f))]"

definition event_style :: json_style where
  "event_style = \<lparr>js_ascii = False, js_nan = True, js_sort = False,
     js_item_sep = u '','', js_key_sep = u '':''\<rparr>"

definition event_size :: "json_env \<Rightarrow> rt_event \<Rightarrow> int" where
  "event_size env e =
    (case e of
       OutputAudio r i oi ci data \<Rightarrow> int (length data)
     | _ \<Rightarrow>
         (case andthen (dumps env event_style (VDict (event_dict e))) encode_utf8 of
            Inr text \<Rightarrow> int (utf8_len text)
          | Inl _ \<Rightarrow> 256))"

lemma event_size_nonneg: "0 \<le> event_size env e"
  by (auto simp: event_size_def split: rt_event.splits sum.splits)

section \<open>State\<close>

record session_config =
  cf_env :: json_env
  cf_sha :: "ustr \<Rightarrow> ustr"
  cf_request :: open_request
  cf_capability :: rt_capability
  cf_generation :: int
  cf_correlation :: ustr
  cf_dispatcher :: bool \<comment> \<open>a tool dispatcher was given\<close>

datatype attempt = No_attempt | Live_attempt | Done_attempt

record tool_record =
  tr_state :: tool_state
  tr_output :: "ustr option"
  tr_ack :: bool \<comment> \<open>the acknowledgement event is set\<close>
  tr_result_payload :: "dict option"
  tr_followup_payload :: "dict option"
  tr_attempt :: attempt

definition requested_tool :: tool_record where
  "requested_tool = \<lparr>tr_state = TS_REQUESTED, tr_output = None, tr_ack = False,
     tr_result_payload = None, tr_followup_payload = None, tr_attempt = No_attempt\<rparr>"

datatype pending = P_waiting | P_done | P_error exn

datatype close_ack = Ack_none | Ack_waiting | Ack_received session_closed | Ack_cancelled

record session_ports =
  sn_cfg :: session_config
  sn_recovery :: recovery
  sn_current :: bool \<comment> \<open>what the caller's \<^verbatim>\<open>is_current_generation\<close> returns\<close>
  sn_diag :: "diag_event list"

record session_queues = session_ports +
  sn_events :: "rt_event list"
  sn_queued_frames :: int
  sn_queued_bytes :: int
  sn_input_pending_frames :: int
  sn_input_pending_bytes :: int
  sn_input_frames :: int
  sn_input_bytes :: int
  sn_output_frames :: int
  sn_output_bytes :: int

record session_life = session_queues +
  sn_owner :: "(close_initiator \<times> close_disposition) option"
  sn_sequence_started :: bool
  sn_published :: bool
  sn_shutdown :: bool
  sn_closing :: bool
  sn_ready :: bool
  sn_close_reason :: "ustr option" \<comment> \<open>set when the closing task exists\<close>
  sn_close_ack :: close_ack
  sn_pending_close_id :: "ustr option"
  sn_terminal_code :: "error_code option"
  sn_failure :: "failure_context option"
  sn_last_type :: ustr
  sn_last_fields :: "ustr list"

record session_responses = session_life +
  sn_seen_events :: "ustr set"
  sn_responses :: "ustr set"
  sn_response_order :: "ustr list"
  sn_terminal_responses :: "ustr set"
  sn_cancelled :: "ustr set"
  sn_items :: "(ustr \<times> ustr) set"
  sn_call_items :: "(ustr \<times> ustr \<times> int) set"
  sn_completed_items :: "(ustr \<times> ustr) set"
  sn_contents :: "(ustr \<times> ustr \<times> int \<times> int) set"
  sn_completed_contents :: "(ustr \<times> ustr \<times> int \<times> int) set"

record session = session_responses +
  sn_tools :: "(ustr \<times> tool_record) list"
  sn_followups :: "ustr list"
  sn_tool_tasks :: "(ustr \<times> bool) list" \<comment> \<open>call of a dispatch task, and whether it was cancelled\<close>
  sn_context_pending :: "(ustr \<times> pending) list"
  sn_context_ack :: "ustr option"
  sn_late :: nat
  sn_duplicates :: nat
  sn_ack_timeouts :: nat
  sn_ack_mismatches :: nat
  sn_diagnostic_kinds :: "ustr set"
  sn_sent_types :: "(ustr \<times> ustr) list"
  sn_first_transcript :: bool

end
