(* ===== verification/Session_Ops.thy ===== *)
theory Session_Ops
  imports Session
begin

text \<open>
  The operations of \<^verbatim>\<open>ManagedRealtimeSession\<close>: output queue, failure context and diagnostics, terminal
  ownership, the application of decoded provider events, the receive loop, and the product's calls.
\<close>

section \<open>Construction\<close>

definition session_table :: "session \<Rightarrow> id_table" where
  "session_table s = ls_table (the_session (sn_recovery s) (or_external_session_id (cf_request (sn_cfg s))))"

definition logical :: "session \<Rightarrow> logical_session" where
  "logical s = the_session (sn_recovery s) (or_external_session_id (cf_request (sn_cfg s)))"

definition put_logical :: "logical_session \<Rightarrow> session \<Rightarrow> session" where
  "put_logical l s =
    s\<lparr>sn_recovery := put_session (or_external_session_id (cf_request (sn_cfg s))) l (sn_recovery s)\<rparr>"

definition limits_of :: "session \<Rightarrow> rt_limits" where
  "limits_of s = ca_limits (cf_capability (sn_cfg s))"

definition is_current :: "session \<Rightarrow> bool" where
  \<comment> \<open>\<^verbatim>\<open>self._is_current_generation()\<close>\<close>
  "is_current s \<longleftrightarrow> sn_current s \<and> tb_generation (session_table s) = cf_generation (sn_cfg s)"

definition session_init ::
    "json_env \<Rightarrow> (ustr \<Rightarrow> ustr) \<Rightarrow> open_request \<Rightarrow> rt_capability \<Rightarrow> int \<Rightarrow> ustr \<Rightarrow> bool
     \<Rightarrow> ustr set \<Rightarrow> (ustr \<times> ustr) list \<Rightarrow> recovery \<Rightarrow> session res" where
  \<comment> \<open>\<^verbatim>\<open>__init__\<close>, the timeouts positive; \<open>seen\<close> and \<open>sent\<close> are \<^verbatim>\<open>seen_tool_calls\<close> and \<^verbatim>\<open>client_events\<close>\<close>
  "session_init env sha req cap generation corr dispatcher seen sent rs =
    andthen (begin_session rs (or_external_session_id req) generation) (\<lambda>(g, rs').
      let ext = or_external_session_id req;
          l = the_session rs' ext;
          rs2 = put_session ext (l\<lparr>ls_tool_calls := ls_tool_calls l \<union> seen\<rparr>) rs'
      in Inr \<lparr>sn_cfg = \<lparr>cf_env = env, cf_sha = sha, cf_request = req, cf_capability = cap,
                       cf_generation = g, cf_correlation = corr, cf_dispatcher = dispatcher\<rparr>,
              sn_recovery = rs2, sn_current = True, sn_diag = [],
              sn_events = [], sn_queued_frames = 0, sn_queued_bytes = 0,
              sn_input_pending_frames = 0, sn_input_pending_bytes = 0, sn_input_frames = 0,
              sn_input_bytes = 0, sn_output_frames = 0, sn_output_bytes = 0,
              sn_owner = None, sn_sequence_started = False, sn_published = False,
              sn_shutdown = False, sn_closing = False, sn_ready = False, sn_close_reason = None,
              sn_close_ack = Ack_none, sn_pending_close_id = None, sn_terminal_code = None,
              sn_failure = None, sn_last_type = u ''session.start'', sn_last_fields = [],
              sn_seen_events = {}, sn_responses = {}, sn_response_order = [],
              sn_terminal_responses = {}, sn_cancelled = {}, sn_items = {}, sn_call_items = {},
              sn_completed_items = {}, sn_contents = {}, sn_completed_contents = {},
              sn_tools = [], sn_followups = [], sn_tool_tasks = [], sn_context_pending = [],
              sn_context_ack = None, sn_late = 0, sn_duplicates = 0, sn_ack_timeouts = 0,
              sn_ack_mismatches = 0, sn_diagnostic_kinds = {}, sn_sent_types = sent,
              sn_first_transcript = False\<rparr>)"

section \<open>Diagnostics and failure context\<close>

definition log_diag :: "diag_event \<Rightarrow> session \<Rightarrow> session" where
  "log_diag d s = s\<lparr>sn_diag := sn_diag s @ [d]\<rparr>"

definition session_diag :: "session \<Rightarrow> diag_stage \<Rightarrow> diag_event" where
  \<comment> \<open>the correlation and generation every diagnostic of the session carries\<close>
  "session_diag s st =
    (diag (cf_correlation (sn_cfg s)) st)\<lparr>dg_generation := Some (cf_generation (sn_cfg s))\<rparr>"

definition record_provider ::
    "diag_stage \<Rightarrow> ustr \<Rightarrow> ustr option \<Rightarrow> error_code option \<Rightarrow> ustr option \<Rightarrow> session \<Rightarrow> session" where
  "record_provider st kind fingerprint code ptype s =
    log_diag ((session_diag s st)\<lparr>dg_stable_code := code, dg_operation_kind := Some kind,
      dg_fingerprint := fingerprint, dg_provider_event_type := ptype, dg_failure := sn_failure s\<rparr>) s"

definition record_recovery :: "string \<Rightarrow> session \<Rightarrow> session" where
  "record_recovery kind s = log_diag ((session_diag s DS_RECOVERY)\<lparr>dg_operation_kind := Some (u kind)\<rparr>) s"

record capture_args =
  \<comment> \<open>the keyword arguments of \<^verbatim>\<open>_capture_failure\<close>\<close>
  cp_event :: "dict option"
  cp_error :: "exn option"
  cp_related :: "ustr option"
  cp_client_type :: "ustr option"
  cp_control_code :: "error_code option"
  cp_message_class :: "ustr option"
  cp_retryable :: "bool option"
  cp_fatal :: "bool option"
  cp_retry_after :: "int option"

definition no_args :: capture_args where
  "no_args = \<lparr>cp_event = None, cp_error = None, cp_related = None, cp_client_type = None,
     cp_control_code = None, cp_message_class = None, cp_retryable = None, cp_fatal = None,
     cp_retry_after = None\<rparr>"

definition safe_validation_field :: "exn option \<Rightarrow> ustr option" where
  "safe_validation_field e =
    (case e of
       Some (RealtimeErr c m b (Some f) r x) \<Rightarrow>
         if f \<in> set (SAFE_FAILURE_FIELDS @ EXTRA_VALIDATION_FIELDS) then Some f else None
     | _ \<Rightarrow> None)"

definition safe_validation_reason :: "exn option \<Rightarrow> ustr option" where
  "safe_validation_reason e =
    (case e of
       Some (RealtimeErr c m b f (Some r) x) \<Rightarrow>
         Some (if r \<in> set FAILURE_REASONS then r else u ''validation_failed'')
     | Some _ \<Rightarrow> Some (u ''validation_failed'')
     | None \<Rightarrow> None)"

definition CLIENT_STAGES :: "ustr list" where
  "CLIENT_STAGES = map u [''provider.send'', ''context.ack_timeout'', ''tool.ack_timeout'', ''close.ack_timeout'']"

definition sent_type :: "session \<Rightarrow> ustr \<Rightarrow> ustr option" where
  "sent_type s i = map_of (sn_sent_types s) i"

definition failure_for :: "ustr \<Rightarrow> capture_args \<Rightarrow> session \<Rightarrow> failure_context" where
  "failure_for stage a s =
    (let tf = (case cp_event a of Some d \<Rightarrow> safe_event_fields (VDict d)
               | None \<Rightarrow> (sn_last_type s, sn_last_fields s));
         related = (case cp_related a of
                      Some r \<Rightarrow> Some r
                    | None \<Rightarrow>
                        (case cp_event a of
                           None \<Rightarrow> None
                         | Some d \<Rightarrow>
                             (case dget d (u ''event_id'') of
                                VStr i \<Rightarrow> if sent_type s i \<noteq> None then Some i else None
                              | _ \<Rightarrow> None)));
         own = (if cp_event a \<noteq> None \<and> stage \<in> set CLIENT_STAGES then Some (fst tf) else None)
     in \<lparr>fc_stage = stage, fc_event_type = fst tf, fc_generation = cf_generation (sn_cfg s),
         fc_field_names = snd tf, fc_validation_field = safe_validation_field (cp_error a),
         fc_validation_reason = safe_validation_reason (cp_error a), fc_related_event_id = related,
         fc_client_event_type = (case cp_client_type a of
                                   None \<Rightarrow> own | Some t \<Rightarrow> if t = [] then own else Some t),
         fc_control_code = cp_control_code a, fc_message_class = cp_message_class a,
         fc_retryable = cp_retryable a, fc_fatal = cp_fatal a, fc_retry_after_ms = cp_retry_after a\<rparr>)"

definition capture_failure :: "string \<Rightarrow> capture_args \<Rightarrow> session \<Rightarrow> session" where
  \<comment> \<open>the first cause stays; \<open>failure_context_valid\<close> shows that the constructor accepts every context\<close>
  "capture_failure stage a s =
    (case sn_failure s of
       Some _ \<Rightarrow> s
     | None \<Rightarrow> s\<lparr>sn_failure := Some (failure_for (u stage) a s)\<rparr>)"

definition remember_client_event :: "dict \<Rightarrow> session \<Rightarrow> session" where
  "remember_client_event ev s =
    (case dget ev (u ''event_id'') of
       VStr i \<Rightarrow> s\<lparr>sn_sent_types := AList.update i (fst (safe_event_fields (VDict ev))) (sn_sent_types s)\<rparr>
     | _ \<Rightarrow> s)"

definition known_client_reference :: "ustr \<Rightarrow> session \<Rightarrow> (ustr option \<times> ustr option) res" where
  "known_client_reference payload s =
    (case strict_json_object (cf_env (sn_cfg s)) payload of
       Inl (RealtimeErr c m b f r x) \<Rightarrow> Inr (None, None)
     | Inl e \<Rightarrow> Inl e
     | Inr d \<Rightarrow>
         (case dget d (u ''related_event_id'') of
            VStr i \<Rightarrow> Inr (case sent_type s i of None \<Rightarrow> (None, None) | Some t \<Rightarrow> (Some i, Some t))
          | _ \<Rightarrow> Inr (None, None)))"

definition record_attempt_failure :: "dict \<Rightarrow> error_code \<Rightarrow> session \<Rightarrow> failure_context \<times> session" where
  "record_attempt_failure ev code s =
    (let tf = safe_event_fields (VDict ev);
         f = \<lparr>fc_stage = u ''provider.send'', fc_event_type = fst tf,
              fc_generation = cf_generation (sn_cfg s), fc_field_names = snd tf,
              fc_validation_field = None, fc_validation_reason = None, fc_related_event_id = None,
              fc_client_event_type = Some (fst tf), fc_control_code = None, fc_message_class = None,
              fc_retryable = None, fc_fatal = None, fc_retry_after_ms = None\<rparr>
     in (f, log_diag ((session_diag s DS_PROVIDER_SEND_FAILED)\<lparr>dg_stable_code := Some code,
              dg_operation_kind := Some (u ''tool.send_ambiguous''), dg_failure := Some f\<rparr>) s))"

definition record_terminal :: "close_disposition \<Rightarrow> error_code option \<Rightarrow> session \<Rightarrow> session" where
  "record_terminal disposition code s =
    log_diag ((session_diag s DS_SESSION_TERMINAL)\<lparr>dg_failure := sn_failure s, dg_stable_code := code,
        dg_close_class := Some disposition\<rparr>)
    (log_diag ((session_diag s DS_OUTPUT_AUDIO_SUMMARY)\<lparr>dg_frame_count := sn_output_frames s,
        dg_byte_count := sn_output_bytes s\<rparr>)
    (log_diag ((session_diag s DS_INPUT_AUDIO_SUMMARY)\<lparr>dg_frame_count := sn_input_frames s,
        dg_byte_count := sn_input_bytes s\<rparr>) s))"

section \<open>Output queue\<close>

definition size_of :: "session \<Rightarrow> rt_event \<Rightarrow> int" where
  "size_of s e = event_size (cf_env (sn_cfg s)) e"

definition enqueue :: "rt_event \<Rightarrow> session \<Rightarrow> session" where
  "enqueue e s = s\<lparr>sn_events := sn_events s @ [e], sn_queued_frames := sn_queued_frames s + 1,
     sn_queued_bytes := sn_queued_bytes s + size_of s e\<rparr>"

definition queue_has_room :: "rt_event \<Rightarrow> session \<Rightarrow> bool" where
  "queue_has_room e s \<longleftrightarrow>
     sn_queued_frames s + 1 \<le> li_output_queue_frames (limits_of s)
     \<and> sn_queued_bytes s + size_of s e \<le> li_output_queue_bytes (limits_of s)"

definition emit_event :: "rt_event \<Rightarrow> session \<Rightarrow> bool \<times> session" where
  \<comment> \<open>\<^verbatim>\<open>_emit\<close>\<close>
  "emit_event e s = (if queue_has_room e s then (True, enqueue e s) else (False, s))"

definition emit_terminal_safe :: "rt_event \<Rightarrow> session \<Rightarrow> session" where
  "emit_terminal_safe e s =
    (if sn_sequence_started s then enqueue e s
     else if queue_has_room e s then enqueue e (s\<lparr>sn_sequence_started := True\<rparr>)
     else enqueue e (s\<lparr>sn_sequence_started := True, sn_events := [], sn_queued_frames := 0,
                      sn_queued_bytes := 0\<rparr>))"

definition take_event :: "session \<Rightarrow> (rt_event option \<times> session) option" where
  \<comment> \<open>one turn of \<^verbatim>\<open>events()\<close>: the event it yields, or none if a late event was dropped; \<open>None\<close> when it
     waits or ends\<close>
  "take_event s =
    (case sn_events s of
       [] \<Rightarrow> None
     | e # es \<Rightarrow>
         let s1 = s\<lparr>sn_events := es, sn_queued_frames := max 0 (sn_queued_frames s - 1),
                    sn_queued_bytes := max 0 (sn_queued_bytes s - size_of s e)\<rparr>
         in if \<not> is_current s1 \<and> \<not> is_terminal e then Some (None, s1\<lparr>sn_late := sn_late s1 + 1\<rparr>)
            else Some (Some e, s1))"

section \<open>The terminal\<close>

definition shutdown_connection :: "session \<Rightarrow> session" where
  \<comment> \<open>\<^verbatim>\<open>_shutdown_connection\<close> up to the wait for the connection to close\<close>
  "shutdown_connection s =
    (if sn_shutdown s then s
     else s\<lparr>sn_shutdown := True,
            sn_context_pending := map (\<lambda>ip. (fst ip,
                (if snd ip = P_waiting
                 then P_error (RealtimeErr E_CANCELLED (code_name E_CANCELLED) False None None (sn_failure s))
                 else snd ip))) (sn_context_pending s),
            sn_tool_tasks := map (\<lambda>t. (fst t, True)) (sn_tool_tasks s)\<rparr>)"

definition with_failure :: "failure_context option \<Rightarrow> rt_event \<Rightarrow> rt_event" where
  "with_failure f e =
    (case e of
       SessionClosed c \<Rightarrow> SessionClosed (c\<lparr>sc_failure := f\<rparr>)
     | SessionFailed x \<Rightarrow> SessionFailed (x\<lparr>sf_failure := f\<rparr>)
     | _ \<Rightarrow> e)"

definition failed_code :: "rt_event \<Rightarrow> error_code option" where
  "failed_code e = (case e of SessionFailed x \<Rightarrow> Some (sf_code x) | _ \<Rightarrow> None)"

definition finish_terminal ::
    "rt_event \<Rightarrow> close_initiator \<Rightarrow> close_disposition \<Rightarrow> session \<Rightarrow> session" where
  "finish_terminal e initiator disposition s =
    (if sn_owner s \<noteq> None then s
     else
       (let s1 = s\<lparr>sn_owner := Some (initiator, disposition), sn_terminal_code := failed_code e\<rparr>;
            s2 = (if failed_code e \<noteq> None then capture_failure ''adapter.apply'' no_args s1 else s1);
            s3 = emit_terminal_safe (with_failure (sn_failure s2) e) s2;
            s4 = record_terminal disposition (failed_code e) s3
        in shutdown_connection (s4\<lparr>sn_published := True\<rparr>)))"

definition fail :: "error_code \<Rightarrow> bool \<Rightarrow> session \<Rightarrow> session" where
  "fail code retryable s =
    finish_terminal (SessionFailed (failed_event code retryable)) CI_PROVIDER
      (if retryable then CD_RETRYABLE else CD_FATAL) s"

definition inactive :: "session \<Rightarrow> bool" where
  "inactive s \<longleftrightarrow> sn_owner s \<noteq> None \<or> sn_closing s \<or> \<not> is_current s"

definition closed_error :: "session \<Rightarrow> exn" where
  "closed_error s = RealtimeErr E_CANCELLED ''session is closed'' False None None (sn_failure s)"

definition require_active :: "session \<Rightarrow> unit res" where
  "require_active s = (if inactive s then Inl (closed_error s) else Inr ())"

definition current_response :: "session \<Rightarrow> ustr option" where
  "current_response s = find (\<lambda>r. r \<notin> sn_terminal_responses s) (rev (sn_response_order s))"

section \<open>Applying a decoded event\<close>

text \<open>
  \<^verbatim>\<open>_apply\<close> is a sequence of stages, each of which lets the next one run, ends the call with its
  result, or raises. \<open>Stop False\<close> after \<open>fail\<close> is the source's \<^verbatim>\<open>await self._fail(...); return False\<close>.
\<close>

datatype flow = Go session | Stop bool session | Raise exn session

fun flow_then :: "flow \<Rightarrow> (session \<Rightarrow> flow) \<Rightarrow> flow" where
  "flow_then (Go s) f = f s"
| "flow_then (Stop b s) f = Stop b s"
| "flow_then (Raise e s) f = Raise e s"

definition protocol_failure :: "session \<Rightarrow> flow" where
  "protocol_failure s = Stop False (fail E_PROTOCOL_ERROR False s)"

definition emit_or_fail :: "rt_event \<Rightarrow> session \<Rightarrow> flow" where
  "emit_or_fail e s =
    (case emit_event e s of (True, s') \<Rightarrow> Go s' | (False, s') \<Rightarrow> Stop False (fail E_BUSY False s'))"

definition apply_notices :: "decoded_event \<Rightarrow> session \<Rightarrow> session" where
  \<comment> \<open>the diagnostics at the start of \<^verbatim>\<open>_apply\<close>\<close>
  "apply_notices d s =
    (let s1 = (case de_item_role_metadata_mismatch d of
                 None \<Rightarrow> s
               | Some (item, r) \<Rightarrow>
                   log_diag ((session_diag s DS_PROVIDER_EVENT_RECEIVED)
                     \<lparr>dg_operation_kind := Some (u ''item_role_metadata_mismatch''),
                      dg_provider_event_type := Some (u ''conversation.item.created''),
                      dg_item_id := Some item, dg_declared_role := Some r\<rparr>) s);
         s2 = (case de_user_side_response_event_ignored d of
                 Some t \<Rightarrow> record_provider DS_PROVIDER_EVENT_RECEIVED
                   (u ''user_side_response_event_ignored'') None None (Some t) s1
               | None \<Rightarrow>
                   if de_user_side_transcript_ignored d
                   then record_provider DS_PROVIDER_EVENT_RECEIVED
                     (u ''user_side_transcript_ignored'') None None None s1
                   else s1)
     in if de_tool_catalog_normalized d
        then record_provider DS_PROVIDER_EVENT_RECEIVED (u ''session.tools.normalized'') None None None s2
        else s2)"

definition set_pending :: "ustr \<Rightarrow> pending \<Rightarrow> session \<Rightarrow> session" where
  \<comment> \<open>resolve a waiting acknowledgement\<close>
  "set_pending i p s = s\<lparr>sn_context_pending := AList.update i p (sn_context_pending s)\<rparr>"

definition apply_rejection :: "decoded_event \<Rightarrow> session \<Rightarrow> flow" where
  "apply_rejection d s =
    (case de_rejected_event_id d of
       None \<Rightarrow> Go s
     | Some i \<Rightarrow>
         (case map_of (sn_context_pending s) i of
            None \<Rightarrow> Go s
          | Some p \<Rightarrow>
              let s1 = (if p = P_waiting then set_pending i (P_error (rt_plain E_UNSUPPORTED)) s else s)
              in Stop True (record_provider DS_PROVIDER_EVENT_APPLY_FAILED (u ''context.unsupported'')
                   None (Some E_UNSUPPORTED) None s1)))"

definition context_request :: "decoded_event \<Rightarrow> ustr option" where
  \<comment> \<open>\<^verbatim>\<open>decoded.context_request_id or decoded.context_ack_id\<close>\<close>
  "context_request d =
    (case de_context_request_id d of
       None \<Rightarrow> de_context_ack_id d
     | Some i \<Rightarrow> if i = [] then de_context_ack_id d else Some i)"

definition apply_context :: "decoded_event \<Rightarrow> session \<Rightarrow> session" where
  "apply_context d s =
    (case context_request d of
       None \<Rightarrow> s
     | Some i \<Rightarrow>
         (case map_of (sn_context_pending s) i of
            Some P_waiting \<Rightarrow>
              let s1 = (if de_context_ack_id d \<noteq> None \<and> \<not> de_session_acknowledged d
                           \<and> de_introduced_response_id d = None
                        then s\<lparr>sn_context_ack := de_context_ack_id d\<rparr> else s)
              in record_recovery ''recovery.context_acknowledged'' (set_pending i P_done s1)
          | _ \<Rightarrow> s))"

definition apply_ready :: "decoded_event \<Rightarrow> session \<Rightarrow> flow" where
  "apply_ready d s =
    (if de_provider_ready d \<and> \<not> sn_ready s then
       flow_then
         (emit_or_fail (SessionReady (cf_generation (sn_cfg s)) (cf_correlation (sn_cfg s))
             (ca_input_audio (cf_capability (sn_cfg s))) (ca_output_audio (cf_capability (sn_cfg s)))
             (de_tools_acknowledged d)) (s\<lparr>sn_ready := True\<rparr>))
         (\<lambda>s1. Go (log_diag (session_diag s1 DS_SESSION_READY) s1))
     else if \<not> sn_ready s \<and> \<not> de_session_acknowledged d then protocol_failure s
     else Go s)"

definition apply_acknowledged :: "decoded_event \<Rightarrow> session \<Rightarrow> flow" where
  "apply_acknowledged d s = (if de_session_acknowledged d then Stop True s else Go s)"

definition live_responses :: "session \<Rightarrow> ustr set" where
  "live_responses s = sn_responses s - sn_terminal_responses s"

definition set_tool_state :: "ustr \<Rightarrow> tool_state \<Rightarrow> session \<Rightarrow> session" where
  "set_tool_state c st s =
    (case map_of (sn_tools s) c of
       None \<Rightarrow> s
     | Some r \<Rightarrow> s\<lparr>sn_tools := AList.update c (r\<lparr>tr_state := st\<rparr>) (sn_tools s)\<rparr>)"

definition start_followup :: "session \<Rightarrow> session" where
  \<comment> \<open>a response that starts belongs to the oldest tool result waiting for one\<close>
  "start_followup s =
    (case sn_followups s of
       [] \<Rightarrow> s
     | c # cs \<Rightarrow> set_tool_state c TS_FOLLOWUP_STARTED (s\<lparr>sn_followups := cs\<rparr>))"

definition apply_response :: "decoded_event \<Rightarrow> session \<Rightarrow> flow" where
  "apply_response d s =
    (case de_introduced_response_id d of
       None \<Rightarrow> Go s
     | Some r \<Rightarrow>
         if r \<in> sn_responses s \<or> r \<in> sn_terminal_responses s then protocol_failure s
         else if 2 \<le> card (live_responses s)
                 \<or> live_responses s \<noteq> {} \<and> \<not> live_responses s \<subseteq> sn_cancelled s
         then protocol_failure s
         else Go (start_followup (s\<lparr>sn_responses := insert r (sn_responses s),
                                   sn_response_order := sn_response_order s @ [r]\<rparr>)))"

definition apply_item :: "decoded_event \<Rightarrow> session \<Rightarrow> flow" where
  "apply_item d s =
    (case de_introduced_item d of
       None \<Rightarrow> Go s
     | Some ri \<Rightarrow>
         if fst ri \<notin> sn_responses s then protocol_failure s
         else if ri \<in> sn_items s then protocol_failure s
         else
           (let s1 = s\<lparr>sn_items := insert ri (sn_items s)\<rparr>
            in case de_introduced_item_detail d of
                 None \<Rightarrow> protocol_failure s1
               | Some (r, i, oi, ty) \<Rightarrow>
                   if (r, i) \<noteq> ri then protocol_failure s1
                   else if ty = u ''function_call''
                   then Go (s1\<lparr>sn_call_items := insert (r, i, oi) (sn_call_items s1)\<rparr>)
                   else Go s1))"

definition apply_content :: "decoded_event \<Rightarrow> session \<Rightarrow> flow" where
  "apply_content d s =
    (case de_introduced_content d of
       None \<Rightarrow> Go s
     | Some (r, i, oi, ci) \<Rightarrow>
         if (r, i) \<notin> sn_items s then protocol_failure s
         else if (r, i, oi, ci) \<in> sn_contents s then protocol_failure s
         else Go (s\<lparr>sn_contents := insert (r, i, oi, ci) (sn_contents s)\<rparr>))"

definition apply_tool_ack :: "decoded_event \<Rightarrow> session \<Rightarrow> flow" where
  "apply_tool_ack d s =
    (case de_tool_ack_identity d of
       None \<Rightarrow> Go s
     | Some (i, ty, status, c, output) \<Rightarrow>
         (case map_of (sn_tools s) c of
            None \<Rightarrow> protocol_failure s
          | Some r \<Rightarrow>
              if tr_output r \<noteq> Some output \<or> ty \<noteq> u ''function_call_output'' \<or> status \<noteq> u ''completed''
              then protocol_failure s
              else if tr_state r = TS_RESULT_SENT
              then Go (s\<lparr>sn_tools := AList.update c (r\<lparr>tr_state := TS_RESULT_ACKED, tr_ack := True\<rparr>)
                                     (sn_tools s)\<rparr>)
              else Go (s\<lparr>sn_duplicates := sn_duplicates s + 1\<rparr>)))"

definition check_completions :: "decoded_event \<Rightarrow> session \<Rightarrow> flow" where
  "check_completions d s =
    (case de_completed_content d of
       Some c \<Rightarrow>
         if c \<notin> sn_contents s \<or> c \<in> sn_completed_contents s then protocol_failure s
         else (case de_completed_item d of
                 Some i \<Rightarrow> if i \<notin> sn_items s \<or> i \<in> sn_completed_items s then protocol_failure s else Go s
               | None \<Rightarrow> Go s)
     | None \<Rightarrow>
         (case de_completed_item d of
            Some i \<Rightarrow> if i \<notin> sn_items s \<or> i \<in> sn_completed_items s then protocol_failure s else Go s
          | None \<Rightarrow> Go s))"

subsection \<open>The events of a batch\<close>

definition INPUT_SOURCES :: "ustr list" where
  "INPUT_SOURCES = map u [''speech_started'', ''committed'', ''transcript'']"

definition apply_transcript :: "ustr \<Rightarrow> ustr \<Rightarrow> session \<Rightarrow> flow" where
  \<comment> \<open>the \<^verbatim>\<open>TranscriptCompleted\<close> branch, with the emission that follows it\<close>
  "apply_transcript turn text s =
    (let it = lookup_item (session_table s) turn;
         user_input = (case it of None \<Rightarrow> False | Some x \<Rightarrow> ii_source x \<in> set INPUT_SOURCES)
     in if user_input \<and> turn \<in> ls_completed_inputs (logical s)
        then Go (s\<lparr>sn_duplicates := sn_duplicates s + 1\<rparr>)
        else
          (let l = logical s;
               s1 = (if user_input
                     then put_logical (l\<lparr>ls_completed_inputs := insert turn (ls_completed_inputs l)\<rparr>) s
                     else s);
               s2 = (if \<not> sn_first_transcript s1
                        \<and> (case it of
                             None \<Rightarrow> False
                           | Some x \<Rightarrow>
                               ii_source x \<in> set (INPUT_SOURCES @ [u ''input_audio_item''])
                               \<and> ii_generation x = cf_generation (sn_cfg s1))
                     then record_recovery ''recovery.first_user_transcript'' (s1\<lparr>sn_first_transcript := True\<rparr>)
                     else s1)
           in emit_or_fail (TranscriptCompleted turn text) s2))"

definition tool_schema_for :: "pyval \<Rightarrow> ustr \<Rightarrow> pyval option" where
  \<comment> \<open>the parameters of the first tool of this name\<close>
  "tool_schema_for tools name =
    (case tools of
       VList ts \<Rightarrow>
         (case find (\<lambda>t. case t of VDict d \<Rightarrow> dget d (u ''name'') = VStr name | _ \<Rightarrow> False) ts of
            Some (VDict d) \<Rightarrow> Some (dget d (u ''parameters''))
          | _ \<Rightarrow> None)
     | _ \<Rightarrow> None)"

definition invalid_tool_arguments :: "ustr \<Rightarrow> ustr \<Rightarrow> session \<Rightarrow> bool res" where
  \<comment> \<open>\<^verbatim>\<open>_invalid_tool_arguments\<close> of the name and the argument text of a call; every error of the parser
    and of the match is one that it catches, the \<^verbatim>\<open>RecursionError\<close> included\<close>
  "invalid_tool_arguments name arguments s =
    andthen (encode_utf8 arguments) (\<lambda>_.
      if li_tool_payload_bytes (limits_of s) < int (utf8_len arguments) then Inr True
      else
        (case parse_arguments (cf_env (sn_cfg s)) arguments of
           Inl _ \<Rightarrow> Inr True
         | Inr d \<Rightarrow>
             (case tool_schema_for (or_tools (cf_request (sn_cfg s))) name of
                None \<Rightarrow> Inr True
              | Some schema \<Rightarrow>
                  (case andthen (dict_of schema) (\<lambda>sc.
                      matches_schema (je_calls (cf_env (sn_cfg s))) (VDict d) sc 0) of
                     Inl _ \<Rightarrow> Inr True
                   | Inr ok \<Rightarrow> Inr (\<not> ok)))))"

definition register_tool_call :: "ustr \<Rightarrow> session \<Rightarrow> session" where
  "register_tool_call c s =
    (let l = logical s
     in put_logical (l\<lparr>ls_tool_calls := insert c (ls_tool_calls l)\<rparr>)
          (s\<lparr>sn_tools := AList.update c requested_tool (sn_tools s)\<rparr>))"

definition apply_tool_call ::
    "decoded_event \<Rightarrow> ustr \<Rightarrow> ustr \<Rightarrow> ustr \<Rightarrow> ustr \<Rightarrow> int \<Rightarrow> session \<Rightarrow> flow" where
  \<comment> \<open>the \<^verbatim>\<open>ToolCallRequested\<close> branch, with the emission that follows it\<close>
  "apply_tool_call d r c name arguments g s =
    (case de_tool_call_identity d of
       None \<Rightarrow> protocol_failure s
     | Some (r', i, oi, c') \<Rightarrow>
         if r' \<noteq> r \<or> c' \<noteq> c \<or> r' \<notin> sn_responses s \<or> r' \<in> sn_terminal_responses s
            \<or> (r', i, oi) \<notin> sn_call_items s \<or> \<not> (g = 0 \<or> g = cf_generation (sn_cfg s))
         then protocol_failure s
         else if map_of (sn_tools s) c \<noteq> None then protocol_failure s
         else if c \<in> ls_tool_calls (logical s) then Go (s\<lparr>sn_duplicates := sn_duplicates s + 1\<rparr>)
         else
           (let s1 = register_tool_call c s
            in case invalid_tool_arguments name arguments s1 of
                 Inl e \<Rightarrow> Raise e s1
               | Inr invalid \<Rightarrow>
                   let s2 = (if cf_dispatcher (sn_cfg s1) \<or> invalid
                             then s1\<lparr>sn_tool_tasks := sn_tool_tasks s1 @ [(c, False)]\<rparr> else s1)
                   in if invalid then Go s2
                      else emit_or_fail (ToolCallRequested r c name arguments (cf_generation (sn_cfg s2))) s2))"

fun output_place_of :: "rt_event \<Rightarrow> (ustr \<times> ustr \<times> int \<times> int) option" where
  "output_place_of (OutputText r i oi ci x b) = Some (r, i, oi, ci)"
| "output_place_of (OutputAudioStarted r i oi ci) = Some (r, i, oi, ci)"
| "output_place_of (OutputAudio r i oi ci x) = Some (r, i, oi, ci)"
| "output_place_of (OutputAudioCompleted r i oi ci) = Some (r, i, oi, ci)"
| "output_place_of _ = None"

definition sample_audio :: "int \<Rightarrow> bool" where
  "sample_audio n \<longleftrightarrow> n = 1 \<or> n mod 250 = 0"

definition count_output_audio :: "rt_event \<Rightarrow> session \<Rightarrow> session" where
  "count_output_audio e s =
    (case e of
       OutputAudio r i oi ci x \<Rightarrow>
         (let s1 = s\<lparr>sn_output_frames := sn_output_frames s + 1,
                    sn_output_bytes := sn_output_bytes s + int (length x)\<rparr>
          in if sample_audio (sn_output_frames s1)
             then log_diag ((session_diag s1 DS_OUTPUT_AUDIO)\<lparr>dg_frame_count := sn_output_frames s1,
                     dg_byte_count := sn_output_bytes s1\<rparr>) s1
             else s1)
     | _ \<Rightarrow> s)"

definition apply_output :: "rt_event \<Rightarrow> ustr \<times> ustr \<times> int \<times> int \<Rightarrow> session \<Rightarrow> flow" where
  \<comment> \<open>text and audio output: only for an introduced content of a live response\<close>
  "apply_output e place s =
    (if fst place \<in> sn_terminal_responses s \<or> fst place \<in> sn_cancelled s
     then Go (s\<lparr>sn_late := sn_late s + 1\<rparr>)
     else if fst place \<notin> sn_responses s then protocol_failure s
     else if place \<notin> sn_contents s then protocol_failure s
     else if place \<in> sn_completed_contents s then Go (s\<lparr>sn_late := sn_late s + 1\<rparr>)
     else flow_then (emit_or_fail e s) (\<lambda>s1. Go (count_output_audio e s1)))"

definition apply_finished ::
    "bool \<Rightarrow> ustr \<Rightarrow> response_status \<Rightarrow> response_usage option \<Rightarrow> bool \<Rightarrow> session \<Rightarrow> flow" where
  "apply_finished terminal_batch r st us loc s =
    (let st' = (if st = RS_INCOMPLETE \<and> r \<in> sn_cancelled s then RS_CANCELLED else st)
     in if r \<notin> sn_responses s then protocol_failure s
        else if r \<in> sn_terminal_responses s then Go (s\<lparr>sn_duplicates := sn_duplicates s + 1\<rparr>)
        else
          (let s1 = s\<lparr>sn_terminal_responses := insert r (sn_terminal_responses s)\<rparr>
           in if terminal_batch then Go (emit_terminal_safe (ResponseFinished r st' us loc) s1)
              else emit_or_fail (ResponseFinished r st' us loc) s1))"

definition apply_event :: "decoded_event \<Rightarrow> bool \<Rightarrow> rt_event \<Rightarrow> session \<Rightarrow> flow" where
  \<comment> \<open>one turn of the loop over \<^verbatim>\<open>decoded.events\<close>\<close>
  "apply_event d terminal_batch e s =
    (case e of
       TranscriptCompleted turn text \<Rightarrow> apply_transcript turn text s
     | ToolCallRequested r c name arguments g \<Rightarrow> apply_tool_call d r c name arguments g s
     | ResponseFinished r st us loc \<Rightarrow> apply_finished terminal_batch r st us loc s
     | SessionFailed x \<Rightarrow>
         Stop False (finish_terminal e CI_PROVIDER
           (if sf_retryable x then CD_RETRYABLE else CD_FATAL) s)
     | _ \<Rightarrow>
         (case output_place_of e of
            Some place \<Rightarrow> apply_output e place s
          | None \<Rightarrow> emit_or_fail e s))"

fun apply_events :: "decoded_event \<Rightarrow> bool \<Rightarrow> rt_event list \<Rightarrow> session \<Rightarrow> flow" where
  "apply_events d tb [] s = Go s"
| "apply_events d tb (e # es) s = flow_then (apply_event d tb e s) (apply_events d tb es)"

definition add_completions :: "decoded_event \<Rightarrow> session \<Rightarrow> session" where
  "add_completions d s =
    s\<lparr>sn_completed_contents := sn_completed_contents s \<union> set_option (de_completed_content d),
      sn_completed_items := sn_completed_items s \<union> set_option (de_completed_item d)\<rparr>"

definition terminal_batch :: "decoded_event \<Rightarrow> bool" where
  "terminal_batch d \<longleftrightarrow> list_ex (\<lambda>e. case e of SessionFailed _ \<Rightarrow> True | _ \<Rightarrow> False) (de_events d)"

definition apply_decoded :: "decoded_event \<Rightarrow> session \<Rightarrow> flow" where
  \<comment> \<open>\<^verbatim>\<open>_apply\<close>\<close>
  "apply_decoded d s =
    (if \<not> is_current s then Stop True (s\<lparr>sn_late := sn_late s + 1\<rparr>)
     else
       flow_then (apply_rejection d (apply_notices d s)) (\<lambda>s.
       flow_then (apply_ready d (apply_context d s)) (\<lambda>s.
       flow_then (apply_acknowledged d s) (\<lambda>s.
       flow_then (apply_response d s) (\<lambda>s.
       flow_then (apply_item d s) (\<lambda>s.
       flow_then (apply_content d s) (\<lambda>s.
       flow_then (apply_tool_ack d s) (\<lambda>s.
       flow_then (check_completions d s) (\<lambda>s.
       flow_then (apply_events d (terminal_batch d) (de_events d) s) (\<lambda>s.
       Stop True (add_completions d s)))))))))))"

section \<open>The receive loop\<close>

datatype incoming =
    Recv_error exn error_attributes \<comment> \<open>\<^verbatim>\<open>receive_text\<close> raised\<close>
  | Recv_eof
  | Recv_text ustr "rt_event option res" "decoded_event res"
      \<comment> \<open>a payload, what \<^verbatim>\<open>decode_runtime_event\<close> and \<^verbatim>\<open>decode_server_event\<close> make of it\<close>

datatype loop = Continue session | Return session

fun loop_state :: "loop \<Rightarrow> session" where
  "loop_state (Continue s) = s"
| "loop_state (Return s) = s"

definition loop_error :: "exn \<Rightarrow> session \<Rightarrow> loop" where
  \<comment> \<open>the outer handlers of \<^verbatim>\<open>_receive_loop\<close>\<close>
  "loop_error e s =
    (if sn_closing s then Continue (s\<lparr>sn_late := sn_late s + 1\<rparr>)
     else (case e of
             RealtimeErr c m b f r x \<Rightarrow> Return (fail c b s)
           | _ \<Rightarrow> Return (fail E_INTERNAL False s)))"

definition receive_failed :: "exn \<Rightarrow> error_attributes \<Rightarrow> session \<Rightarrow> loop" where
  "receive_failed e attrs s =
    (let a = no_args\<lparr>cp_event := Some [(u ''type'', vs ''transport.receive'')]\<rparr>;
         a' = (case e of RealtimeErr c m b f r x \<Rightarrow> a\<lparr>cp_error := Some e\<rparr> | _ \<Rightarrow> a);
         code = (case e of RealtimeErr c m b f r x \<Rightarrow> c | _ \<Rightarrow> E_INTERNAL)
     in loop_error e (record_provider DS_PROVIDER_RECEIVE_FAILED (transport_failure_kind attrs) None
          (Some code) None (capture_failure ''provider.receive'' a' s)))"

definition receive_eof :: "session \<Rightarrow> loop" where
  "receive_eof s =
    (if sn_closing s then Return s
     else Return (fail E_UNAVAILABLE True (capture_failure ''provider.receive''
            (no_args\<lparr>cp_event := Some [(u ''type'', vs ''transport.eof'')]\<rparr>) s)))"

definition note_frame :: "ustr \<Rightarrow> session \<Rightarrow> (ustr \<times> ustr \<times> session) res" where
  \<comment> \<open>the metadata of the frame and its first-of-a-kind diagnostic\<close>
  "note_frame payload s =
    andthen (payload_fields (cf_env (sn_cfg s)) payload) (\<lambda>(ty, fields).
    andthen (payload_metadata (cf_env (sn_cfg s)) (cf_sha (sn_cfg s)) payload) (\<lambda>(kind, fp).
      let s1 = s\<lparr>sn_last_type := ty, sn_last_fields := fields\<rparr>
      in Inr (kind, fp,
           (if kind \<in> sn_diagnostic_kinds s1 then s1
            else record_provider DS_PROVIDER_EVENT_RECEIVED kind (Some fp) None None
                   (s1\<lparr>sn_diagnostic_kinds := insert kind (sn_diagnostic_kinds s1)\<rparr>)))))"

definition valid_close_ack :: "session_closed \<Rightarrow> session \<Rightarrow> bool" where
  "valid_close_ack c s \<longleftrightarrow> sc_related_event_id c = sn_pending_close_id s
     \<and> sc_initiator c = CI_CLIENT \<and> sc_disposition c = CD_CLEAN"

definition handle_control_closing :: "rt_event \<Rightarrow> session \<Rightarrow> loop" where
  "handle_control_closing e s =
    (case e of
       SessionClosed c \<Rightarrow>
         if valid_close_ack c s
         then Continue (if sn_close_ack s = Ack_waiting then s\<lparr>sn_close_ack := Ack_received c\<rparr> else s)
         else Continue (s\<lparr>sn_ack_mismatches := sn_ack_mismatches s + 1\<rparr>)
     | _ \<Rightarrow> Continue (s\<lparr>sn_late := sn_late s + 1\<rparr>))"

definition handle_control :: "rt_event \<Rightarrow> session \<Rightarrow> loop" where
  "handle_control e s =
    (case e of
       SessionFailed x \<Rightarrow>
         let ct = (case sf_related_event_id x of None \<Rightarrow> None | Some i \<Rightarrow> sent_type s i);
             s1 = capture_failure ''control.terminal''
                    (no_args\<lparr>cp_related := sf_related_event_id x, cp_client_type := ct,
                       cp_control_code := sf_control_code x, cp_message_class := sf_message_class x,
                       cp_retryable := Some (sf_retryable x), cp_fatal := sf_fatal x,
                       cp_retry_after := sf_retry_after_ms x\<rparr>) s;
             s2 = record_provider DS_CONTROL_TERMINATED (u ''control.terminal'') None (Some (sf_code x)) None s1
         in Return (finish_terminal (SessionFailed (x\<lparr>sf_client_event_type := ct\<rparr>)) CI_RELAY
              (if sf_retryable x then CD_RETRYABLE else CD_FATAL) s2)
     | SessionClosed c \<Rightarrow>
         let ct = sent_type s (case sc_related_event_id c of None \<Rightarrow> [] | Some i \<Rightarrow> i);
             s1 = capture_failure ''control.closed''
                    (no_args\<lparr>cp_related := sc_related_event_id c, cp_client_type := ct\<rparr>) s
         in Return (finish_terminal (SessionClosed (c\<lparr>sc_client_event_type := ct\<rparr>))
              (sc_initiator c) (sc_disposition c) s1)
     | _ \<Rightarrow>
         (case emit_event e s of
            (True, s1) \<Rightarrow> Continue s1
          | (False, s1) \<Rightarrow> Return (fail E_BUSY False s1)))"

definition control_failed :: "ustr \<Rightarrow> exn \<Rightarrow> session \<Rightarrow> loop" where
  "control_failed payload e s =
    (case e of
       RealtimeErr c m b f r x \<Rightarrow>
         (case known_client_reference payload s of
            Inl e' \<Rightarrow> loop_error e' s
          | Inr (related, ct) \<Rightarrow>
              loop_error e (record_provider DS_CONTROL_EVENT_DECODE_FAILED (u ''control.validation_failed'')
                None (Some c) None (capture_failure ''control.decode''
                  (no_args\<lparr>cp_error := Some e, cp_related := related, cp_client_type := ct\<rparr>) s)))
     | _ \<Rightarrow> loop_error e s)"

definition adapter_failed :: "ustr \<Rightarrow> ustr \<Rightarrow> exn \<Rightarrow> session \<Rightarrow> loop" where
  "adapter_failed kind fp e s =
    (let a = (case e of RealtimeErr c m b f r x \<Rightarrow> no_args\<lparr>cp_error := Some e\<rparr> | _ \<Rightarrow> no_args);
         code = (case e of RealtimeErr c m b f r x \<Rightarrow> c | _ \<Rightarrow> E_INTERNAL)
     in loop_error e (record_provider DS_PROVIDER_EVENT_DECODE_FAILED kind (Some fp) (Some code) None
          (capture_failure ''adapter.decode'' a s)))"

definition handle_decoded :: "ustr \<Rightarrow> ustr \<Rightarrow> decoded_event \<Rightarrow> session \<Rightarrow> loop" where
  \<comment> \<open>the diagnostic after a refused event follows the wait for the connection to close; it is placed
     directly after the call\<close>
  "handle_decoded kind fp d s =
    (if de_event_id d \<in> sn_seen_events s then Continue (s\<lparr>sn_duplicates := sn_duplicates s + 1\<rparr>)
     else
       (case apply_decoded d (s\<lparr>sn_seen_events := insert (de_event_id d) (sn_seen_events s)\<rparr>) of
          Raise e s1 \<Rightarrow> loop_error e s1
        | Go s1 \<Rightarrow> Continue s1
        | Stop ok s1 \<Rightarrow>
            if ok then Continue s1
            else
              (let s2 = (case sn_terminal_code s1 of
                           None \<Rightarrow> s1
                         | Some c \<Rightarrow> record_provider DS_PROVIDER_EVENT_APPLY_FAILED kind (Some fp)
                                       (Some c) None s1)
               in if sn_closing s2 \<and> \<not> sn_published s2 then Continue s2 else Return s2)))"

definition receive_text :: "ustr \<Rightarrow> rt_event option res \<Rightarrow> decoded_event res \<Rightarrow> session \<Rightarrow> loop" where
  "receive_text payload control adapter s =
    (if \<not> is_current s \<and> \<not> sn_closing s then Continue (s\<lparr>sn_late := sn_late s + 1\<rparr>)
     else
       (case note_frame payload s of
          Inl e \<Rightarrow> loop_error e s
        | Inr (kind, fp, s1) \<Rightarrow>
            (case control of
               Inl e \<Rightarrow> control_failed payload e s1
             | Inr (Some e) \<Rightarrow>
                 if sn_closing s1 then handle_control_closing e s1 else handle_control e s1
             | Inr None \<Rightarrow>
                 if sn_closing s1 then Continue (s1\<lparr>sn_late := sn_late s1 + 1\<rparr>)
                 else (case adapter of
                         Inl e \<Rightarrow> adapter_failed kind fp e s1
                       | Inr d \<Rightarrow> handle_decoded kind fp d s1))))"

definition receive_one :: "incoming \<Rightarrow> session \<Rightarrow> loop" where
  \<comment> \<open>one turn of \<^verbatim>\<open>_receive_loop\<close> after \<^verbatim>\<open>receive_text\<close> returned\<close>
  "receive_one i s =
    (case i of
       Recv_error e attrs \<Rightarrow> receive_failed e attrs s
     | Recv_eof \<Rightarrow> receive_eof s
     | Recv_text payload control adapter \<Rightarrow> receive_text payload control adapter s)"

section \<open>Sending\<close>

datatype send_outcome = Sent | Send_timeout | Send_error exn error_attributes

definition send_done :: "dict \<Rightarrow> send_outcome \<Rightarrow> session \<Rightarrow> unit res \<times> session" where
  \<comment> \<open>\<^verbatim>\<open>_send_runtime_event\<close> after the encoding and the write; the event was remembered before\<close>
  "send_done ev outcome s =
    (case outcome of
       Sent \<Rightarrow> (Inr (), s)
     | Send_timeout \<Rightarrow>
         (let s1 = record_provider DS_PROVIDER_SEND_FAILED (u ''transport.send.timeout'') None
                     (Some E_TIMEOUT) None
                     (capture_failure ''provider.send'' (no_args\<lparr>cp_event := Some ev\<rparr>) s);
              s2 = fail E_TIMEOUT True s1
          in (Inl (RealtimeErr E_TIMEOUT ''provider write timed out'' True None None (sn_failure s2)), s2))
     | Send_error e attrs \<Rightarrow>
         (case e of
            RealtimeErr c m b f r x \<Rightarrow>
              (let s1 = record_provider DS_PROVIDER_SEND_FAILED (transport_failure_kind attrs) None
                          (Some c) None
                          (capture_failure ''provider.send''
                             (no_args\<lparr>cp_event := Some ev, cp_error := Some e\<rparr>) s);
                   s2 = fail c b s1
               in (Inl (RealtimeErr c m b f r (sn_failure s2)), s2))
          | _ \<Rightarrow>
              (let s1 = record_provider DS_PROVIDER_SEND_FAILED (transport_failure_kind attrs) None
                          (Some E_UNAVAILABLE) None
                          (capture_failure ''provider.send'' (no_args\<lparr>cp_event := Some ev\<rparr>) s);
                   s2 = fail E_UNAVAILABLE True s1
               in (Inl (RealtimeErr E_UNAVAILABLE ''provider write failed'' True None None
                         (sn_failure s2)), s2))))"

definition start_session :: "dict \<Rightarrow> session \<Rightarrow> unit res \<times> session" where
  \<comment> \<open>\<^verbatim>\<open>start\<close> up to the write of the session update \<open>ev\<close> the adapter built\<close>
  "start_session ev s =
    (case validate_tools (cf_env (sn_cfg s)) (nat (li_tool_payload_bytes (limits_of s)))
            (or_tools (cf_request (sn_cfg s))) of
       Inl e \<Rightarrow>
         (if is_value_error e \<or> e = TypeErr
          then (Inl (rt_error E_INVALID_REQUEST ''invalid tool catalog''), s) else (Inl e, s))
     | Inr _ \<Rightarrow>
         if truthy (or_tools (cf_request (sn_cfg s)))
            \<and> \<not> fs_tool_calling (ca_features (cf_capability (sn_cfg s)))
         then (Inl (rt_plain E_UNSUPPORTED), s)
         else (Inr (), record_recovery
                (if 1 < cf_generation (sn_cfg s) then ''recovery.restored'' else ''recovery.started'')
                (remember_client_event ev s)))"

subsection \<open>Audio\<close>

definition audio_check :: "bytes \<Rightarrow> session \<Rightarrow> unit res" where
  "audio_check pcm s =
    andthen (require_active s) (\<lambda>_.
      if \<not> sn_ready s then Inl (rt_error E_BUSY ''session is not ready'')
      else if length pcm = 0 \<or> odd (length pcm)
      then Inl (rt_error E_INVALID_REQUEST ''PCM must contain whole samples'')
      else if li_input_audio_event_bytes (limits_of s) < int (length pcm)
      then Inl (rt_error E_INVALID_REQUEST ''PCM event is too large'')
      else if li_input_queue_frames (limits_of s) < sn_input_pending_frames s + 1
      then Inl (rt_error E_BUSY ''input frame queue is full'')
      else if li_input_queue_bytes (limits_of s) < sn_input_pending_bytes s + int (length pcm)
      then Inl (rt_error E_BUSY ''input byte queue is full'')
      else Inr ())"

definition release_audio :: "bytes \<Rightarrow> session \<Rightarrow> session" where
  "release_audio pcm s = s\<lparr>sn_input_pending_frames := sn_input_pending_frames s - 1,
     sn_input_pending_bytes := sn_input_pending_bytes s - int (length pcm)\<rparr>"

definition send_audio_begin :: "bytes \<Rightarrow> dict res \<Rightarrow> session \<Rightarrow> dict res \<times> session" where
  \<comment> \<open>\<^verbatim>\<open>send_audio\<close> up to the write of the event the adapter built\<close>
  "send_audio_begin pcm built s =
    (case audio_check pcm s of
       Inl e \<Rightarrow> (Inl e, s)
     | Inr _ \<Rightarrow>
         (let s1 = s\<lparr>sn_input_pending_frames := sn_input_pending_frames s + 1,
                    sn_input_pending_bytes := sn_input_pending_bytes s + int (length pcm)\<rparr>
          in case built of
               Inl e \<Rightarrow> (Inl e, release_audio pcm s1)
             | Inr ev \<Rightarrow> (Inr ev, remember_client_event ev s1)))"

definition send_audio_end :: "bytes \<Rightarrow> dict \<Rightarrow> send_outcome \<Rightarrow> session \<Rightarrow> unit res \<times> session" where
  "send_audio_end pcm ev outcome s =
    (case send_done ev outcome s of
       (Inl e, s1) \<Rightarrow> (Inl e, release_audio pcm s1)
     | (Inr _, s1) \<Rightarrow>
         (let s2 = s1\<lparr>sn_input_frames := sn_input_frames s1 + 1,
                     sn_input_bytes := sn_input_bytes s1 + int (length pcm)\<rparr>;
              s3 = (if sample_audio (sn_input_frames s2)
                    then log_diag ((session_diag s2 DS_INPUT_AUDIO)\<lparr>dg_frame_count := sn_input_frames s2,
                           dg_byte_count := sn_input_bytes s2\<rparr>) s2
                    else s2)
          in (Inr (), release_audio pcm s3)))"

subsection \<open>Cancel and truncate\<close>

definition cancel_response_begin :: "(ustr \<Rightarrow> dict res) \<Rightarrow> session \<Rightarrow> dict option res \<times> session" where
  \<comment> \<open>\<open>Inr None\<close>: nothing to cancel\<close>
  "cancel_response_begin build s =
    (case require_active s of
       Inl e \<Rightarrow> (Inl e, s)
     | Inr _ \<Rightarrow>
         if \<not> fs_cancel_response (ca_features (cf_capability (sn_cfg s)))
         then (Inl (rt_plain E_UNSUPPORTED), s)
         else
           (case current_response s of
              None \<Rightarrow> (Inr None, s)
            | Some r \<Rightarrow>
                (let s1 = s\<lparr>sn_cancelled := insert r (sn_cancelled s)\<rparr>
                 in case build r of
                      Inl e \<Rightarrow> (Inl e, s1)
                    | Inr ev \<Rightarrow> (Inr (Some ev), remember_client_event ev s1))))"

definition truncate_output_begin :: "dict res \<Rightarrow> session \<Rightarrow> dict res \<times> session" where
  "truncate_output_begin built s =
    (case require_active s of
       Inl e \<Rightarrow> (Inl e, s)
     | Inr _ \<Rightarrow>
         if \<not> fs_truncate_output (ca_features (cf_capability (sn_cfg s)))
         then (Inl (rt_plain E_UNSUPPORTED), s)
         else (case built of
                 Inl e \<Rightarrow> (Inl e, s)
               | Inr ev \<Rightarrow> (Inr ev, remember_client_event ev s)))"

section \<open>Context\<close>

definition validate_context :: "ustr \<Rightarrow> session \<Rightarrow> unit res" where
  "validate_context text s =
    andthen (require_active s) (\<lambda>_.
      if \<not> sn_ready s then Inl (rt_error E_BUSY ''session is not ready'')
      else if blank text \<or> 0 \<in> set text then Inl (rt_error E_INVALID_REQUEST ''invalid context text'')
      else if \<not> encodable text then Inl UnicodeErr
      else if li_tool_payload_bytes (limits_of s) < int (utf8_len text)
      then Inl (rt_error E_INVALID_REQUEST ''invalid context text'')
      else Inr ())"

definition message_digest :: "ustr \<Rightarrow> role \<Rightarrow> bool \<Rightarrow> session \<Rightarrow> ustr res" where
  \<comment> \<open>\<^verbatim>\<open>sha256(json.dumps([text, role, trigger_response]).encode()).hexdigest()\<close>\<close>
  "message_digest text r trigger s =
    andthen (dumps (cf_env (sn_cfg s)) default_style (VList [VStr text, vs (role_name r), VBool trigger]))
      (\<lambda>t. Inr (cf_sha (sn_cfg s) t))"

datatype claim = Send_message | Deduplicated

definition append_message_begin ::
    "ustr \<Rightarrow> role \<Rightarrow> bool \<Rightarrow> ustr option \<Rightarrow> session \<Rightarrow> claim res \<times> session" where
  \<comment> \<open>\<^verbatim>\<open>append_message\<close> up to the injection of the message\<close>
  "append_message_begin text r trigger key s =
    (case validate_context text s of
       Inl e \<Rightarrow> (Inl e, s)
     | Inr _ \<Rightarrow>
         if r = Role_assistant then (Inl (rt_error E_INVALID_REQUEST ''invalid message role''), s)
         else
           (case key of
              None \<Rightarrow> (Inr Send_message, s)
            | Some k \<Rightarrow>
                (case message_digest text r trigger s of
                   Inl e \<Rightarrow> (Inl e, s)
                 | Inr digest \<Rightarrow>
                     (case claim_message (sn_recovery s) (or_external_session_id (cf_request (sn_cfg s))) k
                             digest of
                        (Inl e, rs) \<Rightarrow> (Inl e, s\<lparr>sn_recovery := rs\<rparr>)
                      | (Inr (VStr prior), rs) \<Rightarrow>
                          (Inr Deduplicated, record_recovery ''recovery.message_deduplicated''
                             (s\<lparr>sn_recovery := rs, sn_context_ack := Some prior\<rparr>))
                      | (Inr _, rs) \<Rightarrow> (Inr Send_message, s\<lparr>sn_recovery := rs\<rparr>)))))"

definition inject_begin :: "dict \<Rightarrow> session \<Rightarrow> ustr res \<times> session" where
  \<comment> \<open>\<^verbatim>\<open>_inject_context\<close> up to the write: the acknowledgement is registered first\<close>
  "inject_begin ev s =
    (case require_active s of
       Inl e \<Rightarrow> (Inl e, s)
     | Inr _ \<Rightarrow>
         (case dget ev (u ''event_id'') of
            VStr i \<Rightarrow> (Inr i, remember_client_event ev (set_pending i P_waiting s))
          | _ \<Rightarrow> (Inl KeyErr, s)))"

definition drop_pending :: "ustr \<Rightarrow> session \<Rightarrow> session" where
  "drop_pending i s = s\<lparr>sn_context_pending := AList.delete i (sn_context_pending s)\<rparr>"

definition inject_sent :: "dict \<Rightarrow> ustr \<Rightarrow> send_outcome \<Rightarrow> session \<Rightarrow> unit res \<times> session" where
  \<comment> \<open>after the write: wait for the acknowledgement, or raise\<close>
  "inject_sent ev i outcome s =
    (case send_done ev outcome s of
       (Inl e, s1) \<Rightarrow> (Inl e, drop_pending i s1)
     | (Inr _, s1) \<Rightarrow> (Inr (), s1))"

datatype ack_outcome = Acked | Ack_timeout

definition inject_acked ::
    "dict \<Rightarrow> ustr \<Rightarrow> bool \<Rightarrow> ustr option \<Rightarrow> ack_outcome \<Rightarrow> session \<Rightarrow> bool res \<times> session" where
  \<comment> \<open>after the wait; \<open>Inr True\<close>: a response is to be requested next. A pending acknowledgement that is
     resolved ends the wait with its result or its exception.\<close>
  "inject_acked ev i trigger key outcome s =
    (case outcome of
       Ack_timeout \<Rightarrow>
         (let s1 = record_provider DS_PROVIDER_EVENT_APPLY_FAILED (u ''context.ack_timeout'') None
                     (Some E_TIMEOUT) None
                     (capture_failure ''context.ack_timeout''
                        (no_args\<lparr>cp_event := Some ev, cp_related := Some i\<rparr>) s);
              s2 = fail E_TIMEOUT False s1
          in (Inl (RealtimeErr E_TIMEOUT ''context acknowledgement timed out'' False None None
                    (sn_failure s2)), drop_pending i s2))
     | Acked \<Rightarrow>
         (case map_of (sn_context_pending s) i of
            Some (P_error e) \<Rightarrow> (Inl e, drop_pending i s)
          | _ \<Rightarrow>
              (case require_active s of
                 Inl e \<Rightarrow> (Inl e, drop_pending i s)
               | Inr _ \<Rightarrow>
                   (case (case (key, sn_context_ack s) of
                            (Some k, Some a) \<Rightarrow>
                              confirm_message (sn_recovery s)
                                (or_external_session_id (cf_request (sn_cfg s))) k a
                          | _ \<Rightarrow> (Inr (), sn_recovery s)) of
                      (Inl e, rs) \<Rightarrow> (Inl e, drop_pending i (s\<lparr>sn_recovery := rs\<rparr>))
                    | (Inr _, rs) \<Rightarrow>
                        if trigger \<and> dget ev (u ''type'') \<noteq> vs ''response.create''
                        then (Inr True, s\<lparr>sn_recovery := rs\<rparr>)
                        else (Inr False, drop_pending i (s\<lparr>sn_recovery := rs\<rparr>))))))"

section \<open>Tool results\<close>

datatype submit = Join_attempt | New_attempt

definition submit_tool_result :: "ustr \<Rightarrow> ustr \<Rightarrow> session \<Rightarrow> submit res \<times> session" where
  \<comment> \<open>\<^verbatim>\<open>submit_tool_result\<close> up to the wait for the attempt, which is a task of its own\<close>
  "submit_tool_result c output s =
    (case require_active s of
       Inl e \<Rightarrow> (Inl e, s)
     | Inr _ \<Rightarrow>
         if \<not> fs_tool_calling (ca_features (cf_capability (sn_cfg s)))
         then (Inl (rt_plain E_UNSUPPORTED), s)
         else if output \<noteq> [] \<and> \<not> encodable output then (Inl UnicodeErr, s)
         else if output = [] \<or> li_tool_payload_bytes (limits_of s) < int (utf8_len output)
         then (Inl (rt_error E_INVALID_REQUEST ''invalid tool output''), s)
         else
           (case map_of (sn_tools s) c of
              None \<Rightarrow> (Inl (rt_error E_INVALID_REQUEST ''unknown tool call''), s)
            | Some r \<Rightarrow>
                if tr_output r \<noteq> None \<and> tr_output r \<noteq> Some output
                then (Inl (rt_error E_INVALID_REQUEST ''tool output changed''), s)
                else if tr_attempt r = Live_attempt then (Inr Join_attempt, s)
                else (Inr New_attempt,
                  s\<lparr>sn_tools := AList.update c (r\<lparr>tr_attempt := Live_attempt\<rparr>) (sn_tools s)\<rparr>)))"

definition put_tool :: "ustr \<Rightarrow> tool_record \<Rightarrow> session \<Rightarrow> session" where
  "put_tool c r s = s\<lparr>sn_tools := AList.update c r (sn_tools s)\<rparr>"

datatype attempt_next = Write_result dict | Write_followup dict | Attempt_over

definition finish_attempt :: "ustr \<Rightarrow> session \<Rightarrow> session" where
  "finish_attempt c s =
    (case map_of (sn_tools s) c of
       None \<Rightarrow> s | Some r \<Rightarrow> put_tool c (r\<lparr>tr_attempt := Done_attempt\<rparr>) s)"

type_synonym built = "(dict \<times> unit res) res"
  \<comment> \<open>the event the adapter builds, and whether it can be encoded\<close>

definition attempt_followup :: "ustr \<Rightarrow> built \<Rightarrow> session \<Rightarrow> attempt_next res \<times> session" where
  \<comment> \<open>from \<^verbatim>\<open>if record.state is RESULT_ACKED\<close> to the next write; \<open>built\<close> is \<^verbatim>\<open>followup_response\<close>\<close>
  "attempt_followup c built s =
    (case map_of (sn_tools s) c of
       None \<Rightarrow> (Inl KeyErr, s)
     | Some r \<Rightarrow>
         if tr_state r = TS_RESULT_ACKED then
           (case built of
              Inl e \<Rightarrow> (Inl e, finish_attempt c s)
            | Inr (ev, Inl e) \<Rightarrow> (Inl e, finish_attempt c (remember_client_event ev s))
            | Inr (ev, Inr _) \<Rightarrow>
                (let s1 = put_tool c (r\<lparr>tr_followup_payload := Some ev, tr_state := TS_FOLLOWUP_REQUESTED\<rparr>)
                            (remember_client_event ev s);
                     s2 = (if c \<in> set (sn_followups s1) then s1
                           else s1\<lparr>sn_followups := sn_followups s1 @ [c]\<rparr>)
                 in (Inr (Write_followup ev), s2)))
         else if tr_state r = TS_FOLLOWUP_REQUESTED then
           (case tr_followup_payload r of
              None \<Rightarrow> (Inl RuntimeErr, finish_attempt c s)
            | Some ev \<Rightarrow> (Inr (Write_followup ev), s))
         else (Inr Attempt_over, finish_attempt c s))"

definition attempt_begin :: "ustr \<Rightarrow> ustr \<Rightarrow> built \<Rightarrow> built \<Rightarrow> session \<Rightarrow> attempt_next res \<times> session" where
  \<comment> \<open>\<^verbatim>\<open>_submit_tool_result_attempt\<close> up to its first write; \<open>result\<close> and \<open>followup\<close> are what the
     adapter builds\<close>
  "attempt_begin c output result followup s =
    (case map_of (sn_tools s) c of
       None \<Rightarrow> (Inl KeyErr, s)
     | Some r \<Rightarrow>
         if tr_state r = TS_REQUESTED then
           (case result of
              Inl e \<Rightarrow> (Inl e, finish_attempt c s)
            | Inr (ev, enc) \<Rightarrow>
                (let r1 = r\<lparr>tr_output := Some output, tr_ack := False\<rparr>;
                     s1 = put_tool c r1 (remember_client_event ev s)
                 in case enc of
                      Inl e \<Rightarrow> (Inl e, finish_attempt c s1)
                    | Inr _ \<Rightarrow>
                        (Inr (Write_result ev),
                         put_tool c (r1\<lparr>tr_result_payload := Some ev, tr_state := TS_RESULT_SENT\<rparr>) s1)))
         else if tr_state r = TS_RESULT_SENT then
           (case tr_result_payload r of
              None \<Rightarrow> (Inl RuntimeErr, finish_attempt c s)
            | Some ev \<Rightarrow> (Inr (Write_result ev), s))
         else attempt_followup c followup s)"

definition attempt_write_failed :: "dict \<Rightarrow> string \<Rightarrow> send_outcome \<Rightarrow> session \<Rightarrow> exn option \<times> session" where
  "attempt_write_failed ev msg outcome s =
    (case outcome of
       Sent \<Rightarrow> (None, s)
     | Send_timeout \<Rightarrow>
         (let fs = record_attempt_failure ev E_TIMEOUT s
          in (Some (RealtimeErr E_TIMEOUT msg True None None (Some (fst fs))), snd fs))
     | Send_error e attrs \<Rightarrow>
         (let fs = record_attempt_failure ev E_UNAVAILABLE s
          in (Some (RealtimeErr E_UNAVAILABLE msg True None None (Some (fst fs))), snd fs)))"

definition attempt_result_sent :: "ustr \<Rightarrow> dict \<Rightarrow> send_outcome \<Rightarrow> session \<Rightarrow> unit res \<times> session" where
  \<comment> \<open>after the write of the result: wait for its acknowledgement, or raise\<close>
  "attempt_result_sent c ev outcome s =
    (case attempt_write_failed ev ''tool result send is ambiguous; retry the same output'' outcome s of
       (None, s1) \<Rightarrow> (Inr (), s1)
     | (Some e, s1) \<Rightarrow> (Inl e, finish_attempt c s1))"

definition attempt_acked :: "ustr \<Rightarrow> dict \<Rightarrow> built \<Rightarrow> ack_outcome \<Rightarrow> session \<Rightarrow> attempt_next res \<times> session" where
  "attempt_acked c ev followup outcome s =
    (case outcome of
       Acked \<Rightarrow> attempt_followup c followup s
     | Ack_timeout \<Rightarrow>
         (let s1 = record_provider DS_PROVIDER_EVENT_APPLY_FAILED (u ''tool.ack_timeout'') None
                     (Some E_PROTOCOL_ERROR) None
                     (capture_failure ''tool.ack_timeout''
                       (no_args\<lparr>cp_event := Some ev,
                          cp_related := (case dget ev (u ''event_id'') of VStr i \<Rightarrow> Some i | _ \<Rightarrow> None)\<rparr>) s);
              s2 = fail E_PROTOCOL_ERROR False s1
          in (Inl (RealtimeErr E_PROTOCOL_ERROR ''ambiguous tool result acknowledgement'' False None None
                    (sn_failure s2)), finish_attempt c s2)))"

definition attempt_followup_sent :: "ustr \<Rightarrow> dict \<Rightarrow> send_outcome \<Rightarrow> session \<Rightarrow> unit res \<times> session" where
  "attempt_followup_sent c ev outcome s =
    (case attempt_write_failed ev ''followup response send is ambiguous; retry the same output'' outcome s of
       (None, s1) \<Rightarrow> (Inr (), finish_attempt c s1)
     | (Some e, s1) \<Rightarrow> (Inl e, finish_attempt c s1))"

datatype dispatch_outcome = Dispatched pyval | Dispatch_timeout | Dispatch_raised

definition dispatch_output :: "bool \<Rightarrow> dispatch_outcome \<Rightarrow> session \<Rightarrow> ustr" where
  \<comment> \<open>the output \<^verbatim>\<open>_dispatch_tool\<close> submits\<close>
  "dispatch_output invalid outcome s =
    (if invalid then u ''{\"error\":\"invalid_arguments\"}''
     else
       (case outcome of
          Dispatch_timeout \<Rightarrow> u ''{\"error\":\"tool_timeout\"}''
        | Dispatch_raised \<Rightarrow> u ''{\"error\":\"tool_failed\"}''
        | Dispatched (VStr out) \<Rightarrow>
            if out = [] then u ''{\"error\":\"invalid_tool_output\"}''
            else if \<not> encodable out then u ''{\"error\":\"tool_failed\"}''
            else if li_tool_payload_bytes (limits_of s) < int (utf8_len out)
            then u ''{\"error\":\"invalid_tool_output\"}''
            else out
        | Dispatched _ \<Rightarrow> u ''{\"error\":\"invalid_tool_output\"}''))"

section \<open>Controlled close\<close>

definition close_begin :: "ustr \<Rightarrow> session \<Rightarrow> bool res \<times> session" where
  \<comment> \<open>\<^verbatim>\<open>close\<close>: \<open>Inr True\<close> creates the closing task, \<open>Inr False\<close> joins it\<close>
  "close_begin reason s =
    (case sn_close_reason s of
       None \<Rightarrow> (Inr True, s\<lparr>sn_close_reason := Some reason\<rparr>)
     | Some r \<Rightarrow>
         if reason \<noteq> r then (Inl (rt_error E_INVALID_REQUEST ''close reason cannot change''), s)
         else (Inr False, s))"

definition controlled_close_begin ::
    "(dict \<times> ustr) res \<Rightarrow> session \<Rightarrow> (dict \<times> ustr) option res \<times> session" where
  \<comment> \<open>\<^verbatim>\<open>_controlled_close\<close> up to the write of the close frame, with the frame and its identity as the
     control codec built them, or its exception for an invalid reason, which leaves the claimed terminal
     behind. \<open>None\<close> if the terminal is owned already\<close>
  "controlled_close_begin built s =
    (if sn_owner s \<noteq> None then (Inr None, s)
     else
       (let s1 = s\<lparr>sn_closing := True, sn_owner := Some (CI_CLIENT, CD_CLEAN)\<rparr>;
            s2 = log_diag (session_diag s1 DS_CONTROLLED_CLOSE_STARTED) s1
        in case built of
             Inl e \<Rightarrow> (Inl e, s2)
           | Inr (ev, i) \<Rightarrow>
               (Inr (Some (ev, i)),
                (remember_client_event ev s2)\<lparr>sn_pending_close_id := Some i, sn_close_ack := Ack_waiting\<rparr>)))"

definition record_close_timeout :: "session \<Rightarrow> session" where
  "record_close_timeout s =
    (let s1 = capture_failure ''close.ack_timeout''
                (no_args\<lparr>cp_event := Some [(u ''type'', vs ''tokenseller.session.close'')],
                   cp_related := sn_pending_close_id s\<rparr>) s;
         s2 = s1\<lparr>sn_ack_timeouts := sn_ack_timeouts s1 + 1\<rparr>
     in log_diag ((session_diag s2 DS_CONTROLLED_CLOSE_TIMEOUT)\<lparr>dg_stable_code := Some E_TIMEOUT,
          dg_frame_count := int (sn_ack_timeouts s2)\<rparr>) s2)"

definition controlled_close_sent :: "dict \<Rightarrow> ustr \<Rightarrow> send_outcome \<Rightarrow> session \<Rightarrow> bool \<times> session" where
  \<comment> \<open>after the write; \<open>True\<close>: wait for the acknowledgement\<close>
  "controlled_close_sent ev event_id outcome s =
    (case outcome of
       Sent \<Rightarrow> (True, s)
     | _ \<Rightarrow> (False, record_close_timeout (capture_failure ''provider.send''
              (no_args\<lparr>cp_event := Some ev, cp_related := Some event_id\<rparr>) s)))"

definition cancel_current_response :: "session \<Rightarrow> session" where
  "cancel_current_response s =
    (case current_response s of
       None \<Rightarrow> s
     | Some r \<Rightarrow>
         (let s1 = emit_terminal_safe (ResponseFinished r RS_CANCELLED None True) s
          in s1\<lparr>sn_terminal_responses := insert r (sn_terminal_responses s1)\<rparr>))"

datatype close_wait = Not_waited | Wait_timeout | Wait_over

definition controlled_close_end :: "ustr \<Rightarrow> close_wait \<Rightarrow> session \<Rightarrow> session" where
  \<comment> \<open>from the end of the wait for the acknowledgement to the shutdown; nothing is waited for when
     the close frame could not be written\<close>
  "controlled_close_end reason wait s =
    (let s0 = (if wait = Wait_timeout then record_close_timeout s else s);
         ack = (case sn_close_ack s0 of Ack_received c \<Rightarrow> if wait = Wait_over then Some c else None
                | _ \<Rightarrow> None);
         s1 = (if sn_close_ack s0 = Ack_waiting then s0\<lparr>sn_close_ack := Ack_cancelled\<rparr> else s0);
         s2 = cancel_current_response s1;
         c = (case ack of
                Some a \<Rightarrow> a\<lparr>sc_reason := reason\<rparr>
              | None \<Rightarrow> closed_event reason CI_CLIENT CD_CLEAN);
         c' = c\<lparr>sc_failure := sn_failure s2\<rparr>;
         s3 = record_terminal (sc_disposition c') None (emit_terminal_safe (SessionClosed c') s2);
         s4 = log_diag ((session_diag s3 DS_CONTROLLED_CLOSE_COMPLETED)
                \<lparr>dg_close_class := Some (sc_disposition c')\<rparr>) s3
     in shutdown_connection (s4\<lparr>sn_published := True\<rparr>))"

end
