(* ===== verification/Session_Frames.thy ===== *)
theory Session_Frames
  imports Session_Ops Recovery_System
begin

text \<open>
  Which part of the session an operation leaves alone. The state is read through six views: the
  responses and their contents, the tools, the output queue, the terminal, the input accounting and
  the configuration. An invariant is a predicate on a view, so that an operation that keeps the view
  keeps the invariant by rewriting.
\<close>

section \<open>Views\<close>

definition resp_view where
  "resp_view s = (sn_responses s, sn_response_order s, sn_terminal_responses s, sn_cancelled s,
     sn_items s, sn_call_items s, sn_completed_items s, sn_contents s, sn_completed_contents s)"

definition tool_view where
  "tool_view s = (sn_tools s, sn_followups s)"

definition queue_view where
  "queue_view s = (sn_events s, sn_queued_frames s, sn_queued_bytes s, sn_sequence_started s)"

definition life_view where
  "life_view s = (sn_owner s, sn_published s, sn_shutdown s, sn_closing s)"

definition input_view where
  "input_view s = (sn_input_pending_frames s, sn_input_pending_bytes s)"

definition failure_view where
  "failure_view s = (sn_failure s, sn_last_type s, sn_last_fields s, sn_sent_types s, sn_pending_close_id s)"

lemmas view_defs = resp_view_def tool_view_def queue_view_def life_view_def input_view_def

section \<open>Operations that touch no view\<close>

lemma log_diag_views [simp]:
  "resp_view (log_diag d s) = resp_view s" "tool_view (log_diag d s) = tool_view s"
  "queue_view (log_diag d s) = queue_view s" "life_view (log_diag d s) = life_view s"
  "input_view (log_diag d s) = input_view s" "failure_view (log_diag d s) = failure_view s"
  "sn_cfg (log_diag d s) = sn_cfg s" "sn_recovery (log_diag d s) = sn_recovery s"
  by (simp_all add: log_diag_def view_defs failure_view_def)

lemma record_provider_views [simp]:
  "resp_view (record_provider a b c d e s) = resp_view s" "tool_view (record_provider a b c d e s) = tool_view s"
  "queue_view (record_provider a b c d e s) = queue_view s" "life_view (record_provider a b c d e s) = life_view s"
  "input_view (record_provider a b c d e s) = input_view s"
  "failure_view (record_provider a b c d e s) = failure_view s"
  "sn_cfg (record_provider a b c d e s) = sn_cfg s"
  "sn_recovery (record_provider a b c d e s) = sn_recovery s"
  by (simp_all add: record_provider_def)

lemma record_recovery_views [simp]:
  "resp_view (record_recovery k s) = resp_view s" "tool_view (record_recovery k s) = tool_view s"
  "queue_view (record_recovery k s) = queue_view s" "life_view (record_recovery k s) = life_view s"
  "input_view (record_recovery k s) = input_view s" "failure_view (record_recovery k s) = failure_view s"
  "sn_cfg (record_recovery k s) = sn_cfg s" "sn_recovery (record_recovery k s) = sn_recovery s"
  by (simp_all add: record_recovery_def)

lemma record_terminal_views [simp]:
  "resp_view (record_terminal a b s) = resp_view s" "tool_view (record_terminal a b s) = tool_view s"
  "queue_view (record_terminal a b s) = queue_view s" "life_view (record_terminal a b s) = life_view s"
  "input_view (record_terminal a b s) = input_view s" "failure_view (record_terminal a b s) = failure_view s"
  "sn_cfg (record_terminal a b s) = sn_cfg s" "sn_recovery (record_terminal a b s) = sn_recovery s"
  by (simp_all add: record_terminal_def)

lemma capture_failure_views [simp]:
  "resp_view (capture_failure st a s) = resp_view s" "tool_view (capture_failure st a s) = tool_view s"
  "queue_view (capture_failure st a s) = queue_view s" "life_view (capture_failure st a s) = life_view s"
  "input_view (capture_failure st a s) = input_view s"
  "sn_cfg (capture_failure st a s) = sn_cfg s" "sn_recovery (capture_failure st a s) = sn_recovery s"
  by (simp_all add: capture_failure_def view_defs split: option.split)

lemma remember_client_event_views [simp]:
  "resp_view (remember_client_event ev s) = resp_view s" "tool_view (remember_client_event ev s) = tool_view s"
  "queue_view (remember_client_event ev s) = queue_view s" "life_view (remember_client_event ev s) = life_view s"
  "input_view (remember_client_event ev s) = input_view s"
  "sn_cfg (remember_client_event ev s) = sn_cfg s"
  "sn_recovery (remember_client_event ev s) = sn_recovery s"
  by (simp_all add: remember_client_event_def view_defs split: pyval.split)

lemma record_attempt_failure_views [simp]:
  "resp_view (snd (record_attempt_failure ev c s)) = resp_view s"
  "tool_view (snd (record_attempt_failure ev c s)) = tool_view s"
  "queue_view (snd (record_attempt_failure ev c s)) = queue_view s"
  "life_view (snd (record_attempt_failure ev c s)) = life_view s"
  "input_view (snd (record_attempt_failure ev c s)) = input_view s"
  "failure_view (snd (record_attempt_failure ev c s)) = failure_view s"
  "sn_cfg (snd (record_attempt_failure ev c s)) = sn_cfg s"
  "sn_recovery (snd (record_attempt_failure ev c s)) = sn_recovery s"
  by (simp_all add: record_attempt_failure_def Let_def)

lemma record_close_timeout_views [simp]:
  "resp_view (record_close_timeout s) = resp_view s" "tool_view (record_close_timeout s) = tool_view s"
  "queue_view (record_close_timeout s) = queue_view s" "life_view (record_close_timeout s) = life_view s"
  "input_view (record_close_timeout s) = input_view s"
  "sn_cfg (record_close_timeout s) = sn_cfg s" "sn_recovery (record_close_timeout s) = sn_recovery s"
proof -
  have count: "resp_view (s\<lparr>sn_ack_timeouts := n\<rparr>) = resp_view s"
    "tool_view (s\<lparr>sn_ack_timeouts := n\<rparr>) = tool_view s" "queue_view (s\<lparr>sn_ack_timeouts := n\<rparr>) = queue_view s"
    "life_view (s\<lparr>sn_ack_timeouts := n\<rparr>) = life_view s" "input_view (s\<lparr>sn_ack_timeouts := n\<rparr>) = input_view s"
    for n and s :: session
    by (simp_all add: view_defs)
  show "resp_view (record_close_timeout s) = resp_view s" "tool_view (record_close_timeout s) = tool_view s"
    "queue_view (record_close_timeout s) = queue_view s" "life_view (record_close_timeout s) = life_view s"
    "input_view (record_close_timeout s) = input_view s"
    "sn_cfg (record_close_timeout s) = sn_cfg s" "sn_recovery (record_close_timeout s) = sn_recovery s"
    by (simp_all add: record_close_timeout_def Let_def count)
qed

lemma set_pending_views [simp]:
  "resp_view (set_pending i p s) = resp_view s" "tool_view (set_pending i p s) = tool_view s"
  "queue_view (set_pending i p s) = queue_view s" "life_view (set_pending i p s) = life_view s"
  "input_view (set_pending i p s) = input_view s" "failure_view (set_pending i p s) = failure_view s"
  "sn_cfg (set_pending i p s) = sn_cfg s" "sn_recovery (set_pending i p s) = sn_recovery s"
  by (simp_all add: set_pending_def view_defs failure_view_def)

lemma drop_pending_views [simp]:
  "resp_view (drop_pending i s) = resp_view s" "tool_view (drop_pending i s) = tool_view s"
  "queue_view (drop_pending i s) = queue_view s" "life_view (drop_pending i s) = life_view s"
  "input_view (drop_pending i s) = input_view s" "failure_view (drop_pending i s) = failure_view s"
  "sn_cfg (drop_pending i s) = sn_cfg s" "sn_recovery (drop_pending i s) = sn_recovery s"
  by (simp_all add: drop_pending_def view_defs failure_view_def)

lemma put_logical_views [simp]:
  "resp_view (put_logical l s) = resp_view s" "tool_view (put_logical l s) = tool_view s"
  "queue_view (put_logical l s) = queue_view s" "life_view (put_logical l s) = life_view s"
  "input_view (put_logical l s) = input_view s" "failure_view (put_logical l s) = failure_view s"
  "sn_cfg (put_logical l s) = sn_cfg s"
  by (simp_all add: put_logical_def view_defs failure_view_def)

lemma counter_views [simp]:
  fixes s :: session
  shows "resp_view (s\<lparr>sn_late := n\<rparr>) = resp_view s" "tool_view (s\<lparr>sn_late := n\<rparr>) = tool_view s"
  "queue_view (s\<lparr>sn_late := n\<rparr>) = queue_view s" "life_view (s\<lparr>sn_late := n\<rparr>) = life_view s"
  "input_view (s\<lparr>sn_late := n\<rparr>) = input_view s" "failure_view (s\<lparr>sn_late := n\<rparr>) = failure_view s"
  "resp_view (s\<lparr>sn_duplicates := n\<rparr>) = resp_view s" "tool_view (s\<lparr>sn_duplicates := n\<rparr>) = tool_view s"
  "queue_view (s\<lparr>sn_duplicates := n\<rparr>) = queue_view s" "life_view (s\<lparr>sn_duplicates := n\<rparr>) = life_view s"
  "input_view (s\<lparr>sn_duplicates := n\<rparr>) = input_view s" "failure_view (s\<lparr>sn_duplicates := n\<rparr>) = failure_view s"
  "resp_view (s\<lparr>sn_ack_mismatches := n\<rparr>) = resp_view s" "tool_view (s\<lparr>sn_ack_mismatches := n\<rparr>) = tool_view s"
  "queue_view (s\<lparr>sn_ack_mismatches := n\<rparr>) = queue_view s" "life_view (s\<lparr>sn_ack_mismatches := n\<rparr>) = life_view s"
  "input_view (s\<lparr>sn_ack_mismatches := n\<rparr>) = input_view s"
  "failure_view (s\<lparr>sn_ack_mismatches := n\<rparr>) = failure_view s"
  by (simp_all add: view_defs failure_view_def)

lemma bookkeeping_views [simp]:
  fixes s :: session
  shows "resp_view (s\<lparr>sn_recovery := r\<rparr>) = resp_view s" "tool_view (s\<lparr>sn_recovery := r\<rparr>) = tool_view s"
  "queue_view (s\<lparr>sn_recovery := r\<rparr>) = queue_view s" "life_view (s\<lparr>sn_recovery := r\<rparr>) = life_view s"
  "input_view (s\<lparr>sn_recovery := r\<rparr>) = input_view s"
  "resp_view (s\<lparr>sn_current := b\<rparr>) = resp_view s" "tool_view (s\<lparr>sn_current := b\<rparr>) = tool_view s"
  "queue_view (s\<lparr>sn_current := b\<rparr>) = queue_view s" "life_view (s\<lparr>sn_current := b\<rparr>) = life_view s"
  "input_view (s\<lparr>sn_current := b\<rparr>) = input_view s"
  "resp_view (s\<lparr>sn_context_ack := a\<rparr>) = resp_view s" "tool_view (s\<lparr>sn_context_ack := a\<rparr>) = tool_view s"
  "queue_view (s\<lparr>sn_context_ack := a\<rparr>) = queue_view s" "life_view (s\<lparr>sn_context_ack := a\<rparr>) = life_view s"
  "input_view (s\<lparr>sn_context_ack := a\<rparr>) = input_view s"
  "resp_view (s\<lparr>sn_ready := b\<rparr>) = resp_view s" "tool_view (s\<lparr>sn_ready := b\<rparr>) = tool_view s"
  "queue_view (s\<lparr>sn_ready := b\<rparr>) = queue_view s" "life_view (s\<lparr>sn_ready := b\<rparr>) = life_view s"
  "input_view (s\<lparr>sn_ready := b\<rparr>) = input_view s"
  "resp_view (s\<lparr>sn_first_transcript := b\<rparr>) = resp_view s" "tool_view (s\<lparr>sn_first_transcript := b\<rparr>) = tool_view s"
  "queue_view (s\<lparr>sn_first_transcript := b\<rparr>) = queue_view s" "life_view (s\<lparr>sn_first_transcript := b\<rparr>) = life_view s"
  "input_view (s\<lparr>sn_first_transcript := b\<rparr>) = input_view s"
  "resp_view (s\<lparr>sn_tool_tasks := ts\<rparr>) = resp_view s" "tool_view (s\<lparr>sn_tool_tasks := ts\<rparr>) = tool_view s"
  "queue_view (s\<lparr>sn_tool_tasks := ts\<rparr>) = queue_view s" "life_view (s\<lparr>sn_tool_tasks := ts\<rparr>) = life_view s"
  "input_view (s\<lparr>sn_tool_tasks := ts\<rparr>) = input_view s"
  by (simp_all add: view_defs)

lemma bookkeeping_views2 [simp]:
  fixes s :: session
  shows "resp_view (s\<lparr>sn_seen_events := x\<rparr>) = resp_view s" "tool_view (s\<lparr>sn_seen_events := x\<rparr>) = tool_view s"
  "queue_view (s\<lparr>sn_seen_events := x\<rparr>) = queue_view s" "life_view (s\<lparr>sn_seen_events := x\<rparr>) = life_view s"
  "input_view (s\<lparr>sn_seen_events := x\<rparr>) = input_view s"
  "resp_view (s\<lparr>sn_terminal_code := c\<rparr>) = resp_view s" "tool_view (s\<lparr>sn_terminal_code := c\<rparr>) = tool_view s"
  "queue_view (s\<lparr>sn_terminal_code := c\<rparr>) = queue_view s" "life_view (s\<lparr>sn_terminal_code := c\<rparr>) = life_view s"
  "input_view (s\<lparr>sn_terminal_code := c\<rparr>) = input_view s"
  "resp_view (s\<lparr>sn_close_ack := a\<rparr>) = resp_view s" "tool_view (s\<lparr>sn_close_ack := a\<rparr>) = tool_view s"
  "queue_view (s\<lparr>sn_close_ack := a\<rparr>) = queue_view s" "life_view (s\<lparr>sn_close_ack := a\<rparr>) = life_view s"
  "input_view (s\<lparr>sn_close_ack := a\<rparr>) = input_view s"
  "resp_view (s\<lparr>sn_close_reason := q\<rparr>) = resp_view s" "tool_view (s\<lparr>sn_close_reason := q\<rparr>) = tool_view s"
  "queue_view (s\<lparr>sn_close_reason := q\<rparr>) = queue_view s" "life_view (s\<lparr>sn_close_reason := q\<rparr>) = life_view s"
  "input_view (s\<lparr>sn_close_reason := q\<rparr>) = input_view s"
  "resp_view (s\<lparr>sn_diagnostic_kinds := x\<rparr>) = resp_view s" "tool_view (s\<lparr>sn_diagnostic_kinds := x\<rparr>) = tool_view s"
  "queue_view (s\<lparr>sn_diagnostic_kinds := x\<rparr>) = queue_view s"
  "life_view (s\<lparr>sn_diagnostic_kinds := x\<rparr>) = life_view s"
  "input_view (s\<lparr>sn_diagnostic_kinds := x\<rparr>) = input_view s"
  by (simp_all add: view_defs)

lemma failure_field_views [simp]:
  fixes s :: session
  shows "resp_view (s\<lparr>sn_last_fields := fs\<rparr>) = resp_view s" "tool_view (s\<lparr>sn_last_fields := fs\<rparr>) = tool_view s"
  "queue_view (s\<lparr>sn_last_fields := fs\<rparr>) = queue_view s" "life_view (s\<lparr>sn_last_fields := fs\<rparr>) = life_view s"
  "input_view (s\<lparr>sn_last_fields := fs\<rparr>) = input_view s"
  "failure_view (s\<lparr>sn_terminal_code := c\<rparr>) = failure_view s" "failure_view (s\<lparr>sn_recovery := r\<rparr>) = failure_view s"
  "failure_view (s\<lparr>sn_current := b\<rparr>) = failure_view s" "failure_view (s\<lparr>sn_context_ack := ca\<rparr>) = failure_view s"
  "failure_view (s\<lparr>sn_ready := b\<rparr>) = failure_view s" "failure_view (s\<lparr>sn_first_transcript := b\<rparr>) = failure_view s"
  "failure_view (s\<lparr>sn_tool_tasks := ts\<rparr>) = failure_view s" "failure_view (s\<lparr>sn_seen_events := x\<rparr>) = failure_view s"
  "failure_view (s\<lparr>sn_close_ack := a\<rparr>) = failure_view s" "failure_view (s\<lparr>sn_close_reason := q\<rparr>) = failure_view s"
  "failure_view (s\<lparr>sn_diagnostic_kinds := x\<rparr>) = failure_view s"
  "resp_view (s\<lparr>sn_last_type := t\<rparr>) = resp_view s"
  "tool_view (s\<lparr>sn_last_type := t\<rparr>) = tool_view s"
  "queue_view (s\<lparr>sn_last_type := t\<rparr>) = queue_view s"
  "life_view (s\<lparr>sn_last_type := t\<rparr>) = life_view s"
  "input_view (s\<lparr>sn_last_type := t\<rparr>) = input_view s"
  "resp_view (s\<lparr>sn_pending_close_id := i\<rparr>) = resp_view s"
  "tool_view (s\<lparr>sn_pending_close_id := i\<rparr>) = tool_view s"
  "queue_view (s\<lparr>sn_pending_close_id := i\<rparr>) = queue_view s"
  "life_view (s\<lparr>sn_pending_close_id := i\<rparr>) = life_view s"
  "input_view (s\<lparr>sn_pending_close_id := i\<rparr>) = input_view s"
  by (simp_all add: view_defs failure_view_def)

section \<open>Operations that touch one view\<close>

lemma enqueue_views [simp]:
  "resp_view (enqueue e s) = resp_view s" "tool_view (enqueue e s) = tool_view s"
  "life_view (enqueue e s) = life_view s" "input_view (enqueue e s) = input_view s"
  "failure_view (enqueue e s) = failure_view s"
  "sn_cfg (enqueue e s) = sn_cfg s" "sn_recovery (enqueue e s) = sn_recovery s"
  by (simp_all add: enqueue_def view_defs failure_view_def)

lemma emit_terminal_safe_views [simp]:
  "resp_view (emit_terminal_safe e s) = resp_view s" "tool_view (emit_terminal_safe e s) = tool_view s"
  "life_view (emit_terminal_safe e s) = life_view s" "input_view (emit_terminal_safe e s) = input_view s"
  "failure_view (emit_terminal_safe e s) = failure_view s"
  "sn_cfg (emit_terminal_safe e s) = sn_cfg s" "sn_recovery (emit_terminal_safe e s) = sn_recovery s"
  by (simp_all add: emit_terminal_safe_def enqueue_def view_defs failure_view_def)

lemma shutdown_views [simp]:
  "resp_view (shutdown_connection s) = resp_view s" "tool_view (shutdown_connection s) = tool_view s"
  "queue_view (shutdown_connection s) = queue_view s" "input_view (shutdown_connection s) = input_view s"
  "failure_view (shutdown_connection s) = failure_view s"
  "sn_cfg (shutdown_connection s) = sn_cfg s" "sn_recovery (shutdown_connection s) = sn_recovery s"
  by (simp_all add: shutdown_connection_def view_defs failure_view_def)

lemma life_update_views [simp]:
  fixes s :: session
  shows "resp_view (s\<lparr>sn_published := b\<rparr>) = resp_view s" "tool_view (s\<lparr>sn_published := b\<rparr>) = tool_view s"
  "queue_view (s\<lparr>sn_published := b\<rparr>) = queue_view s" "input_view (s\<lparr>sn_published := b\<rparr>) = input_view s"
  "failure_view (s\<lparr>sn_published := b\<rparr>) = failure_view s"
  "resp_view (s\<lparr>sn_owner := x\<rparr>) = resp_view s"
  "tool_view (s\<lparr>sn_owner := x\<rparr>) = tool_view s"
  "queue_view (s\<lparr>sn_owner := x\<rparr>) = queue_view s"
  "input_view (s\<lparr>sn_owner := x\<rparr>) = input_view s"
  "failure_view (s\<lparr>sn_owner := x\<rparr>) = failure_view s"
  "resp_view (s\<lparr>sn_closing := b\<rparr>) = resp_view s"
  "tool_view (s\<lparr>sn_closing := b\<rparr>) = tool_view s"
  "queue_view (s\<lparr>sn_closing := b\<rparr>) = queue_view s"
  "input_view (s\<lparr>sn_closing := b\<rparr>) = input_view s"
  "failure_view (s\<lparr>sn_closing := b\<rparr>) = failure_view s"
  by (simp_all add: view_defs failure_view_def)

lemma finish_terminal_views [simp]:
  "resp_view (finish_terminal e i d s) = resp_view s" "tool_view (finish_terminal e i d s) = tool_view s"
  "input_view (finish_terminal e i d s) = input_view s"
  "sn_cfg (finish_terminal e i d s) = sn_cfg s" "sn_recovery (finish_terminal e i d s) = sn_recovery s"
  by (simp_all add: finish_terminal_def Let_def)

lemma fail_views [simp]:
  "resp_view (fail c b s) = resp_view s" "tool_view (fail c b s) = tool_view s"
  "input_view (fail c b s) = input_view s"
  "sn_cfg (fail c b s) = sn_cfg s" "sn_recovery (fail c b s) = sn_recovery s"
  by (simp_all add: fail_def)

lemma count_output_views [simp]:
  "resp_view (count_output_audio e s) = resp_view s" "tool_view (count_output_audio e s) = tool_view s"
  "queue_view (count_output_audio e s) = queue_view s" "life_view (count_output_audio e s) = life_view s"
  "input_view (count_output_audio e s) = input_view s" "failure_view (count_output_audio e s) = failure_view s"
  "sn_cfg (count_output_audio e s) = sn_cfg s" "sn_recovery (count_output_audio e s) = sn_recovery s"
proof -
  have c: "resp_view (s\<lparr>sn_output_frames := a, sn_output_bytes := b\<rparr>) = resp_view s"
    "tool_view (s\<lparr>sn_output_frames := a, sn_output_bytes := b\<rparr>) = tool_view s"
    "queue_view (s\<lparr>sn_output_frames := a, sn_output_bytes := b\<rparr>) = queue_view s"
    "life_view (s\<lparr>sn_output_frames := a, sn_output_bytes := b\<rparr>) = life_view s"
    "input_view (s\<lparr>sn_output_frames := a, sn_output_bytes := b\<rparr>) = input_view s"
    "failure_view (s\<lparr>sn_output_frames := a, sn_output_bytes := b\<rparr>) = failure_view s"
    for a b by (simp_all add: view_defs failure_view_def)
  show "resp_view (count_output_audio e s) = resp_view s" "tool_view (count_output_audio e s) = tool_view s"
    "queue_view (count_output_audio e s) = queue_view s" "life_view (count_output_audio e s) = life_view s"
    "input_view (count_output_audio e s) = input_view s" "failure_view (count_output_audio e s) = failure_view s"
    "sn_cfg (count_output_audio e s) = sn_cfg s" "sn_recovery (count_output_audio e s) = sn_recovery s"
    by (cases e; simp add: count_output_audio_def Let_def c)+
qed

end
