(* ===== verification/Session_Laws.thy ===== *)
theory Session_Laws
  imports Session_Frames
begin

text \<open>
  What an invariant of the session has to be checked against. The locale \<open>session_invariant\<close> lists the
  changes of state the session makes, each under the condition the code has established when it makes
  it; inside it the invariant is shown to survive every operation, once for all invariants.
\<close>

section \<open>What the ports guarantee\<close>

definition client_event_ok :: "dict \<Rightarrow> bool" where
  \<comment> \<open>an event built by the adapter or the control codec has a printable identity, if any\<close>
  "client_event_ok ev \<longleftrightarrow> (case dget ev (u ''event_id'') of VStr i \<Rightarrow> printable_id i | _ \<Rightarrow> True)"

definition control_event_ok :: "rt_event \<Rightarrow> bool" where
  \<comment> \<open>the control codec builds these three events, and validates what they carry\<close>
  "control_event_ok e \<longleftrightarrow>
     (case e of
        SessionFailed x \<Rightarrow> opt_ok printable_id (sf_related_event_id x)
          \<and> opt_ok stable_metadata (sf_message_class x)
          \<and> opt_ok (\<lambda>n. 0 \<le> n \<and> n \<le> 3600000) (sf_retry_after_ms x)
      | SessionClosed c \<Rightarrow> opt_ok printable_id (sc_related_event_id c)
      | SessionExpiring n \<Rightarrow> True
      | _ \<Rightarrow> False)"

definition decoded_ok :: "decoded_event \<Rightarrow> bool" where
  \<comment> \<open>an adapter reports a failed session, never a closed one\<close>
  "decoded_ok d \<longleftrightarrow> list_all (\<lambda>e. case e of SessionClosed _ \<Rightarrow> False | _ \<Rightarrow> True) (de_events d)"

definition incoming_ok :: "incoming \<Rightarrow> bool" where
  "incoming_ok i \<longleftrightarrow>
     (case i of
        Recv_text p control adapter \<Rightarrow>
          (\<forall>e. control = Inr (Some e) \<longrightarrow> control_event_ok e) \<and> (\<forall>d. adapter = Inr d \<longrightarrow> decoded_ok d)
      | _ \<Rightarrow> True)"

definition built_ok :: "built \<Rightarrow> bool" where
  "built_ok b \<longleftrightarrow> (case b of Inr (ev, _) \<Rightarrow> client_event_ok ev | Inl _ \<Rightarrow> True)"

definition args_ok :: "capture_args \<Rightarrow> bool" where
  "args_ok a \<longleftrightarrow>
     opt_ok printable_id (cp_related a)
     \<and> opt_ok (\<lambda>t. t = [] \<or> stable_metadata t) (cp_client_type a)
     \<and> opt_ok stable_metadata (cp_message_class a)
     \<and> opt_ok (\<lambda>n. 0 \<le> n \<and> n \<le> 3600000) (cp_retry_after a)"

lemma args_ok_simps [simp]:
  "args_ok no_args" "args_ok (a\<lparr>cp_event := e\<rparr>) = args_ok a" "args_ok (a\<lparr>cp_error := x\<rparr>) = args_ok a"
  by (simp_all add: args_ok_def no_args_def)

lemma stage_names [simp]:
  "stable_metadata (u ''adapter.apply'')" "stable_metadata (u ''adapter.decode'')"
  "stable_metadata (u ''close.ack_timeout'')" "stable_metadata (u ''context.ack_timeout'')"
  "stable_metadata (u ''control.closed'')" "stable_metadata (u ''control.decode'')"
  "stable_metadata (u ''control.terminal'')" "stable_metadata (u ''provider.receive'')"
  "stable_metadata (u ''provider.send'')" "stable_metadata (u ''tool.ack_timeout'')"
  by code_simp+

definition sent_ok :: "session \<Rightarrow> bool" where
  "sent_ok s \<longleftrightarrow> (\<forall>i t. map_of (sn_sent_types s) i = Some t \<longrightarrow> printable_id i \<and> stable_metadata t)"

section \<open>Control flow\<close>

fun flow_all :: "(session \<Rightarrow> bool) \<Rightarrow> flow \<Rightarrow> bool" where
  "flow_all P (Go s) = P s"
| "flow_all P (Stop b s) = P s"
| "flow_all P (Raise e s) = P s"

lemma flow_all_then:
  "flow_all P f \<Longrightarrow> (\<And>s. f = Go s \<Longrightarrow> P s \<Longrightarrow> flow_all P (g s)) \<Longrightarrow> flow_all P (flow_then f g)"
  by (cases f) auto

lemma flow_all_bind:
  "flow_all Q f \<Longrightarrow> (\<And>s. Q s \<Longrightarrow> P s) \<Longrightarrow> (\<And>s. Q s \<Longrightarrow> flow_all P (g s)) \<Longrightarrow> flow_all P (flow_then f g)"
  by (cases f) auto

lemma flow_all_mono: "flow_all P f \<Longrightarrow> (\<And>s. P s \<Longrightarrow> Q s) \<Longrightarrow> flow_all Q f"
  by (cases f) auto

section \<open>Tool records and the queue\<close>

lemma put_tool_views [simp]:
  "resp_view (put_tool c r s) = resp_view s" "queue_view (put_tool c r s) = queue_view s"
  "life_view (put_tool c r s) = life_view s" "input_view (put_tool c r s) = input_view s"
  "failure_view (put_tool c r s) = failure_view s" "sn_cfg (put_tool c r s) = sn_cfg s"
  "sn_recovery (put_tool c r s) = sn_recovery s"
  by (simp_all add: put_tool_def view_defs failure_view_def)

lemma register_views [simp]:
  "resp_view (register_tool_call c s) = resp_view s"
  "tool_view (register_tool_call c s) = tool_view (put_tool c requested_tool s)"
  "queue_view (register_tool_call c s) = queue_view s" "life_view (register_tool_call c s) = life_view s"
  "input_view (register_tool_call c s) = input_view s"
  "failure_view (register_tool_call c s) = failure_view s" "sn_cfg (register_tool_call c s) = sn_cfg s"
  by (simp_all add: register_tool_call_def Let_def put_tool_def [symmetric])

lemma enqueue_cong:
  "queue_view s = queue_view t \<Longrightarrow> sn_cfg s = sn_cfg t \<Longrightarrow>
   queue_view (enqueue e s) = queue_view (enqueue e t) \<and> tool_view (enqueue e s) = tool_view s"
  by (simp add: enqueue_def queue_view_def tool_view_def size_of_def)

lemma room_cong:
  "queue_view s = queue_view t \<Longrightarrow> sn_cfg s = sn_cfg t \<Longrightarrow> queue_has_room e s = queue_has_room e t"
  by (simp add: queue_has_room_def queue_view_def size_of_def limits_of_def)

section \<open>The laws\<close>

definition tool_change :: "tool_record \<Rightarrow> tool_record \<Rightarrow> bool" where
  \<comment> \<open>the changes of a tool record other than the request of a response\<close>
  "tool_change r r' \<longleftrightarrow>
     tr_state r' = tr_state r \<and> tr_result_payload r' = tr_result_payload r
       \<and> tr_followup_payload r' = tr_followup_payload r
       \<and> (tr_output r' = tr_output r \<or> tr_state r = TS_REQUESTED \<and> tr_output r' \<noteq> None)
     \<or> tr_state r = TS_REQUESTED \<and> tr_state r' = TS_RESULT_SENT \<and> tr_output r' \<noteq> None
       \<and> tr_result_payload r' \<noteq> None \<and> tr_followup_payload r' = tr_followup_payload r
     \<or> tr_state r = TS_RESULT_SENT \<and> tr_state r' = TS_RESULT_ACKED \<and> tr_output r' = tr_output r
       \<and> tr_result_payload r' = tr_result_payload r \<and> tr_followup_payload r' = tr_followup_payload r"

definition plain_event :: "rt_event \<Rightarrow> session \<Rightarrow> bool" where
  \<comment> \<open>an event that is neither terminal, nor the end of a response, nor a tool call; output is for an
     introduced and open content of a response that is neither finished nor being cancelled\<close>
  "plain_event e s \<longleftrightarrow>
     (case e of
        SessionClosed _ \<Rightarrow> False | SessionFailed _ \<Rightarrow> False | ResponseFinished _ _ _ _ \<Rightarrow> False
      | ToolCallRequested _ _ _ _ _ \<Rightarrow> False
      | _ \<Rightarrow>
          (case output_place_of e of
             None \<Rightarrow> True
           | Some place \<Rightarrow>
               place \<in> sn_contents s \<and> place \<notin> sn_completed_contents s
               \<and> fst place \<in> sn_responses s - sn_terminal_responses s - sn_cancelled s))"

lemma plain_not_terminal: "plain_event e s \<Longrightarrow> \<not> is_terminal e"
  by (cases e) (simp_all add: plain_event_def)

locale session_steps =
  fixes P :: "session \<Rightarrow> bool"
  assumes P_same: "resp_view s = resp_view t \<Longrightarrow> tool_view s = tool_view t \<Longrightarrow>
      queue_view s = queue_view t \<Longrightarrow> life_view s = life_view t \<Longrightarrow> failure_view s = failure_view t \<Longrightarrow>
      input_view s = input_view t \<Longrightarrow> sn_cfg s = sn_cfg t \<Longrightarrow> P s \<Longrightarrow> P t"
    and P_capture: "P s \<Longrightarrow> args_ok a \<Longrightarrow> stable_metadata (u stage) \<Longrightarrow> P (capture_failure stage a s)"
    and P_remember: "P s \<Longrightarrow> client_event_ok ev \<Longrightarrow> P (remember_client_event ev s)"
    and P_last: "P s \<Longrightarrow> payload_fields env payload = Inr (ty, fs) \<Longrightarrow>
      P (s\<lparr>sn_last_type := ty, sn_last_fields := fs\<rparr>)"
    and P_set_close_id: "P s \<Longrightarrow> printable_id i \<Longrightarrow> P (s\<lparr>sn_pending_close_id := Some i\<rparr>)"
    and P_enqueue: "P s \<Longrightarrow> queue_has_room e s \<Longrightarrow> plain_event e s \<Longrightarrow> P (enqueue e s)"
    and P_emit_tool: "P s \<Longrightarrow> map_of (sn_tools s) c = None \<Longrightarrow> r \<in> live_responses s \<Longrightarrow>
      queue_has_room (ToolCallRequested r c nm args g) s \<Longrightarrow>
      P (enqueue (ToolCallRequested r c nm args g) (put_tool c requested_tool s))"
    and P_emit_finished: "P s \<Longrightarrow> r \<in> live_responses s \<Longrightarrow>
      queue_has_room (ResponseFinished r st us loc) s \<Longrightarrow>
      P (enqueue (ResponseFinished r st us loc)
           (s\<lparr>sn_terminal_responses := insert r (sn_terminal_responses s)\<rparr>))"
    and P_safe_finished: "P s \<Longrightarrow> r \<in> live_responses s \<Longrightarrow>
      P (emit_terminal_safe (ResponseFinished r st us loc)
           (s\<lparr>sn_terminal_responses := insert r (sn_terminal_responses s)\<rparr>))"
    and P_finish: "P s \<Longrightarrow> sn_owner s = None \<Longrightarrow> is_terminal e \<Longrightarrow> P (finish_terminal e ini disp s)"
    and P_claim_close: "P s \<Longrightarrow> sn_owner s = None \<Longrightarrow>
      P (s\<lparr>sn_closing := True, sn_owner := Some (CI_CLIENT, CD_CLEAN)\<rparr>)"
    and P_response: "P s \<Longrightarrow> r \<notin> sn_responses s \<Longrightarrow> card (live_responses s) < 2 \<Longrightarrow>
      live_responses s \<subseteq> sn_cancelled s \<Longrightarrow>
      P (s\<lparr>sn_responses := insert r (sn_responses s), sn_response_order := sn_response_order s @ [r]\<rparr>)"
    and P_start_followup: "P s \<Longrightarrow> P (start_followup s)"
    and P_item: "P s \<Longrightarrow> fst ri \<in> sn_responses s \<Longrightarrow> P (s\<lparr>sn_items := insert ri (sn_items s)\<rparr>)"
    and P_call_item: "P s \<Longrightarrow> (r, i) \<in> sn_items s \<Longrightarrow>
      P (s\<lparr>sn_call_items := insert (r, i, oi) (sn_call_items s)\<rparr>)"
    and P_content: "P s \<Longrightarrow> (r, i) \<in> sn_items s \<Longrightarrow>
      P (s\<lparr>sn_contents := insert (r, i, oi, ci) (sn_contents s)\<rparr>)"
    and P_completions: "P s \<Longrightarrow> set_option (de_completed_content d) \<subseteq> sn_contents s \<Longrightarrow>
      set_option (de_completed_item d) \<subseteq> sn_items s \<Longrightarrow> P (add_completions d s)"
    and P_terminal_response: "P s \<Longrightarrow> r \<in> sn_responses s \<Longrightarrow>
      P (s\<lparr>sn_terminal_responses := insert r (sn_terminal_responses s)\<rparr>)"
    and P_cancel: "P s \<Longrightarrow> r \<in> sn_responses s \<Longrightarrow> P (s\<lparr>sn_cancelled := insert r (sn_cancelled s)\<rparr>)"
    and P_new_tool: "P s \<Longrightarrow> map_of (sn_tools s) c = None \<Longrightarrow> P (put_tool c requested_tool s)"
    and P_tool: "P s \<Longrightarrow> map_of (sn_tools s) c = Some tr \<Longrightarrow> tool_change tr tr2 \<Longrightarrow> P (put_tool c tr2 s)"
    and P_followup: "P s \<Longrightarrow> map_of (sn_tools s) c = Some tr \<Longrightarrow> tr_state tr = TS_RESULT_ACKED \<Longrightarrow>
      tr_followup_payload tr2 \<noteq> None \<Longrightarrow> tr_state tr2 = TS_FOLLOWUP_REQUESTED \<Longrightarrow>
      tr_output tr2 = tr_output tr \<Longrightarrow> tr_result_payload tr2 = tr_result_payload tr \<Longrightarrow>
      P ((put_tool c tr2 s)\<lparr>sn_followups :=
            (if c \<in> set (sn_followups s) then sn_followups s else sn_followups s @ [c])\<rparr>)"

lemma session_steps_conj:
  assumes P: "session_steps P" and Q: "session_steps Q"
  shows "session_steps (\<lambda>s. P s \<and> Q s)"
proof -
  note laws =
    session_steps.P_capture [OF P] session_steps.P_capture [OF Q]
    session_steps.P_remember [OF P] session_steps.P_remember [OF Q]
    session_steps.P_last [OF P] session_steps.P_last [OF Q]
    session_steps.P_set_close_id [OF P] session_steps.P_set_close_id [OF Q]
    session_steps.P_enqueue [OF P] session_steps.P_enqueue [OF Q]
    session_steps.P_emit_tool [OF P] session_steps.P_emit_tool [OF Q]
    session_steps.P_emit_finished [OF P] session_steps.P_emit_finished [OF Q]
    session_steps.P_safe_finished [OF P] session_steps.P_safe_finished [OF Q]
    session_steps.P_finish [OF P] session_steps.P_finish [OF Q]
    session_steps.P_claim_close [OF P] session_steps.P_claim_close [OF Q]
    session_steps.P_response [OF P] session_steps.P_response [OF Q]
    session_steps.P_start_followup [OF P] session_steps.P_start_followup [OF Q]
    session_steps.P_item [OF P] session_steps.P_item [OF Q]
    session_steps.P_call_item [OF P] session_steps.P_call_item [OF Q]
    session_steps.P_content [OF P] session_steps.P_content [OF Q]
    session_steps.P_completions [OF P] session_steps.P_completions [OF Q]
    session_steps.P_terminal_response [OF P] session_steps.P_terminal_response [OF Q]
    session_steps.P_cancel [OF P] session_steps.P_cancel [OF Q]
    session_steps.P_new_tool [OF P] session_steps.P_new_tool [OF Q]
    session_steps.P_tool [OF P] session_steps.P_tool [OF Q]
    session_steps.P_followup [OF P] session_steps.P_followup [OF Q]
  show ?thesis
  proof unfold_locales
  show "P t \<and> Q t" if "resp_view s = resp_view t" "tool_view s = tool_view t" "queue_view s = queue_view t"
    "life_view s = life_view t" "failure_view s = failure_view t" "input_view s = input_view t"
    "sn_cfg s = sn_cfg t" "P s \<and> Q s" for s t
    using that session_steps.P_same [OF P, of s t] session_steps.P_same [OF Q, of s t] by blast
  qed (blast intro: laws)+
qed

locale session_laws = session_steps +
  assumes P_publish: "P s \<Longrightarrow> sn_owner s \<noteq> None \<Longrightarrow> \<not> sn_published s \<Longrightarrow>
      P (shutdown_connection ((emit_terminal_safe (SessionClosed cl) s)\<lparr>sn_published := True\<rparr>))"

lemma session_laws_conj:
  assumes P: "session_laws P" and Q: "session_laws Q"
  shows "session_laws (\<lambda>s. P s \<and> Q s)"
  using session_steps_conj [of P Q] P Q
  by (simp add: session_laws_def session_laws_axioms_def)

locale session_context = session_steps +
  assumes P_sent: "P s \<Longrightarrow> sent_ok s"
    and P_close_id: "P s \<Longrightarrow> opt_ok printable_id (sn_pending_close_id s)"
    and P_order: "P s \<Longrightarrow> set (sn_response_order s) \<subseteq> sn_responses s"
begin

lemma P_log [simp]: "P (log_diag d s) = P s"
  by (rule iffI; erule P_same [rotated -1]; simp)

lemma P_record [simp]: "P (record_provider a b c d e s) = P s" "P (record_recovery k s) = P s"
  "P (record_terminal disp code s) = P s"
  by (simp_all add: record_provider_def record_recovery_def record_terminal_def)

lemma P_attempt_failure [simp]: "P (snd (record_attempt_failure ev c s)) = P s"
  by (simp add: record_attempt_failure_def Let_def)

lemma P_fields [simp]:
  "P (s\<lparr>sn_late := n\<rparr>) = P s" "P (s\<lparr>sn_duplicates := n\<rparr>) = P s" "P (s\<lparr>sn_ack_mismatches := n\<rparr>) = P s"
  "P (s\<lparr>sn_recovery := rs\<rparr>) = P s" "P (s\<lparr>sn_current := b\<rparr>) = P s" "P (s\<lparr>sn_context_ack := ca\<rparr>) = P s"
  "P (s\<lparr>sn_ready := b\<rparr>) = P s" "P (s\<lparr>sn_first_transcript := b\<rparr>) = P s" "P (s\<lparr>sn_tool_tasks := ts\<rparr>) = P s"
  "P (s\<lparr>sn_seen_events := x\<rparr>) = P s" "P (s\<lparr>sn_close_ack := a\<rparr>) = P s" "P (s\<lparr>sn_close_reason := q\<rparr>) = P s"
  "P (s\<lparr>sn_diagnostic_kinds := x\<rparr>) = P s" "P (put_logical l s) = P s" "P (set_pending i p s) = P s"
  "P (drop_pending i s) = P s"
  by (rule iffI; erule P_same [rotated -1]; simp)+

lemma P_inputs [simp]:
  "P (s\<lparr>sn_input_frames := a\<rparr>) = P s" "P (s\<lparr>sn_input_bytes := a\<rparr>) = P s" "P (s\<lparr>sn_ack_timeouts := k\<rparr>) = P s"
  by (rule iffI; erule P_same [rotated -1]; simp add: view_defs failure_view_def)+

lemma P_count_output [simp]: "P (count_output_audio e s) = P s"
  by (rule iffI; erule P_same [rotated -1]; simp)

lemma P_owned: "P s \<Longrightarrow> is_terminal e \<Longrightarrow> P (finish_terminal e ini disp s)"
proof (cases "sn_owner s = None")
  case True
  then show "P s \<Longrightarrow> is_terminal e \<Longrightarrow> ?thesis" by (rule P_finish [rotated])
next
  case False
  then show "P s \<Longrightarrow> is_terminal e \<Longrightarrow> ?thesis" by (simp add: finish_terminal_def)
qed

lemma P_fail: "P s \<Longrightarrow> P (fail c b s)"
  unfolding fail_def by (rule P_owned) simp_all

lemma P_protocol: "P s \<Longrightarrow> flow_all P (protocol_failure s)"
  by (simp add: protocol_failure_def P_fail)

lemma P_emit: "P s \<Longrightarrow> plain_event e s \<Longrightarrow> flow_all P (emit_or_fail e s)"
  by (auto simp: emit_or_fail_def emit_event_def intro: P_enqueue P_fail)

subsection \<open>Decoded events\<close>

lemma P_notices: "P s \<Longrightarrow> P (apply_notices d s)"
  by (simp add: apply_notices_def Let_def split: option.split)

lemma P_rejection: "P s \<Longrightarrow> flow_all P (apply_rejection d s)"
  by (simp add: apply_rejection_def Let_def split: option.split)

lemma P_context: "P s \<Longrightarrow> P (apply_context d s)"
  by (simp add: apply_context_def Let_def split: option.split pending.split)

lemma P_ready: "P s \<Longrightarrow> flow_all P (apply_ready d s)"
  unfolding apply_ready_def by (auto intro!: flow_all_then P_emit P_protocol simp: plain_event_def)

lemma P_acknowledged: "P s \<Longrightarrow> flow_all P (apply_acknowledged d s)"
  by (simp add: apply_acknowledged_def)

lemma P_apply_response: "P s \<Longrightarrow> flow_all P (apply_response d s)"
  unfolding apply_response_def
  by (auto intro!: P_protocol P_start_followup P_response simp: not_le split: option.split)

lemma P_apply_item: "P s \<Longrightarrow> flow_all P (apply_item d s)"
proof -
  assume s: "P s"
  have "P (s\<lparr>sn_items := insert (r, i) (sn_items s), sn_call_items := insert (r, i, oi) (sn_call_items s)\<rparr>)"
    if "r \<in> sn_responses s" for r i oi
    using P_call_item [OF P_item [OF s, of "(r, i)"], of r i oi] that by simp
  then show ?thesis
    using s unfolding apply_item_def Let_def
    by (auto intro!: P_protocol P_item split: option.split)
qed

lemma P_apply_content: "P s \<Longrightarrow> flow_all P (apply_content d s)"
  unfolding apply_content_def by (auto intro!: P_protocol P_content split: option.split)

lemma P_tool_ack: "P s \<Longrightarrow> flow_all P (apply_tool_ack d s)"
proof -
  assume s: "P s"
  have ack: "P (put_tool c (r\<lparr>tr_state := TS_RESULT_ACKED, tr_ack := True\<rparr>) s)"
    if "map_of (sn_tools s) c = Some r" "tr_state r = TS_RESULT_SENT" for c r
    by (rule P_tool [OF s that(1)]) (simp add: tool_change_def that(2))
  show ?thesis
    using s ack unfolding apply_tool_ack_def put_tool_def
    by (auto intro!: P_protocol split: option.split)
qed

lemma P_check_completions: "P s \<Longrightarrow> flow_all P (check_completions d s)"
  unfolding check_completions_def by (auto intro!: P_protocol split: option.split)

lemma P_transcript: "P s \<Longrightarrow> flow_all P (apply_transcript t x s)"
  unfolding apply_transcript_def Let_def by (auto intro!: P_emit simp: plain_event_def split: option.split)

lemma P_register_tool_call:
  "P s \<Longrightarrow> map_of (sn_tools s) c = None \<Longrightarrow> P (register_tool_call c s)"
  using P_new_tool [of s c] by (simp add: register_tool_call_def Let_def put_tool_def)

lemma P_emit_call:
  assumes s: "P s" and c: "map_of (sn_tools s) c = None" and r: "r \<in> live_responses s"
    and t: "t = register_tool_call c s \<or> t = (register_tool_call c s)\<lparr>sn_tool_tasks := ts\<rparr>"
  shows "flow_all P (emit_or_fail (ToolCallRequested r c nm args g) t)"
proof -
  have keep: "P t"
    using t P_register_tool_call [OF s c] by auto
  have "P (enqueue (ToolCallRequested r c nm args g) t)" if room: "queue_has_room (ToolCallRequested r c nm args g) t"
  proof -
    have q: "queue_view t = queue_view s" "sn_cfg t = sn_cfg s"
      using t by auto
    have put: "queue_view (put_tool c requested_tool s) = queue_view s"
      "sn_cfg (put_tool c requested_tool s) = sn_cfg s" "resp_view (put_tool c requested_tool s) = resp_view s"
      "life_view (put_tool c requested_tool s) = life_view s"
      "failure_view (put_tool c requested_tool s) = failure_view s"
      "input_view (put_tool c requested_tool s) = input_view s"
      by (simp_all add: put_tool_def view_defs failure_view_def)
    have "P (enqueue (ToolCallRequested r c nm args g) (put_tool c requested_tool s))"
      using P_emit_tool [OF s c r] room room_cong [OF q] by simp
    then show ?thesis
      by (rule P_same [rotated -1])
         (use t put enqueue_cong [of t "put_tool c requested_tool s"] in auto)
  qed
  then show ?thesis
    using keep by (auto simp: emit_or_fail_def emit_event_def intro: P_fail)
qed

lemma P_tool_call: "P s \<Longrightarrow> flow_all P (apply_tool_call d r c n a g s)"
proof (cases "invalid_tool_arguments n a (register_tool_call c s)")
  case (Inl e)
  assume "P s"
  then show ?thesis
    unfolding apply_tool_call_def Let_def
    by (auto intro!: P_protocol P_register_tool_call simp: Inl split: option.split)
next
  case (Inr invalid)
  assume s: "P s"
  have emit: "flow_all P (emit_or_fail (ToolCallRequested r c n a g') (register_tool_call c s))"
    "flow_all P (emit_or_fail (ToolCallRequested r c n a g') ((register_tool_call c s)\<lparr>sn_tool_tasks := ts\<rparr>))"
    if "map_of (sn_tools s) c = None" "r \<in> sn_responses s" "r \<notin> sn_terminal_responses s" for g' ts
    by (rule P_emit_call [OF s, where ts = ts]; use that in \<open>simp add: live_responses_def\<close>)+
  show ?thesis
  proof (cases "de_tool_call_identity d")
    case (Some w)
    obtain r' i oi c' where w: "w = (r', i, oi, c')"
      by (cases w)
    show ?thesis
    proof (cases "map_of (sn_tools s) c")
      case None
      show ?thesis
        using emit [OF None]
        by (auto simp: apply_tool_call_def Some w None Inr Let_def P_protocol s P_register_tool_call)
    next
      case (Some tr)
      then show ?thesis
        using \<open>de_tool_call_identity d = Some w\<close> by (simp add: apply_tool_call_def w P_protocol s)
    qed
  qed (simp add: apply_tool_call_def P_protocol s)
qed

lemma P_output:
  "P s \<Longrightarrow> output_place_of e = Some place \<Longrightarrow> flow_all P (apply_output e place s)"
  unfolding apply_output_def
  by (cases e) (auto intro!: P_protocol flow_all_then P_emit simp: plain_event_def)

lemma P_finished: "P s \<Longrightarrow> flow_all P (apply_finished tb r st us loc s)"
proof -
  assume s: "P s"
  let ?t = "s\<lparr>sn_terminal_responses := insert r (sn_terminal_responses s)\<rparr>"
  have room: "queue_has_room e ?t = queue_has_room e s" for e
    by (rule room_cong) (simp_all add: queue_view_def)
  have emit: "flow_all P (emit_or_fail (ResponseFinished r st us loc) ?t)"
    if "r \<in> live_responses s" for st
  proof -
    have "r \<in> sn_responses s"
      using that by (simp add: live_responses_def)
    then show ?thesis
      using P_emit_finished [OF s that] P_terminal_response [OF s]
      by (auto simp: emit_or_fail_def emit_event_def room intro: P_fail)
  qed
  have safe: "P (emit_terminal_safe (ResponseFinished r st us loc) ?t)" if "r \<in> live_responses s" for st
    by (rule P_safe_finished [OF s that])
  show ?thesis
  proof (cases "r \<in> live_responses s")
    case True
    then show ?thesis
      using emit safe by (simp add: apply_finished_def Let_def live_responses_def)
  next
    case False
    then show ?thesis
      using s P_protocol [OF s] by (simp add: apply_finished_def Let_def live_responses_def)
  qed
qed

lemma P_event:
  "P s \<Longrightarrow> (case e of SessionClosed _ \<Rightarrow> False | _ \<Rightarrow> True) \<Longrightarrow> flow_all P (apply_event d tb e s)"
  by (cases e)
     (simp_all add: apply_event_def plain_event_def P_transcript P_tool_call P_finished P_output P_emit P_owned)

lemma P_events:
  "P s \<Longrightarrow> list_all (\<lambda>e. case e of SessionClosed _ \<Rightarrow> False | _ \<Rightarrow> True) es \<Longrightarrow>
   flow_all P (apply_events d tb es s)"
  by (induction es arbitrary: s) (auto intro!: flow_all_then P_event)

end

section \<open>What the events of a batch leave alone\<close>

definition keeps_places :: "session \<Rightarrow> session \<Rightarrow> bool" where
  "keeps_places s t \<longleftrightarrow> sn_contents t = sn_contents s \<and> sn_items t = sn_items s"

lemma keeps_places_view: "resp_view t = resp_view s \<Longrightarrow> keeps_places s t"
  by (simp add: keeps_places_def resp_view_def)

lemma keeps_places_refl [simp]: "keeps_places s s"
  by (simp add: keeps_places_def)

lemma keeps_emit: "keeps_places s t \<Longrightarrow> flow_all (keeps_places s) (emit_or_fail e t)"
  using keeps_places_view [of "enqueue e t" t] keeps_places_view [of "fail E_BUSY False t" t]
  by (auto simp: emit_or_fail_def emit_event_def keeps_places_def)

lemma keeps_protocol: "keeps_places s t \<Longrightarrow> flow_all (keeps_places s) (protocol_failure t)"
  using keeps_places_view [of "fail E_PROTOCOL_ERROR False t" t]
  by (auto simp: protocol_failure_def keeps_places_def)

lemma keeps_resp_view [simp]:
  "keeps_places s (log_diag d t) = keeps_places s t"
  "keeps_places s (record_recovery k t) = keeps_places s t"
  "keeps_places s (put_logical l t) = keeps_places s t"
  "keeps_places s (count_output_audio e t) = keeps_places s t"
  "keeps_places s (emit_terminal_safe e t) = keeps_places s t"
  "keeps_places s (finish_terminal e i d' t) = keeps_places s t"
  using keeps_places_view [of "log_diag d t" t] keeps_places_view [of "record_recovery k t" t]
    keeps_places_view [of "put_logical l t" t] keeps_places_view [of "count_output_audio e t" t]
    keeps_places_view [of "emit_terminal_safe e t" t] keeps_places_view [of "finish_terminal e i d' t" t]
  by (auto simp: keeps_places_def)

lemma keeps_fields [simp]:
  "keeps_places s (t\<lparr>sn_late := n\<rparr>) = keeps_places s t"
  "keeps_places s (t\<lparr>sn_duplicates := n\<rparr>) = keeps_places s t"
  "keeps_places s (t\<lparr>sn_first_transcript := b\<rparr>) = keeps_places s t"
  "keeps_places s (t\<lparr>sn_tool_tasks := ts\<rparr>) = keeps_places s t"
  "keeps_places s (t\<lparr>sn_tools := tls\<rparr>) = keeps_places s t"
  "keeps_places s (t\<lparr>sn_terminal_responses := x\<rparr>) = keeps_places s t"
  by (simp_all add: keeps_places_def)

lemma keeps_event: "keeps_places s t \<Longrightarrow> flow_all (keeps_places s) (apply_event d tb e t)"
  by (cases e)
     (auto simp: apply_event_def apply_transcript_def apply_tool_call_def apply_finished_def
        apply_output_def register_tool_call_def Let_def
        intro!: keeps_emit keeps_protocol flow_all_then split: option.split sum.split)

lemma keeps_events: "keeps_places s t \<Longrightarrow> flow_all (keeps_places s) (apply_events d tb es t)"
  by (induction es arbitrary: t) (auto intro!: flow_all_then keeps_event)

lemma flow_all_conj: "flow_all (\<lambda>s. P s \<and> Q s) f = (flow_all P f \<and> flow_all Q f)"
  by (cases f) auto

lemma check_completions_places:
  "check_completions d s = Go t \<Longrightarrow>
   t = s \<and> set_option (de_completed_content d) \<subseteq> sn_contents s \<and> set_option (de_completed_item d) \<subseteq> sn_items s"
  by (cases "de_completed_content d"; cases "de_completed_item d")
     (auto simp: check_completions_def protocol_failure_def split: if_splits)

lemma emit_terminal_responses [simp]:
  "sn_responses (emit_terminal_safe e s) = sn_responses s"
  "sn_terminal_responses (emit_terminal_safe e s) = sn_terminal_responses s"
  using emit_terminal_safe_views(1) [of e s] by (simp_all add: resp_view_def)

section \<open>What an incoming frame does to an invariant\<close>

lemma loop_error_state:
  "loop_state (loop_error e s) =
    (if sn_closing s then s\<lparr>sn_late := sn_late s + 1\<rparr>
     else (case e of RealtimeErr c m b f r x \<Rightarrow> fail c b s | _ \<Rightarrow> fail E_INTERNAL False s))"
  by (simp add: loop_error_def split: exn.split)

context session_context
begin

lemma P_decoded:
  assumes s: "P s" and d: "decoded_ok d"
  shows "flow_all P (apply_decoded d s)"
proof -
  have tail: "flow_all P (flow_then (apply_events d tb (de_events d) t) (\<lambda>s. Stop True (add_completions d s)))"
    if t: "P t" and places: "set_option (de_completed_content d) \<subseteq> sn_contents t"
      "set_option (de_completed_item d) \<subseteq> sn_items t" for t tb
  proof -
    have "flow_all (\<lambda>x. P x \<and> keeps_places t x) (apply_events d tb (de_events d) t)"
      using d by (simp add: flow_all_conj keeps_events P_events t decoded_ok_def)
    then show ?thesis
      by (rule flow_all_bind) (use places in \<open>auto simp: keeps_places_def intro!: P_completions\<close>)
  qed
  have checked: "flow_all P (flow_then (check_completions d t)
      (\<lambda>s. flow_then (apply_events d tb (de_events d) s) (\<lambda>s. Stop True (add_completions d s))))"
    if t: "P t" for t tb
    using check_completions_places [of d t]
    by (intro flow_all_then P_check_completions t tail) (auto simp: t)
  have stages: "flow_all P
      (flow_then (apply_rejection d (apply_notices d s)) (\<lambda>s.
       flow_then (apply_ready d (apply_context d s)) (\<lambda>s.
       flow_then (apply_acknowledged d s) (\<lambda>s.
       flow_then (apply_response d s) (\<lambda>s.
       flow_then (apply_item d s) (\<lambda>s.
       flow_then (apply_content d s) (\<lambda>s.
       flow_then (apply_tool_ack d s) (\<lambda>s.
       flow_then (check_completions d s) (\<lambda>s.
       flow_then (apply_events d (terminal_batch d) (de_events d) s) (\<lambda>s.
       Stop True (add_completions d s)))))))))))"
    by (rule checked flow_all_then P_rejection P_notices P_ready P_context P_acknowledged P_apply_response
        P_apply_item P_apply_content P_tool_ack s | assumption)+
  then show ?thesis
    using s unfolding apply_decoded_def by simp
qed

lemma P_loop_error: "P s \<Longrightarrow> P (loop_state (loop_error e s))"
  by (auto simp: loop_error_state intro: P_fail split: exn.split)

lemma P_receive_failed: "P s \<Longrightarrow> P (loop_state (receive_failed e attrs s))"
  unfolding receive_failed_def Let_def
  by (rule P_loop_error) (auto intro!: P_capture simp: args_ok_def no_args_def split: exn.split)

lemma P_receive_eof: "P s \<Longrightarrow> P (loop_state (receive_eof s))"
  unfolding receive_eof_def by (auto intro!: P_fail P_capture simp: args_ok_def no_args_def)

lemma P_note_frame: "P s \<Longrightarrow> note_frame payload s = Inr (kind, fp, t) \<Longrightarrow> P t"
  by (auto simp: note_frame_def Let_def andthen_case split: sum.splits prod.splits if_splits dest: P_last)

lemma P_control_closing: "P s \<Longrightarrow> P (loop_state (handle_control_closing e s))"
  by (simp add: handle_control_closing_def split: rt_event.split)

lemma P_sent_type: "P s \<Longrightarrow> sent_type s i = Some t \<Longrightarrow> printable_id i \<and> stable_metadata t"
  using P_sent [of s] by (auto simp: sent_type_def sent_ok_def)

lemma P_control: "P s \<Longrightarrow> control_event_ok e \<Longrightarrow> P (loop_state (handle_control e s))"
proof -
  assume s: "P s" and e: "control_event_ok e"
  have failed: "P (finish_terminal (SessionFailed x') ini disp (record_provider g k fp c pt (capture_failure ''control.terminal''
        (no_args\<lparr>cp_related := sf_related_event_id x,
           cp_client_type := (case sf_related_event_id x of None \<Rightarrow> None | Some i \<Rightarrow> sent_type s i),
           cp_control_code := sf_control_code x, cp_message_class := sf_message_class x,
           cp_retryable := Some (sf_retryable x), cp_fatal := sf_fatal x,
           cp_retry_after := sf_retry_after_ms x\<rparr>) s)))"
    if "e = SessionFailed x" for x x' ini disp g k fp c pt
    using that e P_sent_type [OF s]
    by (intro P_owned) (auto intro!: P_capture s simp: args_ok_def no_args_def control_event_ok_def opt_ok_def
        split: option.split)
  have closed: "P (finish_terminal (SessionClosed c') ini disp (capture_failure ''control.closed''
        (no_args\<lparr>cp_related := sc_related_event_id c, cp_client_type := sent_type s i\<rparr>) s))"
    if "e = SessionClosed c" for c c' ini disp i
    using that e P_sent_type [OF s, of i]
    by (intro P_owned) (auto intro!: P_capture s simp: args_ok_def no_args_def control_event_ok_def opt_ok_def
        split: option.split)
  have other: "P (loop_state (case emit_event e' s of (True, s1) \<Rightarrow> Continue s1
      | (False, s1) \<Rightarrow> Return (fail E_BUSY False s1)))" if "plain_event e' s" for e'
    using that s by (auto simp: emit_event_def intro: P_enqueue P_fail)
  show ?thesis
    using e by (cases e) (simp_all add: handle_control_def Let_def failed closed other control_event_ok_def plain_event_def)
qed

lemma P_known_reference:
  "P s \<Longrightarrow> known_client_reference payload s = Inr (related, ct) \<Longrightarrow>
   opt_ok printable_id related \<and> opt_ok (\<lambda>t. t = [] \<or> stable_metadata t) ct"
  by (auto simp: known_client_reference_def opt_ok_def split: sum.splits exn.splits pyval.splits option.splits
      dest: P_sent_type)

lemma P_control_failed: "P s \<Longrightarrow> P (loop_state (control_failed payload e s))"
  unfolding control_failed_def
  by (auto intro!: P_loop_error P_capture P_known_reference [THEN conjunct1] P_known_reference [THEN conjunct2]
      simp: args_ok_def no_args_def
      split: exn.split sum.split)

lemma P_adapter_failed: "P s \<Longrightarrow> P (loop_state (adapter_failed kind fp e s))"
  unfolding adapter_failed_def Let_def
  by (rule P_loop_error) (auto intro!: P_capture simp: args_ok_def no_args_def split: exn.split)

lemma P_handle_decoded: "P s \<Longrightarrow> decoded_ok d \<Longrightarrow> P (loop_state (handle_decoded kind fp d s))"
  using P_decoded [of "s\<lparr>sn_seen_events := insert (de_event_id d) (sn_seen_events s)\<rparr>" d]
  by (auto simp: handle_decoded_def Let_def intro!: P_loop_error split: flow.split option.split)

lemma P_receive_text:
  assumes s: "P s" and i: "incoming_ok (Recv_text payload control adapter)"
  shows "P (loop_state (receive_text payload control adapter s))"
proof (cases "\<not> is_current s \<and> \<not> sn_closing s")
  case True
  then show ?thesis
    by (simp add: receive_text_def s)
next
  case False
  note live = False
  show ?thesis
  proof (cases "note_frame payload s")
    case (Inl e)
    then show ?thesis
      using live by (simp add: receive_text_def P_loop_error s)
  next
    case (Inr n)
    then obtain kind fp t where n: "note_frame payload s = Inr (kind, fp, t)"
      by (cases n) auto
    have t: "P t"
      by (rule P_note_frame [OF s n])
    show ?thesis
      using i unfolding receive_text_def
      by (simp add: live n t incoming_ok_def P_control_failed P_control_closing P_control P_adapter_failed
          P_handle_decoded split: sum.split option.split)
  qed
qed

lemma P_receive: "P s \<Longrightarrow> incoming_ok i \<Longrightarrow> P (loop_state (receive_one i s))"
  by (cases i) (simp_all add: receive_one_def P_receive_failed P_receive_eof P_receive_text)

lemma P_send_done: "P s \<Longrightarrow> P (snd (send_done ev outcome s))"
  by (cases outcome)
     (auto simp: send_done_def Let_def args_ok_def no_args_def intro!: P_fail P_capture split: exn.split)

lemma P_start: "P s \<Longrightarrow> client_event_ok ev \<Longrightarrow> P (snd (start_session ev s))"
  by (auto simp: start_session_def Let_def intro: P_remember split: sum.split)

subsection \<open>Cancel and truncate\<close>

lemma current_response_order: "current_response s = Some r \<Longrightarrow> r \<in> set (sn_response_order s)"
  by (auto simp: current_response_def find_Some_iff rev_nth)

lemma P_current: "P s \<Longrightarrow> current_response s = Some r \<Longrightarrow> r \<in> sn_responses s"
  using P_order [of s] current_response_order by auto

lemma P_cancel_begin:
  "P s \<Longrightarrow> (\<And>r ev. build r = Inr ev \<Longrightarrow> client_event_ok ev) \<Longrightarrow> P (snd (cancel_response_begin build s))"
  by (auto simp: cancel_response_begin_def Let_def intro!: P_remember P_cancel P_current
      split: sum.split option.split)

lemma P_truncate:
  "P s \<Longrightarrow> (\<And>ev. built = Inr ev \<Longrightarrow> client_event_ok ev) \<Longrightarrow> P (snd (truncate_output_begin built s))"
  by (auto simp: truncate_output_begin_def intro!: P_remember split: sum.split)

subsection \<open>Context\<close>

lemma P_append: "P s \<Longrightarrow> P (snd (append_message_begin text r trigger key s))"
  by (auto simp: append_message_begin_def split: sum.split option.split prod.split pyval.split)

lemma P_inject_begin: "P s \<Longrightarrow> client_event_ok ev \<Longrightarrow> P (snd (inject_begin ev s))"
  by (auto simp: inject_begin_def intro!: P_remember split: sum.split pyval.split)

lemma P_inject_sent: "P s \<Longrightarrow> P (snd (inject_sent ev i outcome s))"
  using P_send_done [of s ev outcome] by (auto simp: inject_sent_def split: sum.split prod.split)

lemma P_inject_timeout:
  "P s \<Longrightarrow> printable_id i \<Longrightarrow> P (snd (inject_acked ev i trigger key Ack_timeout s))"
  by (auto simp: inject_acked_def Let_def args_ok_def no_args_def intro!: P_fail P_capture)

lemma P_inject_acked:
  assumes s: "P s" and i: "printable_id i"
  shows "P (snd (inject_acked ev i trigger key outcome s))"
proof (cases outcome)
  case Acked
  have confirm: "P (snd (case confirmed of (Inl e, rs) \<Rightarrow> (Inl e, drop_pending i (s\<lparr>sn_recovery := rs\<rparr>))
      | (Inr _, rs) \<Rightarrow> if more then (Inr True, s\<lparr>sn_recovery := rs\<rparr>)
                      else (Inr False, drop_pending i (s\<lparr>sn_recovery := rs\<rparr>))))"
    for confirmed more
    by (simp add: s split: prod.split sum.split)
  show ?thesis
    by (simp add: inject_acked_def Acked s confirm split: option.split pending.split sum.split
        del: not_None_eq)
qed (simp add: P_inject_timeout s i)

subsection \<open>Tool results\<close>

lemma P_tool_same:
  "P s \<Longrightarrow> map_of (sn_tools s) c = Some r \<Longrightarrow> tr_state r' = tr_state r \<Longrightarrow>
   tr_result_payload r' = tr_result_payload r \<Longrightarrow> tr_followup_payload r' = tr_followup_payload r \<Longrightarrow>
   tr_output r' = tr_output r \<Longrightarrow> P (put_tool c r' s)"
  by (rule P_tool, assumption, assumption) (auto simp: tool_change_def)

lemma P_submit: "P s \<Longrightarrow> P (snd (submit_tool_result c out s))"
  using P_tool_same [of s c _ "the (map_of (sn_tools s) c)\<lparr>tr_attempt := Live_attempt\<rparr>"]
  by (auto simp: submit_tool_result_def put_tool_def [symmetric] split: sum.split option.split)

lemma P_finish_attempt: "P s \<Longrightarrow> P (finish_attempt c s)"
  by (auto simp: finish_attempt_def intro: P_tool_same split: option.split)

lemma P_request_followup:
  assumes s: "P s" and c: "map_of (sn_tools s) c = Some r" and st: "tr_state r = TS_RESULT_ACKED"
  shows "P (let s1 = put_tool c (r\<lparr>tr_followup_payload := Some ev, tr_state := TS_FOLLOWUP_REQUESTED\<rparr>) s
            in if c \<in> set (sn_followups s1) then s1 else s1\<lparr>sn_followups := sn_followups s1 @ [c]\<rparr>)"
  using P_followup [OF s c st, of "r\<lparr>tr_followup_payload := Some ev, tr_state := TS_FOLLOWUP_REQUESTED\<rparr>"]
  by (auto simp: put_tool_def Let_def split: if_splits)

lemma remember_tools [simp]:
  "sn_tools (remember_client_event ev s) = sn_tools s"
  "sn_followups (remember_client_event ev s) = sn_followups s"
  by (simp_all add: remember_client_event_def split: pyval.split)

lemma P_attempt_followup:
  assumes s: "P s" and b: "built_ok built"
  shows "P (snd (attempt_followup c built s))"
proof (cases "map_of (sn_tools s) c")
  case None
  then show ?thesis
    by (simp add: attempt_followup_def s)
next
  case (Some r)
  have rem: "P (remember_client_event ev s)" if "built = Inr (ev, x)" for ev x
    using P_remember [OF s] b that by (simp add: built_ok_def)
  have req: "P (let s1 = put_tool c (r\<lparr>tr_followup_payload := Some ev', tr_state := TS_FOLLOWUP_REQUESTED\<rparr>)
                  (remember_client_event ev s)
                in if c \<in> set (sn_followups s1) then s1 else s1\<lparr>sn_followups := sn_followups s1 @ [c]\<rparr>)"
    if "built = Inr (ev, x)" "tr_state r = TS_RESULT_ACKED" for ev ev' x
    by (rule P_request_followup [OF rem [OF that(1)]]) (simp_all add: Some that)
  have built: "P (snd (attempt_followup c built s))" if st: "tr_state r = TS_RESULT_ACKED"
  proof (cases built)
    case (Inl e)
    then show ?thesis
      by (simp add: attempt_followup_def Some st P_finish_attempt s)
  next
    case (Inr p)
    then obtain ev x where p: "built = Inr (ev, x)"
      by (cases p) auto
    show ?thesis
    proof (cases x)
      case (Inl e)
      then show ?thesis
        by (simp add: attempt_followup_def Some st p P_finish_attempt rem [OF p])
    next
      case (Inr y)
      then show ?thesis
        using req [OF p st, of ev] by (simp add: attempt_followup_def Some st p Let_def)
    qed
  qed
  show ?thesis
  proof (cases "tr_state r = TS_RESULT_ACKED")
    case False
    then show ?thesis
      using Some by (auto simp: attempt_followup_def s intro!: P_finish_attempt split: option.split)
  qed (rule built)
qed

lemma P_attempt_begin:
  assumes s: "P s" and b: "built_ok result" "built_ok followup"
  shows "P (snd (attempt_begin c out result followup s))"
proof (cases "map_of (sn_tools s) c")
  case None
  then show ?thesis
    by (simp add: attempt_begin_def s)
next
  case (Some r)
  have rem: "P (remember_client_event ev s)" if "result = Inr (ev, x)" for ev x
    using P_remember [OF s] b that by (simp add: built_ok_def)
  have prep: "P (put_tool c (r\<lparr>tr_output := Some out, tr_ack := False\<rparr>) (remember_client_event ev s))"
    if "result = Inr (ev, x)" "tr_state r = TS_REQUESTED" for ev x
    by (rule P_tool [OF rem [OF that(1)]]) (auto simp: tool_change_def Some that)
  have sent: "P (put_tool c (r\<lparr>tr_output := Some out, tr_ack := False, tr_result_payload := Some ev,
      tr_state := TS_RESULT_SENT\<rparr>)
      (put_tool c (r\<lparr>tr_output := Some out, tr_ack := False\<rparr>) (remember_client_event ev s)))"
    if "result = Inr (ev, x)" "tr_state r = TS_REQUESTED" for ev x
    by (rule P_tool [OF prep [OF that], of _ "r\<lparr>tr_output := Some out, tr_ack := False\<rparr>"])
       (auto simp: tool_change_def put_tool_def update_conv' that)
  show ?thesis
    using Some prep sent
    by (auto simp: attempt_begin_def Let_def s b intro!: P_finish_attempt P_attempt_followup
        split: sum.split option.split)
qed

lemma P_write_failed: "P s \<Longrightarrow> P (snd (attempt_write_failed ev msg outcome s))"
  by (simp add: attempt_write_failed_def Let_def split: send_outcome.split)

lemma P_result_sent: "P s \<Longrightarrow> P (snd (attempt_result_sent c ev outcome s))"
  using P_write_failed [of s ev "''tool result send is ambiguous; retry the same output''" outcome]
  by (auto simp: attempt_result_sent_def intro: P_finish_attempt split: prod.split option.split)

lemma P_followup_sent: "P s \<Longrightarrow> P (snd (attempt_followup_sent c ev outcome s))"
  using P_write_failed [of s ev "''followup response send is ambiguous; retry the same output''" outcome]
  by (auto simp: attempt_followup_sent_def intro: P_finish_attempt split: prod.split option.split)

lemma P_attempt_acked:
  "P s \<Longrightarrow> built_ok followup \<Longrightarrow> client_event_ok ev \<Longrightarrow> P (snd (attempt_acked c ev followup outcome s))"
  by (auto simp: attempt_acked_def Let_def args_ok_def no_args_def client_event_ok_def
      intro!: P_finish_attempt P_fail P_capture P_attempt_followup split: ack_outcome.split pyval.split)

subsection \<open>Close\<close>

lemma P_close_begin: "P s \<Longrightarrow> P (snd (close_begin reason s))"
  by (simp add: close_begin_def split: option.split)

lemma P_controlled_begin:
  "P s \<Longrightarrow> (\<And>ev i. built = Inr (ev, i) \<Longrightarrow> client_event_ok ev \<and> printable_id i) \<Longrightarrow>
   P (snd (controlled_close_begin built s))"
  by (cases "sn_owner s = None"; cases built)
     (auto simp: controlled_close_begin_def Let_def intro!: P_set_close_id P_remember P_claim_close)

lemma P_close_timeout: "P s \<Longrightarrow> P (record_close_timeout s)"
  using P_close_id [of s]
  by (auto simp: record_close_timeout_def Let_def args_ok_def no_args_def intro!: P_capture)

lemma P_controlled_sent:
  "P s \<Longrightarrow> printable_id i \<Longrightarrow> P (snd (controlled_close_sent ev i outcome s))"
  by (auto simp: controlled_close_sent_def args_ok_def no_args_def intro!: P_close_timeout P_capture
      split: send_outcome.split)

lemma safe_finished_commute:
  "(emit_terminal_safe e s)\<lparr>sn_terminal_responses := x\<rparr> = emit_terminal_safe e (s\<lparr>sn_terminal_responses := x\<rparr>)"
  by (simp add: emit_terminal_safe_def enqueue_def queue_has_room_def size_of_def limits_of_def)

lemma current_response_live: "P s \<Longrightarrow> current_response s = Some r \<Longrightarrow> r \<in> live_responses s"
  using P_current [of s r] by (auto simp: live_responses_def current_response_def find_Some_iff)

lemma P_cancel_current: "P s \<Longrightarrow> P (cancel_current_response s)"
proof (cases "current_response s")
  case (Some r)
  assume s: "P s"
  show ?thesis
    using P_safe_finished [OF s current_response_live [OF s Some], of RS_CANCELLED None True]
    by (simp add: cancel_current_response_def Some Let_def safe_finished_commute)
qed (simp add: cancel_current_response_def)

lemma cancel_current_life [simp]:
  "life_view (cancel_current_response s) = life_view s"
proof (cases "current_response s")
  case (Some r)
  have "life_view (s\<lparr>sn_terminal_responses := x\<rparr>) = life_view s" for s :: session and x
    by (simp add: life_view_def)
  then show ?thesis
    by (simp add: cancel_current_response_def Some Let_def)
qed (simp add: cancel_current_response_def)

lemma shut_life:
  "life_view (shutdown_connection ((log_diag d (record_terminal disp code t))\<lparr>sn_published := True\<rparr>)) =
   life_view (shutdown_connection (t\<lparr>sn_published := True\<rparr>))"
proof -
  have "life_view (log_diag d (record_terminal disp code t)) = life_view t"
    by simp
  then show ?thesis
    by (simp add: life_view_def shutdown_connection_def)
qed

end

locale session_calls = session_context +
  assumes P_pending: "P (s\<lparr>sn_input_pending_frames := n, sn_input_pending_bytes := b\<rparr>) = P s"
begin

lemma P_release [simp]: "P (release_audio pcm s) = P s"
  by (simp add: release_audio_def P_pending)

lemma P_audio_begin:
  "P s \<Longrightarrow> (\<And>ev. built = Inr ev \<Longrightarrow> client_event_ok ev) \<Longrightarrow> P (snd (send_audio_begin pcm built s))"
  by (auto simp: send_audio_begin_def Let_def P_pending intro!: P_remember split: sum.split)

lemma P_audio_end: "P s \<Longrightarrow> P (snd (send_audio_end pcm ev outcome s))"
  using P_send_done [of s ev outcome]
  by (auto simp: send_audio_end_def Let_def split: sum.split prod.split)


end

locale session_invariant = session_calls P + session_laws P for P
begin

lemma P_controlled_end:
  assumes s: "P s" and owner: "sn_owner s \<noteq> None" and unpublished: "\<not> sn_published s"
  shows "P (controlled_close_end reason wait s)"
proof -
  let ?s0 = "if wait = Wait_timeout then record_close_timeout s else s"
  let ?s1 = "if sn_close_ack ?s0 = Ack_waiting then ?s0\<lparr>sn_close_ack := Ack_cancelled\<rparr> else ?s0"
  let ?s2 = "cancel_current_response ?s1"
  have s2: "P ?s2"
    by (simp add: P_cancel_current P_close_timeout s)
  have life: "life_view ?s2 = life_view s"
    by simp
  have published: "P (shutdown_connection ((log_diag d (record_terminal disp code
      (emit_terminal_safe (SessionClosed c) ?s2)))\<lparr>sn_published := True\<rparr>))" for d disp code c
  proof -
    have "P (shutdown_connection ((emit_terminal_safe (SessionClosed c) ?s2)\<lparr>sn_published := True\<rparr>))"
      using life owner unpublished by (intro P_publish s2) (simp_all add: life_view_def)
    then show ?thesis
      by (rule P_same [rotated -1]) (simp_all add: shut_life [where d = d] del: if_split)
  qed
  show ?thesis
    unfolding controlled_close_end_def Let_def by (rule published)
qed

end

end
