(* ===== verification/Session_Responses.thy ===== *)
theory Session_Responses
  imports Session_Laws
begin

text \<open>
  The responses of the session: what has been announced, what is still live, and which item or content
  belongs to which response. The invariant is an instance of \<open>session_invariant\<close>, so that every
  operation keeps it.
\<close>

section \<open>Operations outside the responses\<close>

lemma followups_views [simp]:
  fixes s :: session
  shows "resp_view (s\<lparr>sn_followups := cs\<rparr>) = resp_view s" "queue_view (s\<lparr>sn_followups := cs\<rparr>) = queue_view s"
    "life_view (s\<lparr>sn_followups := cs\<rparr>) = life_view s" "input_view (s\<lparr>sn_followups := cs\<rparr>) = input_view s"
    "failure_view (s\<lparr>sn_followups := cs\<rparr>) = failure_view s"
  by (simp_all add: view_defs failure_view_def)

lemma start_followup_views [simp]:
  "resp_view (start_followup s) = resp_view s" "queue_view (start_followup s) = queue_view s"
  "life_view (start_followup s) = life_view s" "input_view (start_followup s) = input_view s"
  "failure_view (start_followup s) = failure_view s" "sn_cfg (start_followup s) = sn_cfg s"
  "sn_recovery (start_followup s) = sn_recovery s"
  by (simp_all add: start_followup_def set_tool_state_def view_defs failure_view_def split: list.split option.split)

section \<open>The invariant\<close>

definition response_ids_ok :: "session \<Rightarrow> bool" where
  "response_ids_ok s \<longleftrightarrow>
     finite (sn_responses s) \<and> distinct (sn_response_order s) \<and> set (sn_response_order s) = sn_responses s
     \<and> sn_terminal_responses s \<subseteq> sn_responses s \<and> sn_cancelled s \<subseteq> sn_responses s"

definition response_places_ok :: "session \<Rightarrow> bool" where
  "response_places_ok s \<longleftrightarrow>
     fst ` sn_items s \<subseteq> sn_responses s
     \<and> (\<lambda>(r, i, oi). (r, i)) ` sn_call_items s \<subseteq> sn_items s
     \<and> (\<lambda>(r, i, oi, ci). (r, i)) ` sn_contents s \<subseteq> sn_items s
     \<and> sn_completed_items s \<subseteq> sn_items s \<and> sn_completed_contents s \<subseteq> sn_contents s"

definition responses_ok :: "session \<Rightarrow> bool" where
  \<comment> \<open>at most two responses are live, and at most one of them is not being cancelled\<close>
  "responses_ok s \<longleftrightarrow>
     response_ids_ok s \<and> response_places_ok s
     \<and> card (live_responses s) \<le> 2 \<and> card (live_responses s - sn_cancelled s) \<le> 1"

lemmas responses_defs = responses_ok_def response_ids_ok_def response_places_ok_def

lemma responses_view: "resp_view t = resp_view s \<Longrightarrow> responses_ok s \<Longrightarrow> responses_ok t"
  by (simp add: responses_defs resp_view_def live_responses_def)

lemma finite_live: "responses_ok s \<Longrightarrow> finite (live_responses s)"
  by (simp add: responses_defs live_responses_def)

lemma responses_new:
  assumes s: "responses_ok s" and r: "r \<notin> sn_responses s" and two: "card (live_responses s) < 2"
    and cancelled: "live_responses s \<subseteq> sn_cancelled s"
  shows "responses_ok (s\<lparr>sn_responses := insert r (sn_responses s), sn_response_order := sn_response_order s @ [r]\<rparr>)"
    (is "responses_ok ?t")
proof -
  have live: "live_responses ?t = insert r (live_responses s)"
    using s r by (auto simp: live_responses_def responses_defs)
  have rest: "live_responses ?t - sn_cancelled ?t = {r}"
    using s r cancelled by (auto simp: live responses_defs)
  have "r \<notin> live_responses s"
    using r by (simp add: live_responses_def)
  then have "card (live_responses ?t) \<le> 2"
    using two finite_live [OF s] by (simp add: live)
  moreover have "response_ids_ok ?t" "response_places_ok ?t"
    using s r by (auto simp: responses_defs)
  ultimately show ?thesis
    using rest by (simp add: responses_ok_def)
qed

lemma responses_fewer:
  assumes s: "responses_ok s" and t: "response_ids_ok t" "response_places_ok t"
    and live: "live_responses t \<subseteq> live_responses s" and cancelled: "sn_cancelled s \<subseteq> sn_cancelled t"
  shows "responses_ok t"
proof -
  have "card (live_responses t) \<le> card (live_responses s)"
    by (rule card_mono [OF finite_live [OF s] live])
  moreover have "card (live_responses t - sn_cancelled t) \<le> card (live_responses s - sn_cancelled s)"
    by (rule card_mono) (use finite_live [OF s] live cancelled in auto)
  ultimately show ?thesis
    using s t by (simp add: responses_ok_def)
qed

lemma responses_terminal:
  "responses_ok s \<Longrightarrow> r \<in> sn_responses s \<Longrightarrow>
   responses_ok (s\<lparr>sn_terminal_responses := insert r (sn_terminal_responses s)\<rparr>)"
  by (rule responses_fewer, assumption) (auto simp: responses_defs live_responses_def)

lemma responses_cancel:
  "responses_ok s \<Longrightarrow> r \<in> sn_responses s \<Longrightarrow> responses_ok (s\<lparr>sn_cancelled := insert r (sn_cancelled s)\<rparr>)"
  by (rule responses_fewer, assumption) (auto simp: responses_defs live_responses_def)

lemma responses_places:
  assumes s: "responses_ok s"
  shows "fst ri \<in> sn_responses s \<Longrightarrow> responses_ok (s\<lparr>sn_items := insert ri (sn_items s)\<rparr>)"
    and "(r, i) \<in> sn_items s \<Longrightarrow> responses_ok (s\<lparr>sn_call_items := insert (r, i, oi) (sn_call_items s)\<rparr>)"
    and "(r, i) \<in> sn_items s \<Longrightarrow> responses_ok (s\<lparr>sn_contents := insert (r, i, oi, ci) (sn_contents s)\<rparr>)"
    and "set_option (de_completed_content d) \<subseteq> sn_contents s \<Longrightarrow>
      set_option (de_completed_item d) \<subseteq> sn_items s \<Longrightarrow> responses_ok (add_completions d s)"
  by (rule responses_fewer [OF s]; use s in \<open>auto simp: responses_defs live_responses_def add_completions_def\<close>)+

lemma live_response_known: "r \<in> live_responses s \<Longrightarrow> r \<in> sn_responses s"
  by (simp add: live_responses_def)

interpretation responses: session_laws responses_ok
  by unfold_locales
    (auto intro: responses_new responses_places responses_terminal responses_cancel
        responses_view [OF enqueue_views(1)] responses_view [OF emit_terminal_safe_views(1)]
      dest: live_response_known elim: responses_view [rotated])

end
