(* ===== verification/Session_Tools.thy ===== *)
theory Session_Tools
  imports Session_Responses
begin

text \<open>
  The tool records of the session, and what every sent identity and the retained failure context look
  like: two more instances of \<open>session_laws\<close>.
\<close>

section \<open>Tool records\<close>

definition record_ok :: "tool_record \<Rightarrow> bool" where
  \<comment> \<open>what has been written is what a retry writes again\<close>
  "record_ok r \<longleftrightarrow>
     (tr_state r \<noteq> TS_REQUESTED \<longrightarrow> tr_output r \<noteq> None \<and> tr_result_payload r \<noteq> None)
     \<and> (tr_state r \<in> {TS_FOLLOWUP_REQUESTED, TS_FOLLOWUP_STARTED} \<longrightarrow> tr_followup_payload r \<noteq> None)"

definition tools_ok :: "session \<Rightarrow> bool" where
  \<comment> \<open>the calls waiting for their response are those whose response was requested and has not started\<close>
  "tools_ok s \<longleftrightarrow>
     distinct (sn_followups s)
     \<and> (\<forall>c. c \<in> set (sn_followups s) \<longleftrightarrow>
           (\<exists>r. map_of (sn_tools s) c = Some r \<and> tr_state r = TS_FOLLOWUP_REQUESTED))
     \<and> (\<forall>c r. map_of (sn_tools s) c = Some r \<longrightarrow> record_ok r)"

lemma tools_view: "tool_view t = tool_view s \<Longrightarrow> tools_ok s \<Longrightarrow> tools_ok t"
  by (simp add: tools_ok_def tool_view_def)

lemma response_tool_views [simp]:
  fixes s :: session
  shows "tool_view (s\<lparr>sn_items := a\<rparr>) = tool_view s" "tool_view (s\<lparr>sn_call_items := b\<rparr>) = tool_view s"
    "tool_view (s\<lparr>sn_contents := c\<rparr>) = tool_view s" "tool_view (s\<lparr>sn_responses := d\<rparr>) = tool_view s"
    "tool_view (s\<lparr>sn_response_order := e\<rparr>) = tool_view s"
    "tool_view (s\<lparr>sn_terminal_responses := d\<rparr>) = tool_view s"
    "tool_view (s\<lparr>sn_cancelled := d\<rparr>) = tool_view s" "tool_view (add_completions dec s) = tool_view s"
  by (simp_all add: tool_view_def add_completions_def)

lemma map_of_put [simp]: "map_of (sn_tools (put_tool c r s)) = (map_of (sn_tools s))(c \<mapsto> r)"
  by (simp add: put_tool_def update_conv')

lemma put_followups [simp]: "sn_followups (put_tool c r s) = sn_followups s"
  by (simp add: put_tool_def)

lemma tools_put:
  assumes s: "tools_ok s" and r: "record_ok r" "tr_state r \<noteq> TS_FOLLOWUP_REQUESTED"
    and before: "\<And>r'. map_of (sn_tools s) c = Some r' \<Longrightarrow> tr_state r' \<noteq> TS_FOLLOWUP_REQUESTED"
  shows "tools_ok (put_tool c r s)"
  using s r before by (auto simp: tools_ok_def)

lemma tools_change:
  assumes s: "tools_ok s" and c: "map_of (sn_tools s) c = Some r" and ch: "tool_change r r'"
  shows "tools_ok (put_tool c r' s)"
proof -
  have r: "record_ok r"
    using s c by (simp add: tools_ok_def)
  have ok: "record_ok r'"
    using r ch by (auto simp: record_ok_def tool_change_def)
  have "tr_state r' = TS_FOLLOWUP_REQUESTED \<longleftrightarrow> tr_state r = TS_FOLLOWUP_REQUESTED"
    using ch by (auto simp: tool_change_def)
  then show ?thesis
    using s c ok by (auto simp: tools_ok_def)
qed

lemma tools_followup:
  assumes s: "tools_ok s" and c: "map_of (sn_tools s) c = Some r" and st: "tr_state r = TS_RESULT_ACKED"
    and r': "tr_followup_payload r' \<noteq> None" "tr_state r' = TS_FOLLOWUP_REQUESTED" "tr_output r' = tr_output r"
      "tr_result_payload r' = tr_result_payload r"
  shows "tools_ok ((put_tool c r' s)\<lparr>sn_followups :=
      (if c \<in> set (sn_followups s) then sn_followups s else sn_followups s @ [c])\<rparr>)"
proof -
  have "record_ok r"
    using s c by (simp add: tools_ok_def)
  then have "record_ok r'"
    using st r' by (simp add: record_ok_def)
  moreover have "c \<notin> set (sn_followups s)"
    using s c st by (auto simp: tools_ok_def)
  ultimately show ?thesis
    using s r' by (auto simp: tools_ok_def)
qed

lemma tools_start:
  assumes s: "tools_ok s" shows "tools_ok (start_followup s)"
proof (cases "sn_followups s")
  case (Cons c cs)
  obtain r where r: "map_of (sn_tools s) c = Some r" "tr_state r = TS_FOLLOWUP_REQUESTED"
    using s Cons list.set_intros(1) [of c cs] unfolding tools_ok_def by metis
  have "record_ok r"
    using s r by (simp add: tools_ok_def)
  then have "record_ok (r\<lparr>tr_state := TS_FOLLOWUP_STARTED\<rparr>)"
    using r by (simp add: record_ok_def)
  then show ?thesis
    using s Cons r by (auto simp: tools_ok_def start_followup_def set_tool_state_def update_conv')
qed (simp add: start_followup_def s)

interpretation tools: session_laws tools_ok
proof unfold_locales
  show "tools_ok ((put_tool c r' s)\<lparr>sn_followups :=
      (if c \<in> set (sn_followups s) then sn_followups s else sn_followups s @ [c])\<rparr>)"
    if "tools_ok s" "map_of (sn_tools s) c = Some r" "tr_state r = TS_RESULT_ACKED"
      "tr_followup_payload r' \<noteq> None" "tr_state r' = TS_FOLLOWUP_REQUESTED" "tr_output r' = tr_output r"
      "tr_result_payload r' = tr_result_payload r" for s c r r'
    by (rule tools_followup [OF that])
qed (auto intro: tools_change tools_start tools_put elim: tools_view [rotated]
    simp: record_ok_def requested_tool_def
    intro!: tools_view [OF enqueue_views(2)] tools_view [OF emit_terminal_safe_views(2)])

section \<open>Sent identities and the failure context\<close>

definition failures_ok :: "session \<Rightarrow> bool" where
  "failures_ok s \<longleftrightarrow>
     sent_ok s \<and> opt_ok printable_id (sn_pending_close_id s) \<and> opt_ok failure_ok (sn_failure s)
     \<and> stable_metadata (sn_last_type s) \<and> set (sn_last_fields s) \<subseteq> set SAFE_FAILURE_FIELDS
     \<and> 1 \<le> cf_generation (sn_cfg s)"

lemma failures_view:
  "failure_view t = failure_view s \<Longrightarrow> sn_cfg t = sn_cfg s \<Longrightarrow> failures_ok s \<Longrightarrow> failures_ok t"
  by (simp add: failures_ok_def failure_view_def sent_ok_def)

lemma kinds_stable [simp]: "stable_metadata unknown_kind" "stable_metadata invalid_kind"
  by code_simp+

lemma safe_fields_ok:
  "stable_metadata (fst (safe_event_fields v)) \<and> set (snd (safe_event_fields v)) \<subseteq> set SAFE_FAILURE_FIELDS"
  by (auto simp: safe_event_fields_def split: pyval.split)

lemma payload_fields_ok:
  "payload_fields env p = Inr (ty, fs) \<Longrightarrow> stable_metadata ty \<and> set fs \<subseteq> set SAFE_FAILURE_FIELDS"
  using safe_fields_ok by (auto simp: payload_fields_def andthen_case split: sum.splits option.splits)
    (metis fst_conv snd_conv subsetD)+

lemma reasons_stable: "r \<in> set FAILURE_REASONS \<Longrightarrow> stable_metadata r"
proof -
  have "list_all stable_metadata FAILURE_REASONS"
    by code_simp
  then show "r \<in> set FAILURE_REASONS \<Longrightarrow> ?thesis"
    by (simp only: list_all_iff)
qed

lemma validation_ok:
  "opt_ok (\<lambda>v. v \<in> set (SAFE_FAILURE_FIELDS @ EXTRA_VALIDATION_FIELDS)) (safe_validation_field e)"
  "opt_ok stable_metadata (safe_validation_reason e)"
proof -
  have "stable_metadata (u ''validation_failed'')"
    by code_simp
  then show "opt_ok (\<lambda>v. v \<in> set (SAFE_FAILURE_FIELDS @ EXTRA_VALIDATION_FIELDS)) (safe_validation_field e)"
    "opt_ok stable_metadata (safe_validation_reason e)"
    by (auto simp: safe_validation_field_def safe_validation_reason_def reasons_stable
        split: option.split exn.split)
qed

lemma failure_for_ok:
  assumes s: "failures_ok s" and a: "args_ok a" and stage: "stable_metadata stage"
  shows "failure_ok (failure_for stage a s)"
proof -
  have last: "stable_metadata (sn_last_type s)" "set (sn_last_fields s) \<subseteq> set SAFE_FAILURE_FIELDS"
    using s by (simp_all add: failures_ok_def)
  have sent: "printable_id i" if "sent_type s i = Some t" for i t
    using s that by (simp add: failures_ok_def sent_ok_def sent_type_def)
  have "1 \<le> cf_generation (sn_cfg s)"
    using s by (simp add: failures_ok_def)
  moreover have "stable_metadata (fc_event_type (failure_for stage a s))"
    "set (fc_field_names (failure_for stage a s)) \<subseteq> set SAFE_FAILURE_FIELDS"
    using last safe_fields_ok by (simp_all add: failure_for_def Let_def split: option.split)
  moreover have "opt_ok printable_id (fc_related_event_id (failure_for stage a s))"
    using a sent by (auto simp: failure_for_def Let_def args_ok_def split: option.split pyval.split)
  moreover have "opt_ok stable_metadata (fc_client_event_type (failure_for stage a s))"
    using a safe_fields_ok by (auto simp: failure_for_def Let_def args_ok_def split: option.split)
  ultimately show ?thesis
    using a stage validation_ok [of "cp_error a"]
    by (simp add: failure_ok_iff args_ok_def failure_for_def Let_def list_all_iff subset_iff del: set_append)
qed

lemma failures_capture:
  "failures_ok s \<Longrightarrow> args_ok a \<Longrightarrow> stable_metadata (u stage) \<Longrightarrow> failures_ok (capture_failure stage a s)"
  using failure_for_ok [of s a "u stage"]
  by (cases "sn_failure s") (simp_all add: capture_failure_def failures_ok_def sent_ok_def)

lemma failures_remember: "failures_ok s \<Longrightarrow> client_event_ok ev \<Longrightarrow> failures_ok (remember_client_event ev s)"
  using safe_fields_ok [of "VDict ev"]
  by (auto simp: remember_client_event_def failures_ok_def sent_ok_def client_event_ok_def update_conv'
      split: pyval.split)

lemma response_failure_views [simp]:
  fixes s :: session
  shows "failure_view (s\<lparr>sn_items := a\<rparr>) = failure_view s" "failure_view (s\<lparr>sn_call_items := b\<rparr>) = failure_view s"
    "failure_view (s\<lparr>sn_contents := c\<rparr>) = failure_view s" "failure_view (s\<lparr>sn_responses := d\<rparr>) = failure_view s"
    "failure_view (s\<lparr>sn_response_order := e\<rparr>) = failure_view s"
    "failure_view (s\<lparr>sn_terminal_responses := d\<rparr>) = failure_view s"
    "failure_view (s\<lparr>sn_cancelled := d\<rparr>) = failure_view s"
    "failure_view (add_completions dec s) = failure_view s" "sn_cfg (add_completions dec s) = sn_cfg s"
  by (simp_all add: failure_view_def add_completions_def)

lemma failures_finish: "failures_ok s \<Longrightarrow> failures_ok (finish_terminal e ini disp s)"
proof -
  assume s: "failures_ok s"
  let ?s1 = "s\<lparr>sn_owner := Some (ini, disp), sn_terminal_code := failed_code e\<rparr>"
  let ?s2 = "if failed_code e \<noteq> None then capture_failure ''adapter.apply'' no_args ?s1 else ?s1"
  have s1: "failures_ok ?s1"
    by (rule failures_view [OF _ _ s]) simp_all
  have s2: "failures_ok ?s2"
    using s1 failures_capture [OF s1, of no_args "''adapter.apply''"] by (cases "failed_code e") simp_all
  have "failures_ok (shutdown_connection ((record_terminal disp (failed_code e)
      (emit_terminal_safe e' ?s2))\<lparr>sn_published := True\<rparr>))" for e'
    by (rule failures_view [OF _ _ s2]) simp_all
  then show ?thesis
    using s unfolding finish_terminal_def Let_def by (cases "sn_owner s = None") simp_all
qed

interpretation failures: session_laws failures_ok
proof unfold_locales
  show "failures_ok s \<Longrightarrow> payload_fields env payload = Inr (ty, fs) \<Longrightarrow>
      failures_ok (s\<lparr>sn_last_type := ty, sn_last_fields := fs\<rparr>)" for s env payload ty fs
    using payload_fields_ok [of env payload ty fs] by (simp add: failures_ok_def sent_ok_def)
  show "failures_ok s \<Longrightarrow> printable_id i \<Longrightarrow> failures_ok (s\<lparr>sn_pending_close_id := Some i\<rparr>)" for s i
    by (simp add: failures_ok_def sent_ok_def)
qed (auto intro: failures_capture failures_remember failures_finish elim: failures_view [rotated -1])

end
