(* ===== verification/Session_Terminal.thy ===== *)
theory Session_Terminal
  imports Session_Tools
begin

text \<open>
  The output queue's accounting and the single terminal: two more instances of \<open>session_laws\<close>. The
  second one is about what the product has received so far together with what is still queued.
\<close>

section \<open>The output queue\<close>

definition queue_ok :: "session \<Rightarrow> bool" where
  "queue_ok s \<longleftrightarrow>
     sn_queued_frames s = int (length (sn_events s))
     \<and> sn_queued_bytes s = sum_list (map (size_of s) (sn_events s))
     \<and> (\<not> sn_sequence_started s \<longrightarrow>
           sn_queued_frames s \<le> li_output_queue_frames (limits_of s)
           \<and> sn_queued_bytes s \<le> li_output_queue_bytes (limits_of s))"

lemma queue_ok_view:
  "queue_view t = queue_view s \<Longrightarrow> sn_cfg t = sn_cfg s \<Longrightarrow> queue_ok s \<Longrightarrow> queue_ok t"
proof -
  assume "queue_view t = queue_view s" and cfg: "sn_cfg t = sn_cfg s" and "queue_ok s"
  moreover have "size_of t = size_of s"
    using cfg by (simp add: size_of_def fun_eq_iff)
  ultimately show "queue_ok t"
    by (auto simp: queue_ok_def queue_view_def limits_of_def)
qed

lemma size_of_simps [simp]:
  fixes s :: session
  shows "size_of (s\<lparr>sn_sequence_started := b\<rparr>) = size_of s" "size_of (s\<lparr>sn_events := es\<rparr>) = size_of s"
    "size_of (s\<lparr>sn_queued_frames := n\<rparr>) = size_of s" "size_of (s\<lparr>sn_queued_bytes := n\<rparr>) = size_of s"
    "limits_of (s\<lparr>sn_sequence_started := b\<rparr>) = limits_of s" "limits_of (s\<lparr>sn_events := es\<rparr>) = limits_of s"
    "limits_of (s\<lparr>sn_queued_frames := n\<rparr>) = limits_of s" "limits_of (s\<lparr>sn_queued_bytes := n\<rparr>) = limits_of s"
  by (simp_all add: size_of_def limits_of_def fun_eq_iff)

lemma queue_enqueue:
  "queue_ok s \<Longrightarrow> sn_sequence_started s \<or> queue_has_room e s \<Longrightarrow> queue_ok (enqueue e s)"
  by (auto simp: queue_ok_def enqueue_def queue_has_room_def)

lemma queue_safe: "queue_ok s \<Longrightarrow> queue_ok (emit_terminal_safe e s)"
  by (auto simp: queue_ok_def enqueue_def emit_terminal_safe_def)

lemma response_queue_views [simp]:
  fixes s :: session
  shows "queue_view (s\<lparr>sn_items := a\<rparr>) = queue_view s" "queue_view (s\<lparr>sn_call_items := b\<rparr>) = queue_view s"
    "queue_view (s\<lparr>sn_contents := c\<rparr>) = queue_view s" "queue_view (s\<lparr>sn_responses := d\<rparr>) = queue_view s"
    "queue_view (s\<lparr>sn_response_order := e\<rparr>) = queue_view s"
    "queue_view (s\<lparr>sn_terminal_responses := d\<rparr>) = queue_view s"
    "queue_view (s\<lparr>sn_cancelled := d\<rparr>) = queue_view s" "queue_view (add_completions dec s) = queue_view s"
  by (simp_all add: queue_view_def add_completions_def)

lemma finish_terminal_keeps:
  \<comment> \<open>a predicate that \<open>emit_terminal_safe\<close> of a terminal keeps and that does not look at the terminal's owner\<close>
  assumes view: "\<And>s t. resp_view t = resp_view s \<Longrightarrow> tool_view t = tool_view s \<Longrightarrow>
      queue_view t = queue_view s \<Longrightarrow> sn_cfg t = sn_cfg s \<Longrightarrow> Q s \<Longrightarrow> Q t"
    and safe: "\<And>s. Q s \<Longrightarrow> Q (emit_terminal_safe (with_failure (sn_failure s) e) s)" and s: "Q s"
  shows "Q (finish_terminal e ini disp s)"
proof -
  let ?s1 = "s\<lparr>sn_owner := Some (ini, disp), sn_terminal_code := failed_code e\<rparr>"
  let ?s2 = "if failed_code e \<noteq> None then capture_failure ''adapter.apply'' no_args ?s1 else ?s1"
  have "Q ?s2"
    by (rule view [OF _ _ _ _ s]) simp_all
  then have "Q (emit_terminal_safe (with_failure (sn_failure ?s2) e) ?s2)"
    by (rule safe)
  then have "Q (shutdown_connection ((record_terminal disp (failed_code e)
      (emit_terminal_safe (with_failure (sn_failure ?s2) e) ?s2))\<lparr>sn_published := True\<rparr>))"
    by (rule view [rotated -1]) simp_all
  then show ?thesis
    using s unfolding finish_terminal_def Let_def by (cases "sn_owner s = None") simp_all
qed

lemma queue_publish:
  "queue_ok s \<Longrightarrow> queue_ok (shutdown_connection ((emit_terminal_safe e s)\<lparr>sn_published := True\<rparr>))"
  by (rule queue_ok_view [OF _ _ queue_safe]) simp_all

lemma room_same [simp]:
  "queue_has_room e (put_tool c r s) = queue_has_room e s"
  "queue_has_room e (s\<lparr>sn_terminal_responses := x\<rparr>) = queue_has_room e s"
  by (rule room_cong; simp)+

lemma queue_same:
  "queue_ok s \<Longrightarrow> queue_ok (put_tool c r s)" "queue_ok s \<Longrightarrow> queue_ok (s\<lparr>sn_terminal_responses := x\<rparr>)"
  by (erule queue_ok_view [rotated -1]; simp)+

interpretation queue: session_laws queue_ok
  by unfold_locales
    (auto intro: queue_same queue_enqueue queue_safe queue_publish
        finish_terminal_keeps [where Q = queue_ok, OF queue_ok_view]
      elim: queue_ok_view [rotated -1])

section \<open>The single terminal\<close>

definition terminals :: "rt_event list \<Rightarrow> nat" where
  "terminals es = length (filter is_terminal es)"

lemma terminals_simps [simp]:
  "terminals [] = 0" "terminals (e # es) = (if is_terminal e then 1 else 0) + terminals es"
  "terminals (es @ fs) = terminals es + terminals fs"
  by (simp_all add: terminals_def)

definition life_ok :: "rt_event list \<Rightarrow> session \<Rightarrow> bool" where
  \<comment> \<open>\<open>dl\<close> is what \<^verbatim>\<open>events()\<close> has yielded so far\<close>
  "life_ok dl s \<longleftrightarrow>
     terminals (dl @ sn_events s) = (if sn_published s then 1 else 0)
     \<and> (sn_published s \<longrightarrow> sn_sequence_started s \<and> sn_owner s \<noteq> None)
     \<and> (sn_shutdown s \<longleftrightarrow> sn_published s)
     \<and> (sn_closing s \<longrightarrow> sn_owner s = Some (CI_CLIENT, CD_CLEAN))
     \<and> (sn_owner s \<noteq> None \<longrightarrow> sn_closing s \<or> sn_published s)"

lemma life_ok_view:
  "life_view t = life_view s \<Longrightarrow> queue_view t = queue_view s \<Longrightarrow> life_ok dl s \<Longrightarrow> life_ok dl t"
  by (simp add: life_ok_def life_view_def queue_view_def)

lemma response_life_views [simp]:
  fixes s :: session
  shows "life_view (s\<lparr>sn_items := a\<rparr>) = life_view s" "life_view (s\<lparr>sn_call_items := b\<rparr>) = life_view s"
    "life_view (s\<lparr>sn_contents := c\<rparr>) = life_view s" "life_view (s\<lparr>sn_responses := d\<rparr>) = life_view s"
    "life_view (s\<lparr>sn_response_order := e\<rparr>) = life_view s"
    "life_view (s\<lparr>sn_terminal_responses := d\<rparr>) = life_view s"
    "life_view (s\<lparr>sn_cancelled := d\<rparr>) = life_view s" "life_view (add_completions dec s) = life_view s"
  by (simp_all add: life_view_def add_completions_def)

lemma life_publish:
  assumes s: "life_ok dl s" and fresh: "\<not> sn_published s" and e: "is_terminal e"
    and q: "queue_view t = queue_view s" and l: "life_view t = (Some x, sn_published s, sn_shutdown s, sn_closing s)"
    and x: "sn_closing s \<longrightarrow> x = (CI_CLIENT, CD_CLEAN)"
  shows "life_ok dl (shutdown_connection ((emit_terminal_safe e t)\<lparr>sn_published := True\<rparr>))"
proof -
  have t: "sn_events t = sn_events s" "sn_owner t = Some x" "\<not> sn_shutdown t" "sn_closing t = sn_closing s"
    using s q l fresh by (auto simp: queue_view_def life_view_def life_ok_def)
  have dl: "terminals dl = 0" "terminals (sn_events s) = 0"
    using s fresh by (auto simp: life_ok_def)
  show ?thesis
    using x e dl t
    by (auto simp: life_ok_def shutdown_connection_def emit_terminal_safe_def enqueue_def)
qed

lemma terminal_with_failure [simp]: "is_terminal (with_failure f e) = is_terminal e"
  by (cases e) (simp_all add: with_failure_def)

lemma shut_record:
  "life_view (shutdown_connection ((record_terminal disp code t)\<lparr>sn_published := True\<rparr>)) =
   life_view (shutdown_connection (t\<lparr>sn_published := True\<rparr>))"
proof -
  have "life_view (record_terminal disp code t) = life_view t"
    by simp
  then show ?thesis
    by (simp add: life_view_def shutdown_connection_def)
qed

lemma life_finish:
  assumes s: "life_ok dl s" and e: "is_terminal e"
  shows "life_ok dl (finish_terminal e ini disp s)"
proof (cases "sn_owner s = None")
  case True
  let ?s1 = "s\<lparr>sn_owner := Some (ini, disp), sn_terminal_code := failed_code e\<rparr>"
  let ?s2 = "if failed_code e \<noteq> None then capture_failure ''adapter.apply'' no_args ?s1 else ?s1"
  have q: "queue_view ?s2 = queue_view s"
    by simp
  have "life_view ?s1 = (Some (ini, disp), sn_published s, sn_shutdown s, sn_closing s)"
    by (simp add: life_view_def)
  then have l: "life_view ?s2 = (Some (ini, disp), sn_published s, sn_shutdown s, sn_closing s)"
    by (cases "failed_code e") simp_all
  have fresh: "\<not> sn_published s" "\<not> sn_closing s"
    using s True by (auto simp: life_ok_def)
  have pub: "life_ok dl (shutdown_connection ((emit_terminal_safe (with_failure f e) ?s2)\<lparr>sn_published := True\<rparr>))" for f
    by (rule life_publish [OF s fresh(1) _ q l]) (simp_all add: e fresh)
  have "life_ok dl (shutdown_connection ((record_terminal disp (failed_code e)
      (emit_terminal_safe (with_failure f e) ?s2))\<lparr>sn_published := True\<rparr>))" for f
    by (rule life_ok_view [OF shut_record _ pub]) (simp del: if_split)
  then show ?thesis
    using True unfolding finish_terminal_def Let_def by simp
next
  case False
  then show ?thesis
    using s by (simp add: finish_terminal_def)
qed

lemma life_enqueue: "life_ok dl s \<Longrightarrow> \<not> is_terminal e \<Longrightarrow> life_ok dl (enqueue e s)"
  by (simp add: life_ok_def enqueue_def)

lemma life_safe: "life_ok dl s \<Longrightarrow> \<not> is_terminal e \<Longrightarrow> life_ok dl (emit_terminal_safe e s)"
  by (auto simp: life_ok_def enqueue_def emit_terminal_safe_def)

lemma life_same:
  "life_ok dl s \<Longrightarrow> life_ok dl (put_tool c r s)"
  "life_ok dl s \<Longrightarrow> life_ok dl (s\<lparr>sn_terminal_responses := x\<rparr>)"
  by (erule life_ok_view [rotated -1]; simp)+

interpretation life: session_laws "life_ok dl" for dl
proof unfold_locales
  show "life_ok dl (shutdown_connection ((emit_terminal_safe (SessionClosed cl) s)\<lparr>sn_published := True\<rparr>))"
    if "life_ok dl s" "sn_owner s \<noteq> None" "\<not> sn_published s" for s cl
    using that by (intro life_publish [of dl s _ s "the (sn_owner s)"]) (auto simp: life_view_def life_ok_def)
  show "life_ok dl (s\<lparr>sn_closing := True, sn_owner := Some (CI_CLIENT, CD_CLEAN)\<rparr>)"
    if "life_ok dl s" "sn_owner s = None" for s
    using that by (auto simp: life_ok_def)
qed (auto intro: life_same life_enqueue life_safe life_finish dest: plain_not_terminal elim: life_ok_view [rotated -1])

section \<open>What is delivered about a response\<close>

text \<open>
  The log is what \<^verbatim>\<open>events()\<close> has yielded followed by what is queued. Output and tool calls of a
  response never follow its end, the end comes at most once, and output is only for contents that
  were introduced.
\<close>

fun finishes :: "ustr \<Rightarrow> rt_event \<Rightarrow> bool" where
  "finishes r (ResponseFinished r' st us loc) = (r' = r)"
| "finishes r _ = False"

fun concerns :: "ustr \<Rightarrow> rt_event \<Rightarrow> bool" where
  \<comment> \<open>output, a tool call or the end of the response\<close>
  "concerns r (OutputText r' i oi ci x b) = (r' = r)"
| "concerns r (OutputAudioStarted r' i oi ci) = (r' = r)"
| "concerns r (OutputAudio r' i oi ci x) = (r' = r)"
| "concerns r (OutputAudioCompleted r' i oi ci) = (r' = r)"
| "concerns r (ToolCallRequested r' c n a g) = (r' = r)"
| "concerns r (ResponseFinished r' st us loc) = (r' = r)"
| "concerns r _ = False"

fun settled :: "rt_event list \<Rightarrow> bool" where
  \<comment> \<open>nothing concerns a response after its end\<close>
  "settled [] = True"
| "settled (e # es) = ((\<forall>r. finishes r e \<longrightarrow> list_all (\<lambda>x. \<not> concerns r x) es) \<and> settled es)"

fun requests :: "ustr \<Rightarrow> rt_event \<Rightarrow> bool" where
  "requests c (ToolCallRequested r c' n a g) = (c' = c)"
| "requests c _ = False"

fun calls_once :: "rt_event list \<Rightarrow> bool" where
  "calls_once [] = True"
| "calls_once (e # es) = ((\<forall>c. requests c e \<longrightarrow> list_all (\<lambda>x. \<not> requests c x) es) \<and> calls_once es)"

lemma settled_append:
  "settled (es @ fs) \<longleftrightarrow> settled es \<and> settled fs
     \<and> (\<forall>x\<in>set es. \<forall>r. finishes r x \<longrightarrow> list_all (\<lambda>y. \<not> concerns r y) fs)"
  by (induction es) auto

lemma calls_once_append:
  "calls_once (es @ fs) \<longleftrightarrow> calls_once es \<and> calls_once fs
     \<and> (\<forall>x\<in>set es. \<forall>c. requests c x \<longrightarrow> list_all (\<lambda>y. \<not> requests c y) fs)"
  by (induction es) auto

definition event_known :: "session \<Rightarrow> rt_event \<Rightarrow> bool" where
  \<comment> \<open>what the session remembers of an event it emitted\<close>
  "event_known s e \<longleftrightarrow>
     (\<forall>r. finishes r e \<longrightarrow> r \<in> sn_terminal_responses s)
     \<and> (\<forall>c. requests c e \<longrightarrow> map_of (sn_tools s) c \<noteq> None)
     \<and> (\<forall>place. output_place_of e = Some place \<longrightarrow> place \<in> sn_contents s)"

definition log_ok :: "rt_event list \<Rightarrow> session \<Rightarrow> bool" where
  "log_ok dl s \<longleftrightarrow>
     settled (dl @ sn_events s) \<and> calls_once (dl @ sn_events s)
     \<and> (\<forall>e\<in>set (dl @ sn_events s). event_known s e)"

lemma log_view:
  "resp_view t = resp_view s \<Longrightarrow> tool_view t = tool_view s \<Longrightarrow> queue_view t = queue_view s \<Longrightarrow>
   log_ok dl s \<Longrightarrow> log_ok dl t"
  by (simp add: log_ok_def event_known_def resp_view_def tool_view_def queue_view_def)

definition remembers :: "session \<Rightarrow> session \<Rightarrow> bool" where
  "remembers s t \<longleftrightarrow>
     sn_terminal_responses s \<subseteq> sn_terminal_responses t \<and> sn_contents s \<subseteq> sn_contents t
     \<and> (\<forall>c. map_of (sn_tools s) c \<noteq> None \<longrightarrow> map_of (sn_tools t) c \<noteq> None)"

lemma remembers_known: "remembers s t \<Longrightarrow> event_known s e \<Longrightarrow> event_known t e"
  unfolding remembers_def event_known_def by blast

lemma remembers_view: "resp_view t = resp_view s \<Longrightarrow> tool_view t = tool_view s \<Longrightarrow> remembers s t"
  by (simp add: remembers_def resp_view_def tool_view_def)

lemma log_grows: "log_ok dl s \<Longrightarrow> sn_events t = sn_events s \<Longrightarrow> remembers s t \<Longrightarrow> log_ok dl t"
  unfolding log_ok_def using remembers_known by (metis)

lemma log_append:
  assumes s: "log_ok dl s" and t: "remembers s t" "sn_events t = sn_events s \<or> sn_events t = []"
    and e: "\<And>r. concerns r e \<Longrightarrow> r \<notin> sn_terminal_responses s" "\<And>c. requests c e \<Longrightarrow> map_of (sn_tools s) c = None"
      "event_known t e"
  shows "log_ok dl (enqueue e t)"
proof -
  have log: "settled (dl @ sn_events t) \<and> calls_once (dl @ sn_events t) \<and> (\<forall>x\<in>set (dl @ sn_events t). event_known s x)"
    using s t(2) by (auto simp: log_ok_def settled_append calls_once_append)
  have new: "(\<forall>r. finishes r x \<longrightarrow> \<not> concerns r e) \<and> (\<forall>c. requests c x \<longrightarrow> \<not> requests c e)"
    if "x \<in> set (dl @ sn_events t)" for x
    using log e(1,2) that unfolding event_known_def by (metis option.distinct(1))
  have known: "event_known (enqueue e t) x = event_known t x" for x
    by (simp add: event_known_def enqueue_def)
  have tail: "settled [e]" "calls_once [e]"
    by simp_all
  have "settled ((dl @ sn_events t) @ [e]) \<and> calls_once ((dl @ sn_events t) @ [e])"
    using log new tail by (simp add: settled_append [of "dl @ sn_events t"] calls_once_append [of "dl @ sn_events t"] del: append_assoc)
  moreover have "\<forall>x\<in>set (dl @ sn_events t @ [e]). event_known (enqueue e t) x"
    using log e(3) remembers_known [OF t(1)] by (auto simp: known)
  moreover have "sn_events (enqueue e t) = sn_events t @ [e]"
    by (simp add: enqueue_def)
  ultimately show ?thesis
    by (simp add: log_ok_def)
qed

lemma log_safe:
  assumes s: "log_ok dl s" and t: "remembers s t" "sn_events t = sn_events s"
    and e: "\<And>r. concerns r e \<Longrightarrow> r \<notin> sn_terminal_responses s" "\<And>c. requests c e \<Longrightarrow> map_of (sn_tools s) c = None"
      "event_known t e"
  shows "log_ok dl (emit_terminal_safe e t)"
proof -
  let ?u = "t\<lparr>sn_sequence_started := True\<rparr>"
  let ?v = "t\<lparr>sn_sequence_started := True, sn_events := [], sn_queued_frames := 0, sn_queued_bytes := 0\<rparr>"
  have "log_ok dl (enqueue e t)" "log_ok dl (enqueue e ?u)" "log_ok dl (enqueue e ?v)"
    using s t e by (auto intro!: log_append [OF s] simp: remembers_def event_known_def)
  then show ?thesis
    by (simp add: emit_terminal_safe_def)
qed

lemma terminal_concerns [simp]:
  "is_terminal e \<Longrightarrow> \<not> concerns r e" "is_terminal e \<Longrightarrow> \<not> requests c e" "is_terminal e \<Longrightarrow> event_known s e"
  by (cases e; simp add: event_known_def)+

lemma log_terminal: "log_ok dl s \<Longrightarrow> is_terminal e \<Longrightarrow> log_ok dl (emit_terminal_safe e s)"
  by (rule log_safe) (simp_all add: remembers_def)

lemma log_queue_cong:
  \<comment> \<open>the log depends on the responses, the tools and the queue\<close>
  "resp_view t = resp_view s \<Longrightarrow> tool_view t = tool_view s \<Longrightarrow> sn_events t = sn_events s \<Longrightarrow> log_ok dl s \<Longrightarrow> log_ok dl t"
  by (rule log_grows, assumption, assumption, rule remembers_view)

lemma plain_concerns: "plain_event e s \<Longrightarrow> concerns r e \<Longrightarrow> r \<notin> sn_terminal_responses s"
  by (cases e) (auto simp: plain_event_def)

lemma plain_known: "plain_event e s \<Longrightarrow> event_known s e \<and> \<not> requests c e"
  by (cases e) (auto simp: plain_event_def event_known_def)

lemma log_plain: "log_ok dl s \<Longrightarrow> plain_event e s \<Longrightarrow> log_ok dl (enqueue e s)"
  using plain_concerns plain_known by (intro log_append) (auto simp: remembers_def)

lemma log_publish:
  "log_ok dl s \<Longrightarrow> is_terminal e \<Longrightarrow>
   log_ok dl (shutdown_connection ((emit_terminal_safe e s)\<lparr>sn_published := True\<rparr>))"
  by (rule log_view [OF _ _ _ log_terminal]) simp_all

lemma log_finish: "log_ok dl s \<Longrightarrow> is_terminal e \<Longrightarrow> log_ok dl (finish_terminal e ini disp s)"
  by (rule finish_terminal_keeps [where Q = "log_ok dl"]) (auto intro: log_terminal elim: log_view [rotated -1])

lemma log_tool: "log_ok dl s \<Longrightarrow> log_ok dl (put_tool c r s)"
  by (rule log_grows) (auto simp: remembers_def put_tool_def update_conv')

lemma log_finished:
  assumes s: "log_ok dl s" and r: "r \<in> live_responses s"
  defines "t \<equiv> s\<lparr>sn_terminal_responses := insert r (sn_terminal_responses s)\<rparr>"
  shows "log_ok dl (enqueue (ResponseFinished r st us loc) t)"
    and "log_ok dl (emit_terminal_safe (ResponseFinished r st us loc) t)"
proof -
  have t: "remembers s t" "sn_events t = sn_events s"
    "event_known t (ResponseFinished r st us loc)" "r \<notin> sn_terminal_responses s"
    using r by (auto simp: t_def remembers_def event_known_def live_responses_def)
  show "log_ok dl (enqueue (ResponseFinished r st us loc) t)"
    using t by (intro log_append [OF s]) auto
  show "log_ok dl (emit_terminal_safe (ResponseFinished r st us loc) t)"
    using t by (intro log_safe [OF s]) auto
qed

lemma log_tool_call:
  assumes s: "log_ok dl s" and c: "map_of (sn_tools s) c = None" and r: "r \<in> live_responses s"
  shows "log_ok dl (enqueue (ToolCallRequested r c nm args g) (put_tool c requested_tool s))"
  using r by (intro log_append [OF s])
    (auto simp: remembers_def put_tool_def update_conv' event_known_def live_responses_def c)

lemma log_start: "log_ok dl s \<Longrightarrow> log_ok dl (start_followup s)"
  by (rule log_grows, assumption)
    (auto simp: remembers_def start_followup_def set_tool_state_def update_conv' split: list.split option.split)

lemma log_responses:
  fixes s :: session
  assumes "log_ok dl s"
  shows "log_ok dl (s\<lparr>sn_responses := a\<rparr>)" "log_ok dl (s\<lparr>sn_response_order := b\<rparr>)"
    "log_ok dl (s\<lparr>sn_responses := a, sn_response_order := b\<rparr>)"
    "log_ok dl (s\<lparr>sn_items := c\<rparr>)" "log_ok dl (s\<lparr>sn_call_items := d\<rparr>)" "log_ok dl (s\<lparr>sn_cancelled := f\<rparr>)"
    "log_ok dl (s\<lparr>sn_contents := insert k (sn_contents s)\<rparr>)"
    "log_ok dl (s\<lparr>sn_terminal_responses := insert r (sn_terminal_responses s)\<rparr>)"
    "log_ok dl (add_completions dec s)"
  by (rule log_grows [OF assms]; auto simp: remembers_def add_completions_def)+

lemma log_followups: "log_ok dl s \<Longrightarrow> log_ok dl (s\<lparr>sn_followups := cs\<rparr>)"
  by (rule log_grows) (auto simp: remembers_def)

interpretation log: session_laws "log_ok dl" for dl
proof unfold_locales
  show "log_ok dl t" if "resp_view s = resp_view t" "tool_view s = tool_view t" "queue_view s = queue_view t"
    "log_ok dl s" for s t
    using that by (intro log_view [of t s dl]) simp_all
qed (auto intro: log_plain log_publish log_finish log_tool log_finished log_tool_call log_start log_responses
    log_followups elim: log_view [rotated -1])

section \<open>The invariant of the session\<close>

definition session_ok :: "rt_event list \<Rightarrow> session \<Rightarrow> bool" where
  "session_ok dl s \<longleftrightarrow>
     responses_ok s \<and> tools_ok s \<and> failures_ok s \<and> queue_ok s \<and> life_ok dl s \<and> log_ok dl s"

lemma session_ok_laws: "session_laws (session_ok dl)"
  unfolding session_ok_def [abs_def]
  by (intro session_laws_conj responses.session_laws_axioms tools.session_laws_axioms
      failures.session_laws_axioms queue.session_laws_axioms life.session_laws_axioms log.session_laws_axioms)

lemma session_ok_context:
  "session_ok dl s \<Longrightarrow> sent_ok s" "session_ok dl s \<Longrightarrow> opt_ok printable_id (sn_pending_close_id s)"
  "session_ok dl s \<Longrightarrow> set (sn_response_order s) \<subseteq> sn_responses s"
  by (auto simp: session_ok_def failures_ok_def responses_defs)

lemma session_ok_pending:
  "session_ok dl (s\<lparr>sn_input_pending_frames := n, sn_input_pending_bytes := b\<rparr>) = session_ok dl s"
proof -
  let ?t = "s\<lparr>sn_input_pending_frames := n, sn_input_pending_bytes := b\<rparr>"
  have "resp_view ?t = resp_view s" "tool_view ?t = tool_view s" "queue_view ?t = queue_view s"
    "life_view ?t = life_view s" "failure_view ?t = failure_view s" "sn_cfg ?t = sn_cfg s"
    by (simp_all add: view_defs failure_view_def)
  then show ?thesis
    unfolding session_ok_def
    by (metis responses_view tools_view failures_view queue_ok_view life_ok_view log_view)
qed

interpretation invariant: session_invariant "session_ok dl" for dl
  unfolding session_invariant_def session_calls_def session_calls_axioms_def session_context_def
    session_context_axioms_def
  using session_ok_laws session_ok_context session_ok_pending by (auto simp: session_laws_def)

end
