(* ===== verification/Session_System.thy ===== *)
theory Session_System
  imports Session_Terminal
begin

text \<open>
  The session as a transition system. A step is one operation between two suspension points, of the
  receive loop, of a call of the product, of a tool attempt or of the closing task, in any order; the
  environment may start another generation and use the shared recovery state at any time. A call of
  the product is over-approximated: its continuation after a suspension point may run at any time,
  whether or not the call has begun, except where the order matters for the accounting of audio, for
  the receiver and for the closing task.
\<close>

section \<open>State and steps\<close>

datatype receiver = Rx_none | Rx_waiting | Rx_ended

datatype close_phase =
    Close_idle | Close_writing dict ustr | Close_waiting bool | Close_over
  | Close_refused \<comment> \<open>the closing task ended with the exception for its reason\<close>

definition close_phase_after :: "(dict \<times> ustr) option res \<Rightarrow> close_phase" where
  "close_phase_after r =
    (case r of
       Inl e \<Rightarrow> Close_refused
     | Inr None \<Rightarrow> Close_over
     | Inr (Some (ev, i)) \<Rightarrow> Close_writing ev i)"

record system =
  sy_session :: session
  sy_log :: "rt_event list" \<comment> \<open>what \<^verbatim>\<open>events()\<close> has yielded\<close>
  sy_audio :: "bytes list" \<comment> \<open>the audio whose write has not ended\<close>
  sy_receiver :: receiver
  sy_close :: close_phase

definition receiver_after :: "loop \<Rightarrow> receiver" where
  \<comment> \<open>the loop ends when it returns or finds the terminal published\<close>
  "receiver_after l =
    (case l of
       Return s \<Rightarrow> Rx_ended
     | Continue s \<Rightarrow> if sn_published s then Rx_ended else Rx_waiting)"

definition tool_call_step :: "session \<Rightarrow> session \<Rightarrow> bool" where
  \<comment> \<open>one step of the submission of a tool result\<close>
  "tool_call_step s t \<longleftrightarrow>
     (\<exists>c out. t = snd (submit_tool_result c out s))
     \<or> (\<exists>c out result followup. built_ok result \<and> built_ok followup \<and>
          t = snd (attempt_begin c out result followup s))
     \<or> (\<exists>c ev outcome. t = snd (attempt_result_sent c ev outcome s))
     \<or> (\<exists>c ev followup outcome. built_ok followup \<and> client_event_ok ev \<and>
          t = snd (attempt_acked c ev followup outcome s))
     \<or> (\<exists>c ev outcome. t = snd (attempt_followup_sent c ev outcome s))"

definition context_step :: "session \<Rightarrow> session \<Rightarrow> bool" where
  \<comment> \<open>one step of a message or an instruction update\<close>
  "context_step s t \<longleftrightarrow>
     (\<exists>text r trigger key. t = snd (append_message_begin text r trigger key s))
     \<or> (\<exists>ev. client_event_ok ev \<and> t = snd (inject_begin ev s))
     \<or> (\<exists>ev i outcome. t = snd (inject_sent ev i outcome s))
     \<or> (\<exists>ev i trigger key outcome. printable_id i \<and> t = snd (inject_acked ev i trigger key outcome s))"

definition call_step :: "session \<Rightarrow> session \<Rightarrow> bool" where
  \<comment> \<open>the other calls\<close>
  "call_step s t \<longleftrightarrow>
     (\<exists>ev. client_event_ok ev \<and> t = snd (start_session ev s))
     \<or> (\<exists>ev outcome. t = snd (send_done ev outcome s))
     \<or> (\<exists>ev. client_event_ok ev \<and> t = remember_client_event ev s)
     \<or> (\<exists>build. (\<forall>r ev. build r = Inr ev \<longrightarrow> client_event_ok ev) \<and> t = snd (cancel_response_begin build s))
     \<or> (\<exists>built. (\<forall>ev. built = Inr ev \<longrightarrow> client_event_ok ev) \<and> t = snd (truncate_output_begin built s))
     \<or> (\<exists>reason. t = snd (close_begin reason s))"

inductive session_step :: "system \<Rightarrow> system \<Rightarrow> bool" where
  step_call:
    "call_step (sy_session y) s \<or> context_step (sy_session y) s \<or> tool_call_step (sy_session y) s \<Longrightarrow>
     session_step y (y\<lparr>sy_session := s\<rparr>)"
| step_receiver: "sy_receiver y = Rx_none \<Longrightarrow> session_step y (y\<lparr>sy_receiver := Rx_waiting\<rparr>)"
| step_receive:
    "sy_receiver y = Rx_waiting \<Longrightarrow> incoming_ok i \<Longrightarrow> receive_one i (sy_session y) = l \<Longrightarrow>
     session_step y (y\<lparr>sy_session := loop_state l, sy_receiver := receiver_after l\<rparr>)"
| step_receiver_cancelled:
    "sn_shutdown (sy_session y) \<Longrightarrow> session_step y (y\<lparr>sy_receiver := Rx_ended\<rparr>)"
| step_deliver:
    "take_event (sy_session y) = Some (x, s) \<Longrightarrow>
     session_step y (y\<lparr>sy_session := s, sy_log := sy_log y @ (case x of None \<Rightarrow> [] | Some e \<Rightarrow> [e])\<rparr>)"
| step_audio:
    "send_audio_begin pcm built (sy_session y) = (Inr ev, s) \<Longrightarrow> client_event_ok ev \<Longrightarrow>
     session_step y (y\<lparr>sy_session := s, sy_audio := pcm # sy_audio y\<rparr>)"
| step_audio_refused:
    "send_audio_begin pcm built (sy_session y) = (Inl e, s) \<Longrightarrow> session_step y (y\<lparr>sy_session := s\<rparr>)"
| step_audio_done:
    "pcm \<in> set (sy_audio y) \<Longrightarrow> send_audio_end pcm ev outcome (sy_session y) = (res, s) \<Longrightarrow>
     session_step y (y\<lparr>sy_session := s, sy_audio := remove1 pcm (sy_audio y)\<rparr>)"
| step_close_claim:
    "sy_close y = Close_idle \<Longrightarrow> controlled_close_begin built (sy_session y) = (res, s) \<Longrightarrow>
     (\<And>ev i. built = Inr (ev, i) \<Longrightarrow> client_event_ok ev \<and> printable_id i) \<Longrightarrow>
     session_step y (y\<lparr>sy_session := s, sy_close := close_phase_after res\<rparr>)"
| step_close_written:
    "sy_close y = Close_writing ev i \<Longrightarrow> controlled_close_sent ev i outcome (sy_session y) = (wait, s) \<Longrightarrow>
     session_step y (y\<lparr>sy_session := s, sy_close := Close_waiting wait\<rparr>)"
| step_close_end:
    "sy_close y = Close_waiting waited \<Longrightarrow> waited = (wait \<noteq> Not_waited) \<Longrightarrow>
     session_step y (y\<lparr>sy_session := controlled_close_end reason wait (sy_session y), sy_close := Close_over\<rparr>)"
| step_generation: "session_step y (y\<lparr>sy_session := (sy_session y)\<lparr>sn_current := b\<rparr>\<rparr>)"
| step_recovery:
    "recovery_step (sn_recovery (sy_session y)) rs \<Longrightarrow>
     session_step y (y\<lparr>sy_session := (sy_session y)\<lparr>sn_recovery := rs\<rparr>\<rparr>)"

definition system_start :: "system \<Rightarrow> bool" where
  \<comment> \<open>a session of a valid capability, before \<^verbatim>\<open>start\<close>\<close>
  "system_start y \<longleftrightarrow>
     (\<exists>env sha req cap generation corr dispatcher seen sent rs.
        session_init env sha req cap generation corr dispatcher seen sent rs = Inr (sy_session y)
        \<and> limits_error (ca_limits cap) = None \<and> 1 \<le> generation
        \<and> (\<forall>i t. map_of sent i = Some t \<longrightarrow> printable_id i \<and> stable_metadata t))
     \<and> sy_log y = [] \<and> sy_audio y = [] \<and> sy_receiver y = Rx_none \<and> sy_close y = Close_idle"

section \<open>The invariant\<close>

definition close_intent :: "session \<Rightarrow> bool" where
  \<comment> \<open>the closing task owns the terminal and has not published it\<close>
  "close_intent s \<longleftrightarrow> sn_closing s \<and> sn_owner s \<noteq> None \<and> \<not> sn_published s"

lemma intent_view: "life_view t = life_view s \<Longrightarrow> close_intent t = close_intent s"
  by (simp add: close_intent_def life_view_def)

definition framed :: "int \<times> int \<Rightarrow> session_config \<Rightarrow> bool \<Rightarrow> session \<Rightarrow> bool" where
  \<comment> \<open>what the operations other than the audio calls and the closing task leave alone\<close>
  "framed v c b s \<longleftrightarrow> input_view s = v \<and> sn_cfg s = c \<and> (b \<longrightarrow> close_intent s)"

lemma framed_view:
  "input_view t = input_view s \<Longrightarrow> sn_cfg t = sn_cfg s \<Longrightarrow> life_view t = life_view s \<Longrightarrow>
   framed v c b s \<Longrightarrow> framed v c b t"
  using intent_view [of t s] by (simp add: framed_def)

lemma input_update_views [simp]:
  fixes s :: session
  shows "input_view (s\<lparr>sn_closing := x\<rparr>) = input_view s" "input_view (s\<lparr>sn_owner := y\<rparr>) = input_view s"
    "input_view (s\<lparr>sn_responses := a\<rparr>) = input_view s" "input_view (s\<lparr>sn_response_order := d\<rparr>) = input_view s"
    "input_view (s\<lparr>sn_items := e\<rparr>) = input_view s" "input_view (s\<lparr>sn_call_items := f\<rparr>) = input_view s"
    "input_view (s\<lparr>sn_contents := g\<rparr>) = input_view s" "input_view (add_completions dec s) = input_view s"
    "input_view (s\<lparr>sn_terminal_responses := a\<rparr>) = input_view s" "input_view (s\<lparr>sn_cancelled := a\<rparr>) = input_view s"
  by (simp_all add: input_view_def add_completions_def)

lemma framed_owner: "framed v c b s \<Longrightarrow> sn_owner s = None \<Longrightarrow> \<not> b"
  by (auto simp: framed_def close_intent_def)

lemma framed_any: "framed v c False s \<longleftrightarrow> input_view s = v \<and> sn_cfg s = c"
  by (simp add: framed_def)

lemma framed_steps: "session_steps (framed v c b)"
proof unfold_locales
  show "framed v c b (finish_terminal e ini disp s)" if "framed v c b s" "sn_owner s = None" for s e ini disp
    using that framed_owner [OF that] by (cases b) (simp_all add: framed_any)
  show "framed v c b (s\<lparr>sn_closing := True, sn_owner := Some (CI_CLIENT, CD_CLEAN)\<rparr>)"
    if "framed v c b s" "sn_owner s = None" for s
    using that framed_owner [OF that] by (cases b) (simp_all add: framed_any)
qed (auto elim!: framed_view [rotated -1])

definition kept :: "rt_event list \<Rightarrow> int \<times> int \<Rightarrow> session_config \<Rightarrow> bool \<Rightarrow> session \<Rightarrow> bool" where
  "kept dl v c b s \<longleftrightarrow> session_ok dl s \<and> framed v c b s"

interpretation kept: session_context "kept dl v c b" for dl v c b
proof -
  have "session_steps (kept dl v c b)"
    unfolding kept_def [abs_def] by (rule session_steps_conj [OF invariant.session_steps_axioms framed_steps])
  then show "session_context (kept dl v c b)"
    unfolding session_context_def session_context_axioms_def kept_def
    using session_ok_context by blast
qed

lemma kept_call:
  assumes s: "kept dl v c b s" and t: "call_step s t \<or> context_step s t \<or> tool_call_step s t"
  shows "kept dl v c b t"
  using t
proof (elim disjE)
  assume "call_step s t"
  then show ?thesis
    using s unfolding call_step_def
    by (elim disjE exE conjE)
       (simp_all add: kept.P_start kept.P_send_done kept.P_remember kept.P_cancel_begin kept.P_truncate
         kept.P_close_begin)
next
  assume "context_step s t"
  then show ?thesis
    using s unfolding context_step_def
    by (elim disjE exE conjE)
       (simp_all add: kept.P_append kept.P_inject_begin kept.P_inject_sent kept.P_inject_acked)
next
  assume "tool_call_step s t"
  then show ?thesis
    using s unfolding tool_call_step_def
    by (elim disjE exE conjE)
       (simp_all add: kept.P_submit kept.P_attempt_begin kept.P_result_sent kept.P_attempt_acked
         kept.P_followup_sent)
qed

section \<open>Delivery\<close>

definition taken :: "rt_event \<Rightarrow> rt_event list \<Rightarrow> session \<Rightarrow> session" where
  "taken e es s = s\<lparr>sn_events := es, sn_queued_frames := max 0 (sn_queued_frames s - 1),
     sn_queued_bytes := max 0 (sn_queued_bytes s - size_of s e)\<rparr>"

lemma taken_simps [simp]:
  "sn_events (taken e es s) = es" "sn_queued_frames (taken e es s) = max 0 (sn_queued_frames s - 1)"
  "sn_queued_bytes (taken e es s) = max 0 (sn_queued_bytes s - size_of s e)"
  "resp_view (taken e es s) = resp_view s" "tool_view (taken e es s) = tool_view s"
  "life_view (taken e es s) = life_view s" "failure_view (taken e es s) = failure_view s"
  "input_view (taken e es s) = input_view s" "sn_cfg (taken e es s) = sn_cfg s"
  "sn_sequence_started (taken e es s) = sn_sequence_started s"
  by (simp_all add: taken_def view_defs failure_view_def)

lemma take_event_cases:
  assumes "take_event s = Some (x, t)"
  obtains (Yield) e es where "sn_events s = e # es" "x = Some e" "t = taken e es s"
  | (Drop) e es where "sn_events s = e # es" "x = None" "\<not> is_terminal e"
      "t = (taken e es s)\<lparr>sn_late := sn_late (taken e es s) + 1\<rparr>"
proof (cases "sn_events s")
  case (Cons e es)
  have t: "Some (x, t) = (if \<not> is_current (taken e es s) \<and> \<not> is_terminal e
      then Some (None, (taken e es s)\<lparr>sn_late := sn_late (taken e es s) + 1\<rparr>) else Some (Some e, taken e es s))"
    using assms by (simp only: take_event_def Cons list.case Let_def taken_def)
  show ?thesis
  proof (cases "\<not> is_current (taken e es s) \<and> \<not> is_terminal e")
    case True
    then show ?thesis
      using t Drop [OF Cons] by simp
  next
    case False
    then have "Some (x, t) = Some (Some e, taken e es s)"
      using t by (simp only: if_False)
    then show ?thesis
      using Yield [OF Cons] by simp
  qed
qed (use assms in \<open>simp add: take_event_def\<close>)

lemma take_views:
  assumes "take_event s = Some (x, t)"
  shows "resp_view t = resp_view s" "tool_view t = tool_view s" "life_view t = life_view s"
    "failure_view t = failure_view s" "input_view t = input_view s" "sn_cfg t = sn_cfg s"
    "sn_sequence_started t = sn_sequence_started s"
  by (rule take_event_cases [OF assms]; simp)+

lemma sizes_nonneg: "0 \<le> sum_list (map (size_of s) es)"
  by (rule sum_list_nonneg) (auto simp: size_of_def event_size_nonneg)

lemma taken_queue:
  assumes s: "queue_ok s" and es: "sn_events s = e # es"
  shows "queue_ok (taken e es s)"
proof -
  have "sn_queued_frames s = int (length es) + 1" "sn_queued_bytes s = size_of s e + sum_list (map (size_of s) es)"
    using s by (simp_all add: queue_ok_def es)
  moreover have "0 \<le> size_of s e"
    by (simp add: size_of_def event_size_nonneg)
  moreover have "size_of (taken e es s) = size_of s" "limits_of (taken e es s) = limits_of s"
    by (simp_all add: size_of_def limits_of_def fun_eq_iff)
  ultimately show ?thesis
    using s sizes_nonneg [of s es] by (auto simp: queue_ok_def)
qed

lemma take_queue:
  assumes s: "queue_ok s" and t: "take_event s = Some (x, t)"
  shows "queue_ok t"
proof (rule take_event_cases [OF t])
  fix e es
  assume es: "sn_events s = e # es" and "t = (taken e es s)\<lparr>sn_late := sn_late (taken e es s) + 1\<rparr>"
  then show "queue_ok t"
    by (simp add: queue_ok_view [OF _ _ taken_queue [OF s es]])
qed (simp add: taken_queue s)

lemma take_ok:
  assumes s: "session_ok dl s" and t: "take_event s = Some (x, t)"
  shows "session_ok (dl @ (case x of None \<Rightarrow> [] | Some e \<Rightarrow> [e])) t"
proof -
  let ?dl = "dl @ (case x of None \<Rightarrow> [] | Some e \<Rightarrow> [e])"
  note v = take_views [OF t]
  obtain e es where e: "sn_events s = e # es" "sn_events t = es" "x = Some e \<or> x = None \<and> \<not> is_terminal e"
    by (rule take_event_cases [OF t]) simp_all
  have known: "event_known t y = event_known s y" for y
    using v(1,2) by (simp add: event_known_def resp_view_def tool_view_def)
  have life: "life_ok ?dl t"
    using s v(3,7) e by (auto simp: session_ok_def life_ok_def life_view_def)
  have log: "log_ok ?dl t"
    using s e known unfolding session_ok_def log_ok_def
    by (auto simp: settled_append calls_once_append)
  show ?thesis
    using s v life log take_queue [OF _ t] unfolding session_ok_def
    by (metis responses_view tools_view failures_view)
qed

section \<open>Audio\<close>

definition audio_ok :: "bytes list \<Rightarrow> session \<Rightarrow> bool" where
  "audio_ok pcms s \<longleftrightarrow>
     sn_input_pending_frames s = int (length pcms)
     \<and> sn_input_pending_bytes s = sum_list (map (\<lambda>p. int (length p)) pcms)
     \<and> sn_input_pending_frames s \<le> li_input_queue_frames (limits_of s)
     \<and> sn_input_pending_bytes s \<le> li_input_queue_bytes (limits_of s)"

lemma audio_view:
  "input_view t = input_view s \<Longrightarrow> sn_cfg t = sn_cfg s \<Longrightarrow> audio_ok pcms s \<Longrightarrow> audio_ok pcms t"
  by (auto simp: audio_ok_def input_view_def limits_of_def)

lemma audio_begun:
  assumes s: "audio_ok pcms s" and t: "send_audio_begin pcm built s = (Inr ev, t)"
  shows "audio_ok (pcm # pcms) t"
proof -
  let ?s1 = "s\<lparr>sn_input_pending_frames := sn_input_pending_frames s + 1,
               sn_input_pending_bytes := sn_input_pending_bytes s + int (length pcm)\<rparr>"
  have c: "audio_check pcm s = Inr ()" and t: "t = remember_client_event ev ?s1"
    using t by (auto simp: send_audio_begin_def Let_def split: sum.splits)
  have "audio_ok (pcm # pcms) ?s1"
    using s c by (auto simp: audio_ok_def audio_check_def andthen_Inr_iff limits_of_def split: if_splits)
  then show ?thesis
    unfolding t by (rule audio_view [rotated -1]) simp_all
qed

lemma audio_refused:
  assumes s: "audio_ok pcms s" and t: "send_audio_begin pcm built s = (Inl e, t)"
  shows "audio_ok pcms t"
  using s t by (auto simp: send_audio_begin_def Let_def release_audio_def audio_ok_def limits_of_def split: sum.splits)

lemma audio_released:
  assumes s: "audio_ok pcms s" and p: "pcm \<in> set pcms"
  shows "audio_ok (remove1 pcm pcms) (release_audio pcm s)"
proof -
  have "sum_list (map (\<lambda>p. int (length p)) pcms)
      = int (length pcm) + sum_list (map (\<lambda>p. int (length p)) (remove1 pcm pcms))"
    using p by (rule sum_list_map_remove1)
  moreover have "0 < length pcms"
    using p by (cases pcms) auto
  then have "length pcms = Suc (length (remove1 pcm pcms))"
    using p by (simp only: length_remove1 if_True Suc_diff_1)
  then have "int (length pcms) = int (length (remove1 pcm pcms)) + 1"
    by simp
  ultimately show ?thesis
    using s by (simp add: audio_ok_def release_audio_def limits_of_def)
qed

lemma audio_ended:
  assumes s: "kept dl v c b s" and a: "audio_ok pcms s" and p: "pcm \<in> set pcms"
  shows "audio_ok (remove1 pcm pcms) (snd (send_audio_end pcm ev outcome s))"
proof -
  obtain r s1 where d: "send_done ev outcome s = (r, s1)"
    by (cases "send_done ev outcome s")
  have "kept dl (input_view s) (sn_cfg s) False s"
    using s by (simp add: kept_def framed_def)
  from kept.P_send_done [OF this, of ev outcome] have v: "input_view s1 = input_view s" "sn_cfg s1 = sn_cfg s"
    by (simp_all add: d kept_def framed_def)
  have a1: "audio_ok pcms s1"
    by (rule audio_view [OF v a])
  show ?thesis
  proof (cases r)
    case (Inl e)
    then show ?thesis
      using audio_released [OF a1 p] by (simp add: send_audio_end_def d)
  next
    case (Inr y)
    let ?s2 = "s1\<lparr>sn_input_frames := sn_input_frames s1 + 1,
                sn_input_bytes := sn_input_bytes s1 + int (length pcm)\<rparr>"
    have "audio_ok pcms ?s2"
      by (rule audio_view [OF _ _ a1]) (simp_all add: input_view_def)
    moreover have "audio_ok pcms (log_diag g ?s2)" for g
      by (rule audio_view [OF _ _ calculation]) simp_all
    ultimately show ?thesis
      using audio_released [OF _ p] by (simp add: send_audio_end_def d Inr Let_def)
  qed
qed

section \<open>Every step keeps the invariant\<close>

definition close_phase_ok :: "close_phase \<Rightarrow> session \<Rightarrow> bool" where
  "close_phase_ok ph s \<longleftrightarrow>
     (case ph of
        Close_writing ev i \<Rightarrow> close_intent s \<and> client_event_ok ev \<and> printable_id i
      | Close_waiting w \<Rightarrow> close_intent s
      | Close_refused \<Rightarrow> close_intent s
      | _ \<Rightarrow> True)"

definition busy_closing :: "close_phase \<Rightarrow> bool" where
  "busy_closing ph \<longleftrightarrow> ph \<noteq> Close_idle \<and> ph \<noteq> Close_over"

definition system_ok :: "system \<Rightarrow> bool" where
  "system_ok y \<longleftrightarrow>
     session_ok (sy_log y) (sy_session y) \<and> audio_ok (sy_audio y) (sy_session y)
     \<and> close_phase_ok (sy_close y) (sy_session y)"

lemma close_phase_intent: "close_phase_ok ph s \<Longrightarrow> busy_closing ph \<longrightarrow> close_intent s"
  by (cases ph) (simp_all add: close_phase_ok_def busy_closing_def)

lemma close_phase_kept:
  "close_phase_ok ph s \<Longrightarrow> (busy_closing ph \<longrightarrow> close_intent t) \<Longrightarrow> close_phase_ok ph t"
  by (cases ph) (simp_all add: close_phase_ok_def busy_closing_def)

lemma system_kept:
  "system_ok y \<Longrightarrow>
   kept (sy_log y) (input_view (sy_session y)) (sn_cfg (sy_session y)) (busy_closing (sy_close y)) (sy_session y)"
  using close_phase_intent [of "sy_close y" "sy_session y"] by (simp add: system_ok_def kept_def framed_def)

lemma system_framed:
  assumes y: "system_ok y"
    and t: "kept (sy_log y) (input_view (sy_session y)) (sn_cfg (sy_session y)) (busy_closing (sy_close y)) t"
  shows "system_ok (y\<lparr>sy_session := t\<rparr>)" "system_ok (y\<lparr>sy_session := t, sy_receiver := rx\<rparr>)"
proof -
  have "audio_ok (sy_audio y) t"
    by (rule audio_view [of t "sy_session y"]) (use y t in \<open>auto simp: system_ok_def kept_def framed_def\<close>)
  moreover have "close_phase_ok (sy_close y) t"
    by (rule close_phase_kept [of _ "sy_session y"]) (use y t in \<open>auto simp: system_ok_def kept_def framed_def\<close>)
  ultimately show "system_ok (y\<lparr>sy_session := t\<rparr>)" "system_ok (y\<lparr>sy_session := t, sy_receiver := rx\<rparr>)"
    using t by (simp_all add: system_ok_def kept_def)
qed

definition intended :: "rt_event list \<Rightarrow> bool \<Rightarrow> session \<Rightarrow> bool" where
  "intended dl b s \<longleftrightarrow> session_ok dl s \<and> (b \<longrightarrow> close_intent s)"

lemma intent_kept: "life_view t = life_view s \<Longrightarrow> b \<longrightarrow> close_intent s \<Longrightarrow> b \<longrightarrow> close_intent t"
  using intent_view [of t s] by simp

lemma intent_steps: "session_steps (\<lambda>s. b \<longrightarrow> close_intent s)"
proof unfold_locales
  show "b \<longrightarrow> close_intent (finish_terminal e ini disp s)" if "b \<longrightarrow> close_intent s" "sn_owner s = None" for s e ini disp
    using that by (auto simp: close_intent_def)
  show "b \<longrightarrow> close_intent (s\<lparr>sn_closing := True, sn_owner := Some (CI_CLIENT, CD_CLEAN)\<rparr>)"
    if "b \<longrightarrow> close_intent s" "sn_owner s = None" for s
    using that by (auto simp: close_intent_def)
  show "b \<longrightarrow> close_intent ((put_tool c r s)\<lparr>sn_followups := cs\<rparr>)" if "b \<longrightarrow> close_intent s" for s c r cs
    by (rule intent_kept [OF _ that]) simp
qed (auto elim!: intent_kept [rotated])

interpretation intended: session_calls "intended dl b" for dl b
proof -
  have "session_steps (intended dl b)"
    unfolding intended_def [abs_def] by (rule session_steps_conj [OF invariant.session_steps_axioms intent_steps])
  moreover have "close_intent (s\<lparr>sn_input_pending_frames := n, sn_input_pending_bytes := m\<rparr>) = close_intent s" for s n m
    by (simp add: close_intent_def)
  ultimately show "session_calls (intended dl b)"
    unfolding session_calls_def session_calls_axioms_def session_context_def session_context_axioms_def
    using session_ok_context [of dl] by (simp only: intended_def session_ok_pending) blast
qed

lemma system_intended:
  assumes "system_ok y" and "intended (sy_log y) (busy_closing (sy_close y)) s" and "audio_ok pcms s"
  shows "system_ok (y\<lparr>sy_session := s, sy_audio := pcms\<rparr>)"
  using assms close_phase_kept [of "sy_close y" "sy_session y" s]
  by (simp add: system_ok_def intended_def)

lemma claim_views:
  assumes "sn_owner s = None"
  shows "life_view (snd (controlled_close_begin built s))
      = life_view (s\<lparr>sn_closing := True, sn_owner := Some (CI_CLIENT, CD_CLEAN)\<rparr>)"
  using assms by (cases built) (auto simp: controlled_close_begin_def Let_def split: prod.split)

lemma intent_after_claim:
  assumes t: "controlled_close_begin built s = (res, t)" and s: "life_ok dl s"
    and built: "\<And>ev i. built = Inr (ev, i) \<Longrightarrow> client_event_ok ev \<and> printable_id i"
  shows "close_phase_ok (close_phase_after res) t"
proof (cases "sn_owner s = None")
  case True
  have "close_intent (s\<lparr>sn_closing := True, sn_owner := Some (CI_CLIENT, CD_CLEAN)\<rparr>)"
    using s True by (auto simp: close_intent_def life_ok_def)
  then have "close_intent t"
    using claim_views [OF True, of built] t intent_view by (metis snd_conv)
  then show ?thesis
    using t True built
    by (cases built) (auto simp: controlled_close_begin_def Let_def close_phase_after_def close_phase_ok_def)
next
  case False
  then show ?thesis
    using t by (auto simp: controlled_close_begin_def close_phase_after_def close_phase_ok_def)
qed

lemma claim_input:
  "input_view (snd (controlled_close_begin built s)) = input_view s"
  "sn_cfg (snd (controlled_close_begin built s)) = sn_cfg s"
  by (cases "sn_owner s = None"; cases built; auto simp: controlled_close_begin_def Let_def)+

lemma end_input:
  "input_view (controlled_close_end reason wait s) = input_view s"
  "sn_cfg (controlled_close_end reason wait s) = sn_cfg s"
proof -
  have c: "input_view (cancel_current_response x) = input_view x" "sn_cfg (cancel_current_response x) = sn_cfg x" for x
    by (simp_all add: cancel_current_response_def Let_def split: option.split)
  show "input_view (controlled_close_end reason wait s) = input_view s"
    "sn_cfg (controlled_close_end reason wait s) = sn_cfg s"
    by (simp_all add: controlled_close_end_def Let_def c)
qed

lemma limits_positive:
  "limits_error l = None \<Longrightarrow>
   0 < li_output_queue_frames l \<and> 0 < li_output_queue_bytes l \<and> 0 < li_input_queue_frames l
   \<and> 0 < li_input_queue_bytes l"
  by (auto simp: limits_error_def split: if_splits)

lemma session_init_ok:
  assumes s: "session_init env sha req cap generation corr dispatcher seen sent rs = Inr s"
    and limits: "limits_error (ca_limits cap) = None" and g: "1 \<le> generation"
    and sent: "\<And>i t. map_of sent i = Some t \<Longrightarrow> printable_id i \<and> stable_metadata t"
  shows "session_ok [] s \<and> audio_ok [] s"
proof -
  obtain g' rs' where b: "begin_session rs (or_external_session_id req) generation = Inr (g', rs')"
    using s by (auto simp: session_init_def andthen_Inr_iff)
  obtain l :: logical_session where g': "g' = max (tb_generation (ls_table l) + 1) generation"
    using begin_session_Inr [OF b] by blast
  have st: "stable_metadata (u ''session.start'')"
    by code_simp
  have fields: "sn_responses s = {}" "sn_response_order s = []" "sn_terminal_responses s = {}"
    "sn_cancelled s = {}" "sn_items s = {}" "sn_call_items s = {}" "sn_completed_items s = {}" "sn_contents s = {}"
    "sn_completed_contents s = {}" "sn_tools s = []" "sn_followups s = []" "sn_sent_types s = sent"
    "sn_pending_close_id s = None" "sn_failure s = None" "sn_last_type s = u ''session.start''"
    "sn_last_fields s = []" "cf_generation (sn_cfg s) = g'" "cf_capability (sn_cfg s) = cap" "sn_events s = []"
    "sn_queued_frames s = 0" "sn_queued_bytes s = 0" "\<not> sn_published s" "\<not> sn_shutdown s" "\<not> sn_closing s"
    "sn_owner s = None" "sn_input_pending_frames s = 0" "sn_input_pending_bytes s = 0"
    using s by (auto simp: session_init_def b Let_def)
  have "responses_ok s" "tools_ok s"
    by (simp_all add: responses_defs live_responses_def tools_ok_def fields)
  moreover have "failures_ok s"
    using g st sent by (simp add: failures_ok_def sent_ok_def fields g')
  moreover have "queue_ok s" "audio_ok [] s"
    using limits_positive [OF limits] by (simp_all add: queue_ok_def audio_ok_def limits_of_def fields)
  moreover have "life_ok [] s" "log_ok [] s"
    by (simp_all add: life_ok_def log_ok_def fields)
  ultimately show ?thesis
    by (simp add: session_ok_def)
qed

lemma system_start_ok: "system_start y \<Longrightarrow> system_ok y"
  unfolding system_start_def system_ok_def
  using session_init_ok by (auto simp: close_phase_ok_def)

lemma kept_session: "kept dl v c b s \<Longrightarrow> session_ok dl s"
  by (simp add: kept_def)

lemma system_step_ok: "system_ok y \<Longrightarrow> session_step y z \<Longrightarrow> system_ok z"
proof -
  assume y: "system_ok y" and step: "session_step y z"
  note k = system_kept [OF y]
  have int: "intended (sy_log y) (busy_closing (sy_close y)) (sy_session y)"
    using k by (simp add: intended_def kept_def framed_def)
  have parts: "session_ok (sy_log y) (sy_session y)" "audio_ok (sy_audio y) (sy_session y)"
    "close_phase_ok (sy_close y) (sy_session y)"
    using y by (simp_all add: system_ok_def)
  have life: "life_ok (sy_log y) (sy_session y)"
    using parts(1) by (simp add: session_ok_def)
  from step show "system_ok z"
  proof cases
    case (step_call s)
    show ?thesis
      unfolding step_call(1) by (rule system_framed [OF y]) (rule kept_call [OF k step_call(2)])
  next
    case step_receiver
    then show ?thesis
      using y by (simp add: system_ok_def)
  next
    case (step_receive i l)
    show ?thesis
      unfolding step_receive(1) step_receive(4) [symmetric]
      by (rule system_framed [OF y]) (rule kept.P_receive [OF k step_receive(3)])
  next
    case step_receiver_cancelled
    then show ?thesis
      using y by (simp add: system_ok_def)
  next
    case (step_deliver x s)
    note v = take_views [OF step_deliver(2)]
    have "close_phase_ok (sy_close y) s"
      by (rule close_phase_kept [OF parts(3)]) (use close_phase_intent [OF parts(3)] intent_view [OF v(3)] in simp)
    then show ?thesis
      using take_ok [OF parts(1) step_deliver(2)] audio_view [OF v(5,6) parts(2)]
      by (simp add: step_deliver(1) system_ok_def)
  next
    case (step_audio pcm built ev s)
    have "intended (sy_log y) (busy_closing (sy_close y)) s"
      using intended.P_audio_begin [OF int, of built pcm] step_audio(2,3)
      by (auto simp: send_audio_begin_def Let_def split: sum.splits)
    then show ?thesis
      unfolding step_audio(1) by (rule system_intended [OF y _ audio_begun [OF parts(2) step_audio(2)]])
  next
    case (step_audio_refused pcm built e s)
    have "intended (sy_log y) (busy_closing (sy_close y)) s"
      using step_audio_refused(2) int
      by (auto simp: send_audio_begin_def Let_def intended.P_pending split: sum.splits)
    then show ?thesis
      using system_intended [OF y _ audio_refused [OF parts(2) step_audio_refused(2)]]
      unfolding step_audio_refused(1) by simp
  next
    case (step_audio_done pcm ev outcome res s)
    have "intended (sy_log y) (busy_closing (sy_close y)) s"
      using intended.P_audio_end [OF int, of pcm ev outcome] step_audio_done(3) by simp
    moreover have "audio_ok (remove1 pcm (sy_audio y)) s"
      using audio_ended [OF k parts(2) step_audio_done(2), of ev outcome] step_audio_done(3) by simp
    ultimately show ?thesis
      unfolding step_audio_done(1) by (rule system_intended [OF y])
  next
    case (step_close_claim built res s)
    have "session_ok (sy_log y) (snd (controlled_close_begin built (sy_session y)))"
      by (rule invariant.P_controlled_begin [OF parts(1)]) (rule step_close_claim(4))
    then have s: "session_ok (sy_log y) s"
      using step_close_claim(3) by simp
    have "audio_ok (sy_audio y) s"
      by (rule audio_view [OF _ _ parts(2)]) (use claim_input [of built "sy_session y"] step_close_claim(3) in simp_all)
    moreover have "close_phase_ok (close_phase_after res) s"
      by (rule intent_after_claim [OF step_close_claim(3) life]) (rule step_close_claim(4))
    ultimately show ?thesis
      using s by (simp add: step_close_claim(1) system_ok_def)
  next
    case (step_close_written ev i outcome wait s)
    have i: "printable_id i"
      using parts(3) by (simp add: step_close_written(2) close_phase_ok_def)
    have "kept (sy_log y) (input_view (sy_session y)) (sn_cfg (sy_session y)) True s"
      using kept.P_controlled_sent [OF _ i, of _ _ _ _ _ ev outcome] k step_close_written(3)
      by (simp add: step_close_written(2) busy_closing_def) (metis snd_conv)
    then show ?thesis
      using audio_view [OF _ _ parts(2)]
      by (simp add: step_close_written(1) system_ok_def close_phase_ok_def kept_def framed_def)
  next
    case (step_close_end waited wait reason)
    have "close_intent (sy_session y)"
      using parts(3) by (simp add: step_close_end(2) close_phase_ok_def)
    then have "session_ok (sy_log y) (controlled_close_end reason wait (sy_session y))"
      by (intro invariant.P_controlled_end parts(1)) (simp_all add: close_intent_def)
    then show ?thesis
      using audio_view [OF end_input parts(2)]
      by (simp add: step_close_end(1) system_ok_def close_phase_ok_def)
  next
    case (step_generation b)
    have "kept dl v c bb (s\<lparr>sn_current := b\<rparr>) = kept dl v c bb s" for dl v c bb s
      by (rule kept.P_fields)
    then show ?thesis
      unfolding step_generation by (intro system_framed [OF y]) (simp add: k)
  next
    case (step_recovery rs)
    show ?thesis
      unfolding step_recovery(1) by (rule system_framed [OF y]) (simp add: k)
  qed
qed

text \<open>
  What the code does when \<^verbatim>\<open>close\<close> is called with a reason that the control codec refuses: the closing task
  has claimed the terminal when the exception ends it, so no operation can claim it again, and the session
  never publishes a terminal.
\<close>

lemma refused_close_stays: "session_step y z \<Longrightarrow> sy_close y = Close_refused \<Longrightarrow> sy_close z = Close_refused"
  by (erule session_step.cases) simp_all

lemma refused_close_never_publishes:
  assumes "session_step\<^sup>*\<^sup>* y z" "system_ok y" "sy_close y = Close_refused"
  shows "sn_owner (sy_session z) \<noteq> None \<and> \<not> sn_published (sy_session z)"
proof -
  have "system_ok z \<and> sy_close z = Close_refused"
    using assms by (induction rule: rtranclp_induct) (auto intro: system_step_ok refused_close_stays)
  then show ?thesis
    by (auto simp: system_ok_def close_phase_ok_def close_intent_def)
qed

end
