(* ===== verification/Session_Progress.thy ===== *)
theory Session_Progress
  imports Session_System
begin

text \<open>
  What a run of the session never undoes: the state and the payloads of a tool call, the retained
  first cause of a failure, and the failure a delivered terminal carries. Each is an instance of
  \<open>session_laws\<close> with the state at the start of the run as a parameter.
\<close>

section \<open>Tool calls only advance\<close>

definition tool_le :: "tool_record \<Rightarrow> tool_record \<Rightarrow> bool" where
  \<comment> \<open>later in the same submission: what was written once is what is written again\<close>
  "tool_le r r' \<longleftrightarrow>
     tool_rank (tr_state r) \<le> tool_rank (tr_state r')
     \<and> (tr_state r \<noteq> TS_REQUESTED \<longrightarrow>
          tr_output r' = tr_output r \<and> tr_result_payload r' = tr_result_payload r)
     \<and> (tr_state r \<in> {TS_FOLLOWUP_REQUESTED, TS_FOLLOWUP_STARTED} \<longrightarrow>
          tr_followup_payload r' = tr_followup_payload r)"

lemma tool_le_refl [simp]: "tool_le r r"
  by (simp add: tool_le_def)

lemma tool_le_trans: "tool_le a b \<Longrightarrow> tool_le b c \<Longrightarrow> tool_le a c"
  unfolding tool_le_def
  by (cases "tr_state a"; cases "tr_state b"; cases "tr_state c"; simp)

definition tools_above :: "(ustr \<times> tool_record) list \<Rightarrow> session \<Rightarrow> bool" where
  "tools_above ts s \<longleftrightarrow>
     (\<forall>c r. map_of ts c = Some r \<longrightarrow> (\<exists>r'. map_of (sn_tools s) c = Some r' \<and> tool_le r r'))"

lemma tools_above_view: "tool_view t = tool_view s \<Longrightarrow> tools_above ts s \<Longrightarrow> tools_above ts t"
  by (simp add: tools_above_def tool_view_def)

lemma tools_above_put:
  assumes s: "tools_above ts s" and r: "\<And>r'. map_of (sn_tools s) c = Some r' \<Longrightarrow> tool_le r' r"
  shows "tools_above ts (put_tool c r s)"
  unfolding tools_above_def
proof (intro allI impI)
  fix k p
  assume "map_of ts k = Some p"
  then obtain q where q: "map_of (sn_tools s) k = Some q" "tool_le p q"
    using s unfolding tools_above_def by blast
  show "\<exists>r'. map_of (sn_tools (put_tool c r s)) k = Some r' \<and> tool_le p r'"
    using q r [of q] tool_le_trans [of p q r] by (cases "k = c") auto
qed

lemma tool_change_le: "tool_change r r' \<Longrightarrow> tool_le r r'"
  by (auto simp: tool_change_def tool_le_def)

lemma tool_le_started: "tool_le r (r\<lparr>tr_state := TS_FOLLOWUP_STARTED\<rparr>)"
  by (cases "tr_state r") (simp_all add: tool_le_def)

lemma tools_above_start:
  assumes s: "tools_above ts s"
  shows "tools_above ts (start_followup s)"
proof (cases "sn_followups s")
  case (Cons c cs)
  show ?thesis
  proof (cases "map_of (sn_tools s) c")
    case None
    then show ?thesis
      using s by (simp add: start_followup_def Cons set_tool_state_def tools_above_def)
  next
    case (Some r)
    have "tools_above ts (put_tool c (r\<lparr>tr_state := TS_FOLLOWUP_STARTED\<rparr>) s)"
      by (intro tools_above_put s) (simp add: Some tool_le_started)
    then show ?thesis
      by (simp add: start_followup_def Cons set_tool_state_def Some put_tool_def tools_above_def)
  qed
qed (simp add: start_followup_def s)

lemma tools_above_followup:
  assumes "tools_above ts s" and "map_of (sn_tools s) c = Some r" and "tr_state r = TS_RESULT_ACKED"
    and "tr_state r' = TS_FOLLOWUP_REQUESTED" and "tr_output r' = tr_output r"
    and "tr_result_payload r' = tr_result_payload r"
  shows "tools_above ts ((put_tool c r' s)\<lparr>sn_followups := cs\<rparr>)"
proof -
  have "tools_above ts (put_tool c r' s)"
    using assms by (intro tools_above_put) (auto simp: tool_le_def)
  then show ?thesis
    by (simp add: tools_above_def)
qed

interpretation above: session_laws "tools_above ts" for ts
proof unfold_locales
  show "tools_above ts ((put_tool c r' s)\<lparr>sn_followups :=
      (if c \<in> set (sn_followups s) then sn_followups s else sn_followups s @ [c])\<rparr>)"
    if "tools_above ts s" "map_of (sn_tools s) c = Some r" "tr_state r = TS_RESULT_ACKED"
      "tr_state r' = TS_FOLLOWUP_REQUESTED" "tr_output r' = tr_output r"
      "tr_result_payload r' = tr_result_payload r" for s c r r'
    by (rule tools_above_followup [OF that])
  show "tools_above ts (put_tool c r' s)"
    if "tools_above ts s" "map_of (sn_tools s) c = Some r" "tool_change r r'" for s c r r'
    using that by (intro tools_above_put) (auto intro: tool_change_le)
qed (auto intro: tools_above_start tools_above_put tool_change_le
    intro!: tools_above_view [OF enqueue_views(2)] tools_above_view [OF emit_terminal_safe_views(2)]
    elim: tools_above_view [rotated])

section \<open>The first cause stays\<close>

definition cause_kept :: "failure_context option \<Rightarrow> session \<Rightarrow> bool" where
  "cause_kept f s \<longleftrightarrow> (f \<noteq> None \<longrightarrow> sn_failure s = f)"

definition failed_events_ok :: "rt_event list \<Rightarrow> session \<Rightarrow> bool" where
  \<comment> \<open>a \<^verbatim>\<open>SessionFailed\<close> in the log carries the retained cause\<close>
  "failed_events_ok dl s \<longleftrightarrow>
     (\<forall>x. SessionFailed x \<in> set (dl @ sn_events s) \<longrightarrow> sn_failure s \<noteq> None \<and> sf_failure x = sn_failure s)"

lemma cause_view: "sn_failure t = sn_failure s \<Longrightarrow> cause_kept f s \<Longrightarrow> cause_kept f t"
  by (simp add: cause_kept_def)

lemma cause_capture: "cause_kept f s \<Longrightarrow> cause_kept f (capture_failure stage a s)"
  by (auto simp: cause_kept_def capture_failure_def split: option.split)

lemma capture_keeps:
  "sn_failure s \<noteq> None \<Longrightarrow> capture_failure stage a s = s" "sn_failure (capture_failure stage a s) \<noteq> None"
  by (auto simp: capture_failure_def split: option.split)

lemma failed_view:
  "sn_failure t = sn_failure s \<Longrightarrow> sn_events t = sn_events s \<Longrightarrow> failed_events_ok dl s \<Longrightarrow> failed_events_ok dl t"
  by (simp add: failed_events_ok_def)

lemma failed_capture: "failed_events_ok dl s \<Longrightarrow> failed_events_ok dl (capture_failure stage a s)"
  by (cases "sn_failure s") (auto simp: failed_events_ok_def capture_failure_def)

lemma failed_enqueue:
  assumes s: "failed_events_ok dl s" and t: "sn_failure t = sn_failure s" "sn_events t = sn_events s \<or> sn_events t = []"
    and e: "\<And>x. e = SessionFailed x \<Longrightarrow> sn_failure s \<noteq> None \<and> sf_failure x = sn_failure s"
  shows "failed_events_ok dl (enqueue e t)"
  using s t e by (auto simp: failed_events_ok_def enqueue_def)

lemma failed_safe:
  assumes s: "failed_events_ok dl s" and t: "sn_failure t = sn_failure s" "sn_events t = sn_events s"
    and e: "\<And>x. e = SessionFailed x \<Longrightarrow> sn_failure s \<noteq> None \<and> sf_failure x = sn_failure s"
  shows "failed_events_ok dl (emit_terminal_safe e t)"
  using t unfolding emit_terminal_safe_def
  by (auto intro!: failed_enqueue [OF s _ _ e])

lemma failed_finish:
  assumes s: "failed_events_ok dl s"
  shows "failed_events_ok dl (finish_terminal e ini disp s)"
proof -
  let ?s1 = "s\<lparr>sn_owner := Some (ini, disp), sn_terminal_code := failed_code e\<rparr>"
  let ?s2 = "if failed_code e \<noteq> None then capture_failure ''adapter.apply'' no_args ?s1 else ?s1"
  have s1: "failed_events_ok dl ?s1"
    by (rule failed_view [OF _ _ s]) simp_all
  then have s2: "failed_events_ok dl ?s2"
    using failed_capture [OF s1] by (cases "failed_code e") simp_all
  have cause: "sn_failure ?s2 \<noteq> None \<and> sf_failure x = sn_failure ?s2"
    if "with_failure (sn_failure ?s2) e = SessionFailed x" for x
  proof (cases e)
    case (SessionFailed z)
    then show ?thesis
      using that capture_keeps(2) [of "''adapter.apply''" no_args ?s1]
      by (auto simp: with_failure_def failed_code_def)
  qed (use that in \<open>simp_all add: with_failure_def\<close>)
  have "failed_events_ok dl (emit_terminal_safe (with_failure (sn_failure ?s2) e) ?s2)"
    by (rule failed_safe [OF s2 refl refl cause])
  then have "failed_events_ok dl (shutdown_connection ((record_terminal disp (failed_code e)
      (emit_terminal_safe (with_failure (sn_failure ?s2) e) ?s2))\<lparr>sn_published := True\<rparr>))"
    by (rule failed_view [rotated -1]) (simp_all add: shutdown_connection_def record_terminal_def log_diag_def)
  then show ?thesis
    using s unfolding finish_terminal_def Let_def by (cases "sn_owner s = None") simp_all
qed

lemma failure_of_view: "failure_view t = failure_view s \<Longrightarrow> sn_failure t = sn_failure s"
  by (simp add: failure_view_def)

lemma events_of_view: "queue_view t = queue_view s \<Longrightarrow> sn_events t = sn_events s"
  by (simp add: queue_view_def)

lemma cause_views: "failure_view t = failure_view s \<Longrightarrow> cause_kept f s \<Longrightarrow> cause_kept f t"
  by (rule cause_view [OF failure_of_view])

lemma failed_views:
  "failure_view t = failure_view s \<Longrightarrow> queue_view t = queue_view s \<Longrightarrow> failed_events_ok dl s \<Longrightarrow>
   failed_events_ok dl t"
  by (rule failed_view [OF failure_of_view events_of_view])

lemma cause_finish: "cause_kept f s \<Longrightarrow> cause_kept f (finish_terminal e ini disp s)"
proof -
  assume s: "cause_kept f s"
  let ?s1 = "s\<lparr>sn_owner := Some (ini, disp), sn_terminal_code := failed_code e\<rparr>"
  let ?s2 = "if failed_code e \<noteq> None then capture_failure ''adapter.apply'' no_args ?s1 else ?s1"
  have "cause_kept f ?s1"
    by (rule cause_view [OF _ s]) simp
  then have s2: "cause_kept f ?s2"
    using cause_capture by (cases "failed_code e") simp_all
  have "cause_kept f (shutdown_connection ((record_terminal disp (failed_code e)
      (emit_terminal_safe e' ?s2))\<lparr>sn_published := True\<rparr>))" for e'
    by (rule cause_views [OF _ s2]) simp
  then show ?thesis
    using s unfolding finish_terminal_def Let_def by (cases "sn_owner s = None") simp_all
qed

lemma remember_failure [simp]: "sn_failure (remember_client_event ev s) = sn_failure s"
  by (simp add: remember_client_event_def split: pyval.split)

interpretation cause: session_laws "cause_kept f" for f
proof unfold_locales
  show "cause_kept f (s\<lparr>sn_last_type := ty, sn_last_fields := fs\<rparr>)" if "cause_kept f s" for s ty fs
    by (rule cause_view [OF _ that]) simp
  show "cause_kept f (s\<lparr>sn_pending_close_id := Some i\<rparr>)" if "cause_kept f s" for s i
    by (rule cause_view [OF _ that]) simp
  show "cause_kept f (remember_client_event ev s)" if "cause_kept f s" for s ev
    by (rule cause_view [OF _ that]) simp
qed (auto intro: cause_capture cause_finish elim: cause_views [rotated])

lemma failed_plain:
  assumes s: "failed_events_ok dl s" and t: "failure_view t = failure_view s" "queue_view t = queue_view s"
    and e: "\<And>x. e \<noteq> SessionFailed x"
  shows "failed_events_ok dl (enqueue e t)" "failed_events_ok dl (emit_terminal_safe e t)"
  using e
  by (auto intro!: failed_enqueue [OF s failure_of_view [OF t(1)]] failed_safe [OF s failure_of_view [OF t(1)]]
      simp: events_of_view [OF t(2)])

lemma plain_not_failed: "plain_event e s \<Longrightarrow> e \<noteq> SessionFailed x"
  by (auto simp: plain_event_def)

interpretation failed: session_laws "failed_events_ok dl" for dl
proof unfold_locales
  show "failed_events_ok dl (s\<lparr>sn_last_type := ty, sn_last_fields := fs\<rparr>)" if "failed_events_ok dl s" for s ty fs
    by (rule failed_view [OF _ _ that]) simp_all
  show "failed_events_ok dl (s\<lparr>sn_pending_close_id := Some i\<rparr>)" if "failed_events_ok dl s" for s i
    by (rule failed_view [OF _ _ that]) simp_all
  show "failed_events_ok dl (remember_client_event ev s)" if "failed_events_ok dl s" for s ev
    by (rule failed_view [OF _ _ that]) (simp_all add: events_of_view [OF remember_client_event_views(3)])
  show "failed_events_ok dl (shutdown_connection ((emit_terminal_safe (SessionClosed cl) s)\<lparr>sn_published := True\<rparr>))"
    if "failed_events_ok dl s" for s cl
  proof -
    have "failed_events_ok dl (emit_terminal_safe (SessionClosed cl) s)"
      by (rule failed_plain(2) [OF that refl refl]) simp
    then show ?thesis
      by (rule failed_views [rotated -1]) simp_all
  qed
qed (auto intro: failed_capture failed_finish failed_plain dest: plain_not_failed elim: failed_views [rotated -1])

section \<open>A run of the session\<close>

definition beyond :: "system \<Rightarrow> rt_event list \<Rightarrow> session \<Rightarrow> bool" where
  \<comment> \<open>a state of the session reached from \<open>y\<close>\<close>
  "beyond y dl s \<longleftrightarrow>
     session_ok dl s \<and> tools_above (sn_tools (sy_session y)) s \<and> cause_kept (sn_failure (sy_session y)) s
     \<and> failed_events_ok dl s"

interpretation beyond: session_invariant "beyond y dl" for y dl
proof -
  have "session_laws (beyond y dl)"
    unfolding beyond_def [abs_def]
    by (intro session_laws_conj session_ok_laws above.session_laws_axioms cause.session_laws_axioms
        failed.session_laws_axioms)
  moreover have "tools_above ts (s\<lparr>sn_input_pending_frames := n, sn_input_pending_bytes := b\<rparr>) = tools_above ts s"
    "cause_kept f (s\<lparr>sn_input_pending_frames := n, sn_input_pending_bytes := b\<rparr>) = cause_kept f s"
    "failed_events_ok dl (s\<lparr>sn_input_pending_frames := n, sn_input_pending_bytes := b\<rparr>) = failed_events_ok dl s"
    for s n b ts f
    by (simp_all add: tools_above_def cause_kept_def failed_events_ok_def)
  ultimately show "session_invariant (beyond y dl)"
    unfolding session_invariant_def session_calls_def session_calls_axioms_def session_context_def
      session_context_axioms_def session_laws_def
    using session_ok_context [of dl] by (simp only: beyond_def session_ok_pending) blast
qed

lemma take_fields:
  assumes "take_event s = Some (x, t)"
  shows "sn_failure t = sn_failure s" "sn_tools t = sn_tools s"
  using take_views(2,4) [OF assms] by (simp_all add: failure_view_def tool_view_def)

lemma take_log:
  assumes "take_event s = Some (x, t)"
  shows "set ((case x of None \<Rightarrow> [] | Some e \<Rightarrow> [e]) @ sn_events t) \<subseteq> set (sn_events s)"
  by (rule take_event_cases [OF assms]) auto

lemma take_beyond:
  assumes s: "beyond y dl s" and t: "take_event s = Some (x, t)"
  shows "beyond y (dl @ (case x of None \<Rightarrow> [] | Some e \<Rightarrow> [e])) t"
proof -
  have "session_ok (dl @ (case x of None \<Rightarrow> [] | Some e \<Rightarrow> [e])) t"
    by (rule take_ok [OF _ t]) (use s in \<open>simp add: beyond_def\<close>)
  moreover have "tools_above (sn_tools (sy_session y)) t" "cause_kept (sn_failure (sy_session y)) t"
    using s take_fields [OF t] by (simp_all add: beyond_def tools_above_def cause_kept_def)
  moreover have "failed_events_ok (dl @ (case x of None \<Rightarrow> [] | Some e \<Rightarrow> [e])) t"
    using s take_fields(1) [OF t] take_log [OF t] by (auto simp: beyond_def failed_events_ok_def)
  ultimately show ?thesis
    by (simp add: beyond_def)
qed

lemma beyond_call:
  assumes s: "beyond y dl s" and t: "call_step s t \<or> context_step s t \<or> tool_call_step s t"
  shows "beyond y dl t"
  using t
proof (elim disjE)
  assume "call_step s t"
  then show ?thesis
    using s unfolding call_step_def
    by (elim disjE exE conjE)
       (simp_all add: beyond.P_start beyond.P_send_done beyond.P_remember beyond.P_cancel_begin
         beyond.P_truncate beyond.P_close_begin)
next
  assume "context_step s t"
  then show ?thesis
    using s unfolding context_step_def
    by (elim disjE exE conjE)
       (simp_all add: beyond.P_append beyond.P_inject_begin beyond.P_inject_sent beyond.P_inject_acked)
next
  assume "tool_call_step s t"
  then show ?thesis
    using s unfolding tool_call_step_def
    by (elim disjE exE conjE)
       (simp_all add: beyond.P_submit beyond.P_attempt_begin beyond.P_result_sent beyond.P_attempt_acked
         beyond.P_followup_sent)
qed

lemma beyond_step:
  assumes ok: "system_ok z" and z: "beyond y (sy_log z) (sy_session z)" and step: "session_step z w"
  shows "beyond y (sy_log w) (sy_session w)"
  using step
proof cases
  case (step_call s)
  then show ?thesis
    using beyond_call [OF z] by simp
next
  case (step_receive i l)
  then show ?thesis
    using beyond.P_receive [OF z, of i] by simp
next
  case (step_deliver x s)
  then show ?thesis
    using take_beyond [OF z] by simp
next
  case (step_audio pcm built ev s)
  then show ?thesis
    using beyond.P_audio_begin [OF z, of built pcm]
    by (auto simp: send_audio_begin_def Let_def split: sum.splits)
next
  case (step_audio_refused pcm built e s)
  then show ?thesis
    using z by (auto simp: send_audio_begin_def Let_def beyond.P_pending split: sum.splits)
next
  case (step_audio_done pcm ev outcome res s)
  then show ?thesis
    using beyond.P_audio_end [OF z, of pcm ev outcome] by simp
next
  case (step_close_claim built res s)
  have "beyond y (sy_log z) (snd (controlled_close_begin built (sy_session z)))"
    by (rule beyond.P_controlled_begin [OF z]) (rule step_close_claim(4))
  then show ?thesis
    using step_close_claim by simp
next
  case (step_close_written ev i outcome wait s)
  have "printable_id i"
    using ok by (simp add: step_close_written(2) system_ok_def close_phase_ok_def)
  then show ?thesis
    using step_close_written beyond.P_controlled_sent [OF z, of i ev outcome] by simp
next
  case (step_close_end waited wait reason)
  have "close_intent (sy_session z)"
    using ok by (simp add: step_close_end(2) system_ok_def close_phase_ok_def)
  then show ?thesis
    using step_close_end beyond.P_controlled_end [OF z] by (simp add: close_intent_def)
qed (use z in simp_all)

definition system_le :: "system \<Rightarrow> system \<Rightarrow> bool" where
  \<comment> \<open>tool calls advance, the first cause stays, and what was delivered stays delivered\<close>
  "system_le y z \<longleftrightarrow>
     tools_above (sn_tools (sy_session y)) (sy_session z) \<and> cause_kept (sn_failure (sy_session y)) (sy_session z)
     \<and> (\<exists>es. sy_log z = sy_log y @ es)"

definition system_inv :: "system \<Rightarrow> bool" where
  "system_inv y \<longleftrightarrow> system_ok y \<and> failed_events_ok (sy_log y) (sy_session y)"

lemma beyond_self: "system_inv y \<Longrightarrow> beyond y (sy_log y) (sy_session y)"
  by (auto simp: system_inv_def system_ok_def beyond_def tools_above_def cause_kept_def)

lemma system_inv_step: "system_inv y \<Longrightarrow> session_step y z \<Longrightarrow> system_inv z"
  using beyond_step [of y y z] beyond_self [of y] system_step_ok [of y z]
  by (simp add: system_inv_def beyond_def)

lemma log_grows_step: "session_step y z \<Longrightarrow> \<exists>es. sy_log z = sy_log y @ es"
  by (cases rule: session_step.cases) auto

lemma system_le_trans: "system_le x y \<Longrightarrow> system_le y z \<Longrightarrow> system_le x z"
  by (auto simp: system_le_def tools_above_def cause_kept_def) (meson tool_le_trans)+

lemma system_le_refl: "system_le y y"
  by (auto simp: system_le_def tools_above_def cause_kept_def)

lemma session_init_events:
  "session_init env sha req cap generation corr dispatcher seen sent rs = Inr s \<Longrightarrow> sn_events s = []"
  by (auto simp: session_init_def andthen_Inr_iff Let_def)

lemma system_start_inv: "system_start y \<Longrightarrow> system_inv y"
  using system_start_ok [of y]
  by (auto simp: system_inv_def failed_events_ok_def system_start_def dest: session_init_events)

interpretation run: monotone_system system_start session_step system_inv system_le
proof unfold_locales
  show "system_le y z" if "system_inv y" "session_step y z" for y z
    using beyond_step [OF _ beyond_self [OF that(1)] that(2)] that(1) log_grows_step [OF that(2)]
    by (simp add: system_le_def beyond_def system_inv_def)
qed (blast intro: system_start_inv system_inv_step system_le_refl system_le_trans)+

end
