(* ===== verification/Session_Example.thy ===== *)
theory Session_Example
  imports Session_Progress
begin

text \<open>
  An example run of the session, from its construction to the end of the connection: the states that
  witness the properties. A provider frame is a payload that is not JSON together with what the
  adapter decodes it to.
\<close>

section \<open>An example run\<close>

definition example_env :: json_env where
  "example_env = \<lparr>je_float_text = (\<lambda>_. []), je_float_parse = (\<lambda>_. NaN), je_nesting = 50, je_calls = 100\<rparr>"

definition all_on :: feature_set where
  "all_on = \<lparr>fs_server_turn_detection = True, fs_automatic_response = True, fs_interruption = True,
     fs_input_transcription = True, fs_text_output = True, fs_audio_output = True,
     fs_cancel_response = True, fs_truncate_output = True, fs_tool_calling = True, fs_resume = False\<rparr>"

definition example_format :: audio_format where
  "example_format = \<lparr>af_codec = u ''pcm_s16le'', af_sample_rate = 16000, af_channels = 1\<rparr>"

definition example_capability :: rt_capability where
  "example_capability = \<lparr>ca_control_version = u ''1'', ca_sdk_protocol_version = u ''1'',
     ca_provider = u ''p'', ca_wire_protocol = u ''w'', ca_wire_version = u ''1'',
     ca_input_audio = example_format, ca_output_audio = example_format, ca_features = all_on,
     ca_limits = default_limits\<rparr>"

definition example_request :: open_request where
  "example_request = \<lparr>or_external_session_id = u ''s'', or_instructions = u ''i'', or_required_features = [],
     or_input_audio = example_format, or_output_audio = example_format, or_tools = VList []\<rparr>"

definition example_session :: session where
  "example_session = projr (session_init example_env (\<lambda>_. []) example_request example_capability 1 (u ''c'')
     False {} [] [])"

definition frame :: "decoded_event \<Rightarrow> incoming" where
  "frame d = Recv_text (u ''x'') (Inr None) (Inr d)"

definition example_frames :: "incoming list" where
  \<comment> \<open>a response with one text, and its end\<close>
  "example_frames = map frame
     [(decoded (u ''e1''))\<lparr>de_provider_ready := True\<rparr>,
      (decoded (u ''e2''))\<lparr>de_introduced_response_id := Some (u ''r'')\<rparr>,
      (decoded (u ''e3''))\<lparr>de_introduced_item := Some (u ''r'', u ''i''),
        de_introduced_item_detail := Some (u ''r'', u ''i'', 0, u ''message''),
        de_introduced_content := Some (u ''r'', u ''i'', 0, 0)\<rparr>,
      (decoded (u ''e4''))\<lparr>de_events := [OutputText (u ''r'') (u ''i'') 0 0 (u ''hi'') True]\<rparr>,
      (decoded (u ''e5''))\<lparr>de_events := [ResponseFinished (u ''r'') RS_COMPLETED None False]\<rparr>]"

fun played :: "incoming list \<Rightarrow> session \<Rightarrow> session option" where
  "played [] s = Some s"
| "played (i # is) s =
    (let l = receive_one i s in if receiver_after l = Rx_waiting then played is (loop_state l) else None)"

definition example_played :: session where
  "example_played = the (played example_frames example_session)"

lemma example_run:
  \<comment> \<open>the frames are played, and then the connection ends\<close>
  "case played example_frames example_session of
     None \<Rightarrow> False
   | Some s \<Rightarrow>
       sn_events s =
         [SessionReady 1 (u ''c'') example_format example_format False,
          OutputText (u ''r'') (u ''i'') 0 0 (u ''hi'') True, ResponseFinished (u ''r'') RS_COMPLETED None False]
       \<and> (case receive_one Recv_eof s of
            Continue t \<Rightarrow> False
          | Return t \<Rightarrow> sn_published t \<and> map (\<lambda>e. (is_terminal e, finishes (u ''r'') e)) (sn_events t) =
              [(False, False), (False, False), (False, True), (True, False)])"
  by code_simp

lemma example_played_events:
  "played example_frames example_session \<noteq> None \<and> sn_events example_played =
     [SessionReady 1 (u ''c'') example_format example_format False,
      OutputText (u ''r'') (u ''i'') 0 0 (u ''hi'') True, ResponseFinished (u ''r'') RS_COMPLETED None False]"
  using example_run by (auto simp: example_played_def split: option.splits)

lemma reach_session_step:
  "reach system_start session_step y \<Longrightarrow> session_step y z \<Longrightarrow> reach system_start session_step z"
  by (rule reach_step)

lemma reach_played:
  "reach system_start session_step y \<Longrightarrow> sy_receiver y = Rx_waiting \<Longrightarrow> list_all incoming_ok is \<Longrightarrow>
   played is (sy_session y) = Some s \<Longrightarrow> reach system_start session_step (y\<lparr>sy_session := s\<rparr>)"
proof (induction "is" arbitrary: y)
  case (Cons i "is")
  define l where "l = receive_one i (sy_session y)"
  have l: "receiver_after l = Rx_waiting" "played is (loop_state l) = Some s"
    using Cons.prems(4) by (simp_all add: l_def Let_def split: if_splits)
  let ?z = "y\<lparr>sy_session := loop_state l, sy_receiver := receiver_after l\<rparr>"
  have "session_step y ?z"
    by (rule step_receive) (use Cons.prems in \<open>simp_all add: l_def\<close>)
  then have "reach system_start session_step ?z"
    by (rule reach_session_step [OF Cons.prems(1)])
  then have "reach system_start session_step (?z\<lparr>sy_session := s\<rparr>)"
    by (rule Cons.IH) (use Cons.prems l in simp_all)
  moreover have "y\<lparr>sy_receiver := Rx_waiting, sy_session := s\<rparr> = y\<lparr>sy_session := s\<rparr>"
    using Cons.prems(2) by (cases y) simp
  ultimately show ?case
    using l by simp
next
  case Nil
  then have "s = sy_session y"
    by simp
  moreover have "y\<lparr>sy_session := sy_session y\<rparr> = y"
    by (cases y) simp
  ultimately show ?case
    using Nil.prems(1) by (simp only:)
qed

definition example_start :: system where
  "example_start = \<lparr>sy_session = example_session, sy_log = [], sy_audio = [], sy_receiver = Rx_none,
     sy_close = Close_idle\<rparr>"

definition example_system :: system where
  \<comment> \<open>the frames have been received, nothing was delivered\<close>
  "example_system = example_start\<lparr>sy_receiver := Rx_waiting, sy_session := example_played\<rparr>"

definition example_end :: system where
  \<comment> \<open>the connection ended\<close>
  "example_end = example_system\<lparr>sy_session := loop_state (receive_one Recv_eof example_played),
     sy_receiver := receiver_after (receive_one Recv_eof example_played)\<rparr>"

lemma example_start: "system_start example_start"
proof -
  have "case session_init example_env (\<lambda>_. []) example_request example_capability 1 (u ''c'') False {} [] []
      of Inr s \<Rightarrow> True | Inl e \<Rightarrow> False"
    by code_simp
  then have "session_init example_env (\<lambda>_. []) example_request example_capability 1 (u ''c'') False {} [] []
      = Inr example_session"
    by (auto simp: example_session_def split: sum.splits)
  moreover have "limits_error (ca_limits example_capability) = None"
    by code_simp
  ultimately have "\<exists>env sha req cap generation corr dispatcher seen sent rs.
        session_init env sha req cap generation corr dispatcher seen sent rs = Inr example_session
        \<and> limits_error (ca_limits cap) = None \<and> 1 \<le> generation
        \<and> (\<forall>i t. map_of sent i = Some t \<longrightarrow> printable_id i \<and> stable_metadata t)"
    by (metis map_of.simps(1) option.distinct(1) order_refl)
  then show ?thesis
    by (simp add: system_start_def example_start_def)
qed

lemma example_frames_ok: "list_all incoming_ok example_frames"
  by (simp add: example_frames_def frame_def incoming_ok_def decoded_ok_def)

lemma example_system: "reach system_start session_step example_system"
proof -
  have "reach system_start session_step (example_start\<lparr>sy_receiver := Rx_waiting\<rparr>)"
    by (rule reach_session_step [OF reach_start [of system_start _ session_step, OF example_start]])
       (rule step_receiver, simp add: example_start_def)
  moreover have "played example_frames example_session = Some example_played"
    using example_played_events by (simp add: example_played_def)
  ultimately have "reach system_start session_step ((example_start\<lparr>sy_receiver := Rx_waiting\<rparr>)\<lparr>sy_session := example_played\<rparr>)"
    by (intro reach_played [OF _ _ example_frames_ok]) (simp_all add: example_start_def)
  then show ?thesis
    by (simp add: example_system_def)
qed

lemma example_last_step: "session_step example_system example_end"
  unfolding example_end_def
proof (rule step_receive)
  show "receive_one Recv_eof (sy_session example_system) = receive_one Recv_eof example_played"
    by (simp add: example_system_def)
qed (simp_all add: example_system_def incoming_ok_def)

lemma example_end: "reach system_start session_step example_end"
  by (rule reach_session_step [OF example_system example_last_step])

lemma example_end_events:
  "sn_published (sy_session example_end) \<and>
   map (\<lambda>e. (is_terminal e, finishes (u ''r'') e)) (sn_events (sy_session example_end)) =
     [(False, False), (False, False), (False, True), (True, False)]"
  using example_run
  by (auto simp: example_end_def example_system_def example_played_def split: option.splits loop.splits)

end
