(* ===== verification/Session_Properties.thy ===== *)
theory Session_Properties
  imports Session_Example
begin

text \<open>
  The properties of the session: the facts of \<open>run\<close>, the interpretation of the transition system, read
  off the invariant.
\<close>

section \<open>Properties\<close>

lemma reached_ok:
  assumes "reach system_start session_step y"
  shows "session_ok (sy_log y) (sy_session y)" "audio_ok (sy_audio y) (sy_session y)"
    "failed_events_ok (sy_log y) (sy_session y)"
  using run.inv_reach [OF assms] by (simp_all add: system_inv_def system_ok_def)

text \<open>
  C1. Whatever the interleaving of the receive loop, the product's calls, the tool attempts and the
  closing task, the session ends with exactly one terminal event: none is queued or delivered before
  the terminal is published, exactly one afterwards, the product never gets two, and the connection is
  shut down exactly when the terminal is published.
\<close>

theorem single_terminal:
  assumes "reach system_start session_step y"
  shows "terminals (sy_log y @ sn_events (sy_session y)) = (if sn_published (sy_session y) then 1 else 0)
    \<and> terminals (sy_log y) \<le> 1
    \<and> (sn_shutdown (sy_session y) \<longleftrightarrow> sn_published (sy_session y))"
  using reached_ok(1) [OF assms] by (auto simp: session_ok_def life_ok_def split: if_splits)

theorem single_terminal_witness:
  "terminals (sn_events (sy_session example_end)) = 1 \<and> sn_shutdown (sy_session example_end)"
  using single_terminal [OF example_end] example_end_events
  by (simp add: example_end_def example_system_def example_start_def)

text \<open>
  C2. No output of a response is delivered after its end: once \<^verbatim>\<open>ResponseFinished\<close> of a response is in what
  the product received or will receive, neither text or audio of that response (nor the start or the end of
  its audio), nor a tool call of it, nor a second end of it follows. The announcement \<^verbatim>\<open>ResponseStarted\<close> is
  not among these events: the session passes it on as the adapter made it.
\<close>

theorem response_end_is_last:
  assumes "reach system_start session_step y"
    and "sy_log y @ sn_events (sy_session y) = before @ e # after" and "finishes r e"
  shows "\<forall>x\<in>set after. \<not> concerns r x"
  using reached_ok(1) [OF assms(1)] assms(2,3)
  by (simp add: session_ok_def log_ok_def settled_append list_all_iff)

theorem response_end_is_last_witness:
  "\<exists>last. set (drop 3 (sn_events (sy_session example_end))) = {last} \<and> is_terminal last
     \<and> \<not> concerns (u ''r'') last"
proof -
  let ?q = "sn_events (sy_session example_end)"
  obtain a b c d where q: "?q = [a, b, c, d]" "finishes (u ''r'') c" "is_terminal d"
    using example_end_events by (auto simp: map_eq_Cons_conv)
  have "sy_log example_end = []"
    by (simp add: example_end_def example_system_def example_start_def)
  then have "sy_log example_end @ ?q = [a, b] @ c # [d]"
    by (simp add: q)
  from response_end_is_last [OF example_end this q(2)] show ?thesis
    using q by auto
qed

text \<open>
  Text and audio are delivered only for a content that the provider introduced, in an item that it
  introduced, of a response that it announced; and a tool call is delivered at most once and only
  for a call the session keeps a record of.
\<close>

lemma output_is_introduced:
  assumes "reach system_start session_step y"
    and "e \<in> set (sy_log y @ sn_events (sy_session y))"
  shows "(\<forall>r i oi ci. output_place_of e = Some (r, i, oi, ci) \<longrightarrow>
            (r, i, oi, ci) \<in> sn_contents (sy_session y) \<and> (r, i) \<in> sn_items (sy_session y)
            \<and> r \<in> sn_responses (sy_session y))
    \<and> (\<forall>c before after. requests c e \<and> sy_log y @ sn_events (sy_session y) = before @ e # after \<longrightarrow>
            map_of (sn_tools (sy_session y)) c \<noteq> None \<and> (\<forall>x\<in>set after. \<not> requests c x))"
proof -
  have known: "event_known (sy_session y) e" and calls: "calls_once (sy_log y @ sn_events (sy_session y))"
    and places: "response_places_ok (sy_session y)"
    using reached_ok(1) [OF assms(1)] assms(2) by (simp_all add: session_ok_def log_ok_def responses_ok_def)
  have "r \<in> sn_responses (sy_session y) \<and> (r, i) \<in> sn_items (sy_session y)"
    if "(r, i, oi, ci) \<in> sn_contents (sy_session y)" for r i oi ci
    using places that unfolding response_places_ok_def by force
  moreover have "\<forall>x\<in>set after. \<not> requests c x"
    if "requests c e" "sy_log y @ sn_events (sy_session y) = before @ e # after" for c before after
    using calls that(1) unfolding that(2) by (simp add: calls_once_append list_all_iff)
  ultimately show ?thesis
    using known unfolding event_known_def by blast
qed

text \<open>
  C6. At most two responses are live at a time, and at most one of them is not being cancelled; the
  response a cancellation would apply to is one of them.
\<close>

theorem live_responses_bounded:
  assumes "reach system_start session_step y"
  shows "card (live_responses (sy_session y)) \<le> 2
    \<and> card (live_responses (sy_session y) - sn_cancelled (sy_session y)) \<le> 1
    \<and> (\<forall>r. current_response (sy_session y) = Some r \<longrightarrow> r \<in> live_responses (sy_session y))"
  using reached_ok(1) [OF assms] invariant.current_response_live [OF reached_ok(1) [OF assms]]
  by (simp add: session_ok_def responses_ok_def)

theorem live_responses_bounded_witness: "card (live_responses (sy_session example_end)) \<le> 2"
  using live_responses_bounded [OF example_end] by simp

text \<open>
  C4. The output queue's counters are exact in every reachable state, and until the terminal sequence
  begins the queue is within the frame and byte limits of the capability.
\<close>

theorem output_queue_bounded:
  assumes "reach system_start session_step y"
  shows "sn_queued_frames (sy_session y) = int (length (sn_events (sy_session y)))
    \<and> sn_queued_bytes (sy_session y)
        = sum_list (map (event_size (cf_env (sn_cfg (sy_session y)))) (sn_events (sy_session y)))
    \<and> (\<not> sn_sequence_started (sy_session y) \<longrightarrow>
          sn_queued_frames (sy_session y) \<le> li_output_queue_frames (limits_of (sy_session y))
          \<and> sn_queued_bytes (sy_session y) \<le> li_output_queue_bytes (limits_of (sy_session y)))"
proof -
  have "size_of (sy_session y) = event_size (cf_env (sn_cfg (sy_session y)))"
    by (simp add: size_of_def fun_eq_iff)
  then show ?thesis
    using reached_ok(1) [OF assms] by (auto simp: session_ok_def queue_ok_def)
qed

theorem output_queue_bounded_witness: "sn_queued_frames (sy_session example_end) = 4"
proof -
  have "length (map is_terminal (sn_events (sy_session example_end))) = 4"
    using example_end_events by (auto simp: map_eq_Cons_conv)
  then show ?thesis
    using output_queue_bounded [OF example_end] by simp
qed

text \<open>
  C5. The accounting of audio in flight is exact: the pending frames and bytes are those of the writes
  that have begun and not ended, whatever the outcome of the others, and they stay within the limits.
\<close>

theorem input_accounting_exact:
  assumes "reach system_start session_step y"
  shows "sn_input_pending_frames (sy_session y) = int (length (sy_audio y))
    \<and> sn_input_pending_bytes (sy_session y) = sum_list (map (\<lambda>pcm. int (length pcm)) (sy_audio y))
    \<and> sn_input_pending_frames (sy_session y) \<le> li_input_queue_frames (limits_of (sy_session y))
    \<and> sn_input_pending_bytes (sy_session y) \<le> li_input_queue_bytes (limits_of (sy_session y))"
  using reached_ok(2) [OF assms] by (simp add: audio_ok_def)

theorem input_accounting_exact_witness: "sn_input_pending_frames (sy_session example_end) = 0"
  using input_accounting_exact [OF example_end]
  by (simp add: example_end_def example_system_def example_start_def)

definition example_call_frames :: "incoming list" where
  \<comment> \<open>a response that calls a tool which is not in the catalog\<close>
  "example_call_frames = map frame
     [(decoded (u ''e1''))\<lparr>de_provider_ready := True\<rparr>,
      (decoded (u ''e2''))\<lparr>de_introduced_response_id := Some (u ''r'')\<rparr>,
      (decoded (u ''e3''))\<lparr>de_introduced_item := Some (u ''r'', u ''i''),
        de_introduced_item_detail := Some (u ''r'', u ''i'', 0, u ''function_call'')\<rparr>,
      (decoded (u ''e4''))\<lparr>de_events := [ToolCallRequested (u ''r'') (u ''c1'') (u ''f'') (u ''x'') 0],
        de_tool_call_identity := Some (u ''r'', u ''i'', 0, u ''c1'')\<rparr>]"

definition example_called :: session where
  "example_called = the (played example_call_frames example_session)"

definition example_result_sent :: session where
  \<comment> \<open>the result was sent\<close>
  "example_result_sent = snd (attempt_begin (u ''c1'') (u ''out'')
     (Inr ([(u ''event_id'', vs ''x1'')], Inr ())) (Inl KeyErr) example_called)"

definition example_call :: system where
  "example_call = example_start\<lparr>sy_receiver := Rx_waiting, sy_session := example_result_sent\<rparr>"

definition example_over :: session where
  "example_over = loop_state (receive_one Recv_eof example_result_sent)"

lemma example_call_run:
  \<comment> \<open>the session in which the call is open, and the record of the call before and after the first write\<close>
  "case played example_call_frames example_session of
     None \<Rightarrow> False
   | Some s \<Rightarrow>
       (case require_active s of Inr _ \<Rightarrow> True | Inl _ \<Rightarrow> False)
       \<and> fs_tool_calling (ca_features (cf_capability (sn_cfg s)))
       \<and> list_all (\<lambda>out. out \<noteq> [] \<and> encodable out \<and> int (utf8_len out) \<le> li_tool_payload_bytes (limits_of s))
            [u ''a'', u ''b'']
       \<and> map_option (\<lambda>r. (tr_output r, tr_attempt r = Live_attempt, tr_state r)) (map_of (sn_tools s) (u ''c1''))
           = Some (None, False, TS_REQUESTED)
       \<and> map_option (\<lambda>r. (tr_state r, tr_output r, tr_result_payload r))
            (map_of (sn_tools (snd (attempt_begin (u ''c1'') (u ''out'')
               (Inr ([(u ''event_id'', vs ''x1'')], Inr ())) (Inl KeyErr) s))) (u ''c1''))
           = Some (TS_RESULT_SENT, Some (u ''out''), Some [(u ''event_id'', vs ''x1'')])"
  by code_simp

lemma example_called_record:
  "played example_call_frames example_session \<noteq> None
   \<and> map_option (\<lambda>r. (tr_state r, tr_output r, tr_result_payload r))
       (map_of (sn_tools example_result_sent) (u ''c1''))
     = Some (TS_RESULT_SENT, Some (u ''out''), Some [(u ''event_id'', vs ''x1'')])"
  using example_call_run by (auto simp: example_called_def example_result_sent_def split: option.splits)

lemma example_call: "reach system_start session_step example_call"
proof -
  have start: "reach system_start session_step (example_start\<lparr>sy_receiver := Rx_waiting\<rparr>)"
    by (rule reach_session_step [OF reach_start [of system_start _ session_step, OF example_start]])
       (rule step_receiver, simp add: example_start_def)
  have "list_all incoming_ok example_call_frames"
    by (simp add: example_call_frames_def frame_def incoming_ok_def decoded_ok_def)
  moreover have "played example_call_frames example_session = Some example_called"
    using example_called_record by (simp add: example_called_def)
  ultimately have "reach system_start session_step
      ((example_start\<lparr>sy_receiver := Rx_waiting\<rparr>)\<lparr>sy_session := example_called\<rparr>)"
    by (intro reach_played [OF start]) (simp_all add: example_start_def)
  moreover have "session_step ((example_start\<lparr>sy_receiver := Rx_waiting\<rparr>)\<lparr>sy_session := example_called\<rparr>)
      (((example_start\<lparr>sy_receiver := Rx_waiting\<rparr>)\<lparr>sy_session := example_called\<rparr>)
        \<lparr>sy_session := example_result_sent\<rparr>)"
  proof (rule step_call)
    have "printable_id (map of_char ''x1'')"
      by code_simp
    then have "built_ok (Inr ([(u ''event_id'', vs ''x1'')], Inr ()))"
      by (simp add: built_ok_def client_event_ok_def dget_def u_def)
    moreover have "built_ok (Inl KeyErr)"
      by (simp add: built_ok_def)
    ultimately have "tool_call_step example_called example_result_sent"
      unfolding tool_call_step_def example_result_sent_def by blast
    then show "call_step (sy_session ((example_start\<lparr>sy_receiver := Rx_waiting\<rparr>)\<lparr>sy_session := example_called\<rparr>)) example_result_sent
      \<or> context_step (sy_session ((example_start\<lparr>sy_receiver := Rx_waiting\<rparr>)\<lparr>sy_session := example_called\<rparr>)) example_result_sent
      \<or> tool_call_step (sy_session ((example_start\<lparr>sy_receiver := Rx_waiting\<rparr>)\<lparr>sy_session := example_called\<rparr>)) example_result_sent"
      by simp
  qed
  ultimately have "reach system_start session_step
      (((example_start\<lparr>sy_receiver := Rx_waiting\<rparr>)\<lparr>sy_session := example_called\<rparr>)\<lparr>sy_session := example_result_sent\<rparr>)"
    by (rule reach_session_step)
  then show ?thesis
    by (simp add: example_call_def)
qed

lemma example_call_ends:
  "session_step\<^sup>*\<^sup>* example_call (example_call\<lparr>sy_session := example_over, sy_receiver := Rx_ended\<rparr>)"
proof -
  have over: "receiver_after (receive_one Recv_eof example_result_sent) = Rx_ended"
    by (simp add: receive_one_def receive_eof_def receiver_after_def)
  have "session_step example_call (example_call\<lparr>sy_session := loop_state (receive_one Recv_eof example_result_sent),
      sy_receiver := receiver_after (receive_one Recv_eof example_result_sent)\<rparr>)"
    by (rule step_receive [where i = Recv_eof]) (simp_all add: example_call_def incoming_ok_def)
  then show ?thesis
    unfolding over example_over_def by (rule r_into_rtranclp [of session_step])
qed

text \<open>
  C3. A tool call only advances: over any run its state never goes back, the output that was accepted
  with the first write never changes, and a retry writes the very payload that was written before,
  for the result and for the request of the response alike.
\<close>

theorem tool_calls_advance:
  assumes "reach system_start session_step y" and "session_step\<^sup>*\<^sup>* y z"
    and "map_of (sn_tools (sy_session y)) c = Some r"
  shows "\<exists>r'. map_of (sn_tools (sy_session z)) c = Some r'
    \<and> tool_rank (tr_state r) \<le> tool_rank (tr_state r')
    \<and> (tr_state r \<noteq> TS_REQUESTED \<longrightarrow> tr_output r' = tr_output r \<and> tr_output r \<noteq> None
          \<and> tr_result_payload r' = tr_result_payload r \<and> tr_result_payload r \<noteq> None)
    \<and> (tr_state r \<in> {TS_FOLLOWUP_REQUESTED, TS_FOLLOWUP_STARTED} \<longrightarrow>
          tr_followup_payload r' = tr_followup_payload r \<and> tr_followup_payload r \<noteq> None)"
proof -
  have "tools_above (sn_tools (sy_session y)) (sy_session z)"
    using run.le_run [OF run.inv_reach [OF assms(1)] assms(2)] by (simp add: system_le_def)
  then obtain r' where r': "map_of (sn_tools (sy_session z)) c = Some r'" "tool_le r r'"
    using assms(3) unfolding tools_above_def by blast
  have "record_ok r"
    using reached_ok(1) [OF assms(1)] assms(3) by (simp add: session_ok_def tools_ok_def)
  then show ?thesis
    using r' by (auto simp: tool_le_def record_ok_def)
qed

theorem tool_calls_advance_witness:
  "\<exists>r'. map_of (sn_tools example_over) (u ''c1'') = Some r' \<and> tr_output r' = Some (u ''out'')
     \<and> tr_result_payload r' = Some [(u ''event_id'', vs ''x1'')]"
proof -
  obtain r where r: "map_of (sn_tools example_result_sent) (u ''c1'') = Some r" "tr_state r = TS_RESULT_SENT"
    "tr_output r = Some (u ''out'')" "tr_result_payload r = Some [(u ''event_id'', vs ''x1'')]"
    using example_called_record by auto
  have "map_of (sn_tools (sy_session example_call)) (u ''c1'') = Some r"
    using r(1) by (simp add: example_call_def)
  from tool_calls_advance [OF example_call example_call_ends this] show ?thesis
    using r by auto
qed

text \<open>
  The first cause of a failure stays: once a failure context is retained it is the same in every
  later state, the constructor of \<^verbatim>\<open>RealtimeFailureContext\<close> accepts it, and every \<^verbatim>\<open>SessionFailed\<close>
  that is queued or delivered carries it.
\<close>

lemma first_cause_stays:
  assumes "reach system_start session_step y" and "session_step\<^sup>*\<^sup>* y z"
  shows "(sn_failure (sy_session y) \<noteq> None \<longrightarrow> sn_failure (sy_session z) = sn_failure (sy_session y))
    \<and> (\<forall>f. sn_failure (sy_session z) = Some f \<longrightarrow> failure_error f = None)
    \<and> (\<forall>x. SessionFailed x \<in> set (sy_log z @ sn_events (sy_session z)) \<longrightarrow>
          sf_failure x \<noteq> None \<and> sf_failure x = sn_failure (sy_session z))"
proof -
  have z: "system_inv z"
    by (rule run.inv_run [OF run.inv_reach [OF assms(1)] assms(2)])
  have "cause_kept (sn_failure (sy_session y)) (sy_session z)"
    using run.le_run [OF run.inv_reach [OF assms(1)] assms(2)] by (simp add: system_le_def)
  moreover have "failures_ok (sy_session z)" "failed_events_ok (sy_log z) (sy_session z)"
    using z by (simp_all add: system_inv_def system_ok_def session_ok_def)
  ultimately show ?thesis
    by (auto simp: cause_kept_def failures_ok_def failure_ok_def failed_events_ok_def)
qed

section \<open>Delivery\<close>

primrec drain :: "nat \<Rightarrow> session \<Rightarrow> rt_event list \<times> session" where
  \<comment> \<open>\<open>n\<close> turns of \<^verbatim>\<open>events()\<close>, as long as there is something to take\<close>
  "drain 0 s = ([], s)"
| "drain (Suc n) s =
    (case take_event s of
       None \<Rightarrow> ([], s)
     | Some (x, t) \<Rightarrow>
         (case drain n t of (es, r) \<Rightarrow> ((case x of None \<Rightarrow> es | Some e \<Rightarrow> e # es), r)))"

definition deliverable :: "session \<Rightarrow> rt_event \<Rightarrow> bool" where
  "deliverable s e \<longleftrightarrow> is_current s \<or> is_terminal e"

lemma current_taken [simp]: "is_current (taken e es s) = is_current s"
  by (simp add: taken_def is_current_def session_table_def)

lemma take_event_eq:
  "sn_events s = e # es \<Longrightarrow> take_event s =
    (if deliverable s e then Some (Some e, taken e es s)
     else Some (None, (taken e es s)\<lparr>sn_late := sn_late s + 1\<rparr>))"
  using current_taken [of e es s]
  by (simp add: take_event_def Let_def taken_def deliverable_def is_current_def session_table_def)

lemma deliverable_after: "take_event s = Some (x, t) \<Longrightarrow> deliverable t = deliverable s"
  by (rule take_event_cases, assumption)
     (auto simp: deliverable_def fun_eq_iff taken_def is_current_def session_table_def)

lemma drain_all:
  "drain (length (sn_events s)) s = (es, t) \<Longrightarrow>
   es = filter (deliverable s) (sn_events s) \<and> sn_events t = []"
proof (induction "sn_events s" arbitrary: s es t)
  case Nil
  then show ?case
    by simp
next
  case (Cons e q)
  obtain x s1 where s1: "take_event s = Some (x, s1)"
    using take_event_eq [OF Cons.hyps(2) [symmetric]] by (auto split: if_splits)
  have q: "sn_events s1 = q" and x: "x = (if deliverable s e then Some e else None)"
    using s1 take_event_eq [OF Cons.hyps(2) [symmetric]] by (auto split: if_splits)
  obtain fs where fs: "drain (length (sn_events s1)) s1 = (fs, t)"
    "es = (case x of None \<Rightarrow> fs | Some e \<Rightarrow> e # fs)"
    using Cons.prems by (auto simp: Cons.hyps(2) [symmetric] s1 q split: prod.splits)
  have "fs = filter (deliverable s) q \<and> sn_events t = []"
    using Cons.hyps(1) [OF q [symmetric] fs(1)] deliverable_after [OF s1] by (simp add: q)
  then show ?case
    using fs(2) x by (simp add: Cons.hyps(2) [symmetric])
qed

text \<open>
  C7. The product can always drain the queue: as many turns of \<^verbatim>\<open>events()\<close> as there are queued events
  yield, in order, every event if the generation is current and exactly the terminal ones if it is not,
  and leave the queue empty; from a state where the terminal is published and was not delivered yet, the
  product receives it.
\<close>

theorem queue_drains:
  assumes "reach system_start session_step y"
    and "drain (length (sn_events (sy_session y))) (sy_session y) = (es, t)"
  shows "es = filter (deliverable (sy_session y)) (sn_events (sy_session y)) \<and> sn_events t = []
    \<and> (sn_published (sy_session y) \<and> terminals (sy_log y) = 0 \<longrightarrow> terminals es = 1)"
proof -
  have drained: "es = filter (deliverable (sy_session y)) (sn_events (sy_session y))" "sn_events t = []"
    using drain_all [OF assms(2)] by simp_all
  have "filter is_terminal es = filter is_terminal (sn_events (sy_session y))"
    unfolding drained(1) filter_filter by (rule filter_cong) (auto simp: deliverable_def)
  then have "terminals es = terminals (sn_events (sy_session y))"
    by (simp add: terminals_def)
  then show ?thesis
    using drained reached_ok(1) [OF assms(1)] by (auto simp: session_ok_def life_ok_def)
qed

theorem queue_drains_witness:
  "terminals (fst (drain (length (sn_events (sy_session example_end))) (sy_session example_end))) = 1"
proof -
  obtain es t where d: "drain (length (sn_events (sy_session example_end))) (sy_session example_end) = (es, t)"
    by (cases "drain (length (sn_events (sy_session example_end))) (sy_session example_end)")
  have "terminals (sy_log example_end) = 0"
    by (simp add: example_end_def example_system_def example_start_def)
  then show ?thesis
    using queue_drains [OF example_end d] example_end_events d by (metis fst_conv)
qed

section \<open>Two behaviours of the code that its documents exclude\<close>

definition example_write_failed :: session where
  \<comment> \<open>a write of the product times out while the receiver waits for a frame\<close>
  "example_write_failed = snd (send_done [] Send_timeout example_played)"

definition late_frame :: incoming where
  "late_frame = frame ((decoded (u ''e9''))\<lparr>de_events := [SpeechStarted (u ''t'')]\<rparr>)"

definition example_late :: system where
  \<comment> \<open>the receiver takes a frame that had arrived before the shutdown of the connection cancels it\<close>
  "example_late = example_system\<lparr>sy_session := loop_state (receive_one late_frame example_write_failed),
     sy_receiver := receiver_after (receive_one late_frame example_write_failed)\<rparr>"

definition queue_facts :: "session \<Rightarrow> bool list \<times> bool \<times> rt_event" where
  "queue_facts s = (map is_terminal (sn_events s), is_current s, last (sn_events s))"

lemma example_late_queue:
  "queue_facts (loop_state (receive_one late_frame example_write_failed))
   = ([False, False, False, True, False], True, SpeechStarted (u ''t''))"
proof -
  have "case played example_frames example_session of
      None \<Rightarrow> False
    | Some s \<Rightarrow> queue_facts (loop_state (receive_one late_frame (snd (send_done [] Send_timeout s))))
        = ([False, False, False, True, False], True, SpeechStarted (u ''t''))"
    by code_simp
  then show ?thesis
    by (auto simp: example_write_failed_def example_played_def split: option.splits)
qed

text \<open>
  An event can follow the terminal: when a write fails, the terminal is queued before the receiver is
  cancelled, a frame that has already arrived is still applied, and its event is queued after the
  \<^verbatim>\<open>SessionFailed\<close>, from where \<^verbatim>\<open>events()\<close> yields it.
\<close>

lemma event_follows_terminal:
  "reach system_start session_step example_late
   \<and> map is_terminal (sn_events (sy_session example_late)) = [False, False, False, True, False]
   \<and> is_current (sy_session example_late)
   \<and> last (sn_events (sy_session example_late)) = SpeechStarted (u ''t'')"
proof -
  have "client_event_ok []"
    by (simp add: client_event_ok_def dget_def)
  then have "call_step example_played example_write_failed"
    unfolding call_step_def example_write_failed_def by blast
  then have "session_step example_system (example_system\<lparr>sy_session := example_write_failed\<rparr>)"
    by (intro step_call) (simp add: example_system_def)
  then have "reach system_start session_step (example_system\<lparr>sy_session := example_write_failed\<rparr>)"
    by (rule reach_session_step [OF example_system])
  moreover have "session_step (example_system\<lparr>sy_session := example_write_failed\<rparr>) example_late"
  proof -
    have "session_step (example_system\<lparr>sy_session := example_write_failed\<rparr>)
       ((example_system\<lparr>sy_session := example_write_failed\<rparr>)
          \<lparr>sy_session := loop_state (receive_one late_frame example_write_failed),
           sy_receiver := receiver_after (receive_one late_frame example_write_failed)\<rparr>)"
      by (rule step_receive [where i = late_frame])
         (simp_all add: example_system_def late_frame_def frame_def incoming_ok_def decoded_ok_def)
    then show ?thesis
      by (simp add: example_late_def)
  qed
  ultimately have "reach system_start session_step example_late"
    by (rule reach_session_step)
  then show ?thesis
    using example_late_queue by (simp add: example_late_def queue_facts_def)
qed

text \<open>
  C21. A different output can be accepted: while the attempt of the first \<^verbatim>\<open>submit_tool_result\<close> has not
  started, a second call with another valid output passes the check for a changed output and joins the
  attempt, which sends the first output.
\<close>

theorem second_output_joins:
  assumes "require_active s = Inr ()" and "fs_tool_calling (ca_features (cf_capability (sn_cfg s)))"
    and "\<forall>out\<in>{out1, out2}. out \<noteq> [] \<and> encodable out \<and> int (utf8_len out) \<le> li_tool_payload_bytes (limits_of s)"
    and "map_of (sn_tools s) c = Some r" and "tr_output r = None" and "tr_attempt r \<noteq> Live_attempt"
    and "tr_state r = TS_REQUESTED"
  shows "\<exists>t. submit_tool_result c out1 s = (Inr New_attempt, t)
    \<and> submit_tool_result c out2 t = (Inr Join_attempt, t)
    \<and> (\<forall>ev x followup. \<exists>z r'. attempt_begin c out1 (Inr (ev, Inr x)) followup t = (Inr (Write_result ev), z)
         \<and> map_of (sn_tools z) c = Some r' \<and> tr_output r' = Some out1)"
proof -
  let ?t = "s\<lparr>sn_tools := AList.update c (r\<lparr>tr_attempt := Live_attempt\<rparr>) (sn_tools s)\<rparr>"
  have "require_active ?t = Inr ()"
    using assms(1) by (simp add: require_active_def inactive_def is_current_def session_table_def
        split: if_splits)
  moreover have "limits_of ?t = limits_of s"
    by (simp add: limits_of_def)
  ultimately have "submit_tool_result c out2 ?t = (Inr Join_attempt, ?t)"
    using assms by (simp add: submit_tool_result_def update_conv)
  moreover have "submit_tool_result c out1 s = (Inr New_attempt, ?t)"
    using assms by (simp add: submit_tool_result_def)
  moreover have "\<exists>z r'. attempt_begin c out1 (Inr (ev, Inr x)) followup ?t = (Inr (Write_result ev), z)
      \<and> map_of (sn_tools z) c = Some r' \<and> tr_output r' = Some out1" for ev x followup
    using assms(7) by (simp add: attempt_begin_def update_conv put_tool_def Let_def)
  ultimately show ?thesis
    by blast
qed

lemma example_called_open:
  "case require_active example_called of Inr _ \<Rightarrow> True | Inl _ \<Rightarrow> False"
  "fs_tool_calling (ca_features (cf_capability (sn_cfg example_called)))"
  "list_all (\<lambda>out. out \<noteq> [] \<and> encodable out \<and> int (utf8_len out) \<le> li_tool_payload_bytes (limits_of example_called))
     [u ''a'', u ''b'']"
  "map_option (\<lambda>r. (tr_output r, tr_attempt r = Live_attempt, tr_state r))
     (map_of (sn_tools example_called) (u ''c1'')) = Some (None, False, TS_REQUESTED)"
  using example_call_run by (auto simp: example_called_def split: option.splits)

theorem second_output_joins_witness:
  "\<exists>t. submit_tool_result (u ''c1'') (u ''a'') example_called = (Inr New_attempt, t)
     \<and> submit_tool_result (u ''c1'') (u ''b'') t = (Inr Join_attempt, t)"
proof -
  obtain r where r: "map_of (sn_tools example_called) (u ''c1'') = Some r" "tr_output r = None"
    "tr_attempt r \<noteq> Live_attempt" "tr_state r = TS_REQUESTED"
    using example_called_open(4) by auto
  have "require_active example_called = Inr ()"
    using example_called_open(1) by (simp split: sum.splits)
  then show ?thesis
    using second_output_joins [of example_called "u ''a''" "u ''b''", OF _ example_called_open(2) _ r]
      example_called_open(3) by (auto simp: list_all_iff)
qed

end
