(* ===== verification/Json_Roundtrip.thy ===== *)
theory Json_Roundtrip
  imports Json_Text
begin

text \<open>
  Reading what was written: \<^verbatim>\<open>json.loads\<close> after \<^verbatim>\<open>json.dumps\<close> gives the value back, with the keys of every
  object in the order in which they were written. Floats are left out, because their decimal text is a
  parameter; the keys of an object are distinct, and in the ASCII style no text has a surrogate.
\<close>

section \<open>Values that can be written and read\<close>

definition text_ok :: "bool \<Rightarrow> ustr \<Rightarrow> bool" where
  "text_ok ascii s \<longleftrightarrow> ascii \<longrightarrow> list_all (\<lambda>c. \<not> surrogate c \<and> c < 1114112) s"

fun writable :: "bool \<Rightarrow> pyval \<Rightarrow> bool" where
  "writable a (VFloat f) = False"
| "writable a (VTuple xs) = False"
| "writable a (VStr s) = text_ok a s"
| "writable a (VList xs) = (\<forall>x\<in>set xs. writable a x)"
| "writable a (VDict d) = (distinct (map fst d) \<and> (\<forall>kv\<in>set d. text_ok a (fst kv) \<and> writable a (snd kv)))"
| "writable a v = True"

fun written :: "bool \<Rightarrow> pyval \<Rightarrow> pyval" where
  \<comment> \<open>the value with the keys of every object in the order in which they are written\<close>
  "written b (VList xs) = VList (map (written b) xs)"
| "written b (VDict d) =
     VDict ((if b then sort_key fst else id) (map (\<lambda>kv. (fst kv, written b (snd kv))) d))"
| "written b v = v"

definition style_ok :: "json_style \<Rightarrow> bool" where
  "style_ok st \<longleftrightarrow> (js_item_sep st = [44] \<or> js_item_sep st = [44, 32])
     \<and> (js_key_sep st = [58] \<or> js_key_sep st = [58, 32])"

section \<open>Strings\<close>

lemma hex_val_digit [simp]: "n < 16 \<Longrightarrow> hex_val (hex_digit n) = Some n"
  by (auto simp: hex_val_def hex_digit_def is_digit_def)

lemma hex_join: "c < 65536 \<Longrightarrow>
  4096 * (c div 4096 mod 16) + 256 * (c div 256 mod 16) + 16 * (c div 16 mod 16) + c mod 16 = (c :: nat)"
proof -
  assume "c < 65536"
  then have "c div 4096 mod 16 = c div 4096"
    by simp
  moreover have "c div 256 = c div 16 div 16" "c div 4096 = c div 256 div 16"
    by (simp_all add: div_mult2_eq [symmetric])
  ultimately show ?thesis
    using div_mult_mod_eq [of c 16] div_mult_mod_eq [of "c div 16" 16] div_mult_mod_eq [of "c div 256" 16]
    by linarith
qed

lemma read_hex4 [simp]: "c < 65536 \<Longrightarrow> read_hex4 (hex4 c @ r) = Some (c, r)"
  using hex_join [of c] by (simp add: hex4_def del: One_nat_def)

lemma hex4_not_quote: "uescape c = 92 # 117 # hex4 c"
  by (simp add: uescape_def)

lemma read_uescape:
  "c < 65536 \<Longrightarrow> \<not> high_surrogate c \<Longrightarrow> read_char (uescape c @ r) = Some (c, r)"
  by (simp add: hex4_not_quote)

lemma read_surrogates:
  assumes "65536 \<le> c" "c < 1114112"
  shows "read_char (uescape (55296 + (c - 65536) div 1024) @ uescape (56320 + (c - 65536) mod 1024) @ r)
    = Some (c, r)"
proof -
  let ?h = "55296 + (c - 65536) div 1024" and ?l = "56320 + (c - 65536) mod 1024"
  have h: "?h < 65536" "high_surrogate ?h" and l: "?l < 65536" "low_surrogate ?l"
    using assms by (auto simp: high_surrogate_def low_surrogate_def)
  have "join_surrogates ?h ?l = c"
    using assms by (simp add: join_surrogates_def)
  then show ?thesis
    using h l by (simp add: hex4_not_quote)
qed

lemma read_escape_char:
  assumes "ascii \<Longrightarrow> \<not> surrogate c \<and> c < 1114112"
  shows "read_char (escape_char ascii c @ r) = Some (c, r)"
proof (cases "c < 32 \<or> ascii \<and> 126 < c")
  case True
  have "\<not> high_surrogate c" if "c < 65536"
    using assms that True by (auto simp: high_surrogate_def surrogate_def)
  then show ?thesis
    using assms True read_uescape [of c r] read_surrogates [of c r]
    by (simp add: escape_char_def simple_escape_def del: read_char.simps)
       (auto simp: simple_escape_def)
next
  case False
  then show ?thesis
    by (auto simp: escape_char_def simple_escape_def)
qed

lemma escape_char_head: "\<exists>x xs. escape_char ascii c = x # xs \<and> x \<noteq> 34"
  by (auto simp: escape_char_def uescape_def)

lemma read_string_quoted:
  assumes "text_ok ascii s" "length s < f"
  shows "read_string f (concat (map (escape_char ascii) s) @ 34 # r) = Some (s, r)"
  using assms
proof (induction s arbitrary: f)
  case Nil
  then show ?case
    by (cases f) simp_all
next
  case (Cons c s)
  obtain g where g: "f = Suc g" "length s < g"
    using Cons.prems by (cases f) auto
  obtain x xs where x: "escape_char ascii c = x # xs" "x \<noteq> 34"
    using escape_char_head by blast
  have "read_char (escape_char ascii c @ concat (map (escape_char ascii) s) @ 34 # r)
      = Some (c, concat (map (escape_char ascii) s) @ 34 # r)"
    by (rule read_escape_char) (use Cons.prems in \<open>simp add: text_ok_def\<close>)
  moreover have "read_string g (concat (map (escape_char ascii) s) @ 34 # r) = Some (s, r)"
    using Cons.IH [OF _ g(2)] Cons.prems by (simp add: text_ok_def)
  ultimately show ?case
    using x by (simp add: g(1) del: read_char.simps)
qed

lemma escaped_length: "length s \<le> length (concat (map (escape_char ascii) s))"
proof (induction s)
  case (Cons c s)
  obtain x xs where "escape_char ascii c = x # xs"
    using escape_char_head by blast
  then show ?case
    using Cons by simp
qed simp

lemma parse_string:
  assumes "text_ok (js_ascii st) s"
  shows "parse env hk (Suc f) n (quote (js_ascii st) s @ r) = Inr (VStr s, r)"
proof -
  let ?b = "concat (map (escape_char (js_ascii st)) s)"
  have "read_string (length (?b @ 34 # r)) (?b @ 34 # r) = Some (s, r)"
    by (rule read_string_quoted [OF assms]) (use escaped_length [of s "js_ascii st"] in simp)
  then show ?thesis
    by (simp add: quote_def)
qed

section \<open>Numbers\<close>

definition ends :: "ustr \<Rightarrow> bool" where
  \<comment> \<open>a number ends before this text\<close>
  "ends r \<longleftrightarrow> (case r of [] \<Rightarrow> True | c # _ \<Rightarrow> \<not> is_digit c \<and> c \<notin> {46, 101, 69})"

lemma nat_text_digits: "list_all is_digit (nat_text n) \<and> nat_text n \<noteq> []"
proof (induction n rule: nat_text.induct)
  case (1 n)
  then show ?case
    by (cases "n < 10") (simp_all add: nat_text.simps [of n] is_digit_def)
qed

lemma digits_value_append: "digits_value a (s @ t) = digits_value (digits_value a s) t"
  by (induction s arbitrary: a) simp_all

lemma digits_value_text: "digits_value 0 (nat_text n) = n"
proof (induction n rule: nat_text.induct)
  case (1 n)
  then show ?case
    by (subst nat_text.simps) (simp add: digits_value_append)
qed

lemma nat_text_head: "hd (nat_text n) = 48 \<Longrightarrow> nat_text n = [48]"
proof (induction n rule: nat_text.induct)
  case (1 n)
  show ?case
  proof (cases "n < 10")
    case True
    then have "nat_text n = [48 + n]"
      by (simp add: nat_text.simps [of n])
    then show ?thesis
      using "1.prems" by simp
  next
    case False
    have "hd (nat_text (n div 10)) = 48"
      using "1.prems" False nat_text_digits [of "n div 10"] by (simp add: nat_text.simps [of n])
    then have "digits_value 0 (nat_text (n div 10)) = 0"
      using "1.IH" [OF False] by simp
    then have "n div 10 = 0"
      by (simp only: digits_value_text)
    then have False
      using False by simp
    then show ?thesis ..
  qed
qed

lemma takeWhile_digits: "list_all is_digit ds \<Longrightarrow> ends r \<Longrightarrow> takeWhile is_digit (ds @ r) = ds"
  by (induction ds) (auto simp: ends_def split: list.splits)

lemma ends_parts: "ends r \<Longrightarrow> fraction_part r = ([], r) \<and> exponent_part r = ([], r)"
  by (auto simp: ends_def fraction_part_def exponent_part_def split: list.splits)

lemma read_number_text:
  assumes "int_text i = Inr t" "ends r"
  shows "read_number env (t @ r) = Inr (VInt i, r)"
proof -
  let ?ds = "nat_text (nat \<bar>i\<bar>)"
  have t: "t = (if i < 0 then [45] else []) @ ?ds" and short: "\<not> DIGIT_LIMIT < length ?ds"
    using assms(1) by (auto simp: int_text_def Let_def split: if_splits)
  obtain c ds where ds: "?ds = c # ds" "is_digit c"
    using nat_text_digits [of "nat \<bar>i\<bar>"] by (cases ?ds) auto
  have c: "c \<noteq> 45"
    using ds(2) by (auto simp: is_digit_def)
  have zero: "c = 48 \<Longrightarrow> ds = []"
    using nat_text_head [of "nat \<bar>i\<bar>"] ds by simp
  have rest: "takeWhile is_digit (ds @ r) = ds"
    by (rule takeWhile_digits [OF _ assms(2)]) (use nat_text_digits [of "nat \<bar>i\<bar>"] ds in simp)
  have v: "digits_value 0 (c # ds) = nat \<bar>i\<bar>"
    using digits_value_text [of "nat \<bar>i\<bar>"] ds by simp
  show ?thesis
    unfolding t ds(1) read_number_def Let_def
    using short [unfolded ds(1)] c ds(2) v zero rest ends_parts [OF assms(2)]
    by (cases "c = 48"; cases "i < 0") (simp_all add: ds(1) del: digits_value.simps)
qed

lemma literals:
  "u ''null'' = [110, 117, 108, 108]" "u ''true'' = [116, 114, 117, 101]"
  "u ''false'' = [102, 97, 108, 115, 101]" "u ''NaN'' = [78, 97, 78]"
  "u ''Infinity'' = [73, 110, 102, 105, 110, 105, 116, 121]"
  "u ''-Infinity'' = [45, 73, 110, 102, 105, 110, 105, 116, 121]"
  by code_simp+

lemma int_text_head:
  assumes "int_text i = Inr t"
  obtains c s where "t = c # s" "is_digit c"
  | c s where "t = 45 # c # s" "is_digit c"
proof -
  obtain c ds where ds: "nat_text (nat \<bar>i\<bar>) = c # ds" "is_digit c"
    using nat_text_digits [of "nat \<bar>i\<bar>"] by (cases "nat_text (nat \<bar>i\<bar>)") auto
  have "t = (if i < 0 then [45] else []) @ c # ds"
    using assms ds by (simp add: int_text_def Let_def split: if_splits)
  then show thesis
    using that ds(2) by (cases "i < 0") auto
qed

lemma parse_int:
  assumes "int_text i = Inr t" "ends r"
  shows "parse env hk (Suc f) n (t @ r) = Inr (VInt i, r)"
  using assms(1)
proof (cases rule: int_text_head)
  case (1 c s)
  then show ?thesis
    using read_number_text [OF assms, of env]
    by (auto simp: read_atom_def starts_with_def literals is_digit_def)
next
  case (2 c s)
  then show ?thesis
    using read_number_text [OF assms, of env]
    by (auto simp: read_atom_def starts_with_def literals is_digit_def)
qed


section \<open>Values\<close>

lemma sort_key_map: "(\<And>x. k (h x) = k' x) \<Longrightarrow> sort_key k (map h xs) = map h (sort_key k' xs)"
proof (induction xs)
  case (Cons x xs)
  have "insort_key k (h x) (map h ys) = map h (insort_key k' x ys)" for ys
    using Cons.prems by (induction ys) simp_all
  then show ?case
    using Cons by simp
qed simp

lemma texts_of_Inr: "texts_of env st n xs = Inr ts \<longleftrightarrow> list_all2 (\<lambda>x t. text_of env st n x = Inr t) xs ts"
  by (induction xs arbitrary: ts) (auto simp: result_simps list_all2_Cons1)

lemma item_texts_Inr:
  "item_texts env st n d = Inr ts \<Longrightarrow>
   ts = map (\<lambda>kv. (fst kv, projr (text_of env st n (snd kv)))) d
   \<and> (\<forall>kv\<in>set d. text_of env st n (snd kv) = Inr (projr (text_of env st n (snd kv))))"
  by (induction d arbitrary: ts) (auto simp: result_simps)

lemma text_not_empty: "text_of env st n v = Inr t \<Longrightarrow> writable a v \<Longrightarrow> \<exists>c s. t = c # s \<and> \<not> jspace c \<and> c \<noteq> 93 \<and> c \<noteq> 125"
proof (cases v)
  case (VInt i)
  assume "text_of env st n v = Inr t"
  then have "int_text i = Inr t"
    by (simp add: VInt)
  then show ?thesis
    by (cases rule: int_text_head) (auto simp: jspace_def is_digit_def)
qed (auto simp: literals jspace_def quote_def result_simps split: if_splits)

lemma skip_sep:
  assumes "style_ok st" "\<not> jspace c"
  shows "\<exists>r. js_item_sep st @ c # s = 44 # r \<and> skip_ws r = c # s"
    and "\<exists>r. js_key_sep st @ c # s = 58 # r \<and> skip_ws r = c # s"
  using assms by (auto simp: style_ok_def skip_ws_def jspace_def)

lemma join_Cons: "join sep (x # xs) = x @ (if xs = [] then [] else sep @ join sep xs)"
  by (cases xs) simp_all

lemma ends_simps: "ends (93 # r)" "ends (125 # r)" "style_ok st \<Longrightarrow> ends (js_item_sep st @ r)"
  by (auto simp: ends_def is_digit_def style_ok_def)

definition reads :: "json_env \<Rightarrow> json_hooks \<Rightarrow> json_style \<Rightarrow> nat \<Rightarrow> ustr \<Rightarrow> pyval \<Rightarrow> bool" where
  \<comment> \<open>the parser reads the text of a value back\<close>
  "reads env hk st n t v \<longleftrightarrow>
     (\<forall>f r. ends r \<and> 2 * length t \<le> f \<longrightarrow> parse env hk f n (t @ r) = Inr (v, r))"

definition value_text :: "ustr \<Rightarrow> bool" where
  "value_text t \<longleftrightarrow> (\<exists>c s. t = c # s \<and> \<not> jspace c \<and> c \<noteq> 93 \<and> c \<noteq> 125)"

lemma parse_items_texts:
  assumes "style_ok st" "list_all2 (\<lambda>t v. value_text t \<and> reads env hk st n t v) ts xs"
    "ts \<noteq> []" "2 * length (join (js_item_sep st) ts) < f"
  shows "parse_items env hk f n (join (js_item_sep st) ts @ 93 # r) = Inr (xs, r)"
  using assms(2-4)
proof (induction ts arbitrary: xs f)
  case (Cons t ts)
  obtain v ys where v: "xs = v # ys" "value_text t" "reads env hk st n t v"
    "list_all2 (\<lambda>t v. value_text t \<and> reads env hk st n t v) ts ys"
    using Cons.prems(1) by (auto simp: list_all2_Cons1)
  obtain g where g: "f = Suc g" "2 * length t \<le> g"
    using Cons.prems(3) by (cases f) (auto simp: join_Cons)
  show ?case
  proof (cases ts)
    case Nil
    have "parse env hk g n (t @ 93 # r) = Inr (v, 93 # r)"
      using v(3) g(2) ends_simps(1) unfolding reads_def by blast
    then show ?thesis
      using v(1,4) Nil by (simp add: g(1) skip_ws_def jspace_def)
  next
    case (Cons t' ts')
    let ?rest = "join (js_item_sep st) ts @ 93 # r"
    obtain c s where c: "?rest = c # s" "\<not> jspace c"
      using v(4) by (auto simp: Cons list_all2_Cons1 value_text_def join_Cons)
    obtain q where q: "js_item_sep st @ ?rest = 44 # q" "skip_ws q = ?rest"
      using skip_sep(1) [OF assms(1) c(2), of s] unfolding c(1) by blast
    have "parse env hk g n (t @ js_item_sep st @ ?rest) = Inr (v, js_item_sep st @ ?rest)"
      using v(3) g(2) ends_simps(3) [OF assms(1)] unfolding reads_def by blast
    moreover have "parse_items env hk g n ?rest = Inr (ys, r)"
    proof (rule Cons.IH [OF v(4)])
      show "2 * length (join (js_item_sep st) ts) < g"
        using Cons.prems(3) assms(1) by (auto simp: g(1) join_Cons Cons style_ok_def)
    qed (simp add: Cons)
    ultimately show ?thesis
      using q by (simp add: g(1) join_Cons [of _ t] Cons v(1) skip_ws_def jspace_def)
  qed
qed simp

definition item_text :: "json_style \<Rightarrow> ustr \<times> ustr \<Rightarrow> ustr" where
  "item_text st kt = quote (js_ascii st) (fst kt) @ js_key_sep st @ snd kt"

lemma item_text_head: "\<exists>s. item_text st kt @ r = 34 # s"
  by (simp add: item_text_def quote_def)

lemma read_key:
  assumes "text_ok (js_ascii st) k"
  shows "item_text st (k, t) @ r = 34 # concat (map (escape_char (js_ascii st)) k) @ 34 # js_key_sep st @ t @ r
    \<and> read_string (length (concat (map (escape_char (js_ascii st)) k) @ 34 # js_key_sep st @ t @ r))
        (concat (map (escape_char (js_ascii st)) k) @ 34 # js_key_sep st @ t @ r)
      = Some (k, js_key_sep st @ t @ r)"
proof (intro conjI)
  let ?b = "concat (map (escape_char (js_ascii st)) k)" and ?r = "js_key_sep st @ t @ r"
  show "read_string (length (?b @ 34 # ?r)) (?b @ 34 # ?r) = Some (k, ?r)"
    by (rule read_string_quoted [OF assms]) (use escaped_length [of k "js_ascii st"] in simp)
qed (simp add: item_text_def quote_def)

lemma read_pair:
  assumes "style_ok st" "text_ok (js_ascii st) k" "value_text t" "reads env hk st n t v"
    "2 * length t \<le> g" "ends r"
  shows "parse_pairs env hk (Suc g) n (item_text st (k, t) @ r) =
    (let r' = skip_ws r in
     if take 1 r' = [125] then Inr ([(k, v)], drop 1 r')
     else if take 1 r' = [44] then
       andthen (parse_pairs env hk g n (skip_ws (drop 1 r'))) (\<lambda>kvr. Inr ((k, v) # fst kvr, snd kvr))
     else Inl (ValueErr ''Expecting comma delimiter''))"
proof -
  obtain c s where c: "t = c # s" "\<not> jspace c"
    using assms(3) by (auto simp: value_text_def)
  obtain q where q: "js_key_sep st @ t @ r = 58 # q" "skip_ws q = t @ r"
    using skip_sep(2) [OF assms(1) c(2), of "s @ r"] by (auto simp: c(1))
  have "skip_ws (58 # q) = 58 # q"
    by (simp add: skip_ws_def jspace_def)
  moreover have "parse env hk g n (t @ r) = Inr (v, r)"
    using assms(4-6) by (simp add: reads_def)
  moreover note read_key [OF assms(2), of t r, unfolded q(1)]
  ultimately show ?thesis
    using q(2) by (simp add: Let_def del: read_string.simps)
qed

lemma parse_pairs_texts:
  assumes "style_ok st"
    "list_all2 (\<lambda>kt v. text_ok (js_ascii st) (fst kt) \<and> value_text (snd kt) \<and> reads env hk st n (snd kt) v) kts xs"
    "kts \<noteq> []" "2 * length (join (js_item_sep st) (map (item_text st) kts)) < f"
  shows "parse_pairs env hk f n (join (js_item_sep st) (map (item_text st) kts) @ 125 # r)
    = Inr (zip (map fst kts) xs, r)"
  using assms(2-4)
proof (induction kts arbitrary: xs f)
  case (Cons kt kts)
  obtain k t where kt: "kt = (k, t)"
    by (cases kt)
  obtain v ys where v: "xs = v # ys" "text_ok (js_ascii st) k" "value_text t" "reads env hk st n t v"
    "list_all2 (\<lambda>kt v. text_ok (js_ascii st) (fst kt) \<and> value_text (snd kt) \<and> reads env hk st n (snd kt) v) kts ys"
    using Cons.prems(1) by (auto simp: list_all2_Cons1 kt)
  obtain g where g: "f = Suc g" "2 * length t \<le> g"
    using Cons.prems(3) by (cases f) (auto simp: join_Cons kt item_text_def)
  note pair = read_pair [OF assms(1) v(2-4) g(2)]
  show ?case
  proof (cases kts)
    case Nil
    then show ?thesis
      using pair [OF ends_simps(2), of r] v(1,5)
      by (simp add: g(1) kt skip_ws_def jspace_def del: parse_pairs.simps)
  next
    case (Cons kt' kts')
    let ?rest = "join (js_item_sep st) (map (item_text st) kts) @ 125 # r"
    obtain s where c: "?rest = 34 # s"
      using item_text_head [of st kt'] by (auto simp: Cons join_Cons)
    obtain q where q: "js_item_sep st @ ?rest = 44 # q" "skip_ws q = ?rest"
      using skip_sep(1) [OF assms(1), of 34 s] unfolding c by (auto simp: jspace_def)
    have "parse_pairs env hk g n ?rest = Inr (zip (map fst kts) ys, r)"
    proof (rule Cons.IH [OF v(5)])
      show "2 * length (join (js_item_sep st) (map (item_text st) kts)) < g"
        using Cons.prems(3) assms(1) by (auto simp: g(1) join_Cons Cons style_ok_def)
    qed (simp add: Cons)
    moreover have "skip_ws (44 # q) = 44 # q"
      by (simp add: skip_ws_def jspace_def)
    ultimately show ?thesis
      using pair [OF ends_simps(3) [OF assms(1)], of ?rest] q
      by (simp add: g(1) kt join_Cons [of _ "item_text st (k, t)"] Cons v(1) Let_def del: parse_pairs.simps)
  qed
qed simp

lemma parse_atom_text:
  assumes "text_of env' st n v = Inr t" "case v of VList _ \<Rightarrow> False | VDict _ \<Rightarrow> False | _ \<Rightarrow> True"
    "writable (js_ascii st) v"
  shows "reads env hk st n t (written b v)"
  unfolding reads_def
proof (intro allI impI)
  fix f r
  assume r: "ends r \<and> 2 * length t \<le> f"
  obtain c s where "t = c # s"
    using text_not_empty [OF assms(1,3)] by blast
  then obtain g where g: "f = Suc g"
    using r by (cases f) auto
  show "parse env hk f n (t @ r) = Inr (written b v, r)"
    using assms r parse_string [of st _ env hk g n r] parse_int [of _ t r env hk g n]
    by (cases v) (auto simp: g read_atom_def starts_with_def literals)
qed

lemma parse_bracket:
  "\<not> jspace c \<Longrightarrow> c \<noteq> 93 \<Longrightarrow> n \<noteq> 0 \<Longrightarrow> parse env hk (Suc f) n (91 # c # s) =
     andthen (parse_items env hk f (n - 1) (c # s)) (\<lambda>vr. Inr (VList (fst vr), snd vr))"
  by (simp add: skip_ws_def del: parse_items.simps)

lemma parse_brace:
  "n \<noteq> 0 \<Longrightarrow> parse env hk (Suc f) n (123 # 34 # s) =
     andthen (parse_pairs env hk f (n - 1) (34 # s))
       (\<lambda>vr. andthen (pairs_hook hk (fst vr)) (\<lambda>v. Inr (v, snd vr)))"
  by (simp add: skip_ws_def jspace_def del: parse_pairs.simps)

lemma reads_list:
  assumes "style_ok st" "n \<noteq> 0" "list_all2 (\<lambda>t v. value_text t \<and> reads env hk st (n - 1) t v) ts xs"
  shows "reads env hk st n ([91] @ join (js_item_sep st) ts @ [93]) (VList xs)"
  unfolding reads_def
proof (intro allI impI)
  fix f r
  assume r: "ends r \<and> 2 * length ([91] @ join (js_item_sep st) ts @ [93]) \<le> f"
  then obtain g where g: "f = Suc g" "2 * length (join (js_item_sep st) ts) < g"
    by (cases f) auto
  show "parse env hk f n (([91] @ join (js_item_sep st) ts @ [93]) @ r) = Inr (VList xs, r)"
  proof (cases ts)
    case Nil
    then show ?thesis
      using assms(2,3) by (simp add: g(1) skip_ws_def jspace_def)
  next
    case (Cons t ts')
    then obtain c s where c: "join (js_item_sep st) ts @ 93 # r = c # s" "\<not> jspace c" "c \<noteq> 93"
      using assms(3) by (auto simp: list_all2_Cons1 value_text_def join_Cons)
    have "parse_items env hk g (n - 1) (join (js_item_sep st) ts @ 93 # r) = Inr (xs, r)"
      by (rule parse_items_texts [OF assms(1,3) _ g(2)]) (simp add: Cons)
    then show ?thesis
      using parse_bracket [OF c(2,3) assms(2), of env hk g s] by (simp add: g(1) c(1) del: parse.simps)
  qed
qed

lemma reads_dict:
  assumes "style_ok st" "n \<noteq> 0"
    "list_all2 (\<lambda>kt v. text_ok (js_ascii st) (fst kt) \<and> value_text (snd kt) \<and> reads env hk st (n - 1) (snd kt) v) kts xs"
    "distinct (map fst kts)"
  shows "reads env hk st n ([123] @ join (js_item_sep st) (map (item_text st) kts) @ [125])
    (VDict (zip (map fst kts) xs))"
  unfolding reads_def
proof (intro allI impI)
  let ?j = "join (js_item_sep st) (map (item_text st) kts)"
  fix f r
  assume r: "ends r \<and> 2 * length ([123] @ ?j @ [125]) \<le> f"
  then obtain g where g: "f = Suc g" "2 * length ?j < g"
    by (cases f) auto
  have "length kts = length xs"
    using assms(3) by (rule list_all2_lengthD)
  then have hook: "pairs_hook hk (zip (map fst kts) xs) = Inr (VDict (zip (map fst kts) xs))"
    using assms(4) by (simp add: pairs_hook_def)
  show "parse env hk f n (([123] @ ?j @ [125]) @ r) = Inr (VDict (zip (map fst kts) xs), r)"
  proof (cases kts)
    case Nil
    then show ?thesis
      using assms(2,3) by (simp add: g(1) skip_ws_def jspace_def pairs_hook_def)
  next
    case (Cons kt kts')
    then obtain s where c: "?j @ 125 # r = 34 # s"
      using item_text_head [of st kt] by (auto simp: join_Cons)
    have "parse_pairs env hk g (n - 1) (?j @ 125 # r) = Inr (zip (map fst kts) xs, r)"
      by (rule parse_pairs_texts [OF assms(1,3) _ g(2)]) (simp add: Cons)
    then show ?thesis
      using parse_brace [OF assms(2), of env hk g s] hook by (simp add: g(1) c del: parse.simps)
  qed
qed

lemma list_all2_mapI: "(\<And>x. x \<in> set xs \<Longrightarrow> P (f x) (g x)) \<Longrightarrow> list_all2 P (map f xs) (map g xs)"
  by (simp add: list_all2_map1 list_all2_map2 list_all2_same)

lemma zip_keys: "zip (map fst (map f d)) (map g d) = map (\<lambda>x. (fst (f x), g x)) d"
  by (induction d) simp_all

lemma value_textI: "text_of env st n v = Inr t \<Longrightarrow> writable a v \<Longrightarrow> value_text t"
  unfolding value_text_def by (rule text_not_empty)

lemma reads_text:
  "style_ok st \<Longrightarrow> text_of env' st n v = Inr t \<Longrightarrow> writable (js_ascii st) v \<Longrightarrow>
   reads env hk st n t (written (js_sort st) v)"
proof (induction v arbitrary: n t)
  case (VList xs)
  obtain ts where ts: "n \<noteq> 0" "t = [91] @ join (js_item_sep st) ts @ [93]"
    "list_all2 (\<lambda>x t. text_of env' st (n - 1) x = Inr t) xs ts"
    using VList.prems(2) by (auto simp: result_simps texts_of_Inr split: if_splits)
  have "list_all2 (\<lambda>t v. value_text t \<and> reads env hk st (n - 1) t v) ts (map (written (js_sort st)) xs)"
  proof (rule list_all2_all_nthI)
    show "length ts = length (map (written (js_sort st)) xs)"
      using list_all2_lengthD [OF ts(3)] by simp
    fix i
    assume "i < length ts"
    then have i: "i < length xs" "text_of env' st (n - 1) (xs ! i) = Inr (ts ! i)"
      using ts(3) by (simp_all add: list_all2_conv_all_nth)
    then have w: "writable (js_ascii st) (xs ! i)"
      using VList.prems(3) by simp
    show "value_text (ts ! i) \<and> reads env hk st (n - 1) (ts ! i) (map (written (js_sort st)) xs ! i)"
      using value_textI [OF i(2) w] VList.IH [OF nth_mem [OF i(1)] VList.prems(1) i(2) w] i(1) by simp
  qed
  then show ?case
    unfolding ts(2) written.simps by (rule reads_list [OF VList.prems(1) ts(1)])
next
  case (VDict d)
  let ?tx = "\<lambda>kv. projr (text_of env' st (n - 1) (snd kv))" and ?w = "\<lambda>kv. written (js_sort st) (snd kv)"
  let ?d = "if js_sort st then sort_key fst d else d"
  obtain ts where ts: "n \<noteq> 0" "item_texts env' st (n - 1) d = Inr ts"
    "t = [123] @ join (js_item_sep st) (map (item_text st) (if js_sort st then sort_key fst ts else ts)) @ [125]"
    using VDict.prems(2) by (auto simp: result_simps item_text_def [abs_def] split: if_splits)
  have texts: "ts = map (\<lambda>kv. (fst kv, ?tx kv)) d"
    and each: "kv \<in> set d \<Longrightarrow> text_of env' st (n - 1) (snd kv) = Inr (?tx kv)" for kv
    using item_texts_Inr [OF ts(2)] by auto
  have t: "t = [123] @ join (js_item_sep st) (map (item_text st) (map (\<lambda>kv. (fst kv, ?tx kv)) ?d)) @ [125]"
    by (simp add: ts(3) texts sort_key_map [of fst _ fst] del: map_map)
  have texts_read: "list_all2 (\<lambda>kt v. text_ok (js_ascii st) (fst kt) \<and> value_text (snd kt) \<and> reads env hk st (n - 1) (snd kt) v)
      (map (\<lambda>kv. (fst kv, ?tx kv)) ?d) (map ?w ?d)"
  proof (rule list_all2_mapI)
    fix kv
    assume "kv \<in> set ?d"
    then have kv: "kv \<in> set d"
      by (simp split: if_splits)
    then have w: "text_ok (js_ascii st) (fst kv)" "writable (js_ascii st) (snd kv)"
      using VDict.prems(3) by auto
    moreover have "reads env hk st (n - 1) (?tx kv) (?w kv)"
      by (rule VDict.IH [OF kv _ VDict.prems(1) each [OF kv] w(2)]) (simp add: snds.simps)
    ultimately show "text_ok (js_ascii st) (fst (fst kv, ?tx kv)) \<and> value_text (snd (fst kv, ?tx kv))
        \<and> reads env hk st (n - 1) (snd (fst kv, ?tx kv)) (?w kv)"
      using value_textI [OF each [OF kv] w(2)] by simp
  qed
  have "distinct (map fst (map (\<lambda>kv. (fst kv, ?tx kv)) ?d))"
    using VDict.prems(3) by (simp add: comp_def distinct_map)
  from reads_dict [OF VDict.prems(1) ts(1) texts_read this]
  have "reads env hk st n t (VDict (map (\<lambda>kv. (fst kv, ?w kv)) ?d))"
    by (simp only: t zip_keys fst_conv)
  moreover have "written (js_sort st) (VDict d) = VDict (map (\<lambda>kv. (fst kv, ?w kv)) ?d)"
    by (simp add: sort_key_map [of fst _ fst])
  ultimately show ?case
    by simp
qed (rule parse_atom_text, assumption, simp, assumption)+

lemma loads_dumps:
  assumes "style_ok st" "dumps env st v = Inr t" "writable (js_ascii st) v" "hd t \<noteq> 65279"
  shows "loads env hk t = Inr (written (js_sort st) v)"
proof -
  obtain c s where t: "t = c # s" "\<not> jspace c"
    using text_not_empty [OF assms(2) [unfolded dumps_def] assms(3)] by blast
  have "parse env hk (2 * length t) (je_nesting env) (t @ []) = Inr (written (js_sort st) v, [])"
    using reads_text [OF assms(1) assms(2) [unfolded dumps_def] assms(3), of env hk]
    by (simp add: reads_def ends_def del: append_Nil2)
  then show ?thesis
    using t assms(4) by (simp add: loads_def skip_ws_def del: parse.simps)
qed

end
