(* ===== verification/Relay_Control.thy ===== *)
theory Relay_Control
  imports Shared_Validation Json_Roundtrip
begin

text \<open>
  \<^verbatim>\<open>realtime/relay_control.py\<close>: canonical JSON, the capability document and its digest, and the codec of
  the relay's control frames. SHA-256 (as a function from a text to the hexadecimal digest of its UTF-8
  bytes), the fresh identities of \<^verbatim>\<open>uuid4\<close> and the text of the packaged capability manifest are
  parameters.
\<close>

section \<open>Canonical JSON\<close>

fun reject_floats :: "nat \<Rightarrow> pyval \<Rightarrow> unit res"
  and reject_floats_in :: "nat \<Rightarrow> pyval list \<Rightarrow> unit res"
  and reject_floats_under :: "nat \<Rightarrow> dict \<Rightarrow> unit res" where
  \<comment> \<open>\<^verbatim>\<open>_reject_non_integer_numbers\<close>; the number is what is left of the interpreter's nesting limit\<close>
  "reject_floats n (VFloat f) = Inl (protocol_error ''non-integer JSON number'')"
| "reject_floats n (VDict d) = (if n = 0 then Inl RecursionErr else reject_floats_under (n - 1) d)"
| "reject_floats n (VList xs) = (if n = 0 then Inl RecursionErr else reject_floats_in (n - 1) xs)"
| "reject_floats n v = Inr ()"
| "reject_floats_in n [] = Inr ()"
| "reject_floats_in n (x # xs) = andthen (reject_floats n x) (\<lambda>_. reject_floats_in n xs)"
| "reject_floats_under n [] = Inr ()"
| "reject_floats_under n (kv # d) = andthen (reject_floats n (snd kv)) (\<lambda>_. reject_floats_under n d)"

definition canonical_style :: json_style where
  \<comment> \<open>\<^verbatim>\<open>sort_keys=True, separators=(",", ":"), ensure_ascii=False, allow_nan=False\<close>\<close>
  "canonical_style = \<lparr>js_ascii = False, js_nan = False, js_sort = True,
     js_item_sep = u '','', js_key_sep = u '':''\<rparr>"

definition canonical_json :: "json_env \<Rightarrow> dict \<Rightarrow> ustr res" where
  "canonical_json env d =
    andthen (reject_floats (je_nesting env) (VDict d))
      (\<lambda>_. case andthen (dumps env canonical_style (VDict d)) encode_utf8 of
             Inl e \<Rightarrow> Inl (if e = TypeErr \<or> is_value_error e then protocol_error ''non-canonical JSON'' else e)
           | Inr t \<Rightarrow> Inr t)"

definition capability_digest :: "json_env \<Rightarrow> (ustr \<Rightarrow> ustr) \<Rightarrow> dict \<Rightarrow> ustr res" where
  "capability_digest env sha d = andthen (canonical_json env d) (\<lambda>t. Inr (sha t))"

section \<open>Fields\<close>

definition object_field :: "pyval \<Rightarrow> string \<Rightarrow> dict res" where
  "object_field v name =
    (case v of VDict d \<Rightarrow> Inr d | _ \<Rightarrow> Inl (protocol_error (name @ '' must be an object'')))"

definition string_field :: "pyval \<Rightarrow> string \<Rightarrow> ustr res" where
  "string_field v name =
    (case v of
       VStr s \<Rightarrow> if s = [] then Inl (protocol_error (name @ '' is required'')) else Inr s
     | _ \<Rightarrow> Inl (protocol_error (name @ '' is required'')))"

definition integer_field :: "pyval \<Rightarrow> string \<Rightarrow> int res" where
  "integer_field v name =
    (case v of
       VInt i \<Rightarrow> if i < 0 then Inl (protocol_error (name @ '' must be an integer'')) else Inr i
     | _ \<Rightarrow> Inl (protocol_error (name @ '' must be an integer'')))"

definition opaque_id :: "pyval \<Rightarrow> string \<Rightarrow> ustr res" where
  "opaque_id v name =
    andthen (string_field v name)
      (\<lambda>s. if \<not> printable_id s \<or> 128 < utf8_len s
           then Inl (protocol_error (name @ '' is invalid'')) else Inr s)"

definition exact_keys :: "dict \<Rightarrow> string list \<Rightarrow> unit res" where
  "exact_keys d required =
    check (key_set_is d (map u required)) (protocol_error ''control fields do not match'')"

definition sha256_text :: "ustr \<Rightarrow> bool" where
  \<comment> \<open>\<^verbatim>\<open>_DIGEST\<close>\<close>
  "sha256_text s \<longleftrightarrow> length s = 64 \<and> list_all is_hex s"

fun revision_text :: "ustr \<Rightarrow> bool" where
  \<comment> \<open>\<^verbatim>\<open>_REVISION_ID\<close>\<close>
  "revision_text [] = False"
| "revision_text (c # s) = ((is_lower c \<or> is_digit c) \<and> length s \<le> 127 \<and> list_all stable_char s)"

lemma object_field_Inr: "object_field v n = Inr d \<longleftrightarrow> v = VDict d"
  by (auto simp: object_field_def split: pyval.splits)

lemma string_field_Inr: "string_field v n = Inr s \<longleftrightarrow> v = VStr s \<and> s \<noteq> []"
  by (auto simp: string_field_def split: pyval.splits)

lemma integer_field_Inr: "integer_field v n = Inr i \<longleftrightarrow> v = VInt i \<and> 0 \<le> i"
  by (auto simp: integer_field_def split: pyval.splits)

lemma opaque_id_Inr: "opaque_id v n = Inr s \<Longrightarrow> v = VStr s \<and> printable_id s"
  by (auto simp: opaque_id_def result_simps string_field_Inr split: if_splits)

lemma exact_keys_Inr: "exact_keys d ks = Inr x \<longleftrightarrow> dkeys d = u ` set ks"
  by (simp add: exact_keys_def key_set_is_iff)

lemmas field_simps_Inr = object_field_Inr string_field_Inr integer_field_Inr exact_keys_Inr

section \<open>The capability\<close>

definition capability_authority :: "json_env \<Rightarrow> ustr \<Rightarrow> dict res" where
  \<comment> \<open>the packaged manifest, read once\<close>
  "capability_authority env manifest = strict_json_object env manifest"

definition validate_authority :: "json_env \<Rightarrow> ustr \<Rightarrow> dict \<Rightarrow> unit res" where
  \<comment> \<open>\<^verbatim>\<open>_validate_capability_authority\<close>\<close>
  "validate_authority env manifest d =
    andthen (string_field (dget d (u ''wallet_pricing_revision'')) ''wallet_pricing_revision'') (\<lambda>rev.
    andthen (string_field (dget d (u ''wallet_pricing_revision_digest''))
              ''wallet_pricing_revision_digest'') (\<lambda>dig.
    andthen (check (revision_text rev) (protocol_error ''wallet pricing revision is invalid'')) (\<lambda>_.
    andthen (check (sha256_text dig) (protocol_error ''wallet pricing revision digest is invalid'')) (\<lambda>_.
    andthen (capability_authority env manifest) (\<lambda>auth.
      let expected = AList.update (u ''wallet_pricing_revision_digest'') (VStr dig)
                       (AList.update (u ''wallet_pricing_revision'') (VStr rev) auth)
      in check (py_eq (VDict d) (VDict expected))
           (protocol_error ''capability does not match packaged authority''))))))"

definition build_audio_format :: "dict \<Rightarrow> audio_format res" where
  \<comment> \<open>\<^verbatim>\<open>_audio_format\<close>\<close>
  "build_audio_format d =
    andthen (string_field (dget d (u ''codec'')) ''codec'') (\<lambda>codec.
    andthen (integer_field (dget d (u ''sample_rate'')) ''sample_rate'') (\<lambda>rate.
    andthen (integer_field (dget d (u ''channels'')) ''channels'') (\<lambda>channels.
      let f = \<lparr>af_codec = codec, af_sample_rate = rate, af_channels = channels\<rparr>
      in (case audio_format_error f of Some m \<Rightarrow> Inl (ValueErr m) | None \<Rightarrow> Inr f))))"

definition feature_value :: "dict \<Rightarrow> feature \<Rightarrow> (feature \<times> bool) res" where
  "feature_value d f =
    (case dget d (u (feature_name f)) of
       VBool b \<Rightarrow> Inr (f, b)
     | _ \<Rightarrow> Inl (protocol_error ''invalid feature set''))"

definition feature_set_of :: "(feature \<Rightarrow> bool) \<Rightarrow> feature_set" where
  \<comment> \<open>\<^verbatim>\<open>RealtimeFeatureSet(**feature_values)\<close>\<close>
  "feature_set_of f = \<lparr>fs_server_turn_detection = f F_SERVER_TURN_DETECTION,
     fs_automatic_response = f F_AUTOMATIC_RESPONSE, fs_interruption = f F_INTERRUPTION,
     fs_input_transcription = f F_INPUT_TRANSCRIPTION, fs_text_output = f F_TEXT_OUTPUT,
     fs_audio_output = f F_AUDIO_OUTPUT, fs_cancel_response = f F_CANCEL_RESPONSE,
     fs_truncate_output = f F_TRUNCATE_OUTPUT, fs_tool_calling = f F_TOOL_CALLING,
     fs_resume = f F_RESUME\<rparr>"

definition limit_value :: "dict \<Rightarrow> string \<Rightarrow> int res" where
  "limit_value d name = integer_field (dget d (u name)) name"

definition build_limits :: "dict \<Rightarrow> rt_limits res" where
  "build_limits d =
    andthen (limit_value d ''json_frame_bytes'') (\<lambda>l1.
    andthen (limit_value d ''input_audio_event_decoded_bytes'') (\<lambda>l2.
    andthen (limit_value d ''output_audio_event_decoded_bytes'') (\<lambda>l3.
    andthen (limit_value d ''input_queue_frames'') (\<lambda>l4.
    andthen (limit_value d ''input_queue_bytes'') (\<lambda>l5.
    andthen (limit_value d ''output_queue_frames'') (\<lambda>l6.
    andthen (limit_value d ''output_queue_bytes'') (\<lambda>l7.
    andthen (limit_value d ''tool_payload_bytes'') (\<lambda>l8.
      let l = \<lparr>li_json_frame_bytes = l1, li_input_audio_event_bytes = l2,
                li_output_audio_event_bytes = l3, li_input_queue_frames = l4,
                li_input_queue_bytes = l5, li_output_queue_frames = l6,
                li_output_queue_bytes = l7, li_tool_payload_bytes = l8\<rparr>
      in (case limits_error l of Some m \<Rightarrow> Inl (ValueErr m) | None \<Rightarrow> Inr l)))))))))"

definition static_fields :: "rt_profile \<Rightarrow> (string \<times> ustr) list" where
  "static_fields p =
     [(''control_version'', ca_control_version (pr_capability p)),
      (''sdk_protocol_version'', ca_sdk_protocol_version (pr_capability p)),
      (''provider'', pr_provider p), (''wire_protocol'', pr_wire_protocol p),
      (''wire_version'', pr_wire_version p), (''public_model'', pr_public_model p),
      (''voice'', pr_voice p)]"

definition static_field_ok :: "dict \<Rightarrow> string \<times> ustr \<Rightarrow> unit res" where
  "static_field_ok d ke =
    check (py_eq (dget d (u (fst ke))) (VStr (snd ke)))
      (rt_error E_UNSUPPORTED (''capability '' @ fst ke @ '' mismatch''))"

definition capability_fields :: "dict \<Rightarrow> rt_profile \<Rightarrow> rt_capability res" where
  \<comment> \<open>\<^verbatim>\<open>parse_capability\<close> after the check of the authority\<close>
  "capability_fields d p =
    andthen (each_unit (static_field_ok d) (static_fields p)) (\<lambda>_.
    andthen (object_field (dget d (u ''audio'')) ''audio'') (\<lambda>audio.
    andthen (andthen (object_field (dget audio (u ''input'')) ''audio.input'') build_audio_format) (\<lambda>fi.
    andthen (andthen (object_field (dget audio (u ''output'')) ''audio.output'') build_audio_format) (\<lambda>fo.
    andthen (object_field (dget d (u ''features'')) ''features'') (\<lambda>raw.
    andthen (each (feature_value raw) all_features) (\<lambda>values.
    andthen (andthen (object_field (dget d (u ''limits'')) ''limits'') build_limits) (\<lambda>limits.
      let c = \<lparr>ca_control_version = ca_control_version (pr_capability p),
                ca_sdk_protocol_version = ca_sdk_protocol_version (pr_capability p),
                ca_provider = pr_provider p, ca_wire_protocol = pr_wire_protocol p,
                ca_wire_version = pr_wire_version p, ca_input_audio = fi, ca_output_audio = fo,
                ca_features = feature_set_of (\<lambda>f. map_of values f = Some True), ca_limits = limits\<rparr>
      in andthen (capability_init c) (\<lambda>_.
         if fi \<noteq> ca_input_audio (pr_capability p)
         then Inl (rt_error E_UNSUPPORTED ''input audio mismatch'')
         else if fo \<noteq> ca_output_audio (pr_capability p)
         then Inl (rt_error E_UNSUPPORTED ''output audio mismatch'')
         else Inr c))))))))"

definition parse_capability :: "json_env \<Rightarrow> ustr \<Rightarrow> dict \<Rightarrow> rt_profile \<Rightarrow> rt_capability res" where
  "parse_capability env manifest d p =
    andthen (validate_authority env manifest d) (\<lambda>_. capability_fields d p)"

section \<open>The credential\<close>

definition audio_document :: "audio_format \<Rightarrow> dict" where
  "audio_document f = [(u ''codec'', VStr (af_codec f)), (u ''sample_rate'', VInt (af_sample_rate f)),
     (u ''channels'', VInt (af_channels f))]"

definition build_mint_request :: "rt_profile \<Rightarrow> open_request \<Rightarrow> ustr \<Rightarrow> dict" where
  "build_mint_request p r correlation =
     [(u ''provider'', VStr (pr_provider p)), (u ''wire_protocol'', VStr (pr_wire_protocol p)),
      (u ''wire_version'', VStr (pr_wire_version p)),
      (u ''sdk_protocol_version'', VStr (ca_sdk_protocol_version (pr_capability p))),
      (u ''public_model'', VStr (pr_public_model p)), (u ''voice'', VStr (pr_voice p)),
      (u ''correlation'', VStr correlation),
      (u ''required_features'',
         VList (map VStr (sort (remdups (map (\<lambda>f. u (feature_name f)) (or_required_features r)))))),
      (u ''audio'', VDict [(u ''input'', VDict (audio_document (or_input_audio r))),
                           (u ''output'', VDict (audio_document (or_output_audio r)))])]"

definition parse_mint_response ::
  "json_env \<Rightarrow> (ustr \<Rightarrow> ustr) \<Rightarrow> ustr \<Rightarrow> ustr + dict \<Rightarrow> rt_profile \<Rightarrow> minted_credential res" where
  \<comment> \<open>the payload is a text or a mapping\<close>
  "parse_mint_response env sha manifest payload p =
    andthen (case payload of Inl text \<Rightarrow> strict_json_object env text | Inr d \<Rightarrow> Inr d) (\<lambda>v.
    andthen (exact_keys v [''client_secret'', ''websocket_path'', ''capability'', ''capability_digest'']) (\<lambda>_.
    andthen (object_field (dget v (u ''client_secret'')) ''client_secret'') (\<lambda>secret.
    andthen (exact_keys secret [''value'', ''expires_at_ms'']) (\<lambda>_.
    andthen (object_field (dget v (u ''capability'')) ''capability'') (\<lambda>doc.
    andthen (string_field (dget v (u ''capability_digest'')) ''capability_digest'') (\<lambda>digest.
    andthen (if \<not> sha256_text digest then Inl (protocol_error ''capability digest mismatch'')
             else andthen (capability_digest env sha doc)
                    (\<lambda>d. check (d = digest) (protocol_error ''capability digest mismatch''))) (\<lambda>_.
    andthen (parse_capability env manifest doc p) (\<lambda>cap.
    andthen (string_field (dget secret (u ''value'')) ''client_secret.value'') (\<lambda>value.
    andthen (integer_field (dget secret (u ''expires_at_ms'')) ''expires_at_ms'') (\<lambda>expires.
    andthen (string_field (dget v (u ''websocket_path'')) ''websocket_path'') (\<lambda>path.
      let m = \<lparr>mc_secret = value, mc_expires_at_ms = expires, mc_websocket_path = path,
                mc_capability = cap, mc_capability_document = doc, mc_capability_digest = digest\<rparr>
      in andthen (minted_init m) (\<lambda>_. Inr m))))))))))))"

definition validate_minted ::
  "json_env \<Rightarrow> (ustr \<Rightarrow> ustr) \<Rightarrow> ustr \<Rightarrow> minted_credential \<Rightarrow> rt_profile \<Rightarrow> open_request \<Rightarrow> unit res" where
  "validate_minted env sha manifest m p r =
    andthen (parse_capability env manifest (mc_capability_document m) p) (\<lambda>parsed.
    andthen (check (parsed = mc_capability m) (protocol_error ''minted capability mismatch'')) (\<lambda>_.
    andthen (capability_digest env sha (mc_capability_document m)) (\<lambda>digest.
    andthen (check (digest = mc_capability_digest m) (protocol_error ''capability digest mismatch'')) (\<lambda>_.
    andthen (check (supports (ca_features (mc_capability m)) (or_required_features r))
               (rt_error E_UNSUPPORTED ''required feature unavailable'')) (\<lambda>_.
    andthen (check (or_input_audio r = ca_input_audio (mc_capability m))
               (rt_error E_UNSUPPORTED ''input audio unavailable'')) (\<lambda>_.
      check (or_output_audio r = ca_output_audio (mc_capability m))
        (rt_error E_UNSUPPORTED ''output audio unavailable'')))))))"

section \<open>Control frames\<close>

definition wire_style :: json_style where
  \<comment> \<open>\<^verbatim>\<open>json.dumps(value, separators=(",", ":"))\<close>\<close>
  "wire_style = \<lparr>js_ascii = True, js_nan = True, js_sort = False,
     js_item_sep = u '','', js_key_sep = u '':''\<rparr>"

definition session_open_event :: "ustr \<Rightarrow> minted_credential \<Rightarrow> ustr \<Rightarrow> dict" where
  "session_open_event event_id m correlation =
     [(u ''type'', vs ''tokenseller.session.open''), (u ''event_id'', VStr event_id),
      (u ''control_version'', VStr (ca_control_version (mc_capability m))),
      (u ''sdk_protocol_version'', VStr (ca_sdk_protocol_version (mc_capability m))),
      (u ''correlation'', VStr correlation),
      (u ''capability_digest'', VStr (mc_capability_digest m))]"

definition build_session_open ::
  "json_env \<Rightarrow> ustr \<Rightarrow> minted_credential \<Rightarrow> ustr \<Rightarrow> (ustr \<times> ustr) res" where
  \<comment> \<open>\<^verbatim>\<open>_build_bound_session_open\<close>; \<open>hex\<close> is the fresh part of the identity\<close>
  "build_session_open env hex m correlation =
    (let event_id = u ''ctl_open_'' @ hex
     in andthen (dumps env wire_style (VDict (session_open_event event_id m correlation)))
          (\<lambda>t. Inr (t, event_id)))"

definition build_session_close :: "json_env \<Rightarrow> ustr \<Rightarrow> ustr \<Rightarrow> (ustr \<times> ustr) res" where
  \<comment> \<open>\<^verbatim>\<open>_build_bound_session_close\<close>\<close>
  "build_session_close env hex reason =
    (if reason \<notin> set (map u [''client_hangup'', ''app_shutdown''])
     then Inl (rt_error E_INVALID_REQUEST ''invalid close reason'')
     else
       (let event_id = u ''ctl_close_'' @ hex
        in andthen (dumps env wire_style (VDict
               [(u ''type'', vs ''tokenseller.session.close''), (u ''event_id'', VStr event_id),
                (u ''reason'', VStr reason)]))
             (\<lambda>t. Inr (t, event_id))))"

definition control_failure :: "string \<Rightarrow> string \<Rightarrow> exn" where
  "control_failure field reason =
     RealtimeErr E_PROTOCOL_ERROR ''invalid control frame'' False (Some (u field)) (Some (u reason)) None"

definition MESSAGE_CLASSES :: "ustr list" where
  "MESSAGE_CLASSES = map u
     [''capability_digest_mismatch'', ''version_mismatch'', ''invalid_open'', ''auth_failed'',
      ''forbidden'', ''capacity_busy'', ''rate_limited'', ''upstream_unavailable'',
      ''upstream_protocol_error'', ''session_expired'', ''billing_rejected'', ''internal_error'']"

definition CONTROL_ERROR_CODES :: "error_code list" where
  "CONTROL_ERROR_CODES =
     [E_INVALID_REQUEST, E_UNAUTHENTICATED, E_FORBIDDEN, E_UNSUPPORTED, E_BUSY, E_RATE_LIMITED,
      E_UNAVAILABLE, E_TIMEOUT, E_PROTOCOL_ERROR, E_SESSION_EXPIRED, E_BILLING_REJECTED, E_INTERNAL]"

definition control_identity :: "dict \<Rightarrow> string \<Rightarrow> unit res" where
  "control_identity d name =
    (if name = ''event_id'' \<or> has_key d (u name) then
       (case opaque_id (dget d (u name)) name of
          Inl e \<Rightarrow> Inl (control_failure name ''invalid_identity'')
        | Inr _ \<Rightarrow> Inr ())
     else Inr ())"

definition control_code :: "pyval \<Rightarrow> error_code res" where
  "control_code v =
    (case v of
       VStr s \<Rightarrow>
         (case find (\<lambda>c. code_value c = s) CONTROL_ERROR_CODES of
            None \<Rightarrow> Inl (control_failure ''code'' ''unknown_enum'')
          | Some c \<Rightarrow> Inr c)
     | _ \<Rightarrow> Inl (control_failure ''code'' ''unknown_enum''))"

definition retry_after :: "dict \<Rightarrow> int option res" where
  "retry_after d =
    (if has_key d (u ''retry_after_ms'') then
       (case dget d (u ''retry_after_ms'') of
          VInt i \<Rightarrow> if 0 \<le> i \<and> i \<le> 3600000 then Inr (Some i)
                    else Inl (control_failure ''retry_after_ms'' ''invalid_range'')
        | _ \<Rightarrow> Inl (control_failure ''retry_after_ms'' ''invalid_range''))
     else Inr None)"

definition text_option :: "pyval \<Rightarrow> ustr option" where
  \<comment> \<open>a field that is a string, if it is there\<close>
  "text_option v = (case v of VStr s \<Rightarrow> Some s | _ \<Rightarrow> None)"

definition control_error_required :: "string list" where
  \<comment> \<open>in the order of \<^verbatim>\<open>sorted\<close>\<close>
  "control_error_required = [''code'', ''event_id'', ''fatal'', ''message_class'', ''retryable'', ''type'']"

definition decode_control_error :: "dict \<Rightarrow> rt_event res" where
  \<comment> \<open>the branch \<^verbatim>\<open>tokenseller.error\<close> of \<^verbatim>\<open>decode_runtime_event\<close>\<close>
  "decode_control_error v =
    andthen (case filter (\<lambda>k. \<not> has_key v (u k)) control_error_required of
               k # _ \<Rightarrow> Inl (control_failure k ''missing_field'')
             | [] \<Rightarrow> Inr ()) (\<lambda>_.
    andthen (check (keys_within v (map u (control_error_required @ [''related_event_id'', ''retry_after_ms''])))
               (control_failure ''fields'' ''field_set'')) (\<lambda>_.
    andthen (each_unit (control_identity v) [''event_id'', ''related_event_id'']) (\<lambda>_.
    andthen (control_code (dget v (u ''code''))) (\<lambda>code.
    andthen (case dget v (u ''retryable'') of
               VBool b \<Rightarrow> Inr b | _ \<Rightarrow> Inl (control_failure ''retryable'' ''invalid_type'')) (\<lambda>retryable.
    andthen (case dget v (u ''fatal'') of
               VBool b \<Rightarrow> if b then Inr () else Inl (control_failure ''fatal'' ''non_terminal_error'')
             | _ \<Rightarrow> Inl (control_failure ''fatal'' ''invalid_type'')) (\<lambda>_.
    andthen (case dget v (u ''message_class'') of
               VStr s \<Rightarrow> if s \<in> set MESSAGE_CLASSES then Inr s
                         else Inl (control_failure ''message_class'' ''unknown_enum'')
             | _ \<Rightarrow> Inl (control_failure ''message_class'' ''unknown_enum'')) (\<lambda>message_class.
    andthen (retry_after v) (\<lambda>retry_ms.
      Inr (SessionFailed ((failed_event code retryable)\<lparr>sf_control_code := Some code,
        sf_message_class := Some message_class,
        sf_related_event_id := text_option (dget v (u ''related_event_id'')),
        sf_fatal := Some True, sf_retry_after_ms := retry_ms\<rparr>))))))))))"

definition in_texts :: "pyval \<Rightarrow> string list \<Rightarrow> bool res" where
  \<comment> \<open>membership of a value in a \<^verbatim>\<open>frozenset\<close> of strings: a list or an object is not hashable\<close>
  "in_texts v names =
    (case v of
       VList _ \<Rightarrow> Inl TypeErr
     | VDict _ \<Rightarrow> Inl TypeErr
     | VStr s \<Rightarrow> Inr (s \<in> set (map u names))
     | _ \<Rightarrow> Inr False)"

definition close_enum :: "(ustr \<Rightarrow> 'a option) \<Rightarrow> pyval \<Rightarrow> string \<Rightarrow> 'a res" where
  "close_enum of_text v name =
    andthen (string_field v name)
      (\<lambda>s. case of_text s of None \<Rightarrow> Inl (protocol_error ''unknown close enum'') | Some x \<Rightarrow> Inr x)"

definition decode_control_closed :: "dict \<Rightarrow> rt_event res" where
  \<comment> \<open>the branch \<^verbatim>\<open>tokenseller.session.closed\<close>\<close>
  "decode_control_closed v =
    andthen (exact_keys v [''type'', ''event_id'', ''related_event_id'', ''initiator'', ''disposition'',
               ''active_response'', ''settlement'']) (\<lambda>_.
    andthen (opaque_id (dget v (u ''event_id'')) ''event_id'') (\<lambda>_.
    andthen (opaque_id (dget v (u ''related_event_id'')) ''related_event_id'') (\<lambda>related.
    andthen (close_enum initiator_of (dget v (u ''initiator'')) ''initiator'') (\<lambda>initiator.
    andthen (close_enum disposition_of (dget v (u ''disposition'')) ''disposition'') (\<lambda>disposition.
    andthen (in_texts (dget v (u ''active_response'')) [''none'', ''completed'', ''cancelled'']) (\<lambda>known.
    andthen (check known (protocol_error ''unknown active response disposition'')) (\<lambda>_.
    andthen (in_texts (dget v (u ''settlement'')) [''none'', ''settled'', ''released'', ''deferred'']) (\<lambda>known.
    andthen (check known (protocol_error ''unknown settlement disposition'')) (\<lambda>_.
    andthen (string_field (dget v (u ''active_response'')) ''active_response'') (\<lambda>active.
    andthen (string_field (dget v (u ''settlement'')) ''settlement'') (\<lambda>settlement.
      let c = (closed_event
                (u (if disposition = CD_CLEAN_EXPIRED then ''session_expired'' else ''session_closed''))
                initiator disposition)\<lparr>sc_active_response := active, sc_settlement := settlement,
                  sc_related_event_id := Some related\<rparr>
      in (case session_closed_error c of
            Some m \<Rightarrow> Inl (ValueErr m)
          | None \<Rightarrow> Inr (SessionClosed c)))))))))))))"

definition decode_runtime_event :: "json_env \<Rightarrow> ustr \<Rightarrow> rt_event option res" where
  "decode_runtime_event env payload =
    andthen (strict_json_object env payload) (\<lambda>v.
      case dget v (u ''type'') of
        VStr t \<Rightarrow>
          (if \<not> starts_with t (u ''tokenseller.'') then Inr None
           else if t = u ''tokenseller.session.expiring'' then
             andthen (exact_keys v [''type'', ''event_id'', ''remaining_ms'']) (\<lambda>_.
             andthen (opaque_id (dget v (u ''event_id'')) ''event_id'') (\<lambda>_.
             andthen (integer_field (dget v (u ''remaining_ms'')) ''remaining_ms'') (\<lambda>ms.
               Inr (Some (SessionExpiring ms)))))
           else if t = u ''tokenseller.error'' then
             andthen (decode_control_error v) (\<lambda>e. Inr (Some e))
           else if t = u ''tokenseller.session.closed'' then
             andthen (decode_control_closed v) (\<lambda>e. Inr (Some e))
           else Inl (protocol_error ''unknown control event''))
      | _ \<Rightarrow> Inr None)"

definition created_field :: "dict \<Rightarrow> string \<Rightarrow> pyval \<Rightarrow> string \<Rightarrow> unit res" where
  "created_field v name expected msg = check (py_eq (dget v (u name)) expected) (protocol_error msg)"

definition validate_session_created ::
  "json_env \<Rightarrow> ustr \<Rightarrow> minted_credential \<Rightarrow> ustr \<Rightarrow> unit res" where
  "validate_session_created env payload m related =
    andthen (strict_json_object env payload) (\<lambda>v.
    if \<not> py_eq (dget v (u ''type'')) (vs ''tokenseller.session.created'') then
      (if py_eq (dget v (u ''type'')) (vs ''tokenseller.error'') then
         andthen (decode_runtime_event env payload)
           (\<lambda>failure. case failure of
              Some (SessionFailed x) \<Rightarrow>
                Inl (RealtimeErr (sf_code x) (code_name (sf_code x)) (sf_retryable x) None None None)
            | _ \<Rightarrow> Inl (protocol_error ''session.created required''))
       else Inl (protocol_error ''session.created required''))
    else
    andthen (exact_keys v [''type'', ''event_id'', ''related_event_id'', ''control_version'',
               ''sdk_protocol_version'', ''relay_session_id'', ''provider'', ''wire_protocol'',
               ''wire_version'', ''capability'', ''capability_digest'', ''expires_at_ms'']) (\<lambda>_.
    andthen (opaque_id (dget v (u ''event_id'')) ''event_id'') (\<lambda>_.
    andthen (opaque_id (dget v (u ''related_event_id'')) ''related_event_id'') (\<lambda>created.
    andthen (opaque_id (dget v (u ''relay_session_id'')) ''relay_session_id'') (\<lambda>_.
    andthen (opaque_id (VStr related) ''expected related_event_id'') (\<lambda>expected.
    andthen (check (created = expected) (protocol_error ''session.created related event mismatch'')) (\<lambda>_.
    andthen (created_field v ''control_version'' (VStr (ca_control_version (mc_capability m)))
               ''control version mismatch'') (\<lambda>_.
    andthen (created_field v ''sdk_protocol_version'' (VStr (ca_sdk_protocol_version (mc_capability m)))
               ''SDK version mismatch'') (\<lambda>_.
    andthen (created_field v ''provider'' (VStr (ca_provider (mc_capability m))) ''provider mismatch'') (\<lambda>_.
    andthen (created_field v ''wire_protocol'' (VStr (ca_wire_protocol (mc_capability m)))
               ''wire protocol mismatch'') (\<lambda>_.
    andthen (created_field v ''wire_version'' (VStr (ca_wire_version (mc_capability m)))
               ''wire version mismatch'') (\<lambda>_.
    andthen (integer_field (dget v (u ''expires_at_ms'')) ''expires_at_ms'') (\<lambda>expires.
    andthen (check (expires = mc_expires_at_ms m) (protocol_error ''expiry mismatch'')) (\<lambda>_.
    andthen (object_field (dget v (u ''capability'')) ''capability'') (\<lambda>doc.
    andthen (check (py_eq (VDict doc) (VDict (mc_capability_document m)))
               (protocol_error ''created capability mismatch'')) (\<lambda>_.
      created_field v ''capability_digest'' (VStr (mc_capability_digest m))
        ''created digest mismatch''))))))))))))))))"

section \<open>What the codec accepts\<close>

definition closed_ok :: "session_closed \<Rightarrow> bool" where
  "closed_ok c \<longleftrightarrow> session_closed_error c = None \<and> opt_ok printable_id (sc_related_event_id c)
     \<and> sc_related_event_id c \<noteq> None \<and> sc_failure c = None
     \<and> sc_reason c = u (if sc_disposition c = CD_CLEAN_EXPIRED then ''session_expired'' else ''session_closed'')"

definition failed_ok :: "session_failed \<Rightarrow> bool" where
  "failed_ok x \<longleftrightarrow> sf_code x \<in> set CONTROL_ERROR_CODES \<and> sf_control_code x = Some (sf_code x)
     \<and> (\<exists>m\<in>set MESSAGE_CLASSES. sf_message_class x = Some m)
     \<and> opt_ok printable_id (sf_related_event_id x) \<and> sf_fatal x = Some True
     \<and> opt_ok (\<lambda>n. 0 \<le> n \<and> n \<le> 3600000) (sf_retry_after_ms x) \<and> sf_failure x = None"

lemma control_code_Inr: "control_code v = Inr c \<Longrightarrow> c \<in> set CONTROL_ERROR_CODES"
  by (auto simp: control_code_def find_Some_iff split: pyval.splits option.splits)

lemma retry_after_Inr: "retry_after d = Inr r \<Longrightarrow> opt_ok (\<lambda>n. 0 \<le> n \<and> n \<le> 3600000) r"
  by (auto simp: retry_after_def split: pyval.splits if_splits)

lemma dget_no_key: "\<not> has_key d k \<Longrightarrow> dget d k = VNone"
  by (simp add: has_key_iff dget_def)

lemma control_identity_Inr:
  "control_identity d name = Inr x \<Longrightarrow> opt_ok printable_id (text_option (dget d (u name)))"
  by (cases "has_key d (u name)")
     (auto simp: control_identity_def text_option_def dget_no_key dest!: opaque_id_Inr
       split: sum.splits if_splits)

lemma decode_control_error_Inr:
  assumes "decode_control_error v = Inr e"
  shows "\<exists>x. e = SessionFailed x \<and> failed_ok x"
proof -
  obtain code retryable cls ms where
    e: "e = SessionFailed ((failed_event code retryable)\<lparr>sf_control_code := Some code,
        sf_message_class := Some cls,
        sf_related_event_id := text_option (dget v (u ''related_event_id'')),
        sf_fatal := Some True, sf_retry_after_ms := ms\<rparr>)"
    and c: "control_code (dget v (u ''code'')) = Inr code" "cls \<in> set MESSAGE_CLASSES"
      "retry_after v = Inr ms" "control_identity v ''related_event_id'' = Inr ()"
    using assms unfolding decode_control_error_def andthen_Inr_iff
    by (auto simp: result_simps split: pyval.splits if_splits)
  show ?thesis
    using control_code_Inr [OF c(1)] retry_after_Inr [OF c(3)] control_identity_Inr [OF c(4)] c(2)
    by (auto simp: e failed_ok_def failed_event_def)
qed

lemma decode_control_closed_Inr:
  assumes "decode_control_closed v = Inr e"
  shows "\<exists>c. e = SessionClosed c \<and> closed_ok c"
  using assms unfolding decode_control_closed_def andthen_Inr_iff Let_def
  by (auto simp: closed_ok_def closed_event_def dest!: opaque_id_Inr split: option.splits)

lemma decode_runtime_event_Some:
  assumes "decode_runtime_event env payload = Inr (Some e)"
  obtains (expiring) n where "e = SessionExpiring n" "0 \<le> n"
    | (error) v where "decode_control_error v = Inr e"
    | (closed) v where "decode_control_closed v = Inr e"
proof -
  obtain v where v: "strict_json_object env payload = Inr v"
    using assms by (auto simp: decode_runtime_event_def result_simps)
  obtain t where t: "dget v (u ''type'') = VStr t"
    using assms v by (auto simp: decode_runtime_event_def split: pyval.splits)
  consider "t = u ''tokenseller.session.expiring''" | "t = u ''tokenseller.error''"
    | "t = u ''tokenseller.session.closed''"
    using assms v t by (fastforce simp: decode_runtime_event_def split: if_splits)
  then show thesis
    by cases (use assms v t in \<open>auto simp: decode_runtime_event_def result_simps field_simps_Inr intro: that\<close>)
qed

text \<open>
  C18. The control events a session receives are checked: what the codec decodes is an expiry with a
  non-negative time, a fatal failure whose code, class, related identity and retry interval come from
  the frozen lists and ranges, or a close whose dispositions the event's constructor accepts.
\<close>

theorem control_events_checked:
  assumes "decode_runtime_event env payload = Inr (Some e)"
  shows "(\<exists>n. e = SessionExpiring n \<and> 0 \<le> n) \<or> (\<exists>x. e = SessionFailed x \<and> failed_ok x)
    \<or> (\<exists>c. e = SessionClosed c \<and> closed_ok c)"
  using assms
  by (cases rule: decode_runtime_event_Some)
     (auto dest: decode_control_error_Inr decode_control_closed_Inr)

definition plain_env :: json_env where
  "plain_env = \<lparr>je_float_text = (\<lambda>_. []), je_float_parse = (\<lambda>_. NaN), je_nesting = 20, je_calls = 60\<rparr>"

definition expiring_text :: ustr where
  "expiring_text = u ''{\"type\":\"tokenseller.session.expiring\",\"event_id\":\"e1\",\"remaining_ms\":5000}''"

theorem control_events_checked_witness:
  "decode_runtime_event plain_env expiring_text = Inr (Some (SessionExpiring 5000))
   \<and> (\<exists>n. SessionExpiring 5000 = SessionExpiring n \<and> 0 \<le> n)"
proof -
  have d: "decode_runtime_event plain_env expiring_text = Inr (Some (SessionExpiring 5000))"
    by code_simp
  show ?thesis
    using control_events_checked [OF d] d by simp
qed

section \<open>Round trips\<close>

definition canonical :: "dict \<Rightarrow> dict" where
  \<comment> \<open>the keys of every object sorted\<close>
  "canonical d = sort_key fst (map (\<lambda>kv. (fst kv, written True (snd kv))) d)"

lemma written_canonical: "written True (VDict d) = VDict (canonical d)"
  by (simp add: canonical_def)

lemma styles_ok [simp]: "style_ok canonical_style" "style_ok wire_style"
  by (simp_all add: style_ok_def canonical_style_def wire_style_def u_def)

lemma dumps_object_head: "dumps env st (VDict d) = Inr t \<Longrightarrow> hd t = 123"
  by (auto simp: dumps_def result_simps split: if_splits)

lemma canonical_json_Inr: "canonical_json env d = Inr t \<Longrightarrow> dumps env canonical_style (VDict d) = Inr t"
  by (auto simp: canonical_json_def result_simps encode_utf8_def split: sum.splits if_splits)

lemma strict_object_of_dumps:
  assumes "style_ok st" "dumps env st (VDict d) = Inr t" "writable (js_ascii st) (VDict d)"
    "written (js_sort st) (VDict d) = VDict e"
  shows "strict_json_object env t = Inr e"
  using loads_dumps [OF assms(1-3), of event_hooks] dumps_object_head [OF assms(2)] assms(4)
  by (simp add: strict_json_object_def)

text \<open>
  Canonical JSON is read back: the strict reader turns the canonical text of a document into the
  document with sorted keys, so two documents with the same canonical text, and therefore the same text
  under the digest, are equal up to the order of their keys.
\<close>

lemma canonical_json_roundtrip:
  assumes "canonical_json env d = Inr t" and "writable False (VDict d)"
  shows "strict_json_object env t = Inr (canonical d)
    \<and> (\<forall>e. canonical_json env e = Inr t \<and> writable False (VDict e) \<longrightarrow> canonical e = canonical d)"
proof -
  have read: "strict_json_object env t = Inr (canonical e)"
    if "canonical_json env e = Inr t" "writable False (VDict e)" for e
    by (rule strict_object_of_dumps [OF styles_ok(1) canonical_json_Inr [OF that(1)]])
       (use that(2) in \<open>simp_all add: canonical_style_def canonical_def\<close>)
  show ?thesis
    using read [OF assms] read by fastforce
qed

definition small_document :: dict where
  "small_document = [(u ''b'', VBool True), (u ''a'', VList [VInt 10, vs ''x'', VNone])]"

lemma text_ok_u [simp]: "text_ok a (u s)"
proof -
  have "\<not> surrogate (of_char c) \<and> of_char c < (1114112 :: nat)" for c
    using nat_of_char_less_256 [of c] unfolding surrogate_def by linarith
  then show ?thesis
    by (simp add: text_ok_def u_def list_all_iff)
qed

lemma text_ok_append [simp]: "text_ok a (s @ t) \<longleftrightarrow> text_ok a s \<and> text_ok a t"
  by (auto simp: text_ok_def)

lemma text_ok_hex [simp]: "list_all is_hex s \<Longrightarrow> text_ok a s"
  by (auto simp: text_ok_def list_all_iff surrogate_def is_hex_def is_digit_def)

lemma dumps_texts:
  "je_nesting env \<noteq> 0 \<Longrightarrow> \<exists>t. dumps env st (VDict (map (\<lambda>kv. (fst kv, VStr (snd kv))) d)) = Inr t"
proof -
  have "\<exists>ts. item_texts env st n (map (\<lambda>kv. (fst kv, VStr (snd kv))) d) = Inr ts" for n
    by (induction d) auto
  then obtain ts where "item_texts env st (je_nesting env - 1) (map (\<lambda>kv. (fst kv, VStr (snd kv))) d) = Inr ts"
    by blast
  then show "je_nesting env \<noteq> 0 \<Longrightarrow> ?thesis"
    by (simp add: dumps_def)
qed

definition fresh_hex :: "ustr \<Rightarrow> bool" where
  \<comment> \<open>\<^verbatim>\<open>uuid4().hex\<close>\<close>
  "fresh_hex s \<longleftrightarrow> length s = 32 \<and> list_all is_hex s"

lemma printable_u: "list_all (\<lambda>c. 33 \<le> c \<and> c \<le> (126 :: nat)) (map of_char s) \<Longrightarrow> s \<noteq> [] \<Longrightarrow>
  length s \<le> 96 \<Longrightarrow> fresh_hex h \<Longrightarrow> printable_id (u s @ h)"
  by (cases s) (auto simp: printable_id_def u_def fresh_hex_def is_hex_def is_digit_def list_all_iff)

lemma texts_dict:
  assumes "\<forall>kv\<in>set d. text_ok True (fst kv) \<and> text_ok True (snd kv)" "distinct (map fst d)"
    "je_nesting env \<noteq> 0"
  obtains t where "dumps env wire_style (VDict (map (\<lambda>kv. (fst kv, VStr (snd kv))) d)) = Inr t"
    "strict_json_object env t = Inr (map (\<lambda>kv. (fst kv, VStr (snd kv))) d)"
proof -
  obtain t where t: "dumps env wire_style (VDict (map (\<lambda>kv. (fst kv, VStr (snd kv))) d)) = Inr t"
    using dumps_texts [OF assms(3)] by blast
  have "strict_json_object env t = Inr (map (\<lambda>kv. (fst kv, VStr (snd kv))) d)"
    by (rule strict_object_of_dumps [OF styles_ok(2) t])
       (use assms in \<open>auto simp: wire_style_def comp_def\<close>)
  then show thesis
    by (rule that [OF t])
qed

lemma close_reasons: "reason \<in> set (map u [''client_hangup'', ''app_shutdown'']) \<Longrightarrow> text_ok a reason"
  by auto

text \<open>
  A close frame is built for every allowed reason, and read back strictly it has exactly its type,
  the fresh printable identity the session waits for, and the reason; any other reason is refused.
\<close>

lemma close_frame_roundtrip:
  assumes "fresh_hex h" and "je_nesting env \<noteq> 0"
  shows "if reason \<in> set (map u [''client_hangup'', ''app_shutdown'']) then
      (\<exists>t i. build_session_close env h reason = Inr (t, i) \<and> printable_id i
         \<and> strict_json_object env t = Inr [(u ''type'', vs ''tokenseller.session.close''),
              (u ''event_id'', VStr i), (u ''reason'', VStr reason)])
    else build_session_close env h reason = Inl (rt_error E_INVALID_REQUEST ''invalid close reason'')"
proof (cases "reason \<in> set (map u [''client_hangup'', ''app_shutdown''])")
  case True
  let ?d = "[(u ''type'', u ''tokenseller.session.close''), (u ''event_id'', u ''ctl_close_'' @ h), (u ''reason'', reason)]"
  have "\<forall>kv\<in>set ?d. text_ok True (fst kv) \<and> text_ok True (snd kv)"
    using assms(1) close_reasons [OF True] by (simp add: fresh_hex_def)
  then obtain t where "dumps env wire_style (VDict (map (\<lambda>kv. (fst kv, VStr (snd kv))) ?d)) = Inr t"
    "strict_json_object env t = Inr (map (\<lambda>kv. (fst kv, VStr (snd kv))) ?d)"
    by (rule texts_dict [OF _ _ assms(2)]) simp_all
  moreover have "printable_id (u ''ctl_close_'' @ h)"
    by (rule printable_u [OF _ _ _ assms(1)]) simp_all
  ultimately show ?thesis
    using True by (simp add: build_session_close_def Let_def)
qed (simp add: build_session_close_def)

definition zeros :: ustr where
  "zeros = replicate 32 48"

section \<open>The credential and the created session\<close>

lemma parse_capability_Inr:
  assumes "parse_capability env manifest d p = Inr c"
  shows "ca_input_audio c = ca_input_audio (pr_capability p)
    \<and> ca_output_audio c = ca_output_audio (pr_capability p) \<and> limits_error (ca_limits c) = None
    \<and> ca_provider c = pr_provider p \<and> ca_wire_protocol c = pr_wire_protocol p
    \<and> ca_wire_version c = pr_wire_version p \<and> capability_init c = Inr ()
    \<and> (\<forall>ke\<in>set (static_fields p). dget d (u (fst ke)) = VStr (snd ke))"
proof -
  have eq: "py_eq v (VStr s) \<longleftrightarrow> v = VStr s" for v s
    by (cases v) auto
  have "limits_error l = None" if "build_limits x = Inr l" for x l
    using that by (auto simp: build_limits_def result_simps Let_def split: option.splits)
  then show ?thesis
    using assms unfolding parse_capability_def capability_fields_def andthen_Inr_iff Let_def
    by (auto simp: each_unit_Inr static_field_ok_def eq split: if_splits)
qed

text \<open>
  C16. A minted credential is bound to its document: its digest is the digest of the canonical document,
  its capability is the one the document describes for the profile, with the profile's formats and with
  positive limits; and the later check of the credential repeats this and can only refuse what the
  request asks for, a missing feature or another audio format.
\<close>

theorem minted_credential_bound:
  assumes "parse_mint_response env sha manifest payload p = Inr m"
  shows "capability_digest env sha (mc_capability_document m) = Inr (mc_capability_digest m)
    \<and> parse_capability env manifest (mc_capability_document m) p = Inr (mc_capability m)
    \<and> ca_input_audio (mc_capability m) = ca_input_audio (pr_capability p)
    \<and> ca_output_audio (mc_capability m) = ca_output_audio (pr_capability p)
    \<and> limits_error (ca_limits (mc_capability m)) = None \<and> 0 < mc_expires_at_ms m
    \<and> (validate_minted env sha manifest m p r = Inr () \<longleftrightarrow>
         supports (ca_features (mc_capability m)) (or_required_features r)
         \<and> or_input_audio r = ca_input_audio (mc_capability m)
         \<and> or_output_audio r = ca_output_audio (mc_capability m))"
proof -
  have digest: "capability_digest env sha (mc_capability_document m) = Inr (mc_capability_digest m)"
    and cap: "parse_capability env manifest (mc_capability_document m) p = Inr (mc_capability m)"
    and time: "0 < mc_expires_at_ms m"
    using assms unfolding parse_mint_response_def andthen_Inr_iff Let_def
    by (auto simp: minted_init_def seq_all_Inr result_simps split: if_splits)
  then show ?thesis
    using parse_capability_Inr [OF cap] by (simp add: validate_minted_def result_simps)
qed

definition example_audio :: audio_format where
  "example_audio = \<lparr>af_codec = u ''pcm_s16le'', af_sample_rate = 16000, af_channels = 1\<rparr>"

definition example_profile :: rt_profile where
  "example_profile = \<lparr>pr_name = u ''n'', pr_provider = u ''p'', pr_wire_protocol = u ''w'',
     pr_wire_version = u ''1'', pr_public_model = u ''m'', pr_voice = u ''v'',
     pr_capability = \<lparr>ca_control_version = u ''1'', ca_sdk_protocol_version = u ''1'',
       ca_provider = u ''p'', ca_wire_protocol = u ''w'', ca_wire_version = u ''1'',
       ca_input_audio = example_audio, ca_output_audio = example_audio,
       ca_features = feature_set_of (\<lambda>_. True), ca_limits = default_limits\<rparr>\<rparr>"

definition example_authority :: dict where
  "example_authority = map (\<lambda>ke. (u (fst ke), VStr (snd ke))) (static_fields example_profile) @
     [(u ''audio'', VDict [(u ''input'', VDict (audio_document example_audio)),
                           (u ''output'', VDict (audio_document example_audio))]),
      (u ''features'', VDict (map (\<lambda>f. (u (feature_name f), VBool True)) all_features)),
      (u ''limits'', VDict (map (\<lambda>n. (u n, VInt 9))
         [''json_frame_bytes'', ''input_audio_event_decoded_bytes'', ''output_audio_event_decoded_bytes'',
          ''input_queue_frames'', ''input_queue_bytes'', ''output_queue_frames'', ''output_queue_bytes'',
          ''tool_payload_bytes'']))]"

definition zero_sha :: "ustr \<Rightarrow> ustr" where
  "zero_sha t = replicate 64 48"

definition example_document :: dict where
  "example_document = example_authority @ [(u ''wallet_pricing_revision'', vs ''r1''),
     (u ''wallet_pricing_revision_digest'', VStr (replicate 64 48))]"

definition example_mint :: dict where
  "example_mint = [(u ''client_secret'', VDict [(u ''value'', vs ''s''), (u ''expires_at_ms'', VInt 1)]),
     (u ''websocket_path'', vs ''x''), (u ''capability'', VDict example_document),
     (u ''capability_digest'', VStr (replicate 64 48))]"

lemma example_manifest: "\<exists>manifest. strict_json_object plain_env manifest = Inr example_authority"
proof -
  have "case dumps plain_env wire_style (VDict example_authority) of Inr t \<Rightarrow> True | Inl e \<Rightarrow> False"
    by code_simp
  then obtain t where t: "dumps plain_env wire_style (VDict example_authority) = Inr t"
    by (auto split: sum.splits)
  have "strict_json_object plain_env t = Inr example_authority"
    by (rule strict_object_of_dumps [OF styles_ok(2) t])
       (simp_all add: wire_style_def example_authority_def static_fields_def audio_document_def
          example_profile_def example_audio_def all_features_def)
  then show ?thesis ..
qed

lemma example_digest: "capability_digest plain_env zero_sha example_document = Inr (replicate 64 48)"
proof -
  have "case capability_digest plain_env zero_sha example_document of Inr d \<Rightarrow> d = replicate 64 48 | Inl e \<Rightarrow> False"
    by code_simp
  then show ?thesis
    by (simp split: sum.splits)
qed

lemma example_equal: "py_eq (VDict example_document)
  (VDict (AList.update (u ''wallet_pricing_revision_digest'') (VStr (replicate 64 48))
     (AList.update (u ''wallet_pricing_revision'') (vs ''r1'') example_authority)))"
  by code_simp

lemma example_wallet:
  "dget example_document (u ''wallet_pricing_revision'') = vs ''r1''
   \<and> dget example_document (u ''wallet_pricing_revision_digest'') = VStr (replicate 64 48)
   \<and> revision_text (u ''r1'') \<and> sha256_text (replicate 64 48)"
  by code_simp

lemma example_capability:
  assumes "strict_json_object plain_env manifest = Inr example_authority"
  shows "\<exists>c. parse_capability plain_env manifest example_document example_profile = Inr c"
proof -
  have "case capability_fields example_document example_profile of Inr c \<Rightarrow> True | Inl e \<Rightarrow> False"
    by code_simp
  moreover have "validate_authority plain_env manifest example_document = Inr ()"
    using example_wallet example_equal assms
    by (simp add: validate_authority_def string_field_def check_def capability_authority_def Let_def)
  ultimately show ?thesis
    by (auto simp: parse_capability_def split: sum.splits)
qed

lemma example_minted: "\<exists>manifest m. parse_mint_response plain_env zero_sha manifest (Inr example_mint) example_profile = Inr m"
proof -
  obtain manifest where "strict_json_object plain_env manifest = Inr example_authority"
    using example_manifest by blast
  then obtain c where "parse_capability plain_env manifest example_document example_profile = Inr c"
    using example_capability by blast
  moreover have "required_text (u ''s'') 4096 = Inr ()" "required_text (u ''x'') 512 = Inr ()"
    "required_text (replicate 64 48) 64 = Inr ()" "sha256_text (replicate 64 48)"
    by code_simp+
  moreover have "dkeys example_mint = u ` set [''client_secret'', ''websocket_path'', ''capability'', ''capability_digest'']"
    by (simp add: example_mint_def dkeys_def)
  ultimately show ?thesis
    using example_digest
    by (auto simp: parse_mint_response_def result_simps field_simps_Inr minted_init_def seq_all_Inr
        example_mint_def dget_def dkeys_def)
qed

theorem minted_credential_bound_witness:
  "\<exists>manifest m. capability_digest plain_env zero_sha (mc_capability_document m) = Inr (mc_capability_digest m)
     \<and> parse_mint_response plain_env zero_sha manifest (Inr example_mint) example_profile = Inr m"
  using example_minted minted_credential_bound by blast

lemma py_eq_text: "py_eq v (VStr s) \<longleftrightarrow> v = VStr s"
  by (cases v) auto

text \<open>
  C17. A \<^verbatim>\<open>session.created\<close> frame is accepted only when it answers this open frame for this credential: it
  has exactly the twelve fields, its related identity is the one of the open frame, and the versions,
  the provider, the expiry, the capability and the digest are those of the credential.
\<close>

theorem created_session_bound:
  assumes "validate_session_created env payload m related = Inr x"
  shows "\<exists>v doc. strict_json_object env payload = Inr v \<and> length (remdups (map fst v)) = 12
    \<and> dget v (u ''type'') = vs ''tokenseller.session.created''
    \<and> dget v (u ''related_event_id'') = VStr related \<and> printable_id related
    \<and> dget v (u ''control_version'') = VStr (ca_control_version (mc_capability m))
    \<and> dget v (u ''sdk_protocol_version'') = VStr (ca_sdk_protocol_version (mc_capability m))
    \<and> dget v (u ''provider'') = VStr (ca_provider (mc_capability m))
    \<and> dget v (u ''wire_protocol'') = VStr (ca_wire_protocol (mc_capability m))
    \<and> dget v (u ''wire_version'') = VStr (ca_wire_version (mc_capability m))
    \<and> dget v (u ''expires_at_ms'') = VInt (mc_expires_at_ms m)
    \<and> dget v (u ''capability'') = VDict doc \<and> py_eq (VDict doc) (VDict (mc_capability_document m))
    \<and> dget v (u ''capability_digest'') = VStr (mc_capability_digest m)"
proof -
  have not_error: "andthen r (\<lambda>failure. case failure of
      Some (SessionFailed f) \<Rightarrow> Inl (RealtimeErr (sf_code f) (code_name (sf_code f)) (sf_retryable f) None None None)
    | _ \<Rightarrow> Inl e) \<noteq> Inr x" for r e
    by (cases r) (auto split: option.splits rt_event.splits)
  obtain v where v: "strict_json_object env payload = Inr v"
    using assms by (auto simp: validate_session_created_def result_simps)
  have type: "dget v (u ''type'') = vs ''tokenseller.session.created''"
    using assms not_error by (auto simp: validate_session_created_def v py_eq_text split: if_splits)
  have keys: "card (dkeys v) = 12"
    using assms type by (auto simp: validate_session_created_def v result_simps exact_keys_Inr)
  show ?thesis
    using assms type keys
    by (auto simp: validate_session_created_def v result_simps created_field_def py_eq_text
        object_field_Inr integer_field_Inr dkeys_def length_remdups_card_conv dest!: opaque_id_Inr)
qed

definition example_credential :: minted_credential where
  "example_credential = \<lparr>mc_secret = u ''s'', mc_expires_at_ms = 1, mc_websocket_path = u ''x'',
     mc_capability = pr_capability example_profile, mc_capability_document = [],
     mc_capability_digest = u ''d''\<rparr>"

definition example_created :: dict where
  "example_created = [(u ''type'', vs ''tokenseller.session.created''), (u ''event_id'', vs ''e1''),
     (u ''related_event_id'', vs ''o1''), (u ''control_version'', vs ''1''),
     (u ''sdk_protocol_version'', vs ''1''), (u ''relay_session_id'', vs ''s1''),
     (u ''provider'', vs ''p''), (u ''wire_protocol'', vs ''w''), (u ''wire_version'', vs ''1''),
     (u ''capability'', VDict []), (u ''capability_digest'', vs ''d''), (u ''expires_at_ms'', VInt 1)]"

lemma example_created_accepted:
  assumes "strict_json_object plain_env payload = Inr example_created"
  shows "validate_session_created plain_env payload example_credential (u ''o1'') = Inr ()"
proof -
  have "opaque_id (vs ''e1'') ''event_id'' = Inr (u ''e1'')" "opaque_id (vs ''s1'') ''relay_session_id'' = Inr (u ''s1'')"
    "opaque_id (vs ''o1'') n = Inr (u ''o1'')" for n
    by (simp_all add: opaque_id_def string_field_def printable_id_def u_def utf8_len_def utf8_size_def)
  then show ?thesis
    by (simp add: validate_session_created_def assms)
       (simp add: example_created_def dget_def exact_keys_def key_set_is_def has_key_def check_def
         created_field_def integer_field_def object_field_def example_credential_def example_profile_def)
qed

theorem created_session_bound_witness:
  "\<exists>payload v. validate_session_created plain_env payload example_credential (u ''o1'') = Inr ()
     \<and> strict_json_object plain_env payload = Inr v \<and> dget v (u ''related_event_id'') = vs ''o1''"
proof -
  have "case dumps plain_env wire_style (VDict example_created) of Inr t \<Rightarrow> True | Inl e \<Rightarrow> False"
    by code_simp
  then obtain t where t: "dumps plain_env wire_style (VDict example_created) = Inr t"
    by (auto split: sum.splits)
  have "strict_json_object plain_env t = Inr example_created"
    by (rule strict_object_of_dumps [OF styles_ok(2) t])
       (simp_all add: wire_style_def example_created_def)
  then have "validate_session_created plain_env t example_credential (u ''o1'') = Inr ()"
    by (rule example_created_accepted)
  then show ?thesis
    using created_session_bound by blast
qed

section \<open>A value that is not hashable\<close>

text \<open>
  A close frame whose \<^verbatim>\<open>active_response\<close> is a list or an object, and whose earlier fields are valid, makes
  the decoder raise a \<^verbatim>\<open>TypeError\<close> instead of the protocol error: the membership test hashes the value.
\<close>

lemma unhashable_disposition_raises:
  assumes "dkeys v = u ` set [''type'', ''event_id'', ''related_event_id'', ''initiator'', ''disposition'',
      ''active_response'', ''settlement'']"
    and "opaque_id (dget v (u ''event_id'')) ''event_id'' = Inr eid"
    and "opaque_id (dget v (u ''related_event_id'')) ''related_event_id'' = Inr related"
    and "dget v (u ''initiator'') = VStr (u (initiator_name i))"
    and "dget v (u ''disposition'') = VStr (u (disposition_name d))"
    and "dget v (u ''active_response'') = VList xs \<or> dget v (u ''active_response'') = VDict ob"
  shows "decode_control_closed v = Inl TypeErr"
proof -
  have "initiator_name i \<noteq> []" "disposition_name d \<noteq> []"
    by (cases i; simp) (cases d; simp)
  then show ?thesis
    using assms
    by (auto simp: decode_control_closed_def exact_keys_def check_def key_set_is_iff close_enum_def
        string_field_def in_texts_def)
qed

end
