(* ===== verification/Adapter_Events.thy ===== *)
theory Adapter_Events
  imports Relay_Control
begin

text \<open>
  What the two provider adapters have in common: the audio frames of the wire codecs, and the decoding
  of the events whose fields the two wire formats share. A client event that needs a fresh identity
  takes it as an argument.
\<close>

section \<open>Client events\<close>

definition encode_audio :: "nat \<Rightarrow> ustr \<Rightarrow> bytes \<Rightarrow> dict res" where
  "encode_audio limit eid pcm =
    (if length pcm = 0 \<or> length pcm mod 2 \<noteq> 0
     then Inl (rt_error E_INVALID_REQUEST ''PCM must contain whole samples'')
     else if limit < length pcm then Inl (rt_error E_INVALID_REQUEST ''PCM event is too large'')
     else Inr [(u ''event_id'', VStr eid), (u ''type'', vs ''input_audio_buffer.append''),
               (u ''audio'', VStr (b64_encode pcm))])"

definition tool_result_event :: "ustr \<Rightarrow> ustr \<Rightarrow> ustr \<Rightarrow> dict" where
  "tool_result_event eid call_id output =
     [(u ''event_id'', VStr eid), (u ''type'', vs ''conversation.item.create''),
      (u ''item'', VDict [(u ''type'', vs ''function_call_output''), (u ''call_id'', VStr call_id),
         (u ''output'', VStr output)])]"

definition message_item :: "ustr \<Rightarrow> string \<Rightarrow> ustr \<Rightarrow> dict" where
  \<comment> \<open>the item of \<^verbatim>\<open>append_message\<close>\<close>
  "message_item eid r text =
     [(u ''id'', VStr eid), (u ''type'', vs ''message''), (u ''role'', vs r),
      (u ''content'', VList [VDict [(u ''type'', vs ''input_text''), (u ''text'', VStr text)]])]"

definition message_event :: "ustr \<Rightarrow> string \<Rightarrow> ustr \<Rightarrow> dict" where
  "message_event eid r text =
     [(u ''event_id'', VStr eid), (u ''type'', vs ''conversation.item.create''),
      (u ''item'', VDict (message_item eid r text))]"

definition compact_nan :: json_style where
  \<comment> \<open>\<^verbatim>\<open>json.dumps(value, ensure_ascii=False, separators=(",", ":"))\<close>\<close>
  "compact_nan = \<lparr>js_ascii = False, js_nan = True, js_sort = False,
     js_item_sep = u '','', js_key_sep = u '':''\<rparr>"

definition wire_encode :: "json_env \<Rightarrow> (dict \<Rightarrow> ustr res) \<Rightarrow> string list \<Rightarrow> string \<Rightarrow> nat \<Rightarrow> dict \<Rightarrow> ustr res" where
  \<comment> \<open>\<^verbatim>\<open>encode_client_event\<close> of a wire codec; the second argument reads the type of an event\<close>
  "wire_encode env event_type known unknown limit v =
    andthen (event_type v) (\<lambda>t.
    andthen (check (t \<in> set (map u known)) (rt_error E_INVALID_REQUEST unknown)) (\<lambda>_.
    andthen (if t = u ''input_audio_buffer.append''
             then andthen (decode_base64_pcm (dget v (u ''audio'')) limit) (\<lambda>_. Inr ()) else Inr ()) (\<lambda>_.
      dumps env compact_nan (VDict v))))"

section \<open>Server events\<close>

definition wire_value :: "json_env \<Rightarrow> (dict \<Rightarrow> ustr res) \<Rightarrow> string list \<Rightarrow> string \<Rightarrow> string \<Rightarrow> ustr \<Rightarrow> dict res" where
  \<comment> \<open>\<^verbatim>\<open>decode_server_event\<close> of a wire codec up to the check of the audio\<close>
  "wire_value env event_type known too_large unknown payload =
    andthen (encode_utf8 payload) (\<lambda>_.
    andthen (check (utf8_len payload \<le> 1048576) (protocol_error too_large)) (\<lambda>_.
    andthen (strict_json_object env payload) (\<lambda>v.
    andthen (event_type v) (\<lambda>t.
    andthen (check (t \<in> set (map u known)) (protocol_error unknown)) (\<lambda>_.
      Inr v)))))"

definition id_field :: "dict \<Rightarrow> string \<Rightarrow> string \<Rightarrow> ustr res" where
  \<comment> \<open>\<^verbatim>\<open>_id(value.get(key), name)\<close>\<close>
  "id_field v key name = require_identifier (dget v (u key)) (u name)"

type_synonym place = "ustr \<times> ustr \<times> int \<times> int"

definition content_identity :: "dict \<Rightarrow> place res" where
  "content_identity v =
    andthen (id_field v ''response_id'' ''response_id'') (\<lambda>r.
    andthen (id_field v ''item_id'' ''item_id'') (\<lambda>i.
    andthen (require_nonnegative_integer (dget v (u ''output_index'')) (u ''output_index'')) (\<lambda>oi.
    andthen (require_nonnegative_integer (dget v (u ''content_index'')) (u ''content_index'')) (\<lambda>ci.
      Inr (r, i, oi, ci)))))"

definition one_event :: "ustr \<Rightarrow> rt_event \<Rightarrow> decoded_event" where
  "one_event eid e = (decoded eid)\<lparr>de_events := [e]\<rparr>"

definition decode_item :: "ustr \<Rightarrow> ustr \<Rightarrow> dict \<Rightarrow> decoded_event res" where
  \<comment> \<open>\<^verbatim>\<open>response.output_item.added\<close> and \<^verbatim>\<open>response.output_item.done\<close>\<close>
  "decode_item eid t v =
    andthen (id_field v ''response_id'' ''response_id'') (\<lambda>r.
    andthen (require_object (dget v (u ''item'')) (u ''item'')) (\<lambda>item.
    andthen (id_field item ''id'' ''item.id'') (\<lambda>i.
    andthen (require_string (dget item (u ''type'')) (u ''item.type'')) (\<lambda>ty.
    andthen (require_nonnegative_integer (dget v (u ''output_index'')) (u ''output_index'')) (\<lambda>oi.
      Inr (if ends_with t (u ''added'')
           then (decoded eid)\<lparr>de_introduced_item := Some (r, i), de_introduced_item_detail := Some (r, i, oi, ty)\<rparr>
           else (decoded eid)\<lparr>de_completed_item := Some (r, i)\<rparr>))))))"

definition audio_started :: "place \<Rightarrow> rt_event" where
  "audio_started p = (case p of (r, i, oi, ci) \<Rightarrow> OutputAudioStarted r i oi ci)"

definition decode_part :: "ustr \<Rightarrow> ustr \<Rightarrow> dict \<Rightarrow> decoded_event res" where
  \<comment> \<open>\<^verbatim>\<open>response.content_part.added\<close> and \<^verbatim>\<open>response.content_part.done\<close>\<close>
  "decode_part eid t v =
    andthen (content_identity v) (\<lambda>p.
    andthen (require_object (dget v (u ''part'')) (u ''part'')) (\<lambda>part.
      Inr (if ends_with t (u ''added'')
           then (decoded eid)\<lparr>de_events := (if py_eq (dget part (u ''type'')) (vs ''audio'') then [audio_started p] else []),
                  de_introduced_content := Some p\<rparr>
           else (decoded eid)\<lparr>de_completed_content := Some p\<rparr>)))"

definition decode_text :: "ustr \<Rightarrow> ustr \<Rightarrow> string \<Rightarrow> dict \<Rightarrow> decoded_event res" where
  \<comment> \<open>a text or transcript of the output, whose final field has the given name\<close>
  "decode_text eid t final v =
    andthen (content_identity v) (\<lambda>(r, i, oi, ci).
      let delta = ends_with t (u ''delta''); key = (if delta then ''delta'' else final)
      in andthen (require_string (dget v (u key)) (u key)) (\<lambda>s.
         Inr (one_event eid (OutputText r i oi ci s delta))))"

definition decode_audio :: "ustr \<Rightarrow> dict \<Rightarrow> decoded_event res" where
  "decode_audio eid v =
    andthen (content_identity v) (\<lambda>(r, i, oi, ci).
    andthen (decode_base64_pcm (dget v (u ''delta'')) 262144) (\<lambda>pcm.
      Inr (one_event eid (OutputAudio r i oi ci pcm))))"

definition decode_audio_done :: "ustr \<Rightarrow> dict \<Rightarrow> decoded_event res" where
  "decode_audio_done eid v =
    andthen (content_identity v) (\<lambda>(r, i, oi, ci). Inr (one_event eid (OutputAudioCompleted r i oi ci)))"

definition decode_call :: "ustr \<Rightarrow> dict \<Rightarrow> decoded_event res" where
  \<comment> \<open>\<^verbatim>\<open>response.function_call_arguments.done\<close>\<close>
  "decode_call eid v =
    andthen (id_field v ''response_id'' ''response_id'') (\<lambda>r.
    andthen (id_field v ''item_id'' ''item_id'') (\<lambda>i.
    andthen (require_nonnegative_integer (dget v (u ''output_index'')) (u ''output_index'')) (\<lambda>oi.
    andthen (id_field v ''call_id'' ''call_id'') (\<lambda>c.
    andthen (case dget v (u ''arguments'') of
               VStr s \<Rightarrow> Inr s | _ \<Rightarrow> Inl (protocol_error ''arguments must be a string'')) (\<lambda>arguments.
    andthen (require_string (dget v (u ''name'')) (u ''name'')) (\<lambda>name.
      Inr ((one_event eid (ToolCallRequested r c name arguments 0))
             \<lparr>de_tool_call_identity := Some (r, i, oi, c)\<rparr>)))))))"

definition decode_created :: "ustr \<Rightarrow> ustr option \<Rightarrow> dict \<Rightarrow> decoded_event res" where
  \<comment> \<open>\<^verbatim>\<open>response.created\<close>\<close>
  "decode_created eid context v =
    andthen (require_object (dget v (u ''response'')) (u ''response'')) (\<lambda>response.
    andthen (id_field response ''id'' ''response.id'') (\<lambda>r.
      Inr ((one_event eid (ResponseStarted (u ''turn_'' @ r) r))
             \<lparr>de_introduced_response_id := Some r, de_context_ack_id := context\<rparr>)))"

definition tool_ack :: "dict \<Rightarrow> (ustr \<times> ustr \<times> ustr \<times> ustr \<times> ustr) option res" where
  \<comment> \<open>\<^verbatim>\<open>ack_identity\<close> of a created item\<close>
  "tool_ack item =
    (if py_eq (dget item (u ''type'')) (vs ''function_call_output'') then
       andthen (id_field item ''id'' ''item.id'') (\<lambda>i.
       andthen (require_string (dget item (u ''type'')) (u ''item.type'')) (\<lambda>ty.
       andthen (require_string (dget item (u ''status'')) (u ''item.status'')) (\<lambda>st.
       andthen (id_field item ''call_id'' ''item.call_id'') (\<lambda>c.
       andthen (require_string (dget item (u ''output'')) (u ''item.output'')) (\<lambda>out.
         Inr (Some (i, ty, st, c, out)))))))
     else Inr None)"

definition decode_tool_ack :: "ustr \<Rightarrow> dict \<Rightarrow> decoded_event res" where
  "decode_tool_ack eid item =
    andthen (tool_ack item) (\<lambda>ack.
      Inr ((decoded eid)\<lparr>de_tool_ack_call_id := map_option (\<lambda>(_, _, _, c, _). c) ack,
             de_tool_ack_identity := ack\<rparr>))"

section \<open>What decoding yields\<close>

definition output_response :: "rt_event \<Rightarrow> ustr option" where
  \<comment> \<open>the response that an event of the output is about\<close>
  "output_response e =
    (case e of
       OutputText r _ _ _ _ _ \<Rightarrow> Some r | OutputAudioStarted r _ _ _ \<Rightarrow> Some r
     | OutputAudio r _ _ _ _ \<Rightarrow> Some r | OutputAudioCompleted r _ _ _ \<Rightarrow> Some r
     | ToolCallRequested r _ _ _ _ \<Rightarrow> Some r | _ \<Rightarrow> None)"

definition scoped_events :: "dict \<Rightarrow> decoded_event \<Rightarrow> bool" where
  \<comment> \<open>no terminal close, and output only for the response the frame names\<close>
  "scoped_events v d \<longleftrightarrow>
     list_all (\<lambda>e. (case e of SessionClosed _ \<Rightarrow> False | _ \<Rightarrow> True)
        \<and> (\<forall>r. output_response e = Some r \<longrightarrow> dget v (u ''response_id'') = VStr r \<and> \<not> blank r)) (de_events d)"

definition no_context :: "decoded_event \<Rightarrow> bool" where
  \<comment> \<open>neither an acknowledgement nor a rejection of a context request\<close>
  "no_context d \<longleftrightarrow> de_context_ack_id d = None \<and> de_rejected_event_id d = None \<and> de_context_request_id d = None"

lemma content_identity_Inr:
  "content_identity v = Inr (r, i, oi, ci) \<Longrightarrow> dget v (u ''response_id'') = VStr r \<and> \<not> blank r"
  by (auto simp: content_identity_def result_simps id_field_def require_simps)

lemma scoped_simps [simp]:
  "scoped_events v (decoded eid)" "no_context (decoded eid)"
  "scoped_events v (d\<lparr>de_introduced_item := a\<rparr>) = scoped_events v d"
  "scoped_events v (d\<lparr>de_introduced_item_detail := b\<rparr>) = scoped_events v d"
  "scoped_events v (d\<lparr>de_completed_item := a\<rparr>) = scoped_events v d"
  "scoped_events v (d\<lparr>de_introduced_content := c\<rparr>) = scoped_events v d"
  "scoped_events v (d\<lparr>de_completed_content := c\<rparr>) = scoped_events v d"
  by (simp_all add: scoped_events_def no_context_def)

lemmas decode_defs = decode_item_def decode_part_def decode_text_def decode_audio_def decode_audio_done_def
  decode_call_def decode_tool_ack_def one_event_def audio_started_def

lemma decode_scoped:
  "decode_item eid t v = Inr d \<Longrightarrow> scoped_events v d \<and> no_context d"
  "decode_part eid t v = Inr d \<Longrightarrow> scoped_events v d \<and> no_context d"
  "decode_text eid t f v = Inr d \<Longrightarrow> scoped_events v d \<and> no_context d"
  "decode_audio eid v = Inr d \<Longrightarrow> scoped_events v d \<and> no_context d"
  "decode_audio_done eid v = Inr d \<Longrightarrow> scoped_events v d \<and> no_context d"
  "decode_call eid v = Inr d \<Longrightarrow> scoped_events v d \<and> no_context d"
  "decode_tool_ack eid v = Inr d \<Longrightarrow> scoped_events v d \<and> no_context d"
  "decode_created eid c v = Inr d \<Longrightarrow> scoped_events v d \<and> de_rejected_event_id d = None
     \<and> de_context_request_id d = None \<and> de_context_ack_id d = c"
  by (auto simp: decode_defs decode_created_def result_simps Let_def scoped_events_def no_context_def
      output_response_def id_field_def require_simps dest: content_identity_Inr)

lemma decode_none:
  "decode_item eid t v = Inr d \<Longrightarrow> no_context d" "decode_part eid t v = Inr d \<Longrightarrow> no_context d"
  "decode_text eid t f v = Inr d \<Longrightarrow> no_context d" "decode_audio eid v = Inr d \<Longrightarrow> no_context d"
  "decode_audio_done eid v = Inr d \<Longrightarrow> no_context d" "decode_call eid v = Inr d \<Longrightarrow> no_context d"
  "decode_tool_ack eid v = Inr d \<Longrightarrow> no_context d" "decode_created eid None v = Inr d \<Longrightarrow> no_context d"
  using decode_scoped by (blast | simp add: no_context_def)+

end
