(* ===== verification/Qwen.thy ===== *)
theory Qwen
  imports Adapter_Events Recovery
begin

text \<open>
  \<^verbatim>\<open>realtime/adapters/qwen_wire.py\<close> and \<^verbatim>\<open>realtime/adapters/qwen_omni.py\<close>: the adapter of the Qwen
  provider. Its state is a record; an operation that can raise after it has changed the state returns
  both the exception and the state.
\<close>

section \<open>The wire codec\<close>

definition QWEN_CLIENT_EVENTS :: "string list" where
  "QWEN_CLIENT_EVENTS =
     [''session.update'', ''input_audio_buffer.append'', ''input_audio_buffer.commit'',
      ''input_audio_buffer.clear'', ''response.create'', ''response.cancel'', ''conversation.item.create'']"

definition QWEN_SERVER_EVENTS :: "string list" where
  "QWEN_SERVER_EVENTS =
     [''error'', ''session.updated'', ''input_audio_buffer.speech_started'',
      ''input_audio_buffer.speech_stopped'', ''input_audio_buffer.committed'',
      ''conversation.item.created'', ''conversation.item.input_audio_transcription.delta'',
      ''conversation.item.input_audio_transcription.completed'',
      ''conversation.item.input_audio_transcription.failed'', ''response.created'', ''response.done'',
      ''response.text.delta'', ''response.text.done'', ''response.audio.delta'', ''response.audio.done'',
      ''response.audio_transcript.delta'', ''response.audio_transcript.done'',
      ''response.function_call_arguments.delta'', ''response.function_call_arguments.done'',
      ''response.output_item.added'', ''response.output_item.done'', ''response.content_part.added'',
      ''response.content_part.done'']"

definition qwen_event_id :: "ustr \<Rightarrow> bool" where
  \<comment> \<open>the regular expression \<^verbatim>\<open>^event_[A-Za-z0-9_-]{1,120}$\<close>\<close>
  "qwen_event_id s \<longleftrightarrow> starts_with s (u ''event_'') \<and> 7 \<le> length s \<and> length s \<le> 126
     \<and> list_all (\<lambda>c. is_lower c \<or> is_upper c \<or> is_digit c \<or> c = 95 \<or> c = 45) (drop 6 s)"

definition qwen_event_type :: "dict \<Rightarrow> ustr res" where
  \<comment> \<open>\<^verbatim>\<open>_event_identity\<close>\<close>
  "qwen_event_type v =
    andthen (id_field v ''event_id'' ''event_id'') (\<lambda>eid.
      case dget v (u ''type'') of
        VStr t \<Rightarrow> if qwen_event_id eid then Inr t else Inl (protocol_error ''invalid Qwen event_id'')
      | _ \<Rightarrow> Inl (protocol_error ''event type/id is required''))"

definition qwen_encode :: "json_env \<Rightarrow> dict \<Rightarrow> ustr res" where
  "qwen_encode env v =
     wire_encode env qwen_event_type QWEN_CLIENT_EVENTS ''unknown Qwen client event'' 65536 v"

definition qwen_value :: "json_env \<Rightarrow> ustr \<Rightarrow> dict res" where
  \<comment> \<open>\<^verbatim>\<open>QwenWireCodec.decode_server_event(payload, validate_audio=False)\<close>\<close>
  "qwen_value env payload =
     wire_value env qwen_event_type QWEN_SERVER_EVENTS ''Qwen frame is too large''
       ''unknown Qwen server event'' payload"

section \<open>The state of the adapter\<close>

record qwen =
  qw_tools :: pyval
  qw_context :: "(ustr \<times> dict option) list" \<comment> \<open>\<^verbatim>\<open>_context_events\<close> in insertion order\<close>
  qw_instruction :: "(ustr \<times> ustr) option"
  qw_seen_items :: "ustr set"
  qw_seen_events :: "ustr set"
  qw_table :: id_table
  qw_bound :: bool

definition first_table :: id_table where
  "first_table = begin_generation 1 empty_table"

definition qwen_init :: qwen where
  "qwen_init = \<lparr>qw_tools = VList [], qw_context = [], qw_instruction = None, qw_seen_items = {},
     qw_seen_events = {}, qw_table = first_table, qw_bound = False\<rparr>"

definition bind_table :: "id_table \<Rightarrow> qwen \<Rightarrow> qwen" where
  "bind_table t q = q\<lparr>qw_table := t, qw_bound := True\<rparr>"

definition pop_context :: "ustr \<Rightarrow> (ustr \<times> dict option) list \<Rightarrow> (ustr \<times> dict option) list" where
  "pop_context k ctx = filter (\<lambda>ke. fst ke \<noteq> k) ctx"

section \<open>Client events\<close>

definition qwen_session_event :: "ustr \<Rightarrow> ustr \<Rightarrow> pyval \<Rightarrow> dict" where
  "qwen_session_event eid instructions tools =
     [(u ''event_id'', VStr eid), (u ''type'', vs ''session.update''),
      (u ''session'', VDict
        ([(u ''modalities'', VList [vs ''text'', vs ''audio'']),
          (u ''model'', vs ''qwen3.5-omni-flash-realtime-2026-03-15''), (u ''voice'', vs ''Tina''),
          (u ''instructions'', VStr instructions)]
         @ (if truthy tools then [(u ''tools'', tools)] else [])
         @ [(u ''audio'', VDict
              [(u ''input'', VDict [(u ''format'', VDict [(u ''type'', vs ''pcm''), (u ''sample_rate'', VInt 16000)])]),
               (u ''output'', VDict [(u ''format'', VDict [(u ''type'', vs ''pcm''), (u ''sample_rate'', VInt 24000)])])]),
            (u ''turn_detection'', VDict
              [(u ''type'', vs ''semantic_vad''), (u ''threshold'', VFloat (Fin (1/2))),
               (u ''silence_duration_ms'', VInt 800)]),
            (u ''input_audio_transcription'', VDict [(u ''model'', vs ''qwen3-asr-flash-realtime'')])]))]"

definition qwen_session_update :: "json_env \<Rightarrow> ustr \<Rightarrow> open_request \<Rightarrow> qwen \<Rightarrow> dict res \<times> qwen" where
  "qwen_session_update env eid r q =
    (case validate_tools env (nat (li_tool_payload_bytes default_limits)) (or_tools r) of
       Inl e \<Rightarrow> (Inl e, q)
     | Inr _ \<Rightarrow>
         (Inr (qwen_session_event eid (or_instructions r) (or_tools r)),
          q\<lparr>qw_table := (if qw_bound q then qw_table q else first_table), qw_tools := or_tools r\<rparr>))"

definition qwen_audio_append :: "ustr \<Rightarrow> bytes \<Rightarrow> dict res" where
  "qwen_audio_append eid pcm = encode_audio 65536 eid pcm"

definition qwen_cancel_response :: "ustr \<Rightarrow> ustr option \<Rightarrow> dict" where
  "qwen_cancel_response eid response_id = [(u ''event_id'', VStr eid), (u ''type'', vs ''response.cancel'')]"

definition qwen_truncate_output :: "dict res" where
  "qwen_truncate_output = Inl (rt_error E_UNSUPPORTED ''Qwen does not support truncate'')"

definition qwen_tool_result :: "ustr \<Rightarrow> ustr \<Rightarrow> ustr \<Rightarrow> dict \<times> ustr" where
  "qwen_tool_result eid call_id output = (tool_result_event eid call_id output, eid)"

definition qwen_followup_response :: "ustr \<Rightarrow> ustr \<Rightarrow> dict" where
  "qwen_followup_response eid call_id = [(u ''event_id'', VStr eid), (u ''type'', vs ''response.create'')]"

definition qwen_append_message :: "ustr \<Rightarrow> ustr \<Rightarrow> string \<Rightarrow> qwen \<Rightarrow> dict \<times> qwen" where
  "qwen_append_message eid text r q =
    (message_event eid r text,
     q\<lparr>qw_context := AList.update eid (Some (message_item eid r text)) (qw_context q)\<rparr>)"

definition qwen_update_instructions :: "ustr \<Rightarrow> ustr \<Rightarrow> qwen \<Rightarrow> dict \<times> qwen" where
  "qwen_update_instructions eid text q =
    ([(u ''event_id'', VStr eid), (u ''type'', vs ''session.update''),
      (u ''session'', VDict [(u ''instructions'', VStr text)])],
     q\<lparr>qw_instruction := Some (eid, text), qw_context := AList.update eid None (qw_context q)\<rparr>)"

definition qwen_out_of_band :: "dict res" where
  "qwen_out_of_band = Inl (rt_error E_UNSUPPORTED ''Qwen has no out-of-band response'')"

section \<open>The acknowledgement of the session\<close>

type_synonym signature = "(ustr \<times> ustr set \<times> ustr set) list"

definition text_elements :: "pyval list \<Rightarrow> ustr list option" where
  \<comment> \<open>the elements, if all of them are strings\<close>
  "text_elements xs =
    (if list_all (\<lambda>x. case x of VStr _ \<Rightarrow> True | _ \<Rightarrow> False) xs
     then Some (map (\<lambda>x. case x of VStr s \<Rightarrow> s | _ \<Rightarrow> []) xs) else None)"

definition tool_signature :: "signature \<Rightarrow> pyval \<Rightarrow> signature res" where
  \<comment> \<open>one turn of the loop of \<^verbatim>\<open>_tool_catalog_signature\<close>\<close>
  "tool_signature sig tool =
    (case tool of
       VDict d \<Rightarrow>
         if \<not> py_eq (dget d (u ''type'')) (vs ''function'')
         then Inl (rt_error E_UNSUPPORTED ''Qwen function tool missing'')
         else
           (case get_or d ''function'' tool of
              VDict f \<Rightarrow>
                (case (dget f (u ''name''), get_or f ''parameters'' (VDict [])) of
                   (VStr name, VDict ps) \<Rightarrow>
                     if name = [] \<or> has_key sig name
                     then Inl (rt_error E_UNSUPPORTED ''Qwen function identity mismatch'')
                     else
                       (case (get_or ps ''required'' (VList []), get_or ps ''properties'' (VDict [])) of
                          (VList rs, VDict props) \<Rightarrow>
                            (case text_elements rs of
                               Some names \<Rightarrow> Inr (sig @ [(name, set names, set (map fst props))])
                             | None \<Rightarrow> Inl (rt_error E_UNSUPPORTED ''Qwen function parameters malformed''))
                        | _ \<Rightarrow> Inl (rt_error E_UNSUPPORTED ''Qwen function parameters malformed''))
                 | _ \<Rightarrow> Inl (rt_error E_UNSUPPORTED ''Qwen function identity mismatch''))
            | _ \<Rightarrow> Inl (rt_error E_UNSUPPORTED ''Qwen function tool malformed''))
     | _ \<Rightarrow> Inl (rt_error E_UNSUPPORTED ''Qwen function tool missing''))"

definition catalog_signature :: "pyval \<Rightarrow> signature res" where
  "catalog_signature tools =
    (case tools of
       VList ts \<Rightarrow> fold_r tool_signature [] ts
     | _ \<Rightarrow> Inl (rt_error E_UNSUPPORTED ''Qwen tool catalog is not a list''))"

definition same_signature :: "signature \<Rightarrow> signature \<Rightarrow> bool" where
  \<comment> \<open>equality of the dictionaries\<close>
  "same_signature a b \<longleftrightarrow>
     length a = length b \<and> list_all (\<lambda>kv. map_of b (fst kv) = Some (snd kv)) a"

definition ack_tools :: "json_env \<Rightarrow> pyval \<Rightarrow> dict \<Rightarrow> bool res" where
  \<comment> \<open>the check of the tools in \<^verbatim>\<open>_validate_session_ack\<close>: whether the catalog was normalized\<close>
  "ack_tools env tools session =
    (if \<not> has_key session (u ''tools'') then
       (if truthy tools then Inl (rt_error E_UNSUPPORTED ''Qwen did not acknowledge tools'') else Inr False)
     else
       andthen (catalog_signature (dget session (u ''tools''))) (\<lambda>a.
       andthen (catalog_signature tools) (\<lambda>b.
       andthen (check (same_signature a b) (rt_error E_UNSUPPORTED ''Qwen tool catalog not acknowledged'')) (\<lambda>_.
       andthen (dumps env default_style (dget session (u ''tools''))) (\<lambda>s.
       andthen (dumps env default_style tools) (\<lambda>t. Inr (s \<noteq> t)))))))"

definition QWEN_SESSION :: dict where
  "QWEN_SESSION =
     [(u ''modalities'', VList [vs ''text'', vs ''audio'']), (u ''voice'', vs ''Tina''),
      (u ''audio'', VDict
        [(u ''input'', VDict [(u ''format'', VDict [(u ''type'', vs ''pcm''), (u ''sample_rate'', VInt 16000)])]),
         (u ''output'', VDict [(u ''format'', VDict [(u ''type'', vs ''pcm''), (u ''sample_rate'', VInt 24000)])])]),
      (u ''input_audio_transcription'', VDict [(u ''model'', vs ''qwen3-asr-flash-realtime'')])]"

definition QWEN_TURN_DETECTION :: dict where
  "QWEN_TURN_DETECTION =
     [(u ''type'', vs ''semantic_vad''), (u ''threshold'', VFloat (Fin (1/2))),
      (u ''silence_duration_ms'', VInt 800), (u ''create_response'', VBool True),
      (u ''interrupt_response'', VBool True)]"

definition qwen_session_ack :: "json_env \<Rightarrow> pyval \<Rightarrow> dict \<Rightarrow> bool res" where
  \<comment> \<open>\<^verbatim>\<open>_validate_session_ack\<close>\<close>
  "qwen_session_ack env tools v =
    (let expected = [''id'', ''modalities'', ''instructions'', ''voice'', ''audio'',
                     ''input_audio_transcription'', ''turn_detection'']
     in
    andthen (check (key_set_is v (map u [''event_id'', ''type'', ''session'']))
               (protocol_error ''Qwen session acknowledgement fields do not match'')) (\<lambda>_.
    andthen (require_object (dget v (u ''session'')) (u ''session'')) (\<lambda>session.
    andthen (check (list_all (has_key session) (map u expected) \<and> keys_within session (map u (expected @ [''tools''])))
               (protocol_error ''Qwen session fields do not match'')) (\<lambda>_.
    andthen (ack_tools env tools session) (\<lambda>normalized.
    andthen (id_field session ''id'' ''session.id'') (\<lambda>_.
    andthen (require_string (dget session (u ''instructions'')) (u ''session.instructions'')) (\<lambda>_.
    andthen (check (list_all (\<lambda>kv. py_eq (dget session (fst kv)) (snd kv)) QWEN_SESSION)
               (protocol_error ''Qwen session configuration mismatch'')) (\<lambda>_.
    andthen (require_object (dget session (u ''turn_detection'')) (u ''session.turn_detection'')) (\<lambda>turn.
    andthen (check (py_eq (VDict turn) (VDict QWEN_TURN_DETECTION))
               (protocol_error ''Qwen turn detection acknowledgement mismatch'')) (\<lambda>_.
      Inr normalized))))))))))"

section \<open>Server events\<close>

definition qw_register :: "ustr \<Rightarrow> role \<Rightarrow> ustr \<Rightarrow> bool \<Rightarrow> ustr list \<Rightarrow> qwen \<Rightarrow> unit res \<times> qwen" where
  \<comment> \<open>\<^verbatim>\<open>self.identity_table.register(...)\<close>\<close>
  "qw_register i r source confirmed aliases q =
    (case register (qw_table q) i r source confirmed aliases None of
       Inl e \<Rightarrow> (Inl e, q)
     | Inr (_, t) \<Rightarrow> (Inr (), q\<lparr>qw_table := t\<rparr>))"

definition nested_item :: "ustr \<Rightarrow> ustr \<Rightarrow> bool \<Rightarrow> dict \<Rightarrow> ustr \<Rightarrow> qwen \<Rightarrow> decoded_event option res \<times> qwen" where
  \<comment> \<open>the role that the item of an event with a response (\<open>scoped\<close>) or without one declares\<close>
  "nested_item eid t scoped nested i q =
    (let role = get_or nested ''role'' (if scoped then vs ''assistant'' else VNone)
     in if has_key nested (u ''role'') \<and> role \<notin> set (map vs [''user'', ''assistant'', ''system''])
        then (Inl (protocol_field_error ''invalid item role'' (u ''role'') ''unknown_enum''), q)
        else if scoped \<and> t = u ''response.output_item.added'' \<and> role \<in> set (map vs [''assistant'', ''system''])
        then seq_st (qw_register i (if role = vs ''assistant'' then Role_assistant else Role_system)
                       (u ''output_item'') False [] q) (\<lambda>_ q1. (Inr None, q1))
        else if scoped \<and> role = vs ''user'' \<and> py_eq (dget nested (u ''type'')) (vs ''message'')
           \<and> py_eq (dget nested (u ''status'')) (vs ''completed'')
        then seq_st (qw_register i Role_user (u ''output_item'') True [] q)
               (\<lambda>_ q1. (Inr (Some (decoded eid)), q1))
        else (Inr None, q))"

definition pre_register :: "ustr \<Rightarrow> ustr \<Rightarrow> dict \<Rightarrow> qwen \<Rightarrow> decoded_event option res \<times> qwen" where
  \<comment> \<open>the role an output item declares, before the scope of the event is checked\<close>
  "pre_register eid t v q =
    (if t \<notin> set (map u [''response.output_item.added'', ''response.output_item.done'']) then (Inr None, q)
     else
       (case dget v (u ''item'') of
          VDict nested \<Rightarrow>
            (case optional_identifier (dget nested (u ''id'')) of
               None \<Rightarrow> (Inr None, q)
             | Some i \<Rightarrow>
                 nested_item eid t (optional_identifier (dget v (u ''response_id'')) \<noteq> None) nested i q)
        | _ \<Rightarrow> (Inr None, q)))"

definition user_side_item :: "ustr \<Rightarrow> dict \<Rightarrow> ustr option res" where
  \<comment> \<open>the item an event without a response is about\<close>
  "user_side_item t v =
    (let item_id = optional_identifier (dget v (u ''item_id''));
         nested = (case dget v (u ''item'') of VDict d \<Rightarrow> optional_identifier (dget d (u ''id'')) | _ \<Rightarrow> None)
     in if starts_with t (u ''response.output_item.'') then
          (if item_id \<noteq> None \<and> nested \<noteq> None \<and> item_id \<noteq> nested
           then Inl (protocol_error ''conflicting item identity'')
           else Inr (if item_id \<noteq> None then item_id else nested))
        else Inr item_id)"

definition transcript_event :: "ustr \<Rightarrow> ustr \<Rightarrow> ustr \<Rightarrow> rt_event" where
  "transcript_event t turn text =
    (if ends_with t (u ''delta'') then TranscriptDelta turn text else TranscriptCompleted turn text)"

definition user_side_event :: "ustr \<Rightarrow> ustr \<Rightarrow> dict \<Rightarrow> qwen \<Rightarrow> decoded_event res" where
  \<comment> \<open>\<^verbatim>\<open>_user_side_response_event\<close>\<close>
  "user_side_event eid t v q =
    andthen (user_side_item t v) (\<lambda>item.
      case item of
        Some i \<Rightarrow>
          (if \<not> is_user_item (qw_table q) i then
             Inl (protocol_field_error ''response_id is required'' (u ''response_id'')
               (if (case lookup_item (qw_table q) i of Some it \<Rightarrow> ii_role it = Role_assistant | None \<Rightarrow> False)
                then ''suspected_assistant_missing_response_id''
                else ''unresolved_item_missing_response_id''))
           else
             (let transcript = (t \<in> set (map u [''response.audio_transcript.delta'', ''response.audio_transcript.done'']));
                  key = (if ends_with t (u ''delta'') then ''delta'' else ''transcript'')
              in if transcript \<and> \<not> py_eq (dget v (u key)) (VStr [])
                 then andthen (require_string (dget v (u key)) (u key))
                        (\<lambda>text. Inr (one_event eid (transcript_event t i text)))
                 else Inr ((decoded eid)\<lparr>de_user_side_transcript_ignored := transcript,
                             de_user_side_response_event_ignored := Some t\<rparr>)))
      | None \<Rightarrow>
          Inl (protocol_field_error ''response_id is required'' (u ''response_id'')
                 ''unresolved_item_missing_response_id''))"

definition part_typed :: "string \<Rightarrow> pyval \<Rightarrow> bool" where
  \<comment> \<open>\<^verbatim>\<open>isinstance(part, dict) and part.get("type") == ...\<close>\<close>
  "part_typed ty part = (case part of VDict d \<Rightarrow> py_eq (dget d (u ''type'')) (vs ty) | _ \<Rightarrow> False)"

definition text_part :: "pyval \<Rightarrow> ustr res" where
  "text_part part =
    (case part of
       VDict d \<Rightarrow>
         (case dget d (u ''text'') of
            VStr s \<Rightarrow> if py_eq (dget d (u ''type'')) (vs ''input_text'') then Inr s
                      else Inl (protocol_error ''context content mismatch'')
          | _ \<Rightarrow> Inl (protocol_error ''context content mismatch''))
     | _ \<Rightarrow> Inl (protocol_error ''context content mismatch''))"

definition context_text_parts :: "pyval \<Rightarrow> ustr list res" where
  "context_text_parts content =
    (case content of
       VList parts \<Rightarrow>
         if parts = [] then Inl (protocol_error ''context content missing'') else each text_part parts
     | _ \<Rightarrow> Inl (protocol_error ''context content missing''))"

definition see_event :: "ustr \<Rightarrow> qwen \<Rightarrow> qwen" where
  "see_event eid q = q\<lparr>qw_seen_events := insert eid (qw_seen_events q)\<rparr>"

definition see_item :: "ustr \<Rightarrow> qwen \<Rightarrow> qwen" where
  "see_item i q = q\<lparr>qw_seen_items := insert i (qw_seen_items q)\<rparr>"

definition declared_role :: "pyval \<Rightarrow> ustr" where
  "declared_role v =
    (case v of
       VStr s \<Rightarrow> if s \<in> set (map u [''user'', ''assistant'', ''system'']) then s else u ''invalid''
     | VNone \<Rightarrow> u ''missing''
     | _ \<Rightarrow> u ''invalid'')"

definition input_item :: "ustr \<Rightarrow> ustr \<Rightarrow> bool \<Rightarrow> dict \<Rightarrow> qwen \<Rightarrow> decoded_event res \<times> qwen" where
  \<comment> \<open>the branch of \<^verbatim>\<open>_context_message_created\<close> for the user's own audio\<close>
  "input_item eid i has_audio item q =
    (if has_key (qw_context q) i then (Inl (protocol_error ''context message mismatch''), q)
     else
       (let source = (if has_audio then u ''input_audio_item''
                      else (case lookup_item (qw_table q) i of Some it \<Rightarrow> ii_source it | None \<Rightarrow> u ''input_audio_item''))
        in seq_st (qw_register i Role_user source (py_eq (dget item (u ''status'')) (vs ''completed'')) [] q)
             (\<lambda>_ q1. (Inr (let role = declared_role (dget item (u ''role''))
                           in (decoded eid)\<lparr>de_item_role_metadata_mismatch :=
                                if role = u ''user'' then None else Some (i, role)\<rparr>),
                      see_event eid (see_item i q1)))))"

definition pending_context :: "qwen \<Rightarrow> (ustr \<times> dict) option" where
  "pending_context q =
    (case find (\<lambda>ke. snd ke \<noteq> None) (qw_context q) of
       Some (k, Some e) \<Rightarrow> Some (k, e)
     | _ \<Rightarrow> None)"

definition acknowledge :: "ustr \<Rightarrow> ustr \<Rightarrow> ustr \<Rightarrow> dict \<Rightarrow> qwen \<Rightarrow> decoded_event res \<times> qwen" where
  \<comment> \<open>the end of \<^verbatim>\<open>_context_message_created\<close>\<close>
  "acknowledge eid i request expected q =
    (let q1 = see_event eid (see_item i (see_item request
                (q\<lparr>qw_context := pop_context request (qw_context q)\<rparr>)));
         d = (decoded eid)\<lparr>de_context_ack_id := Some i, de_context_request_id := Some request\<rparr>;
         r = dget expected (u ''role'')
     in if r \<in> set (map vs [''user'', ''system'']) then
          (case qw_register i (if r = vs ''user'' then Role_user else Role_system) (u ''context_ack'') True [request] q1 of
             (Inl e, q2) \<Rightarrow> (Inl e, q2)
           | (Inr _, q2) \<Rightarrow> (Inr d, q2))
        else (Inr d, q1))"

definition same_text :: "dict \<Rightarrow> dict \<Rightarrow> unit res" where
  \<comment> \<open>the comparison of the text parts\<close>
  "same_text item expected =
    andthen (context_text_parts (dget item (u ''content''))) (\<lambda>a.
    andthen (context_text_parts (dget expected (u ''content''))) (\<lambda>b.
      check (a = b) (protocol_error ''context message mismatch'')))"

definition settle_context :: "ustr \<Rightarrow> ustr \<Rightarrow> dict \<Rightarrow> ustr \<Rightarrow> dict \<Rightarrow> qwen \<Rightarrow> decoded_event res \<times> qwen" where
  \<comment> \<open>the first pending message is compared with the item, and acknowledged\<close>
  "settle_context eid i item request expected q =
    (if \<not> py_eq (dget item (u ''type'')) (vs ''message'')
        \<or> \<not> py_eq (dget item (u ''status'')) (vs ''completed'')
        \<or> \<not> py_eq (dget item (u ''role'')) (dget expected (u ''role''))
        \<or> (has_key (qw_context q) i \<and> i \<noteq> request)
     then (Inl (protocol_error ''context message mismatch''), q)
     else seq_st (same_text item expected, q) (\<lambda>_ q1. acknowledge eid i request expected q1))"

definition context_message_created :: "ustr \<Rightarrow> dict \<Rightarrow> qwen \<Rightarrow> decoded_event res \<times> qwen" where
  "context_message_created eid item q =
    seq_st (id_field item ''id'' ''item.id'', q) (\<lambda>i q.
      let content = dget item (u ''content'');
          has_audio = (case content of VList ps \<Rightarrow> list_ex (part_typed ''input_audio'') ps | _ \<Rightarrow> False);
          known_input = (case lookup_item (qw_table q) i of
              None \<Rightarrow> False
            | Some it \<Rightarrow> ii_role it = Role_user
                \<and> (case ii_origin it of
                     Some s \<Rightarrow> s \<in> set (map u [''speech_started'', ''committed'', ''input_audio_item'', ''transcript''])
                   | None \<Rightarrow> False));
          unrelated = (\<not> has_key (qw_context q) i
              \<and> (case content of VList ps \<Rightarrow> ps \<noteq> [] \<and> list_all (part_typed ''input_audio'') ps | _ \<Rightarrow> False))
      in if py_eq (dget item (u ''type'')) (vs ''message'') \<and> (has_audio \<or> known_input)
         then input_item eid i has_audio item q
         else if i \<in> qw_seen_items q then (Inr (decoded eid), see_event eid q)
         else
           (case pending_context q of
              Some (request, expected) \<Rightarrow>
                if unrelated then
                  seq_st (if py_eq (dget item (u ''type'')) (vs ''message'')
                             \<and> py_eq (dget item (u ''role'')) (vs ''user'')
                             \<and> py_eq (dget item (u ''status'')) (vs ''completed'')
                          then qw_register i Role_user (u ''input_audio_item'') True [] q else (Inr (), q))
                    (\<lambda>_ q1. (Inr (decoded eid), see_event eid (see_item i q1)))
                else settle_context eid i item request expected q
            | None \<Rightarrow>
                if has_key (qw_context q) i then (Inl (protocol_error ''unexpected context message''), q)
                else
                  seq_st (if unrelated \<and> py_eq (dget item (u ''type'')) (vs ''message'')
                             \<and> py_eq (dget item (u ''role'')) (vs ''user'')
                             \<and> py_eq (dget item (u ''status'')) (vs ''completed'')
                          then qw_register i Role_user (u ''input_audio_item'') True [] q else (Inr (), q))
                    (\<lambda>_ q1. (Inr (decoded eid), see_event eid (see_item i q1)))))"

definition qwen_status :: "dict \<Rightarrow> ustr \<Rightarrow> response_status res" where
  "qwen_status response status =
    (if status = u ''completed'' then Inr RS_COMPLETED
     else if status = u ''failed'' then Inr RS_FAILED
     else if status = u ''incomplete'' then
       (case dget response (u ''status_details'') of
          VDict d \<Rightarrow>
            andthen (in_texts (dget d (u ''reason'')) [''client_cancelled'', ''turn_detected''])
              (\<lambda>c. Inr (if c then RS_CANCELLED else RS_INCOMPLETE))
        | _ \<Rightarrow> Inr RS_INCOMPLETE)
     else if status = u ''cancelled'' then Inr RS_CANCELLED
     else Inl (protocol_error ''unknown response status''))"

definition qwen_response_done :: "ustr \<Rightarrow> dict \<Rightarrow> decoded_event res" where
  \<comment> \<open>\<^verbatim>\<open>_response_done\<close>\<close>
  "qwen_response_done eid v =
    andthen (require_object (dget v (u ''response'')) (u ''response'')) (\<lambda>response.
    andthen (id_field response ''id'' ''response.id'') (\<lambda>r.
    andthen (require_string (dget response (u ''status'')) (u ''response.status'')) (\<lambda>provider_status.
    andthen (qwen_status response provider_status) (\<lambda>status.
    andthen (parse_terminal_usage response ''input_tokens_details'' ''output_tokens_details'') (\<lambda>usage.
      if status \<notin> {RS_FAILED, RS_CANCELLED} \<and> usage = None
      then Inl (protocol_error ''terminal usage is required'')
      else Inr ((decoded eid)\<lparr>de_events := ResponseFinished r status usage False #
        (if status = RS_FAILED then [SessionFailed (failed_event E_PROTOCOL_ERROR False)] else [])\<rparr>))))))"

definition qwen_map_error :: "dict \<Rightarrow> (error_code \<times> bool) res" where
  \<comment> \<open>\<^verbatim>\<open>_map_error\<close>\<close>
  "qwen_map_error e =
    (let code = dget e (u ''code'') in
    andthen (in_texts code [''InvalidApiKey'', ''invalid_api_key'']) (\<lambda>b.
    if b then Inr (E_UNAUTHENTICATED, False) else
    andthen (in_texts code [''AccessDenied'', ''access_denied'', ''Endpoint.AccessDenied'',
               ''AllocationQuota.FreeTierOnly'', ''Arrearage'', ''CommodityNotPurchased'',
               ''PrepaidBillOverdue'', ''PostpaidBillOverdue'']) (\<lambda>b.
    if b then Inr (E_FORBIDDEN, False) else
    andthen (in_texts code [''Throttling'', ''Throttling.RateQuota'', ''LimitRequests'', ''limit_requests'',
               ''ResourceExhausted'', ''Throttling.BurstRate'', ''limit_burst_rate'',
               ''Throttling.AllocationQuota'', ''insufficient_quota'', ''Throttling.Concurrency'']) (\<lambda>b.
    if b then Inr (E_RATE_LIMITED, True)
    else if py_eq code (vs ''ModelServingError'') then Inr (E_UNAVAILABLE, True)
    else if py_eq (dget e (u ''type'')) (vs ''invalid_request_error'') then
      andthen (in_texts code [''invalid_value'', ''missing_required_parameter'', ''invalid_event'',
                 ''audio_format_invalid'']) (\<lambda>b.
        Inr (if b then E_INVALID_REQUEST else E_PROTOCOL_ERROR, False))
    else Inr (E_PROTOCOL_ERROR, False)))))"

definition rejected_context :: "dict \<Rightarrow> error_code \<Rightarrow> qwen \<Rightarrow> ustr option res" where
  \<comment> \<open>the request an error rejects: the one it names, or the only one that is pending\<close>
  "rejected_context e code q =
    (case optional_identifier (dget e (u ''event_id'')) of
       Some i \<Rightarrow> Inr (Some i)
     | None \<Rightarrow>
         (case qw_context q of
            [(k, _)] \<Rightarrow>
              if code = E_INVALID_REQUEST then Inr (Some k)
              else andthen (in_texts (dget e (u ''code'')) [''InvalidParameter'', ''unsupported'', ''unsupported_event''])
                     (\<lambda>b. Inr (if b then Some k else None))
          | _ \<Rightarrow> Inr None))"

definition failed_with :: "ustr \<Rightarrow> error_code \<Rightarrow> bool \<Rightarrow> decoded_event" where
  "failed_with eid code retryable = one_event eid (SessionFailed (failed_event code retryable))"

definition reject_context :: "ustr \<Rightarrow> error_code \<Rightarrow> bool \<Rightarrow> ustr option \<Rightarrow> qwen \<Rightarrow> decoded_event \<times> qwen" where
  "reject_context eid code retryable rejected q =
    (case rejected of
       Some k \<Rightarrow>
         (if has_key (qw_context q) k then
            ((failed_with eid E_UNSUPPORTED False)\<lparr>de_rejected_event_id := Some k\<rparr>,
             (see_item k q)\<lparr>qw_context := pop_context k (qw_context q),
               qw_instruction := (case qw_instruction q of
                                    Some (i, text) \<Rightarrow> if i = k then None else Some (i, text)
                                  | None \<Rightarrow> None)\<rparr>)
          else (failed_with eid code retryable, q))
     | None \<Rightarrow> (failed_with eid code retryable, q))"

definition qwen_error :: "ustr \<Rightarrow> dict \<Rightarrow> qwen \<Rightarrow> decoded_event res \<times> qwen" where
  "qwen_error eid v q =
    seq_st (andthen (require_object (dget v (u ''error'')) (u ''error'')) (\<lambda>e.
            andthen (qwen_map_error e) (\<lambda>(code, retryable).
            andthen (rejected_context e code q) (\<lambda>rejected. Inr (code, retryable, rejected)))), q)
      (\<lambda>(code, retryable, rejected) q.
        case reject_context eid code retryable rejected q of (d, q1) \<Rightarrow> (Inr d, q1))"

definition session_updated :: "json_env \<Rightarrow> ustr \<Rightarrow> dict \<Rightarrow> qwen \<Rightarrow> decoded_event res \<times> qwen" where
  "session_updated env eid v q =
    (case qw_instruction q of
       Some (request, expected) \<Rightarrow>
         seq_st (andthen (require_object (dget v (u ''session'')) (u ''session'')) (\<lambda>session.
                   case dget session (u ''instructions'') of
                     VStr s \<Rightarrow> check (strip s = strip expected) (protocol_error ''context instructions mismatch'')
                   | _ \<Rightarrow> Inl (protocol_error ''context instructions mismatch'')), q)
           (\<lambda>_ q1. (Inr ((decoded eid)\<lparr>de_session_acknowledged := True, de_context_request_id := Some request\<rparr>),
              see_event eid (q1\<lparr>qw_instruction := None, qw_context := pop_context request (qw_context q1)\<rparr>)))
     | None \<Rightarrow>
         seq_st (qwen_session_ack env (qw_tools q) v, q)
           (\<lambda>normalized q1. (Inr ((decoded eid)\<lparr>de_provider_ready := True, de_session_acknowledged := True,
                de_tools_acknowledged := truthy (qw_tools q1), de_tool_catalog_normalized := normalized\<rparr>),
              see_event eid q1)))"

definition item_created :: "ustr \<Rightarrow> dict \<Rightarrow> qwen \<Rightarrow> decoded_event res \<times> qwen" where
  \<comment> \<open>\<^verbatim>\<open>conversation.item.created\<close>\<close>
  "item_created eid v q =
    seq_st (require_object (dget v (u ''item'')) (u ''item''), q) (\<lambda>item q.
      if py_eq (dget item (u ''type'')) (vs ''message'')
         \<or> (case optional_identifier (dget item (u ''id'')) of Some i \<Rightarrow> has_key (qw_context q) i | None \<Rightarrow> False)
      then context_message_created eid item q
      else seq_st (decode_tool_ack eid item, q) (\<lambda>d q1. (Inr d, see_event eid q1)))"

definition user_turn :: "ustr \<Rightarrow> bool \<Rightarrow> dict \<Rightarrow> qwen \<Rightarrow> ustr res \<times> qwen" where
  \<comment> \<open>the item of the user an input event is about, registered\<close>
  "user_turn source confirmed v q =
    seq_st (id_field v ''item_id'' ''item_id'', q)
      (\<lambda>i q. seq_st (qw_register i Role_user source confirmed [] q) (\<lambda>_ q1. (Inr i, q1)))"

definition optional_text :: "ustr \<Rightarrow> string \<Rightarrow> (ustr \<Rightarrow> rt_event) \<Rightarrow> dict \<Rightarrow> decoded_event res" where
  \<comment> \<open>an empty text is no event\<close>
  "optional_text eid key ev v =
    (if py_eq (dget v (u key)) (VStr []) then Inr (decoded eid)
     else andthen (require_string (dget v (u key)) (u key)) (\<lambda>text. Inr (one_event eid (ev text))))"

definition qwen_input :: "ustr \<Rightarrow> ustr \<Rightarrow> dict \<Rightarrow> qwen \<Rightarrow> decoded_event res \<times> qwen" where
  \<comment> \<open>the events about the user's input\<close>
  "qwen_input eid t v q =
    (if t = u ''input_audio_buffer.committed'' then
       seq_st (user_turn (u ''committed'') True v q) (\<lambda>i q. (Inr (decoded eid), q))
     else if t = u ''input_audio_buffer.speech_started'' then
       seq_st (user_turn (u ''speech_started'') False v q) (\<lambda>i q. (Inr (one_event eid (SpeechStarted i)), q))
     else if t = u ''input_audio_buffer.speech_stopped'' then
       (andthen (id_field v ''item_id'' ''item_id'') (\<lambda>i. Inr (one_event eid (SpeechStopped i))), q)
     else if t = u ''conversation.item.input_audio_transcription.delta'' then
       (andthen (id_field v ''item_id'' ''item_id'') (\<lambda>i. optional_text eid ''text'' (TranscriptDelta i) v), q)
     else if t = u ''conversation.item.input_audio_transcription.completed'' then
       seq_st (user_turn (u ''transcript'') True v q)
         (\<lambda>i q. (optional_text eid ''transcript'' (TranscriptCompleted i) v, q))
     else (Inr (failed_with eid E_UNAVAILABLE True), q))"

definition qwen_output :: "ustr \<Rightarrow> ustr \<Rightarrow> dict \<Rightarrow> decoded_event res" where
  \<comment> \<open>the events about a response, with their scope checked\<close>
  "qwen_output eid t v =
    (if t = u ''response.created'' then decode_created eid None v
     else if t \<in> set (map u [''response.output_item.added'', ''response.output_item.done'']) then decode_item eid t v
     else if t \<in> set (map u [''response.content_part.added'', ''response.content_part.done'']) then decode_part eid t v
     else if t \<in> set (map u [''response.text.delta'', ''response.text.done'']) then decode_text eid t ''text'' v
     else if t = u ''response.audio.delta'' then decode_audio eid v
     else if t = u ''response.audio.done'' then decode_audio_done eid v
     else if t \<in> set (map u [''response.audio_transcript.delta'', ''response.audio_transcript.done''])
     then decode_text eid t ''transcript'' v
     else if t = u ''response.function_call_arguments.done'' then decode_call eid v
     else if t = u ''response.done'' then qwen_response_done eid v
     else Inr (decoded eid))"

definition qwen_dispatch :: "json_env \<Rightarrow> ustr \<Rightarrow> ustr \<Rightarrow> dict \<Rightarrow> qwen \<Rightarrow> decoded_event res \<times> qwen" where
  "qwen_dispatch env eid t v q =
    (if t = u ''session.updated'' then session_updated env eid v q
     else if t \<in> set (map u [''input_audio_buffer.committed'', ''input_audio_buffer.speech_started'',
          ''input_audio_buffer.speech_stopped'', ''conversation.item.input_audio_transcription.delta'',
          ''conversation.item.input_audio_transcription.completed'',
          ''conversation.item.input_audio_transcription.failed'']) then qwen_input eid t v q
     else if t = u ''conversation.item.created'' then item_created eid v q
     else if t = u ''error'' then qwen_error eid v q
     else (qwen_output eid t v, q))"

definition unscoped :: "ustr \<Rightarrow> dict \<Rightarrow> bool" where
  \<comment> \<open>an event of a response that names no response\<close>
  "unscoped t v \<longleftrightarrow> starts_with t (u ''response.'')
     \<and> t \<notin> set (map u [''response.created'', ''response.done''])
     \<and> optional_identifier (dget v (u ''response_id'')) = None"

definition qwen_decode_value :: "json_env \<Rightarrow> ustr \<Rightarrow> ustr \<Rightarrow> dict \<Rightarrow> qwen \<Rightarrow> decoded_event res \<times> qwen" where
  "qwen_decode_value env eid t v q =
    (if eid \<in> qw_seen_events q
     then (Inr ((decoded eid)\<lparr>de_session_acknowledged := (t = u ''session.updated'')\<rparr>), q)
     else
       seq_st (pre_register eid t v q)
         (\<lambda>early q1.
           case early of
             Some d \<Rightarrow> (Inr d, q1)
           | None \<Rightarrow> if unscoped t v then (user_side_event eid t v q1, q1) else qwen_dispatch env eid t v q1))"

definition qwen_decode :: "json_env \<Rightarrow> ustr \<Rightarrow> qwen \<Rightarrow> decoded_event res \<times> qwen" where
  \<comment> \<open>\<^verbatim>\<open>decode_server_event\<close>\<close>
  "qwen_decode env payload q =
    seq_st (andthen (qwen_value env payload) (\<lambda>v.
            andthen (require_string (dget v (u ''type'')) (u ''type'')) (\<lambda>t.
            andthen (id_field v ''event_id'' ''event_id'') (\<lambda>eid. Inr (v, t, eid)))), q)
      (\<lambda>(v, t, eid) q. qwen_decode_value env eid t v q)"

end
