(* ===== verification/Qwen_Properties.thy ===== *)
theory Qwen_Properties
  imports Qwen
begin

text \<open>
  The properties of the Qwen adapter. An operation is a function from a state to a result and a state;
  \<open>post\<close> says what holds of both, and a decoded frame is traced through the operations by the rule for
  their composition.
\<close>

section \<open>Outcomes\<close>

definition post :: "('a res \<Rightarrow> qwen \<Rightarrow> bool) \<Rightarrow> 'a res \<times> qwen \<Rightarrow> bool" where
  "post Q m \<longleftrightarrow> Q (fst m) (snd m)"

lemma post_pair [simp]: "post Q (r, q) \<longleftrightarrow> Q r q"
  by (simp add: post_def)

lemma post_seq:
  assumes "post R m" and "\<And>e q. R (Inl e) q \<Longrightarrow> Q (Inl e) q" and "\<And>a q. R (Inr a) q \<Longrightarrow> post Q (f a q)"
  shows "post Q (seq_st m f)"
proof -
  obtain r q where m: "m = (r, q)"
    by (cases m)
  show ?thesis
    using assms unfolding m by (cases r) auto
qed

lemma post_pure: "(\<And>e. r = Inl e \<Longrightarrow> Q (Inl e) q) \<Longrightarrow> (\<And>a. r = Inr a \<Longrightarrow> post Q (f a q)) \<Longrightarrow> post Q (seq_st (r, q) f)"
  by (cases r) auto

definition table_le :: "id_table \<Rightarrow> id_table \<Rightarrow> bool" where
  "table_le t t' \<longleftrightarrow> (\<forall>k p. lookup_item t k = Some p \<longrightarrow> (\<exists>p'. lookup_item t' k = Some p' \<and> item_le p p'))"

lemma table_le_refl: "table_le t t"
  by (auto simp: table_le_def intro: item_le_refl)

lemma table_le_trans: "table_le t t' \<Longrightarrow> table_le t' t'' \<Longrightarrow> table_le t t''"
  unfolding table_le_def by (meson item_le_trans)

definition grows :: "qwen \<Rightarrow> qwen \<Rightarrow> bool" where
  \<comment> \<open>what is known stays known\<close>
  "grows q q' \<longleftrightarrow> qw_tools q' = qw_tools q \<and> qw_bound q' = qw_bound q
     \<and> qw_seen_items q \<subseteq> qw_seen_items q' \<and> qw_seen_events q \<subseteq> qw_seen_events q'
     \<and> (table_wf (qw_table q) \<longrightarrow> table_wf (qw_table q') \<and> table_le (qw_table q) (qw_table q'))"

definition framed_context :: "qwen \<Rightarrow> qwen \<Rightarrow> bool" where
  "framed_context q q' \<longleftrightarrow> qw_context q' = qw_context q \<and> qw_instruction q' = qw_instruction q"

definition popped :: "ustr \<Rightarrow> qwen \<Rightarrow> qwen \<Rightarrow> bool" where
  \<comment> \<open>a pending request is no longer pending\<close>
  "popped k q q' \<longleftrightarrow> has_key (qw_context q) k \<and> qw_context q' = pop_context k (qw_context q)
     \<and> (qw_instruction q' = None \<or> qw_instruction q' = qw_instruction q)
     \<and> (\<forall>i text. qw_instruction q' = Some (i, text) \<longrightarrow> i \<noteq> k \<or> map_of (qw_context q) k \<noteq> Some None)"

lemma grows_refl: "grows q q"
  by (simp add: grows_def table_le_refl)

lemma grows_trans: "grows q q' \<Longrightarrow> grows q' q'' \<Longrightarrow> grows q q''"
  unfolding grows_def by (auto intro: table_le_trans)

lemma framed_refl: "framed_context q q"
  by (simp add: framed_context_def)

lemma framed_trans: "framed_context q q' \<Longrightarrow> framed_context q' q'' \<Longrightarrow> framed_context q q''"
  by (simp add: framed_context_def)

lemma popped_framed: "popped k q q' \<Longrightarrow> framed_context q' q'' \<Longrightarrow> popped k q q''"
  by (simp add: framed_context_def popped_def)

lemma framed_popped: "framed_context q q' \<Longrightarrow> popped k q' q'' \<Longrightarrow> popped k q q''"
  by (simp add: framed_context_def popped_def)

definition settled_by :: "ustr \<Rightarrow> decoded_event \<Rightarrow> bool" where
  "settled_by k d \<longleftrightarrow>
     (de_context_request_id d = Some k \<and> de_rejected_event_id d = None)
     \<or> (de_rejected_event_id d = Some k \<and> de_context_request_id d = None \<and> de_context_ack_id d = None)"

definition outcome :: "qwen \<Rightarrow> decoded_event res \<Rightarrow> qwen \<Rightarrow> bool" where
  \<comment> \<open>a frame settles no request, or exactly one, and says which\<close>
  "outcome q r q' \<longleftrightarrow> grows q q' \<and>
     (framed_context q q' \<and> (\<forall>d. r = Inr d \<longrightarrow> no_context d)
      \<or> (\<exists>k. popped k q q' \<and> (\<forall>d. r = Inr d \<longrightarrow> settled_by k d)))"

lemma outcome_refl: "(\<And>d. r = Inr d \<Longrightarrow> no_context d) \<Longrightarrow> outcome q r q"
  by (simp add: outcome_def grows_refl framed_refl)

lemma outcome_simps [simp]: "outcome q (Inl e) q" "no_context d \<Longrightarrow> outcome q (Inr d) q"
  by (auto intro: outcome_refl)

lemma outcome_framed:
  "grows q q' \<Longrightarrow> framed_context q q' \<Longrightarrow> (\<And>d. r = Inr d \<Longrightarrow> no_context d) \<Longrightarrow> outcome q r q'"
  by (simp add: outcome_def)

lemma outcome_popped:
  "grows q q' \<Longrightarrow> popped k q q' \<Longrightarrow> (\<And>d. r = Inr d \<Longrightarrow> settled_by k d) \<Longrightarrow> outcome q r q'"
  unfolding outcome_def by blast

lemma outcome_after:
  "grows q q' \<Longrightarrow> framed_context q q' \<Longrightarrow> outcome q' r q'' \<Longrightarrow> outcome q r q''"
  unfolding outcome_def by (blast intro: grows_trans framed_trans framed_popped)

definition kept_by :: "qwen \<Rightarrow> 'a res \<Rightarrow> qwen \<Rightarrow> bool" where
  "kept_by q r q' \<longleftrightarrow> grows q q' \<and> framed_context q q'"

lemma register_kept: "post (kept_by q) (qw_register i r source confirmed aliases q)"
proof (cases "register (qw_table q) i r source confirmed aliases None")
  case (Inl e)
  then show ?thesis
    by (simp add: qw_register_def kept_by_def grows_refl framed_refl)
next
  case (Inr p)
  obtain it t where t: "register (qw_table q) i r source confirmed aliases None = Inr (it, t)"
    using Inr by (cases p) simp
  have "table_le (qw_table q) t" if "table_wf (qw_table q)"
    using register_item_le [OF that t] unfolding table_le_def by blast
  then show ?thesis
    using register_keeps_wf [OF _ t]
    by (simp add: qw_register_def t kept_by_def grows_def framed_context_def)
qed

lemma see_kept [simp]: "kept_by q r q' \<Longrightarrow> kept_by q r' (see_event eid q')"
  "kept_by q r q' \<Longrightarrow> kept_by q r' (see_item i q')"
  by (auto simp: kept_by_def grows_def framed_context_def see_event_def see_item_def)

lemma kept_outcome: "kept_by q r q' \<Longrightarrow> (\<And>d. r' = Inr d \<Longrightarrow> no_context d) \<Longrightarrow> outcome q r' q'"
  by (simp add: kept_by_def outcome_framed)

lemma no_context_simps [simp]:
  "no_context (d\<lparr>de_events := es\<rparr>) = no_context d"
  "no_context (d\<lparr>de_session_acknowledged := b\<rparr>) = no_context d"
  "no_context (d\<lparr>de_provider_ready := b\<rparr>) = no_context d"
  "no_context (d\<lparr>de_tools_acknowledged := b\<rparr>) = no_context d"
  "no_context (d\<lparr>de_tool_catalog_normalized := b\<rparr>) = no_context d"
  "no_context (d\<lparr>de_item_role_metadata_mismatch := m\<rparr>) = no_context d"
  "no_context (d\<lparr>de_user_side_transcript_ignored := b\<rparr>) = no_context d"
  "no_context (d\<lparr>de_user_side_response_event_ignored := c\<rparr>) = no_context d"
  by (simp_all add: no_context_def)

lemma no_context_one [simp]: "no_context (one_event eid e)" "no_context (failed_with eid c b)"
  by (simp_all add: one_event_def failed_with_def)

section \<open>The operations\<close>

lemma seq_kept:
  assumes "post (kept_by q) m" and "\<And>a q'. kept_by q (Inr a) q' \<Longrightarrow> post (outcome q) (f a q')"
  shows "post (outcome q) (seq_st m f)"
  by (rule post_seq [OF assms(1)]) (auto intro: kept_outcome assms(2))

lemma user_turn_kept: "post (kept_by q) (user_turn source confirmed v q)"
  unfolding user_turn_def
  by (rule post_pure) (auto simp: kept_by_def grows_refl framed_refl
      intro: post_seq [OF register_kept])

lemma pure_outcome: "(\<And>d. r = Inr d \<Longrightarrow> no_context d) \<Longrightarrow> post (outcome q) (r, q)"
  by (simp add: outcome_refl)

lemma optional_text_none: "optional_text eid key ev v = Inr d \<Longrightarrow> no_context d"
  by (auto simp: optional_text_def result_simps split: if_splits)

lemma input_outcome: "post (outcome q) (qwen_input eid t v q)"
proof -
  have pure: "post (outcome q) (andthen (id_field v ''item_id'' ''item_id'') f, q)"
    if "\<And>i d. f i = Inr d \<Longrightarrow> no_context d" for f
    by (rule pure_outcome) (auto simp: result_simps that)
  have turn: "post (outcome q) (seq_st (user_turn source confirmed v q) (\<lambda>i q. (f i, q)))"
    if "\<And>i d. f i = Inr d \<Longrightarrow> no_context d" for source confirmed f
    by (rule seq_kept [OF user_turn_kept]) (auto intro: kept_outcome that)
  show ?thesis
    unfolding qwen_input_def
    by (simp only: split: if_split) (intro conjI impI pure turn pure_outcome; auto dest: optional_text_none)
qed

lemma response_done_none: "qwen_response_done eid v = Inr d \<Longrightarrow> no_context d"
  by (auto simp: qwen_response_done_def result_simps split: if_splits)

lemma output_none: "qwen_output eid t v = Inr d \<Longrightarrow> no_context d"
  unfolding qwen_output_def by (auto dest: decode_none response_done_none split: if_splits)

lemma user_side_none:
  assumes "user_side_event eid t v q = Inr d"
  shows "no_context d"
proof -
  obtain i where i: "user_side_item t v = Inr (Some i)"
    using assms by (auto simp: user_side_event_def result_simps split: option.splits)
  show ?thesis
    using assms by (auto simp: user_side_event_def i result_simps Let_def split: if_splits)
qed

lemma reject_outcome:
  assumes "reject_context eid code b rejected q = (d, q')"
  shows "outcome q (Inr d) q'"
proof (cases "\<exists>k. rejected = Some k \<and> has_key (qw_context q) k")
  case True
  then obtain k where k: "rejected = Some k" "has_key (qw_context q) k"
    by blast
  have "popped k q q'" "grows q q'" "settled_by k d"
    using assms
    by (auto simp: reject_context_def k popped_def grows_def table_le_refl see_item_def settled_by_def
        failed_with_def one_event_def split: option.splits if_splits)
  then show ?thesis
    by (intro outcome_popped) simp_all
next
  case False
  then have "d = failed_with eid code b \<and> q' = q"
    using assms by (auto simp: reject_context_def split: option.splits)
  then show ?thesis
    by (simp add: outcome_refl)
qed

lemma error_outcome: "post (outcome q) (qwen_error eid v q)"
  unfolding qwen_error_def
  by (rule post_pure) (auto simp: outcome_refl post_def reject_outcome split: prod.splits)

lemma kept_refl [simp]: "kept_by q r q"
  by (simp add: kept_by_def grows_refl framed_refl)

lemma kept_none: "kept_by q r q' \<Longrightarrow> no_context d \<Longrightarrow> outcome q (Inr d) q'"
  by (rule kept_outcome) auto

definition instruction_ok :: "qwen \<Rightarrow> bool" where
  \<comment> \<open>a pending instruction update is a pending request, and not a message\<close>
  "instruction_ok q \<longleftrightarrow>
     (\<forall>i tx. qw_instruction q = Some (i, tx) \<longrightarrow> map_of (qw_context q) i = Some None)"

lemma session_updated_outcome:
  assumes "instruction_ok q"
  shows "post (outcome q) (session_updated env eid v q)"
proof (cases "qw_instruction q")
  case None
  show ?thesis
    unfolding session_updated_def None option.case
    by (rule post_pure) (auto intro: kept_none see_kept(1) [OF kept_refl])
next
  case (Some p)
  obtain k tx where p: "p = (k, tx)"
    by (cases p)
  have "has_key (qw_context q) k"
    using assms Some p by (simp add: instruction_ok_def has_key_iff)
  then have "outcome q (Inr ((decoded eid)\<lparr>de_session_acknowledged := True, de_context_request_id := Some k\<rparr>))
      (see_event eid (q\<lparr>qw_instruction := None, qw_context := pop_context k (qw_context q)\<rparr>))"
    by (intro outcome_popped [where k = k])
       (auto simp: grows_def see_event_def table_le_refl popped_def settled_by_def)
  then show ?thesis
    unfolding session_updated_def Some p option.case prod.case
    by (intro post_pure) auto
qed

lemma pending_in_context:
  "pending_context q = Some (k, e) \<Longrightarrow> (k, Some e) \<in> set (qw_context q)"
  by (auto simp: pending_context_def find_Some_iff split: option.splits)

lemma input_item_outcome: "post (outcome q) (input_item eid i has_audio item q)"
  unfolding input_item_def Let_def
  by (simp only: split: if_split) (auto intro!: seq_kept register_kept kept_none see_kept)

definition context_ok :: "qwen \<Rightarrow> bool" where
  "context_ok q \<longleftrightarrow> distinct (map fst (qw_context q)) \<and> instruction_ok q"

lemma acknowledge_outcome:
  assumes k: "has_key (qw_context q) k" "map_of (qw_context q) k \<noteq> Some None"
  shows "post (outcome q) (acknowledge eid i k e q)"
proof -
  let ?q = "see_event eid (see_item i (see_item k (q\<lparr>qw_context := pop_context k (qw_context q)\<rparr>)))"
  have popped: "popped k q ?q" "grows q ?q"
    using k by (simp_all add: popped_def see_event_def see_item_def grows_def table_le_refl subset_insertI2)
  have final: "outcome q r q'" if "kept_by ?q x q'" "\<And>d. r = Inr d \<Longrightarrow> settled_by k d"
    for r :: "decoded_event res" and q' and x :: "unit res"
    using that popped unfolding kept_by_def
    by (intro outcome_popped [where k = k]) (blast intro: grows_trans popped_framed)+
  obtain x q2 where reg: "qw_register i (if dget e (u ''role'') = vs ''user'' then Role_user else Role_system)
      (u ''context_ack'') True [k] ?q = (x, q2)"
    by (cases "qw_register i (if dget e (u ''role'') = vs ''user'' then Role_user else Role_system)
      (u ''context_ack'') True [k] ?q")
  have "kept_by ?q x q2"
    using register_kept [of ?q i _ _ True "[k]"] reg by (metis post_pair)
  then show ?thesis
    unfolding acknowledge_def Let_def reg
    by (auto simp: settled_by_def intro: final final [OF kept_refl] split: sum.splits)
qed

lemma settle_outcome:
  assumes "context_ok q" "pending_context q = Some (k, e)"
  shows "post (outcome q) (settle_context eid i item k e q)"
proof -
  have "map_of (qw_context q) k = Some (Some e)"
    using pending_in_context [OF assms(2)] assms(1) by (simp add: context_ok_def)
  then have "post (outcome q) (acknowledge eid i k e q)"
    by (intro acknowledge_outcome) (simp_all add: has_key_iff)
  then have "post (outcome q) (seq_st (same_text item e, q) (\<lambda>_ q1. acknowledge eid i k e q1))"
    by (intro post_pure) simp_all
  then show ?thesis
    by (simp add: settle_context_def)
qed

lemma message_outcome:
  assumes ok: "context_ok q"
  shows "post (outcome q) (context_message_created eid item q)"
proof -
  have seen: "post (outcome q) (seq_st (if c then qw_register i Role_user source True [] q else (Inr (), q))
      (\<lambda>_ q1. (Inr (decoded eid), see_event eid (see_item i q1))))" for c i source
    by (rule seq_kept) (auto intro: register_kept kept_none see_kept)
  have "post (outcome q) (if a then input_item eid i b item q
      else if i \<in> qw_seen_items q then (Inr (decoded eid), see_event eid q)
      else (case pending_context q of
          Some (request, expected) \<Rightarrow>
            if c then seq_st (if c1 then qw_register i Role_user (u ''input_audio_item'') True [] q else (Inr (), q))
                    (\<lambda>_ q1. (Inr (decoded eid), see_event eid (see_item i q1)))
            else settle_context eid i item request expected q
        | None \<Rightarrow>
            if c2 then (Inl e, q)
            else seq_st (if c3 then qw_register i Role_user (u ''input_audio_item'') True [] q else (Inr (), q))
                    (\<lambda>_ q1. (Inr (decoded eid), see_event eid (see_item i q1)))))"
    for a b c c1 c2 c3 i e
    using seen [where c = True] seen [where c = False] input_item_outcome settle_outcome [OF ok]
    by (auto intro: kept_none see_kept(1) [OF kept_refl] split: option.splits)
  then show ?thesis
    unfolding context_message_created_def Let_def
    by (intro post_pure) simp_all
qed

lemma item_created_outcome: "context_ok q \<Longrightarrow> post (outcome q) (item_created eid v q)"
proof -
  assume ok: "context_ok q"
  have "post (outcome q) (seq_st (decode_tool_ack eid item, q) (\<lambda>d q1. (Inr d, see_event eid q1)))" for item
    by (rule post_pure) (auto intro: kept_none see_kept(1) [OF kept_refl] dest: decode_none)
  then show ?thesis
    unfolding item_created_def using message_outcome [OF ok]
    by (intro post_pure) (simp_all split: if_split)
qed

definition early :: "ustr \<Rightarrow> qwen \<Rightarrow> decoded_event option res \<Rightarrow> qwen \<Rightarrow> bool" where
  "early eid q r q' \<longleftrightarrow> kept_by q r q' \<and> (\<forall>d. r = Inr (Some d) \<longrightarrow> d = decoded eid)"

lemma nested_item_early: "post (early eid q) (nested_item eid t scoped nested i q)"
proof -
  have reg: "post (early eid q) (seq_st (qw_register i ro s b al q) (\<lambda>_ q1. (Inr x, q1)))"
    if "x = None \<or> x = Some (decoded eid)" for ro s b al x
    by (rule post_seq [OF register_kept]) (use that in \<open>auto simp: early_def kept_by_def\<close>)
  show ?thesis
    unfolding nested_item_def Let_def
    by (simp only: split: if_split) (intro conjI impI reg; simp add: early_def)
qed

lemma pre_register_early: "post (early eid q) (pre_register eid t v q)"
proof -
  have none: "post (early eid q) (Inr None, q)"
    by (simp add: early_def)
  show ?thesis
    unfolding pre_register_def using none nested_item_early
    by (auto split: pyval.split option.split)
qed

lemma dispatch_outcome:
  assumes "context_ok q"
  shows "post (outcome q) (qwen_dispatch env eid t v q)"
  unfolding qwen_dispatch_def
  using assms session_updated_outcome input_outcome item_created_outcome error_outcome
    pure_outcome [where q = q, OF output_none]
  by (auto simp: context_ok_def)

lemma decode_value_outcome:
  assumes ok: "context_ok q"
  shows "post (outcome q) (qwen_decode_value env eid t v q)"
proof (cases "eid \<in> qw_seen_events q")
  case True
  then show ?thesis
    by (simp add: qwen_decode_value_def)
next
  case False
  have rest: "post (outcome q) (if unscoped t v then (user_side_event eid t v q1, q1) else qwen_dispatch env eid t v q1)"
    if q1: "kept_by q (Inr None) q1" for q1
  proof -
    have "context_ok q1"
      using ok q1 by (simp add: context_ok_def instruction_ok_def kept_by_def framed_context_def)
    then have "post (outcome q1) (if unscoped t v then (user_side_event eid t v q1, q1) else qwen_dispatch env eid t v q1)"
      using dispatch_outcome pure_outcome [where q = q1, OF user_side_none] by auto
    then show ?thesis
      using q1 unfolding kept_by_def post_def by (blast intro: outcome_after)
  qed
  have stop: "outcome q (Inr (decoded eid)) q1" if "kept_by q (Inr (Some (decoded eid))) q1" for q1
    using that by (rule kept_none) simp
  have fails: "outcome q (Inl e) q1" if "kept_by q (Inl e :: decoded_event option res) q1" for e q1
    using that by (rule kept_outcome) simp
  have "post (outcome q) (seq_st (pre_register eid t v q)
      (\<lambda>early q1. case early of
          Some d \<Rightarrow> (Inr d, q1)
        | None \<Rightarrow> if unscoped t v then (user_side_event eid t v q1, q1) else qwen_dispatch env eid t v q1))"
  proof (rule post_seq [OF pre_register_early])
    fix e q1
    assume "early eid q (Inl e) q1"
    then show "outcome q (Inl e) q1"
      by (simp add: early_def fails)
  next
    fix a q1
    assume "early eid q (Inr a) q1"
    then show "post (outcome q) (case a of Some d \<Rightarrow> (Inr d, q1)
        | None \<Rightarrow> if unscoped t v then (user_side_event eid t v q1, q1) else qwen_dispatch env eid t v q1)"
    proof (cases a)
      case None
      then show ?thesis
        using rest [of q1] \<open>early eid q (Inr a) q1\<close> unfolding None early_def option.case by blast
    next
      case (Some d)
      then show ?thesis
        using stop [of q1] \<open>early eid q (Inr a) q1\<close> by (auto simp: early_def)
    qed
  qed
  then show ?thesis
    using False by (simp add: qwen_decode_value_def)
qed

lemma decode_outcome:
  assumes "context_ok q"
  shows "post (outcome q) (qwen_decode env payload q)"
  unfolding qwen_decode_def
  by (rule post_pure) (auto simp: decode_value_outcome [OF assms] split: prod.splits)

section \<open>The adapter as a transition system\<close>

inductive qwen_step :: "qwen \<Rightarrow> qwen \<Rightarrow> bool" where
  step_decode: "qwen_decode env payload q = (r, q') \<Longrightarrow> qwen_step q q'"
| step_append: "\<not> has_key (qw_context q) eid \<Longrightarrow> qwen_append_message eid tx ro q = (ev, q') \<Longrightarrow> qwen_step q q'"
| step_instruct: "\<not> has_key (qw_context q) eid \<Longrightarrow> qwen_update_instructions eid tx q = (ev, q') \<Longrightarrow> qwen_step q q'"

definition qwen_start :: "qwen \<Rightarrow> bool" where
  \<comment> \<open>after \<^verbatim>\<open>session_update\<close>, with the adapter's own table or a bound one\<close>
  "qwen_start q \<longleftrightarrow>
     (\<exists>env eid r t. table_wf t \<and> qwen_session_update env eid r (bind_table t qwen_init) = (Inr (qwen_session_event eid (or_instructions r) (or_tools r)), q))
     \<or> (\<exists>env eid r. qwen_session_update env eid r qwen_init = (Inr (qwen_session_event eid (or_instructions r) (or_tools r)), q))"

definition qwen_inv :: "qwen \<Rightarrow> bool" where
  "qwen_inv q \<longleftrightarrow> context_ok q \<and> table_wf (qw_table q)
     \<and> (\<forall>k e. (k, Some e) \<in> set (qw_context q) \<longrightarrow> (\<exists>ro tx. e = message_item k ro tx))"

lemma table_wf_first: "table_wf first_table"
  by (simp add: first_table_def begin_generation_keeps_wf table_wf_empty)

lemma session_update_state:
  "qwen_session_update env eid r q = (Inr ev, q') \<Longrightarrow>
   q' = q\<lparr>qw_table := (if qw_bound q then qw_table q else first_table), qw_tools := or_tools r\<rparr>"
  by (auto simp: qwen_session_update_def split: sum.split_asm)

lemma start_inv: "qwen_start q \<Longrightarrow> qwen_inv q"
  by (auto simp: qwen_start_def bind_table_def qwen_init_def qwen_inv_def context_ok_def
      instruction_ok_def table_wf_first dest!: session_update_state)

lemma map_of_pop: "map_of (pop_context k ctx) i = (if i = k then None else map_of ctx i)"
  by (induction ctx) (auto simp: pop_context_def)

lemma has_key_pop: "has_key (pop_context k ctx) i \<longleftrightarrow> has_key ctx i \<and> i \<noteq> k"
  by (auto simp: has_key_iff map_of_pop)

lemma popped_ok:
  assumes "popped k q q'" "context_ok q"
  shows "context_ok q'"
proof -
  have "distinct (map fst (qw_context q'))"
    using assms by (simp add: popped_def context_ok_def pop_context_def distinct_map_filter)
  moreover have "map_of (qw_context q') i = Some None" if "qw_instruction q' = Some (i, tx)" for i tx
  proof -
    have "qw_instruction q = Some (i, tx)" "i \<noteq> k \<or> map_of (qw_context q) k \<noteq> Some None"
      using assms(1) that by (auto simp: popped_def)
    then show ?thesis
      using assms by (auto simp: popped_def context_ok_def instruction_ok_def map_of_pop)
  qed
  ultimately show ?thesis
    by (simp add: context_ok_def instruction_ok_def)
qed

lemma outcome_inv:
  assumes "outcome q r q'" "qwen_inv q"
  shows "qwen_inv q' \<and> grows q q'"
proof -
  have ok: "context_ok q"
    using assms(2) by (simp add: qwen_inv_def)
  consider "framed_context q q'" | k where "popped k q q'"
    using assms(1) by (auto simp: outcome_def)
  then have "context_ok q' \<and> (\<forall>ke\<in>set (qw_context q'). ke \<in> set (qw_context q))"
  proof cases
    case 1
    then show ?thesis
      using ok by (simp add: framed_context_def context_ok_def instruction_ok_def)
  next
    case 2
    then show ?thesis
      using popped_ok [OF 2 ok] by (auto simp: popped_def pop_context_def)
  qed
  then show ?thesis
    using assms by (auto simp: outcome_def qwen_inv_def grows_def)
qed

lemma update_new: "\<not> has_key al k \<Longrightarrow> AList.update k v al = al @ [(k, v)]"
  by (induction al) (auto simp: has_key_def)

lemma step_inv:
  assumes "qwen_step q q'" "qwen_inv q"
  shows "qwen_inv q' \<and> grows q q'"
  using assms
proof cases
  case (step_decode env payload r)
  have "outcome q r q'"
    using decode_outcome [of q env payload] assms(2) step_decode by (simp add: qwen_inv_def)
  then show ?thesis
    using assms(2) by (rule outcome_inv)
next
  case (step_append eid tx ro ev)
  then have "q' = q\<lparr>qw_context := qw_context q @ [(eid, Some (message_item eid ro tx))]\<rparr>"
    by (simp add: qwen_append_message_def update_new)
  then show ?thesis
    using assms(2) step_append(1)
    by (auto simp: qwen_inv_def context_ok_def instruction_ok_def has_key_def grows_def table_le_refl map_add_def
        split: option.split)
next
  case (step_instruct eid tx ev)
  then have "q' = q\<lparr>qw_instruction := Some (eid, tx), qw_context := qw_context q @ [(eid, None)]\<rparr>"
    by (simp add: qwen_update_instructions_def update_new)
  then show ?thesis
    using assms(2) step_instruct(1)
    by (auto simp: qwen_inv_def context_ok_def instruction_ok_def has_key_def grows_def table_le_refl map_add_def
        split: option.split dest: map_of_SomeD) (force simp: image_iff)
qed

interpretation adapter: monotone_system qwen_start qwen_step qwen_inv grows
  by unfold_locales (auto dest: start_inv step_inv intro: grows_refl grows_trans)

section \<open>Properties\<close>

text \<open>
  C22. A context request is settled at most once: in every reachable state of the adapter, the frame that
  acknowledges or rejects a message or an instruction update names one pending request, which is no
  longer pending afterwards; a frame that settles none leaves the pending requests as they are, and a
  frame never makes a request pending.
\<close>

theorem request_settled_once:
  assumes "reach qwen_start qwen_step q" and "qwen_decode env payload q = (Inr d, q')"
  shows "(\<forall>k. de_context_request_id d = Some k \<or> de_rejected_event_id d = Some k \<longrightarrow>
            has_key (qw_context q) k \<and> \<not> has_key (qw_context q') k)
    \<and> (de_context_request_id d = None \<or> de_rejected_event_id d = None)
    \<and> (de_context_request_id d = None \<and> de_rejected_event_id d = None \<longrightarrow> qw_context q' = qw_context q)
    \<and> (\<forall>k. has_key (qw_context q') k \<longrightarrow> has_key (qw_context q) k)"
proof -
  have "qwen_inv q"
    by (rule adapter.inv_reach [OF assms(1)])
  then have "outcome q (Inr d) q'"
    using decode_outcome [of q env payload] assms(2) by (simp add: qwen_inv_def)
  then consider "framed_context q q'" "no_context d" | k where "popped k q q'" "settled_by k d"
    by (auto simp: outcome_def)
  then show ?thesis
    by cases (auto simp: framed_context_def no_context_def popped_def settled_by_def has_key_pop)
qed

text \<open>
  C23. What the adapter knows of an item stays known: over any run of decoded frames, messages and
  instruction updates, an item keeps its canonical name, its role and its confirmation, whatever roles
  later frames declare for it.
\<close>

theorem adapter_keeps_identities:
  assumes "reach qwen_start qwen_step q" and "qwen_step\<^sup>*\<^sup>* q q'" and "lookup_item (qw_table q) k = Some p"
  shows "\<exists>p'. lookup_item (qw_table q') k = Some p' \<and> ii_role p' = ii_role p
    \<and> ii_canonical p' = ii_canonical p \<and> (ii_confirmed p \<longrightarrow> ii_confirmed p')
    \<and> (is_user_item (qw_table q) k \<longrightarrow> is_user_item (qw_table q') k)"
proof -
  have "grows q q'" "table_wf (qw_table q)"
    using adapter.le_run [OF adapter.inv_reach [OF assms(1)] assms(2)] adapter.inv_reach [OF assms(1)]
    by (simp_all add: qwen_inv_def)
  then obtain p' where "lookup_item (qw_table q') k = Some p'" "item_le p p'"
    using assms(3) unfolding grows_def table_le_def by blast
  then show ?thesis
    using assms(3) by (auto simp: item_le_def is_user_item_def)
qed

lemma response_done_scoped: "qwen_response_done eid v = Inr d \<Longrightarrow> scoped_events v d"
  by (auto simp: qwen_response_done_def result_simps scoped_events_def output_response_def split: if_splits)

lemma output_scoped: "qwen_output eid t v = Inr d \<Longrightarrow> scoped_events v d"
  unfolding qwen_output_def
  by (auto dest: decode_scoped(1-6) decode_scoped(8) response_done_scoped split: if_splits)

lemma user_side_scoped:
  assumes "user_side_event eid t v q = Inr d"
  shows "scoped_events v d"
proof -
  obtain i where i: "user_side_item t v = Inr (Some i)"
    using assms by (auto simp: user_side_event_def result_simps split: option.splits)
  show ?thesis
    using assms
    by (auto simp: user_side_event_def i result_simps Let_def scoped_events_def one_event_def transcript_event_def
        output_response_def split: if_splits)
qed

lemma seq_st_Inr: "seq_st m f = (Inr b, q') \<longleftrightarrow> (\<exists>a q1. m = (Inr a, q1) \<and> f a q1 = (Inr b, q'))"
  by (cases m; cases "fst m") auto

definition quiet :: "decoded_event res \<Rightarrow> qwen \<Rightarrow> bool" where
  \<comment> \<open>no output, no end of the session but a failure\<close>
  "quiet r q \<longleftrightarrow> (\<forall>d. r = Inr d \<longrightarrow> list_all (\<lambda>e. output_response e = None
     \<and> (case e of SessionClosed _ \<Rightarrow> False | _ \<Rightarrow> True)) (de_events d))"

lemma quiet_simps [simp]: "quiet (Inl e) q" "quiet (Inr d) q \<longleftrightarrow> list_all (\<lambda>e. output_response e = None
     \<and> (case e of SessionClosed _ \<Rightarrow> False | _ \<Rightarrow> True)) (de_events d)"
  by (simp_all add: quiet_def)

lemma quiet_scoped: "quiet (Inr d) q \<Longrightarrow> scoped_events v d"
  by (auto simp: scoped_events_def list_all_iff)

lemma post_seq_quiet: "(\<And>a q'. post quiet (f a q')) \<Longrightarrow> post quiet (seq_st m f)"
  by (cases m; cases "fst m") auto

lemma quiet_events [simp]:
  "quiet (Inr (one_event eid (SpeechStarted i))) q" "quiet (Inr (one_event eid (SpeechStopped i))) q"
  "quiet (Inr (failed_with eid c b)) q" "quiet (Inr (decoded eid)) q"
  by (simp_all add: one_event_def failed_with_def output_response_def)

lemma optional_text_quiet:
  "(\<And>s. quiet (Inr (one_event eid (ev s))) q) \<Longrightarrow> quiet (optional_text eid key ev v) q"
  by (cases "require_string (dget v (u key)) (u key)") (auto simp: optional_text_def)

lemma input_quiet: "post quiet (qwen_input eid t v q)"
proof -
  have texts: "quiet (optional_text eid key (TranscriptDelta i) v) q" "quiet (optional_text eid key (TranscriptCompleted i) v) q"
    for key i q
    by (rule optional_text_quiet, simp add: one_event_def output_response_def)+
  have pure: "quiet (andthen r f) q" if "\<And>i. quiet (f i) q" for r :: "ustr res" and f q
    by (cases r) (auto simp: that)
  show ?thesis
    unfolding qwen_input_def
    by (simp only: split: if_split) (intro conjI impI post_seq_quiet; simp add: texts pure del: quiet_simps(2))
qed

lemma created_quiet: "post quiet (item_created eid v q)"
proof -
  have ack: "post quiet (acknowledge eid i k e q)" for i k e q
    by (simp add: acknowledge_def Let_def split: prod.split sum.split)
  have settle: "post quiet (settle_context eid i item k e q)" for i item k e q
    by (simp add: settle_context_def) (intro impI post_seq_quiet ack)
  have input: "post quiet (input_item eid i b item q)" for i b item q
    unfolding input_item_def Let_def
    by (simp only: split: if_split) (intro conjI impI post_seq_quiet; simp)
  have "post quiet (seq_st m (\<lambda>_ q1. (Inr (decoded eid), f q1)))" for m :: "unit res \<times> qwen" and f
    by (rule post_seq_quiet) simp
  then have message: "post quiet (context_message_created eid item q)" for item q
    unfolding context_message_created_def Let_def
    by (intro post_seq_quiet) (auto simp: input settle split: option.split)
  have "quiet (Inr d) q1" if "decode_tool_ack eid item = Inr d" for item d q1
    using that by (auto simp: decode_tool_ack_def result_simps)
  then have "post quiet (seq_st (decode_tool_ack eid item, q) (\<lambda>d q1. (Inr d, see_event eid q1)))" for item q
    by (intro post_pure) simp_all
  then show ?thesis
    unfolding item_created_def using message by (intro post_seq_quiet) (auto split: option.split)
qed

lemma dispatch_scoped: "post (\<lambda>r q. \<forall>d. r = Inr d \<longrightarrow> scoped_events v d) (qwen_dispatch env eid t v q)"
proof -
  have weaken: "post quiet m \<Longrightarrow> post (\<lambda>r q. \<forall>d. r = Inr d \<longrightarrow> scoped_events v d) m" for m
    by (auto simp: post_def quiet_def scoped_events_def list_all_iff)
  have "post quiet (session_updated env eid v q)"
    unfolding session_updated_def by (auto intro!: post_seq_quiet split: option.split prod.split)
  moreover have "post quiet (qwen_error eid v q)"
    unfolding qwen_error_def
    by (rule post_seq_quiet) (auto simp: reject_context_def one_event_def failed_with_def output_response_def
        split: prod.splits option.split if_splits)
  ultimately show ?thesis
    unfolding qwen_dispatch_def using input_quiet created_quiet output_scoped
    by (auto intro: weaken)
qed

text \<open>
  The adapter scopes the output: whatever frame it decodes, every text, audio and tool call it
  reports is of the response that the frame itself names with a non-blank identity, and it never reports
  a closed session.
\<close>

lemma adapter_scopes_output:
  assumes "qwen_decode env payload q = (Inr d, q')"
  shows "\<exists>v. qwen_value env payload = Inr v \<and> scoped_events v d"
proof -
  obtain v t eid where v: "qwen_value env payload = Inr v" "qwen_decode_value env eid t v q = (Inr d, q')"
    using assms unfolding qwen_decode_def by (auto simp: seq_st_Inr result_simps)
  show ?thesis
  proof (cases "eid \<in> qw_seen_events q")
    case True
    then show ?thesis
      using v by (auto simp: qwen_decode_value_def scoped_events_def)
  next
    case False
    then obtain x q1 where x: "pre_register eid t v q = (Inr x, q1)"
      "(case x of Some e \<Rightarrow> (Inr e, q1)
        | None \<Rightarrow> if unscoped t v then (user_side_event eid t v q1, q1) else qwen_dispatch env eid t v q1) = (Inr d, q')"
      using v(2) by (auto simp: qwen_decode_value_def seq_st_Inr)
    show ?thesis
    proof (cases x)
      case None
      then show ?thesis
        using x(2) v(1) user_side_scoped dispatch_scoped [of v env eid t q1] by (auto split: if_splits)
    next
      case (Some e)
      then have "d = decoded eid"
        using x pre_register_early [of eid q t v] by (simp add: early_def)
      then show ?thesis
        using v(1) by simp
    qed
  qed
qed

section \<open>Acknowledged messages\<close>

lemma register_seen: "qw_register i r source confirmed al q = (x, q') \<Longrightarrow>
    qw_seen_events q' = qw_seen_events q \<and> qw_context q' = qw_context q"
  by (auto simp: qw_register_def split: sum.splits)

definition matches :: "dict \<Rightarrow> ustr \<Rightarrow> qwen \<Rightarrow> decoded_event res \<Rightarrow> qwen \<Rightarrow> bool" where
  \<comment> \<open>an acknowledged message is the first pending one, of the same role, completed, with its text, and
     the frame is remembered\<close>
  "matches item eid q r q' \<longleftrightarrow> (\<forall>d i. r = Inr d \<and> de_context_ack_id d = Some i \<longrightarrow>
     eid \<in> qw_seen_events q' \<and>
     (\<exists>k e. pending_context q = Some (k, e) \<and> de_context_request_id d = Some k
        \<and> dget item (u ''id'') = VStr i \<and> py_eq (dget item (u ''status'')) (vs ''completed'')
        \<and> py_eq (dget item (u ''role'')) (dget e (u ''role'')) \<and> same_text item e = Inr ()))"

lemma matches_none: "(\<And>d. r = Inr d \<Longrightarrow> de_context_ack_id d = None) \<Longrightarrow> matches item eid q r q'"
  by (auto simp: matches_def)

lemma matches_simps [simp]: "matches item eid q (Inl e) q'" "matches item eid q (Inr (decoded a)) q'"
  by (simp_all add: matches_def)

lemma settle_matches:
  assumes "pending_context q = Some (k, e)" "dget item (u ''id'') = VStr i"
  shows "post (matches item eid q) (settle_context eid i item k e q)"
proof -
  have ack: "post (matches item eid q) (acknowledge eid i k e q)"
    if "py_eq (dget item (u ''status'')) (vs ''completed'')" "py_eq (dget item (u ''role'')) (dget e (u ''role''))"
      "same_text item e = Inr ()"
  proof -
    let ?q = "see_event eid (see_item i (see_item k (q\<lparr>qw_context := pop_context k (qw_context q)\<rparr>)))"
    let ?ro = "if dget e (u ''role'') = vs ''user'' then Role_user else Role_system"
    obtain x q2 where reg: "qw_register i ?ro (u ''context_ack'') True [k] ?q = (x, q2)"
      by (cases "qw_register i ?ro (u ''context_ack'') True [k] ?q")
    have "eid \<in> qw_seen_events q2" "eid \<in> qw_seen_events ?q"
      using register_seen [OF reg] by (simp_all add: see_event_def)
    moreover have "matches item eid q (Inr ((decoded eid)\<lparr>de_context_ack_id := Some i, de_context_request_id := Some k\<rparr>)) q'"
      if "eid \<in> qw_seen_events q'" for q'
      using that \<open>py_eq (dget item (u ''status'')) (vs ''completed'')\<close>
        \<open>py_eq (dget item (u ''role'')) (dget e (u ''role''))\<close> \<open>same_text item e = Inr ()\<close> assms
      by (simp add: matches_def)
    ultimately show ?thesis
      unfolding acknowledge_def Let_def reg by (cases x) simp_all
  qed
  have "post (matches item eid q) (seq_st (same_text item e, q) (\<lambda>_ q1. acknowledge eid i k e q1))"
    if "py_eq (dget item (u ''status'')) (vs ''completed'')" "py_eq (dget item (u ''role'')) (dget e (u ''role''))"
    by (rule post_pure) (use ack [OF that] in auto)
  then show ?thesis
    by (simp add: settle_context_def)
qed

lemma message_matches: "post (matches item eid q) (context_message_created eid item q)"
proof -
  have id: "dget item (u ''id'') = VStr i" if "id_field item ''id'' ''item.id'' = Inr i" for i
    using that by (simp add: id_field_def require_simps)
  have seq: "post (matches item eid q) (seq_st m (\<lambda>_ q1. (Inr d, f q1)))" if "de_context_ack_id d = None"
    for m :: "unit res \<times> qwen" and d f
    by (rule post_seq [where R = "\<lambda>_ _. True"]) (auto simp: post_def matches_def that)
  have input: "post (matches item eid q) (input_item eid i b item q)" for i b
    unfolding input_item_def Let_def by (simp only: split: if_split) (intro conjI impI seq; simp)
  have settle: "post (matches item eid q) (settle_context eid i item k e q)"
    if "pending_context q = Some (k, e)" "id_field item ''id'' ''item.id'' = Inr i" for i k e
    using that id by (intro settle_matches)
  have "post (matches item eid q) (if a then input_item eid i b item q
      else if i \<in> qw_seen_items q then (Inr (decoded eid), see_event eid q)
      else (case pending_context q of
          Some (request, expected) \<Rightarrow>
            if c then seq_st m (\<lambda>_ q1. (Inr (decoded eid), see_event eid (see_item i q1)))
            else settle_context eid i item request expected q
        | None \<Rightarrow>
            if c2 then (Inl x, q)
            else seq_st m' (\<lambda>_ q1. (Inr (decoded eid), see_event eid (see_item i q1)))))"
    if "id_field item ''id'' ''item.id'' = Inr i" for a b c c2 i x and m m' :: "unit res \<times> qwen"
    using input settle [OF _ that] seq [of "decoded eid"] by (auto split: option.split)
  then show ?thesis
    unfolding context_message_created_def Let_def by (intro post_pure) simp_all
qed

lemma post_seq_any: "(\<And>e q. Q (Inl e) q) \<Longrightarrow> (\<And>a q'. post Q (f a q')) \<Longrightarrow> post Q (seq_st m f)"
  by (cases m; cases "fst m") auto

definition unacked :: "decoded_event res \<Rightarrow> qwen \<Rightarrow> bool" where
  "unacked r q \<longleftrightarrow> (\<forall>d. r = Inr d \<longrightarrow> de_context_ack_id d = None)"

lemma unacked_simps [simp]: "unacked (Inl e) q" "unacked (Inr d) q \<longleftrightarrow> de_context_ack_id d = None"
  by (simp_all add: unacked_def)

lemma unacked_none: "(\<And>d. r = Inr d \<Longrightarrow> no_context d) \<Longrightarrow> unacked r q"
  by (auto simp: unacked_def no_context_def)

lemma dispatch_unacked:
  assumes "t \<noteq> u ''conversation.item.created''"
  shows "post unacked (qwen_dispatch env eid t v q)"
proof -
  have "post unacked (session_updated env eid v q)"
    unfolding session_updated_def by (auto intro!: post_seq_any split: option.split prod.split)
  moreover have "post unacked (qwen_error eid v q)"
    unfolding qwen_error_def
    by (rule post_seq_any) (auto simp: reject_context_def one_event_def failed_with_def split: option.split prod.splits if_splits)
  moreover have "post unacked (qwen_input eid t v q)"
  proof -
    have texts: "unacked (optional_text eid key ev v) q" for key ev q
      by (rule unacked_none) (rule optional_text_none)
    have pure: "unacked (andthen r f) q" if "\<And>i. unacked (f i) q" for r :: "ustr res" and f q
      by (cases r) (auto simp: that)
    show ?thesis
      unfolding qwen_input_def
      by (simp only: split: if_split)
         (intro conjI impI post_seq_any; simp add: texts pure one_event_def failed_with_def)
  qed
  moreover have "post unacked (qwen_output eid t v, q)"
    using output_none by (auto intro: unacked_none)
  ultimately show ?thesis
    using assms by (simp add: qwen_dispatch_def)
qed

lemma acknowledged_frame:
  assumes "qwen_decode env payload q = (Inr d, q')" "de_context_ack_id d = Some i"
  obtains v t eid item where
    "qwen_value env payload = Inr v" "require_string (dget v (u ''type'')) (u ''type'') = Inr t"
    "id_field v ''event_id'' ''event_id'' = Inr eid" "dget v (u ''item'') = VDict item"
    "context_message_created eid item q = (Inr d, q')"
proof -
  obtain v t eid where v: "qwen_value env payload = Inr v" "require_string (dget v (u ''type'')) (u ''type'') = Inr t"
    "id_field v ''event_id'' ''event_id'' = Inr eid" "qwen_decode_value env eid t v q = (Inr d, q')"
    using assms(1) unfolding qwen_decode_def by (auto simp: seq_st_Inr result_simps)
  have "eid \<notin> qw_seen_events q"
    using v(4) assms(2) by (auto simp: qwen_decode_value_def)
  then obtain x q1 where x: "pre_register eid t v q = (Inr x, q1)"
      "(case x of Some e \<Rightarrow> (Inr e, q1)
        | None \<Rightarrow> if unscoped t v then (user_side_event eid t v q1, q1) else qwen_dispatch env eid t v q1) = (Inr d, q')"
    using v(4) by (auto simp: qwen_decode_value_def seq_st_Inr)
  have "x = None"
    using x pre_register_early [of eid q t v] assms(2) by (cases x) (auto simp: early_def)
  moreover have "\<not> unscoped t v"
    using x(2) assms(2) user_side_none \<open>x = None\<close> by (fastforce simp: no_context_def)
  ultimately have dispatch: "qwen_dispatch env eid t v q1 = (Inr d, q')"
    using x(2) by simp
  have t: "t = u ''conversation.item.created''"
  proof (rule ccontr)
    assume "t \<noteq> u ''conversation.item.created''"
    from dispatch_unacked [OF this, of env eid v q1] show False
      using dispatch assms(2) by simp
  qed
  then have "q1 = q"
    using x(1) by (simp add: pre_register_def)
  then have "item_created eid v q = (Inr d, q')"
    using dispatch t by (simp add: qwen_dispatch_def)
  then obtain item where item: "dget v (u ''item'') = VDict item"
    and "context_message_created eid item q = (Inr d, q') \<or> (\<exists>d'. decode_tool_ack eid item = Inr d' \<and> d = d')"
    by (auto simp: item_created_def seq_st_Inr require_simps split: if_splits)
  then have "context_message_created eid item q = (Inr d, q')"
    using assms(2) decode_none(7) [of eid item d] by (auto simp: no_context_def)
  then show thesis
    using that v item by blast
qed

text \<open>
  A message is acknowledged for the right item, and once: the frame that acknowledges a message
  carries a completed item with the acknowledged identity, of the role the message was sent with and
  with exactly its text, the request it settles is the message's own, and decoding the same frame again
  reports nothing and changes nothing.
\<close>

lemma acknowledged_message_matches:
  assumes "reach qwen_start qwen_step q" and "qwen_decode env payload q = (Inr d, q')"
    and "de_context_ack_id d = Some i"
  shows "(\<exists>k ro tx v item. de_context_request_id d = Some k
      \<and> map_of (qw_context q) k = Some (Some (message_item k ro tx))
      \<and> qwen_value env payload = Inr v \<and> dget v (u ''item'') = VDict item
      \<and> dget item (u ''id'') = VStr i \<and> dget item (u ''status'') = vs ''completed''
      \<and> dget item (u ''role'') = vs ro \<and> context_text_parts (dget item (u ''content'')) = Inr [tx])
    \<and> (\<exists>d2. qwen_decode env payload q' = (Inr d2, q') \<and> de_events d2 = [] \<and> no_context d2)"
proof -
  obtain v t eid item where f: "qwen_value env payload = Inr v"
    "require_string (dget v (u ''type'')) (u ''type'') = Inr t" "id_field v ''event_id'' ''event_id'' = Inr eid"
    "dget v (u ''item'') = VDict item" "context_message_created eid item q = (Inr d, q')"
    using assms(2,3) by (rule acknowledged_frame)
  obtain k e where m: "eid \<in> qw_seen_events q'" "pending_context q = Some (k, e)" "de_context_request_id d = Some k"
    "dget item (u ''id'') = VStr i" "py_eq (dget item (u ''status'')) (vs ''completed'')"
    "py_eq (dget item (u ''role'')) (dget e (u ''role''))" "same_text item e = Inr ()"
    using message_matches [of item eid q] f(5) assms(3) by (auto simp: matches_def)
  have inv: "qwen_inv q"
    by (rule adapter.inv_reach [OF assms(1)])
  then obtain ro tx where e: "e = message_item k ro tx"
    using pending_in_context [OF m(2)] unfolding qwen_inv_def by blast
  have "map_of (qw_context q) k = Some (Some e)"
    using pending_in_context [OF m(2)] inv by (simp add: qwen_inv_def context_ok_def)
  moreover have "context_text_parts (dget item (u ''content'')) = Inr [tx]" "dget e (u ''role'') = vs ro"
    using m(7) by (auto simp: same_text_def result_simps e message_item_def dget_def context_text_parts_def text_part_def)
  moreover have "qwen_decode env payload q' = (Inr ((decoded eid)\<lparr>de_session_acknowledged := (t = u ''session.updated'')\<rparr>), q')"
    using m(1) f by (simp add: qwen_decode_def qwen_decode_value_def)
  ultimately show ?thesis
    using m f e by (auto simp: py_eq_text)
qed

section \<open>Examples\<close>

definition example_open :: open_request where
  "example_open = \<lparr>or_external_session_id = u ''s'', or_instructions = u ''i'', or_required_features = [],
     or_input_audio = example_audio, or_output_audio = example_audio, or_tools = VList []\<rparr>"

definition example_qwen_start :: qwen where
  "example_qwen_start = qwen_init\<lparr>qw_table := first_table, qw_tools := VList []\<rparr>"

definition example_qwen :: qwen where
  \<comment> \<open>a message was sent\<close>
  "example_qwen = snd (qwen_append_message (u ''event_m'') (u ''hi'') ''user'' example_qwen_start)"

lemma example_qwen_start: "reach qwen_start qwen_step example_qwen_start"
proof -
  have "case validate_tools example_env (nat (li_tool_payload_bytes default_limits)) (or_tools example_open) of
      Inr x \<Rightarrow> True | Inl e \<Rightarrow> False"
    by code_simp
  then have "qwen_session_update example_env (u ''event_s'') example_open qwen_init
      = (Inr (qwen_session_event (u ''event_s'') (or_instructions example_open) (or_tools example_open)), example_qwen_start)"
    by (auto simp: qwen_session_update_def example_qwen_start_def example_open_def qwen_init_def split: sum.splits)
  then have "qwen_start example_qwen_start"
    unfolding qwen_start_def by blast
  then show ?thesis
    by (rule reach_start)
qed

lemma example_qwen: "reach qwen_start qwen_step example_qwen"
proof -
  have "qwen_step example_qwen_start example_qwen"
    unfolding example_qwen_def
    by (rule step_append [where eid = "u ''event_m''" and tx = "u ''hi''" and ro = "''user''"
          and ev = "fst (qwen_append_message (u ''event_m'') (u ''hi'') ''user'' example_qwen_start)"])
       (simp_all add: example_qwen_start_def qwen_init_def has_key_def)
  then show ?thesis
    by (rule reach_step [OF example_qwen_start])
qed

definition example_ack :: dict where
  "example_ack = [(u ''type'', vs ''conversation.item.created''), (u ''event_id'', vs ''event_1''),
     (u ''item'', VDict [(u ''id'', vs ''item_1''), (u ''type'', vs ''message''), (u ''role'', vs ''user''),
        (u ''status'', vs ''completed''),
        (u ''content'', VList [VDict [(u ''type'', vs ''input_text''), (u ''text'', vs ''hi'')]])])]"

definition frame_ok :: "dict \<Rightarrow> bool" where
  \<comment> \<open>the frame can be written and read\<close>
  "frame_ok v \<longleftrightarrow>
     (case dumps example_env wire_style (VDict v) of
        Inr t \<Rightarrow> encodable t \<and> utf8_len t \<le> 1048576 | Inl e \<Rightarrow> False)
     \<and> (case qwen_event_type v of Inr t \<Rightarrow> t \<in> set (map u QWEN_SERVER_EVENTS) | Inl e \<Rightarrow> False)"

lemma frame_payload:
  assumes "frame_ok v" "writable True (VDict v)" "written False (VDict v) = VDict v"
  shows "\<exists>payload. qwen_value example_env payload = Inr v"
proof -
  obtain t where t: "dumps example_env wire_style (VDict v) = Inr t" "encodable t" "utf8_len t \<le> 1048576"
    using assms(1) by (auto simp: frame_ok_def split: sum.splits)
  obtain ty where "qwen_event_type v = Inr ty" "ty \<in> set (map u QWEN_SERVER_EVENTS)"
    using assms(1) by (auto simp: frame_ok_def split: sum.splits)
  moreover have "strict_json_object example_env t = Inr v"
    by (rule strict_object_of_dumps [OF styles_ok(2) t(1)]) (use assms(2,3) in \<open>simp_all add: wire_style_def\<close>)
  ultimately have "qwen_value example_env t = Inr v"
    using t by (simp add: qwen_value_def wire_value_def encode_utf8_def check_def)
  then show ?thesis ..
qed

lemma example_ack_frame: "\<exists>payload. qwen_value example_env payload = Inr example_ack"
proof (rule frame_payload)
  show "frame_ok example_ack"
    by code_simp
qed (simp_all add: example_ack_def)

lemma decode_frame:
  assumes "qwen_value env payload = Inr v" "dget v (u ''type'') = VStr t" "t \<noteq> []" "dget v (u ''event_id'') = VStr eid" "\<not> blank eid"
  shows "qwen_decode env payload q = qwen_decode_value env eid t v q"
  using assms by (simp add: qwen_decode_def require_string_def id_field_def require_identifier_def optional_identifier_def)

lemma example_acked:
  assumes "qwen_value example_env payload = Inr example_ack"
  shows "\<exists>d q'. qwen_decode example_env payload example_qwen = (Inr d, q') \<and> de_context_ack_id d = Some (u ''item_1'')
    \<and> de_context_request_id d = Some (u ''event_m'')"
proof -
  have "\<not> blank (u ''event_1'')"
    by code_simp
  then have "qwen_decode example_env payload example_qwen
      = qwen_decode_value example_env (u ''event_1'') (u ''conversation.item.created'') example_ack example_qwen"
    by (intro decode_frame [OF assms]) (simp_all add: example_ack_def dget_def)
  moreover have "case qwen_decode_value example_env (u ''event_1'') (u ''conversation.item.created'') example_ack example_qwen of
      (Inr d, q') \<Rightarrow> de_context_ack_id d = Some (u ''item_1'') \<and> de_context_request_id d = Some (u ''event_m'')
    | (Inl e, q') \<Rightarrow> False"
    by code_simp
  ultimately show ?thesis
    by (auto split: prod.splits sum.splits)
qed

theorem request_settled_once_witness:
  "\<exists>payload d q'. qwen_decode example_env payload example_qwen = (Inr d, q')
     \<and> de_context_request_id d = Some (u ''event_m'') \<and> \<not> has_key (qw_context q') (u ''event_m'')"
proof -
  obtain payload where "qwen_value example_env payload = Inr example_ack"
    using example_ack_frame by blast
  then obtain d q' where d: "qwen_decode example_env payload example_qwen = (Inr d, q')"
    "de_context_request_id d = Some (u ''event_m'')"
    using example_acked by blast
  then show ?thesis
    using request_settled_once [OF example_qwen d(1)] by blast
qed

lemma acknowledged_message_matches_witness:
  "\<exists>payload d q' d2. qwen_decode example_env payload example_qwen = (Inr d, q')
     \<and> de_context_ack_id d = Some (u ''item_1'')
     \<and> qwen_decode example_env payload q' = (Inr d2, q') \<and> de_events d2 = [] \<and> no_context d2"
proof -
  obtain payload where "qwen_value example_env payload = Inr example_ack"
    using example_ack_frame by blast
  then obtain d q' where d: "qwen_decode example_env payload example_qwen = (Inr d, q')"
    "de_context_ack_id d = Some (u ''item_1'')"
    using example_acked by blast
  then show ?thesis
    using acknowledged_message_matches [OF example_qwen d] by blast
qed

definition example_committed :: dict where
  "example_committed = [(u ''type'', vs ''input_audio_buffer.committed''), (u ''event_id'', vs ''event_2''),
     (u ''item_id'', vs ''item_2'')]"

definition example_known :: qwen where
  \<comment> \<open>the item of the user's speech is registered\<close>
  "example_known = snd (qwen_decode_value example_env (u ''event_2'') (u ''input_audio_buffer.committed'')
     example_committed example_qwen)"

definition example_instructed :: qwen where
  "example_instructed = snd (qwen_update_instructions (u ''event_i'') (u ''be brief'') example_known)"

lemma example_known: "reach qwen_start qwen_step example_known"
proof -
  have "\<exists>payload. qwen_value example_env payload = Inr example_committed"
  proof (rule frame_payload)
    show "frame_ok example_committed"
      by code_simp
  qed (simp_all add: example_committed_def)
  then obtain payload where p: "qwen_value example_env payload = Inr example_committed"
    by blast
  have "\<not> blank (u ''event_2'')"
    by code_simp
  then have "qwen_decode example_env payload example_qwen
      = qwen_decode_value example_env (u ''event_2'') (u ''input_audio_buffer.committed'') example_committed example_qwen"
    by (intro decode_frame [OF p]) (simp_all add: example_committed_def dget_def)
  then have "qwen_step example_qwen example_known"
    unfolding example_known_def by (intro step_decode [where env = example_env and payload = payload]) (simp add: prod_eq_iff)
  then show ?thesis
    by (rule reach_step [OF example_qwen])
qed

theorem adapter_keeps_identities_witness:
  "\<exists>p. lookup_item (qw_table example_instructed) (u ''item_2'') = Some p \<and> ii_role p = Role_user \<and> ii_confirmed p"
proof -
  have known: "case lookup_item (qw_table example_known) (u ''item_2'') of
      Some p \<Rightarrow> ii_role p = Role_user \<and> ii_confirmed p | None \<Rightarrow> False"
    by code_simp
  have "\<not> has_key (qw_context example_known) (u ''event_i'')"
    by code_simp
  then have "qwen_step example_known example_instructed"
    unfolding example_instructed_def
    by (rule step_instruct [where tx = "u ''be brief''"]) (simp add: prod_eq_iff)
  then have run: "qwen_step\<^sup>*\<^sup>* example_known example_instructed"
    by (rule r_into_rtranclp)
  obtain p where "lookup_item (qw_table example_known) (u ''item_2'') = Some p" "ii_role p = Role_user" "ii_confirmed p"
    using known by (auto split: option.splits)
  then show ?thesis
    using adapter_keeps_identities [OF example_known run] by fastforce
qed

section \<open>A role that contradicts an earlier one\<close>

definition example_contradiction :: dict where
  \<comment> \<open>a frame that declares the item of the user's speech an assistant's\<close>
  "example_contradiction = [(u ''type'', vs ''conversation.item.created''), (u ''event_id'', vs ''event_3''),
     (u ''item'', VDict [(u ''id'', vs ''item_2''), (u ''type'', vs ''message''), (u ''role'', vs ''assistant'')])]"

definition example_resumed :: qwen where
  \<comment> \<open>the adapter of the next generation, with the table the first one filled\<close>
  "example_resumed = bind_table (begin_generation 2 (qw_table example_known)) qwen_init"

definition registered_in :: "qwen \<Rightarrow> ustr \<Rightarrow> int option" where
  "registered_in q k = map_option ii_generation (lookup_item (qw_table q) k)"

text \<open>
  A frame whose role contradicts the registered one refreshes the registration: an item of the user
  registered in generation 1 is registered in generation 2 after a frame of generation 2 that declares it
  an assistant's, although the mismatch is noticed and reported.
\<close>

lemma contradiction_refreshes_generation:
  "\<exists>d q'. qwen_decode_value example_env (u ''event_3'') (u ''conversation.item.created'') example_contradiction
        example_resumed = (Inr d, q')
     \<and> de_item_role_metadata_mismatch d = Some (u ''item_2'', u ''assistant'')
     \<and> registered_in example_resumed (u ''item_2'') = Some 1 \<and> registered_in q' (u ''item_2'') = Some 2"
proof -
  have "case qwen_decode_value example_env (u ''event_3'') (u ''conversation.item.created'') example_contradiction
        example_resumed of
      (Inr d, q') \<Rightarrow> de_item_role_metadata_mismatch d = Some (u ''item_2'', u ''assistant'')
        \<and> registered_in example_resumed (u ''item_2'') = Some 1 \<and> registered_in q' (u ''item_2'') = Some 2
    | (Inl e, q') \<Rightarrow> False"
    by code_simp
  then show ?thesis
    by (auto split: prod.splits sum.splits)
qed

end
