(* ===== verification/OpenAI.thy ===== *)
theory OpenAI
  imports Adapter_Events
begin

text \<open>
  \<^verbatim>\<open>realtime/adapters/openai_wire.py\<close> and \<^verbatim>\<open>realtime/adapters/openai.py\<close>: the adapter of the OpenAI
  provider, with its strict decoder and its state of pending context requests. A refused frame is shown
  to change nothing, and an accepted one to settle at most the one request it names, which it then may
  not settle again.
\<close>

section \<open>The wire codec\<close>

definition OPENAI_CLIENT_EVENTS :: "string list" where
  "OPENAI_CLIENT_EVENTS =
     [''session.update'', ''input_audio_buffer.append'', ''input_audio_buffer.commit'', ''response.create'',
      ''response.cancel'', ''conversation.item.create'', ''conversation.item.truncate'']"

definition OPENAI_SERVER_EVENTS :: "string list" where
  "OPENAI_SERVER_EVENTS =
     [''error'', ''session.created'', ''session.updated'', ''input_audio_buffer.speech_started'',
      ''input_audio_buffer.speech_stopped'', ''input_audio_buffer.committed'', ''conversation.item.created'',
      ''conversation.item.input_audio_transcription.completed'', ''response.created'',
      ''response.output_item.added'', ''response.output_item.done'', ''response.content_part.added'',
      ''response.content_part.done'', ''response.output_audio.delta'', ''response.output_audio.done'',
      ''response.output_audio_transcript.delta'', ''response.output_audio_transcript.done'',
      ''response.function_call_arguments.delta'', ''response.function_call_arguments.done'', ''response.done'']"

definition openai_event_type :: "dict \<Rightarrow> ustr res" where
  \<comment> \<open>\<^verbatim>\<open>_identity\<close>\<close>
  "openai_event_type v =
    andthen (id_field v ''event_id'' ''event_id'') (\<lambda>eid.
      case dget v (u ''type'') of VStr t \<Rightarrow> Inr t | _ \<Rightarrow> Inl (protocol_error ''event type/id is required''))"

definition openai_encode :: "json_env \<Rightarrow> dict \<Rightarrow> ustr res" where
  "openai_encode env v =
     wire_encode env openai_event_type OPENAI_CLIENT_EVENTS ''unknown OpenAI client event'' 65536 v"

definition openai_value :: "json_env \<Rightarrow> ustr \<Rightarrow> dict res" where
  \<comment> \<open>\<^verbatim>\<open>OpenAIWireCodec.decode_server_event\<close>\<close>
  "openai_value env payload =
    andthen (wire_value env openai_event_type OPENAI_SERVER_EVENTS ''OpenAI frame is too large''
               ''unknown OpenAI server event'' payload) (\<lambda>v.
    andthen (if py_eq (dget v (u ''type'')) (vs ''response.output_audio.delta'')
             then andthen (decode_base64_pcm (dget v (u ''delta'')) 262144) (\<lambda>_. Inr ()) else Inr ()) (\<lambda>_.
      Inr v))"

section \<open>The state of the adapter\<close>

definition pcm16_24k :: audio_format where
  "pcm16_24k = \<lparr>af_codec = u ''pcm_s16le'', af_sample_rate = 24000, af_channels = 1\<rparr>"

definition OPENAI_OFFLINE_CAPABILITY :: rt_capability where
  "OPENAI_OFFLINE_CAPABILITY = \<lparr>ca_control_version = u ''2026-08-27.1'',
     ca_sdk_protocol_version = u ''simple-harness-realtime/1'', ca_provider = u ''openai'',
     ca_wire_protocol = u ''openai-native'', ca_wire_version = u ''2026-08-27.1'',
     ca_input_audio = pcm16_24k, ca_output_audio = pcm16_24k,
     ca_features = \<lparr>fs_server_turn_detection = True, fs_automatic_response = True, fs_interruption = True,
       fs_input_transcription = True, fs_text_output = True, fs_audio_output = True, fs_cancel_response = True,
       fs_truncate_output = True, fs_tool_calling = True, fs_resume = False\<rparr>,
     ca_limits = default_limits\<rparr>"

record openai =
  oa_tools :: pyval
  oa_context :: "(ustr \<times> dict option) list" \<comment> \<open>\<^verbatim>\<open>_context_events\<close>\<close>
  oa_pending :: "ustr option"
  oa_instruction :: "(ustr \<times> ustr) option"
  oa_instructions :: "ustr option" \<comment> \<open>\<^verbatim>\<open>_context_instructions\<close>\<close>

definition openai_init :: "bool \<Rightarrow> openai res" where
  "openai_init enable_live =
    (if enable_live then Inl (rt_error E_UNSUPPORTED ''live OpenAI Realtime is outside this release'')
     else Inr \<lparr>oa_tools = VList [], oa_context = [], oa_pending = None, oa_instruction = None,
            oa_instructions = None\<rparr>)"

definition forget :: "ustr \<Rightarrow> (ustr \<times> dict option) list \<Rightarrow> (ustr \<times> dict option) list" where
  \<comment> \<open>\<^verbatim>\<open>_context_events.pop(key, None)\<close>\<close>
  "forget k ctx = filter (\<lambda>ke. fst ke \<noteq> k) ctx"

section \<open>Client events\<close>

definition pcm_24k :: pyval where
  "pcm_24k = VDict [(u ''type'', vs ''audio/pcm''), (u ''rate'', VInt 24000)]"

definition semantic_vad :: pyval where
  "semantic_vad = VDict [(u ''type'', vs ''semantic_vad''), (u ''create_response'', VBool True),
     (u ''interrupt_response'', VBool True)]"

definition openai_output_audio :: pyval where
  "openai_output_audio = VDict [(u ''format'', pcm_24k), (u ''voice'', vs ''marin'')]"

definition openai_session_event :: "ustr \<Rightarrow> ustr \<Rightarrow> pyval \<Rightarrow> dict" where
  "openai_session_event eid instructions tools =
     [(u ''event_id'', VStr eid), (u ''type'', vs ''session.update''),
      (u ''session'', VDict
        ([(u ''type'', vs ''realtime''), (u ''instructions'', VStr instructions)]
         @ (if truthy tools then [(u ''tools'', tools)] else [])
         @ [(u ''output_modalities'', VList [vs ''audio'']),
            (u ''audio'', VDict
              [(u ''input'', VDict
                 [(u ''format'', pcm_24k), (u ''transcription'', VDict [(u ''model'', vs ''gpt-realtime-whisper'')]),
                  (u ''turn_detection'', semantic_vad)]),
               (u ''output'', openai_output_audio)])]))]"

definition openai_session_update :: "json_env \<Rightarrow> ustr \<Rightarrow> open_request \<Rightarrow> openai \<Rightarrow> dict res \<times> openai" where
  "openai_session_update env eid r q =
    (case validate_tools env (nat (li_tool_payload_bytes (ca_limits OPENAI_OFFLINE_CAPABILITY))) (or_tools r) of
       Inl e \<Rightarrow> (Inl e, q)
     | Inr _ \<Rightarrow> (Inr (openai_session_event eid (or_instructions r) (or_tools r)), q\<lparr>oa_tools := or_tools r\<rparr>))"

definition openai_audio_append :: "ustr \<Rightarrow> bytes \<Rightarrow> dict res" where
  "openai_audio_append eid pcm = encode_audio 65536 eid pcm"

definition openai_cancel_response :: "ustr \<Rightarrow> ustr option \<Rightarrow> dict" where
  "openai_cancel_response eid response_id =
     [(u ''event_id'', VStr eid), (u ''type'', vs ''response.cancel'')]
     @ (case response_id of Some r \<Rightarrow> [(u ''response_id'', VStr r)] | None \<Rightarrow> [])"

definition openai_truncate_output :: "ustr \<Rightarrow> ustr \<Rightarrow> int \<Rightarrow> int \<Rightarrow> dict res" where
  "openai_truncate_output eid item_id content_index audio_end_ms =
    (if content_index < 0 \<or> audio_end_ms < 0 then Inl (rt_plain E_INVALID_REQUEST)
     else Inr [(u ''event_id'', VStr eid), (u ''type'', vs ''conversation.item.truncate''),
               (u ''item_id'', VStr item_id), (u ''content_index'', VInt content_index),
               (u ''audio_end_ms'', VInt audio_end_ms)])"

definition openai_tool_result :: "ustr \<Rightarrow> ustr \<Rightarrow> ustr \<Rightarrow> dict \<times> ustr" where
  "openai_tool_result eid call_id output = (tool_result_event eid call_id output, eid)"

definition openai_followup_response :: "ustr \<Rightarrow> ustr \<Rightarrow> openai \<Rightarrow> dict" where
  "openai_followup_response eid call_id q =
    [(u ''event_id'', VStr eid), (u ''type'', vs ''response.create'')]
    @ (case oa_instructions q of
         Some text \<Rightarrow> if call_id = [] then [(u ''response'', VDict [(u ''instructions'', VStr text)])] else []
       | None \<Rightarrow> [])"

definition openai_append_message :: "ustr \<Rightarrow> ustr \<Rightarrow> string \<Rightarrow> openai \<Rightarrow> dict \<times> openai" where
  "openai_append_message eid text r q =
    (message_event eid r text,
     q\<lparr>oa_context := AList.update eid (Some (message_item eid r text)) (oa_context q)\<rparr>)"

definition openai_update_instructions :: "ustr \<Rightarrow> ustr \<Rightarrow> openai \<Rightarrow> dict \<times> openai" where
  "openai_update_instructions eid text q =
    ([(u ''event_id'', VStr eid), (u ''type'', vs ''session.update''),
      (u ''session'', VDict [(u ''type'', vs ''realtime''), (u ''instructions'', VStr text)])],
     q\<lparr>oa_context := AList.update eid None (oa_context q), oa_instruction := Some (eid, text),
       oa_instructions := Some text\<rparr>)"

definition openai_out_of_band :: "ustr \<Rightarrow> ustr \<Rightarrow> openai \<Rightarrow> dict \<times> openai" where
  "openai_out_of_band eid text q =
    ([(u ''event_id'', VStr eid), (u ''type'', vs ''response.create''),
      (u ''response'', VDict [(u ''instructions'', VStr text), (u ''conversation'', vs ''none'')])],
     q\<lparr>oa_pending := Some eid, oa_context := AList.update eid None (oa_context q)\<rparr>)"

section \<open>Server events\<close>

definition openai_ack_tools :: "ustr \<Rightarrow> pyval \<Rightarrow> dict \<Rightarrow> unit res" where
  \<comment> \<open>the check of the tools in \<^verbatim>\<open>_validate_session_ack\<close>\<close>
  "openai_ack_tools t tools session =
    (if t = u ''session.updated'' \<and> truthy tools \<and> \<not> has_key session (u ''tools'')
     then Inl (rt_error E_UNSUPPORTED ''tool catalog not acknowledged'')
     else if has_key session (u ''tools'') \<and> \<not> py_eq (dget session (u ''tools'')) tools
     then Inl (protocol_error ''tool catalog mismatch'') else Inr ())"

definition openai_input_audio :: "ustr \<Rightarrow> pyval" where
  \<comment> \<open>\<^verbatim>\<open>expected_input\<close>\<close>
  "openai_input_audio t =
     VDict ((u ''format'', pcm_24k) # (if t = u ''session.updated'' then [(u ''turn_detection'', semantic_vad)] else []))"

definition openai_session_ack :: "ustr \<Rightarrow> pyval \<Rightarrow> dict \<Rightarrow> unit res" where
  \<comment> \<open>\<^verbatim>\<open>_validate_session_ack\<close>\<close>
  "openai_session_ack t tools v =
    (let expected = map u [''id'', ''type'', ''model'', ''output_modalities'', ''audio'']
     in
    andthen (check (key_set_is v (map u [''event_id'', ''type'', ''session'']))
               (protocol_error ''OpenAI session acknowledgement fields do not match'')) (\<lambda>_.
    andthen (require_object (dget v (u ''session'')) (u ''session'')) (\<lambda>session.
    andthen (check (list_all (has_key session) expected \<and> keys_within session (expected @ [u ''tools'']))
               (protocol_error ''OpenAI session fields do not match'')) (\<lambda>_.
    andthen (openai_ack_tools t tools session) (\<lambda>_.
    andthen (id_field session ''id'' ''session.id'') (\<lambda>_.
    andthen (check (py_eq (dget session (u ''type'')) (vs ''realtime'')
                \<and> py_eq (dget session (u ''model'')) (vs ''gpt-realtime-2.1'')
                \<and> py_eq (dget session (u ''output_modalities'')) (VList [vs ''audio'']))
               (protocol_error ''OpenAI session configuration mismatch'')) (\<lambda>_.
    andthen (require_object (dget session (u ''audio'')) (u ''session.audio'')) (\<lambda>audio.
    andthen (check (key_set_is audio (map u [''input'', ''output'']))
               (protocol_error ''OpenAI audio acknowledgement fields do not match'')) (\<lambda>_.
    andthen (require_object (dget audio (u ''input'')) (u ''session.audio.input'')) (\<lambda>inp.
    andthen (require_object (dget audio (u ''output'')) (u ''session.audio.output'')) (\<lambda>out.
      check (py_eq (VDict inp) (openai_input_audio t) \<and> py_eq (VDict out) openai_output_audio)
        (protocol_error ''OpenAI audio acknowledgement mismatch''))))))))))))"

definition openai_session_changed :: "ustr \<Rightarrow> ustr \<Rightarrow> dict \<Rightarrow> openai \<Rightarrow> decoded_event res \<times> openai" where
  \<comment> \<open>\<^verbatim>\<open>session.created\<close> and \<^verbatim>\<open>session.updated\<close>\<close>
  "openai_session_changed eid t v q =
    (let plain = andthen (openai_session_ack t (oa_tools q) v) (\<lambda>_.
           Inr ((decoded eid)\<lparr>de_provider_ready := (t = u ''session.updated''), de_session_acknowledged := True,
                  de_tools_acknowledged := (truthy (oa_tools q) \<and> t = u ''session.updated'')\<rparr>))
     in
     case oa_instruction q of
       Some (request, expected) \<Rightarrow>
         if t = u ''session.updated'' then
           (case require_object (dget v (u ''session'')) (u ''session'') of
              Inl e \<Rightarrow> (Inl e, q)
            | Inr session \<Rightarrow>
                if py_eq (dget session (u ''instructions'')) (VStr expected)
                then (Inr ((decoded eid)\<lparr>de_session_acknowledged := True, de_context_ack_id := Some request\<rparr>),
                      q\<lparr>oa_instruction := None, oa_context := forget request (oa_context q)\<rparr>)
                else (plain, q))
         else (plain, q)
     | None \<Rightarrow> (plain, q))"

definition openai_input :: "ustr \<Rightarrow> ustr \<Rightarrow> dict \<Rightarrow> decoded_event res" where
  "openai_input eid t v =
    (if t = u ''input_audio_buffer.committed'' then Inr (decoded eid)
     else
       andthen (id_field v ''item_id'' ''item_id'') (\<lambda>turn.
         if t = u ''input_audio_buffer.speech_started'' then Inr (one_event eid (SpeechStarted turn))
         else if t = u ''input_audio_buffer.speech_stopped'' then Inr (one_event eid (SpeechStopped turn))
         else andthen (require_string (dget v (u ''transcript'')) (u ''transcript'')) (\<lambda>text.
                Inr (one_event eid (TranscriptCompleted turn text)))))"

definition openai_created :: "ustr \<Rightarrow> dict \<Rightarrow> openai \<Rightarrow> decoded_event res \<times> openai" where
  \<comment> \<open>\<^verbatim>\<open>response.created\<close>\<close>
  "openai_created eid v q =
    (case decode_created eid (oa_pending q) v of
       Inl e \<Rightarrow> (Inl e, q)
     | Inr d \<Rightarrow> (Inr d, (case oa_pending q of
                          Some k \<Rightarrow> q\<lparr>oa_context := forget k (oa_context q), oa_pending := None\<rparr>
                        | None \<Rightarrow> q)))"

definition matches_item :: "dict \<Rightarrow> dict option \<Rightarrow> bool" where
  "matches_item item expected =
    (case expected of
       None \<Rightarrow> False
     | Some fs \<Rightarrow> py_eq (dget item (u ''status'')) (vs ''completed'')
         \<and> list_all (\<lambda>kv. py_eq (dget item (fst kv)) (snd kv)) fs)"

definition openai_item_created :: "ustr \<Rightarrow> dict \<Rightarrow> openai \<Rightarrow> decoded_event res \<times> openai" where
  "openai_item_created eid v q =
    (case require_object (dget v (u ''item'')) (u ''item'') of
       Inl e \<Rightarrow> (Inl e, q)
     | Inr item \<Rightarrow>
         (case optional_identifier (dget item (u ''id'')) of
            Some k \<Rightarrow>
              (case map_of (oa_context q) k of
                 Some expected \<Rightarrow>
                   if matches_item item expected
                   then (Inr ((decoded eid)\<lparr>de_context_ack_id := Some k\<rparr>), q\<lparr>oa_context := forget k (oa_context q)\<rparr>)
                   else (Inl (protocol_error ''context message mismatch''), q)
               | None \<Rightarrow> (decode_tool_ack eid item, q))
          | None \<Rightarrow> (decode_tool_ack eid item, q)))"

definition openai_response_done :: "ustr \<Rightarrow> dict \<Rightarrow> decoded_event res" where
  "openai_response_done eid v =
    andthen (require_object (dget v (u ''response'')) (u ''response'')) (\<lambda>response.
    andthen (id_field response ''id'' ''response.id'') (\<lambda>r.
    andthen (require_string (dget response (u ''status'')) (u ''response.status'')) (\<lambda>text.
    andthen (case status_of text of
               Some st \<Rightarrow> Inr st | None \<Rightarrow> Inl (protocol_error ''unknown response status'')) (\<lambda>st.
    andthen (parse_terminal_usage response ''input_token_details'' ''output_token_details'') (\<lambda>usage.
      if st \<noteq> RS_FAILED \<and> usage = None then Inl (protocol_error ''terminal usage is required'')
      else Inr ((decoded eid)\<lparr>de_events := ResponseFinished r st usage False #
        (if st = RS_FAILED then [SessionFailed (failed_event E_UNAVAILABLE True)] else [])\<rparr>))))))"

definition openai_map_error :: "dict \<Rightarrow> (error_code \<times> bool) res" where
  \<comment> \<open>\<^verbatim>\<open>_map_error\<close>\<close>
  "openai_map_error e =
    (let code = dget e (u ''code'') in
     if py_eq code (vs ''invalid_api_key'') then Inr (E_UNAUTHENTICATED, False)
     else if py_eq code (vs ''permission_denied'') then Inr (E_FORBIDDEN, False)
     else
       andthen (in_texts code [''rate_limit_exceeded'', ''insufficient_quota'']) (\<lambda>b.
         if b then Inr (E_RATE_LIMITED, True)
         else if py_eq code (vs ''server_error'') then Inr (E_UNAVAILABLE, True)
         else if py_eq code (vs ''session_expired'') then Inr (E_SESSION_EXPIRED, True)
         else if py_eq (dget e (u ''type'')) (vs ''invalid_request_error'') then
           andthen (in_texts code [''invalid_value'', ''missing_required_parameter'', ''invalid_event'']) (\<lambda>b.
             Inr (if b then E_INVALID_REQUEST else E_PROTOCOL_ERROR, False))
         else Inr (E_PROTOCOL_ERROR, False)))"

definition openai_reject :: "ustr \<Rightarrow> openai \<Rightarrow> openai" where
  \<comment> \<open>the request is forgotten, with what is pending under its identity\<close>
  "openai_reject k q =
    (let q1 = q\<lparr>oa_context := forget k (oa_context q),
                oa_pending := (if oa_pending q = Some k then None else oa_pending q)\<rparr>
     in case oa_instruction q of
          Some (i, text) \<Rightarrow> if i = k then q1\<lparr>oa_instruction := None, oa_instructions := None\<rparr> else q1
        | None \<Rightarrow> q1)"

definition openai_error :: "ustr \<Rightarrow> dict \<Rightarrow> openai \<Rightarrow> decoded_event res \<times> openai" where
  "openai_error eid v q =
    (case require_object (dget v (u ''error'')) (u ''error'') of
       Inl e \<Rightarrow> (Inl e, q)
     | Inr e \<Rightarrow>
         (let mapped = andthen (openai_map_error e) (\<lambda>(code, retryable).
                Inr (one_event eid (SessionFailed (failed_event code retryable))))
          in case optional_identifier (dget e (u ''event_id'')) of
               Some k \<Rightarrow>
                 if has_key (oa_context q) k
                 then (Inr ((one_event eid (SessionFailed (failed_event E_UNSUPPORTED False)))\<lparr>de_rejected_event_id := Some k\<rparr>),
                       openai_reject k q)
                 else (mapped, q)
             | None \<Rightarrow> (mapped, q)))"

definition openai_output :: "ustr \<Rightarrow> ustr \<Rightarrow> dict \<Rightarrow> decoded_event res" where
  \<comment> \<open>the events about a response\<close>
  "openai_output eid t v =
    (if t \<in> set (map u [''response.output_item.added'', ''response.output_item.done'']) then decode_item eid t v
     else if t \<in> set (map u [''response.content_part.added'', ''response.content_part.done'']) then decode_part eid t v
     else if t \<in> set (map u [''response.output_audio_transcript.delta'', ''response.output_audio_transcript.done''])
     then decode_text eid t ''transcript'' v
     else if t = u ''response.output_audio.delta'' then decode_audio eid v
     else if t = u ''response.output_audio.done'' then decode_audio_done eid v
     else if t = u ''response.function_call_arguments.done'' then decode_call eid v
     else if t = u ''response.done'' then openai_response_done eid v
     else Inr (decoded eid))"

definition openai_dispatch :: "ustr \<Rightarrow> ustr \<Rightarrow> dict \<Rightarrow> openai \<Rightarrow> decoded_event res \<times> openai" where
  "openai_dispatch eid t v q =
    (if t \<in> set (map u [''session.created'', ''session.updated'']) then openai_session_changed eid t v q
     else if t \<in> set (map u [''input_audio_buffer.committed'', ''input_audio_buffer.speech_started'',
          ''input_audio_buffer.speech_stopped'', ''conversation.item.input_audio_transcription.completed''])
     then (openai_input eid t v, q)
     else if t = u ''response.created'' then openai_created eid v q
     else if t = u ''conversation.item.created'' then openai_item_created eid v q
     else if t = u ''error'' then openai_error eid v q
     else (openai_output eid t v, q))"

definition openai_decode :: "json_env \<Rightarrow> ustr \<Rightarrow> openai \<Rightarrow> decoded_event res \<times> openai" where
  \<comment> \<open>\<^verbatim>\<open>decode_server_event\<close>\<close>
  "openai_decode env payload q =
    (case andthen (openai_value env payload) (\<lambda>v.
            andthen (require_string (dget v (u ''type'')) (u ''type'')) (\<lambda>t.
            andthen (id_field v ''event_id'' ''event_id'') (\<lambda>eid. Inr (v, t, eid)))) of
       Inl e \<Rightarrow> (Inl e, q)
     | Inr (v, t, eid) \<Rightarrow> openai_dispatch eid t v q)"

end
