(* ===== verification/OpenAI_Properties.thy ===== *)
theory OpenAI_Properties
  imports OpenAI
begin

text \<open>
  The OpenAI adapter as a transition system: fresh context requests and decoded frames. What a frame does
  to the pending requests is shown for each kind of frame and collected in \<open>settlement\<close>.
\<close>

section \<open>What a frame settles\<close>

definition gone :: "ustr \<Rightarrow> openai \<Rightarrow> openai \<Rightarrow> bool" where
  "gone k q q' \<longleftrightarrow> has_key (oa_context q) k \<and> oa_context q' = forget k (oa_context q)
     \<and> oa_pending q' = (if oa_pending q = Some k then None else oa_pending q)
     \<and> oa_instruction q' = (case oa_instruction q of
                              Some (i, text) \<Rightarrow> if i = k then None else Some (i, text) | None \<Rightarrow> None)
     \<and> oa_tools q' = oa_tools q"

definition settlement :: "openai \<Rightarrow> decoded_event res \<Rightarrow> openai \<Rightarrow> bool" where
  "settlement q r q' \<longleftrightarrow>
     (case r of
        Inl e \<Rightarrow> q' = q
      | Inr d \<Rightarrow>
          (case (de_context_ack_id d, de_rejected_event_id d) of
             (None, None) \<Rightarrow> q' = q
           | (Some k, None) \<Rightarrow> gone k q q'
           | (None, Some k) \<Rightarrow> gone k q q'
           | (Some j, Some k) \<Rightarrow> False))"

definition openai_inv :: "openai \<Rightarrow> bool" where
  "openai_inv q \<longleftrightarrow> distinct (map fst (oa_context q))
     \<and> (\<forall>k. oa_pending q = Some k \<longrightarrow> map_of (oa_context q) k = Some None)
     \<and> (\<forall>i text. oa_instruction q = Some (i, text) \<longrightarrow> map_of (oa_context q) i = Some None \<and> oa_pending q \<noteq> Some i)
     \<and> (\<forall>k e. (k, Some e) \<in> set (oa_context q) \<longrightarrow> (\<exists>ro tx. e = message_item k ro tx))"

lemma settlement_pure: "(\<And>d. r = Inr d \<Longrightarrow> no_context d) \<Longrightarrow> settlement q r q"
  by (auto simp: settlement_def no_context_def split: sum.split)

lemma no_context_plain [simp]:
  "no_context (one_event eid e)" "no_context ((decoded eid)\<lparr>de_events := es\<rparr>)"
  "no_context ((decoded eid)\<lparr>de_provider_ready := a, de_session_acknowledged := b, de_tools_acknowledged := c\<rparr>)"
  by (simp_all add: no_context_def one_event_def decoded_def)

lemma has_keyI: "map_of ctx k = Some e \<Longrightarrow> has_key ctx k"
  by (simp add: has_key_iff)

lemma map_of_forget: "map_of (forget k ctx) i = (if i = k then None else map_of ctx i)"
  by (induction ctx) (auto simp: forget_def)

lemma has_key_forget [simp]: "has_key (forget k ctx) i \<longleftrightarrow> has_key ctx i \<and> i \<noteq> k"
  by (auto simp: has_key_iff map_of_forget)

lemma session_changed_settles: "openai_inv q \<Longrightarrow> openai_session_changed eid t v q = (r, q') \<Longrightarrow> settlement q r q'"
  by (auto simp: openai_session_changed_def Let_def result_simps gone_def settlement_def openai_inv_def
      decoded_def intro: has_keyI split: option.splits sum.splits if_splits prod.splits)

lemma created_settles: "openai_inv q \<Longrightarrow> openai_created eid v q = (r, q') \<Longrightarrow> settlement q r q'"
  by (auto simp: openai_created_def openai_inv_def settlement_def gone_def dest: decode_scoped(8) intro: has_keyI
      split: sum.splits option.splits prod.splits)

lemma ack_settles:
  assumes "openai_inv q" "map_of (oa_context q) k = Some (Some fs)"
  shows "gone k q (q\<lparr>oa_context := forget k (oa_context q)\<rparr>)"
proof -
  have "oa_pending q \<noteq> Some k" "\<And>text. oa_instruction q \<noteq> Some (k, text)"
    using assms by (auto simp: openai_inv_def)
  then show ?thesis
    using assms(2) by (auto simp: gone_def intro: has_keyI split: option.split)
qed

lemma item_created_settles:
  assumes "openai_inv q" "openai_item_created eid v q = (r, q')"
  shows "settlement q r q'"
proof -
  have ack: "settlement q (Inr ((decoded eid)\<lparr>de_context_ack_id := Some k\<rparr>)) (q\<lparr>oa_context := forget k (oa_context q)\<rparr>)"
    if "map_of (oa_context q) k = Some expected" "matches_item item expected" for k expected item
    using ack_settles [OF assms(1)] that by (cases expected) (simp_all add: settlement_def matches_item_def decoded_def)
  have tool: "settlement q (decode_tool_ack eid item) q" for item
    by (rule settlement_pure) (simp add: decode_scoped(7))
  have err: "settlement q (Inl e) q" for e
    by (simp add: settlement_def)
  show ?thesis
    using assms(2) ack tool err
    by (auto simp: openai_item_created_def split: sum.splits option.splits if_splits)
qed

lemma error_settles: "openai_inv q \<Longrightarrow> openai_error eid v q = (r, q') \<Longrightarrow> settlement q r q'"
  by (auto simp: openai_error_def openai_reject_def Let_def settlement_def gone_def one_event_def decoded_def result_simps
      split: sum.splits option.splits prod.splits if_splits)

lemma pure_none:
  "openai_input eid t v = Inr d \<Longrightarrow> no_context d" "openai_response_done eid v = Inr d \<Longrightarrow> no_context d"
  "openai_output eid t v = Inr d \<Longrightarrow> no_context d"
proof -
  show "openai_input eid t v = Inr d \<Longrightarrow> no_context d"
    by (auto simp: openai_input_def result_simps split: if_splits)
  show dn: "openai_response_done eid v = Inr d \<Longrightarrow> no_context d" for d
    by (auto simp: openai_response_done_def result_simps split: if_splits)
  show "openai_output eid t v = Inr d \<Longrightarrow> no_context d"
    by (auto simp: openai_output_def split: if_splits dest: dn decode_none)
qed

lemma decode_settles:
  assumes "openai_inv q" "openai_decode env payload q = (r, q')"
  shows "settlement q r q'"
proof -
  have "settlement q r q'" if "openai_dispatch eid t v q = (r, q')" for eid t v
    using that unfolding openai_dispatch_def
    by (auto split: if_splits intro: settlement_pure
        dest: pure_none session_changed_settles [OF assms(1)] created_settles [OF assms(1)]
          item_created_settles [OF assms(1)] error_settles [OF assms(1)])
  then show ?thesis
    using assms(2) by (auto simp: openai_decode_def settlement_def split: sum.splits prod.splits)
qed

section \<open>The adapter as a transition system\<close>

inductive openai_step :: "openai \<Rightarrow> openai \<Rightarrow> bool" where
  openai_frame: "openai_decode env payload q = (r, q') \<Longrightarrow> openai_step q q'"
| openai_message: "\<not> has_key (oa_context q) eid \<Longrightarrow> openai_append_message eid tx ro q = (ev, q') \<Longrightarrow> openai_step q q'"
| openai_instruct: "\<not> has_key (oa_context q) eid \<Longrightarrow> openai_update_instructions eid tx q = (ev, q') \<Longrightarrow> openai_step q q'"
| openai_respond: "\<not> has_key (oa_context q) eid \<Longrightarrow> openai_out_of_band eid tx q = (ev, q') \<Longrightarrow> openai_step q q'"
| openai_open: "openai_session_update env eid rq q = (r, q') \<Longrightarrow> openai_step q q'"

definition openai_start :: "openai \<Rightarrow> bool" where
  "openai_start q \<longleftrightarrow> openai_init False = Inr q"

lemma gone_inv:
  assumes "gone k q q'" "openai_inv q"
  shows "openai_inv q'"
proof -
  have "distinct (map fst (oa_context q'))"
    using assms by (simp add: gone_def openai_inv_def forget_def distinct_map_filter)
  moreover have "(k', Some e) \<in> set (oa_context q)" if "(k', Some e) \<in> set (oa_context q')" for k' e
    using that assms(1) by (auto simp: gone_def forget_def)
  ultimately show ?thesis
    using assms by (auto simp: gone_def openai_inv_def map_of_forget split: if_splits option.splits)
qed

lemma fresh_update: "\<not> has_key ctx k \<Longrightarrow> AList.update k e ctx = ctx @ [(k, e)]"
  by (induction ctx) (auto simp: has_key_def)

lemma fresh_inv:
  assumes "openai_inv q" "\<not> has_key (oa_context q) k" "oa_context q' = oa_context q @ [(k, e)]"
    and "\<And>m. e = Some m \<Longrightarrow> \<exists>ro tx. m = message_item k ro tx"
    and "oa_pending q' = oa_pending q \<or> oa_pending q' = Some k \<and> e = None \<and> oa_instruction q' = oa_instruction q"
    and "oa_instruction q' = oa_instruction q \<or> oa_pending q' = oa_pending q \<and> e = None \<and> (\<exists>text. oa_instruction q' = Some (k, text))"
  shows "openai_inv q'"
proof -
  have new: "map_of (oa_context q) k = None" "k \<notin> fst ` set (oa_context q)"
    using assms(2) by (auto simp: has_key_iff map_of_eq_None_iff)
  have lookup: "map_of (oa_context q') i = (if i = k then Some e else map_of (oa_context q) i)" for i
    using new(1) assms(3) by (auto simp: map_add_def split: option.split)
  have "distinct (map fst (oa_context q'))"
    using assms(1,3) new(2) by (simp add: openai_inv_def)
  moreover have q: "map_of (oa_context q) i = Some None \<and> i \<noteq> k" if "oa_pending q = Some i" for i
    using assms(1) that new(1) by (metis openai_inv_def option.distinct(1))
  moreover have r: "map_of (oa_context q) i = Some None \<and> i \<noteq> k \<and> oa_pending q \<noteq> Some i"
    if "oa_instruction q = Some (i, tx)" for i tx
    using assms(1) that new(1) by (metis openai_inv_def option.distinct(1))
  moreover have "\<exists>ro tx. m = message_item j ro tx" if "(j, Some m) \<in> set (oa_context q')" for j m
    using that assms(1,3,4) by (auto simp: openai_inv_def)
  ultimately show ?thesis
    using assms(5,6) unfolding openai_inv_def lookup by (auto simp del: map_of_eq_Some_iff dest: q [OF sym] r [OF sym]; metis r)
qed

lemma openai_step_inv:
  assumes "openai_step q q'" "openai_inv q"
  shows "openai_inv q'"
  using assms
proof cases
  case (openai_frame env payload r)
  then have "settlement q r q'"
    using decode_settles [OF assms(2)] by blast
  then have "q' = q \<or> (\<exists>k. gone k q q')"
    by (auto simp: settlement_def split: sum.splits option.splits prod.splits)
  then show ?thesis
    using gone_inv assms(2) by blast
next
  case (openai_message eid tx ro ev)
  then show ?thesis
    by (intro fresh_inv [OF assms(2), of eid q' "Some (message_item eid ro tx)"])
       (auto simp: openai_append_message_def fresh_update)
next
  case (openai_instruct eid tx ev)
  then show ?thesis
    by (intro fresh_inv [OF assms(2), of eid q' None])
       (auto simp: openai_update_instructions_def fresh_update)
next
  case (openai_respond eid tx ev)
  then show ?thesis
    by (intro fresh_inv [OF assms(2), of eid q' None]) (auto simp: openai_out_of_band_def fresh_update)
next
  case (openai_open env eid rq r)
  then show ?thesis
    using assms(2) by (auto simp: openai_session_update_def openai_inv_def split: sum.splits)
qed

interpretation openai: invariant_system openai_start openai_step openai_inv
proof unfold_locales
  show "openai_inv q" if "openai_start q" for q
    using that by (auto simp: openai_start_def openai_init_def openai_inv_def)
  show "openai_inv q'" if "openai_inv q" "openai_step q q'" for q q'
    using that by (rule openai_step_inv [rotated])
qed


section \<open>Properties\<close>

text \<open>
  C24. In every reachable state of the OpenAI adapter, a frame settles at most one context request: the one
  it acknowledges or rejects was pending and is not any more, the others stay as they are, and nothing is
  ever both acknowledged and rejected. A frame that is refused changes nothing at all.
\<close>

theorem openai_settles_once:
  assumes "reach openai_start openai_step q" "openai_decode env payload q = (r, q')"
  shows "case r of
      Inl e \<Rightarrow> q' = q
    | Inr d \<Rightarrow> (\<forall>k. de_context_ack_id d = Some k \<or> de_rejected_event_id d = Some k \<longrightarrow>
          has_key (oa_context q) k \<and> \<not> has_key (oa_context q') k \<and> oa_pending q' \<noteq> Some k
          \<and> (\<forall>i. i \<noteq> k \<longrightarrow> map_of (oa_context q') i = map_of (oa_context q) i))
        \<and> (de_context_ack_id d = None \<or> de_rejected_event_id d = None)
        \<and> (de_context_ack_id d = None \<and> de_rejected_event_id d = None \<longrightarrow> q' = q)"
proof -
  have "settlement q r q'"
    using decode_settles [OF openai.inv_reach [OF assms(1)] assms(2)] .
  then show ?thesis
    by (auto simp: settlement_def gone_def map_of_forget split: sum.splits option.splits)
qed

lemma settled_message:
  assumes "openai_inv q" "openai_dispatch eid t v q = (Inr d, q')" "de_context_ack_id d = Some k"
    and "map_of (oa_context q) k = Some (Some fs)"
  shows "t = u ''conversation.item.created'' \<and> (\<exists>item. dget v (u ''item'') = VDict item
    \<and> dget item (u ''id'') = VStr k \<and> matches_item item (Some fs))"
proof -
  have "\<not> no_context d"
    using assms(3) by (simp add: no_context_def)
  then have "(if t \<in> set (map u [''session.created'', ''session.updated'']) then openai_session_changed eid t v q
      else if t = u ''response.created'' then openai_created eid v q
      else if t = u ''conversation.item.created'' then openai_item_created eid v q
      else openai_error eid v q) = (Inr d, q')"
    using assms(2) pure_none unfolding openai_dispatch_def by (auto split: if_splits)
  moreover have "openai_session_changed eid t v q \<noteq> (Inr d, q')"
    using assms(1,3,4) by (auto simp: openai_session_changed_def openai_inv_def Let_def result_simps decoded_def
        split: option.splits sum.splits if_splits prod.splits)
  moreover have "openai_created eid v q \<noteq> (Inr d, q')"
  proof -
    have "de_context_ack_id e \<noteq> Some k" if "decode_created eid (oa_pending q) v = Inr e" for e
      using decode_scoped(8) [OF that] assms(1,4) by (auto simp: openai_inv_def)
    then show ?thesis
      using assms(3) by (auto simp: openai_created_def split: sum.splits)
  qed
  moreover have "openai_error eid v q \<noteq> (Inr d, q')"
    using assms(3) by (auto simp: openai_error_def Let_def result_simps one_event_def decoded_def
        split: option.splits sum.splits if_splits prod.splits)
  ultimately have t: "t = u ''conversation.item.created''" "openai_item_created eid v q = (Inr d, q')"
    by (simp_all split: if_splits)
  then obtain item where item: "dget v (u ''item'') = VDict item" "optional_identifier (dget item (u ''id'')) = Some k"
      "matches_item item (Some fs)"
    using assms(3,4) decode_scoped(7)
    by (fastforce simp: openai_item_created_def no_context_def decoded_def require_object_def
        split: sum.splits option.splits if_splits pyval.splits)
  then show ?thesis
    using t(1) by (auto simp: optional_identifier_def split: pyval.splits if_splits)
qed

text \<open>
  A message of the product is only acknowledged by a frame for a created item with the message's own
  identity that is completed and carries the type, the role and the content that were sent.
\<close>

lemma openai_acknowledges_message:
  assumes "reach openai_start openai_step q" "openai_decode env payload q = (Inr d, q')"
    and "de_context_ack_id d = Some k" "map_of (oa_context q) k = Some (Some fs)"
  shows "\<exists>v item ro tx. openai_value env payload = Inr v \<and> dget v (u ''type'') = vs ''conversation.item.created''
    \<and> dget v (u ''item'') = VDict item \<and> dget item (u ''id'') = VStr k \<and> fs = message_item k ro tx
    \<and> py_eq (dget item (u ''status'')) (vs ''completed'') \<and> py_eq (dget item (u ''type'')) (vs ''message'')
    \<and> py_eq (dget item (u ''role'')) (vs ro)
    \<and> py_eq (dget item (u ''content'')) (VList [VDict [(u ''type'', vs ''input_text''), (u ''text'', VStr tx)]])"
proof -
  have inv: "openai_inv q"
    by (rule openai.inv_reach [OF assms(1)])
  obtain v t eid where v: "openai_value env payload = Inr v" "require_string (dget v (u ''type'')) (u ''type'') = Inr t"
      "openai_dispatch eid t v q = (Inr d, q')"
    using assms(2) by (auto simp: openai_decode_def result_simps split: sum.splits prod.splits)
  obtain item where item: "t = u ''conversation.item.created''" "dget v (u ''item'') = VDict item"
      "dget item (u ''id'') = VStr k" "matches_item item (Some fs)"
    using settled_message [OF inv v(3) assms(3,4)] by blast
  obtain ro tx where fs: "fs = message_item k ro tx"
    using inv map_of_SomeD [OF assms(4)] unfolding openai_inv_def by meson
  have "dget v (u ''type'') = VStr t"
    using v(2) by (auto simp: require_simps)
  then show ?thesis
    using v(1) item fs by (auto simp: matches_item_def message_item_def)
qed


section \<open>An example\<close>

definition fresh_openai :: openai where
  "fresh_openai = \<lparr>oa_tools = VList [], oa_context = [], oa_pending = None, oa_instruction = None, oa_instructions = None\<rparr>"

definition waiting_openai :: openai where
  \<comment> \<open>a message was sent\<close>
  "waiting_openai = snd (openai_append_message (u ''event_m'') (u ''hi'') ''user'' fresh_openai)"

lemma waiting_reached: "reach openai_start openai_step waiting_openai"
proof -
  have "reach openai_start openai_step fresh_openai"
    by (rule reach_start) (simp add: openai_start_def openai_init_def fresh_openai_def)
  moreover have "openai_step fresh_openai waiting_openai"
    unfolding waiting_openai_def
    by (rule openai_message [where eid = "u ''event_m''" and tx = "u ''hi''" and ro = "''user''"
          and ev = "fst (openai_append_message (u ''event_m'') (u ''hi'') ''user'' fresh_openai)"])
       (simp_all add: fresh_openai_def has_key_def)
  ultimately show ?thesis
    by (rule reach_step)
qed

definition created_frame :: dict where
  "created_frame = [(u ''type'', vs ''conversation.item.created''), (u ''event_id'', vs ''event_1''),
     (u ''item'', VDict ((u ''status'', vs ''completed'') # message_item (u ''event_m'') ''user'' (u ''hi'')))]"

lemma created_payload: "\<exists>payload. openai_value example_env payload = Inr created_frame"
proof -
  have "case dumps example_env wire_style (VDict created_frame) of
      Inr t \<Rightarrow> encodable t \<and> utf8_len t \<le> 1048576 | Inl e \<Rightarrow> False"
    by code_simp
  then obtain t where t: "dumps example_env wire_style (VDict created_frame) = Inr t" "encodable t" "utf8_len t \<le> 1048576"
    by (auto split: sum.splits)
  have ty: "openai_event_type created_frame = Inr (u ''conversation.item.created'')"
      "u ''conversation.item.created'' \<in> set (map u OPENAI_SERVER_EVENTS)"
      "\<not> py_eq (dget created_frame (u ''type'')) (vs ''response.output_audio.delta'')"
    by code_simp+
  have "writable True (VDict created_frame)" "written False (VDict created_frame) = VDict created_frame"
    by (simp_all add: created_frame_def message_item_def)
  then have "strict_json_object example_env t = Inr created_frame"
    by (intro strict_object_of_dumps [OF styles_ok(2) t(1)]) (simp_all add: wire_style_def)
  then have "openai_value example_env t = Inr created_frame"
    using t(2,3) ty by (simp add: openai_value_def wire_value_def encode_utf8_def check_def)
  then show ?thesis ..
qed

lemma waiting_acked:
  assumes "openai_value example_env payload = Inr created_frame"
  shows "\<exists>d q'. openai_decode example_env payload waiting_openai = (Inr d, q') \<and> de_context_ack_id d = Some (u ''event_m'')"
proof -
  have "require_string (dget created_frame (u ''type'')) (u ''type'') = Inr (u ''conversation.item.created'')"
      "id_field created_frame ''event_id'' ''event_id'' = Inr (u ''event_1'')"
    by code_simp+
  then have "openai_decode example_env payload waiting_openai
      = openai_dispatch (u ''event_1'') (u ''conversation.item.created'') created_frame waiting_openai"
    using assms by (simp add: openai_decode_def)
  moreover have "case openai_dispatch (u ''event_1'') (u ''conversation.item.created'') created_frame waiting_openai of
      (Inr d, q') \<Rightarrow> de_context_ack_id d = Some (u ''event_m'') | (Inl e, q') \<Rightarrow> False"
    by code_simp
  ultimately show ?thesis
    by (auto split: prod.splits sum.splits)
qed

theorem openai_settles_once_witness:
  "\<exists>payload d q'. openai_decode example_env payload waiting_openai = (Inr d, q')
     \<and> de_context_ack_id d = Some (u ''event_m'') \<and> \<not> has_key (oa_context q') (u ''event_m'')"
proof -
  obtain payload where "openai_value example_env payload = Inr created_frame"
    using created_payload by blast
  then obtain d q' where d: "openai_decode example_env payload waiting_openai = (Inr d, q')"
      "de_context_ack_id d = Some (u ''event_m'')"
    using waiting_acked by blast
  then show ?thesis
    using openai_settles_once [OF waiting_reached d(1)] by auto
qed

end
