(* ===== verification/Local.thy ===== *)
theory Local
  imports Adapter_Events "HOL-Library.While_Combinator"
begin

text \<open>
  \<^verbatim>\<open>realtime/local.py\<close>: the JSON messages of the local control protocol, the binary PCM frames with their
  24-byte big-endian header, the window of sequence numbers, and the local variants of the domain events.
  A loop whose end is not structural is a \<open>while_option\<close>, so that not returning would be the value \<open>None\<close>.
\<close>

section \<open>Messages\<close>

definition LOCAL_PROTOCOL_VERSION :: ustr where
  "LOCAL_PROTOCOL_VERSION = u ''2026-08-27.1''"

definition MESSAGE_FIELDS :: "(ustr \<times> ustr list) list" where
  "MESSAGE_FIELDS = map (\<lambda>(t, fs). (u t, map u fs))
     [(''local.auth'', [''type'', ''version'', ''secret'']),
      (''local.hello'', [''type'', ''version'', ''generation'', ''correlation'']),
      (''call.start'', [''type'', ''generation'', ''instructions'', ''required_features'']),
      (''call.ready'', [''type'', ''generation'', ''correlation'', ''input_audio'', ''output_audio'']),
      (''call.barge_in'', [''type'', ''generation'']),
      (''call.stop'', [''type'', ''generation'', ''reason'']),
      (''call.state'', [''type'', ''generation'', ''state'']),
      (''call.event'', [''type'', ''generation'', ''event'']),
      (''call.audio_ack'', [''type'', ''generation'', ''direction'', ''highest_contiguous_sequence'']),
      (''call.error'', [''type'', ''generation'', ''code'', ''retryable'']),
      (''call.closed'', [''type'', ''generation'', ''reason''])]"

definition message_type :: "error_code \<Rightarrow> dict \<Rightarrow> (ustr \<times> ustr list) res" where
  \<comment> \<open>the type of a message with the fields the table gives for it; the code is the one of the exception\<close>
  "message_type code v =
    (case dget v (u ''type'') of
       VStr t \<Rightarrow> (case map_of MESSAGE_FIELDS t of
                  None \<Rightarrow> Inl (rt_error code ''unknown local message'') | Some fs \<Rightarrow> Inr (t, fs))
     | _ \<Rightarrow> Inl (rt_error code ''unknown local message''))"

definition allowed_fields :: "error_code \<Rightarrow> ustr \<Rightarrow> ustr list \<Rightarrow> dict \<Rightarrow> ustr list res" where
  \<comment> \<open>an acknowledgement may carry the position of the playback\<close>
  "allowed_fields code t fs v =
    (if t = u ''call.audio_ack'' \<and> has_key v (u ''played_audio_ms'') then
       (if py_eq (dget v (u ''direction'')) (vs ''output'')
           \<and> (case dget v (u ''played_audio_ms'') of VInt p \<Rightarrow> 0 \<le> p | _ \<Rightarrow> False)
        then Inr (u ''played_audio_ms'' # fs) else Inl (rt_error code ''invalid playback position''))
     else Inr fs)"

definition checked_fields :: "error_code \<Rightarrow> dict \<Rightarrow> ustr res" where
  \<comment> \<open>what \<^verbatim>\<open>decode_local_message\<close> and \<^verbatim>\<open>encode_local_message\<close> both check\<close>
  "checked_fields code v =
    andthen (message_type code v) (\<lambda>(t, fs).
    andthen (allowed_fields code t fs v) (\<lambda>allowed.
    andthen (check (key_set_is v allowed) (rt_error code ''local fields do not match'')) (\<lambda>_. Inr t)))"

definition generation_ok :: "dict \<Rightarrow> bool" where
  "generation_ok v \<longleftrightarrow> has_key v (u ''generation'') \<longrightarrow>
     (case dget v (u ''generation'') of VInt g \<Rightarrow> 0 < g | _ \<Rightarrow> False)"

definition version_ok :: "ustr \<Rightarrow> dict \<Rightarrow> bool" where
  "version_ok t v \<longleftrightarrow> starts_with t (u ''local.'') \<longrightarrow>
     py_eq (dget v (u ''version'')) (VStr LOCAL_PROTOCOL_VERSION)"

definition decode_local_message :: "json_env \<Rightarrow> ustr \<Rightarrow> dict res" where
  "decode_local_message env payload =
    andthen (strict_json_object env payload) (\<lambda>v.
    andthen (checked_fields E_PROTOCOL_ERROR v) (\<lambda>t.
    andthen (check (generation_ok v) (protocol_error ''invalid generation'')) (\<lambda>_.
    andthen (check (version_ok t v) (protocol_error ''local version mismatch'')) (\<lambda>_. Inr v))))"

definition encode_local_message :: "json_env \<Rightarrow> dict \<Rightarrow> ustr res" where
  "encode_local_message env v =
    andthen (checked_fields E_INVALID_REQUEST v) (\<lambda>_. dumps env compact_nan (VDict v))"

section \<open>PCM frames\<close>

datatype audio_direction = DIR_INPUT | DIR_OUTPUT

fun direction_value :: "audio_direction \<Rightarrow> nat" where
  "direction_value DIR_INPUT = 1"
| "direction_value DIR_OUTPUT = 2"

definition direction_of :: "nat \<Rightarrow> audio_direction option" where
  \<comment> \<open>\<^verbatim>\<open>AudioDirection(n)\<close>, \<open>None\<close> for the ValueError\<close>
  "direction_of n = (if n = 1 then Some DIR_INPUT else if n = 2 then Some DIR_OUTPUT else None)"

record pcm_frame =
  pf_direction :: audio_direction
  pf_generation :: int
  pf_sequence :: int
  pf_payload :: bytes

definition PCM_MAGIC :: bytes where
  "PCM_MAGIC = [83, 72, 82, 84]"

definition PCM_LIMIT :: "audio_direction \<Rightarrow> nat" where
  "PCM_LIMIT d = (if d = DIR_INPUT then 65536 else 262144)"

fun big_endian :: "nat \<Rightarrow> nat \<Rightarrow> bytes" where
  \<comment> \<open>the lowest bytes of a number, the most significant first\<close>
  "big_endian 0 x = []"
| "big_endian (Suc n) x = big_endian n (x div 256) @ [word_of_nat x]"

definition big_value :: "bytes \<Rightarrow> nat" where
  "big_value bs = foldl (\<lambda>a b. 256 * a + unat b) 0 bs"

definition pack_uint :: "nat \<Rightarrow> int \<Rightarrow> bytes res" where
  \<comment> \<open>an unsigned field of \<^verbatim>\<open>struct.pack\<close>\<close>
  "pack_uint n i =
    (if 0 \<le> i \<and> i < 256 ^ n then Inr (big_endian n (nat i)) else Inl (OtherErr ''struct.error''))"

definition pack_header :: "nat \<Rightarrow> nat \<Rightarrow> int \<Rightarrow> int \<Rightarrow> nat \<Rightarrow> bytes res" where
  \<comment> \<open>\<^verbatim>\<open>PCM_HEADER.pack\<close> of the format \<^verbatim>\<open>!4sBBHIQI\<close> with version, direction, generation, sequence and size (the last argument)\<close>
  "pack_header version direction generation sequence n =
    andthen (pack_uint 1 (int version)) (\<lambda>v.
    andthen (pack_uint 1 (int direction)) (\<lambda>d.
    andthen (pack_uint 2 0) (\<lambda>z.
    andthen (pack_uint 4 generation) (\<lambda>g.
    andthen (pack_uint 8 sequence) (\<lambda>s.
    andthen (pack_uint 4 (int n)) (\<lambda>l.
      Inr (PCM_MAGIC @ v @ d @ z @ g @ s @ l)))))))"

definition encode_pcm_frame :: "pcm_frame \<Rightarrow> bytes res" where
  "encode_pcm_frame f =
    (if pf_generation f \<le> 0 \<or> pf_sequence f \<le> 0 then Inl (rt_error E_INVALID_REQUEST ''invalid PCM identity'')
     else if length (pf_payload f) = 0 \<or> length (pf_payload f) mod 2 \<noteq> 0
     then Inl (rt_error E_INVALID_REQUEST ''PCM must contain whole samples'')
     else if PCM_LIMIT (pf_direction f) < length (pf_payload f)
     then Inl (rt_error E_INVALID_REQUEST ''PCM frame is too large'')
     else andthen (pack_header 1 (direction_value (pf_direction f)) (pf_generation f) (pf_sequence f)
                     (length (pf_payload f)))
            (\<lambda>header. Inr (header @ pf_payload f)))"

definition field_bytes :: "nat \<Rightarrow> nat \<Rightarrow> bytes \<Rightarrow> bytes" where
  \<comment> \<open>a field of the header, by its offset and its size\<close>
  "field_bytes i n bs = take n (drop i bs)"

definition decode_pcm_frame :: "bytes \<Rightarrow> pcm_frame res" where
  "decode_pcm_frame payload =
    (if length payload < 24 then Inl (protocol_error ''PCM header is truncated'')
     else if field_bytes 0 4 payload \<noteq> PCM_MAGIC \<or> big_value (field_bytes 4 1 payload) \<noteq> 1
        \<or> big_value (field_bytes 6 2 payload) \<noteq> 0
     then Inl (protocol_error ''invalid PCM header'')
     else
       (case direction_of (big_value (field_bytes 5 1 payload)) of
          None \<Rightarrow> Inl (protocol_error ''invalid PCM direction'')
        | Some direction \<Rightarrow>
            (let generation = big_value (field_bytes 8 4 payload); sequence = big_value (field_bytes 12 8 payload);
                 n = big_value (field_bytes 20 4 payload); body = drop 24 payload
             in if n \<noteq> length body then Inl (protocol_error ''PCM length mismatch'')
                else if generation = 0 \<or> sequence = 0 \<or> length body = 0 \<or> length body mod 2 \<noteq> 0
                then Inl (protocol_error ''invalid PCM frame'')
                else if PCM_LIMIT direction < length body then Inl (protocol_error ''PCM frame is too large'')
                else Inr \<lparr>pf_direction = direction, pf_generation = int generation,
                        pf_sequence = int sequence, pf_payload = body\<rparr>)))"

section \<open>The window of sequence numbers\<close>

record seq_window =
  sw_generation :: int
  sw_direction :: audio_direction
  sw_window :: int
  sw_highest :: int
  sw_pending :: "int list" \<comment> \<open>the set \<^verbatim>\<open>_pending\<close>\<close>

definition seq_window_init :: "int \<Rightarrow> audio_direction \<Rightarrow> int \<Rightarrow> seq_window" where
  "seq_window_init g d n =
     \<lparr>sw_generation = g, sw_direction = d, sw_window = n, sw_highest = 0, sw_pending = []\<rparr>"

definition advance :: "int list \<times> int \<Rightarrow> (int list \<times> int) option" where
  \<comment> \<open>the \<^verbatim>\<open>while\<close> loop of \<^verbatim>\<open>accept\<close>\<close>
  "advance = while_option (\<lambda>(p, h). h + 1 \<in> set p) (\<lambda>(p, h). (remove1 (h + 1) p, h + 1))"

definition window_accept :: "seq_window \<Rightarrow> pcm_frame \<Rightarrow> (bool res \<times> seq_window) option" where
  \<comment> \<open>\<^verbatim>\<open>SequenceWindow.accept\<close>\<close>
  "window_accept w f =
    (if pf_generation f \<noteq> sw_generation w then Some (Inr False, w)
     else if pf_direction f \<noteq> sw_direction w then Some (Inl (protocol_error ''wrong PCM direction''), w)
     else if pf_sequence f \<le> sw_highest w \<or> pf_sequence f \<in> set (sw_pending w) then Some (Inr False, w)
     else if sw_highest w + sw_window w < pf_sequence f then Some (Inl (protocol_error ''PCM sequence gap''), w)
     else map_option (\<lambda>(p, h). (Inr True, w\<lparr>sw_pending := p, sw_highest := h\<rparr>))
            (advance (sw_pending w @ [pf_sequence f], sw_highest w)))"

section \<open>Domain events\<close>

definition part_value :: "string \<Rightarrow> ustr \<Rightarrow> ustr \<Rightarrow> int \<Rightarrow> int \<Rightarrow> dict" where
  "part_value kind r i oi ci =
     [(u ''kind'', vs kind), (u ''response_id'', VStr r), (u ''item_id'', VStr i),
      (u ''output_index'', VInt oi), (u ''content_index'', VInt ci)]"

fun domain_event_value :: "rt_event \<Rightarrow> dict res" where
  "domain_event_value (SpeechStarted t) = Inr [(u ''kind'', vs ''SpeechStarted''), (u ''turn_id'', VStr t)]"
| "domain_event_value (SpeechStopped t) = Inr [(u ''kind'', vs ''SpeechStopped''), (u ''turn_id'', VStr t)]"
| "domain_event_value (TranscriptDelta t s) =
     Inr [(u ''kind'', vs ''TranscriptDelta''), (u ''turn_id'', VStr t), (u ''text'', VStr s)]"
| "domain_event_value (TranscriptCompleted t s) =
     Inr [(u ''kind'', vs ''TranscriptCompleted''), (u ''turn_id'', VStr t), (u ''text'', VStr s)]"
| "domain_event_value (ResponseStarted t r) =
     Inr [(u ''kind'', vs ''ResponseStarted''), (u ''turn_id'', VStr t), (u ''response_id'', VStr r)]"
| "domain_event_value (OutputText r i oi ci s d) =
     Inr (part_value ''OutputText'' r i oi ci @ [(u ''text'', VStr s), (u ''is_delta'', VBool d)])"
| "domain_event_value (OutputAudioStarted r i oi ci) = Inr (part_value ''OutputAudioStarted'' r i oi ci)"
| "domain_event_value (OutputAudioCompleted r i oi ci) = Inr (part_value ''OutputAudioCompleted'' r i oi ci)"
| "domain_event_value (ToolCallRequested r c n a g) =
     Inr [(u ''kind'', vs ''ToolCallRequested''), (u ''response_id'', VStr r), (u ''call_id'', VStr c),
          (u ''name'', VStr n), (u ''arguments_json'', VStr a)]"
| "domain_event_value (ResponseFinished r s x l) =
     Inr [(u ''kind'', vs ''ResponseFinished''), (u ''response_id'', VStr r),
          (u ''status'', vs (status_name s)), (u ''local'', VBool l)]"
| "domain_event_value (SessionExpiring n) =
     Inr [(u ''kind'', vs ''SessionExpiring''), (u ''remaining_ms'', VInt n)]"
| "domain_event_value _ = Inl (rt_error E_INVALID_REQUEST ''event is not a local call.event variant'')"

definition encode_domain_event :: "json_env \<Rightarrow> int \<Rightarrow> rt_event \<Rightarrow> ustr res" where
  "encode_domain_event env g e =
    (if g \<le> 0 then Inl (rt_error E_INVALID_REQUEST ''invalid generation'')
     else andthen (domain_event_value e) (\<lambda>d.
       encode_local_message env
         [(u ''type'', vs ''call.event''), (u ''generation'', VInt g), (u ''event'', VDict d)]))"

end
