(* ===== verification/Local_Properties.thy ===== *)
theory Local_Properties
  imports Local
begin

text \<open>
  The properties of the local protocol: messages and events that are written can be read back, a PCM frame
  is accepted exactly when it is the encoding of a frame, and the window of sequence numbers implements
  the set of the sequences it has accepted.
\<close>

section \<open>Big-endian fields\<close>

lemma length_big_endian [simp]: "length (big_endian n x) = n"
  by (induction n x rule: big_endian.induct) simp_all

lemma big_value_snoc: "big_value (bs @ [b]) = 256 * big_value bs + unat b"
  by (simp add: big_value_def)

lemma big_value_big_endian: "big_value (big_endian n x) = x mod 256 ^ n"
proof (induction n x rule: big_endian.induct)
  case (2 n x)
  have "x mod (256 * 256 ^ n) = 256 * (x div 256 mod 256 ^ n) + x mod 256"
    by (rule mod_mult2_eq)
  then show ?case
    using 2 by (simp add: big_value_snoc unat_of_nat)
qed (simp add: big_value_def)

lemma big_endian_big_value: "big_endian (length bs) (big_value bs) = bs"
proof (induction bs rule: rev_induct)
  case (snoc b bs)
  have "unat b < 256"
    using unsigned_less [of b, where ?'a = nat] by simp
  then have "(256 * big_value bs + unat b) div 256 = big_value bs"
    by simp
  moreover have "word_of_nat (256 * big_value bs + unat b) = b"
    unfolding word_unat_eq_iff unat_of_nat using \<open>unat b < 256\<close> by simp
  ultimately show ?case
    using snoc by (simp add: big_value_snoc)
qed simp

lemma big_value_less: "big_value bs < 256 ^ length bs"
proof -
  have "big_value bs = big_value bs mod 256 ^ length bs"
    using big_value_big_endian [of "length bs" "big_value bs"] by (simp add: big_endian_big_value)
  then show ?thesis
    by (metis mod_less_divisor zero_less_numeral zero_less_power)
qed

lemma pack_uint_Inr: "pack_uint n i = Inr bs \<longleftrightarrow> 0 \<le> i \<and> i < 256 ^ n \<and> bs = big_endian n (nat i)"
  by (auto simp: pack_uint_def)

lemma direction_of_value [simp]: "direction_of (direction_value d) = Some d"
  by (cases d) (simp_all add: direction_of_def)

lemma direction_of_Some: "direction_of n = Some d \<longleftrightarrow> n = direction_value d"
  by (cases d) (auto simp: direction_of_def)

lemma direction_value_less: "direction_value d < 256"
  by (cases d) simp_all

section \<open>PCM frames\<close>

definition frame_bytes :: "pcm_frame \<Rightarrow> bytes" where
  "frame_bytes f = PCM_MAGIC @ big_endian 1 1 @ big_endian 1 (direction_value (pf_direction f)) @ big_endian 2 0
     @ big_endian 4 (nat (pf_generation f)) @ big_endian 8 (nat (pf_sequence f))
     @ big_endian 4 (length (pf_payload f)) @ pf_payload f"

definition frame_valid :: "pcm_frame \<Rightarrow> bool" where
  "frame_valid f \<longleftrightarrow> 0 < pf_generation f \<and> pf_generation f < 256 ^ 4 \<and> 0 < pf_sequence f \<and> pf_sequence f < 256 ^ 8
     \<and> pf_payload f \<noteq> [] \<and> even (length (pf_payload f)) \<and> length (pf_payload f) \<le> PCM_LIMIT (pf_direction f)"

lemma PCM_LIMIT_less: "PCM_LIMIT d < 256 ^ 4"
  by (simp add: PCM_LIMIT_def)

lemma encode_pcm_frame_Inr: "encode_pcm_frame f = Inr bs \<longleftrightarrow> frame_valid f \<and> bs = frame_bytes f"
proof -
  have "int (length (pf_payload f)) < 256 ^ 4" if "length (pf_payload f) \<le> PCM_LIMIT (pf_direction f)"
    using that PCM_LIMIT_less [of "pf_direction f"] by simp
  then show ?thesis
    using direction_value_less [of "pf_direction f"]
    by (auto simp: encode_pcm_frame_def pack_header_def result_simps pack_uint_Inr frame_valid_def frame_bytes_def
        even_iff_mod_2_eq_zero not_le)
qed

lemma field_drop: "drop i bs = field_bytes i n bs @ drop (i + n) bs"
  using append_take_drop_id [of n "drop i bs"] by (simp add: field_bytes_def add.commute)

lemma frame_fields:
  assumes "24 \<le> length bs"
  shows "bs = field_bytes 0 4 bs @ field_bytes 4 1 bs @ field_bytes 5 1 bs @ field_bytes 6 2 bs
    @ field_bytes 8 4 bs @ field_bytes 12 8 bs @ field_bytes 20 4 bs @ drop 24 bs"
  using field_drop [of 0 bs 4] field_drop [of 4 bs 1] field_drop [of 5 bs 1] field_drop [of 6 bs 2]
    field_drop [of 8 bs 4] field_drop [of 12 bs 8] field_drop [of 20 bs 4] by simp

lemma length_field: "i + n \<le> length bs \<Longrightarrow> length (field_bytes i n bs) = n"
  by (simp add: field_bytes_def)

lemma decode_frame_bytes:
  assumes "frame_valid f"
  shows "decode_pcm_frame (frame_bytes f) = Inr f"
proof -
  have v: "nat (pf_generation f) mod 256 ^ 4 = nat (pf_generation f)" "nat (pf_sequence f) mod 256 ^ 8 = nat (pf_sequence f)"
    "length (pf_payload f) mod 256 ^ 4 = length (pf_payload f)"
    using assms PCM_LIMIT_less [of "pf_direction f"] by (auto simp: frame_valid_def nat_less_iff)
  have f: "field_bytes 0 4 (frame_bytes f) = PCM_MAGIC" "field_bytes 4 1 (frame_bytes f) = big_endian 1 1"
    "field_bytes 5 1 (frame_bytes f) = big_endian 1 (direction_value (pf_direction f))"
    "field_bytes 6 2 (frame_bytes f) = big_endian 2 0"
    "field_bytes 8 4 (frame_bytes f) = big_endian 4 (nat (pf_generation f))"
    "field_bytes 12 8 (frame_bytes f) = big_endian 8 (nat (pf_sequence f))"
    "field_bytes 20 4 (frame_bytes f) = big_endian 4 (length (pf_payload f))"
    "drop 24 (frame_bytes f) = pf_payload f" "24 \<le> length (frame_bytes f)"
    by (simp_all add: frame_bytes_def field_bytes_def PCM_MAGIC_def del: big_endian.simps)
  show ?thesis
    using assms direction_value_less [of "pf_direction f"] v
    unfolding decode_pcm_frame_def f Let_def big_value_big_endian
    by (simp add: frame_valid_def even_iff_mod_2_eq_zero f(9) not_less)
qed

lemma decode_pcm_frame_Inr:
  assumes "decode_pcm_frame bs = Inr f"
  shows "frame_valid f \<and> bs = frame_bytes f"
proof -
  have n: "24 \<le> length bs"
    using assms by (auto simp: decode_pcm_frame_def split: if_splits)
  have be: "field_bytes i k bs = big_endian k x" if "big_value (field_bytes i k bs) = x" "i + k \<le> 24" for i k x
    using big_endian_big_value [of "field_bytes i k bs"] length_field [of i k bs] that n by simp
  have lt: "big_value (field_bytes i k bs) < 256 ^ k" if "i + k \<le> 24" for i k
    using big_value_less [of "field_bytes i k bs"] length_field [of i k bs] that n by simp
  obtain d where d: "field_bytes 0 4 bs = PCM_MAGIC" "big_value (field_bytes 4 1 bs) = 1"
    "big_value (field_bytes 6 2 bs) = 0" "direction_of (big_value (field_bytes 5 1 bs)) = Some d"
    "big_value (field_bytes 20 4 bs) = length (drop 24 bs)" "big_value (field_bytes 8 4 bs) \<noteq> 0"
    "big_value (field_bytes 12 8 bs) \<noteq> 0" "length (drop 24 bs) \<noteq> 0" "length (drop 24 bs) mod 2 = 0"
    "length (drop 24 bs) \<le> PCM_LIMIT d"
    "f = \<lparr>pf_direction = d, pf_generation = int (big_value (field_bytes 8 4 bs)),
       pf_sequence = int (big_value (field_bytes 12 8 bs)), pf_payload = drop 24 bs\<rparr>"
    using assms n by (auto simp: decode_pcm_frame_def Let_def simp del: length_drop split: if_splits option.splits)
  have "int (big_value (field_bytes 8 4 bs)) < 256 ^ 4" "int (big_value (field_bytes 12 8 bs)) < 256 ^ 8"
    using lt [of 8 4] lt [of 12 8] by simp_all
  then have "frame_valid f"
    using d by (auto simp: frame_valid_def even_iff_mod_2_eq_zero simp del: length_drop)
  moreover have "bs = frame_bytes f"
    using frame_fields [OF n] be [OF d(2)] be [OF d(3)] be [of 5 1] be [of 8 4] be [of 12 8] be [OF d(5)] d(1,4)
    by (simp add: frame_bytes_def d(11) direction_of_Some del: length_drop big_endian.simps)
  ultimately show ?thesis ..
qed

text \<open>
  The binary frame of the local protocol is an exact encoding: a byte string is decoded to a frame
  exactly when it is what encoding that frame gives. So no frame is changed on the way, no two frames
  share an encoding, and nothing but an encoding (with its magic, version, zero flags, positive identity,
  whole samples and length) is accepted.
\<close>

lemma pcm_frame_roundtrip: "decode_pcm_frame bs = Inr f \<longleftrightarrow> encode_pcm_frame f = Inr bs"
  using decode_pcm_frame_Inr decode_frame_bytes by (auto simp: encode_pcm_frame_Inr)

section \<open>Messages\<close>

lemma checked_fields_code: "checked_fields c v = Inr t \<Longrightarrow> checked_fields c' v = Inr t"
  by (auto simp: checked_fields_def message_type_def allowed_fields_def result_simps check_def
      split: pyval.splits option.splits if_splits)

lemma style_ok_nan: "style_ok compact_nan"
  by (simp add: style_ok_def compact_nan_def u_def)

lemma text_ok_False [simp]: "text_ok False s"
  by (simp add: text_ok_def)

lemma local_message_read:
  assumes "encode_local_message env v = Inr t" "writable False (VDict v)" "written False (VDict v) = VDict v"
    "generation_ok v" "\<And>ty. dget v (u ''type'') = VStr ty \<Longrightarrow> version_ok ty v"
  shows "decode_local_message env t = Inr v"
proof -
  obtain ty where ty: "checked_fields E_INVALID_REQUEST v = Inr ty" "dumps env compact_nan (VDict v) = Inr t"
    using assms(1) by (auto simp: encode_local_message_def result_simps)
  then have "strict_json_object env t = Inr v"
    by (intro strict_object_of_dumps [OF style_ok_nan]) (use assms(2,3) in \<open>simp_all add: compact_nan_def\<close>)
  moreover have "dget v (u ''type'') = VStr ty"
    using ty(1) by (auto simp: checked_fields_def message_type_def result_simps split: pyval.splits option.splits)
  ultimately show ?thesis
    using checked_fields_code [OF ty(1)] assms(4,5) by (simp add: decode_local_message_def check_def)
qed

definition call_event :: "int \<Rightarrow> dict \<Rightarrow> dict" where
  "call_event g d = [(u ''type'', vs ''call.event''), (u ''generation'', VInt g), (u ''event'', VDict d)]"

lemma domain_event_writable: "domain_event_value e = Inr d \<Longrightarrow> writable False (VDict d) \<and> written False (VDict d) = VDict d"
  by (cases e) (auto simp: part_value_def)

text \<open>
  An event that the channel sends can be read back: if the event of a generation is encoded at all,
  it is one of the local variants and the generation is positive, and the strict decoder of the other
  side returns exactly the message with its type, its generation and the fields of the event.
\<close>

lemma domain_event_roundtrip:
  assumes "encode_domain_event env g e = Inr t"
  shows "0 < g \<and> (\<exists>d. domain_event_value e = Inr d \<and> decode_local_message env t = Inr (call_event g d))"
proof -
  obtain d where d: "0 < g" "domain_event_value e = Inr d" "encode_local_message env (call_event g d) = Inr t"
    using assms by (auto simp: encode_domain_event_def call_event_def result_simps split: if_splits)
  have "decode_local_message env t = Inr (call_event g d)"
  proof (rule local_message_read [OF d(3)])
    show "writable False (VDict (call_event g d))" "written False (VDict (call_event g d)) = VDict (call_event g d)"
      using domain_event_writable [OF d(2)] by (simp_all add: call_event_def)
    show "generation_ok (call_event g d)"
      using d(1) by (simp add: generation_ok_def call_event_def dget_def)
    show "version_ok ty (call_event g d)" if "dget (call_event g d) (u ''type'') = VStr ty" for ty
      using that by (auto simp: version_ok_def call_event_def dget_def)
  qed
  then show ?thesis
    using d by blast
qed

end
