(* ===== verification/Local_Windows.thy ===== *)
theory Local_Windows
  imports Local_Properties
begin

text \<open>
  The two windows of sequence numbers: \<^verbatim>\<open>SequenceWindow\<close> of \<^verbatim>\<open>realtime/local.py\<close> and \<^verbatim>\<open>_InputWindow\<close> of
  \<^verbatim>\<open>realtime/local_channel.py\<close>, which also keeps the audio. What both promise is a set of accepted
  sequences that is closed downwards up to the highest contiguous one; the locale states it and carries
  the consequences for a run of frames.
\<close>

section \<open>The contract of a window\<close>

definition contiguous :: "int set \<Rightarrow> int \<Rightarrow> bool" where
  \<comment> \<open>everything up to the number is accepted, and the next number is not\<close>
  "contiguous A h \<longleftrightarrow> {..h} \<subseteq> A \<and> h + 1 \<notin> A"

lemma contiguous_mono:
  assumes "contiguous A h" "contiguous B k" "A \<subseteq> B"
  shows "h \<le> k"
proof (rule ccontr)
  assume "\<not> h \<le> k"
  then have "k + 1 \<in> {..h}"
    by simp
  then show False
    using assms by (auto simp: contiguous_def)
qed

lemma contiguous_unique: "contiguous A h \<Longrightarrow> contiguous A k \<Longrightarrow> h = k"
  by (simp add: antisym contiguous_mono)

locale receive_window =
  fixes ok :: "'w \<Rightarrow> bool"
    and accepted :: "'w \<Rightarrow> int set"
    and highest :: "'w \<Rightarrow> int"
    and accept :: "'w \<Rightarrow> pcm_frame \<Rightarrow> ('r \<times> 'w) option"
  assumes highest_contiguous: "ok w \<Longrightarrow> contiguous (accepted w) (highest w)"
    and accept_returns: "ok w \<Longrightarrow> \<exists>r w'. accept w f = Some (r, w') \<and> ok w'"
    and accept_adds: "ok w \<Longrightarrow> accept w f = Some (r, w') \<Longrightarrow>
      accepted w' = accepted w \<or> pf_sequence f \<notin> accepted w \<and> accepted w' = insert (pf_sequence f) (accepted w)"
begin

lemma accept_ok: "ok w \<Longrightarrow> accept w f = Some (r, w') \<Longrightarrow> ok w'"
  using accept_returns [of w f] by auto

lemma highest_grows:
  assumes "ok w" "accept w f = Some (r, w')"
  shows "highest w \<le> highest w'"
proof (rule contiguous_mono)
  show "contiguous (accepted w) (highest w)" "contiguous (accepted w') (highest w')"
    using assms accept_ok highest_contiguous by blast+
  show "accepted w \<subseteq> accepted w'"
    using accept_adds [OF assms] by blast
qed

lemma accepted_once:
  assumes "ok w" "accept w f = Some (r, w')" "pf_sequence f \<in> accepted w"
  shows "accepted w' = accepted w \<and> highest w' = highest w"
proof -
  have same: "accepted w' = accepted w"
    using accept_adds [OF assms(1,2)] assms(3) by blast
  moreover have "contiguous (accepted w') (highest w')" "contiguous (accepted w) (highest w)"
    using accept_ok [OF assms(1,2)] assms(1) highest_contiguous by blast+
  ultimately show ?thesis
    using contiguous_unique by metis
qed

end

section \<open>The loop\<close>

definition gathered :: "int list \<times> int \<Rightarrow> int list \<times> int \<Rightarrow> bool" where
  \<comment> \<open>what the loop keeps: the pending sequences together with all up to the number\<close>
  "gathered s t \<longleftrightarrow> distinct (fst t) \<and> (\<forall>n \<in> set (fst t). snd t < n) \<and> snd s \<le> snd t \<and> set (fst t) \<subseteq> set (fst s)
     \<and> {..snd t} \<union> set (fst t) = {..snd s} \<union> set (fst s)"

lemma gathered_step:
  assumes "gathered s (p, h)" "h + 1 \<in> set p"
  shows "gathered s (remove1 (h + 1) p, h + 1)"
proof -
  have d: "distinct p"
    using assms(1) by (simp add: gathered_def)
  then have "set (remove1 (h + 1) p) = set p - {h + 1}"
    by (rule set_remove1_eq)
  moreover have "{..h + 1} = insert (h + 1) {..h}"
    by auto
  then have "{..h + 1} \<union> (set p - {h + 1}) = {..h} \<union> set p"
    using assms(2) by auto
  moreover have "\<forall>n \<in> set p - {h + 1}. h + 1 < n"
    using assms(1) by (force simp: gathered_def)
  ultimately show ?thesis
    using assms(1) d by (auto simp: gathered_def)
qed

lemma advance_returns:
  assumes "distinct p" "\<forall>n \<in> set p. h < n"
  shows "\<exists>q k. advance (p, h) = Some (q, k) \<and> gathered (p, h) (q, k) \<and> k + 1 \<notin> set q"
proof -
  have "gathered (p, h) (p, h)"
    using assms by (simp add: gathered_def)
  have step: "gathered (p, h) ((\<lambda>(p, h). (remove1 (h + 1) p, h + 1)) t)
      \<and> length (fst ((\<lambda>(p, h). (remove1 (h + 1) p, h + 1)) t)) < length (fst t)"
    if "gathered (p, h) t" and "case t of (p, h) \<Rightarrow> h + 1 \<in> set p" for t
  proof -
    obtain q k where [simp]: "t = (q, k)"
      by (cases t)
    have "k + 1 \<in> set q"
      using that(2) by simp
    then show ?thesis
      using gathered_step [of "(p, h)" q k] that(1) length_pos_if_in_set [of "k + 1" q] by (simp add: length_remove1)
  qed
  have "\<exists>t. advance (p, h) = Some t"
    unfolding advance_def
    by (rule measure_while_option_Some [where P = "gathered (p, h)" and f = "\<lambda>t. length (fst t)"])
       (rule step, assumption+, fact)
  then obtain t where t: "advance (p, h) = Some t" ..
  have "gathered (p, h) t"
    by (rule while_option_rule [where P = "gathered (p, h)", OF _ t [unfolded advance_def]])
       (use step \<open>gathered (p, h) (p, h)\<close> in auto)
  moreover have "\<not> (case t of (q, k) \<Rightarrow> k + 1 \<in> set q)"
    using t unfolding advance_def by (rule while_option_stop)
  ultimately show ?thesis
    using t by (cases t) auto
qed

section \<open>The sequence window\<close>

definition window_ok :: "seq_window \<Rightarrow> bool" where
  "window_ok w \<longleftrightarrow> 0 \<le> sw_highest w \<and> distinct (sw_pending w)
     \<and> (\<forall>n \<in> set (sw_pending w). sw_highest w + 1 < n \<and> n \<le> sw_highest w + sw_window w)"

definition window_accepted :: "seq_window \<Rightarrow> int set" where
  "window_accepted w = {..sw_highest w} \<union> set (sw_pending w)"

definition window_spec :: "int \<Rightarrow> audio_direction \<Rightarrow> int \<Rightarrow> int set \<Rightarrow> pcm_frame \<Rightarrow> bool res \<Rightarrow> int set \<Rightarrow> bool" where
  \<comment> \<open>the window as a set of accepted sequences\<close>
  "window_spec g d n A f r A' \<longleftrightarrow>
    (if pf_generation f \<noteq> g then r = Inr False \<and> A' = A
     else if pf_direction f \<noteq> d then r = Inl (protocol_error ''wrong PCM direction'') \<and> A' = A
     else if pf_sequence f \<in> A then r = Inr False \<and> A' = A
     else if \<exists>h. contiguous A h \<and> h + n < pf_sequence f then r = Inl (protocol_error ''PCM sequence gap'') \<and> A' = A
     else r = Inr True \<and> A' = insert (pf_sequence f) A)"

lemma window_contiguous: "window_ok w \<Longrightarrow> contiguous (window_accepted w) (sw_highest w)"
  by (auto simp: window_ok_def window_accepted_def contiguous_def)

lemma window_accepts:
  assumes "window_ok w" "pf_generation f = sw_generation w" "pf_direction f = sw_direction w"
    "pf_sequence f \<notin> window_accepted w" "pf_sequence f \<le> sw_highest w + sw_window w"
  shows "\<exists>q k. advance (sw_pending w @ [pf_sequence f], sw_highest w) = Some (q, k)
    \<and> window_accept w f = Some (Inr True, w\<lparr>sw_pending := q, sw_highest := k\<rparr>)
    \<and> window_ok (w\<lparr>sw_pending := q, sw_highest := k\<rparr>)
    \<and> window_accepted (w\<lparr>sw_pending := q, sw_highest := k\<rparr>) = insert (pf_sequence f) (window_accepted w)"
proof -
  let ?p = "sw_pending w @ [pf_sequence f]"
  have "distinct ?p" "\<forall>n \<in> set ?p. sw_highest w < n"
    using assms by (force simp: window_ok_def window_accepted_def)+
  then obtain q k where q: "advance (?p, sw_highest w) = Some (q, k)" "gathered (?p, sw_highest w) (q, k)" "k + 1 \<notin> set q"
    using advance_returns by blast
  then have "window_accept w f = Some (Inr True, w\<lparr>sw_pending := q, sw_highest := k\<rparr>)"
    using assms by (simp add: window_accept_def window_accepted_def)
  moreover have "k + 1 < n \<and> n \<le> k + sw_window w" if "n \<in> set q" for n
  proof -
    have "k < n" "n \<noteq> k + 1" "n \<in> set ?p" "sw_highest w \<le> k"
      using q that by (auto simp: gathered_def)
    moreover have "n \<le> sw_highest w + sw_window w"
      using \<open>n \<in> set ?p\<close> assms by (auto simp: window_ok_def)
    ultimately show ?thesis
      by linarith
  qed
  then have "window_ok (w\<lparr>sw_pending := q, sw_highest := k\<rparr>)"
    using q assms(1) by (auto simp: window_ok_def gathered_def)
  moreover have "window_accepted (w\<lparr>sw_pending := q, sw_highest := k\<rparr>) = insert (pf_sequence f) (window_accepted w)"
    using q by (simp add: gathered_def window_accepted_def)
  ultimately show ?thesis
    using q(1) by blast
qed

lemma window_implements:
  assumes "window_ok w"
  shows "\<exists>r w'. window_accept w f = Some (r, w') \<and> window_ok w'
    \<and> sw_generation w' = sw_generation w \<and> sw_direction w' = sw_direction w \<and> sw_window w' = sw_window w
    \<and> window_spec (sw_generation w) (sw_direction w) (sw_window w) (window_accepted w) f r (window_accepted w')"
proof -
  have gap: "(\<exists>h. contiguous (window_accepted w) h \<and> h + sw_window w < pf_sequence f)
      \<longleftrightarrow> sw_highest w + sw_window w < pf_sequence f"
    using window_contiguous [OF assms] contiguous_unique by blast
  have mem: "pf_sequence f \<in> window_accepted w \<longleftrightarrow> pf_sequence f \<le> sw_highest w \<or> pf_sequence f \<in> set (sw_pending w)"
    by (auto simp: window_accepted_def)
  show ?thesis
  proof (cases "pf_generation f = sw_generation w \<and> pf_direction f = sw_direction w
      \<and> pf_sequence f \<notin> window_accepted w \<and> pf_sequence f \<le> sw_highest w + sw_window w")
    case True
    then obtain q k where
      q: "window_accept w f = Some (Inr True, w\<lparr>sw_pending := q, sw_highest := k\<rparr>)"
      "window_ok (w\<lparr>sw_pending := q, sw_highest := k\<rparr>)"
      "window_accepted (w\<lparr>sw_pending := q, sw_highest := k\<rparr>) = insert (pf_sequence f) (window_accepted w)"
      using window_accepts [OF assms] by blast
    then show ?thesis
      using True by (intro exI [of _ "Inr True"] exI [of _ "w\<lparr>sw_pending := q, sw_highest := k\<rparr>"])
        (simp add: window_spec_def gap)
  next
    case False
    then have "\<exists>r. window_accept w f = Some (r, w)
        \<and> window_spec (sw_generation w) (sw_direction w) (sw_window w) (window_accepted w) f r (window_accepted w)"
      by (auto simp: window_accept_def window_spec_def gap mem)
    then show ?thesis
      using assms by blast
  qed
qed

lemma window_spec_adds: "window_spec g d n A f r A' \<Longrightarrow> A' = A \<or> pf_sequence f \<notin> A \<and> A' = insert (pf_sequence f) A"
  by (auto simp: window_spec_def split: if_splits)

interpretation sequences: receive_window window_ok window_accepted sw_highest window_accept
proof
  show "contiguous (window_accepted w) (sw_highest w)" if "window_ok w" for w
    by (rule window_contiguous [OF that])
  show "\<exists>r w'. window_accept w f = Some (r, w') \<and> window_ok w'" if "window_ok w" for w f
    using window_implements [OF that, of f] by blast
  show "window_accepted w' = window_accepted w
      \<or> pf_sequence f \<notin> window_accepted w \<and> window_accepted w' = insert (pf_sequence f) (window_accepted w)"
    if "window_ok w" "window_accept w f = Some (r, w')" for w f r w'
    using window_implements [OF that(1), of f] that(2) window_spec_adds by fastforce
qed

lemma pending_bound:
  assumes "window_ok w" "0 < sw_window w"
  shows "int (length (sw_pending w)) < sw_window w"
proof -
  have "length (sw_pending w) = card (set (sw_pending w))"
    using assms(1) by (simp add: window_ok_def distinct_card)
  also have "\<dots> \<le> card {sw_highest w + 2 .. sw_highest w + sw_window w}"
    using assms(1) by (intro card_mono) (auto simp: window_ok_def)
  finally show ?thesis
    using assms(2) by simp
qed

lemma window_init:
  "window_ok (seq_window_init g d n)" "window_accepted (seq_window_init g d n) = {..0}"
  "sw_window (seq_window_init g d n) = n"
  by (simp_all add: window_ok_def window_accepted_def seq_window_init_def)

text \<open>
  C13. The sequence window implements the set of accepted sequences. Starting empty, in every state of the
  window the loop of \<^verbatim>\<open>accept\<close> ends, and the answer and the next state are those of the specification
  that only knows the set: another generation and a sequence already in the set are refused without a
  change, a wrong direction and a gap beyond the window raise, and anything else is added. Fewer sequences
  than the window are pending, and the highest contiguous sequence never falls.
\<close>

theorem sequence_window_refines:
  assumes "window_ok w" and "0 < sw_window w"
  shows "(\<exists>r w'. window_accept w f = Some (r, w') \<and> window_ok w' \<and> sw_window w' = sw_window w
      \<and> window_spec (sw_generation w) (sw_direction w) (sw_window w) (window_accepted w) f r (window_accepted w')
      \<and> int (length (sw_pending w')) < sw_window w \<and> sw_highest w \<le> sw_highest w'
      \<and> contiguous (window_accepted w') (sw_highest w'))
    \<and> window_ok (seq_window_init g d n) \<and> window_accepted (seq_window_init g d n) = {..0}"
proof -
  obtain r w' where w': "window_accept w f = Some (r, w')" "window_ok w'" "sw_window w' = sw_window w"
    "window_spec (sw_generation w) (sw_direction w) (sw_window w) (window_accepted w) f r (window_accepted w')"
    using window_implements [OF assms(1)] by blast
  then show ?thesis
    using pending_bound [OF w'(2)] assms(2) sequences.highest_grows [OF assms(1) w'(1)]
      window_contiguous [OF w'(2)] by (auto simp: window_init)
qed

theorem sequence_window_refines_witness:
  "\<exists>r w'. window_accept (seq_window_init 1 DIR_OUTPUT 64) \<lparr>pf_direction = DIR_OUTPUT, pf_generation = 1,
        pf_sequence = 1, pf_payload = [0, 0]\<rparr> = Some (r, w')
     \<and> window_ok w' \<and> contiguous (window_accepted w') (sw_highest w')"
  using sequence_window_refines [OF window_init(1) [of 1 DIR_OUTPUT 64], where f = "\<lparr>pf_direction = DIR_OUTPUT,
    pf_generation = 1, pf_sequence = 1, pf_payload = [0, 0]\<rparr>"] by (simp add: window_init) blast

end
