(* ===== verification/Input_Window.thy ===== *)
theory Input_Window
  imports Local_Windows
begin

text \<open>
  \<^verbatim>\<open>_InputWindow\<close> of \<^verbatim>\<open>realtime/local_channel.py\<close>: the window of sequence numbers that holds the audio
  back until every earlier frame has arrived. It is shown to make the decisions of \<^verbatim>\<open>SequenceWindow\<close>
  with a window of 64, except that it also refuses more than 1 MiB of waiting audio, and to deliver the
  audio of the first frame of every sequence, in order.
\<close>

section \<open>The window\<close>

definition WINDOW_FRAMES :: int where "WINDOW_FRAMES = 64"
definition WINDOW_BYTES :: int where "WINDOW_BYTES = 1048576"

record input_window =
  iw_generation :: int
  iw_highest :: int
  iw_pending :: "(int \<times> bytes) list" \<comment> \<open>the dictionary \<^verbatim>\<open>_pending\<close>\<close>
  iw_pending_bytes :: int

definition input_window_init :: "int \<Rightarrow> input_window" where
  "input_window_init g = \<lparr>iw_generation = g, iw_highest = 0, iw_pending = [], iw_pending_bytes = 0\<rparr>"

definition drain_step :: "input_window \<times> bytes list \<Rightarrow> input_window \<times> bytes list" where
  \<comment> \<open>the body of the \<^verbatim>\<open>while\<close> loop\<close>
  "drain_step s =
    (case s of (w, ready) \<Rightarrow>
       let n = iw_highest w + 1
       in case map_of (iw_pending w) n of
            None \<Rightarrow> (w, ready)
          | Some payload \<Rightarrow>
              (w\<lparr>iw_pending := filter (\<lambda>kv. fst kv \<noteq> n) (iw_pending w),
                 iw_pending_bytes := iw_pending_bytes w - int (length payload), iw_highest := n\<rparr>,
               ready @ [payload]))"

definition drain_ready :: "input_window \<times> bytes list \<Rightarrow> (input_window \<times> bytes list) option" where
  "drain_ready = while_option (\<lambda>(w, ready). has_key (iw_pending w) (iw_highest w + 1)) drain_step"

definition input_accept :: "input_window \<Rightarrow> pcm_frame \<Rightarrow> (bytes list res \<times> input_window) option" where
  \<comment> \<open>\<^verbatim>\<open>_InputWindow.accept\<close>\<close>
  "input_accept w f =
    (if pf_generation f \<noteq> iw_generation w then Some (Inr [], w)
     else if pf_direction f \<noteq> DIR_INPUT then Some (Inl (protocol_error ''wrong PCM direction''), w)
     else if pf_sequence f \<le> iw_highest w \<or> has_key (iw_pending w) (pf_sequence f) then Some (Inr [], w)
     else if iw_highest w + WINDOW_FRAMES < pf_sequence f then Some (Inl (protocol_error ''PCM sequence gap''), w)
     else if WINDOW_BYTES < iw_pending_bytes w + int (length (pf_payload f))
     then Some (Inl (rt_error E_BUSY ''input window is full''), w)
     else map_option (\<lambda>(w', ready). (Inr ready, w'))
            (drain_ready (w\<lparr>iw_pending := iw_pending w @ [(pf_sequence f, pf_payload f)],
                      iw_pending_bytes := iw_pending_bytes w + int (length (pf_payload f))\<rparr>, [])))"

section \<open>The same decisions\<close>

definition sequences_of :: "input_window \<Rightarrow> seq_window" where
  \<comment> \<open>the window without its audio\<close>
  "sequences_of w = \<lparr>sw_generation = iw_generation w, sw_direction = DIR_INPUT, sw_window = WINDOW_FRAMES,
     sw_highest = iw_highest w, sw_pending = map fst (iw_pending w)\<rparr>"

definition bytes_ok :: "input_window \<Rightarrow> bool" where
  "bytes_ok w \<longleftrightarrow> iw_pending_bytes w = (\<Sum>kv \<leftarrow> iw_pending w. int (length (snd kv)))
     \<and> iw_pending_bytes w \<le> WINDOW_BYTES"

definition input_ok :: "input_window \<Rightarrow> bool" where
  "input_ok w \<longleftrightarrow> window_ok (sequences_of w) \<and> bytes_ok w"

lemma drain_pending:
  "distinct (map fst al) \<Longrightarrow> map fst (filter (\<lambda>kv. fst kv \<noteq> n) al) = remove1 n (map fst al)"
  by (induction al) (auto simp: remove1_idem filter_id_conv image_iff)

lemma drain_bytes:
  assumes "distinct (map fst al)" "map_of al n = Some (p :: bytes)"
  shows "(\<Sum>kv \<leftarrow> al. int (length (snd kv)))
    = (\<Sum>kv \<leftarrow> filter (\<lambda>kv. fst kv \<noteq> n) al. int (length (snd kv))) + int (length p)"
  using assms
proof (induction al)
  case (Cons kv al)
  show ?case
  proof (cases "fst kv = n")
    case True
    then have "filter (\<lambda>kv. fst kv \<noteq> n) al = al"
      using Cons.prems(1) by (auto simp: filter_id_conv image_iff)
    then show ?thesis
      using True Cons.prems(2) by simp
  next
    case False
    then show ?thesis
      using Cons by simp
  qed
qed simp

definition drain_view :: "input_window \<times> bytes list \<Rightarrow> int list \<times> int" where
  "drain_view s = (map fst (iw_pending (fst s)), iw_highest (fst s))"

lemma pending_lookup: "n \<in> set (map fst al) \<Longrightarrow> \<exists>p. map_of al n = Some p"
  by (simp add: map_of_eq_None_iff flip: not_None_eq)

lemma drain_step_Some:
  assumes "has_key (iw_pending w) (iw_highest w + 1)"
  obtains p where "map_of (iw_pending w) (iw_highest w + 1) = Some p"
    "drain_step (w, ready) =
      (w\<lparr>iw_pending := filter (\<lambda>kv. fst kv \<noteq> iw_highest w + 1) (iw_pending w),
         iw_pending_bytes := iw_pending_bytes w - int (length p), iw_highest := iw_highest w + 1\<rparr>, ready @ [p])"
  using pending_lookup assms by (fastforce simp: has_key_def drain_step_def Let_def)

lemma drain_advances:
  \<comment> \<open>the loop over the audio runs in lockstep with the loop over the sequences\<close>
  assumes "distinct (map fst (iw_pending (fst s)))"
  shows "map_option drain_view (drain_ready s) = advance (drain_view s)"
  unfolding drain_ready_def advance_def
proof (rule while_option_commute_invariant [where P = "\<lambda>s. distinct (map fst (iw_pending (fst s)))"])
  fix s :: "input_window \<times> bytes list"
  obtain w ready where s: "s = (w, ready)"
    by (cases s)
  assume d: "distinct (map fst (iw_pending (fst s)))"
  show "(case s of (w, ready) \<Rightarrow> has_key (iw_pending w) (iw_highest w + 1))
      = (case drain_view s of (p, h) \<Rightarrow> h + 1 \<in> set p)"
    by (simp add: s drain_view_def has_key_def)
  assume "case s of (w, ready) \<Rightarrow> has_key (iw_pending w) (iw_highest w + 1)"
  then obtain p where p: "drain_step (w, ready) = (w\<lparr>iw_pending := filter (\<lambda>kv. fst kv \<noteq> iw_highest w + 1) (iw_pending w),
         iw_pending_bytes := iw_pending_bytes w - int (length p), iw_highest := iw_highest w + 1\<rparr>, ready @ [p])"
    using drain_step_Some [of w] s by auto
  show "distinct (map fst (iw_pending (fst (drain_step s))))"
    using d distinct_filter_keys by (simp add: p s)
  show "drain_view (drain_step s) = (case drain_view s of (p, h) \<Rightarrow> (remove1 (h + 1) p, h + 1))"
    using d by (simp add: p s drain_view_def drain_pending)
qed (rule assms)

definition drained :: "input_window \<Rightarrow> input_window \<times> bytes list \<Rightarrow> bool" where
  \<comment> \<open>what the loop keeps of the audio\<close>
  "drained w0 s \<longleftrightarrow>
    (case s of (w, ready) \<Rightarrow>
       distinct (map fst (iw_pending w)) \<and> iw_generation w = iw_generation w0
       \<and> iw_pending_bytes w = (\<Sum>kv \<leftarrow> iw_pending w. int (length (snd kv)))
       \<and> iw_pending_bytes w \<le> iw_pending_bytes w0
       \<and> iw_highest w = iw_highest w0 + int (length ready)
       \<and> map Some ready = map (\<lambda>i. map_of (iw_pending w0) (iw_highest w0 + 1 + int i)) [0..<length ready]
       \<and> (\<forall>n > iw_highest w. map_of (iw_pending w) n = map_of (iw_pending w0) n))"

lemma map_of_filter_other: "m \<noteq> n \<Longrightarrow> map_of (filter (\<lambda>kv. fst kv \<noteq> n) al) m = map_of al m"
  by (induction al) auto

lemma drained_step:
  assumes "drained w0 (w, ready)" "has_key (iw_pending w) (iw_highest w + 1)"
  shows "drained w0 (drain_step (w, ready))"
proof -
  obtain p where p: "map_of (iw_pending w) (iw_highest w + 1) = Some p"
    "drain_step (w, ready) =
      (w\<lparr>iw_pending := filter (\<lambda>kv. fst kv \<noteq> iw_highest w + 1) (iw_pending w),
         iw_pending_bytes := iw_pending_bytes w - int (length p), iw_highest := iw_highest w + 1\<rparr>, ready @ [p])"
    using drain_step_Some [OF assms(2)] by blast
  have "map_of (iw_pending w0) (iw_highest w0 + 1 + int (length ready)) = Some p"
    using assms(1) p(1) by (simp add: drained_def add.commute add.left_commute)
  then show ?thesis
    using assms(1) drain_bytes [OF _ p(1)]
    by (simp add: drained_def p(2) distinct_filter_keys map_of_filter_other)
qed

lemma drain_result:
  assumes "drain_ready (w0, []) = Some (w, ready)" "distinct (map fst (iw_pending w0))"
    "iw_pending_bytes w0 = (\<Sum>kv \<leftarrow> iw_pending w0. int (length (snd kv)))"
  shows "drained w0 (w, ready)"
proof (rule while_option_rule [where P = "drained w0", OF _ assms(1) [unfolded drain_ready_def]])
  show "drained w0 (w0, [])"
    using assms by (simp add: drained_def)
  show "drained w0 (drain_step s)"
    if "drained w0 s" "case s of (w, ready) \<Rightarrow> has_key (iw_pending w) (iw_highest w + 1)" for s
    using that drained_step by (cases s) simp
qed

definition with_frame :: "input_window \<Rightarrow> pcm_frame \<Rightarrow> input_window" where
  "with_frame w f = w\<lparr>iw_pending := iw_pending w @ [(pf_sequence f, pf_payload f)],
     iw_pending_bytes := iw_pending_bytes w + int (length (pf_payload f))\<rparr>"

definition fitting :: "input_window \<Rightarrow> pcm_frame \<Rightarrow> bool" where
  \<comment> \<open>the frame is new, within the window and within the bound on the audio\<close>
  "fitting w f \<longleftrightarrow> pf_generation f = iw_generation w \<and> pf_direction f = DIR_INPUT
     \<and> pf_sequence f \<notin> window_accepted (sequences_of w) \<and> pf_sequence f \<le> iw_highest w + WINDOW_FRAMES
     \<and> iw_pending_bytes w + int (length (pf_payload f)) \<le> WINDOW_BYTES"

lemma input_accept_fitting:
  assumes "input_ok w" "fitting w f"
  shows "\<exists>w' ready. input_accept w f = Some (Inr ready, w') \<and> drained (with_frame w f) (w', ready) \<and> input_ok w'
    \<and> window_accept (sequences_of w) f = Some (Inr True, sequences_of w')"
proof -
  let ?w = "with_frame w f"
  have ok: "window_ok (sequences_of w)" "bytes_ok w"
    using assms(1) by (simp_all add: input_ok_def)
  obtain q k where q: "advance (sw_pending (sequences_of w) @ [pf_sequence f], sw_highest (sequences_of w)) = Some (q, k)"
    "window_accept (sequences_of w) f = Some (Inr True, (sequences_of w)\<lparr>sw_pending := q, sw_highest := k\<rparr>)"
    "window_ok ((sequences_of w)\<lparr>sw_pending := q, sw_highest := k\<rparr>)"
    using window_accepts [OF ok(1), of f] assms(2) by (auto simp: fitting_def sequences_of_def)
  have d: "distinct (map fst (iw_pending ?w))"
    using assms ok(1) by (auto simp: window_ok_def sequences_of_def with_frame_def fitting_def window_accepted_def)
  have "map_option drain_view (drain_ready (?w, [])) = Some (q, k)"
    using drain_advances [of "(?w, [])"] d q(1) by (simp add: drain_view_def sequences_of_def with_frame_def)
  then obtain w' ready where w': "drain_ready (?w, []) = Some (w', ready)" "map fst (iw_pending w') = q" "iw_highest w' = k"
    by (auto simp: drain_view_def)
  have dr: "drained ?w (w', ready)"
    by (rule drain_result [OF w'(1) d]) (use ok(2) in \<open>simp add: with_frame_def bytes_ok_def\<close>)
  then have s: "sequences_of w' = (sequences_of w)\<lparr>sw_pending := q, sw_highest := k\<rparr>"
    using w' by (simp add: sequences_of_def drained_def with_frame_def)
  moreover have "bytes_ok w'"
    using dr assms(2) by (auto simp: bytes_ok_def drained_def with_frame_def fitting_def)
  moreover have "input_accept w f = Some (Inr ready, w')"
    using assms(2) w'(1)
    by (auto simp: input_accept_def fitting_def window_accepted_def sequences_of_def has_key_def with_frame_def)
  ultimately show ?thesis
    using dr q(2,3) by (auto simp: input_ok_def)
qed

lemma input_accept_other:
  assumes "\<not> fitting w f"
  shows "\<exists>r. input_accept w f = Some (r, w) \<and> (\<forall>ready. r = Inr ready \<longrightarrow> ready = [])
    \<and> (\<exists>d. window_accept (sequences_of w) f = Some (d, sequences_of w)
          \<and> (d = Inr False \<and> r = Inr [] \<or> (\<exists>e. d = Inl e \<and> r = Inl e))
        \<or> r = Inl (rt_error E_BUSY ''input window is full'')
          \<and> WINDOW_BYTES < iw_pending_bytes w + int (length (pf_payload f)))"
  using assms
  by (auto simp: input_accept_def window_accept_def fitting_def window_accepted_def sequences_of_def has_key_def)

lemma input_accept_ok:
  assumes "input_ok w"
  shows "\<exists>r w'. input_accept w f = Some (r, w') \<and> input_ok w'"
  using input_accept_fitting [OF assms, of f] input_accept_other [of w f] assms by (cases "fitting w f") auto

lemma fitting_accepted:
  assumes "input_ok w" "input_accept w f = Some (r, w')"
  shows "window_accepted (sequences_of w') = window_accepted (sequences_of w)
    \<or> pf_sequence f \<notin> window_accepted (sequences_of w)
      \<and> window_accepted (sequences_of w') = insert (pf_sequence f) (window_accepted (sequences_of w))"
proof (cases "fitting w f")
  case True
  have "window_ok (sequences_of w)"
    using assms(1) by (simp add: input_ok_def)
  moreover obtain d where "window_accept (sequences_of w) f = Some (d, sequences_of w')"
    using input_accept_fitting [OF assms(1) True] assms(2) by auto
  ultimately show ?thesis
    using sequences.accept_adds by blast
next
  case False
  then show ?thesis
    using input_accept_other [OF False] assms(2) by auto
qed

lemma input_init: "input_ok (input_window_init g)"
  by (simp add: input_ok_def input_window_init_def sequences_of_def window_ok_def bytes_ok_def WINDOW_BYTES_def)

interpretation inputs: receive_window input_ok "\<lambda>w. window_accepted (sequences_of w)" iw_highest input_accept
proof
  show "contiguous (window_accepted (sequences_of w)) (iw_highest w)" if "input_ok w" for w
    using window_contiguous [of "sequences_of w"] that by (simp add: input_ok_def sequences_of_def)
qed (use input_accept_ok fitting_accepted in blast)+

section \<open>Properties\<close>

text \<open>
  C12. The window of the input makes the decisions of the sequence window of 64: for every frame it
  returns, in a consistent state, and either the sequence window without the audio takes the same step
  with the same answer (refused without a change, the same exception, or accepted), or the frame would
  be accepted but the waiting audio would exceed 1 MiB, and the frame is refused as busy without a change.
\<close>

theorem input_window_decides:
  assumes "input_ok w"
  shows "\<exists>r w'. input_accept w f = Some (r, w') \<and> input_ok w' \<and> iw_highest w \<le> iw_highest w'
    \<and> ((\<exists>d. window_accept (sequences_of w) f = Some (d, sequences_of w')
          \<and> (case r of Inl e \<Rightarrow> d = Inl e | Inr ready \<Rightarrow> d = Inr True \<or> d = Inr False \<and> ready = [] \<and> w' = w))
       \<or> r = Inl (rt_error E_BUSY ''input window is full'') \<and> w' = w
         \<and> WINDOW_BYTES < iw_pending_bytes w + int (length (pf_payload f)))"
proof (cases "fitting w f")
  case True
  then obtain w' ready where "input_accept w f = Some (Inr ready, w')" "input_ok w'"
    "window_accept (sequences_of w) f = Some (Inr True, sequences_of w')"
    using input_accept_fitting [OF assms] by blast
  then show ?thesis
    using inputs.highest_grows [OF assms] by auto
next
  case False
  then show ?thesis
    using input_accept_other [OF False] assms by auto
qed

definition example_frame :: "int \<Rightarrow> bytes \<Rightarrow> pcm_frame" where
  "example_frame n b = \<lparr>pf_direction = DIR_INPUT, pf_generation = 1, pf_sequence = n, pf_payload = b\<rparr>"

theorem input_window_decides_witness:
  "\<exists>r w'. input_accept (input_window_init 1) (example_frame 1 [0, 0]) = Some (r, w') \<and> input_ok w'"
  using input_window_decides [OF input_init [of 1], of "example_frame 1 [0, 0]"] by blast

fun feed :: "input_window \<Rightarrow> pcm_frame list \<Rightarrow> (bytes list \<times> input_window) option" where
  \<comment> \<open>the audio that the window delivers for a sequence of frames, if none raises\<close>
  "feed w [] = Some ([], w)"
| "feed w (f # fs) =
    (case input_accept w f of
       Some (Inr ready, w') \<Rightarrow> map_option (\<lambda>(out, w2). (ready @ out, w2)) (feed w' fs)
     | _ \<Rightarrow> None)"

definition first_audio :: "int \<Rightarrow> pcm_frame list \<Rightarrow> int \<Rightarrow> bytes option" where
  \<comment> \<open>the audio of the first frame of the generation with the sequence\<close>
  "first_audio g fs n = map_option pf_payload (find (\<lambda>f. pf_generation f = g \<and> pf_sequence f = n) fs)"

lemma find_append: "find P (xs @ ys) = (case find P xs of Some x \<Rightarrow> Some x | None \<Rightarrow> find P ys)"
  by (induction xs) auto

lemma first_audio_snoc:
  "first_audio g (fs @ [f]) n =
    (case first_audio g fs n of Some p \<Rightarrow> Some p
     | None \<Rightarrow> if pf_generation f = g \<and> pf_sequence f = n then Some (pf_payload f) else None)"
  by (auto simp: first_audio_def find_append split: option.split)

definition heard :: "int \<Rightarrow> pcm_frame list \<Rightarrow> bytes list \<Rightarrow> input_window \<Rightarrow> bool" where
  \<comment> \<open>what has been delivered and what is waiting after the frames\<close>
  "heard g fs out w \<longleftrightarrow> input_ok w \<and> iw_generation w = g \<and> iw_highest w = int (length out)
     \<and> map Some out = map (\<lambda>i. first_audio g fs (int i + 1)) [0..<length out]
     \<and> (\<forall>n > iw_highest w. map_of (iw_pending w) n = first_audio g fs n)"

lemma heard_audio: "heard g fs out w \<Longrightarrow> 0 < n \<Longrightarrow> n \<le> iw_highest w \<Longrightarrow> \<exists>p. first_audio g fs n = Some p"
proof -
  assume h: "heard g fs out w" and n: "0 < n" "n \<le> iw_highest w"
  then have i: "nat (n - 1) < length out"
    by (simp add: heard_def)
  have "map Some out ! nat (n - 1) = map (\<lambda>i. first_audio g fs (int i + 1)) [0..<length out] ! nat (n - 1)"
    using h by (simp add: heard_def)
  then have "Some (out ! nat (n - 1)) = first_audio g fs n"
    using i n by (simp add: nth_append)
  then show ?thesis
    by metis
qed

lemma heard_step:
  assumes "heard g fs out w" "input_accept w f = Some (Inr ready, w')"
  shows "heard g (fs @ [f]) (out @ ready) w'"
proof (cases "fitting w f")
  case True
  have ok: "input_ok w"
    using assms(1) by (simp add: heard_def)
  obtain dr: "drained (with_frame w f) (w', ready)" and ok': "input_ok w'"
    using input_accept_fitting [OF ok True] assms(2) by auto
  have new: "map_of (iw_pending (with_frame w f)) n = first_audio g (fs @ [f]) n" if "iw_highest w < n" for n
    using assms(1) True that
    by (auto simp: with_frame_def first_audio_snoc heard_def fitting_def map_add_def split: option.split)
  have old: "first_audio g (fs @ [f]) (int i + 1) = first_audio g fs (int i + 1)" if "i < length out" for i
    using heard_audio [OF assms(1), of "int i + 1"] that assms(1) by (auto simp: first_audio_snoc heard_def)
  have "map Some ready = map (\<lambda>i. first_audio g (fs @ [f]) (int (length out + i) + 1)) [0..<length ready]"
    using dr assms(1) new by (auto simp: drained_def with_frame_def heard_def add_ac)
  moreover have "map Some out = map (\<lambda>i. first_audio g (fs @ [f]) (int i + 1)) [0..<length out]"
    using assms(1) old by (simp add: heard_def)
  moreover have "[0..<length out + length ready] = [0..<length out] @ map (\<lambda>i. length out + i) [0..<length ready]"
    by (simp add: upt_add_eq_append [of 0] map_add_upt add.commute)
  ultimately have "map Some (out @ ready) = map (\<lambda>i. first_audio g (fs @ [f]) (int i + 1)) [0..<length (out @ ready)]"
    by (simp add: comp_def)
  moreover have "map_of (iw_pending w') n = first_audio g (fs @ [f]) n" if "iw_highest w' < n" for n
    using dr that new [of n] by (simp add: drained_def with_frame_def)
  ultimately show ?thesis
    using dr assms(1) ok' by (simp add: heard_def drained_def with_frame_def)
next
  case False
  have same: "ready = []" "w' = w"
    using input_accept_other [OF False] assms(2) by auto
  have ign: "pf_generation f \<noteq> g \<or> pf_sequence f \<in> window_accepted (sequences_of w)"
    using False assms by (auto simp: input_accept_def fitting_def window_accepted_def sequences_of_def has_key_def heard_def split: if_splits)
  have "first_audio g (fs @ [f]) n = first_audio g fs n" if "0 < n" for n
  proof (cases "pf_generation f = g \<and> pf_sequence f = n")
    case True
    then have "n \<le> iw_highest w \<or> n \<in> set (map fst (iw_pending w))"
      using ign by (auto simp: window_accepted_def sequences_of_def)
    then have "\<exists>p. first_audio g fs n = Some p"
      using heard_audio [OF assms(1) that] pending_lookup [of n "iw_pending w"] assms(1)
      by (cases "n \<le> iw_highest w") (auto simp: heard_def)
    then show ?thesis
      by (auto simp: first_audio_snoc)
  qed (auto simp: first_audio_snoc split: option.split)
  then show ?thesis
    using assms(1) by (simp add: heard_def same)
qed

lemma feed_heard: "heard g fs0 out0 w \<Longrightarrow> feed w fs = Some (out, w') \<Longrightarrow> heard g (fs0 @ fs) (out0 @ out) w'"
proof (induction fs arbitrary: fs0 out0 w out)
  case (Cons f fs)
  then obtain ready w1 out1 where f: "input_accept w f = Some (Inr ready, w1)" "feed w1 fs = Some (out1, w')"
    "out = ready @ out1"
    by (auto split: option.splits sum.splits)
  show ?case
    using Cons.IH [OF heard_step [OF Cons.prems(1) f(1)] f(2)] f(3) by simp
qed simp

text \<open>
  C11. Audio is delivered in order, once and without a gap: however the frames of a call are reordered or
  repeated, what the window has delivered is the audio of the first frame of sequence 1, of sequence 2
  and so on up to its highest contiguous sequence, and no frame of the next sequence has arrived.
\<close>

theorem input_delivered_in_order:
  assumes "feed (input_window_init g) fs = Some (out, w)"
  shows "iw_highest w = int (length out)
    \<and> map Some out = map (\<lambda>i. first_audio g fs (int i + 1)) [0..<length out]
    \<and> first_audio g fs (int (length out) + 1) = None"
proof -
  have "heard g [] [] (input_window_init g)"
    using input_init by (simp add: heard_def first_audio_def input_window_init_def)
  then have h: "heard g fs out w"
    using feed_heard [OF _ assms] by fastforce
  moreover have "contiguous (window_accepted (sequences_of w)) (iw_highest w)"
    using h by (intro inputs.highest_contiguous) (simp add: heard_def)
  then have "iw_highest w + 1 \<notin> set (map fst (iw_pending w))"
    by (simp add: contiguous_def window_accepted_def sequences_of_def)
  then have "map_of (iw_pending w) (iw_highest w + 1) = None"
    by (simp add: map_of_eq_None_iff)
  ultimately show ?thesis
    by (auto simp: heard_def)
qed

theorem input_delivered_in_order_witness:
  "\<exists>out w. feed (input_window_init 1) [example_frame 2 [2, 2], example_frame 1 [1, 1], example_frame 2 [3, 3]] = Some (out, w)
     \<and> iw_highest w = 2 \<and> out = [[1, 1], [2, 2]]"
proof -
  let ?fs = "[example_frame 2 [2, 2], example_frame 1 [1, 1], example_frame 2 [3, 3]]"
  have "case feed (input_window_init 1) ?fs of Some (out, w) \<Rightarrow> length out = 2 | None \<Rightarrow> False"
    by code_simp
  then obtain out w where f: "feed (input_window_init 1) ?fs = Some (out, w)" "length out = 2"
    by (auto split: option.splits)
  have "first_audio 1 ?fs 1 = Some [1, 1]" "first_audio 1 ?fs 2 = Some [2, 2]" "[0..<2] = [0::nat, 1]"
    by code_simp+
  then have "map Some out = [Some [1, 1], Some [2, 2]]"
    using input_delivered_in_order [OF f(1)] f(2) by simp
  then have "out = [[1, 1], [2, 2]]"
    by (cases out rule: remdups_adj.cases) auto
  then show ?thesis
    using input_delivered_in_order [OF f(1)] f by simp
qed

end
