(* ===== verification/Tasks.thy ===== *)
theory Tasks
  imports Prelude
begin

text \<open>
  Coroutines on a shared state. A task runs in one go up to its next \<^verbatim>\<open>await\<close>: it maps the state to the
  state at that point and to a program that is either done, with a result or an exception, or waits for
  the outcome of a call and goes on, possibly in another state, because other tasks run in between. A
  loop of the code that need not end is not part of a program: the system that runs the task starts its
  body again.
\<close>

datatype ('s, 'c, 'o, 'a) prog = Done 'a | Await 'c "'o \<Rightarrow> 's \<Rightarrow> 's \<times> ('s, 'c, 'o, 'a) prog"

type_synonym ('s, 'c, 'o, 'e, 'a) task = "'s \<Rightarrow> 's \<times> ('s, 'c, 'o, 'e + 'a) prog"

section \<open>Building tasks\<close>

definition return :: "'a \<Rightarrow> ('s, 'c, 'o, 'e, 'a) task" where
  "return a s = (s, Done (Inr a))"

definition raise :: "'e \<Rightarrow> ('s, 'c, 'o, 'e, 'a) task" where
  "raise e s = (s, Done (Inl e))"

definition lift :: "'e + 'a \<Rightarrow> ('s, 'c, 'o, 'e, 'a) task" where
  "lift r s = (s, Done r)"

definition update :: "('s \<Rightarrow> 's) \<Rightarrow> ('s, 'c, 'o, 'e, unit) task" where
  "update f s = (f s, Done (Inr ()))"

definition await :: "'c \<Rightarrow> ('s, 'c, 'o, 'e, 'o) task" where
  "await c s = (s, Await c (\<lambda>x t. (t, Done (Inr x))))"

definition reading :: "('s \<Rightarrow> ('s, 'c, 'o, 'e, 'a) task) \<Rightarrow> ('s, 'c, 'o, 'e, 'a) task" where
  \<comment> \<open>a task that looks at the state\<close>
  "reading m s = m s s"

primrec extend :: "('s, 'c, 'o, 'a) prog \<Rightarrow> ('a \<Rightarrow> 's \<Rightarrow> 's \<times> ('s, 'c, 'o, 'b) prog)
    \<Rightarrow> 's \<Rightarrow> 's \<times> ('s, 'c, 'o, 'b) prog" where
  "extend (Done a) f = f a"
| "extend (Await c k) f =
     (\<lambda>s. (s, Await c (\<lambda>x t. case map_prod id (\<lambda>p. extend p f) (k x t) of (t', g) \<Rightarrow> g t')))"

definition bind :: "('s, 'c, 'o, 'e, 'a) task \<Rightarrow> ('a \<Rightarrow> ('s, 'c, 'o, 'e, 'b) task) \<Rightarrow> ('s, 'c, 'o, 'e, 'b) task" where
  "bind m f s = (case m s of (t, p) \<Rightarrow> extend p (case_sum raise f) t)"

definition catching :: "('s, 'c, 'o, 'e, 'a) task \<Rightarrow> ('e \<Rightarrow> ('s, 'c, 'o, 'e, 'a) task) \<Rightarrow> ('s, 'c, 'o, 'e, 'a) task" where
  \<comment> \<open>\<^verbatim>\<open>try\<close> with an \<^verbatim>\<open>except\<close> clause\<close>
  "catching m h s = (case m s of (t, p) \<Rightarrow> extend p (case_sum h return) t)"

definition ensuring :: "('s, 'c, 'o, 'e, 'a) task \<Rightarrow> ('s, 'c, 'o, 'e, unit) task \<Rightarrow> ('s, 'c, 'o, 'e, 'a) task" where
  \<comment> \<open>\<^verbatim>\<open>try\<close> with a \<^verbatim>\<open>finally\<close> clause\<close>
  "ensuring m f s = (case m s of (t, p) \<Rightarrow> extend p (\<lambda>r. bind f (\<lambda>_. lift r)) t)"

section \<open>What every task keeps\<close>

text \<open>
  \<open>follows A R p\<close>: each stretch of the program between two calls takes the state along \<open>R\<close>, whatever the
  other tasks do to the state in between; \<open>A\<close> says which answers a call can have in which states.
  \<open>steady A R m\<close> says so for a task. For a transitive relation it is compositional, so that a property
  of every stretch is shown operation by operation.
\<close>

primrec follows :: "('c \<Rightarrow> 'o \<Rightarrow> 's \<Rightarrow> bool) \<Rightarrow> ('s \<Rightarrow> 's \<Rightarrow> bool) \<Rightarrow> ('s, 'c, 'o, 'a) prog \<Rightarrow> bool" where
  "follows A R (Done a) = True"
| "follows A R (Await c k) = (\<forall>x s. A c x s \<longrightarrow> (case map_prod id (follows A R) (k x s) of (t, b) \<Rightarrow> R s t \<and> b))"

definition steady_at :: "('c \<Rightarrow> 'o \<Rightarrow> 's \<Rightarrow> bool) \<Rightarrow> ('s \<Rightarrow> 's \<Rightarrow> bool) \<Rightarrow> 's \<Rightarrow> ('s \<Rightarrow> 's \<times> ('s, 'c, 'o, 'a) prog) \<Rightarrow> bool" where
  "steady_at A R s m \<longleftrightarrow> R s (fst (m s)) \<and> follows A R (snd (m s))"

definition steady :: "('c \<Rightarrow> 'o \<Rightarrow> 's \<Rightarrow> bool) \<Rightarrow> ('s \<Rightarrow> 's \<Rightarrow> bool) \<Rightarrow> ('s \<Rightarrow> 's \<times> ('s, 'c, 'o, 'a) prog) \<Rightarrow> bool" where
  "steady A R m \<longleftrightarrow> (\<forall>s. steady_at A R s m)"

lemma follows_Await [simp]:
  "follows A R (Await c k) \<longleftrightarrow> (\<forall>x s. A c x s \<longrightarrow> R s (fst (k x s)) \<and> follows A R (snd (k x s)))"
  by (simp add: case_prod_beta)

lemma extend_Await [simp]:
  "extend (Await c k) f s = (s, Await c (\<lambda>x t. extend (snd (k x t)) f (fst (k x t))))"
  by (simp add: case_prod_beta)

declare follows.simps(2) [simp del] extend.simps(2) [simp del]

locale preserved =
  fixes A :: "'c \<Rightarrow> 'o \<Rightarrow> 's \<Rightarrow> bool" and R :: "'s \<Rightarrow> 's \<Rightarrow> bool"
  assumes kept_refl [simp]: "R s s"
    and kept_trans: "R s t \<Longrightarrow> R t r \<Longrightarrow> R s r"
begin

lemma steady_any: "steady A R m \<Longrightarrow> steady_at A R s m"
  by (simp add: steady_def)

lemma steady_simps [simp]:
  "steady_at A R s (return a)" "steady_at A R s (raise e)" "steady_at A R s (lift r)" "steady_at A R s (await c)"
  "steady A R (return a)" "steady A R (raise e)" "steady A R (lift r)" "steady A R (await c)"
  by (simp_all add: steady_def steady_at_def return_def raise_def lift_def await_def)

lemma steady_extend:
  assumes "\<And>a. steady A R (f a)"
  shows "follows A R p \<Longrightarrow> R s (fst (extend p f s)) \<and> follows A R (snd (extend p f s))"
proof (induction p arbitrary: s)
  case (Done a)
  then show ?case
    using assms by (simp add: steady_def steady_at_def)
next
  case (Await c k)
  have "R t (fst (extend (snd (k x t)) f (fst (k x t)))) \<and> follows A R (snd (extend (snd (k x t)) f (fst (k x t))))"
    if "A c x t" for x t
  proof -
    have kt: "R t (fst (k x t))" "follows A R (snd (k x t))"
      using Await.prems that by simp_all
    have "snd (k x t) \<in> Basic_BNFs.snds (k x t)"
      by (cases "k x t") simp
    then have "R (fst (k x t)) (fst (extend (snd (k x t)) f (fst (k x t))))
        \<and> follows A R (snd (extend (snd (k x t)) f (fst (k x t))))"
      using kt(2) by (rule Await.IH [OF rangeI [of k x] rangeI [of "k x" t]])
    then show ?thesis
      using kept_trans [OF kt(1)] by simp
  qed
  then show ?case
    by simp
qed

lemma steady_sequence:
  assumes "steady_at A R s m" "\<And>r. steady A R (f r)"
  shows "steady_at A R s (\<lambda>s. case m s of (t, p) \<Rightarrow> extend p f t)"
proof -
  have m: "R s (fst (m s))" "follows A R (snd (m s))"
    using assms(1) by (simp_all add: steady_at_def)
  have "R (fst (m s)) (fst (extend (snd (m s)) f (fst (m s)))) \<and> follows A R (snd (extend (snd (m s)) f (fst (m s))))"
    by (rule steady_extend [OF assms(2) m(2)])
  then show ?thesis
    using kept_trans [OF m(1)] by (simp add: steady_at_def case_prod_beta)
qed

lemma steady_at_bind: "steady_at A R s m \<Longrightarrow> (\<And>a. steady A R (f a)) \<Longrightarrow> steady_at A R s (bind m f)"
  unfolding bind_def by (rule steady_sequence) (simp_all split: sum.split)

lemma steady_at_catching: "steady_at A R s m \<Longrightarrow> (\<And>e. steady A R (h e)) \<Longrightarrow> steady_at A R s (catching m h)"
  unfolding catching_def by (rule steady_sequence) (simp_all split: sum.split)

lemma steady_bind: "steady A R m \<Longrightarrow> (\<And>a. steady A R (f a)) \<Longrightarrow> steady A R (bind m f)"
  by (simp add: steady_def steady_at_bind)

lemma steady_catching: "steady A R m \<Longrightarrow> (\<And>e. steady A R (h e)) \<Longrightarrow> steady A R (catching m h)"
  by (simp add: steady_def steady_at_catching)

lemma steady_ensuring: "steady A R m \<Longrightarrow> steady A R f \<Longrightarrow> steady A R (ensuring m f)"
  unfolding ensuring_def steady_def by (intro allI steady_sequence) (simp_all add: steady_def steady_at_bind)

lemma steady_update: "(\<And>s. R s (f s)) \<Longrightarrow> steady A R (update f)"
  by (simp add: steady_def steady_at_def update_def)

lemma steady_reading: "(\<And>s. steady_at A R s (m s)) \<Longrightarrow> steady A R (reading m)"
  by (simp add: steady_def steady_at_def reading_def)

lemma steady_await: "(\<And>x s. A c x s \<Longrightarrow> steady_at A R s (f x)) \<Longrightarrow> steady A R (bind (await c) f)"
  by (simp add: steady_def steady_at_def bind_def await_def)

lemma steady_at_update:
  "R s (f s) \<Longrightarrow> steady_at A R (f s) (m ()) \<Longrightarrow> steady_at A R s (bind (update f) m)"
  using kept_trans by (auto simp: steady_at_def bind_def update_def)

end

section \<open>What a task may spend\<close>

text \<open>
  A program may make a call that costs something only from a credit that it has earned before, by raising
  the measure \<open>N\<close> of the state: \<open>credit N C b p\<close> says that \<open>p\<close> never overdraws the credit \<open>b\<close>. What a
  system of such tasks has spent in all is at most what the measure has grown.
\<close>

primrec credit :: "('s \<Rightarrow> int) \<Rightarrow> ('c \<Rightarrow> int) \<Rightarrow> ('s, 'c, 'o, 'a) prog \<Rightarrow> int \<Rightarrow> bool" where
  "credit N C (Done a) = (\<lambda>b. 0 \<le> b)"
| "credit N C (Await c k) = (\<lambda>b. C c \<le> b
     \<and> (\<forall>x s. case map_prod id (credit N C) (k x s) of (t, q) \<Rightarrow> q (b - C c + N t - N s)))"

definition affords :: "('s \<Rightarrow> int) \<Rightarrow> ('c \<Rightarrow> int) \<Rightarrow> int \<Rightarrow> ('s \<Rightarrow> 's \<times> ('s, 'c, 'o, 'a) prog) \<Rightarrow> bool" where
  "affords N C b m \<longleftrightarrow> (\<forall>s. credit N C (snd (m s)) (b + N (fst (m s)) - N s))"

lemma credit_Await [simp]:
  "credit N C (Await c k) b \<longleftrightarrow> C c \<le> b \<and> (\<forall>x s. credit N C (snd (k x s)) (b - C c + N (fst (k x s)) - N s))"
  by (simp add: case_prod_beta)

declare credit.simps(2) [simp del]

lemma credit_mono: "credit N C p b \<Longrightarrow> b \<le> d \<Longrightarrow> credit N C p d"
proof (induction p arbitrary: b d)
  case (Await c k)
  have "credit N C (snd (k x s)) (d - C c + N (fst (k x s)) - N s)" for x s
  proof -
    have "snd (k x s) \<in> Basic_BNFs.snds (k x s)"
      by (cases "k x s") simp
    moreover have "credit N C (snd (k x s)) (b - C c + N (fst (k x s)) - N s)"
      using Await.prems(1) by simp
    moreover have "b - C c + N (fst (k x s)) - N s \<le> d - C c + N (fst (k x s)) - N s"
      using Await.prems(2) by simp
    ultimately show ?thesis
      by (rule Await.IH [OF rangeI [of k x] rangeI [of "k x" s]])
  qed
  then show ?case
    using Await.prems by simp
qed simp

lemma affords_mono: "affords N C b m \<Longrightarrow> b \<le> d \<Longrightarrow> affords N C d m"
  unfolding affords_def by (meson add_right_mono credit_mono diff_right_mono)

lemma affords_extend:
  assumes "\<And>a. affords N C d (f a)" "0 \<le> d"
  shows "credit N C p b \<Longrightarrow> credit N C (snd (extend p f s)) (b + d + N (fst (extend p f s)) - N s)"
proof (induction p arbitrary: b s)
  case (Done a)
  then show ?case
    using assms(1) [of a] credit_mono [of N C "snd (f a s)" "d + N (fst (f a s)) - N s"] by (simp add: affords_def)
next
  case (Await c k)
  have "credit N C (snd (extend (snd (k x t)) f (fst (k x t))))
      (b + d - C c + N (fst (extend (snd (k x t)) f (fst (k x t)))) - N t)" for x t
  proof -
    have "snd (k x t) \<in> Basic_BNFs.snds (k x t)"
      by (cases "k x t") simp
    moreover have "credit N C (snd (k x t)) (b - C c + N (fst (k x t)) - N t)"
      using Await.prems by simp
    ultimately have "credit N C (snd (extend (snd (k x t)) f (fst (k x t))))
        (b - C c + N (fst (k x t)) - N t + d + N (fst (extend (snd (k x t)) f (fst (k x t)))) - N (fst (k x t)))"
      by (rule Await.IH [OF rangeI [of k x] rangeI [of "k x" t]])
    then show ?thesis
      by (simp add: algebra_simps)
  qed
  then show ?case
    using Await.prems assms(2) by (simp add: algebra_simps)
qed

lemma affords_sequence:
  assumes "affords N C b m" "\<And>r. affords N C d (f r)" "0 \<le> d"
  shows "affords N C (b + d) (\<lambda>s. case m s of (t, p) \<Rightarrow> extend p f t)"
  unfolding affords_def
proof
  fix s
  have "credit N C (snd (m s)) (b + N (fst (m s)) - N s)"
    using assms(1) by (simp add: affords_def)
  from affords_extend [OF assms(2,3) this, where s = "fst (m s)"]
  show "credit N C (snd (case m s of (t, p) \<Rightarrow> extend p f t)) (b + d + N (fst (case m s of (t, p) \<Rightarrow> extend p f t)) - N s)"
    by (simp add: case_prod_beta algebra_simps)
qed

lemma affords_simps [simp]:
  "affords N C b (return a) \<longleftrightarrow> 0 \<le> b" "affords N C b (raise e) \<longleftrightarrow> 0 \<le> b" "affords N C b (lift r) \<longleftrightarrow> 0 \<le> b"
  by (simp_all add: affords_def return_def raise_def lift_def)

lemma affords_bind:
  "affords N C b m \<Longrightarrow> (\<And>a. affords N C d (f a)) \<Longrightarrow> 0 \<le> d \<Longrightarrow> affords N C (b + d) (bind m f)"
  unfolding bind_def by (rule affords_sequence) (simp_all split: sum.split)

lemma affords_catching:
  "affords N C b m \<Longrightarrow> (\<And>e. affords N C d (h e)) \<Longrightarrow> 0 \<le> d \<Longrightarrow> affords N C (b + d) (catching m h)"
  unfolding catching_def by (rule affords_sequence) (simp_all split: sum.split)

lemma affords_await: "C c \<le> b \<Longrightarrow> (\<And>x. affords N C (b - C c) (f x)) \<Longrightarrow> affords N C b (bind (await c) f)"
  by (simp add: affords_def bind_def await_def)

lemma affords_update: "(\<And>s. N s \<le> N (f s)) \<Longrightarrow> 0 \<le> b \<Longrightarrow> affords N C b (update f)"
  by (simp add: affords_def update_def add_increasing)

lemma affords_reading:
  "(\<And>s. credit N C (snd (m s s)) (b + N (fst (m s s)) - N s)) \<Longrightarrow> affords N C b (reading m)"
  by (simp add: affords_def reading_def)

lemma affords_readingI: "(\<And>s. affords N C b (m s)) \<Longrightarrow> affords N C b (reading m)"
  by (simp add: affords_def reading_def)

lemma affords_ensuring:
  "affords N C b m \<Longrightarrow> affords N C d f \<Longrightarrow> 0 \<le> d \<Longrightarrow> affords N C (b + d) (ensuring m f)"
proof -
  assume m: "affords N C b m" and f: "affords N C d f" and d: "0 \<le> d"
  have "affords N C (d + 0) (bind f (\<lambda>_. lift r))" for r
    by (rule affords_bind [OF f]) simp_all
  then show ?thesis
    unfolding ensuring_def by (intro affords_sequence [OF m _ d]) simp
qed

section \<open>Running the first stretch\<close>

lemma bind_simps:
  "bind (return a) f s = f a s" "bind (raise e) f s = (s, Done (Inl e))" "bind (update g) h s = h () (g s)"
  "bind (lift r) f s = (case r of Inl e \<Rightarrow> (s, Done (Inl e)) | Inr a \<Rightarrow> f a s)"
  "bind (reading m) f s = bind (m s) f s"
  "bind (await c) k s = (s, Await c k)"
  by (simp_all add: bind_def return_def raise_def update_def lift_def reading_def await_def split: sum.split)

end
