(* ===== verification/Local_Channel.thy ===== *)
theory Local_Channel
  imports Input_Window Tasks Observability
begin

text \<open>
  \<^verbatim>\<open>realtime/local_channel.py\<close>: the controller that bridges one local channel to one realtime session. Its
  state is a record and its coroutines are tasks on it: the calls are what the coroutines await of the
  channel, the session, the opener and the clock, and an outcome is what comes back. Durations and the
  wake-up of a waiting producer are not modelled: a wait may be answered whenever what it waits for holds.
\<close>

section \<open>The state\<close>

record channel_config =
  lf_env :: json_env
  lf_ack_every :: int
  lf_batch_frames :: int
  lf_ms :: "pyfloat \<Rightarrow> nat \<Rightarrow> audio_format \<Rightarrow> pyfloat"
    \<comment> \<open>the floating-point sum of a time in ms and the length of some bytes of audio\<close>

definition channel_config_error :: "channel_config \<Rightarrow> string option" where
  \<comment> \<open>the check of the constructor, without its three timeouts\<close>
  "channel_config_error cf =
    (if lf_ack_every cf \<le> 0 \<or> lf_batch_frames cf \<le> 0 then Some ''local controller bounds must be positive'' else None)"

record channel =
  lc_bound :: bool \<comment> \<open>\<^verbatim>\<open>_channel\<close> is set\<close>
  lc_session :: bool \<comment> \<open>\<^verbatim>\<open>_session\<close> is set: there is at most one\<close>
  lc_current :: bool \<comment> \<open>\<^verbatim>\<open>is_current_generation\<close> of the session\<close>
  lc_generation :: int
  lc_correlation :: ustr
  lc_ready :: bool
  lc_started :: bool
  lc_stop_reason :: "ustr option"
  lc_terminal :: bool
  lc_input :: "input_window option"
  lc_batch :: "bytes list"
  lc_since_ack :: int
  lc_ack_timer :: bool \<comment> \<open>the timer task exists\<close>
  lc_event_task :: bool \<comment> \<open>the event task exists\<close>
  lc_events_done :: bool \<comment> \<open>the event task is done\<close>
  lc_output_sequence :: int
  lc_output_acked :: int
  lc_acked_bytes :: int
  lc_pending :: "(int \<times> nat) list"
  lc_pending_bytes :: int
  lc_active :: "place option"
  lc_completed :: "place set"
  lc_completed_order :: "place list"
  lc_ended :: "ustr set" \<comment> \<open>\<^verbatim>\<open>_terminal_responses\<close>\<close>
  lc_ended_order :: "ustr list"
  lc_late :: int
  lc_duplicates :: int
  lc_sent_bytes :: int
  lc_sent_ms :: pyfloat
  lc_played :: int
  lc_audio :: audio_format
  lc_log :: "diag_event list" \<comment> \<open>what \<^verbatim>\<open>_diagnostics.emit\<close> was called with\<close>

definition default_format :: "int \<Rightarrow> audio_format" where
  "default_format rate = \<lparr>af_codec = u ''pcm_s16le'', af_sample_rate = rate, af_channels = 1\<rparr>"

definition channel_init :: channel where
  "channel_init = \<lparr>lc_bound = False, lc_session = False, lc_current = True, lc_generation = 0,
     lc_correlation = [], lc_ready = False, lc_started = False, lc_stop_reason = None, lc_terminal = False,
     lc_input = None, lc_batch = [], lc_since_ack = 0, lc_ack_timer = False, lc_event_task = False,
     lc_events_done = False, lc_output_sequence = 0, lc_output_acked = 0, lc_acked_bytes = 0,
     lc_pending = [], lc_pending_bytes = 0, lc_active = None, lc_completed = {}, lc_completed_order = [],
     lc_ended = {}, lc_ended_order = [], lc_late = 0, lc_duplicates = 0, lc_sent_bytes = 0,
     lc_sent_ms = Fin 0, lc_played = 0, lc_audio = default_format 24000, lc_log = []\<rparr>"

definition playback_snapshot :: "channel \<Rightarrow> int \<times> pyfloat \<times> int" where
  "playback_snapshot s = (lc_sent_bytes s, lc_sent_ms s, lc_played s)"

datatype wire = Json dict ustr | Pcm bytes
  \<comment> \<open>a message with its text, or a frame\<close>

datatype call =
    C_receive | C_send wire | C_open open_request ustr | C_send_audio bytes | C_cancel_response
  | C_close_session "ustr option" | C_close_channel | C_room int nat | C_sleep | C_next_event
  | C_join_events | C_join_timer | C_start

datatype outcome =
    O_done | O_text ustr | O_binary bytes | O_event rt_event | O_end | O_timeout | O_raised exn

type_synonym 'a chan_task = "(channel, call, outcome, exn, 'a) task"

definition connection_error :: exn where
  \<comment> \<open>EOFError, ConnectionError and asyncio.IncompleteReadError\<close>
  "connection_error = OtherErr ''connection''"

section \<open>Diagnostics and bookkeeping\<close>

definition late :: "channel \<Rightarrow> channel" where
  "late s = s\<lparr>lc_late := lc_late s + 1\<rparr>"

definition record_local :: "diag_stage \<Rightarrow> error_code option \<Rightarrow> close_disposition option \<Rightarrow> channel \<Rightarrow> channel" where
  \<comment> \<open>\<^verbatim>\<open>_record_local_state\<close>\<close>
  "record_local stage code cls s =
    (if lc_correlation s = [] then s
     else s\<lparr>lc_log := lc_log s @ [(diag (lc_correlation s) stage)\<lparr>dg_stable_code := code, dg_close_class := cls,
              dg_generation := Some (lc_generation s)\<rparr>]\<rparr>)"

definition record_timeout :: "error_code \<Rightarrow> channel \<Rightarrow> channel" where
  "record_timeout code s = record_local DS_LOCAL_TIMEOUT (Some code) None s"

fun expire :: "'a list \<Rightarrow> 'a set \<Rightarrow> 'a list \<times> 'a set" where
  \<comment> \<open>the \<^verbatim>\<open>while\<close> loop that forgets what is older than the last 64\<close>
  "expire [] A = ([], A)"
| "expire (x # xs) A = (if WINDOW_FRAMES < int (length (x # xs)) then expire xs (A - {x}) else (x # xs, A))"

definition remember_completed :: "place \<Rightarrow> channel \<Rightarrow> channel" where
  "remember_completed p s =
    (case expire (lc_completed_order s @ [p]) (insert p (lc_completed s)) of
       (order, A) \<Rightarrow> s\<lparr>lc_completed := A, lc_completed_order := order\<rparr>)"

definition remember_ended :: "ustr \<Rightarrow> channel \<Rightarrow> channel" where
  \<comment> \<open>\<^verbatim>\<open>_remember_terminal_response\<close>\<close>
  "remember_ended r s =
    (if r \<in> lc_ended s then s
     else (case expire (lc_ended_order s @ [r]) (insert r (lc_ended s)) of
             (order, A) \<Rightarrow> s\<lparr>lc_ended := A, lc_ended_order := order\<rparr>))"

definition output_current :: "int \<Rightarrow> channel \<Rightarrow> bool" where
  \<comment> \<open>\<^verbatim>\<open>_output_generation_current\<close>\<close>
  "output_current g s \<longleftrightarrow> g = lc_generation s \<and> (lc_session s \<longrightarrow> lc_current s)"

definition output_room :: "nat \<Rightarrow> channel \<Rightarrow> bool" where
  "output_room n s \<longleftrightarrow> int (length (lc_pending s)) < WINDOW_FRAMES \<and> lc_pending_bytes s + int n \<le> WINDOW_BYTES"

definition audio_json :: "audio_format \<Rightarrow> pyval" where
  "audio_json f = VDict [(u ''codec'', VStr (af_codec f)), (u ''sample_rate'', VInt (af_sample_rate f)),
     (u ''channels'', VInt (af_channels f))]"

definition closed_reason_for_error :: "error_code \<Rightarrow> string" where
  "closed_reason_for_error c =
    (if c = E_BUSY then ''busy''
     else if c = E_INTERNAL then ''internal''
     else if c = E_PROTOCOL_ERROR then ''protocol_error''
     else if c = E_SESSION_EXPIRED then ''session_expired''
     else if c = E_TIMEOUT then ''timeout''
     else if c \<in> {E_FORBIDDEN, E_RATE_LIMITED, E_UNAUTHENTICATED, E_UNAVAILABLE, E_BILLING_REJECTED}
     then ''provider_error''
     else if c \<in> {E_INVALID_REQUEST, E_UNSUPPORTED} then ''protocol_error'' else ''internal'')"

definition CLOSED_REASONS :: "ustr list" where
  "CLOSED_REASONS = map u [''client_hangup'', ''app_shutdown'', ''session_expired'', ''provider_error'',
     ''network_error'', ''timeout'', ''protocol_error'', ''busy'', ''internal'']"

definition closed_reason :: "session_closed \<Rightarrow> ustr" where
  "closed_reason e =
    (if sc_reason e \<in> set CLOSED_REASONS then sc_reason e
     else if sc_disposition e = CD_CLEAN_EXPIRED then u ''session_expired''
     else u (case sc_initiator e of
               CI_CLIENT \<Rightarrow> ''client_hangup'' | CI_NETWORK \<Rightarrow> ''network_error'' | CI_PROVIDER \<Rightarrow> ''provider_error''
             | CI_RELAY \<Rightarrow> ''provider_error'' | CI_SHUTDOWN \<Rightarrow> ''app_shutdown'' | CI_TIMEOUT \<Rightarrow> ''timeout''))"

section \<open>Sending and closing\<close>

definition raised :: "outcome \<Rightarrow> unit chan_task" where
  \<comment> \<open>go on, or raise what the call raised\<close>
  "raised x = (case x of O_raised e \<Rightarrow> raise e | _ \<Rightarrow> return ())"

definition suppressed :: "outcome \<Rightarrow> unit chan_task" where
  \<comment> \<open>\<^verbatim>\<open>contextlib.suppress(Exception)\<close>: only a cancellation goes through\<close>
  "suppressed x = (case x of O_raised CancelledErr \<Rightarrow> raise CancelledErr | _ \<Rightarrow> return ())"

definition cancel_active_response :: "unit chan_task" where
  "cancel_active_response =
    reading (\<lambda>s. if lc_session s then bind (await C_cancel_response) suppressed else return ())"

definition send_channel :: "wire \<Rightarrow> bool \<Rightarrow> unit chan_task" where
  "send_channel w cancel_on_timeout =
    bind (await (C_send w)) (\<lambda>x.
      case x of
        O_timeout \<Rightarrow>
          bind (update (record_timeout E_BUSY)) (\<lambda>_.
          bind (if cancel_on_timeout then cancel_active_response else return ()) (\<lambda>_.
            raise (rt_error E_BUSY ''local product write timeout'')))
      | _ \<Rightarrow> raised x)"

definition send_json :: "channel_config \<Rightarrow> dict \<Rightarrow> unit chan_task" where
  "send_json cf v = bind (lift (encode_local_message (lf_env cf) v)) (\<lambda>t. send_channel (Json v t) True)"

definition try_send_json :: "channel_config \<Rightarrow> dict \<Rightarrow> unit chan_task" where
  "try_send_json cf v =
    catching (bind (lift (encode_local_message (lf_env cf) v)) (\<lambda>t. send_channel (Json v t) False))
      (\<lambda>e. if e = CancelledErr then raise e else return ())"

definition send_event :: "channel_config \<Rightarrow> rt_event \<Rightarrow> unit chan_task" where
  \<comment> \<open>\<^verbatim>\<open>_send_channel(encode_domain_event(self._generation, event))\<close>\<close>
  "send_event cf e = reading (\<lambda>s.
    bind (lift (domain_event_value e)) (\<lambda>d.
    bind (lift (encode_domain_event (lf_env cf) (lc_generation s) e)) (\<lambda>t.
      send_channel (Json (call_event (lc_generation s) d) t) True)))"

definition close_session :: "ustr option \<Rightarrow> unit chan_task" where
  "close_session reason = reading (\<lambda>s.
    bind (update (\<lambda>s. s\<lparr>lc_session := False\<rparr>)) (\<lambda>_.
      if lc_session s then
        bind (await (C_close_session reason)) (\<lambda>x.
          case x of O_timeout \<Rightarrow> update (record_timeout E_TIMEOUT) | _ \<Rightarrow> suppressed x)
      else return ()))"

definition close_channel :: "unit chan_task" where
  "close_channel = bind (await C_close_channel) suppressed"

definition claim_terminal :: "bool chan_task" where
  "claim_terminal = reading (\<lambda>s.
    if lc_terminal s then return False
    else bind (update (\<lambda>s. s\<lparr>lc_terminal := True\<rparr>)) (\<lambda>_. return True))"

definition call_message :: "string \<Rightarrow> channel \<Rightarrow> (string \<times> pyval) list \<Rightarrow> dict" where
  \<comment> \<open>a message of the current generation\<close>
  "call_message t s fs =
     (u ''type'', vs t) # (u ''generation'', VInt (lc_generation s)) # map (\<lambda>(k, v). (u k, v)) fs"

definition fail_call :: "channel_config \<Rightarrow> error_code \<Rightarrow> bool \<Rightarrow> unit chan_task" where
  \<comment> \<open>\<^verbatim>\<open>_fail\<close>\<close>
  "fail_call cf code retryable =
    bind claim_terminal (\<lambda>claimed.
      if \<not> claimed then return ()
      else
        (let cls = (if retryable then CD_RETRYABLE else CD_FATAL) in
         bind (update (record_local DS_LOCAL_ERROR (Some code) (Some cls))) (\<lambda>_.
         bind (close_session None) (\<lambda>_.
         bind (reading (\<lambda>s. try_send_json cf (call_message ''call.state'' s [(''state'', vs ''error'')]))) (\<lambda>_.
         bind (reading (\<lambda>s. try_send_json cf (call_message ''call.error'' s
                 [(''code'', VStr (code_value code)), (''retryable'', VBool retryable)]))) (\<lambda>_.
         bind (reading (\<lambda>s. try_send_json cf (call_message ''call.closed'' s
                 [(''reason'', vs (closed_reason_for_error code))]))) (\<lambda>_.
         bind (update (record_local DS_LOCAL_CLOSED (Some code) (Some cls))) (\<lambda>_.
           close_channel))))))))"

section \<open>Audio of the product\<close>

definition flush_batch :: "channel_config \<Rightarrow> unit chan_task" where
  \<comment> \<open>\<^verbatim>\<open>_flush_input_batch\<close>\<close>
  "flush_batch cf = reading (\<lambda>s.
    if lc_batch s = [] then return ()
    else if \<not> lc_session s then raise (protocol_error ''call is not active'')
    else
      bind (await (C_send_audio (concat (lc_batch s)))) (\<lambda>x.
        case x of
          O_timeout \<Rightarrow>
            bind (update (record_timeout E_BUSY)) (\<lambda>_.
            bind cancel_active_response (\<lambda>_. fail_call cf E_BUSY False))
        | O_raised e \<Rightarrow> raise e
        | _ \<Rightarrow> update (\<lambda>t. t\<lparr>lc_batch := [], lc_since_ack := lc_since_ack t + int (length (lc_batch s))\<rparr>)))"

definition input_ack :: "channel \<Rightarrow> input_window \<Rightarrow> dict" where
  "input_ack s w = call_message ''call.audio_ack'' s
     [(''direction'', vs ''input''), (''highest_contiguous_sequence'', VInt (iw_highest w))]"

definition send_input_ack :: "channel_config \<Rightarrow> unit chan_task" where
  "send_input_ack cf = reading (\<lambda>s.
    case lc_input s of
      None \<Rightarrow> raise (OtherErr ''AssertionError'')
    | Some w \<Rightarrow>
        if lc_since_ack s = 0 then return ()
        else bind (update (\<lambda>s. s\<lparr>lc_since_ack := 0\<rparr>)) (\<lambda>_. send_json cf (input_ack s w)))"

definition delayed_input_ack :: "channel_config \<Rightarrow> unit chan_task" where
  "delayed_input_ack cf =
    ensuring (bind (await C_sleep) (\<lambda>x. bind (raised x) (\<lambda>_. send_input_ack cf)))
      (update (\<lambda>s. s\<lparr>lc_ack_timer := False\<rparr>))"

definition take_frame :: "pcm_frame \<Rightarrow> channel \<Rightarrow> bytes list option res \<times> channel" where
  \<comment> \<open>the window takes the frame: nothing to do, or the audio that is now in order\<close>
  "take_frame f s =
    (case lc_input s of
       None \<Rightarrow> (Inl (protocol_error ''binary before call.ready''), s)
     | Some w \<Rightarrow>
         if pf_generation f \<noteq> lc_generation s then (Inr None, late s)
         else
           (case input_accept w f of
              None \<Rightarrow> (Inl (OtherErr ''no result''), s) \<comment> \<open>does not happen: the loop of the window ends\<close>
            | Some (Inl e, w') \<Rightarrow> (Inl e, s\<lparr>lc_input := Some w'\<rparr>)
            | Some (Inr ready, w') \<Rightarrow>
                if ready = [] \<and> pf_sequence f \<le> max (iw_highest w) (iw_highest w')
                then (Inr None, s\<lparr>lc_input := Some w', lc_duplicates := lc_duplicates s + 1\<rparr>)
                else (Inr (Some ready), s\<lparr>lc_input := Some w'\<rparr>)))"

definition taking :: "(channel \<Rightarrow> 'a res \<times> channel) \<Rightarrow> 'a chan_task" where
  \<comment> \<open>an operation of the state that may raise\<close>
  "taking f s = (case f s of (r, t) \<Rightarrow> (t, Done r))"

fun push_audio :: "channel_config \<Rightarrow> bytes list \<Rightarrow> bool chan_task" where
  \<comment> \<open>the \<^verbatim>\<open>for\<close> loop over the audio; the result is whether it ran to its end\<close>
  "push_audio cf [] = return True"
| "push_audio cf (pcm # ready) =
    bind (update (\<lambda>s. s\<lparr>lc_batch := lc_batch s @ [pcm]\<rparr>)) (\<lambda>_. reading (\<lambda>s.
      if lf_batch_frames cf \<le> int (length (lc_batch s))
      then bind (flush_batch cf) (\<lambda>_. reading (\<lambda>s. if lc_terminal s then return False else push_audio cf ready))
      else push_audio cf ready))"

definition acknowledge_input :: "channel_config \<Rightarrow> unit chan_task" where
  \<comment> \<open>the end of \<^verbatim>\<open>_handle_input_audio\<close>\<close>
  "acknowledge_input cf = reading (\<lambda>s.
    if lf_ack_every cf \<le> lc_since_ack s then send_input_ack cf
    else if lc_since_ack s \<noteq> 0 \<and> \<not> lc_ack_timer s then update (\<lambda>s. s\<lparr>lc_ack_timer := True\<rparr>)
    else return ())"

definition handle_input_audio :: "channel_config \<Rightarrow> bytes \<Rightarrow> unit chan_task" where
  "handle_input_audio cf payload = reading (\<lambda>s.
    if \<not> lc_ready s \<or> \<not> lc_session s \<or> lc_input s = None
    then raise (protocol_error ''binary before call.ready'')
    else
      bind (lift (decode_pcm_frame payload)) (\<lambda>f.
      bind (taking (take_frame f)) (\<lambda>ready.
        case ready of
          None \<Rightarrow> return ()
        | Some ready \<Rightarrow>
            bind (push_audio cf ready) (\<lambda>all. if all then acknowledge_input cf else return ()))))"

section \<open>Audio of the session\<close>

definition chunks :: "nat \<Rightarrow> bytes \<Rightarrow> bytes list" where
  \<comment> \<open>\<^verbatim>\<open>pcm[offset : offset + n] for offset in range(0, len(pcm), n)\<close>\<close>
  "chunks n pcm = map (\<lambda>i. take n (drop (i * n) pcm)) [0..<(length pcm + n - 1) div n]"

definition OUTPUT_CHUNK :: nat where "OUTPUT_CHUNK = 262144"

definition reserve_output :: "bytes \<Rightarrow> channel \<Rightarrow> channel" where
  "reserve_output pcm s =
    s\<lparr>lc_output_sequence := lc_output_sequence s + 1,
      lc_pending := lc_pending s @ [(lc_output_sequence s + 1, length pcm)],
      lc_pending_bytes := lc_pending_bytes s + int (length pcm)\<rparr>"

definition count_sent :: "channel_config \<Rightarrow> int \<Rightarrow> bytes \<Rightarrow> channel \<Rightarrow> channel" where
  "count_sent cf g pcm s =
    (if \<not> lc_terminal s \<and> g = lc_generation s
     then s\<lparr>lc_sent_bytes := lc_sent_bytes s + int (length pcm),
            lc_sent_ms := lf_ms cf (lc_sent_ms s) (length pcm) (lc_audio s)\<rparr>
     else s)"

definition write_chunk :: "channel_config \<Rightarrow> int \<Rightarrow> bytes \<Rightarrow> unit chan_task" where
  \<comment> \<open>\<^verbatim>\<open>_send_output_chunk\<close> once there is room\<close>
  "write_chunk cf g pcm = reading (\<lambda>s.
    if lc_terminal s \<or> \<not> output_current g s then return ()
    else
      bind (update (reserve_output pcm)) (\<lambda>_.
      bind (lift (encode_pcm_frame \<lparr>pf_direction = DIR_OUTPUT, pf_generation = lc_generation s,
                    pf_sequence = lc_output_sequence s + 1, pf_payload = pcm\<rparr>)) (\<lambda>b.
      bind (send_channel (Pcm b) True) (\<lambda>_. update (count_sent cf g pcm)))))"

definition send_output_chunk :: "channel_config \<Rightarrow> int \<Rightarrow> bytes \<Rightarrow> unit chan_task" where
  "send_output_chunk cf g pcm = reading (\<lambda>s.
    if output_room (length pcm) s then write_chunk cf g pcm
    else
      bind (await (C_room g (length pcm))) (\<lambda>x.
        case x of
          O_timeout \<Rightarrow> reading (\<lambda>s.
            if \<not> output_current g s then update late
            else bind (update (record_timeout E_BUSY)) (\<lambda>_.
                 bind cancel_active_response (\<lambda>_. fail_call cf E_BUSY False)))
        | O_raised e \<Rightarrow> raise e
        | _ \<Rightarrow> write_chunk cf g pcm))"

fun send_chunks :: "channel_config \<Rightarrow> int \<Rightarrow> bytes list \<Rightarrow> unit chan_task" where
  "send_chunks cf g [] = return ()"
| "send_chunks cf g (c # cs) =
    bind (send_output_chunk cf g c) (\<lambda>_. reading (\<lambda>s. if lc_terminal s then return () else send_chunks cf g cs))"

definition send_output_audio :: "channel_config \<Rightarrow> int \<Rightarrow> bytes \<Rightarrow> unit chan_task" where
  "send_output_audio cf g pcm = reading (\<lambda>s.
    if \<not> output_current g s then update late
    else if pcm = [] \<or> length pcm mod 2 \<noteq> 0 then fail_call cf E_PROTOCOL_ERROR False
    else send_chunks cf g (chunks OUTPUT_CHUNK pcm))"

fun pop_acked :: "int \<Rightarrow> (int \<times> nat) list \<Rightarrow> (int \<times> nat) list" where
  \<comment> \<open>the \<^verbatim>\<open>while\<close> loop of \<^verbatim>\<open>_handle_output_ack\<close>: what is left\<close>
  "pop_acked h [] = []"
| "pop_acked h (p # ps) = (if fst p \<le> h then pop_acked h ps else p # ps)"

definition bytes_of :: "(int \<times> nat) list \<Rightarrow> int" where
  "bytes_of ps = (\<Sum>p \<leftarrow> ps. int (snd p))"

definition acknowledged_bytes :: "int \<Rightarrow> channel \<Rightarrow> int" where
  "acknowledged_bytes h s = lc_acked_bytes s + bytes_of (filter (\<lambda>p. fst p \<le> h) (lc_pending s))"

definition position_ok :: "pyval \<Rightarrow> int \<Rightarrow> channel \<Rightarrow> bool" where
  \<comment> \<open>the comparison of the position with the floating-point quotient agrees with the exact one here: the
     quotient of less than \<open>2 ^ 47\<close> ms is not rounded across an integer\<close>
  "position_ok v h s =
    (case v of
       VInt p \<Rightarrow> lc_played s \<le> p
         \<and> p * (2 * af_sample_rate (lc_audio s) * af_channels (lc_audio s)) \<le> acknowledged_bytes h s * 1000
     | _ \<Rightarrow> False)"

definition output_acked :: "int \<Rightarrow> int \<Rightarrow> channel \<Rightarrow> channel" where
  "output_acked h position s =
    (let s1 = s\<lparr>lc_played := position\<rparr>
     in if h \<le> lc_output_acked s then s1
        else (let rest = pop_acked h (lc_pending s); gone = bytes_of (lc_pending s) - bytes_of rest
              in s1\<lparr>lc_output_acked := h, lc_pending := rest,
                    lc_pending_bytes := lc_pending_bytes s - gone, lc_acked_bytes := lc_acked_bytes s + gone\<rparr>))"

definition handle_output_ack :: "dict \<Rightarrow> channel \<Rightarrow> unit res \<times> channel" where
  "handle_output_ack v s =
    (if \<not> lc_ready s then (Inl (protocol_error ''call is not active''), s)
     else if \<not> py_eq (dget v (u ''direction'')) (vs ''output'')
     then (Inl (protocol_error ''invalid ACK direction''), s)
     else
       (case dget v (u ''highest_contiguous_sequence'') of
          VInt h \<Rightarrow>
            if h < 0 then (Inl (protocol_error ''invalid ACK sequence''), s)
            else if lc_output_sequence s < h then (Inl (protocol_error ''ACK exceeds sent output''), s)
            else
              (let position = get_or v ''played_audio_ms'' (VInt (lc_played s))
               in if position_ok position h s
                  then (case position of VInt p \<Rightarrow> (Inr (), output_acked h p s) | _ \<Rightarrow> (Inr (), s))
                  else (Inl (protocol_error ''invalid playback position''), s))
        | _ \<Rightarrow> (Inl (protocol_error ''invalid ACK sequence''), s)))"

section \<open>Messages of the product\<close>

definition receive_hello :: "channel_config \<Rightarrow> unit chan_task" where
  "receive_hello cf =
    bind (await C_receive) (\<lambda>x.
      case x of
        O_text t \<Rightarrow>
          bind (lift (decode_local_message (lf_env cf) t)) (\<lambda>v.
            if \<not> py_eq (dget v (u ''type'')) (vs ''local.hello'') then raise (protocol_error ''local.hello required'')
            else
              (case (dget v (u ''generation''), dget v (u ''correlation'')) of
                 (VInt g, VStr c) \<Rightarrow>
                   if g \<noteq> 1 \<or> \<not> correlation_ok c then raise (protocol_error ''invalid local.hello'')
                   else update (\<lambda>s. s\<lparr>lc_generation := g, lc_correlation := c, lc_input := Some (input_window_init g)\<rparr>)
               | _ \<Rightarrow> raise (protocol_error ''invalid local.hello'')))
      | O_binary b \<Rightarrow> raise (protocol_error ''local.hello must be text'')
      | _ \<Rightarrow> raised x)"

definition feature_of :: "pyval \<Rightarrow> feature option" where
  \<comment> \<open>\<^verbatim>\<open>RealtimeFeature(item)\<close>, \<open>None\<close> where it raises\<close>
  "feature_of v = (case v of VStr s \<Rightarrow> find (\<lambda>f. u (feature_name f) = s) all_features | _ \<Rightarrow> None)"

definition start_request :: "channel_config \<Rightarrow> channel \<Rightarrow> ustr \<Rightarrow> feature list \<Rightarrow> open_request" where
  "start_request cf s instructions features =
     \<lparr>or_external_session_id = u ''local-generation-'' @ nat_text (nat (lc_generation s)),
      or_instructions = instructions, or_required_features = features,
      or_input_audio = default_format 16000, or_output_audio = default_format 24000, or_tools = VList []\<rparr>"

definition requested_features :: "dict \<Rightarrow> (ustr \<times> feature list) res" where
  \<comment> \<open>the instructions and the features of \<^verbatim>\<open>call.start\<close>\<close>
  "requested_features v =
    (case (dget v (u ''instructions''), dget v (u ''required_features'')) of
       (VStr text, VList raw) \<Rightarrow>
         if text = [] then Inl (protocol_error ''invalid call.start'')
         else if list_ex (\<lambda>x. feature_of x = None) raw then Inl (protocol_error ''invalid required_features'')
         else
           (let fs = map (\<lambda>x. the (feature_of x)) raw
            in if distinct fs then Inr (text, fs) else Inl (protocol_error ''duplicate required feature''))
     | _ \<Rightarrow> Inl (protocol_error ''invalid call.start''))"

definition open_session :: "channel_config \<Rightarrow> open_request \<Rightarrow> unit chan_task" where
  \<comment> \<open>the end of \<^verbatim>\<open>_start_call\<close>: the session is bound, and the event task is created; the host's
    \<^verbatim>\<open>bind_session\<close>, which only stores the session, is taken not to raise\<close>
  "open_session cf r = reading (\<lambda>s.
    bind (await (C_open r (lc_correlation s))) (\<lambda>x.
      case x of
        O_raised (RealtimeErr c m b f rs fc) \<Rightarrow> fail_call cf c b
      | O_raised e \<Rightarrow> raise e
      | _ \<Rightarrow> update (\<lambda>s. s\<lparr>lc_session := True, lc_event_task := True\<rparr>)))"

definition start_call :: "channel_config \<Rightarrow> dict \<Rightarrow> unit chan_task" where
  "start_call cf v = reading (\<lambda>s.
    if lc_started s then raise (protocol_error ''duplicate call.start'')
    else
      bind (lift (requested_features v)) (\<lambda>(text, fs).
      bind (update (\<lambda>s. s\<lparr>lc_started := True\<rparr>)) (\<lambda>_.
      bind (send_json cf (call_message ''call.state'' s [(''state'', vs ''connecting'')])) (\<lambda>_.
      bind (update (record_local DS_LOCAL_CONNECTING None None)) (\<lambda>_. reading (\<lambda>s.
      bind (lift (open_request_init (lf_env cf) (start_request cf s text fs))) (\<lambda>_.
        open_session cf (start_request cf s text fs))))))))"

definition join_events :: "channel_config \<Rightarrow> bool \<Rightarrow> unit chan_task" where
  \<comment> \<open>the wait for the event task at the end of \<^verbatim>\<open>_stop_call\<close>\<close>
  "join_events cf running =
    (if running then
       bind (await C_join_events) (\<lambda>x.
         case x of
           O_timeout \<Rightarrow> bind (update (record_timeout E_TIMEOUT)) (\<lambda>_. fail_call cf E_TIMEOUT True)
         | _ \<Rightarrow> raised x)
     else return ())"

definition stop_call :: "channel_config \<Rightarrow> dict \<Rightarrow> unit chan_task" where
  "stop_call cf v = reading (\<lambda>s.
    if \<not> lc_started s then raise (protocol_error ''call.start required'')
    else
      bind (lift (in_texts (dget v (u ''reason'')) [''client_hangup'', ''app_shutdown''])) (\<lambda>known.
        case dget v (u ''reason'') of
          VStr reason \<Rightarrow>
            if \<not> known then raise (protocol_error ''invalid stop reason'')
            else
              bind (update (\<lambda>s. s\<lparr>lc_stop_reason := Some reason\<rparr>)) (\<lambda>_.
              bind (flush_batch cf) (\<lambda>_. reading (\<lambda>s.
                if lc_terminal s then return ()
                else
                  bind (send_json cf (call_message ''call.state'' s [(''state'', vs ''closing'')])) (\<lambda>_.
                  bind (update (record_local DS_LOCAL_CLOSING None None)) (\<lambda>_. reading (\<lambda>s.
                  bind (close_session (Some reason)) (\<lambda>_. reading (\<lambda>t.
                    join_events cf (lc_event_task s \<and> \<not> lc_events_done t)))))))))
        | _ \<Rightarrow> raise (protocol_error ''invalid stop reason'')))"

definition barge_in :: "channel_config \<Rightarrow> unit chan_task" where
  "barge_in cf = reading (\<lambda>s.
    if \<not> lc_ready s \<or> \<not> lc_session s then raise (protocol_error ''call is not active'')
    else
      bind (flush_batch cf) (\<lambda>_. reading (\<lambda>s.
        if lc_terminal s then return ()
        else if \<not> lc_session s then raise (OtherErr ''AttributeError'')
        else bind (await C_cancel_response) raised)))"

definition handle_message :: "channel_config \<Rightarrow> dict \<Rightarrow> unit chan_task" where
  "handle_message cf v = reading (\<lambda>s.
    if \<not> py_eq (dget v (u ''generation'')) (VInt (lc_generation s)) then update late
    else if py_eq (dget v (u ''type'')) (vs ''call.start'') then start_call cf v
    else if py_eq (dget v (u ''type'')) (vs ''call.stop'') then stop_call cf v
    else if py_eq (dget v (u ''type'')) (vs ''call.barge_in'') then barge_in cf
    else if py_eq (dget v (u ''type'')) (vs ''call.audio_ack'') then taking (handle_output_ack v)
    else raise (protocol_error ''unexpected local message''))"

definition receive_message :: "channel_config \<Rightarrow> unit chan_task" where
  \<comment> \<open>one turn of the loop of \<^verbatim>\<open>run\<close>\<close>
  "receive_message cf =
    bind (await C_receive) (\<lambda>x.
      case x of
        O_binary b \<Rightarrow> handle_input_audio cf b
      | O_text t \<Rightarrow> bind (lift (decode_local_message (lf_env cf) t)) (handle_message cf)
      | _ \<Rightarrow> raised x)"

definition run_error :: "channel_config \<Rightarrow> exn \<Rightarrow> bool chan_task" where
  \<comment> \<open>the \<^verbatim>\<open>except\<close> clauses of \<^verbatim>\<open>run\<close>\<close>
  "run_error cf e =
    (if e = CancelledErr then raise e
     else
       bind (if e = connection_error then close_session None
             else (case e of
                     RealtimeErr c m b f r fc \<Rightarrow> fail_call cf c b
                   | _ \<Rightarrow> fail_call cf (if is_value_error e then E_PROTOCOL_ERROR else E_INTERNAL) False))
         (\<lambda>_. return False))"

definition run_turn :: "channel_config \<Rightarrow> bool \<Rightarrow> bool chan_task" where
  \<comment> \<open>the first turn receives the hello; the result is whether the loop goes on\<close>
  "run_turn cf first =
    catching (bind (if first then receive_hello cf else receive_message cf) (\<lambda>_. return True)) (run_error cf)"

definition run_start :: "channel_config \<Rightarrow> bool chan_task" where
  "run_start cf = reading (\<lambda>s.
    if lc_bound s then raise RuntimeErr
    else bind (update (\<lambda>s. s\<lparr>lc_bound := True\<rparr>)) (\<lambda>_. run_turn cf True))"

definition joined :: "outcome \<Rightarrow> unit chan_task" where
  \<comment> \<open>\<^verbatim>\<open>contextlib.suppress(asyncio.CancelledError)\<close>\<close>
  "joined x = (case x of O_raised e \<Rightarrow> if e = CancelledErr then return () else raise e | _ \<Rightarrow> return ())"

definition run_end :: "unit chan_task" where
  \<comment> \<open>the \<^verbatim>\<open>finally\<close> clause of \<^verbatim>\<open>run\<close>; a cancelled task may be answered with the cancellation\<close>
  "run_end = reading (\<lambda>s.
    bind (if lc_ack_timer s then bind (await C_join_timer) joined else return ()) (\<lambda>_. reading (\<lambda>s.
    bind (if lc_event_task s then bind (await C_join_events) joined else return ()) (\<lambda>_.
    bind (close_session None) (\<lambda>_.
    bind (await C_close_channel) raised)))))"

section \<open>Events of the session\<close>

definition ready_event :: "channel_config \<Rightarrow> ustr \<Rightarrow> audio_format \<Rightarrow> audio_format \<Rightarrow> bool chan_task" where
  "ready_event cf corr inp out = reading (\<lambda>s.
    if lc_ready s \<or> corr \<noteq> lc_correlation s
    then bind (fail_call cf E_PROTOCOL_ERROR False) (\<lambda>_. return False)
    else
      bind (update (\<lambda>s. s\<lparr>lc_ready := True, lc_audio := out\<rparr>)) (\<lambda>_.
      bind (send_json cf (call_message ''call.ready'' s
              [(''correlation'', VStr corr), (''input_audio'', audio_json inp), (''output_audio'', audio_json out)])) (\<lambda>_.
      bind (reading (\<lambda>s. send_json cf (call_message ''call.state'' s [(''state'', vs ''active'')]))) (\<lambda>_.
      bind (update (record_local DS_LOCAL_ACTIVE None None)) (\<lambda>_. return True)))))"

definition protocol_stop :: "channel_config \<Rightarrow> bool chan_task" where
  "protocol_stop cf = bind (fail_call cf E_PROTOCOL_ERROR False) (\<lambda>_. return False)"

definition then_on :: "unit chan_task \<Rightarrow> bool chan_task" where
  "then_on m = bind m (\<lambda>_. return True)"

definition audio_started_event :: "channel_config \<Rightarrow> place \<Rightarrow> rt_event \<Rightarrow> bool chan_task" where
  "audio_started_event cf p e = reading (\<lambda>s.
    if fst p \<in> lc_ended s then then_on (update late)
    else if lc_active s \<noteq> None \<and> lc_active s \<noteq> Some p then protocol_stop cf
    else if p \<in> lc_completed s then then_on (update late)
    else then_on (bind (update (\<lambda>s. s\<lparr>lc_active := Some p\<rparr>)) (\<lambda>_. send_event cf e)))"

definition audio_event :: "channel_config \<Rightarrow> int \<Rightarrow> place \<Rightarrow> bytes \<Rightarrow> bool chan_task" where
  "audio_event cf g p pcm = reading (\<lambda>s.
    if fst p \<in> lc_ended s \<or> p \<in> lc_completed s then then_on (update late)
    else if lc_active s \<noteq> Some p then protocol_stop cf
    else then_on (send_output_audio cf g pcm))"

definition audio_completed_event :: "channel_config \<Rightarrow> place \<Rightarrow> rt_event \<Rightarrow> bool chan_task" where
  "audio_completed_event cf p e = reading (\<lambda>s.
    if fst p \<in> lc_ended s \<or> p \<in> lc_completed s then then_on (update late)
    else if lc_active s \<noteq> Some p then protocol_stop cf
    else then_on (bind (update (\<lambda>s. remember_completed p (s\<lparr>lc_active := None\<rparr>))) (\<lambda>_. send_event cf e)))"

definition end_response :: "ustr \<Rightarrow> channel \<Rightarrow> channel" where
  \<comment> \<open>what \<^verbatim>\<open>ResponseFinished\<close> does to the state\<close>
  "end_response r s =
    (let s1 = remember_ended r s
     in case lc_active s1 of
          Some p \<Rightarrow> if fst p = r then remember_completed p (s1\<lparr>lc_active := None\<rparr>) else s1
        | None \<Rightarrow> s1)"

definition closed_event_task :: "channel_config \<Rightarrow> session_closed \<Rightarrow> unit chan_task" where
  "closed_event_task cf e =
    bind claim_terminal (\<lambda>claimed.
      if \<not> claimed then return ()
      else
        bind (reading (\<lambda>s. try_send_json cf (call_message ''call.closed'' s
                [(''reason'', VStr (case lc_stop_reason s of
                                     Some r \<Rightarrow> if r = [] then closed_reason e else r | None \<Rightarrow> closed_reason e))]))) (\<lambda>_.
        bind (update (record_local DS_LOCAL_CLOSED None (Some (sc_disposition e)))) (\<lambda>_. close_channel)))"

definition on_event :: "channel_config \<Rightarrow> int \<Rightarrow> rt_event \<Rightarrow> bool chan_task" where
  \<comment> \<open>one turn of the loop of \<^verbatim>\<open>_forward_events\<close>; the result is whether the loop goes on\<close>
  "on_event cf g e = reading (\<lambda>s.
    if g \<noteq> lc_generation s then then_on (update late)
    else if lc_terminal s then return False
    else
      (case e of
         SessionReady n corr inp out tools \<Rightarrow> ready_event cf corr inp out
       | OutputAudioStarted r i oi ci \<Rightarrow> audio_started_event cf (r, i, oi, ci) e
       | OutputAudio r i oi ci pcm \<Rightarrow> audio_event cf g (r, i, oi, ci) pcm
       | OutputAudioCompleted r i oi ci \<Rightarrow> audio_completed_event cf (r, i, oi, ci) e
       | ResponseFinished r st us loc \<Rightarrow> then_on (bind (update (end_response r)) (\<lambda>_. send_event cf e))
       | SessionFailed x \<Rightarrow> bind (fail_call cf (sf_code x) (sf_retryable x)) (\<lambda>_. return False)
       | SessionClosed c \<Rightarrow> bind (closed_event_task cf c) (\<lambda>_. return False)
       | _ \<Rightarrow> then_on (send_event cf e)))"

definition stream_ended :: "channel_config \<Rightarrow> bool chan_task" where
  "stream_ended cf = reading (\<lambda>s.
    if lc_terminal s then return False else bind (fail_call cf E_INTERNAL False) (\<lambda>_. return False))"

definition events_error :: "channel_config \<Rightarrow> exn \<Rightarrow> bool chan_task" where
  "events_error cf e =
    (if e = CancelledErr then raise e
     else bind (case e of RealtimeErr c m b f r fc \<Rightarrow> fail_call cf c b | _ \<Rightarrow> fail_call cf E_INTERNAL False)
            (\<lambda>_. return False))"

definition events_turn :: "channel_config \<Rightarrow> int \<Rightarrow> (int \<times> bool) chan_task" where
  "events_turn cf g =
    bind (catching (bind (await C_next_event) (\<lambda>x.
            case x of
              O_event e \<Rightarrow> on_event cf g e
            | O_raised e \<Rightarrow> raise e
            | _ \<Rightarrow> stream_ended cf)) (events_error cf))
      (\<lambda>more. return (g, more))"

definition events_start :: "channel_config \<Rightarrow> (int \<times> bool) chan_task" where
  \<comment> \<open>\<^verbatim>\<open>_forward_events\<close> remembers the generation at its start\<close>
  "events_start cf = bind (await C_start) (\<lambda>x. bind (raised x) (\<lambda>_. reading (\<lambda>s. events_turn cf (lc_generation s))))"

section \<open>Answers\<close>

fun answers :: "call \<Rightarrow> outcome \<Rightarrow> channel \<Rightarrow> bool" where
  \<comment> \<open>what a call may answer, and in which states: any call may raise\<close>
  "answers c (O_raised e) s = True"
| "answers C_receive (O_text t) s = True"
| "answers C_receive (O_binary b) s = True"
| "answers C_next_event (O_event e) s = True"
| "answers C_next_event O_end s = True"
| "answers (C_send w) O_timeout s = True"
| "answers (C_send_audio b) O_timeout s = True"
| "answers C_cancel_response O_timeout s = True"
| "answers (C_close_session r) O_timeout s = True"
| "answers C_close_channel O_timeout s = True"
| "answers C_join_events O_timeout s = True"
| "answers (C_room g n) O_timeout s = True"
| "answers (C_room g n) O_done s = (lc_terminal s \<or> \<not> output_current g s \<or> output_room n s)"
| "answers C_join_events O_done s = lc_events_done s"
| "answers C_join_timer O_done s = (\<not> lc_ack_timer s)"
| "answers C_receive O_done s = False"
| "answers C_next_event O_done s = False"
| "answers c O_done s = True"
| "answers c x s = False"

end
