(* ===== verification/Local_Channel_Laws.thy ===== *)
theory Local_Channel_Laws
  imports Local_Channel
begin

text \<open>
  What every stretch of every coroutine of the local channel keeps: the bounds and the accounting of both
  windows, the bounded sets of completed outputs and ended responses, the recorded diagnostics; and what
  never falls: the sequences, the acknowledged and the played audio, the terminal.
\<close>

section \<open>The invariant\<close>

definition output_ok :: "channel \<Rightarrow> bool" where
  "output_ok s \<longleftrightarrow> 0 \<le> lc_output_acked s \<and> lc_output_acked s \<le> lc_output_sequence s
     \<and> map fst (lc_pending s) = [lc_output_acked s + 1..lc_output_sequence s]
     \<and> lc_pending_bytes s = bytes_of (lc_pending s) \<and> int (length (lc_pending s)) \<le> WINDOW_FRAMES
     \<and> lc_pending_bytes s \<le> WINDOW_BYTES \<and> 0 \<le> lc_acked_bytes s \<and> 0 \<le> lc_played s
     \<and> lc_played s * (2 * af_sample_rate (lc_audio s) * af_channels (lc_audio s)) \<le> lc_acked_bytes s * 1000
     \<and> (lc_ready s \<or> lc_played s = 0)"

definition recent :: "'a list \<Rightarrow> 'a set \<Rightarrow> bool" where
  \<comment> \<open>a set with the order in which its elements came, of at most 64\<close>
  "recent order A \<longleftrightarrow> distinct order \<and> A = set order \<and> int (length order) \<le> WINDOW_FRAMES"

definition places_ok :: "channel \<Rightarrow> bool" where
  "places_ok s \<longleftrightarrow> recent (lc_completed_order s) (lc_completed s) \<and> recent (lc_ended_order s) (lc_ended s)
     \<and> (\<forall>p. lc_active s = Some p \<longrightarrow> p \<notin> lc_completed s \<and> fst p \<notin> lc_ended s)"

definition log_ok :: "channel \<Rightarrow> bool" where
  "log_ok s \<longleftrightarrow> (lc_correlation s = [] \<or> correlation_ok (lc_correlation s) \<and> 0 < lc_generation s)
     \<and> (\<forall>d \<in> set (lc_log s). diag_error d = None)"

definition channel_ok :: "channel \<Rightarrow> bool" where
  "channel_ok s \<longleftrightarrow> output_ok s \<and> places_ok s \<and> log_ok s
     \<and> (\<forall>w. lc_input s = Some w \<longrightarrow> input_ok w) \<and> 0 \<le> lc_since_ack s"

definition channel_le :: "channel \<Rightarrow> channel \<Rightarrow> bool" where
  "channel_le s t \<longleftrightarrow> (lc_terminal s \<longrightarrow> lc_terminal t) \<and> lc_output_sequence s \<le> lc_output_sequence t
     \<and> lc_output_acked s \<le> lc_output_acked t \<and> lc_acked_bytes s \<le> lc_acked_bytes t
     \<and> lc_played s \<le> lc_played t \<and> lc_late s \<le> lc_late t \<and> lc_duplicates s \<le> lc_duplicates t
     \<and> (lc_ready s \<longrightarrow> lc_ready t) \<and> (lc_started s \<longrightarrow> lc_started t)"

definition kept_by :: "channel \<Rightarrow> channel \<Rightarrow> bool" where
  "kept_by s t \<longleftrightarrow> (channel_ok s \<longrightarrow> channel_ok t \<and> channel_le s t)"

interpretation chan: preserved answers kept_by
proof
  show "kept_by s s" for s
    by (simp add: kept_by_def channel_le_def)
  show "kept_by s r" if "kept_by s t" "kept_by t r" for s t r
    using that unfolding kept_by_def channel_le_def by (meson order.trans)
qed

lemmas ok_defs = kept_by_def channel_ok_def output_ok_def places_ok_def log_ok_def channel_le_def

section \<open>Updates of the state\<close>

lemma expire_drop: "expire xs A = (drop (length xs - 64) xs, A - set (take (length xs - 64) xs))"
proof (induction xs A rule: expire.induct)
  case (2 x xs A)
  show ?case
  proof (cases "63 < length xs")
    case True
    then have "length (x # xs) - 64 = Suc (length xs - 64)"
      by simp
    then show ?thesis
      using 2 True by (auto simp: WINDOW_FRAMES_def)
  next
    case False
    then show ?thesis
      by (simp add: WINDOW_FRAMES_def)
  qed
qed simp

lemma recent_remember:
  assumes "recent order A" "x \<notin> A"
  shows "\<exists>xs ys. order @ [x] = xs @ ys \<and> expire (order @ [x]) (insert x A) = (ys, set ys) \<and> recent ys (set ys)"
proof -
  let ?n = "length (order @ [x]) - 64"
  have d: "distinct (order @ [x])" "insert x A = set (order @ [x])"
    using assms by (auto simp: recent_def)
  then have "set (order @ [x]) - set (take ?n (order @ [x])) = set (drop ?n (order @ [x]))"
    by (metis (no_types, lifting) Diff_cancel Un_Diff append_take_drop_id distinct_append Diff_triv inf_commute set_append sup_bot_left)
  then have "expire (order @ [x]) (insert x A) = (drop ?n (order @ [x]), set (drop ?n (order @ [x])))"
    unfolding expire_drop d(2) by simp
  moreover have "recent (drop ?n (order @ [x])) (set (drop ?n (order @ [x])))"
    using distinct_drop [OF d(1), of ?n] by (simp add: recent_def WINDOW_FRAMES_def del: drop_append)
  ultimately show ?thesis
    using append_take_drop_id [of ?n "order @ [x]"] by metis
qed

lemma kept_simple [simp]:
  "kept_by s (late s)" "kept_by s (s\<lparr>lc_terminal := True\<rparr>)" "kept_by s (s\<lparr>lc_session := b\<rparr>)"
  "kept_by s (s\<lparr>lc_since_ack := 0\<rparr>)" "kept_by s (s\<lparr>lc_ack_timer := b\<rparr>)" "kept_by s (s\<lparr>lc_batch := xs\<rparr>)"
  "kept_by s (s\<lparr>lc_stop_reason := r\<rparr>)" "kept_by s (s\<lparr>lc_started := True\<rparr>)" "kept_by s (s\<lparr>lc_bound := True\<rparr>)"
  "kept_by s (s\<lparr>lc_session := True, lc_event_task := True\<rparr>)" "kept_by s (s\<lparr>lc_current := b\<rparr>)"
  "kept_by s (s\<lparr>lc_events_done := b\<rparr>)"
  "kept_by s (s\<lparr>lc_batch := xs, lc_since_ack := lc_since_ack s + int n\<rparr>)"
  by (simp_all add: ok_defs late_def)

lemma kept_record [simp]: "kept_by s (record_local st code cls s)"
proof -
  have "diag_error ((diag (lc_correlation s) st)\<lparr>dg_stable_code := code, dg_close_class := cls,
      dg_generation := Some (lc_generation s)\<rparr>) = None"
    if "correlation_ok (lc_correlation s)" "0 < lc_generation s"
    using that by (simp add: diag_error_def diag_def opt_ok_def)
  then show ?thesis
    by (auto simp: ok_defs record_local_def)
qed

lemma kept_timeout [simp]: "kept_by s (record_timeout code s)"
  by (simp add: record_timeout_def)

lemma kept_count [simp]: "kept_by s (count_sent cf g pcm s)"
  by (simp add: ok_defs count_sent_def)

lemma kept_hello [simp]:
  "correlation_ok c \<Longrightarrow> 0 < g \<Longrightarrow> kept_by s (s\<lparr>lc_generation := g, lc_correlation := c, lc_input := Some (input_window_init g)\<rparr>)"
  by (simp add: ok_defs input_init)

lemma bytes_of_simps [simp]:
  "bytes_of [] = 0" "bytes_of (p # ps) = int (snd p) + bytes_of ps" "bytes_of (ps @ qs) = bytes_of ps + bytes_of qs"
  by (simp_all add: bytes_of_def)

lemma bytes_of_nonneg: "0 \<le> bytes_of ps"
  by (induction ps) simp_all

lemma kept_reserve: "output_room (length pcm) s \<Longrightarrow> kept_by s (reserve_output pcm s)"
  by (auto simp: ok_defs output_room_def reserve_output_def upto_rec2)

lemma kept_ready:
  "\<not> lc_ready s \<Longrightarrow> kept_by s (s\<lparr>lc_ready := True, lc_audio := out\<rparr>)"
  by (simp add: ok_defs)

lemma kept_places:
  assumes "channel_ok s \<Longrightarrow> places_ok t"
    and "t = s\<lparr>lc_active := a, lc_completed := A, lc_completed_order := xs, lc_ended := E, lc_ended_order := ys\<rparr>"
  shows "kept_by s t"
  using assms by (simp add: kept_by_def channel_ok_def output_ok_def log_ok_def channel_le_def)

lemma ok_places:
  "channel_ok s \<Longrightarrow> recent (lc_completed_order s) (lc_completed s) \<and> recent (lc_ended_order s) (lc_ended s)
     \<and> (lc_active s = Some p \<longrightarrow> p \<notin> lc_completed s \<and> fst p \<notin> lc_ended s)"
  unfolding channel_ok_def places_ok_def by blast

lemma kept_active:
  "p \<notin> lc_completed s \<Longrightarrow> fst p \<notin> lc_ended s \<Longrightarrow> kept_by s (s\<lparr>lc_active := Some p\<rparr>)"
  by (rule kept_places [where a = "Some p" and A = "lc_completed s" and xs = "lc_completed_order s" and E = "lc_ended s"
        and ys = "lc_ended_order s"]) (simp_all add: channel_ok_def places_ok_def)

lemma kept_completed:
  assumes "lc_active s = Some p"
  shows "kept_by s (remember_completed p (s\<lparr>lc_active := None\<rparr>))"
proof -
  obtain ys A where e: "expire (lc_completed_order s @ [p]) (insert p (lc_completed s)) = (ys, A)"
    by (cases "expire (lc_completed_order s @ [p]) (insert p (lc_completed s))")
  have "remember_completed p (s\<lparr>lc_active := None\<rparr>) = s\<lparr>lc_active := None, lc_completed := A, lc_completed_order := ys,
      lc_ended := lc_ended s, lc_ended_order := lc_ended_order s\<rparr>"
    by (simp add: remember_completed_def e)
  moreover have "places_ok (remember_completed p (s\<lparr>lc_active := None\<rparr>))" if "channel_ok s"
    using recent_remember [of "lc_completed_order s" "lc_completed s" p] ok_places [OF that, of p] assms
    by (auto simp: places_ok_def remember_completed_def e)
  ultimately show ?thesis
    by (rule kept_places [rotated])
qed

lemma kept_remember_ended:
  assumes "lc_active s = None \<or> fst (the (lc_active s)) \<noteq> r"
  shows "kept_by s (remember_ended r s)"
proof (cases "r \<in> lc_ended s")
  case False
  obtain ys A where e: "expire (lc_ended_order s @ [r]) (insert r (lc_ended s)) = (ys, A)"
    by (cases "expire (lc_ended_order s @ [r]) (insert r (lc_ended s))")
  have "remember_ended r s = s\<lparr>lc_active := lc_active s, lc_completed := lc_completed s,
      lc_completed_order := lc_completed_order s, lc_ended := A, lc_ended_order := ys\<rparr>"
    using False by (simp add: remember_ended_def e)
  moreover have "places_ok (remember_ended r s)" if ok: "channel_ok s"
  proof -
    obtain zs where z: "lc_ended_order s @ [r] = zs @ ys" "A = set ys" "recent ys (set ys)"
      using recent_remember [of "lc_ended_order s" "lc_ended s" r] ok_places [OF ok] False e by auto
    have "set ys \<subseteq> insert r (lc_ended s)"
      using arg_cong [OF z(1), of set] ok_places [OF ok] by (auto simp: recent_def)
    moreover have "fst p \<notin> insert r (lc_ended s)" if "lc_active s = Some p" for p
      using ok_places [OF ok, of p] assms that by auto
    moreover have "remember_ended r s = s\<lparr>lc_ended := A, lc_ended_order := ys\<rparr>"
      using False by (simp add: remember_ended_def e)
    ultimately show ?thesis
      using ok_places [OF ok] z(2,3) unfolding places_ok_def by (simp del: split_paired_All) blast
  qed
  ultimately show ?thesis
    by (rule kept_places [rotated])
qed (simp add: remember_ended_def)

lemma remember_commute:
  "remember_completed p (remember_ended r s\<lparr>lc_active := None\<rparr>)
     = remember_ended r (remember_completed p (s\<lparr>lc_active := None\<rparr>))"
  by (simp add: remember_completed_def remember_ended_def split: prod.split)

lemma active_remembered [simp]:
  "lc_active (remember_completed p s) = lc_active s" "lc_active (remember_ended r s) = lc_active s"
  by (simp_all add: remember_completed_def remember_ended_def split: prod.split)

lemma kept_end_response [simp]: "kept_by s (end_response r s)"
proof (cases "lc_active s")
  case None
  then show ?thesis
    using kept_remember_ended by (simp add: end_response_def)
next
  case (Some p)
  show ?thesis
  proof (cases "fst p = r")
    case True
    have "kept_by (remember_completed p (s\<lparr>lc_active := None\<rparr>)) (remember_ended r (remember_completed p (s\<lparr>lc_active := None\<rparr>)))"
      by (rule kept_remember_ended) simp
    then show ?thesis
      using True Some kept_completed [OF Some] chan.kept_trans
      by (simp add: end_response_def Let_def remember_commute)
  next
    case False
    then show ?thesis
      using kept_remember_ended Some by (simp add: end_response_def)
  qed
qed

lemma kept_input:
  "(channel_ok s \<Longrightarrow> input_ok w) \<Longrightarrow> kept_by s (s\<lparr>lc_input := Some w\<rparr>)"
  "(channel_ok s \<Longrightarrow> input_ok w) \<Longrightarrow> kept_by s (s\<lparr>lc_input := Some w, lc_duplicates := lc_duplicates s + 1\<rparr>)"
  by (simp_all add: kept_by_def channel_ok_def output_ok_def places_ok_def log_ok_def channel_le_def)

lemma kept_take_frame: "kept_by s (snd (take_frame f s))"
proof (cases "lc_input s")
  case None
  then show ?thesis
    by (simp add: take_frame_def)
next
  case (Some w)
  have ok: "input_ok w" if "channel_ok s"
    using that Some by (simp add: channel_ok_def)
  then have "input_ok w'" if "input_accept w f = Some (r, w')" "channel_ok s" for r w'
    using inputs.accept_ok that by blast
  then show ?thesis
    using Some kept_input by (auto simp: take_frame_def split: option.split sum.split)
qed

section \<open>Acknowledgements of the product\<close>

lemma pop_acked_upto:
  assumes "map fst ps = [a + 1..n]" "a \<le> h" "h \<le> n"
  shows "map fst (pop_acked h ps) = [h + 1..n]"
    and "bytes_of ps = bytes_of (filter (\<lambda>p. fst p \<le> h) ps) + bytes_of (pop_acked h ps)"
proof -
  have "map fst (pop_acked h ps) = [h + 1..n] \<and> bytes_of ps = bytes_of (filter (\<lambda>p. fst p \<le> h) ps) + bytes_of (pop_acked h ps)"
    using assms
  proof (induction ps arbitrary: a)
    case Nil
    then show ?case
      by (cases "a + 1 \<le> n") (simp_all add: upto_rec1)
  next
    case (Cons p ps)
    then have p: "fst p = a + 1" "map fst ps = [a + 1 + 1..n]" "a + 1 \<le> n"
      by (cases "a + 1 \<le> n"; simp add: upto_rec1)+
    show ?case
    proof (cases "a + 1 \<le> h")
      case True
      then show ?thesis
        using Cons.IH [OF p(2) True Cons.prems(3)] p by simp
    next
      case False
      have "h = a"
        using False Cons.prems(2) by simp
      moreover have "filter (\<lambda>q. fst q \<le> h) ps = []"
      proof -
        have "h < x" if "x \<in> set (map fst ps)" for x
          using that unfolding p(2) \<open>h = a\<close> by simp
        then show ?thesis
          by (fastforce simp: filter_empty_conv)
      qed
      ultimately show ?thesis
        using Cons.prems(1) p by simp
    qed
  qed
  then show "map fst (pop_acked h ps) = [h + 1..n]"
    and "bytes_of ps = bytes_of (filter (\<lambda>p. fst p \<le> h) ps) + bytes_of (pop_acked h ps)"
    by simp_all
qed

lemma pop_acked_length: "length (pop_acked h ps) \<le> length ps"
  by (induction ps) simp_all

lemma acked_state:
  assumes "channel_ok s" "h \<le> lc_output_sequence s" "position_ok (VInt p) h s" "lc_ready s"
  shows "channel_ok (output_acked h p s) \<and> channel_le s (output_acked h p s)
    \<and> lc_played (output_acked h p s) = p"
proof (cases "h \<le> lc_output_acked s")
  case True
  have "filter (\<lambda>q. fst q \<le> h) (lc_pending s) = []"
  proof -
    have "h < x" if "x \<in> set (map fst (lc_pending s))" for x
    proof -
      have "x \<in> {lc_output_acked s + 1..lc_output_sequence s}"
        using that assms(1) by (simp add: channel_ok_def output_ok_def del: set_map)
      then show ?thesis
        using True by simp
    qed
    then show ?thesis
      by (fastforce simp: filter_empty_conv)
  qed
  then show ?thesis
    using assms True by (auto simp: ok_defs output_acked_def position_ok_def acknowledged_bytes_def)
next
  case False
  have ps: "map fst (lc_pending s) = [lc_output_acked s + 1..lc_output_sequence s]"
    using assms(1) by (simp add: channel_ok_def output_ok_def)
  note pop = pop_acked_upto [OF ps _ assms(2)]
  have h: "lc_output_acked s \<le> h"
    using False by simp
  show ?thesis
    using assms False pop [OF h] pop_acked_length [of h "lc_pending s"]
      bytes_of_nonneg [of "filter (\<lambda>q. fst q \<le> h) (lc_pending s)"]
    by (auto simp: ok_defs output_acked_def position_ok_def acknowledged_bytes_def Let_def)
qed

lemma kept_output_ack: "kept_by s (snd (handle_output_ack v s))"
proof -
  have "kept_by s (output_acked h p s)"
    if "h \<le> lc_output_sequence s" "position_ok (VInt p) h s" "lc_ready s" for h p
    using acked_state [OF _ that] by (simp add: kept_by_def)
  then show ?thesis
    by (auto simp: handle_output_ack_def Let_def split: pyval.split)
qed

end
