(* ===== verification/Local_System.thy ===== *)
theory Local_System
  imports Local_Channel_Laws
begin

text \<open>
  The local channel as a system of three coroutines on one state: the loop of \<^verbatim>\<open>run\<close>, the task that
  forwards the session's events, and the timer of the acknowledgements. Every coroutine keeps the
  invariant in each of its stretches and pays for the closing message with the terminal it has claimed,
  so that every interleaving of the three is bounded and closes at most once.
\<close>

section \<open>The coroutines keep the invariant\<close>

abbreviation ok_at :: "channel \<Rightarrow> (channel \<Rightarrow> channel \<times> (channel, call, outcome, 'a) prog) \<Rightarrow> bool" where
  "ok_at s m \<equiv> steady_at answers kept_by s m"

lemma at_bind: "ok_at s m \<Longrightarrow> (\<And>a t. ok_at t (f a)) \<Longrightarrow> ok_at s (bind m f)"
  by (rule chan.steady_at_bind) (simp_all add: steady_def)

lemma at_reading: "ok_at s (m s) \<Longrightarrow> ok_at s (reading m)"
  by (simp add: steady_at_def reading_def)

lemma at_await: "(\<And>x t. answers c x t \<Longrightarrow> ok_at t (f x)) \<Longrightarrow> ok_at s (bind (await c) f)"
  using chan.steady_await [of c f] by (simp add: steady_def)

lemma at_catching: "ok_at s m \<Longrightarrow> (\<And>e t. ok_at t (h e)) \<Longrightarrow> ok_at s (catching m h)"
  by (rule chan.steady_at_catching) (simp_all add: steady_def)

lemma at_ensuring: "(\<And>s. ok_at s m) \<Longrightarrow> (\<And>s. ok_at s f) \<Longrightarrow> ok_at s (ensuring m f)"
  using chan.steady_ensuring [of m f] by (simp add: steady_def)

lemma at_update [simp]: "ok_at s (update f) \<longleftrightarrow> kept_by s (f s)"
  by (simp add: steady_at_def update_def)

lemma at_taking [simp]: "ok_at s (taking f) \<longleftrightarrow> kept_by s (snd (f s))"
  by (simp add: steady_at_def taking_def case_prod_beta)

lemmas at_rules = at_reading at_await at_bind at_catching at_ensuring

lemma at_raised [simp]: "ok_at s (raised x)" "ok_at s (suppressed x)" "ok_at s (joined x)"
  by (auto simp: raised_def suppressed_def joined_def split: outcome.split exn.split)

lemma at_cancel [simp]: "ok_at s cancel_active_response"
  by (auto simp: cancel_active_response_def intro!: at_rules)

lemma at_send_channel [simp]: "ok_at s (send_channel w b)"
  unfolding send_channel_def by (rule at_await) (auto intro!: at_rules split: outcome.split)

lemma at_send_json [simp]: "ok_at s (send_json cf v)" "ok_at s (try_send_json cf v)" "ok_at s (send_event cf e)"
  by (auto simp: send_json_def try_send_json_def send_event_def intro!: at_rules)

lemma at_close_session [simp]: "ok_at s (close_session r)" "ok_at s close_channel"
  by (auto simp: close_session_def close_channel_def intro!: at_rules split: outcome.split)

lemma at_claim [simp]: "ok_at s claim_terminal"
  by (auto simp: claim_terminal_def intro!: at_rules)

lemma at_fail [simp]: "ok_at s (fail_call cf c b)"
  unfolding fail_call_def Let_def by (rule at_bind) (auto intro!: at_rules)

lemma at_flush [simp]: "ok_at s (flush_batch cf)"
  unfolding flush_batch_def by (auto intro!: at_rules split: outcome.split)

lemma at_input_ack [simp]: "ok_at s (send_input_ack cf)" "ok_at s (delayed_input_ack cf)"
  by (auto simp: send_input_ack_def delayed_input_ack_def intro!: at_rules split: option.split)

lemma at_push [simp]: "ok_at s (push_audio cf ready)"
  by (induction ready arbitrary: s) (auto intro!: at_rules)

lemma at_input_audio [simp]: "ok_at s (handle_input_audio cf payload)"
  by (auto simp: handle_input_audio_def acknowledge_input_def kept_take_frame intro!: at_rules split: option.split)

lemma at_write_chunk:
  assumes "lc_terminal s \<or> \<not> output_current g s \<or> output_room (length pcm) s"
  shows "ok_at s (write_chunk cf g pcm)"
  unfolding write_chunk_def
proof (rule at_reading, cases "lc_terminal s \<or> \<not> output_current g s")
  case False
  then have "kept_by s (reserve_output pcm s)"
    using assms by (intro kept_reserve) simp
  then show "ok_at s (if lc_terminal s \<or> \<not> output_current g s then return ()
    else bind (update (reserve_output pcm)) (\<lambda>_.
      bind (lift (encode_pcm_frame \<lparr>pf_direction = DIR_OUTPUT, pf_generation = lc_generation s,
                    pf_sequence = lc_output_sequence s + 1, pf_payload = pcm\<rparr>)) (\<lambda>b.
      bind (send_channel (Pcm b) True) (\<lambda>_. update (count_sent cf g pcm)))))"
    using False by (auto intro!: at_rules)
qed simp

lemma at_send_chunk [simp]: "ok_at s (send_output_chunk cf g pcm)"
proof -
  have "ok_at t (case x of
          O_timeout \<Rightarrow> reading (\<lambda>s.
            if \<not> output_current g s then update late
            else bind (update (record_timeout E_BUSY)) (\<lambda>_.
                 bind cancel_active_response (\<lambda>_. fail_call cf E_BUSY False)))
        | O_raised e \<Rightarrow> raise e
        | _ \<Rightarrow> write_chunk cf g pcm)" if "answers (C_room g (length pcm)) x t" for x t
    using that by (cases x) (auto intro!: at_rules at_write_chunk)
  then show ?thesis
    unfolding send_output_chunk_def by (intro at_reading) (auto intro!: at_write_chunk at_await)
qed

lemma at_send_chunks [simp]: "ok_at s (send_chunks cf g cs)"
  by (induction cs arbitrary: s) (auto intro!: at_rules)

lemma at_output_audio [simp]: "ok_at s (send_output_audio cf g pcm)"
  by (auto simp: send_output_audio_def intro!: at_rules)

lemma at_hello [simp]: "ok_at s (receive_hello cf)"
  unfolding receive_hello_def
  by (rule at_await) (auto intro!: at_rules split: outcome.split pyval.split)

lemma at_start [simp]: "ok_at s (start_call cf v)"
proof -
  have "ok_at t (open_session cf r)" for t r
    unfolding open_session_def
    by (rule at_reading, rule at_await) (auto split: outcome.split exn.split)
  then show ?thesis
    by (auto simp: start_call_def intro!: at_rules)
qed

lemma at_join [simp]: "ok_at s (join_events cf b)"
  by (auto simp: join_events_def intro!: at_rules split: outcome.split)

lemma at_stop [simp]: "ok_at s (stop_call cf v)"
  by (auto simp: stop_call_def intro!: at_rules split: pyval.split)

lemma at_barge [simp]: "ok_at s (barge_in cf)"
  by (auto simp: barge_in_def intro!: at_rules)

lemma at_message [simp]: "ok_at s (handle_message cf v)"
  by (auto simp: handle_message_def kept_output_ack intro!: at_reading)

lemma at_receive [simp]: "ok_at s (receive_message cf)"
  unfolding receive_message_def by (rule at_await) (auto intro!: at_rules split: outcome.split)

lemma at_run_error [simp]: "ok_at s (run_error cf e)"
  by (auto simp: run_error_def intro!: at_rules split: exn.split)

lemma at_run [simp]: "ok_at s (run_turn cf b)" "ok_at s (run_start cf)" "ok_at s run_end"
proof -
  show turn: "ok_at s (run_turn cf b)" for s b
    unfolding run_turn_def by (auto intro!: at_catching at_bind)
  show "ok_at s (run_start cf)"
    using turn by (auto simp: run_start_def intro!: at_rules)
  show "ok_at s run_end"
    unfolding run_end_def by (auto intro!: at_rules)
qed

lemma at_ready [simp]: "ok_at s (ready_event cf corr inp out)"
  unfolding ready_event_def
  by (rule at_reading) (auto intro!: at_rules simp: kept_ready)

lemma at_places [simp]:
  "ok_at s (protocol_stop cf)" "ok_at s (audio_started_event cf p e)" "ok_at s (audio_event cf g p pcm)"
  "ok_at s (audio_completed_event cf p e)"
proof -
  show stop: "ok_at s (protocol_stop cf)" for s
    by (auto simp: protocol_stop_def intro!: at_rules)
  show "ok_at s (audio_started_event cf p e)"
    unfolding audio_started_event_def then_on_def
    by (rule at_reading) (use stop in \<open>auto intro!: at_bind kept_active\<close>)
  show "ok_at s (audio_event cf g p pcm)"
    unfolding audio_event_def then_on_def by (rule at_reading) (use stop in \<open>auto intro!: at_bind\<close>)
  show "ok_at s (audio_completed_event cf p e)"
    unfolding audio_completed_event_def then_on_def
    by (rule at_reading) (use stop in \<open>auto intro!: at_bind kept_completed\<close>)
qed

lemma at_closed [simp]: "ok_at s (closed_event_task cf e)"
  unfolding closed_event_task_def by (rule at_bind) (auto intro!: at_rules)

lemma at_event [simp]: "ok_at s (on_event cf g e)"
  unfolding on_event_def then_on_def by (rule at_reading) (auto intro!: at_bind split: rt_event.split)

lemma at_events [simp]: "ok_at s (events_turn cf g)" "ok_at s (events_start cf)"
proof -
  have "ok_at t (stream_ended cf)" "ok_at t (events_error cf e)" for t e
    by (auto simp: stream_ended_def events_error_def intro!: at_rules split: exn.split)
  then show turn: "ok_at s (events_turn cf g)" for s g
    unfolding events_turn_def by (intro at_bind at_catching at_await) (auto split: outcome.split)
  show "ok_at s (events_start cf)"
    using turn unfolding events_start_def by (intro at_await at_bind at_reading) auto
qed

section \<open>The closing message is paid for\<close>

definition terminal_count :: "channel \<Rightarrow> int" where
  "terminal_count s = (if lc_terminal s then 1 else 0)"

definition closing :: "wire \<Rightarrow> bool" where
  "closing w \<longleftrightarrow> (case w of Json v t \<Rightarrow> dget v (u ''type'') = vs ''call.closed'' | Pcm b \<Rightarrow> False)"

fun closing_cost :: "call \<Rightarrow> int" where
  "closing_cost (C_send w) = (if closing w then 1 else 0)"
| "closing_cost c = 0"

abbreviation pays :: "int \<Rightarrow> (channel \<Rightarrow> channel \<times> (channel, call, outcome, 'a) prog) \<Rightarrow> bool" where
  "pays b m \<equiv> affords terminal_count closing_cost b m"

lemma pays_bind: "pays 0 m \<Longrightarrow> (\<And>a. pays 0 (f a)) \<Longrightarrow> pays 0 (bind m f)"
  using affords_bind [of _ _ 0 m 0 f] by simp

lemma pays_later: "pays 0 m \<Longrightarrow> (\<And>a. pays 1 (f a)) \<Longrightarrow> pays 1 (bind m f)"
  using affords_bind [of _ _ 0 m 1 f] by simp

lemma pays_now: "pays 1 m \<Longrightarrow> (\<And>a. pays 0 (f a)) \<Longrightarrow> pays 1 (bind m f)"
  using affords_bind [of _ _ 1 m 0 f] by simp

lemma pays_catching: "pays b m \<Longrightarrow> (\<And>e. pays 0 (h e)) \<Longrightarrow> pays b (catching m h)"
  using affords_catching [of _ _ b m 0 h] by simp

lemma pays_ensuring: "pays 0 m \<Longrightarrow> pays 0 f \<Longrightarrow> pays 0 (ensuring m f)"
  using affords_ensuring [of _ _ 0 m 0 f] by simp

lemma pays_await: "closing_cost c = 0 \<Longrightarrow> (\<And>x. pays 0 (f x)) \<Longrightarrow> pays 0 (bind (await c) f)"
  by (rule affords_await) simp_all

lemma pays_await_alone [simp]: "closing_cost c = 0 \<Longrightarrow> pays 0 (await c)"
  by (simp add: affords_def await_def)

lemma pays_reading: "(\<And>s. pays b (m s)) \<Longrightarrow> pays b (reading m)"
  by (rule affords_readingI)

lemma pays_update: "(\<And>s. lc_terminal (f s) = lc_terminal s) \<Longrightarrow> pays 0 (update f)"
  by (rule affords_update) (simp_all add: terminal_count_def)

lemma pays_taking: "(\<And>s. lc_terminal (snd (f s)) = lc_terminal s) \<Longrightarrow> pays 0 (taking f)"
  by (simp add: affords_def taking_def case_prod_beta terminal_count_def)

lemmas pay_rules = pays_reading pays_await pays_bind pays_catching pays_ensuring pays_update

lemma same_terminal [simp]:
  "lc_terminal (late s) = lc_terminal s" "lc_terminal (record_local st c d s) = lc_terminal s"
  "lc_terminal (record_timeout e s) = lc_terminal s" "lc_terminal (count_sent cf g pcm s) = lc_terminal s"
  "lc_terminal (reserve_output pcm s) = lc_terminal s" "lc_terminal (remember_completed p s) = lc_terminal s"
  "lc_terminal (remember_ended r s) = lc_terminal s" "lc_terminal (output_acked h q s) = lc_terminal s"
  by (simp_all add: late_def record_local_def record_timeout_def count_sent_def reserve_output_def
      remember_completed_def remember_ended_def output_acked_def Let_def split: prod.split)

lemma same_terminal_more [simp]:
  "lc_terminal (end_response r s) = lc_terminal s" "lc_terminal (snd (take_frame f s)) = lc_terminal s"
  "lc_terminal (snd (handle_output_ack v s)) = lc_terminal s"
  by (auto simp: end_response_def take_frame_def handle_output_ack_def Let_def
      split: option.split sum.split prod.split pyval.split)

lemma pays_outcome [simp]: "pays 0 (raised x)" "pays 0 (suppressed x)" "pays 0 (joined x)"
  by (auto simp: raised_def suppressed_def joined_def split: outcome.split exn.split)

lemma pays_cancel [simp]: "pays 0 cancel_active_response"
  by (auto simp: cancel_active_response_def intro!: pay_rules)

lemma pays_send: "pays (closing_cost (C_send w)) (send_channel w b)"
  unfolding send_channel_def by (rule affords_await) (auto intro!: pay_rules split: outcome.split)

lemma pays_send_open [simp]: "\<not> closing w \<Longrightarrow> pays 0 (send_channel w b)"
  using pays_send [of w b] by simp

lemma closing_message [simp]: "closing (Json (call_message t s fs) txt) \<longleftrightarrow> t = ''call.closed''"
  "\<not> closing (Json (call_event g d) txt)" "\<not> closing (Pcm b)"
  by (simp_all add: closing_def call_message_def call_event_def dget_def)

lemma pays_message [simp]:
  "t \<noteq> ''call.closed'' \<Longrightarrow> pays 0 (send_json cf (call_message t s fs))"
  "t \<noteq> ''call.closed'' \<Longrightarrow> pays 0 (try_send_json cf (call_message t s fs))"
  "pays 0 (send_event cf e)"
  by (auto simp: send_json_def try_send_json_def send_event_def intro!: pay_rules)

lemma pays_closed [simp]: "pays 1 (try_send_json cf (call_message ''call.closed'' s fs))"
  unfolding try_send_json_def
proof (rule pays_catching)
  have "pays 1 (send_channel (Json (call_message ''call.closed'' s fs) t) False)" for t
    using pays_send [of "Json (call_message ''call.closed'' s fs) t" False] by simp
  then show "pays 1 (bind (lift (encode_local_message (lf_env cf) (call_message ''call.closed'' s fs)))
      (\<lambda>t. send_channel (Json (call_message ''call.closed'' s fs) t) False))"
    by (intro pays_later) simp_all
qed simp

lemma pays_close [simp]: "pays 0 (close_session r)" "pays 0 close_channel"
  by (auto simp: close_session_def close_channel_def intro!: pay_rules split: outcome.split)

lemma pays_claim:
  assumes "pays 0 (f False)" "pays 1 (f True)"
  shows "pays 0 (bind claim_terminal f)"
  unfolding affords_def
proof
  fix s :: channel
  let ?t = "s\<lparr>lc_terminal := True\<rparr>"
  have "bind claim_terminal f s = (if lc_terminal s then f False s else f True ?t)"
    by (simp add: claim_terminal_def bind_def reading_def return_def update_def)
  moreover have "credit terminal_count closing_cost (snd (f False s)) (0 + terminal_count (fst (f False s)) - terminal_count s)"
    using assms(1) by (simp add: affords_def)
  moreover have "credit terminal_count closing_cost (snd (f True ?t)) (1 + terminal_count (fst (f True ?t)) - terminal_count ?t)"
    using assms(2) unfolding affords_def by blast
  moreover have count: "terminal_count ?t = 1" "\<not> lc_terminal s \<Longrightarrow> terminal_count s = 0"
    by (simp_all add: terminal_count_def)
  ultimately show "credit terminal_count closing_cost (snd (bind claim_terminal f s))
      (0 + terminal_count (fst (bind claim_terminal f s)) - terminal_count s)"
    using count by (cases "lc_terminal s") simp_all
qed

lemma pays_fail [simp]: "pays 0 (fail_call cf c b)"
  unfolding fail_call_def Let_def
  by (rule pays_claim)
     (auto intro!: pays_later pays_update pays_reading pays_now [of _ "\<lambda>_. bind (update _) (\<lambda>_. close_channel)"] pays_bind)

lemma pays_closed_event [simp]: "pays 0 (closed_event_task cf e)"
  unfolding closed_event_task_def
  by (rule pays_claim) (auto intro!: pays_now pays_bind pays_update pays_reading)

lemma pays_flush [simp]: "pays 0 (flush_batch cf)"
  unfolding flush_batch_def by (auto intro!: pay_rules split: outcome.split)

lemma pays_input_ack [simp]: "pays 0 (send_input_ack cf)" "pays 0 (delayed_input_ack cf)"
  by (auto simp: send_input_ack_def delayed_input_ack_def input_ack_def intro!: pay_rules split: option.split)

lemma pays_push [simp]: "pays 0 (push_audio cf ready)"
  by (induction ready) (auto intro!: pay_rules)

lemma pays_input_audio [simp]: "pays 0 (handle_input_audio cf payload)"
  by (auto simp: handle_input_audio_def acknowledge_input_def intro!: pay_rules pays_taking split: option.split)

lemma pays_chunk [simp]: "pays 0 (write_chunk cf g pcm)" "pays 0 (send_output_chunk cf g pcm)"
proof -
  show wr: "pays 0 (write_chunk cf g pcm)"
    by (auto simp: write_chunk_def intro!: pay_rules)
  show "pays 0 (send_output_chunk cf g pcm)"
    using wr by (auto simp: send_output_chunk_def intro!: pay_rules split: outcome.split)
qed

lemma pays_chunks [simp]: "pays 0 (send_chunks cf g cs)"
  by (induction cs) (auto intro!: pay_rules)

lemma pays_output_audio [simp]: "pays 0 (send_output_audio cf g pcm)"
  by (auto simp: send_output_audio_def intro!: pay_rules)

lemma pays_hello [simp]: "pays 0 (receive_hello cf)"
  unfolding receive_hello_def by (rule pays_await) (auto intro!: pay_rules split: outcome.split pyval.split)

lemma pays_messages [simp]:
  "pays 0 (start_call cf v)" "pays 0 (join_events cf b)" "pays 0 (stop_call cf v)" "pays 0 (barge_in cf)"
proof -
  have "pays 0 (open_session cf r)" for r
    unfolding open_session_def by (auto intro!: pay_rules split: outcome.split exn.split)
  then show "pays 0 (start_call cf v)"
    by (auto simp: start_call_def intro!: pay_rules)
  show join: "pays 0 (join_events cf b)" for b
    by (auto simp: join_events_def intro!: pay_rules split: outcome.split)
  show "pays 0 (stop_call cf v)"
    using join by (auto simp: stop_call_def intro!: pay_rules split: pyval.split)
  show "pays 0 (barge_in cf)"
    by (auto simp: barge_in_def intro!: pay_rules)
qed

lemma pays_receive [simp]: "pays 0 (receive_message cf)"
proof -
  have "pays 0 (handle_message cf v)" for v
    by (auto simp: handle_message_def intro!: pays_reading pays_update pays_taking)
  then show ?thesis
    unfolding receive_message_def by (intro pays_await) (auto intro!: pay_rules split: outcome.split)
qed

lemma pays_run [simp]: "pays 0 (run_turn cf b)" "pays 0 (run_start cf)" "pays 0 run_end"
proof -
  have "pays 0 (run_error cf e)" for e
    by (auto simp: run_error_def intro!: pay_rules split: exn.split)
  then show turn: "pays 0 (run_turn cf b)" for b
    unfolding run_turn_def by (auto intro!: pays_catching pays_bind)
  show "pays 0 (run_start cf)"
    using turn by (auto simp: run_start_def intro!: pay_rules)
  show "pays 0 run_end"
    by (auto simp: run_end_def intro!: pay_rules)
qed

lemma pays_event [simp]: "pays 0 (on_event cf g e)"
proof -
  have stop: "pays 0 (protocol_stop cf)"
    by (auto simp: protocol_stop_def intro!: pays_bind)
  have "pays 0 (ready_event cf corr inp out)" for corr inp out
    by (auto simp: ready_event_def intro!: pay_rules)
  moreover have "pays 0 (audio_started_event cf p e)" "pays 0 (audio_event cf g p pcm)"
      "pays 0 (audio_completed_event cf p e)" for p e pcm
    using stop
    by (auto simp: audio_started_event_def audio_event_def audio_completed_event_def then_on_def intro!: pay_rules)
  ultimately show ?thesis
    by (auto simp: on_event_def then_on_def intro!: pay_rules split: rt_event.split)
qed

lemma pays_events [simp]: "pays 0 (events_turn cf g)" "pays 0 (events_start cf)"
proof -
  have "pays 0 (stream_ended cf)" "pays 0 (events_error cf e)" for e
    by (auto simp: stream_ended_def events_error_def intro!: pay_rules split: exn.split)
  then show turn: "pays 0 (events_turn cf g)" for g
    unfolding events_turn_def by (intro pays_bind pays_catching pays_await) (auto split: outcome.split)
  show "pays 0 (events_start cf)"
    using turn unfolding events_start_def by (intro pays_await pays_bind pays_reading) auto
qed

end
