(* ===== verification/Local_Bridge.thy ===== *)
theory Local_Bridge
  imports Local_System
begin

text \<open>
  The three coroutines of the local channel interleaved: a step answers the call of one of them and runs
  it to its next call. A loop of the code starts its next turn, and a task that was created starts.
\<close>

section \<open>The system\<close>

datatype main_task =
    In_loop "(channel, call, outcome, bool res) prog"
  | At_end "(channel, call, outcome, unit res) prog"

record bridge =
  br_chan :: channel
  br_main :: main_task
  br_events :: "(channel, call, outcome, (int \<times> bool) res) prog option"
  br_timer :: "(channel, call, outcome, unit res) prog option"
  br_sent :: "wire list" \<comment> \<open>what the coroutines have begun to send, in this order\<close>

fun sent_by :: "(channel, call, outcome, 'a) prog \<Rightarrow> wire list" where
  "sent_by (Await (C_send w) k) = [w]"
| "sent_by p = []"

definition arrive :: "channel_config \<Rightarrow> channel \<Rightarrow> wire list \<Rightarrow> bridge \<Rightarrow> bridge" where
  \<comment> \<open>the state after a stretch, with what it sends and the tasks it creates\<close>
  "arrive cf t ws y =
    y\<lparr>br_chan := t, br_sent := br_sent y @ ws,
      br_events := (if lc_event_task t \<and> \<not> lc_event_task (br_chan y) then Some (snd (events_start cf t)) else br_events y),
      br_timer := (if lc_ack_timer t \<and> \<not> lc_ack_timer (br_chan y) then Some (snd (delayed_input_ack cf t)) else br_timer y)\<rparr>"

inductive bridge_step :: "channel_config \<Rightarrow> bridge \<Rightarrow> bridge \<Rightarrow> bool" for cf where
  answer_main: "br_main y = In_loop (Await c k) \<Longrightarrow> answers c x (br_chan y) \<Longrightarrow> k x (br_chan y) = (t, p) \<Longrightarrow>
    bridge_step cf y ((arrive cf t (sent_by p) y)\<lparr>br_main := In_loop p\<rparr>)"
| loop_main: "br_main y = In_loop (Done (Inr True)) \<Longrightarrow> \<not> lc_terminal (br_chan y) \<Longrightarrow>
    run_turn cf False (br_chan y) = (t, p) \<Longrightarrow>
    bridge_step cf y ((arrive cf t (sent_by p) y)\<lparr>br_main := In_loop p\<rparr>)"
| leave_main: "br_main y = In_loop (Done r) \<Longrightarrow> r \<noteq> Inr True \<or> lc_terminal (br_chan y) \<Longrightarrow>
    run_end (br_chan y) = (t, q) \<Longrightarrow> bridge_step cf y ((arrive cf t (sent_by q) y)\<lparr>br_main := At_end q\<rparr>)"
| answer_end: "br_main y = At_end (Await c k') \<Longrightarrow> answers c x (br_chan y) \<Longrightarrow> k' x (br_chan y) = (t, q) \<Longrightarrow>
    bridge_step cf y ((arrive cf t (sent_by q) y)\<lparr>br_main := At_end q\<rparr>)"
| answer_events: "br_events y = Some (Await c ke) \<Longrightarrow> answers c x (br_chan y) \<Longrightarrow> ke x (br_chan y) = (t, e) \<Longrightarrow>
    bridge_step cf y ((arrive cf t (sent_by e) y)\<lparr>br_events := Some e\<rparr>)"
| loop_events: "br_events y = Some (Done (Inr (g, True))) \<Longrightarrow> events_turn cf g (br_chan y) = (t, e) \<Longrightarrow>
    bridge_step cf y ((arrive cf t (sent_by e) y)\<lparr>br_events := Some e\<rparr>)"
| over_events: "br_events y = Some (Done r') \<Longrightarrow> (\<forall>g. r' \<noteq> Inr (g, True)) \<Longrightarrow>
    bridge_step cf y (y\<lparr>br_events := None, br_chan := (br_chan y)\<lparr>lc_events_done := True\<rparr>\<rparr>)"
| answer_timer: "br_timer y = Some (Await c kt) \<Longrightarrow> answers c x (br_chan y) \<Longrightarrow> kt x (br_chan y) = (t, m) \<Longrightarrow>
    bridge_step cf y ((arrive cf t (sent_by m) y)\<lparr>br_timer := Some m\<rparr>)"
| over_timer: "br_timer y = Some (Done r'') \<Longrightarrow> bridge_step cf y (y\<lparr>br_timer := None\<rparr>)"
| session_moves: "bridge_step cf y (y\<lparr>br_chan := (br_chan y)\<lparr>lc_current := b\<rparr>\<rparr>)"

definition bridge_start :: "channel_config \<Rightarrow> bridge \<Rightarrow> bool" where
  "bridge_start cf y \<longleftrightarrow> channel_config_error cf = None
     \<and> y = \<lparr>br_chan = fst (run_start cf channel_init), br_main = In_loop (snd (run_start cf channel_init)),
            br_events = None, br_timer = None, br_sent = []\<rparr>"

section \<open>What every interleaving keeps\<close>

definition closings :: "wire list \<Rightarrow> int" where
  "closings ws = int (length (filter closing ws))"

fun due :: "(channel, call, outcome, 'a) prog \<Rightarrow> int" where
  \<comment> \<open>the cost of the call a program waits for\<close>
  "due (Await c k) = closing_cost c"
| "due (Done a) = 0"

definition sound :: "int \<Rightarrow> (channel, call, outcome, 'a) prog \<Rightarrow> bool" where
  "sound b p \<longleftrightarrow> follows answers kept_by p \<and> credit terminal_count closing_cost p (b + due p)"

text \<open>
  A sound program has been paid for up to the call it waits for: \<open>b\<close> is what it may still spend.
\<close>

lemma closings_sent [simp]: "closings (ws @ sent_by p) = closings ws + due p"
proof -
  have "closings (sent_by p) = due p"
    by (induction p rule: sent_by.induct) (auto simp: closings_def)
  then show ?thesis
    by (simp add: closings_def)
qed

lemma due_credit: "credit terminal_count closing_cost p b \<Longrightarrow> due p \<le> b"
  by (cases p) simp_all

lemma due_nonneg: "0 \<le> due p"
proof -
  have "0 \<le> closing_cost c" for c
    by (cases c) simp_all
  then show ?thesis
    by (cases p) simp_all
qed

lemma sound_nonneg: "sound b p \<Longrightarrow> 0 \<le> b"
  using due_credit [of p "b + due p"] by (simp add: sound_def)

lemma sound_task:
  assumes "ok_at s m" "pays 0 m" "m s = (t, p)"
  shows "kept_by s t \<and> sound (terminal_count t - terminal_count s - due p) p"
proof -
  have "credit terminal_count closing_cost (snd (m s)) (0 + terminal_count (fst (m s)) - terminal_count s)"
    using assms(2) unfolding affords_def by blast
  then show ?thesis
    using assms by (simp add: sound_def steady_at_def)
qed

lemma sound_answer:
  assumes "sound b (Await c k)" "answers c x s" "k x s = (t, p)"
  shows "kept_by s t \<and> sound (b + terminal_count t - terminal_count s - due p) p"
proof -
  have "credit terminal_count closing_cost (snd (k x s)) (b + closing_cost c - closing_cost c + terminal_count (fst (k x s)) - terminal_count s)"
    using assms(1) unfolding sound_def credit_Await due.simps by blast
  moreover have "kept_by s (fst (k x s)) \<and> follows answers kept_by (snd (k x s))"
    using assms(1,2) by (simp add: sound_def)
  ultimately show ?thesis
    using assms(3) by (simp add: sound_def)
qed

lemma sound_more: "sound b p \<Longrightarrow> b \<le> d \<Longrightarrow> sound d p"
  unfolding sound_def by (meson add_right_mono credit_mono)

definition main_sound :: "int \<Rightarrow> main_task \<Rightarrow> bool" where
  "main_sound b m = (case m of In_loop p \<Rightarrow> sound b p | At_end q \<Rightarrow> sound b q)"

definition slot_sound :: "int \<Rightarrow> (channel, call, outcome, 'a) prog option \<Rightarrow> bool" where
  "slot_sound b m = (case m of Some p \<Rightarrow> sound b p | None \<Rightarrow> 0 \<le> b)"

definition bridge_ok :: "bridge \<Rightarrow> bool" where
  "bridge_ok y \<longleftrightarrow> channel_ok (br_chan y)
     \<and> (\<exists>bm be bt. main_sound bm (br_main y) \<and> slot_sound be (br_events y) \<and> slot_sound bt (br_timer y)
          \<and> closings (br_sent y) + bm + be + bt \<le> terminal_count (br_chan y))"

lemma slot_nonneg: "slot_sound b m \<Longrightarrow> 0 \<le> b"
  by (auto simp: slot_sound_def sound_nonneg split: option.splits)

lemma events_start_sound: "slot_sound 0 (Some (snd (events_start cf t)))"
proof -
  have "events_start cf t = (t, snd (events_start cf t))" "due (snd (events_start cf t)) = 0"
    by (simp_all add: events_start_def bind_simps)
  then show ?thesis
    using sound_task [of t "events_start cf" t "snd (events_start cf t)"] by (simp add: slot_sound_def)
qed

lemma timer_start_sound: "slot_sound 0 (Some (snd (delayed_input_ack cf t)))"
proof -
  have "delayed_input_ack cf t = (t, snd (delayed_input_ack cf t))" "due (snd (delayed_input_ack cf t)) = 0"
    by (simp_all add: delayed_input_ack_def ensuring_def bind_simps)
  then show ?thesis
    using sound_task [of t "delayed_input_ack cf" t "snd (delayed_input_ack cf t)"] by (simp add: slot_sound_def)
qed

lemma arrive_events_slot:
  "slot_sound be (br_events y) \<Longrightarrow> \<exists>be' \<le> be. slot_sound be' (br_events (arrive cf t ws y))"
  using slot_nonneg [of be "br_events y"] events_start_sound [of cf t] by (auto simp: arrive_def)

lemma arrive_timer_slot:
  "slot_sound bt (br_timer y) \<Longrightarrow> \<exists>bt' \<le> bt. slot_sound bt' (br_timer (arrive cf t ws y))"
  using slot_nonneg [of bt "br_timer y"] timer_start_sound [of cf t] by (auto simp: arrive_def)

lemma bridge_okI:
  "channel_ok (br_chan y) \<Longrightarrow> main_sound bm (br_main y) \<Longrightarrow> slot_sound be (br_events y) \<Longrightarrow> slot_sound bt (br_timer y)
    \<Longrightarrow> closings (br_sent y) + bm + be + bt \<le> terminal_count (br_chan y) \<Longrightarrow> bridge_ok y"
  unfolding bridge_ok_def by blast

definition next_ok :: "bridge \<Rightarrow> bridge \<Rightarrow> bool" where
  "next_ok y z \<longleftrightarrow> bridge_ok z \<and> kept_by (br_chan y) (br_chan z)"

lemma next_okI: "bridge_ok z \<Longrightarrow> kept_by (br_chan y) t \<Longrightarrow> br_chan z = t \<Longrightarrow> next_ok y z"
  by (simp add: next_ok_def)

lemma arrived_main:
  assumes y: "channel_ok (br_chan y)" "slot_sound be (br_events y)" "slot_sound bt (br_timer y)"
      "closings (br_sent y) + bm + be + bt \<le> terminal_count (br_chan y)"
    and t: "kept_by (br_chan y) t" "main_sound (bm + terminal_count t - terminal_count (br_chan y) - due p) m"
  shows "next_ok y ((arrive cf t (sent_by p) y)\<lparr>br_main := m\<rparr>)"
proof -
  obtain be' bt' where slots: "be' \<le> be" "bt' \<le> bt" "slot_sound be' (br_events (arrive cf t (sent_by p) y))"
      "slot_sound bt' (br_timer (arrive cf t (sent_by p) y))"
    using arrive_events_slot [OF y(2)] arrive_timer_slot [OF y(3)] by meson
  have "channel_ok t"
    using t(1) y(1) by (simp add: kept_by_def)
  then show ?thesis
    using slots y(4) t(2) by (intro next_okI [OF _ t(1)] bridge_okI [where be = be' and bt = bt']) (simp_all add: arrive_def, linarith)
qed

lemma arrived_events:
  assumes y: "channel_ok (br_chan y)" "main_sound bm (br_main y)" "slot_sound bt (br_timer y)"
      "closings (br_sent y) + bm + be + bt \<le> terminal_count (br_chan y)"
    and t: "kept_by (br_chan y) t" "sound (be + terminal_count t - terminal_count (br_chan y) - due e) e"
  shows "next_ok y ((arrive cf t (sent_by e) y)\<lparr>br_events := Some e\<rparr>)"
proof -
  obtain bt' where slots: "bt' \<le> bt" "slot_sound bt' (br_timer (arrive cf t (sent_by e) y))"
    using arrive_timer_slot [OF y(3)] by meson
  have "channel_ok t"
    using t(1) y(1) by (simp add: kept_by_def)
  then show ?thesis
    using slots y(2,4) t(2) by (intro next_okI [OF _ t(1)] bridge_okI [where bt = bt']) (simp_all add: arrive_def slot_sound_def, linarith)
qed

lemma arrived_timer:
  assumes y: "channel_ok (br_chan y)" "main_sound bm (br_main y)" "slot_sound be (br_events y)"
      "closings (br_sent y) + bm + be + bt \<le> terminal_count (br_chan y)"
    and t: "kept_by (br_chan y) t" "sound (bt + terminal_count t - terminal_count (br_chan y) - due m) m"
  shows "next_ok y ((arrive cf t (sent_by m) y)\<lparr>br_timer := Some m\<rparr>)"
proof -
  obtain be' where slots: "be' \<le> be" "slot_sound be' (br_events (arrive cf t (sent_by m) y))"
    using arrive_events_slot [OF y(3)] by meson
  have "channel_ok t"
    using t(1) y(1) by (simp add: kept_by_def)
  then show ?thesis
    using slots y(2,4) t(2) by (intro next_okI [OF _ t(1)] bridge_okI [where be = be']) (simp_all add: arrive_def slot_sound_def, linarith)
qed

lemma main_sounds [simp]: "main_sound b (In_loop p) = sound b p" "main_sound b (At_end q) = sound b q"
  by (simp_all add: main_sound_def)

lemma slot_sounds [simp]: "slot_sound b (Some m) = sound b m" "slot_sound b None = (0 \<le> b)"
  by (simp_all add: slot_sound_def)

lemma main_nonneg: "main_sound b m \<Longrightarrow> 0 \<le> b"
  by (cases m) (auto simp: sound_nonneg)

lemma started_sound:
  assumes "ok_at s m" "pays 0 m" "m s = (t, p)" "0 \<le> b"
  shows "kept_by s t" "sound (b + terminal_count t - terminal_count s - due p) p"
  using sound_task [OF assms(1-3)] assms(4) by (auto elim!: sound_more)

lemma bridge_ok_step:
  assumes "bridge_ok y" "bridge_step cf y z"
  shows "next_ok y z"
proof -
  obtain bm be bt where y: "channel_ok (br_chan y)" "main_sound bm (br_main y)" "slot_sound be (br_events y)"
      "slot_sound bt (br_timer y)" "closings (br_sent y) + bm + be + bt \<le> terminal_count (br_chan y)"
    using assms(1) unfolding bridge_ok_def by blast
  note nonneg = main_nonneg [OF y(2)] slot_nonneg [OF y(3)] slot_nonneg [OF y(4)]
  show ?thesis
    using assms(2)
  proof cases
    case (answer_main c k x t p)
    then show ?thesis
      using sound_answer [where c = c and k = k and x = x, OF _ answer_main(3,4)] y(2) by (auto intro: arrived_main [OF y(1,3,4,5)])
  next
    case (loop_main t p)
    then show ?thesis
      using started_sound [where m = "run_turn cf False", OF _ _ loop_main(4) nonneg(1)] by (auto intro: arrived_main [OF y(1,3,4,5)])
  next
    case (leave_main r t q)
    then show ?thesis
      using started_sound [where m = "run_end", OF _ _ leave_main(4) nonneg(1)] by (auto intro: arrived_main [OF y(1,3,4,5)])
  next
    case (answer_end c k x t q)
    then show ?thesis
      using sound_answer [where c = c and k = k and x = x, OF _ answer_end(3,4)] y(2) by (auto intro: arrived_main [OF y(1,3,4,5)])
  next
    case (answer_events c k x t e)
    then show ?thesis
      using sound_answer [where c = c and k = k and x = x, OF _ answer_events(3,4)] y(3) by (auto intro: arrived_events [OF y(1,2,4,5)])
  next
    case (loop_events g t e)
    then show ?thesis
      using started_sound [where m = "events_turn cf g", OF _ _ loop_events(3) nonneg(2)] by (auto intro: arrived_events [OF y(1,2,4,5)])
  next
    case (over_events r)
    then show ?thesis
      using y nonneg(2) kept_simple [of "br_chan y"]
      by (intro next_okI [OF _ _ refl] bridge_okI [where be = be and bm = bm and bt = bt]) (simp_all add: kept_by_def terminal_count_def)
  next
    case (answer_timer c k x t m)
    then show ?thesis
      using sound_answer [where c = c and k = k and x = x, OF _ answer_timer(3,4)] y(4) by (auto intro: arrived_timer [OF y(1,2,3,5)])
  next
    case (over_timer r)
    then show ?thesis
      using y nonneg(3) by (intro next_okI [OF _ _ refl] bridge_okI [where be = be and bm = bm and bt = bt]) simp_all
  next
    case (session_moves b)
    then show ?thesis
      using y kept_simple(11) [of "br_chan y" b]
      by (intro next_okI [OF _ _ refl] bridge_okI [where be = be and bm = bm and bt = bt]) (simp_all add: kept_by_def terminal_count_def)
  qed
qed


lemma bridge_ok_start:
  assumes "bridge_start cf y"
  shows "bridge_ok y"
proof -
  define p where "p = snd (run_start cf channel_init)"
  define t where "t = fst (run_start cf channel_init)"
  have start: "run_start cf channel_init = (t, p)"
    by (simp add: p_def t_def)
  have "channel_ok channel_init"
    by (simp add: channel_ok_def output_ok_def places_ok_def recent_def log_ok_def bytes_of_def channel_init_def
        default_format_def WINDOW_FRAMES_def WINDOW_BYTES_def)
  moreover have "terminal_count channel_init = 0"
    by (simp add: terminal_count_def channel_init_def)
  moreover have "kept_by channel_init t" "sound (0 + terminal_count t - terminal_count channel_init - due p) p"
    using started_sound [where m = "run_start cf", OF _ _ start, of 0] by simp_all
  moreover have "0 \<le> due p"
    by (rule due_nonneg)
  moreover have "br_chan y = t" "br_main y = In_loop p" "br_events y = None" "br_timer y = None" "br_sent y = []"
    using assms by (simp_all add: bridge_start_def p_def t_def)
  ultimately show ?thesis
    by (intro bridge_okI [where be = 0 and bt = 0]) (auto simp: kept_by_def closings_def)
qed

interpretation bridge: monotone_system "bridge_start cf" "bridge_step cf" bridge_ok
  "\<lambda>y z. channel_le (br_chan y) (br_chan z)" for cf
proof
  show "bridge_ok y" if "bridge_start cf y" for y
    using that by (rule bridge_ok_start)
  show "bridge_ok z" if "bridge_ok y" "bridge_step cf y z" for y z
    using bridge_ok_step [OF that] by (simp add: next_ok_def)
  show "channel_le (br_chan y) (br_chan y)" for y
    by (simp add: channel_le_def)
  show "channel_le (br_chan y) (br_chan r)"
    if "channel_le (br_chan y) (br_chan z)" "channel_le (br_chan z) (br_chan r)" for y z r
    using that unfolding channel_le_def by (meson order.trans)
  show "channel_le (br_chan y) (br_chan z)" if "bridge_ok y" "bridge_step cf y z" for y z
    using bridge_ok_step [OF that] that(1) by (simp add: next_ok_def kept_by_def bridge_ok_def)
qed

end
