(* ===== verification/Local_Calls.thy ===== *)
theory Local_Calls
  imports Local_Bridge
begin

text \<open>
  What the local channel promises in every interleaving of its coroutines, and a call that is played
  through: the product says hello and then sends something that is no message, so that the call fails.
\<close>

section \<open>A call that fails\<close>

definition example_channel :: channel_config where
  "example_channel = \<lparr>lf_env = example_env, lf_ack_every = 2, lf_batch_frames = 2,
     lf_ms = (\<lambda>x n f. case x of Fin q \<Rightarrow> Fin (q + of_nat n * 1000 / of_int (2 * af_sample_rate f * af_channels f)) | y \<Rightarrow> y)\<rparr>"

datatype choice = Main_answer outcome | Main_next | Events_answer outcome

fun turn :: "channel_config \<Rightarrow> choice \<Rightarrow> bridge \<Rightarrow> bridge option" where
  \<comment> \<open>some of the steps, as a function\<close>
  "turn cf (Main_answer x) y =
    (case br_main y of
       In_loop (Await c k) \<Rightarrow>
         if answers c x (br_chan y)
         then (case k x (br_chan y) of (t, p) \<Rightarrow> Some ((arrive cf t (sent_by p) y)\<lparr>br_main := In_loop p\<rparr>))
         else None
     | _ \<Rightarrow> None)"
| "turn cf Main_next y =
    (case br_main y of
       In_loop (Done (Inr True)) \<Rightarrow>
         if lc_terminal (br_chan y) then None
         else (case run_turn cf False (br_chan y) of
                 (t, p) \<Rightarrow> Some ((arrive cf t (sent_by p) y)\<lparr>br_main := In_loop p\<rparr>))
     | _ \<Rightarrow> None)"
| "turn cf (Events_answer x) y =
    (case br_events y of
       Some (Await c k) \<Rightarrow>
         if answers c x (br_chan y)
         then (case k x (br_chan y) of (t, p) \<Rightarrow> Some ((arrive cf t (sent_by p) y)\<lparr>br_events := Some p\<rparr>))
         else None
     | _ \<Rightarrow> None)"

fun turns :: "channel_config \<Rightarrow> choice list \<Rightarrow> bridge \<Rightarrow> bridge option" where
  "turns cf [] y = Some y"
| "turns cf (c # cs) y = Option.bind (turn cf c y) (turns cf cs)"

lemma turn_step: "turn cf c y = Some z \<Longrightarrow> bridge_step cf y z"
proof (induction cf c y rule: turn.induct)
  case (1 cf x y)
  then show ?case
    by (auto split: main_task.splits prog.splits if_splits prod.splits intro: bridge_step.answer_main)
next
  case (2 cf y)
  then show ?case
    by (auto split: main_task.splits prog.splits sum.splits bool.splits if_splits prod.splits intro: bridge_step.loop_main)
next
  case (3 cf x y)
  then show ?case
    by (auto split: option.splits prog.splits if_splits prod.splits intro: bridge_step.answer_events)
qed

lemma turns_steps: "turns cf cs y = Some z \<Longrightarrow> (bridge_step cf)\<^sup>*\<^sup>* y z"
proof (induction cs arbitrary: y)
  case (Cons c cs)
  then obtain y' where y': "turn cf c y = Some y'" "turns cf cs y' = Some z"
    by (auto simp: bind_eq_Some_conv)
  then show ?case
    using Cons.IH turn_step converse_rtranclp_into_rtranclp by metis
qed simp

definition example_corr :: ustr where
  "example_corr = u ''corr_'' @ replicate 26 48"

definition hello :: dict where
  "hello = [(u ''type'', vs ''local.hello''), (u ''generation'', VInt 1),
     (u ''version'', VStr LOCAL_PROTOCOL_VERSION), (u ''correlation'', VStr example_corr)]"

definition hello_text :: ustr where
  "hello_text = (case encode_local_message example_env hello of Inr t \<Rightarrow> t | Inl e \<Rightarrow> [])"

lemma hello_encoded: "encode_local_message example_env hello = Inr hello_text"
proof -
  have "case encode_local_message example_env hello of Inr t \<Rightarrow> True | Inl e \<Rightarrow> False"
    by code_simp
  then show ?thesis
    by (auto simp: hello_text_def split: sum.splits)
qed

lemma hello_decoded: "decode_local_message example_env hello_text = Inr hello"
proof (rule local_message_read [OF hello_encoded])
  show "writable False (VDict hello)" "written False (VDict hello) = VDict hello" "generation_ok hello"
    by code_simp+
  show "version_ok ty hello" if "dget hello (u ''type'') = VStr ty" for ty
  proof -
    have "dget hello (u ''type'') = vs ''local.hello''" "version_ok (u ''local.hello'') hello"
      by code_simp+
    then show ?thesis
      using that by simp
  qed
qed


definition example_bridge :: bridge where
  "example_bridge = \<lparr>br_chan = fst (run_start example_channel channel_init),
     br_main = In_loop (snd (run_start example_channel channel_init)), br_events = None, br_timer = None, br_sent = []\<rparr>"

definition failing_call :: "choice list" where
  "failing_call = [Main_answer (O_text hello_text), Main_next, Main_answer (O_binary []), Main_answer O_done,
     Main_answer O_done]"

lemma hello_values:
  "dget hello (u ''type'') = vs ''local.hello''" "dget hello (u ''generation'') = VInt 1"
  "dget hello (u ''correlation'') = VStr example_corr" "correlation_ok example_corr"
  by code_simp+

lemmas run_defs = bind_def catching_def reading_def return_def raise_def update_def lift_def await_def

lemma example_channel_env [simp]: "lf_env example_channel = example_env"
  by (simp add: example_channel_def)

definition message_text :: "string \<Rightarrow> (string \<times> pyval) list \<Rightarrow> ustr" where
  "message_text ty fs = (case encode_local_message example_env (call_message ty (channel_init\<lparr>lc_generation := 1\<rparr>) fs) of
     Inr t \<Rightarrow> t | Inl e \<Rightarrow> [])"

definition encodes :: "string \<Rightarrow> (string \<times> pyval) list \<Rightarrow> bool" where
  "encodes ty fs = (case encode_local_message example_env (call_message ty (channel_init\<lparr>lc_generation := 1\<rparr>) fs) of
     Inr t \<Rightarrow> True | Inl e \<Rightarrow> False)"

lemma encoded:
  "encodes ty fs \<Longrightarrow> lc_generation s = 1 \<Longrightarrow>
    encode_local_message example_env (call_message ty s fs) = Inr (message_text ty fs)"
  by (auto simp: encodes_def message_text_def call_message_def split: sum.splits)

lemma failing_encodes:
  "encodes ''call.state'' [(''state'', vs ''error'')]"
  "encodes ''call.error'' [(''code'', VStr (code_value E_PROTOCOL_ERROR)), (''retryable'', VBool False)]"
  "encodes ''call.closed'' [(''reason'', vs (closed_reason_for_error E_PROTOCOL_ERROR))]"
  by code_simp+

lemma record_local_keeps [simp]:
  "lc_event_task (record_local st c d s) = lc_event_task s" "lc_ack_timer (record_local st c d s) = lc_ack_timer s"
  "lc_session (record_local st c d s) = lc_session s" "lc_generation (record_local st c d s) = lc_generation s"
  "lc_ready (record_local st c d s) = lc_ready s" "lc_correlation (record_local st c d s) = lc_correlation s"
  "lc_input (record_local st c d s) = lc_input s"
  by (simp_all add: record_local_def)

lemma failing_call_played:
  "\<exists>z. turns example_channel failing_call example_bridge = Some z \<and> length (filter closing (br_sent z)) = 1
    \<and> lc_generation (br_chan z) = 1"
  using hello_decoded hello_values
  apply (simp add: failing_call_def example_bridge_def run_start_def run_defs run_turn_def receive_hello_def
      channel_init_def arrive_def)
  apply (simp add: run_defs run_turn_def receive_message_def handle_input_audio_def run_error_def arrive_def fail_call_def
      claim_terminal_def close_session_def try_send_json_def send_channel_def encoded failing_encodes
      close_channel_def connection_error_def suppressed_def raised_def)
  done


section \<open>A call that fails while its session becomes ready\<close>

definition start_message :: dict where
  "start_message = [(u ''type'', vs ''call.start''), (u ''generation'', VInt 1), (u ''instructions'', vs ''i''),
     (u ''required_features'', VList [])]"

definition start_text :: ustr where
  "start_text = (case encode_local_message example_env start_message of Inr t \<Rightarrow> t | Inl e \<Rightarrow> [])"

lemma start_decoded: "decode_local_message example_env start_text = Inr start_message"
proof (rule local_message_read)
  have "case encode_local_message example_env start_message of Inr t \<Rightarrow> True | Inl e \<Rightarrow> False"
    by code_simp
  then show "encode_local_message example_env start_message = Inr start_text"
    by (auto simp: start_text_def split: sum.splits)
  show "writable False (VDict start_message)" "written False (VDict start_message) = VDict start_message"
    "generation_ok start_message"
    by code_simp+
  show "version_ok ty start_message" if "dget start_message (u ''type'') = VStr ty" for ty
  proof -
    have "dget start_message (u ''type'') = vs ''call.start''" "version_ok (u ''call.start'') start_message"
      by code_simp+
    then show ?thesis
      using that by simp
  qed
qed

lemma start_values:
  "dget start_message (u ''type'') = vs ''call.start''" "dget start_message (u ''generation'') = VInt 1"
  "requested_features start_message = Inr (u ''i'', [])"
  by code_simp+

definition ready_formats :: "(string \<times> pyval) list" where
  "ready_formats = [(''correlation'', VStr example_corr), (''input_audio'', audio_json (default_format 16000)),
     (''output_audio'', audio_json (default_format 24000))]"

lemma ready_encodes:
  "encodes ''call.ready'' ready_formats" "encodes ''call.state'' [(''state'', vs ''connecting'')]"
  "encodes ''call.state'' [(''state'', vs ''active'')]"
  by code_simp+


definition ready_run :: "choice list" where
  "ready_run = [Main_answer (O_text hello_text), Main_next, Main_answer (O_text start_text), Main_answer O_done,
     Main_answer O_done, Main_next, Events_answer O_done,
     Events_answer (O_event (SessionReady 1 example_corr (default_format 16000) (default_format 24000) False)),
     Main_answer (O_binary []), Main_answer O_done, Events_answer O_done]"

definition call_state :: "wire \<Rightarrow> pyval" where
  "call_state w = (case w of Json v t \<Rightarrow> dget v (u ''state'') | Pcm b \<Rightarrow> VNone)"

lemma call_state_message [simp]:
  "call_state (Json (call_message ''call.state'' s [(''state'', v)]) t) = v"
  by (simp add: call_state_def call_message_def dget_def)

lemma request_opens:
  "open_request_init example_env \<lparr>or_external_session_id = u ''local-generation-'' @ nat_text (Suc 0),
     or_instructions = u ''i'', or_required_features = [], or_input_audio = default_format 16000,
     or_output_audio = default_format 24000, or_tools = VList []\<rparr> = Inr ()"
  by code_simp

lemma no_frame: "\<exists>m. decode_pcm_frame [] = Inl (protocol_error m)"
  by (simp add: decode_pcm_frame_def)

lemma ready_run_played:
  "\<exists>z. turns example_channel ready_run example_bridge = Some z
    \<and> lc_terminal (br_chan z) \<and> map call_state (drop 2 (br_sent z)) = [vs ''error'', vs ''active'']"
proof -
  obtain m where frame: "decode_pcm_frame [] = Inl (protocol_error m)"
    using no_frame by blast
  show ?thesis
    using frame hello_decoded hello_values start_decoded start_values ready_encodes request_opens
    apply (simp add: ready_run_def example_bridge_def run_start_def run_defs run_turn_def receive_hello_def
        channel_init_def arrive_def)
    apply (simp add: run_defs run_turn_def receive_message_def handle_message_def start_call_def run_error_def arrive_def
        fail_call_def send_json_def send_channel_def encoded failing_encodes connection_error_def
        suppressed_def raised_def open_session_def start_request_def events_start_def events_turn_def
        on_event_def ready_event_def ready_formats_def claim_terminal_def close_session_def try_send_json_def
        handle_input_audio_def)
    done
qed


section \<open>Properties\<close>

lemma recent_card: "recent order A \<Longrightarrow> card A \<le> 64"
  by (simp add: recent_def WINDOW_FRAMES_def distinct_card)

lemma example_call_start: "reach (bridge_start example_channel) (bridge_step example_channel) example_bridge"
  by (rule reach_start) (simp add: bridge_start_def example_bridge_def example_channel_def channel_config_error_def)

lemma example_reached:
  "turns example_channel cs example_bridge = Some z \<Longrightarrow> reach (bridge_start example_channel) (bridge_step example_channel) z"
  by (rule reach_rtranclp [OF example_call_start turns_steps])

text \<open>
  C9. In every interleaving of the loop of run, the task that forwards the session's events and the timer
  of the acknowledgements, with any answers to their calls, the output that was sent and not yet
  acknowledged is exactly the sequences after the last acknowledged one, its bytes are counted right, it
  never exceeds 64 frames nor 1 MiB, and the position that the product reported as played never exceeds
  the duration of the audio it acknowledged.
\<close>

theorem output_accounted:
  assumes "reach (bridge_start cf) (bridge_step cf) y"
  shows "map fst (lc_pending (br_chan y)) = [lc_output_acked (br_chan y) + 1..lc_output_sequence (br_chan y)]
    \<and> lc_pending_bytes (br_chan y) = bytes_of (lc_pending (br_chan y))
    \<and> length (lc_pending (br_chan y)) \<le> 64 \<and> lc_pending_bytes (br_chan y) \<le> 1048576
    \<and> lc_played (br_chan y) * (2 * af_sample_rate (lc_audio (br_chan y)) * af_channels (lc_audio (br_chan y)))
        \<le> lc_acked_bytes (br_chan y) * 1000"
  using bridge.inv_reach [OF assms]
  by (simp add: bridge_ok_def channel_ok_def output_ok_def WINDOW_FRAMES_def WINDOW_BYTES_def)

theorem output_accounted_witness:
  "\<exists>y :: bridge. lc_generation (br_chan y) = 1
    \<and> map fst (lc_pending (br_chan y)) = [lc_output_acked (br_chan y) + 1..lc_output_sequence (br_chan y)]"
proof -
  obtain z where z: "turns example_channel failing_call example_bridge = Some z" "lc_generation (br_chan z) = 1"
    using failing_call_played by blast
  then show ?thesis
    using output_accounted [OF example_reached [OF z(1)]] by blast
qed

text \<open>
  C8. In every interleaving the product is told at most once that the call is closed, and from then on the
  channel stays terminal: whichever coroutine fails first claims the end of the call.
\<close>

theorem closed_at_most_once:
  assumes "reach (bridge_start cf) (bridge_step cf) y"
  shows "length (filter closing (br_sent y)) \<le> 1 \<and> (filter closing (br_sent y) \<noteq> [] \<longrightarrow> lc_terminal (br_chan y))"
proof -
  obtain bm be bt where y: "main_sound bm (br_main y)" "slot_sound be (br_events y)" "slot_sound bt (br_timer y)"
      "closings (br_sent y) + bm + be + bt \<le> terminal_count (br_chan y)"
    using bridge.inv_reach [OF assms] unfolding bridge_ok_def by blast
  then have "closings (br_sent y) \<le> terminal_count (br_chan y)"
    using main_nonneg [OF y(1)] slot_nonneg [OF y(2)] slot_nonneg [OF y(3)] by linarith
  then show ?thesis
    by (cases "lc_terminal (br_chan y)") (simp_all add: closings_def terminal_count_def)
qed

theorem closed_at_most_once_witness:
  "\<exists>y :: bridge. length (filter closing (br_sent y)) = 1 \<and> lc_terminal (br_chan y)"
proof -
  obtain z where z: "turns example_channel failing_call example_bridge = Some z" "length (filter closing (br_sent z)) = 1"
    using failing_call_played by blast
  have "filter closing (br_sent z) \<noteq> []"
    using z(2) by auto
  then show ?thesis
    using closed_at_most_once [OF example_reached [OF z(1)]] z(2) by blast
qed

text \<open>
  Along every run of the three coroutines the end of the call is never taken back and the sequences
  that were sent, the sequences and bytes that were acknowledged, the played position and the counters of
  late and duplicate frames never fall.
\<close>

lemma channel_progress:
  assumes "reach (bridge_start cf) (bridge_step cf) y" "(bridge_step cf)\<^sup>*\<^sup>* y z"
  shows "(lc_terminal (br_chan y) \<longrightarrow> lc_terminal (br_chan z)) \<and> (lc_ready (br_chan y) \<longrightarrow> lc_ready (br_chan z))
    \<and> lc_output_sequence (br_chan y) \<le> lc_output_sequence (br_chan z)
    \<and> lc_output_acked (br_chan y) \<le> lc_output_acked (br_chan z)
    \<and> lc_acked_bytes (br_chan y) \<le> lc_acked_bytes (br_chan z) \<and> lc_played (br_chan y) \<le> lc_played (br_chan z)
    \<and> lc_late (br_chan y) \<le> lc_late (br_chan z) \<and> lc_duplicates (br_chan y) \<le> lc_duplicates (br_chan z)"
  using bridge.le_run [OF bridge.inv_reach [OF assms(1)] assms(2)] by (simp add: channel_le_def)

text \<open>
  What the code does when the call fails while the task that forwards the events is sending that the
  call is ready: after the product was told that the state of the call is an error, it is still told that
  the state is active, because nothing is checked between the two messages of a ready session.
\<close>

lemma active_after_error:
  "\<exists>y. reach (bridge_start example_channel) (bridge_step example_channel) y \<and> lc_terminal (br_chan y)
    \<and> map call_state (drop 2 (br_sent y)) = [vs ''error'', vs ''active'']"
proof -
  obtain z where z: "turns example_channel ready_run example_bridge = Some z" "lc_terminal (br_chan z)"
      "map call_state (drop 2 (br_sent z)) = [vs ''error'', vs ''active'']"
    using ready_run_played by (elim exE conjE)
  from example_reached [OF z(1)] z(2,3) show ?thesis
    by (intro exI [of _ z] conjI)
qed


text \<open>
  Every bounded structure of the local channel stays bounded in every interleaving: the input that
  waits for an earlier sequence is at most 1 MiB within the next 64 sequences, at most 64 completed
  outputs and 64 ended responses are remembered, without a duplicate, the output that is active is neither
  completed nor of an ended response, and every recorded diagnostic is well formed.
\<close>

lemma channel_bounded:
  assumes "reach (bridge_start cf) (bridge_step cf) y"
  shows "(case lc_input (br_chan y) of None \<Rightarrow> True
      | Some w \<Rightarrow> iw_pending_bytes w \<le> 1048576 \<and> distinct (map fst (iw_pending w))
          \<and> set (map fst (iw_pending w)) \<subseteq> {iw_highest w + 2..iw_highest w + 64})
    \<and> card (lc_completed (br_chan y)) \<le> 64 \<and> card (lc_ended (br_chan y)) \<le> 64
    \<and> (case lc_active (br_chan y) of None \<Rightarrow> True
       | Some p \<Rightarrow> p \<notin> lc_completed (br_chan y) \<and> fst p \<notin> lc_ended (br_chan y))
    \<and> list_all (\<lambda>d. diag_error d = None) (lc_log (br_chan y))"
proof -
  let ?s = "br_chan y"
  have ok: "channel_ok ?s"
    using bridge.inv_reach [OF assms] by (simp add: bridge_ok_def)
  have "iw_pending_bytes w \<le> 1048576 \<and> distinct (map fst (iw_pending w))
      \<and> set (map fst (iw_pending w)) \<subseteq> {iw_highest w + 2..iw_highest w + 64}" if "lc_input ?s = Some w" for w
  proof -
    have "input_ok w"
      using ok that by (simp add: channel_ok_def)
    then show ?thesis
      by (auto simp: input_ok_def window_ok_def bytes_ok_def sequences_of_def WINDOW_FRAMES_def WINDOW_BYTES_def)
  qed
  then show ?thesis
    using ok by (auto simp: channel_ok_def places_ok_def log_ok_def list_all_iff recent_card split: option.split)
qed

section \<open>What an acknowledgement of the product does\<close>

lemma waiting_below:
  assumes "channel_ok s" "q \<in> set (lc_pending s)"
  shows "lc_output_acked s < fst q"
proof -
  have "fst q \<in> set (map fst (lc_pending s))"
    using assms(2) by simp
  moreover have "map fst (lc_pending s) = [lc_output_acked s + 1..lc_output_sequence s]"
    using assms(1) by (simp add: channel_ok_def output_ok_def)
  ultimately show ?thesis
    by (metis atLeastAtMost_iff set_upto zless_add1_eq less_le_not_le not_less zle_add1_eq_le)
qed

lemma pop_acked_filter:
  "sorted (map fst ps) \<Longrightarrow> pop_acked h ps = filter (\<lambda>q. h < fst q) ps"
proof (induction ps)
  case (Cons p ps)
  have "filter (\<lambda>q. h < fst q) ps = ps" if "h < fst p"
    using Cons.prems that by (fastforce intro!: filter_True)
  then show ?case
    using Cons by simp
qed simp

lemma bytes_of_split:
  "bytes_of ps = bytes_of (filter (\<lambda>q. fst q \<le> h) ps) + bytes_of (filter (\<lambda>q. h < fst q) ps)"
  by (induction ps) (auto simp: bytes_of_def)

text \<open>
  C10. An acknowledgement of output is decided by the sequence and the position it carries: the sequence
  must have been sent, and the position must not fall and must not exceed the duration of the audio that
  would then be acknowledged. An accepted one removes exactly the frames up to that sequence from the
  window and counts their bytes as acknowledged; an older one changes the position only; a refused one
  changes nothing.
\<close>

theorem output_ack_decides:
  assumes "channel_ok s" "lc_ready s" "dget v (u ''direction'') = vs ''output''"
    and "dget v (u ''highest_contiguous_sequence'') = VInt h"
    and "get_or v ''played_audio_ms'' (VInt (lc_played s)) = VInt p"
  shows "if 0 \<le> h \<and> h \<le> lc_output_sequence s \<and> lc_played s \<le> p
        \<and> p * (2 * af_sample_rate (lc_audio s) * af_channels (lc_audio s))
            \<le> (lc_acked_bytes s + (\<Sum>q \<leftarrow> lc_pending s. if fst q \<le> h then int (snd q) else 0)) * 1000
      then handle_output_ack v s =
        (Inr (), s\<lparr>lc_played := p, lc_output_acked := max h (lc_output_acked s),
           lc_pending := filter (\<lambda>q. h < fst q) (lc_pending s),
           lc_pending_bytes := (\<Sum>q \<leftarrow> lc_pending s. if h < fst q then int (snd q) else 0),
           lc_acked_bytes := lc_acked_bytes s + (\<Sum>q \<leftarrow> lc_pending s. if fst q \<le> h then int (snd q) else 0)\<rparr>)
      else \<exists>e. handle_output_ack v s = (Inl e, s)"
proof -
  let ?gone = "bytes_of (filter (\<lambda>q. fst q \<le> h) (lc_pending s))"
  let ?rest = "bytes_of (filter (\<lambda>q. h < fst q) (lc_pending s))"
  have sums: "(\<Sum>q \<leftarrow> lc_pending s. if fst q \<le> h then int (snd q) else 0) = ?gone"
      "(\<Sum>q \<leftarrow> lc_pending s. if h < fst q then int (snd q) else 0) = ?rest"
    by (simp_all add: bytes_of_def sum_list_map_filter')
  have whole: "bytes_of (lc_pending s) = ?gone + ?rest"
    by (rule bytes_of_split)
  have s: "map fst (lc_pending s) = [lc_output_acked s + 1..lc_output_sequence s]" "lc_pending_bytes s = bytes_of (lc_pending s)"
    using assms(1) by (simp_all add: channel_ok_def output_ok_def)
  have pop: "pop_acked h (lc_pending s) = filter (\<lambda>q. h < fst q) (lc_pending s)"
    by (rule pop_acked_filter) (simp add: s(1))
  have acked: "output_acked h p s = s\<lparr>lc_played := p, lc_output_acked := max h (lc_output_acked s),
      lc_pending := filter (\<lambda>q. h < fst q) (lc_pending s), lc_pending_bytes := ?rest,
      lc_acked_bytes := lc_acked_bytes s + ?gone\<rparr>"
  proof (cases "h \<le> lc_output_acked s")
    case True
    have "filter (\<lambda>q. h < fst q) (lc_pending s) = lc_pending s"
      using waiting_below [OF assms(1)] True by (fastforce intro!: filter_True)
    moreover have "?gone = 0"
      using whole calculation by simp
    ultimately show ?thesis
      using True s(2) by (simp add: output_acked_def)
  next
    case False
    then show ?thesis
      using whole s(2) by (simp add: output_acked_def pop Let_def)
  qed
  show ?thesis
    using assms(2-5) acked unfolding sums
    by (auto simp: handle_output_ack_def position_ok_def acknowledged_bytes_def Let_def)
qed


definition example_sent :: channel where
  \<comment> \<open>two frames of 100 ms were sent\<close>
  "example_sent = channel_init\<lparr>lc_ready := True, lc_output_sequence := 2, lc_pending := [(1, 4800), (2, 4800)],
     lc_pending_bytes := 9600\<rparr>"

definition example_ack :: dict where
  "example_ack = [(u ''direction'', vs ''output''), (u ''highest_contiguous_sequence'', VInt 1),
     (u ''played_audio_ms'', VInt 100)]"

lemma example_sent_state:
  "channel_ok example_sent" "lc_ready example_sent" "lc_pending example_sent = [(1, 4800), (2, 4800)]"
  "lc_output_sequence example_sent = 2" "lc_output_acked example_sent = 0" "lc_acked_bytes example_sent = 0"
  "lc_played example_sent = 0" "lc_audio example_sent = default_format 24000"
  by (simp_all add: example_sent_def channel_init_def channel_ok_def output_ok_def places_ok_def
      recent_def log_ok_def bytes_of_def default_format_def WINDOW_FRAMES_def WINDOW_BYTES_def upto_rec1)

theorem output_ack_decides_witness:
  "\<exists>t. handle_output_ack example_ack example_sent = (Inr (), t) \<and> lc_pending t = [(2, 4800)]
    \<and> lc_played t = 100 \<and> lc_acked_bytes t = 4800"
proof -
  have "dget example_ack (u ''direction'') = vs ''output''" "dget example_ack (u ''highest_contiguous_sequence'') = VInt 1"
    "get_or example_ack ''played_audio_ms'' (VInt (lc_played example_sent)) = VInt 100"
    by code_simp+
  from output_ack_decides [OF example_sent_state(1,2) this] show ?thesis
    by (simp add: example_sent_state default_format_def)
qed

end
