(* ===== verification/Utf8.thy ===== *)
theory Utf8
  imports Json_Roundtrip
begin

text \<open>
  Texts as bytes: \<^verbatim>\<open>str.encode("utf-8")\<close>, the big-endian \<^verbatim>\<open>int.to_bytes\<close> and \<^verbatim>\<open>int.from_bytes\<close>, and what
  \<^verbatim>\<open>json.loads\<close> does with bytes: it guesses one of the Unicode encodings from the first bytes and decodes
  them with \<^verbatim>\<open>surrogatepass\<close>. A text that can be encoded is read back, so that its encoding is injective.
\<close>

section \<open>UTF-8\<close>

definition utf8_char :: "nat \<Rightarrow> nat list" where
  "utf8_char c =
    (if c < 128 then [c]
     else if c < 2048 then [192 + c div 64, 128 + c mod 64]
     else if c < 65536 then [224 + c div 4096, 128 + c div 64 mod 64, 128 + c mod 64]
     else [240 + c div 262144, 128 + c div 4096 mod 64, 128 + c div 64 mod 64, 128 + c mod 64])"

definition utf8 :: "ustr \<Rightarrow> bytes" where
  "utf8 s = map of_nat (concat (map utf8_char s))"

definition str_bytes :: "ustr \<Rightarrow> bytes res" where
  \<comment> \<open>\<^verbatim>\<open>s.encode("utf-8")\<close>\<close>
  "str_bytes s = (if encodable s then Inr (utf8 s) else Inl UnicodeErr)"

definition continues :: "nat \<Rightarrow> bool" where
  "continues b \<longleftrightarrow> 128 \<le> b \<and> b < 192"

fun read_utf8 :: "nat list \<Rightarrow> ustr option" where
  \<comment> \<open>\<^verbatim>\<open>decode("utf-8", "surrogatepass")\<close>: overlong sequences are refused, surrogates are not\<close>
  "read_utf8 [] = Some []"
| "read_utf8 (a # r) =
    (if a < 128 then map_option (Cons a) (read_utf8 r)
     else if a < 194 then None
     else if a < 224 then
       (case r of
          b # r' \<Rightarrow>
            if continues b then map_option (Cons (64 * (a - 192) + (b - 128))) (read_utf8 r') else None
        | _ \<Rightarrow> None)
     else if a < 240 then
       (case r of
          b # c # r' \<Rightarrow>
            if continues b \<and> continues c \<and> (a = 224 \<longrightarrow> 160 \<le> b)
            then map_option (Cons (4096 * (a - 224) + 64 * (b - 128) + (c - 128))) (read_utf8 r') else None
        | _ \<Rightarrow> None)
     else if a < 245 then
       (case r of
          b # c # d # r' \<Rightarrow>
            if continues b \<and> continues c \<and> continues d \<and> (a = 240 \<longrightarrow> 144 \<le> b) \<and> (a = 244 \<longrightarrow> b < 144)
            then map_option (Cons (262144 * (a - 240) + 4096 * (b - 128) + 64 * (c - 128) + (d - 128))) (read_utf8 r')
            else None
        | _ \<Rightarrow> None)
     else None)"

definition code_points :: "ustr \<Rightarrow> bool" where
  \<comment> \<open>what every \<^verbatim>\<open>str\<close> consists of\<close>
  "code_points s \<longleftrightarrow> list_all (\<lambda>c. c < 1114112) s"

lemma utf8_char_small: "c < 1114112 \<Longrightarrow> x \<in> set (utf8_char c) \<Longrightarrow> x < 256"
  by (auto simp: utf8_char_def split: if_splits)

lemma divmod_parts:
  "(c :: nat) < 2048 \<Longrightarrow> 64 * (c div 64) + c mod 64 = c"
  "c < 65536 \<Longrightarrow> 4096 * (c div 4096) + 64 * (c div 64 mod 64) + c mod 64 = c"
  "262144 * (c div 262144) + 4096 * (c div 4096 mod 64) + 64 * (c div 64 mod 64) + c mod 64 = c"
proof -
  have d: "c div 4096 = c div 64 div 64" "c div 262144 = c div 64 div 64 div 64"
    by (simp_all add: div_mult2_eq [symmetric])
  have step: "64 * (x div 64) + x mod 64 = x" for x :: nat
    by simp
  show "c < 2048 \<Longrightarrow> 64 * (c div 64) + c mod 64 = c"
    by simp
  show "c < 65536 \<Longrightarrow> 4096 * (c div 4096) + 64 * (c div 64 mod 64) + c mod 64 = c"
    using step [of c] step [of "c div 64"] unfolding d by linarith
  show "262144 * (c div 262144) + 4096 * (c div 4096 mod 64) + 64 * (c div 64 mod 64) + c mod 64 = c"
    using step [of c] step [of "c div 64"] step [of "c div 64 div 64"] unfolding d by linarith
qed

lemma read_utf8_char:
  assumes "c < 1114112"
  shows "read_utf8 (utf8_char c @ r) = map_option (Cons c) (read_utf8 r)"
proof -
  consider "c < 128" | "128 \<le> c" "c < 2048" | "2048 \<le> c" "c < 65536" | "65536 \<le> c"
    by linarith
  then show ?thesis
  proof cases
    case 1
    then show ?thesis
      by (simp add: utf8_char_def)
  next
    case 2
    define q r' where "q = c div 64" and "r' = c mod 64"
    have "64 * q + r' = c" "2 \<le> q" "q < 32" "r' < 64"
      using 2 unfolding q_def r'_def by simp_all
    then show ?thesis
      using 2 unfolding utf8_char_def q_def [symmetric] r'_def [symmetric] by (simp add: continues_def)
  next
    case 3
    define q p r' where "q = c div 4096" and "p = c div 64 mod 64" and "r' = c mod 64"
    have c: "4096 * q + 64 * p + r' = c" "p < 64" "r' < 64"
      using divmod_parts(2) [OF 3(2)] unfolding q_def p_def r'_def by simp_all
    then have "q < 16" "q = 0 \<longrightarrow> 32 \<le> p"
      using 3 by linarith+
    then show ?thesis
      using 3 c unfolding utf8_char_def q_def [symmetric] p_def [symmetric] r'_def [symmetric]
      by (auto simp: continues_def)
  next
    case 4
    define q p o' r' where "q = c div 262144" and "p = c div 4096 mod 64" and "o' = c div 64 mod 64" and "r' = c mod 64"
    have c: "262144 * q + 4096 * p + 64 * o' + r' = c" "p < 64" "o' < 64" "r' < 64"
      using divmod_parts(3) [of c] unfolding q_def p_def o'_def r'_def by simp_all
    then have "q < 5" "q = 0 \<longrightarrow> 16 \<le> p" "q = 4 \<longrightarrow> p < 16"
      using 4 assms by linarith+
    then show ?thesis
      using 4 c unfolding utf8_char_def q_def [symmetric] p_def [symmetric] o'_def [symmetric] r'_def [symmetric]
      by (auto simp: continues_def)
  qed
qed

lemma read_utf8_concat: "code_points s \<Longrightarrow> read_utf8 (concat (map utf8_char s)) = Some s"
  by (induction s) (simp_all add: code_points_def read_utf8_char)

lemma utf8_values: "code_points s \<Longrightarrow> map unat (utf8 s) = concat (map utf8_char s)"
  unfolding utf8_def map_map
  by (intro map_idI) (auto simp: code_points_def list_all_iff unat_of_nat dest!: utf8_char_small [rotated])

lemma read_utf8_utf8: "code_points s \<Longrightarrow> read_utf8 (map unat (utf8 s)) = Some s"
  by (simp add: utf8_values read_utf8_concat)

lemma utf8_inject: "code_points s \<Longrightarrow> code_points t \<Longrightarrow> utf8 s = utf8 t \<Longrightarrow> s = t"
  by (metis read_utf8_utf8 option.inject)

lemma utf8_length: "length (utf8 s) = utf8_len s"
  by (induction s) (auto simp: utf8_def utf8_char_def utf8_len_def utf8_size_def)

section \<open>Integers as bytes\<close>

definition to_bytes4 :: "nat \<Rightarrow> bytes res" where
  \<comment> \<open>\<^verbatim>\<open>n.to_bytes(4, "big")\<close>\<close>
  "to_bytes4 n =
    (if 4294967296 \<le> n then Inl (OtherErr ''OverflowError'')
     else Inr (map of_nat [n div 16777216, n div 65536 mod 256, n div 256 mod 256, n mod 256]))"

definition from_bytes :: "bytes \<Rightarrow> nat" where
  \<comment> \<open>\<^verbatim>\<open>int.from_bytes(b, "big")\<close>\<close>
  "from_bytes bs = foldl (\<lambda>n b. 256 * n + unat b) 0 bs"

lemma to_bytes4_length: "to_bytes4 n = Inr b \<Longrightarrow> length b = 4"
  by (auto simp: to_bytes4_def split: if_splits)

lemma from_to_bytes4:
  assumes "to_bytes4 n = Inr b"
  shows "from_bytes b = n"
proof -
  have n: "n < 4294967296" "b = map of_nat [n div 16777216, n div 65536 mod 256, n div 256 mod 256, n mod 256]"
    using assms by (auto simp: to_bytes4_def split: if_splits)
  have step: "256 * (x div 256) + x mod 256 = x" for x :: nat
    by simp
  have d: "n div 65536 = n div 256 div 256" "n div 16777216 = n div 256 div 256 div 256"
    by (simp_all add: div_mult2_eq [symmetric])
  have "n div 16777216 < 256"
    using n(1) by linarith
  then have "from_bytes b = 256 * (256 * (256 * (n div 16777216) + n div 65536 mod 256) + n div 256 mod 256) + n mod 256"
    by (simp add: n(2) from_bytes_def unat_of_nat)
  then show ?thesis
    unfolding d step by (simp only: step)
qed

section \<open>Bytes that hold JSON\<close>

fun read_units :: "bool \<Rightarrow> nat list \<Rightarrow> nat list option" where
  \<comment> \<open>16-bit units, most significant byte first or last\<close>
  "read_units big [] = Some []"
| "read_units big (a # b # r) = map_option (Cons (if big then 256 * a + b else a + 256 * b)) (read_units big r)"
| "read_units big [a] = None"

fun join_units :: "nat list \<Rightarrow> ustr" where
  \<comment> \<open>a pair of surrogates is one code point, a single one is itself\<close>
  "join_units (x # y # r) =
    (if 55296 \<le> x \<and> x < 56320 \<and> 56320 \<le> y \<and> y < 57344
     then (65536 + 1024 * (x - 55296) + (y - 56320)) # join_units r else x # join_units (y # r))"
| "join_units xs = xs"

definition read_utf16 :: "bool \<Rightarrow> nat list \<Rightarrow> ustr option" where
  "read_utf16 big bs = map_option join_units (read_units big bs)"

fun read_utf32 :: "bool \<Rightarrow> nat list \<Rightarrow> ustr option" where
  "read_utf32 big [] = Some []"
| "read_utf32 big (a # b # c # d # r) =
    (let x = (if big then 16777216 * a + 65536 * b + 256 * c + d else a + 256 * b + 65536 * c + 16777216 * d)
     in if x < 1114112 then map_option (Cons x) (read_utf32 big r) else None)"
| "read_utf32 big xs = None"

definition json_text :: "nat list \<Rightarrow> ustr option" where
  \<comment> \<open>\<^verbatim>\<open>b.decode(json.detect_encoding(b), "surrogatepass")\<close>, \<open>None\<close> for a UnicodeDecodeError\<close>
  "json_text b =
    (if take 4 b = [0, 0, 254, 255] then read_utf32 True (drop 4 b)
     else if take 4 b = [255, 254, 0, 0] then read_utf32 False (drop 4 b)
     else if take 2 b = [254, 255] then read_utf16 True (drop 2 b)
     else if take 2 b = [255, 254] then read_utf16 False (drop 2 b)
     else if take 3 b = [239, 187, 191] then read_utf8 (drop 3 b)
     else
       (case b of
          x # y # z # w # r \<Rightarrow>
            if x = 0 then (if y \<noteq> 0 then read_utf16 True b else read_utf32 True b)
            else if y = 0 then (if z \<noteq> 0 \<or> w \<noteq> 0 then read_utf16 False b else read_utf32 False b)
            else read_utf8 b
        | [x, y] \<Rightarrow>
            if x = 0 then read_utf16 True b else if y = 0 then read_utf16 False b else read_utf8 b
        | _ \<Rightarrow> read_utf8 b))"

lemma json_text_ascii:
  \<comment> \<open>a text that starts with two ASCII characters other than NUL is taken for UTF-8\<close>
  "0 < x \<Longrightarrow> x < 128 \<Longrightarrow> 0 < y \<Longrightarrow> json_text (x # y # r) = read_utf8 (x # y # r)"
  by (auto simp: json_text_def simp del: read_utf8.simps split: list.split)

end
