(* ===== verification/Service_Contracts.thy ===== *)
theory Service_Contracts
  imports Utf8
begin

text \<open>
  \<^verbatim>\<open>contracts.py\<close> and \<^verbatim>\<open>identity.py\<close> of the service: its error codes, states and requests with the checks of
  their constructors, and the projection of external identities. The projection writes its fields with
  their lengths, so that two projected identities only agree for the same fields or for a collision of
  the message authentication code.
\<close>

section \<open>Errors\<close>

datatype service_code =
    SE_INVALID_REQUEST | SE_UNAUTHENTICATED | SE_FORBIDDEN | SE_NOT_FOUND | SE_CONFLICT
  | SE_PAYLOAD_TOO_LARGE | SE_UNAVAILABLE | SE_TIMEOUT | SE_INTERNAL

fun service_code_name :: "service_code \<Rightarrow> string" where
  "service_code_name SE_INVALID_REQUEST = ''invalid_request''"
| "service_code_name SE_UNAUTHENTICATED = ''unauthenticated''"
| "service_code_name SE_FORBIDDEN = ''forbidden''"
| "service_code_name SE_NOT_FOUND = ''not_found''"
| "service_code_name SE_CONFLICT = ''conflict''"
| "service_code_name SE_PAYLOAD_TOO_LARGE = ''payload_too_large''"
| "service_code_name SE_UNAVAILABLE = ''unavailable''"
| "service_code_name SE_TIMEOUT = ''timeout''"
| "service_code_name SE_INTERNAL = ''internal''"

datatype serr = Service_err service_code ustr | Raises exn
  \<comment> \<open>a \<^verbatim>\<open>ServiceError\<close> with its message, or another exception\<close>

type_synonym 'a sres = "serr + 'a"

definition service_error :: "service_code \<Rightarrow> serr" where
  \<comment> \<open>\<^verbatim>\<open>ServiceError(code)\<close>\<close>
  "service_error c = Service_err c (u (service_code_name c))"

definition raises :: "'a res \<Rightarrow> 'a sres" where
  "raises r = (case r of Inl e \<Rightarrow> Inl (Raises e) | Inr a \<Rightarrow> Inr a)"

lemma raises_Inr [simp]: "raises r = Inr a \<longleftrightarrow> r = Inr a"
  by (cases r) (simp_all add: raises_def)

section \<open>States\<close>

datatype command_state = CS_ACCEPTED | CS_CONTEXT_CALL_INTENT | CS_CONTEXT_READY | CS_APPLIED | CS_REJECTED | CS_CANCELLED
datatype command_kind = CK_START | CK_CONTINUE | CK_CANCEL
datatype output_state = OS_PENDING | OS_PRESENT | OS_ABSENT | OS_UNKNOWN
datatype run_state =
    RUN_CREATED | RUN_ADMISSION_PENDING | RUN_QUEUED | RUN_RUNNING | RUN_WAITING | RUN_CANCEL_REQUESTED
  | RUN_COMPLETED | RUN_FAILED | RUN_CANCELLED
datatype command_outcome = CO_PENDING | CO_COMPLETED | CO_FAILED | CO_CANCELLED | CO_PROTOCOL_ERROR

definition command_states :: "(string \<times> command_state) list" where
  "command_states = [(''accepted'', CS_ACCEPTED), (''context_call_intent'', CS_CONTEXT_CALL_INTENT),
     (''context_ready'', CS_CONTEXT_READY), (''applied'', CS_APPLIED), (''rejected'', CS_REJECTED),
     (''cancelled'', CS_CANCELLED)]"

definition command_kinds :: "(string \<times> command_kind) list" where
  "command_kinds = [(''start'', CK_START), (''continue'', CK_CONTINUE), (''cancel'', CK_CANCEL)]"

definition output_states :: "(string \<times> output_state) list" where
  "output_states = [(''pending'', OS_PENDING), (''present'', OS_PRESENT), (''absent'', OS_ABSENT), (''unknown'', OS_UNKNOWN)]"

definition run_states :: "(string \<times> run_state) list" where
  "run_states = [(''created'', RUN_CREATED), (''admission_pending'', RUN_ADMISSION_PENDING), (''queued'', RUN_QUEUED),
     (''running'', RUN_RUNNING), (''waiting'', RUN_WAITING), (''cancel_requested'', RUN_CANCEL_REQUESTED),
     (''completed'', RUN_COMPLETED), (''failed'', RUN_FAILED), (''cancelled'', RUN_CANCELLED)]"

definition enum_of :: "(string \<times> 'a) list \<Rightarrow> ustr \<Rightarrow> 'a sres" where
  \<comment> \<open>the member of an enumeration with a value; a ValueError where there is none\<close>
  "enum_of members s =
    (case map_of (map (\<lambda>(v, m). (u v, m)) members) s of
       Some m \<Rightarrow> Inr m | None \<Rightarrow> Inl (Raises (ValueErr ''not a valid member'')))"

section \<open>Requests\<close>

definition MESSAGE_MAX_BYTES :: nat where "MESSAGE_MAX_BYTES = 262144"
definition FRAME_MAX_BYTES :: nat where "FRAME_MAX_BYTES = 1048576"

definition service_text :: "ustr \<Rightarrow> nat \<Rightarrow> unit sres" where
  \<comment> \<open>\<^verbatim>\<open>_text\<close> for a string\<close>
  "service_text s max_bytes =
    (if blank s \<or> 0 \<in> set s then Inl (Raises (ValueErr ''is required''))
     else if \<not> encodable s then Inl (Raises UnicodeErr)
     else if max_bytes < utf8_len s then Inl (Raises (ValueErr ''is too large'')) else Inr ())"

fun texts_checked :: "ustr list \<Rightarrow> unit sres" where
  "texts_checked [] = Inr ()"
| "texts_checked (s # ss) = andthen (service_text s 512) (\<lambda>_. texts_checked ss)"

record start_run =
  sr_session :: ustr
  sr_run :: ustr
  sr_command :: ustr
  sr_message :: ustr
  sr_profile :: ustr

definition start_run_init :: "start_run \<Rightarrow> unit sres" where
  "start_run_init r =
    andthen (texts_checked [sr_session r, sr_run r, sr_command r]) (\<lambda>_.
    andthen (service_text (sr_message r) MESSAGE_MAX_BYTES) (\<lambda>_. service_text (sr_profile r) 512))"

record continue_request =
  cr_session :: ustr
  cr_run :: ustr
  cr_command :: ustr
  cr_continuation :: ustr
  cr_message :: ustr

definition continue_request_init :: "continue_request \<Rightarrow> unit sres" where
  "continue_request_init r =
    andthen (texts_checked [cr_session r, cr_run r, cr_command r, cr_continuation r]) (\<lambda>_.
      service_text (cr_message r) MESSAGE_MAX_BYTES)"

definition get_request_init :: "ustr \<Rightarrow> unit sres" where
  "get_request_init command = service_text command 512"

record cancel_request =
  nr_run :: ustr
  nr_command :: ustr

definition cancel_request_init :: "cancel_request \<Rightarrow> unit sres" where
  "cancel_request_init r = texts_checked [nr_run r, nr_command r]"

record command_receipt =
  rc_command :: ustr
  rc_run :: ustr
  rc_accept_seq :: int
  rc_state :: command_state
  rc_version :: int
  rc_kind :: command_kind

record command_snapshot =
  sp_receipt :: command_receipt
  sp_output_state :: output_state
  sp_output_text :: "ustr option"
  sp_error_code :: "ustr option"
  sp_run_state :: "run_state option"
  sp_outcome :: command_outcome

definition snapshot_init :: "command_snapshot \<Rightarrow> command_snapshot sres" where
  "snapshot_init s =
    (if sp_output_state s = OS_PRESENT \<and> sp_output_text s = None
     then Inl (Raises (ValueErr ''present output requires text''))
     else if sp_output_state s \<noteq> OS_PRESENT \<and> sp_output_text s \<noteq> None
     then Inl (Raises (ValueErr ''only present output may contain text''))
     else Inr s)"

section \<open>Projected identities\<close>

definition id_bytes :: "ustr \<Rightarrow> bytes sres" where
  \<comment> \<open>\<^verbatim>\<open>_field\<close>: the length in four bytes, then the text\<close>
  "id_bytes s =
    andthen (raises (str_bytes s)) (\<lambda>b. andthen (raises (to_bytes4 (length b))) (\<lambda>n. Inr (n @ b)))"

record principal =
  pr_deployment :: ustr
  pr_household :: ustr
  pr_actor :: ustr

definition principal_fields :: "principal \<Rightarrow> ustr list" where
  "principal_fields p = [pr_deployment p, pr_household p, pr_actor p]"

definition principal_init :: "principal \<Rightarrow> unit sres" where
  "principal_init p =
    (if list_ex (\<lambda>s. blank s \<or> 0 \<in> set s) (principal_fields p)
     then Inl (Raises (ValueErr ''principal fields must be non-empty'')) else Inr ())"

definition principal_canonical :: "principal \<Rightarrow> bytes sres" where
  "principal_canonical p = andthen (each id_bytes (principal_fields p)) (\<lambda>bs. Inr (concat bs))"

record projector =
  pj_key :: bytes
  pj_namespace :: ustr
  pj_key_id :: ustr

definition ascii_bytes :: "string \<Rightarrow> bytes" where
  "ascii_bytes s = map of_char s @ [0]"

definition projector_init :: "(bytes \<Rightarrow> ustr) \<Rightarrow> bytes \<Rightarrow> ustr \<Rightarrow> projector sres" where
  \<comment> \<open>the first argument is SHA-256 with its result in hexadecimal\<close>
  "projector_init sha key namespace =
    (if length key < 32 then Inl (Raises (ValueErr ''projection key must contain at least 256 bits''))
     else if blank namespace then Inl (Raises (ValueErr ''namespace is required''))
     else Inr \<lparr>pj_key = key, pj_namespace = namespace,
            pj_key_id = take 32 (sha (ascii_bytes ''svc-projection-key-id-v1'' @ key))\<rparr>)"

definition project_payload :: "ustr \<Rightarrow> ustr \<Rightarrow> principal \<Rightarrow> ustr \<Rightarrow> bytes sres" where
  "project_payload namespace kind p external_id =
    andthen (id_bytes namespace) (\<lambda>n.
    andthen (id_bytes kind) (\<lambda>k.
    andthen (principal_canonical p) (\<lambda>c.
    andthen (id_bytes external_id) (\<lambda>e.
      Inr (ascii_bytes ''simple-harness-service-id-v1'' @ n @ k @ c @ e)))))"

definition project :: "(bytes \<Rightarrow> bytes \<Rightarrow> ustr) \<Rightarrow> projector \<Rightarrow> ustr \<Rightarrow> principal \<Rightarrow> ustr \<Rightarrow> ustr sres" where
  \<comment> \<open>the first argument is HMAC-SHA-256 of a key and a message, in hexadecimal\<close>
  "project hmac pj kind p external_id =
    (if kind = [] \<or> external_id = [] then Inl (Raises (ValueErr ''projection kind and external ID are required''))
     else andthen (project_payload (pj_namespace pj) kind p external_id) (\<lambda>payload.
            Inr (u ''svc_'' @ kind @ u ''_'' @ hmac (pj_key pj) payload)))"

section \<open>The projection is injective\<close>

lemma id_bytes_Inr:
  assumes "id_bytes s = Inr b"
  shows "\<exists>n. b = n @ utf8 s \<and> length n = 4 \<and> from_bytes n = length (utf8 s) \<and> encodable s"
  using assms to_bytes4_length from_to_bytes4
  by (auto simp: id_bytes_def result_simps str_bytes_def split: if_splits)

lemma id_bytes_prefix:
  assumes "id_bytes s = Inr b" "id_bytes t = Inr c" "code_points s" "code_points t" "b @ r = c @ q"
  shows "s = t \<and> r = q"
proof -
  obtain n m where n: "b = n @ utf8 s" "length n = 4" "from_bytes n = length (utf8 s)"
      and m: "c = m @ utf8 t" "length m = 4" "from_bytes m = length (utf8 t)"
    using id_bytes_Inr [OF assms(1)] id_bytes_Inr [OF assms(2)] by blast
  have "n = m" "utf8 s @ r = utf8 t @ q"
    using assms(5) n(1,2) m(1,2) by (simp_all add: append_eq_append_conv)
  then show ?thesis
    using n(3) m(3) utf8_inject [OF assms(3,4)] by (simp add: append_eq_append_conv)
qed

definition principal_points :: "principal \<Rightarrow> bool" where
  "principal_points p \<longleftrightarrow> list_all code_points (principal_fields p)"

lemma canonical_prefix:
  assumes "principal_canonical p = Inr b" "principal_canonical q = Inr c" "principal_points p" "principal_points q"
    and "b @ r = c @ s"
  shows "p = q \<and> r = s"
proof -
  obtain a1 a2 a3 where a: "id_bytes (pr_deployment p) = Inr a1" "id_bytes (pr_household p) = Inr a2"
      "id_bytes (pr_actor p) = Inr a3" "b = a1 @ a2 @ a3"
    using assms(1) by (auto simp: principal_canonical_def principal_fields_def result_simps)
  obtain b1 b2 b3 where b: "id_bytes (pr_deployment q) = Inr b1" "id_bytes (pr_household q) = Inr b2"
      "id_bytes (pr_actor q) = Inr b3" "c = b1 @ b2 @ b3"
    using assms(2) by (auto simp: principal_canonical_def principal_fields_def result_simps)
  have pts: "code_points (pr_deployment p)" "code_points (pr_household p)" "code_points (pr_actor p)"
      "code_points (pr_deployment q)" "code_points (pr_household q)" "code_points (pr_actor q)"
    using assms(3,4) by (simp_all add: principal_points_def principal_fields_def)
  have 1: "pr_deployment p = pr_deployment q" "a2 @ a3 @ r = b2 @ b3 @ s"
    using id_bytes_prefix [OF a(1) b(1) pts(1,4)] assms(5) a(4) b(4) by simp_all
  have 2: "pr_household p = pr_household q" "a3 @ r = b3 @ s"
    using id_bytes_prefix [OF a(2) b(2) pts(2,5) 1(2)] by simp_all
  have 3: "pr_actor p = pr_actor q" "r = s"
    using id_bytes_prefix [OF a(3) b(3) pts(3,6) 2(2)] by simp_all
  show ?thesis
    using 1(1) 2(1) 3 by simp
qed

lemma payload_inject:
  assumes "project_payload n k p e = Inr b" "project_payload n' k' p' e' = Inr b"
    and "code_points n" "code_points k" "principal_points p" "code_points e"
    and "code_points n'" "code_points k'" "principal_points p'" "code_points e'"
  shows "n = n' \<and> k = k' \<and> p = p' \<and> e = e'"
proof -
  obtain a1 a2 a3 a4 where a: "id_bytes n = Inr a1" "id_bytes k = Inr a2" "principal_canonical p = Inr a3"
      "id_bytes e = Inr a4" "b = ascii_bytes ''simple-harness-service-id-v1'' @ a1 @ a2 @ a3 @ a4"
    using assms(1) by (auto simp: project_payload_def result_simps)
  obtain b1 b2 b3 b4 where b: "id_bytes n' = Inr b1" "id_bytes k' = Inr b2" "principal_canonical p' = Inr b3"
      "id_bytes e' = Inr b4" "b = ascii_bytes ''simple-harness-service-id-v1'' @ b1 @ b2 @ b3 @ b4"
    using assms(2) by (auto simp: project_payload_def result_simps)
  have all: "a1 @ a2 @ a3 @ a4 = b1 @ b2 @ b3 @ b4"
    using a(5) b(5) by simp
  have 1: "n = n'" "a2 @ a3 @ a4 = b2 @ b3 @ b4"
    using id_bytes_prefix [OF a(1) b(1) assms(3,7) all] by simp_all
  have 2: "k = k'" "a3 @ a4 = b3 @ b4"
    using id_bytes_prefix [OF a(2) b(2) assms(4,8) 1(2)] by simp_all
  have 3: "p = p'" "a4 = b4"
    using canonical_prefix [OF a(3) b(3) assms(5,9) 2(2)] by simp_all
  have "e = e'"
    using id_bytes_prefix [OF a(4) b(4) assms(6,10), of "[]" "[]"] 3(2) by simp
  then show ?thesis
    using 1(1) 2(1) 3(1) by simp
qed


text \<open>
  C27. Two identities that the projector publishes are only equal for the same kind, the same principal and
  the same external identity: no choice of the fields can make the two concatenated payloads coincide. The
  one way round it is that the payloads of these two identities differ and have the same message
  authentication code under the key of the projector.
\<close>

theorem projected_ids_distinct:
  assumes "project hmac pj k p e = Inr i" "project hmac pj k' p' e' = Inr i"
    and "\<And>key m. length (hmac key m) = 64"
    and "list_all code_points [pj_namespace pj, k, e, k', e']" "principal_points p" "principal_points p'"
  shows "k = k' \<and> p = p' \<and> e = e'
    \<or> (\<exists>m m'. project_payload (pj_namespace pj) k p e = Inr m \<and> project_payload (pj_namespace pj) k' p' e' = Inr m'
        \<and> m \<noteq> m' \<and> hmac (pj_key pj) m = hmac (pj_key pj) m')"
proof -
  obtain m where m: "project_payload (pj_namespace pj) k p e = Inr m" "i = u ''svc_'' @ k @ u ''_'' @ hmac (pj_key pj) m"
    using assms(1) by (auto simp: project_def result_simps split: if_splits)
  obtain m' where m': "project_payload (pj_namespace pj) k' p' e' = Inr m'" "i = u ''svc_'' @ k' @ u ''_'' @ hmac (pj_key pj) m'"
    using assms(2) by (auto simp: project_def result_simps split: if_splits)
  have "(k @ u ''_'') @ hmac (pj_key pj) m = (k' @ u ''_'') @ hmac (pj_key pj) m'"
    using m(2) m'(2) by simp
  then have same: "k = k'" "hmac (pj_key pj) m = hmac (pj_key pj) m'"
    using assms(3) by (simp_all add: append_eq_append_conv)
  show ?thesis
  proof (cases "m = m'")
    case True
    then show ?thesis
      using payload_inject [OF m(1), of "pj_namespace pj" k' p' e'] m'(1) assms(4-6) by simp
  next
    case False
    then show ?thesis
      using same(2) m(1) m'(1) by blast
  qed
qed

definition example_principal :: principal where
  "example_principal = \<lparr>pr_deployment = u ''d'', pr_household = u ''h'', pr_actor = u ''a''\<rparr>"

definition example_projector :: projector where
  "example_projector = \<lparr>pj_key = replicate 32 1, pj_namespace = u ''n'', pj_key_id = u ''k''\<rparr>"

definition example_mac :: "bytes \<Rightarrow> bytes \<Rightarrow> ustr" where
  \<comment> \<open>some function with results of 64 characters\<close>
  "example_mac key m = map (\<lambda>i. 48 + (unat (foldl (\<lambda>a b. 5 * a + b) (of_nat i) (key @ m)) mod 10)) [0..<64]"

theorem projected_ids_distinct_witness:
  "\<exists>i. project example_mac example_projector (u ''run'') example_principal (u ''r1'') = Inr i
     \<and> (\<forall>e. list_all code_points [e] \<and> project example_mac example_projector (u ''run'') example_principal e = Inr i
          \<longrightarrow> e = u ''r1'' \<or> (\<exists>m m'. project_payload (u ''n'') (u ''run'') example_principal (u ''r1'') = Inr m
              \<and> project_payload (u ''n'') (u ''run'') example_principal e = Inr m'
              \<and> m \<noteq> m' \<and> example_mac (pj_key example_projector) m = example_mac (pj_key example_projector) m'))"
proof -
  have "encodable (u ''n'')" "encodable (u ''run'')" "encodable (u ''r1'')" "encodable (u ''d'')" "encodable (u ''h'')" "encodable (u ''a'')"
    by code_simp+
  then have "\<exists>i. project example_mac example_projector (u ''run'') example_principal (u ''r1'') = Inr i"
    by (simp add: project_def project_payload_def id_bytes_def str_bytes_def raises_def to_bytes4_def utf8_length utf8_len_u
        principal_canonical_def principal_fields_def example_principal_def example_projector_def)
  then obtain i where i: "project example_mac example_projector (u ''run'') example_principal (u ''r1'') = Inr i"
    by blast
  have "list_all code_points [pj_namespace example_projector, u ''run'', u ''r1'']" "principal_points example_principal"
    by code_simp+
  moreover have namespace: "pj_namespace example_projector = u ''n''"
    by (simp add: example_projector_def)
  moreover have "length (example_mac key m) = 64" for key m
    by (simp add: example_mac_def)
  ultimately show ?thesis
    using i projected_ids_distinct [OF i, of "u ''run''" example_principal] namespace
    by (intro exI [of _ i]) auto
qed

end
