(* ===== verification/Frames.thy ===== *)
theory Frames
  imports Service_Contracts Tool_Schema
begin

text \<open>
  \<^verbatim>\<open>codec.py\<close>: JSON objects in frames of a length and a payload, and the decoder that is fed with bytes as
  they arrive. However the stream is cut into chunks, the decoder yields the objects that were encoded.
\<close>

section \<open>Payloads\<close>

definition frame_style :: json_style where
  \<comment> \<open>\<^verbatim>\<open>sort_keys=True, separators=(",", ":"), ensure_ascii=False\<close>\<close>
  "frame_style = \<lparr>js_ascii = False, js_nan = True, js_sort = True, js_item_sep = u '','', js_key_sep = u '':''\<rparr>"

definition canonical_payload :: "json_env \<Rightarrow> dict \<Rightarrow> bytes sres" where
  "canonical_payload env v =
    (case andthen (dumps env frame_style (VDict v)) str_bytes of
       Inr b \<Rightarrow> Inr b
     | Inl e \<Rightarrow> Inl (if e = TypeErr \<or> is_value_error e then service_error SE_INVALID_REQUEST else Raises e))"

definition encode_frame :: "json_env \<Rightarrow> dict \<Rightarrow> bytes sres" where
  "encode_frame env v =
    andthen (canonical_payload env v) (\<lambda>payload.
      if FRAME_MAX_BYTES < length payload then Inl (service_error SE_PAYLOAD_TOO_LARGE)
      else andthen (raises (to_bytes4 (length payload))) (\<lambda>n. Inr (n @ payload)))"

definition json_decode_error :: "exn \<Rightarrow> bool" where
  \<comment> \<open>a \<^verbatim>\<open>JSONDecodeError\<close>: the conversion of too many digits raises a plain ValueError\<close>
  "json_decode_error e = (case e of ValueErr m \<Rightarrow> m \<noteq> ''integer string conversion'' | _ \<Rightarrow> False)"

definition decode_payload :: "json_env \<Rightarrow> bytes \<Rightarrow> dict sres" where
  "decode_payload env payload =
    (if FRAME_MAX_BYTES < length payload then Inl (service_error SE_PAYLOAD_TOO_LARGE)
     else
       (case json_text (map unat payload) of
          None \<Rightarrow> Inl (service_error SE_INVALID_REQUEST)
        | Some t \<Rightarrow>
            (case loads env default_hooks t of
               Inl e \<Rightarrow> Inl (if json_decode_error e then service_error SE_INVALID_REQUEST else Raises e)
             | Inr (VDict d) \<Rightarrow> Inr d
             | Inr _ \<Rightarrow> Inl (service_error SE_INVALID_REQUEST))))"

section \<open>Streams\<close>

function feed_loop :: "json_env \<Rightarrow> bytes \<Rightarrow> dict list sres \<times> bytes" where
  \<comment> \<open>the \<^verbatim>\<open>while\<close> loop of \<^verbatim>\<open>feed\<close>: the frames, or the exception, and the buffer afterwards\<close>
  "feed_loop env buf =
    (if length buf < 4 then (Inr [], buf)
     else
       (let n = from_bytes (take 4 buf)
        in if FRAME_MAX_BYTES < n then (Inl (service_error SE_PAYLOAD_TOO_LARGE), buf)
           else if length buf < 4 + n then (Inr [], buf)
           else
             (case decode_payload env (take n (drop 4 buf)) of
                Inl e \<Rightarrow> (Inl e, drop (4 + n) buf)
              | Inr v \<Rightarrow>
                  (case feed_loop env (drop (4 + n) buf) of
                     (Inr ds, rest) \<Rightarrow> (Inr (v # ds), rest)
                   | (Inl e, rest) \<Rightarrow> (Inl e, rest)))))"
  by pat_completeness auto

termination
  by (relation "measure (\<lambda>(env, buf). length buf)") auto

declare feed_loop.simps [simp del]

definition feed_chunk :: "json_env \<Rightarrow> bytes \<Rightarrow> bytes \<Rightarrow> dict list sres \<times> bytes" where
  "feed_chunk env data buf = feed_loop env (buf @ data)"

definition read_exactly :: "nat \<Rightarrow> bytes \<Rightarrow> (bytes \<times> bytes) sres" where
  \<comment> \<open>\<^verbatim>\<open>StreamReader.readexactly\<close> on what is left of a stream that has ended\<close>
  "read_exactly n s =
    (if length s < n then Inl (Raises (OtherErr ''IncompleteReadError'')) else Inr (take n s, drop n s))"

definition read_frame :: "json_env \<Rightarrow> bytes \<Rightarrow> (dict \<times> bytes) sres" where
  "read_frame env s =
    andthen (read_exactly 4 s) (\<lambda>(header, s1).
      if FRAME_MAX_BYTES < from_bytes header then Inl (service_error SE_PAYLOAD_TOO_LARGE)
      else andthen (read_exactly (from_bytes header) s1) (\<lambda>(payload, s2).
             andthen (decode_payload env payload) (\<lambda>v. Inr (v, s2))))"

section \<open>One frame\<close>

lemma valid_append [simp]: "code_points (s @ t) \<longleftrightarrow> code_points s \<and> code_points t" "code_points []"
  "code_points (c # s) \<longleftrightarrow> c < 1114112 \<and> code_points s"
  by (simp_all add: code_points_def)

lemma valid_quote: "text_ok True s \<Longrightarrow> code_points (quote False s)"
proof -
  have "hex_digit n < 1114112" if "n < 16" for n
    using that unfolding hex_digit_def by (auto split: if_split)
  then have "code_points (escape_char False c)" if "c < 1114112" for c
    using that by (simp add: escape_char_def uescape_def hex4_def)
  then have "text_ok True s \<Longrightarrow> code_points (concat (map (escape_char False) s))"
    by (induction s) (simp_all add: text_ok_def)
  then show "text_ok True s \<Longrightarrow> code_points (quote False s)"
    by (simp add: quote_def)
qed

lemma frame_parts [simp]:
  "js_ascii frame_style = False" "js_sort frame_style = True" "js_item_sep frame_style = [44]" "js_key_sep frame_style = [58]"
  by (simp_all add: frame_style_def u_def)

lemma frame_style_ok: "style_ok frame_style"
  by (simp add: style_ok_def)

lemma nat_text_points: "\<forall>c\<in>set (nat_text k). 48 \<le> c \<and> c \<le> 57"
  using nat_text_digits [of k] by (auto simp: list_all_iff is_digit_def)

lemma list_all_join: "list_all P sep \<Longrightarrow> (\<And>t. t \<in> set ts \<Longrightarrow> list_all P t) \<Longrightarrow> list_all P (join sep ts)"
  by (induction sep ts rule: join.induct) auto

lemma literal_chars:
  assumes "\<And>c. 32 \<le> c \<Longrightarrow> c < 127 \<Longrightarrow> P (c :: nat)" "set s \<subseteq> set ''abcdefghijklmnopqrstuvwxyzNIy-,: {}[]''"
  shows "list_all P (u s)"
proof -
  have "\<forall>c \<in> set ''abcdefghijklmnopqrstuvwxyzNIy-,: {}[]''. 32 \<le> (of_char c :: nat) \<and> of_char c < (127 :: nat)"
    by simp
  then show ?thesis
    using assms by (auto simp: u_def list_all_iff)
qed

lemma text_chars:
  assumes P: "\<And>c. 32 \<le> c \<Longrightarrow> c < 127 \<Longrightarrow> P (c :: nat)"
  shows "text_of env st n v = Inr t \<Longrightarrow> style_ok st \<Longrightarrow>
      (\<And>s. text_ok True s \<Longrightarrow> list_all P (quote (js_ascii st) s)) \<Longrightarrow> writable True v \<Longrightarrow> list_all P t"
    "texts_of env st n xs = Inr ts \<Longrightarrow> style_ok st \<Longrightarrow>
      (\<And>s. text_ok True s \<Longrightarrow> list_all P (quote (js_ascii st) s)) \<Longrightarrow> (\<forall>x\<in>set xs. writable True x)
      \<Longrightarrow> (\<forall>t\<in>set ts. list_all P t)"
    "item_texts env st n d = Inr its \<Longrightarrow> style_ok st \<Longrightarrow>
      (\<And>s. text_ok True s \<Longrightarrow> list_all P (quote (js_ascii st) s)) \<Longrightarrow>
      (\<forall>kv\<in>set d. text_ok True (fst kv) \<and> writable True (snd kv))
      \<Longrightarrow> (\<forall>kt\<in>set its. text_ok True (fst kt) \<and> list_all P (snd kt))"
proof (induction env st n v and env st n xs and env st n d
    arbitrary: t and ts and its rule: text_of_texts_of_item_texts.induct)
  case (3 env st n i)
  have "list_all P (nat_text k)" for k
    using nat_text_points [of k] P by (force simp: list_all_iff)
  then show ?case
    using 3 P by (auto simp: int_text_def Let_def split: if_splits)
next
  case (6 env st n xs)
  then obtain ts where ts: "texts_of env st (n - 1) xs = Inr ts" "n \<noteq> 0" "t = [91] @ join (js_item_sep st) ts @ [93]"
    by (auto simp: result_simps split: if_splits)
  moreover have "list_all P (js_item_sep st)"
    using 6(3) P by (auto simp: style_ok_def)
  ultimately show ?case
    using 6 P by (auto intro!: list_all_join)
next
  case (8 env st n d)
  then obtain its where its: "item_texts env st (n - 1) d = Inr its" "n \<noteq> 0"
      "t = [123] @ join (js_item_sep st) (map (\<lambda>kt. quote (js_ascii st) (fst kt) @ js_key_sep st @ snd kt)
             (if js_sort st then sort_key fst its else its)) @ [125]"
    by (auto simp: result_simps split: if_splits)
  have seps: "list_all P (js_item_sep st)" "list_all P (js_key_sep st)"
    using 8(3) P by (auto simp: style_ok_def)
  have "\<forall>kt\<in>set its. text_ok True (fst kt) \<and> list_all P (snd kt)"
    using 8(1) [OF its(2,1) 8(3,4)] 8(5) by auto
  then show ?case
    unfolding its(3) using seps P 8(4) by (fastforce intro!: list_all_join)
next
  case (12 env st n kv d)
  then show ?case
    by (fastforce simp: result_simps)
qed (use P in \<open>auto simp: result_simps intro!: literal_chars\<close>)

subsection \<open>How long a text gets\<close>

fun text_bound :: "pyval \<Rightarrow> nat" where
  \<comment> \<open>a bound on the bytes of the text of a value without floats\<close>
  "text_bound (VInt i) = length (nat_text (nat \<bar>i\<bar>)) + 1"
| "text_bound (VStr s) = 12 * length s + 2"
| "text_bound (VList xs) = 2 + sum_list (map (\<lambda>x. text_bound x + 2) xs)"
| "text_bound (VTuple xs) = 2 + sum_list (map (\<lambda>x. text_bound x + 2) xs)"
| "text_bound (VDict d) = 2 + sum_list (map (\<lambda>kv. 12 * length (fst kv) + 4 + text_bound (snd kv) + 2) d)"
| "text_bound _ = 5"

lemma utf8_len_ascii: "list_all (\<lambda>c. c < 128) s \<Longrightarrow> utf8_len s = length s"
  by (induction s) (simp_all add: utf8_len_def utf8_size_def)

lemma uescape_len: "utf8_len (uescape c) = 6"
proof -
  have "hex_digit n < 128" if "n < 16" for n
    using that unfolding hex_digit_def by (auto split: if_split)
  then have "list_all (\<lambda>x. x < 128) (uescape c)"
    by (simp add: uescape_def hex4_def)
  then show ?thesis
    by (simp add: utf8_len_ascii) (simp add: uescape_def hex4_def)
qed

lemma utf8_len_char: "utf8_len [c] \<le> 4" "utf8_len [92, c] \<le> 5"
  by (simp_all add: utf8_len_def utf8_size_def)

lemma escape_bound: "utf8_len (escape_char a c) \<le> 12"
  using utf8_len_char [of c] unfolding escape_char_def
  by (auto simp: uescape_len intro: order_trans [OF utf8_len_char(1)] order_trans [OF utf8_len_char(2)])

lemma quote_bound: "utf8_len (quote a s) \<le> 12 * length s + 2"
proof -
  have "utf8_len (concat (map (escape_char a) s)) \<le> 12 * length s"
  proof (induction s)
    case (Cons c s)
    then show ?case
      using escape_bound [of a c] by simp
  qed simp
  moreover have "utf8_len [34] = 1"
    by (simp add: utf8_len_def utf8_size_def)
  ultimately show ?thesis
    by (simp add: quote_def del: append_Cons)
qed

lemma join_bound: "utf8_len sep \<le> 2 \<Longrightarrow> utf8_len (join sep ts) \<le> sum_list (map (\<lambda>t. utf8_len t + 2) ts)"
  by (induction sep ts rule: join.induct) auto

lemma sum_list_sort: "sum_list (map f (sort_key g xs)) = (sum_list (map f xs) :: nat)"
proof -
  have "sum_list (map f (insort_key g x ys)) = f x + (sum_list (map f ys) :: nat)" for x ys
    by (induction ys) simp_all
  then show ?thesis
    by (induction xs) simp_all
qed

lemma text_of_bound:
  "text_of env st n v = Inr t \<Longrightarrow> style_ok st \<Longrightarrow> writable True v \<Longrightarrow> utf8_len t \<le> text_bound v"
  "texts_of env st n xs = Inr ts \<Longrightarrow> style_ok st \<Longrightarrow> (\<forall>x\<in>set xs. writable True x) \<Longrightarrow>
    sum_list (map (\<lambda>t. utf8_len t + 2) ts) \<le> sum_list (map (\<lambda>x. text_bound x + 2) xs)"
  "item_texts env st n d = Inr its \<Longrightarrow> style_ok st \<Longrightarrow> (\<forall>kv\<in>set d. writable True (snd kv)) \<Longrightarrow>
    sum_list (map (\<lambda>kt. 12 * length (fst kt) + 4 + utf8_len (snd kt) + 2) its)
    \<le> sum_list (map (\<lambda>kv. 12 * length (fst kv) + 4 + text_bound (snd kv) + 2) d)"
proof (induction env st n v and env st n xs and env st n d
    arbitrary: t and ts and its rule: text_of_texts_of_item_texts.induct)
  case (3 env st n i)
  have "utf8_len (nat_text k) = length (nat_text k)" for k
    using nat_text_points [of k] by (intro utf8_len_ascii) (fastforce simp: list_all_iff)
  then show ?case
    using 3 by (auto simp: int_text_def Let_def utf8_len_def utf8_size_def split: if_splits)
next
  case (6 env st n xs)
  then obtain ts where ts: "texts_of env st (n - 1) xs = Inr ts" "n \<noteq> 0" "t = [91] @ join (js_item_sep st) ts @ [93]"
    by (auto simp: result_simps split: if_splits)
  have "utf8_len (js_item_sep st) \<le> 2"
    using 6(3) by (auto simp: style_ok_def utf8_len_def utf8_size_def)
  then show ?case
    using join_bound [of "js_item_sep st" ts] 6(1) [OF ts(2,1) 6(3)] 6(4) ts(3)
    by (simp add: utf8_len_def utf8_size_def)
next
  case (8 env st n d)
  then obtain its where its: "item_texts env st (n - 1) d = Inr its" "n \<noteq> 0"
      "t = [123] @ join (js_item_sep st) (map (\<lambda>kt. quote (js_ascii st) (fst kt) @ js_key_sep st @ snd kt)
             (if js_sort st then sort_key fst its else its)) @ [125]"
    by (auto simp: result_simps split: if_splits)
  let ?f = "\<lambda>kt. utf8_len (quote (js_ascii st) (fst kt) @ js_key_sep st @ snd kt) + 2"
  let ?g = "\<lambda>kt. 12 * length (fst kt) + 4 + utf8_len (snd kt) + 2"
  have seps: "utf8_len (js_item_sep st) \<le> 2" "utf8_len (js_key_sep st) \<le> 2"
    using 8(3) by (auto simp: style_ok_def utf8_len_def utf8_size_def)
  have "?f kt \<le> ?g kt" for kt
    using quote_bound [of "js_ascii st" "fst kt"] seps(2) by simp
  then have "sum_list (map ?f its) \<le> sum_list (map ?g its)"
    by (intro sum_list_mono)
  moreover have "sum_list (map ?g its) \<le> sum_list (map (\<lambda>kv. 12 * length (fst kv) + 4 + text_bound (snd kv) + 2) d)"
    using 8(1) [OF its(2,1) 8(3)] 8(4) by simp
  moreover have "utf8_len t \<le> 2 + sum_list (map ?f its)"
    using join_bound [OF seps(1)] unfolding its(3)
    by (fastforce simp: utf8_len_def utf8_size_def sum_list_sort comp_def intro: order_trans)
  ultimately show ?case
    by simp
next
  case (10 env st n x xs)
  then obtain t ts' where t: "text_of env st n x = Inr t" "texts_of env st n xs = Inr ts'" "ts = t # ts'"
    by (auto simp: result_simps)
  then show ?case
    using 10(1) [OF t(1)] 10(2) [OF t(1,2)] 10(4,5) by simp
next
  case (5 env st n s)
  then show ?case
    using quote_bound [of "js_ascii st" s] by auto
next
  case (12 env st n kv d)
  then show ?case
    by (fastforce simp: result_simps)
qed (auto simp: result_simps utf8_len_u split: if_splits)

fun plain :: "nat \<Rightarrow> pyval \<Rightarrow> bool" where
  \<comment> \<open>a value that can be written at a nesting limit\<close>
  "plain n (VInt i) = (length (nat_text (nat \<bar>i\<bar>)) \<le> DIGIT_LIMIT)"
| "plain n (VFloat f) = False"
| "plain n (VList xs) = (n \<noteq> 0 \<and> (\<forall>x\<in>set xs. plain (n - 1) x))"
| "plain n (VTuple xs) = (n \<noteq> 0 \<and> (\<forall>x\<in>set xs. plain (n - 1) x))"
| "plain n (VDict d) = (n \<noteq> 0 \<and> (\<forall>kv\<in>set d. plain (n - 1) (snd kv)))"
| "plain n _ = True"

lemma text_of_plain:
  "plain n v \<Longrightarrow> \<exists>t. text_of env st n v = Inr t"
  "(\<forall>x\<in>set xs. plain n x) \<Longrightarrow> \<exists>ts. texts_of env st n xs = Inr ts"
  "(\<forall>kv\<in>set d. plain n (snd kv)) \<Longrightarrow> \<exists>its. item_texts env st n d = Inr its"
proof (induction env st n v and env st n xs and env st n d rule: text_of_texts_of_item_texts.induct)
  case (3 env st n i)
  then show ?case
    by (simp add: int_text_def Let_def)
qed (fastforce simp: result_simps)+

lemma writable_ascii: "writable True v \<Longrightarrow> writable (js_ascii frame_style) v"
  by (induction v) (auto simp: text_ok_def)

lemma object_text:
  assumes "dumps env frame_style (VDict v) = Inr t" "writable True (VDict v)"
  shows "code_points t \<and> (\<exists>y r. t = 123 # y # r \<and> 0 < y \<and> y < 128)
    \<and> loads env hk t = Inr (written True (VDict v))"
proof -
  obtain its where its: "item_texts env frame_style (je_nesting env - 1) v = Inr its"
      "t = [123] @ join [44] (map (\<lambda>kt. quote False (fst kt) @ [58] @ snd kt) (sort_key fst its)) @ [125]"
    using assms(1) by (auto simp: dumps_def result_simps split: if_splits)
  have "\<exists>y r. t = 123 # y # r \<and> 0 < y \<and> y < 128"
  proof (cases "sort_key fst its")
    case Nil
    then show ?thesis
      using its(2) by simp
  next
    case (Cons a list)
    then show ?thesis
      using its(2) by (simp add: join_Cons quote_def)
  qed
  moreover have "code_points t"
    unfolding code_points_def
    by (rule text_chars(1) [OF _ assms(1) [unfolded dumps_def] frame_style_ok _ assms(2)])
      (simp_all add: valid_quote [unfolded code_points_def])
  moreover have "writable (js_ascii frame_style) (VDict v)"
    using assms(2) by (rule writable_ascii)
  then have "loads env hk t = Inr (written True (VDict v))"
    using loads_dumps [OF frame_style_ok assms(1), of hk] calculation(1) by auto
  ultimately show ?thesis
    by blast
qed

definition frame_object :: "dict \<Rightarrow> dict" where
  \<comment> \<open>the object with the keys in the order in which they are written\<close>
  "frame_object v = sort_key fst (map (\<lambda>kv. (fst kv, written True (snd kv))) v)"

lemma payload_read:
  assumes "canonical_payload env v = Inr b" "writable True (VDict v)" "length b \<le> FRAME_MAX_BYTES"
  shows "decode_payload env b = Inr (frame_object v)"
proof -
  obtain t where t: "dumps env frame_style (VDict v) = Inr t" "b = utf8 t"
    using assms(1) by (auto simp: canonical_payload_def result_simps str_bytes_def split: sum.splits if_splits)
  note obj = object_text [OF t(1) assms(2), of default_hooks]
  obtain y r where y: "t = 123 # y # r" "0 < y" "y < 128"
    using obj by blast
  have vals: "map unat b = concat (map utf8_char t)"
    using obj by (simp add: t(2) utf8_values)
  also have "\<dots> = 123 # y # concat (map utf8_char r)"
    using y by (simp add: utf8_char_def)
  finally have "json_text (map unat b) = read_utf8 (map unat b)"
    using y by (simp add: json_text_ascii del: read_utf8.simps)
  then have "json_text (map unat b) = Some t"
    using obj by (simp add: t(2) read_utf8_utf8)
  then show ?thesis
    using obj assms(3) by (simp add: decode_payload_def frame_object_def)
qed

definition fits :: "json_env \<Rightarrow> dict \<Rightarrow> bool" where
  \<comment> \<open>the object can be written as one frame\<close>
  "fits env v \<longleftrightarrow> (case encode_frame env v of Inr _ \<Rightarrow> True | Inl _ \<Rightarrow> False)"

lemma encodable_quote: "text_ok True s \<Longrightarrow> list_all (\<lambda>c. \<not> surrogate c) (quote False s)"
proof -
  have "\<not> surrogate (hex_digit n)" if "n < 16" for n
    using that unfolding hex_digit_def surrogate_def by (auto split: if_split)
  then have "list_all (\<lambda>c. \<not> surrogate c) (escape_char False c)" if "\<not> surrogate c" for c
    using that by (simp add: escape_char_def uescape_def hex4_def surrogate_def)
  then have "text_ok True s \<Longrightarrow> list_all (\<lambda>c. \<not> surrogate c) (concat (map (escape_char False) s))"
    by (induction s) (simp_all add: text_ok_def)
  then show "text_ok True s \<Longrightarrow> list_all (\<lambda>c. \<not> surrogate c) (quote False s)"
    by (simp add: quote_def surrogate_def)
qed

lemma fitsI:
  assumes "plain (je_nesting env) (VDict v)" "writable True (VDict v)" "text_bound (VDict v) \<le> FRAME_MAX_BYTES"
  shows "fits env v"
proof -
  obtain t where t: "dumps env frame_style (VDict v) = Inr t"
    using text_of_plain(1) [OF assms(1)] unfolding dumps_def by blast
  have "encodable t"
    unfolding encodable_def
    by (rule text_chars(1) [OF _ t [unfolded dumps_def] frame_style_ok _ assms(2)])
      (simp_all add: encodable_quote, simp add: surrogate_def)
  moreover have "length (utf8 t) \<le> FRAME_MAX_BYTES"
    using text_of_bound(1) [OF t [unfolded dumps_def] frame_style_ok assms(2)] assms(3) by (simp add: utf8_length)
  ultimately show ?thesis
    using t by (simp add: fits_def encode_frame_def canonical_payload_def str_bytes_def to_bytes4_def raises_def FRAME_MAX_BYTES_def)
qed

lemma frame_parts_of:
  assumes "encode_frame env v = Inr f" "writable True (VDict v)"
  shows "\<exists>h b. f = h @ b \<and> length h = 4 \<and> from_bytes h = length b \<and> length b \<le> FRAME_MAX_BYTES
    \<and> decode_payload env b = Inr (frame_object v)"
  using assms payload_read to_bytes4_length from_to_bytes4
  by (fastforce simp: encode_frame_def result_simps split: if_splits)

section \<open>A stream of frames\<close>

lemma feed_short: "length buf < 4 \<Longrightarrow> feed_loop env buf = (Inr [], buf)"
  by (simp add: feed_loop.simps)

lemma feed_frame:
  assumes "encode_frame env v = Inr f" "writable True (VDict v)"
  shows "feed_loop env (f @ r) = (case feed_loop env r of
      (Inr ds, rest) \<Rightarrow> (Inr (frame_object v # ds), rest) | (Inl e, rest) \<Rightarrow> (Inl e, rest))"
proof -
  obtain h b where f: "f = h @ b" "length h = 4" "from_bytes h = length b" "length b \<le> FRAME_MAX_BYTES"
      "decode_payload env b = Inr (frame_object v)"
    using frame_parts_of [OF assms] by blast
  then show ?thesis
    by (subst feed_loop.simps) (simp add: Let_def)
qed

lemma feed_frames:
  assumes "list_all2 (\<lambda>v f. encode_frame env v = Inr f) ds fs" "list_all (\<lambda>v. writable True (VDict v)) ds"
  shows "feed_loop env (concat fs) = (Inr (map frame_object ds), [])"
  using assms
proof (induction rule: list_all2_induct)
  case Nil
  then show ?case
    by (simp add: feed_short)
next
  case (Cons v ds f fs)
  then show ?case
    by (simp add: feed_frame)
qed

fun feeds :: "json_env \<Rightarrow> bytes list \<Rightarrow> bytes \<Rightarrow> dict list sres \<times> bytes" where
  \<comment> \<open>the objects that the decoder yields for chunks that arrive one after the other\<close>
  "feeds env [] buf = (Inr [], buf)"
| "feeds env (c # cs) buf =
    (case feed_chunk env c buf of
       (Inl e, rest) \<Rightarrow> (Inl e, rest)
     | (Inr ds, rest) \<Rightarrow>
         (case feeds env cs rest of (Inl e, r) \<Rightarrow> (Inl e, r) | (Inr ds', r) \<Rightarrow> (Inr (ds @ ds'), r)))"

lemma feed_prefix:
  "feed_loop env (buf @ data) = (Inr ds, rest) \<Longrightarrow>
    \<exists>as bs mid. ds = as @ bs \<and> feed_loop env buf = (Inr as, mid) \<and> feed_loop env (mid @ data) = (Inr bs, rest)"
proof (induction env buf arbitrary: ds rule: feed_loop.induct)
  case (1 env buf)
  show ?case
  proof (cases "length buf < 4")
    case True
    then show ?thesis
      using 1(2) by (simp add: feed_short)
  next
    case False
    let ?n = "from_bytes (take 4 buf)"
    have n: "take 4 (buf @ data) = take 4 buf"
      using False by simp
    have fits: "?n \<le> FRAME_MAX_BYTES"
      using 1(2) False n by (subst (asm) feed_loop.simps) (simp add: Let_def split: if_splits)
    show ?thesis
    proof (cases "length buf < 4 + ?n")
      case True
      then have "feed_loop env buf = (Inr [], buf)"
        using False fits by (subst feed_loop.simps) (simp add: Let_def)
      then show ?thesis
        using 1(2) by simp
    next
      case whole: False
      have whole': "take ?n (drop 4 (buf @ data)) = take ?n (drop 4 buf)" "drop (4 + ?n) (buf @ data) = drop (4 + ?n) buf @ data"
        using whole by simp_all
      obtain v ds' where v: "decode_payload env (take ?n (drop 4 buf)) = Inr v" "ds = v # ds'"
          "feed_loop env (drop (4 + ?n) buf @ data) = (Inr ds', rest)"
        using 1(2) False fits whole n whole'
        by (subst (asm) feed_loop.simps) (auto simp: Let_def simp del: take_append drop_append split: sum.splits prod.splits if_splits)
      obtain as' bs mid where ih: "ds' = as' @ bs" "feed_loop env (drop (4 + ?n) buf) = (Inr as', mid)"
          "feed_loop env (mid @ data) = (Inr bs, rest)"
        using 1(1) [OF False refl _ whole v(1) v(3)] fits by auto
      have "feed_loop env buf = (Inr (v # as'), mid)"
        using False fits whole v(1) ih(2) by (subst feed_loop.simps) (simp add: Let_def)
      then show ?thesis
        using v(2) ih by (intro exI [of _ "v # as'"] exI [of _ bs] exI [of _ mid]) simp
    qed
  qed
qed

lemma feed_rest: "feed_loop env buf = (Inr ds, rest) \<Longrightarrow> feed_loop env rest = (Inr [], rest)"
proof (induction env buf arbitrary: ds rule: feed_loop.induct)
  case (1 env buf)
  let ?n = "from_bytes (take 4 buf)"
  consider "rest = buf" "feed_loop env buf = (Inr [], buf)"
    | ds' where "\<not> length buf < 4" "?n \<le> FRAME_MAX_BYTES" "\<not> length buf < 4 + ?n"
        "feed_loop env (drop (4 + ?n) buf) = (Inr ds', rest)" "\<exists>v. decode_payload env (take ?n (drop 4 buf)) = Inr v"
    using 1(2) unfolding feed_loop.simps [of env buf]
    by (auto simp: Let_def split: sum.splits prod.splits if_splits)
  then show ?case
  proof cases
    case 2
    then show ?thesis
      using 1(1) by auto
  qed simp
qed

lemma feeds_concat:
  "feed_loop env (buf @ concat cs) = (Inr ds, rest) \<Longrightarrow> feed_loop env buf = (Inr [], buf) \<Longrightarrow>
    feeds env cs buf = (Inr ds, rest)"
proof (induction cs arbitrary: buf ds)
  case (Cons c cs)
  then obtain as' bs mid where "ds = as' @ bs" "feed_loop env (buf @ c) = (Inr as', mid)"
      "feed_loop env (mid @ concat cs) = (Inr bs, rest)"
    using feed_prefix [of env "buf @ c" "concat cs"] by auto
  then show ?case
    using Cons.IH [of mid bs] feed_rest [of env "buf @ c"] by (simp add: feed_chunk_def)
qed simp

text \<open>
  C26. A stream of encoded objects is decoded to exactly these objects, in order and with nothing left in
  the buffer, however the bytes are cut into chunks: in the middle of a header, of a payload or of a
  character, or with many frames in one chunk.
\<close>

theorem stream_decodes:
  assumes "list_all2 (\<lambda>v f. encode_frame env v = Inr f) ds fs" "list_all (\<lambda>v. writable True (VDict v)) ds"
    and "concat cs = concat fs"
  shows "feeds env cs [] = (Inr (map frame_object ds), [])"
  using feeds_concat [of env "[]" cs] feed_frames [OF assms(1,2)] assms(3) by (simp add: feed_short)


definition example_objects :: "dict list" where
  "example_objects = [[(u ''b'', VInt 1), (u ''a'', vs ''x'')], []]"

theorem stream_decodes_witness:
  "\<exists>cs. (\<forall>c \<in> set cs. length c = 1)
    \<and> feeds example_env cs [] = (Inr [[(u ''a'', vs ''x''), (u ''b'', VInt 1)], []], [])"
proof -
  have "case each (encode_frame example_env) example_objects of Inr fs \<Rightarrow> True | Inl e \<Rightarrow> False"
    by code_simp
  then obtain fs where "each (encode_frame example_env) example_objects = Inr fs"
    by (auto split: sum.splits)
  then have fs: "list_all2 (\<lambda>v f. encode_frame example_env v = Inr f) example_objects fs"
    by (simp add: each_Inr_iff)
  have "list_all (\<lambda>v. writable True (VDict v)) example_objects"
    "map frame_object example_objects = [[(u ''a'', vs ''x''), (u ''b'', VInt 1)], []]"
    by code_simp+
  moreover have "concat (map (\<lambda>b. [b]) (concat fs)) = concat fs"
    by simp
  ultimately have "feeds example_env (map (\<lambda>b. [b]) (concat fs)) [] = (Inr [[(u ''a'', vs ''x''), (u ''b'', VInt 1)], []], [])"
    using stream_decodes [OF fs] by metis
  then show ?thesis
    by (intro exI [of _ "map (\<lambda>b. [b]) (concat fs)"]) auto
qed

lemma read_long_number:
  assumes "list_all is_digit ds" "hd ds \<noteq> 48" "DIGIT_LIMIT < length ds"
  shows "read_number env ds = Inl (ValueErr ''integer string conversion'')"
proof -
  obtain c r where c: "ds = c # r"
    using assms(3) by (cases ds) auto
  have "takeWhile is_digit ds = ds"
    using assms(1) by (simp add: list_all_iff takeWhile_eq_all_conv)
  then have tw: "takeWhile is_digit (c # r) = c # r"
    by (simp add: c)
  have "is_digit c" "c \<noteq> 45" "c \<noteq> 48"
    using assms(1,2) by (auto simp: c is_digit_def)
  then show ?thesis
    using assms(3) unfolding c by (simp add: read_number_def tw fraction_part_def exponent_part_def del: takeWhile.simps)
qed

lemma long_integer_text:
  defines "t \<equiv> replicate 4301 (49 :: nat)"
  shows "json_text (map unat (utf8 t)) = Some t" "length (utf8 t) \<le> FRAME_MAX_BYTES"
    "loads env default_hooks t = Inl (ValueErr ''integer string conversion'')"
proof -
  have t: "t = 49 # 49 # replicate 4299 49"
    by (simp add: t_def flip: replicate_Suc)
  have pts: "code_points t"
    by (simp add: t_def code_points_def list_all_iff)
  have one: "utf8_char 49 = [49]"
    by (simp add: utf8_char_def)
  have cat: "concat (map utf8_char (replicate n 49)) = replicate n 49" for n
    by (induction n) (simp_all add: one)
  have vals: "map unat (utf8 t) = t"
    using cat [of 4301] by (simp add: utf8_values pts) (simp add: t_def)
  then have "json_text t = read_utf8 t"
    using json_text_ascii [of 49 49] by (simp add: t del: read_utf8.simps)
  then show "json_text (map unat (utf8 t)) = Some t"
    using vals read_utf8_utf8 [OF pts] by simp
  have "length (utf8 t) = length (map unat (utf8 t))"
    by simp
  then show "length (utf8 t) \<le> FRAME_MAX_BYTES"
    by (simp only: vals) (simp add: t_def FRAME_MAX_BYTES_def)
  have "length t = 4301"
    by (simp add: t_def)
  then obtain k where k: "2 * length t = Suc k" "DIGIT_LIMIT < length t"
    by (simp add: DIGIT_LIMIT_def)
  have "list_all is_digit t"
    by (simp add: t_def list_all_iff is_digit_def)
  then have "read_number env t = Inl (ValueErr ''integer string conversion'')"
    using read_long_number [of t env] k(2) t by simp
  moreover have "\<not> starts_with t (u s)" if "s \<in> {''null'', ''true'', ''false'', ''NaN'', ''Infinity'', ''-Infinity''}" for s
    using that by (auto simp: t starts_with_def u_def)
  ultimately have "read_atom env default_hooks t = Inl (ValueErr ''integer string conversion'')"
    by (simp add: read_atom_def)
  then have "parse env default_hooks (Suc k) n t = Inl (ValueErr ''integer string conversion'')" for n
    by (simp add: t)
  moreover have "skip_ws t = t"
    by (simp add: t skip_ws_def jspace_def)
  moreover have "take 1 t = [49]"
    by (simp add: t)
  ultimately show "loads env default_hooks t = Inl (ValueErr ''integer string conversion'')"
    unfolding loads_def k(1) by simp
qed

text \<open>
  What the code does with an integer of more digits than the interpreter converts: the payload is
  refused with the interpreter's own ValueError and not with the error of the service for an invalid
  request, because only a JSONDecodeError is translated.
\<close>

lemma long_integer_escapes:
  "decode_payload env (utf8 (replicate 4301 49)) = Inl (Raises (ValueErr ''integer string conversion''))"
  using long_integer_text(1,2) long_integer_text(3) [of env] by (simp add: decode_payload_def json_decode_error_def)

end
