(* ===== verification/Auth.thy ===== *)
theory Auth
  imports Frames
begin

text \<open>
  \<^verbatim>\<open>auth.py\<close>: capabilities that carry a principal, a channel binding and a validity window under a
  message authentication code. The hash functions, the rounding of floating-point numbers and the
  random nonce are parameters.
\<close>

section \<open>Base 64\<close>

definition b64_digit :: "nat \<Rightarrow> nat" where
  \<comment> \<open>the URL-safe alphabet\<close>
  "b64_digit n =
    (if n < 26 then 65 + n else if n < 52 then 71 + n else if n < 62 then n - 4 else if n = 62 then 45 else 95)"

fun base64 :: "nat list \<Rightarrow> ustr" where
  "base64 [] = []"
| "base64 [a] = [b64_digit (a div 4), b64_digit (a mod 4 * 16), 61, 61]"
| "base64 [a, b] = [b64_digit (a div 4), b64_digit (a mod 4 * 16 + b div 16), b64_digit (b mod 16 * 4), 61]"
| "base64 (a # b # c # r) =
    b64_digit (a div 4) # b64_digit (a mod 4 * 16 + b div 16) # b64_digit (b mod 16 * 4 + c div 64)
      # b64_digit (c mod 64) # base64 r"

definition b64 :: "bytes \<Rightarrow> ustr" where
  "b64 data = rev (dropWhile (\<lambda>c. c = 61) (rev (base64 (map unat data))))"

definition b64_code :: "nat \<Rightarrow> nat option" where
  \<comment> \<open>the standard alphabet that \<^verbatim>\<open>binascii\<close> reads\<close>
  "b64_code c =
    (if is_upper c then Some (c - 65) else if is_lower c then Some (c - 71)
     else if is_digit c then Some (c + 4) else if c = 43 then Some 62 else if c = 47 then Some 63 else None)"

definition url_safe :: "nat \<Rightarrow> nat" where
  "url_safe c = (if c = 45 then 43 else if c = 95 then 47 else c)"

fun a2b :: "nat \<Rightarrow> nat \<Rightarrow> nat \<Rightarrow> ustr \<Rightarrow> nat list res" where
  \<comment> \<open>\<^verbatim>\<open>binascii.a2b_base64\<close>, not strict: the position in a group of four, the bits left over, the padding seen;
     characters outside the alphabet are skipped\<close>
  "a2b q l p [] = (if q = 0 then Inr [] else Inl (ValueErr ''Incorrect padding''))"
| "a2b q l p (c # s) =
    (if c = 61 then
       (if 2 \<le> q \<and> 4 \<le> q + (p + 1) then Inr [] else a2b q l (if 2 \<le> q then p + 1 else p) s)
     else
       (case b64_code c of
          None \<Rightarrow> a2b q l p s
        | Some v \<Rightarrow>
            (if q = 0 then a2b 1 v 0 s
             else if q = 1 then andthen (a2b 2 (v mod 16) 0 s) (\<lambda>r. Inr ((l * 4 + v div 16) # r))
             else if q = 2 then andthen (a2b 3 (v mod 4) 0 s) (\<lambda>r. Inr ((l * 16 + v div 4) # r))
             else andthen (a2b 0 0 0 s) (\<lambda>r. Inr ((l * 64 + v) # r)))))"

definition ascii :: "ustr \<Rightarrow> bool" where
  "ascii s \<longleftrightarrow> list_all (\<lambda>c. c < 128) s"

definition unb64 :: "ustr \<Rightarrow> bytes res" where
  "unb64 s =
    (if \<not> ascii s then Inl (ValueErr ''string argument should contain only ASCII characters'')
     else andthen (a2b 0 0 0 (map url_safe (s @ replicate ((4 - length s mod 4) mod 4) 61)))
            (\<lambda>r. Inr (map of_nat r)))"

section \<open>Capabilities\<close>

record capability =
  cp_claims :: ustr
  cp_mac :: ustr

definition capability_token :: "capability \<Rightarrow> ustr" where
  "capability_token c = cp_claims c @ [46] @ cp_mac c"

definition capability_parse :: "ustr \<Rightarrow> capability sres" where
  "capability_parse token =
    (let claims = takeWhile (\<lambda>c. c \<noteq> 46) token; mac = drop (length claims + 1) token
     in if 46 \<notin> set token \<or> claims = [] \<or> length mac \<noteq> 64 then Inl (service_error SE_UNAUTHENTICATED)
        else Inr \<lparr>cp_claims = claims, cp_mac = mac\<rparr>)"

record auth_context =
  ac_principal :: principal
  ac_binding :: ustr
  ac_nonce :: pyval

record auth_env =
  ae_json :: json_env
  ae_hmac :: "bytes \<Rightarrow> bytes \<Rightarrow> ustr" \<comment> \<open>HMAC-SHA-256 of a key and a message, in hexadecimal\<close>
  ae_sha :: "bytes \<Rightarrow> ustr" \<comment> \<open>SHA-256, in hexadecimal\<close>
  ae_round :: "rat \<Rightarrow> rat" \<comment> \<open>the nearest floating-point number\<close>

record authority =
  au_key :: bytes
  au_key_id :: ustr

definition authority_init :: "auth_env \<Rightarrow> bytes \<Rightarrow> authority res" where
  "authority_init env key =
    (if length key < 32 then Inl (ValueErr ''context authority key must contain at least 256 bits'')
     else Inr \<lparr>au_key = key, au_key_id = take 32 (ae_sha env (ascii_bytes ''svc-context-key-id-v1'' @ key))\<rparr>)"

definition trunc :: "rat \<Rightarrow> int" where
  \<comment> \<open>\<^verbatim>\<open>int\<close> of a float\<close>
  "trunc x = (if 0 \<le> x then \<lfloor>x\<rfloor> else - \<lfloor>- x\<rfloor>)"

definition millis :: "auth_env \<Rightarrow> rat \<Rightarrow> int" where
  \<comment> \<open>\<^verbatim>\<open>int(x * 1000)\<close>\<close>
  "millis env x = trunc (ae_round env (x * 1000))"

definition claims_style :: json_style where
  \<comment> \<open>\<^verbatim>\<open>sort_keys=True, separators=(",", ":")\<close>\<close>
  "claims_style = \<lparr>js_ascii = True, js_nan = True, js_sort = True, js_item_sep = u '','', js_key_sep = u '':''\<rparr>"

definition mac_of :: "auth_env \<Rightarrow> authority \<Rightarrow> ustr \<Rightarrow> ustr res" where
  "mac_of env au claims =
    andthen (str_bytes claims) (\<lambda>b. Inr (ae_hmac env (au_key au) (ascii_bytes ''svc-context-capability-v1'' @ b)))"

definition issue_claims :: "auth_env \<Rightarrow> authority \<Rightarrow> principal \<Rightarrow> ustr \<Rightarrow> rat \<Rightarrow> rat \<Rightarrow> ustr \<Rightarrow> dict" where
  "issue_claims env au p binding issued ttl nonce =
    [(u ''v'', VInt 1), (u ''kid'', VStr (au_key_id au)), (u ''deployment_id'', VStr (pr_deployment p)),
     (u ''household_id'', VStr (pr_household p)), (u ''actor_id'', VStr (pr_actor p)),
     (u ''binding'', VStr binding), (u ''nonce'', VStr nonce), (u ''iat_ms'', VInt (millis env issued)),
     (u ''exp_ms'', VInt (millis env (ae_round env (issued + ttl))))]"

definition chosen_nonce :: "ustr option \<Rightarrow> ustr \<Rightarrow> ustr" where
  \<comment> \<open>\<^verbatim>\<open>nonce or secrets.token_hex(16)\<close>, with the random text as the second argument\<close>
  "chosen_nonce nonce random = (case nonce of Some s \<Rightarrow> if s = [] then random else s | None \<Rightarrow> random)"

definition issue :: "auth_env \<Rightarrow> authority \<Rightarrow> principal \<Rightarrow> ustr \<Rightarrow> rat \<Rightarrow> rat \<Rightarrow> ustr option \<Rightarrow> ustr \<Rightarrow> capability res" where
  "issue env au p binding issued ttl nonce random =
    (if ttl \<le> 0 \<or> 300 < ttl then Inl (ValueErr ''capability ttl is outside the closed range'')
     else
       (let n = chosen_nonce nonce random
        in andthen (dumps (ae_json env) claims_style (VDict (issue_claims env au p binding issued ttl n))) (\<lambda>t.
           andthen (str_bytes t) (\<lambda>raw.
           andthen (mac_of env au (b64 raw)) (\<lambda>mac. Inr \<lparr>cp_claims = b64 raw, cp_mac = mac\<rparr>)))))"

section \<open>Verification\<close>

definition compare_digest :: "pyval \<Rightarrow> ustr \<Rightarrow> bool res" where
  \<comment> \<open>\<^verbatim>\<open>hmac.compare_digest\<close> of a value and a text: a TypeError unless both are ASCII texts\<close>
  "compare_digest v t =
    (case v of VStr s \<Rightarrow> if ascii s \<and> ascii t then Inr (s = t) else Inl TypeErr | _ \<Rightarrow> Inl TypeErr)"

fun claim_value :: "pyval \<Rightarrow> string \<Rightarrow> pyval res" where
  \<comment> \<open>\<^verbatim>\<open>claims[key]\<close>\<close>
  "claim_value (VDict d) k = (case map_of d (u k) of Some v \<Rightarrow> Inr v | None \<Rightarrow> Inl KeyErr)"
| "claim_value _ k = Inl TypeErr"

definition num_less :: "pyfloat \<Rightarrow> pyfloat \<Rightarrow> bool" where
  "num_less x y \<longleftrightarrow> num_le x y \<and> \<not> num_eq x y"

definition with_number :: "pyval \<Rightarrow> (pyfloat \<Rightarrow> bool) \<Rightarrow> bool res" where
  \<comment> \<open>a comparison with a number: a TypeError for a value that is none\<close>
  "with_number v P = (case num_of v of Some x \<Rightarrow> Inr (P x) | None \<Rightarrow> Inl TypeErr)"

fun principal_of_values :: "pyval \<Rightarrow> pyval \<Rightarrow> pyval \<Rightarrow> principal sres" where
  "principal_of_values (VStr d) (VStr h) (VStr a) =
    andthen (principal_init \<lparr>pr_deployment = d, pr_household = h, pr_actor = a\<rparr>)
      (\<lambda>_. Inr \<lparr>pr_deployment = d, pr_household = h, pr_actor = a\<rparr>)"
| "principal_of_values _ _ _ = Inl (Raises (ValueErr ''principal fields must be non-empty''))"

definition json_of_bytes :: "json_env \<Rightarrow> bytes \<Rightarrow> pyval res" where
  "json_of_bytes env b =
    (case json_text (map unat b) of None \<Rightarrow> Inl UnicodeErr | Some t \<Rightarrow> loads env default_hooks t)"

definition claims_context :: "auth_env \<Rightarrow> authority \<Rightarrow> ustr \<Rightarrow> ustr \<Rightarrow> rat \<Rightarrow> auth_context sres" where
  \<comment> \<open>the body of the \<^verbatim>\<open>try\<close>\<close>
  "claims_context env au claims observed now =
    andthen (raises (andthen (unb64 claims) (json_of_bytes (ae_json env)))) (\<lambda>cs.
    let current = Fin (of_int (millis env now)) in
    andthen (raises (andthen (claim_value cs ''v'') (\<lambda>v.
        if \<not> py_eq v (VInt 1) then Inr True
        else andthen (claim_value cs ''kid'') (\<lambda>k. Inr (\<not> py_eq k (VStr (au_key_id au))))))) (\<lambda>other.
    if other then Inl (Raises (ValueErr ''''))
    else
      andthen (raises (andthen (claim_value cs ''iat_ms'') (\<lambda>i.
          andthen (with_number i (num_less current)) (\<lambda>early.
          if early then Inr True
          else andthen (claim_value cs ''exp_ms'') (\<lambda>e. with_number e (\<lambda>x. num_less x current)))))) (\<lambda>outside.
      if outside then Inl (service_error SE_UNAUTHENTICATED)
      else
        andthen (raises (andthen (claim_value cs ''binding'') (\<lambda>b. compare_digest b observed))) (\<lambda>same.
        if \<not> same then Inl (service_error SE_FORBIDDEN)
        else
          andthen (raises (each (claim_value cs) [''deployment_id'', ''household_id'', ''actor_id''])) (\<lambda>parts.
          andthen (principal_of_values (parts ! 0) (parts ! 1) (parts ! 2)) (\<lambda>p.
          andthen (raises (claim_value cs ''nonce'')) (\<lambda>n.
            Inr \<lparr>ac_principal = p, ac_binding = observed \<comment> \<open>equal to the claim\<close>, ac_nonce = n\<rparr>)))))))"

definition refused :: "serr \<Rightarrow> serr" where
  \<comment> \<open>the \<^verbatim>\<open>except\<close> clauses\<close>
  "refused e =
    (case e of
       Raises x \<Rightarrow> if x = KeyErr \<or> x = TypeErr \<or> is_value_error x then service_error SE_UNAUTHENTICATED else e
     | _ \<Rightarrow> e)"

definition verify :: "auth_env \<Rightarrow> authority \<Rightarrow> ustr \<Rightarrow> ustr \<Rightarrow> rat \<Rightarrow> auth_context sres" where
  "verify env au token observed now =
    andthen (capability_parse token) (\<lambda>c.
    andthen (raises (andthen (mac_of env au (cp_claims c)) (compare_digest (VStr (cp_mac c))))) (\<lambda>same.
    if \<not> same then Inl (service_error SE_UNAUTHENTICATED)
    else (case claims_context env au (cp_claims c) observed now of Inl e \<Rightarrow> Inl (refused e) | Inr x \<Rightarrow> Inr x)))"

section \<open>Reading back what was issued\<close>

lemma b64_code_digit: "n < 64 \<Longrightarrow> b64_code (url_safe (b64_digit n)) = Some n"
  by (auto simp: b64_digit_def url_safe_def b64_code_def is_upper_def is_lower_def is_digit_def)

lemma digit_not_pad: "n < 64 \<Longrightarrow> url_safe (b64_digit n) \<noteq> 61" "n < 64 \<Longrightarrow> b64_digit n \<noteq> 61"
  by (auto simp: b64_digit_def url_safe_def)

lemma digit_ascii: "n < 64 \<Longrightarrow> b64_digit n < 128 \<and> b64_digit n \<noteq> 46"
  by (auto simp: b64_digit_def)

fun base64_body :: "nat list \<Rightarrow> ustr" where
  \<comment> \<open>without the padding\<close>
  "base64_body [] = []"
| "base64_body [a] = [b64_digit (a div 4), b64_digit (a mod 4 * 16)]"
| "base64_body [a, b] = [b64_digit (a div 4), b64_digit (a mod 4 * 16 + b div 16), b64_digit (b mod 16 * 4)]"
| "base64_body (a # b # c # r) =
    b64_digit (a div 4) # b64_digit (a mod 4 * 16 + b div 16) # b64_digit (b mod 16 * 4 + c div 64)
      # b64_digit (c mod 64) # base64_body r"

lemma base64_parts:
  "(a :: nat) < 256 \<Longrightarrow> a div 4 < 64"
  "a mod 4 * 16 < 64" "b < 256 \<Longrightarrow> a mod 4 * 16 + b div 16 < 64"
  "b mod 16 * 4 < 64" "c < 256 \<Longrightarrow> b mod 16 * 4 + c div 64 < 64" "c mod 64 < 64"
proof -
  have m: "a mod 4 < 4" "b mod 16 < 16"
    by simp_all
  show "a < 256 \<Longrightarrow> a div 4 < 64" "a mod 4 * 16 < 64" "b < 256 \<Longrightarrow> a mod 4 * 16 + b div 16 < 64"
    "b mod 16 * 4 < 64" "c < 256 \<Longrightarrow> b mod 16 * 4 + c div 64 < 64" "c mod 64 < 64"
    using m by linarith+
qed

lemma base64_padded:
  "list_all (\<lambda>x. x < 256) xs \<Longrightarrow>
    base64 xs = base64_body xs @ replicate ((4 - length (base64_body xs) mod 4) mod 4) 61
    \<and> list_all (\<lambda>c. c < 128 \<and> c \<noteq> 61 \<and> c \<noteq> 46) (base64_body xs)"
  by (induction xs rule: base64_body.induct)
    (auto simp: base64_parts digit_not_pad digit_ascii numeral_2_eq_2 mod_Suc)

lemma a2b_digit:
  "n < 64 \<Longrightarrow> a2b q l p (url_safe (b64_digit n) # s) =
    (if q = 0 then a2b 1 n 0 s
     else if q = 1 then andthen (a2b 2 (n mod 16) 0 s) (\<lambda>r. Inr ((l * 4 + n div 16) # r))
     else if q = 2 then andthen (a2b 3 (n mod 4) 0 s) (\<lambda>r. Inr ((l * 16 + n div 4) # r))
     else andthen (a2b 0 0 0 s) (\<lambda>r. Inr ((l * 64 + n) # r)))"
  by (simp add: b64_code_digit digit_not_pad)

lemma joined_bytes:
  "(b :: nat) < 256 \<Longrightarrow> b div 16 div 16 = 0" "b < 256 \<Longrightarrow> b div 16 mod 16 = b div 16"
  "(c :: nat) < 256 \<Longrightarrow> c div 64 div 4 = 0" "c < 256 \<Longrightarrow> c div 64 mod 4 = c div 64"
  by (simp_all add: div_mult2_eq [symmetric] less_mult_imp_div_less)

lemma bytes_small: "list_all (\<lambda>x. x < 256) (map unat (data :: bytes))"
proof -
  have "unat (w :: 8 word) < 256" for w
    using unsigned_less [of w] by simp
  then show ?thesis
    by (simp add: list_all_iff)
qed

lemma a2b_body:
  "list_all (\<lambda>x. x < 256) xs \<Longrightarrow>
    a2b 0 l p (map url_safe (base64_body xs @ replicate ((4 - length (base64_body xs) mod 4) mod 4) 61)) = Inr xs"
proof (induction xs arbitrary: l p rule: base64_body.induct)
  case (4 a b c r)
  then show ?case
    by (simp add: a2b_digit base64_parts joined_bytes del: a2b.simps(2))
next
  case (3 a b)
  have "url_safe 61 = 61"
    by (simp add: url_safe_def)
  then show ?case
    using 3
    by (simp add: a2b_digit base64_parts joined_bytes del: a2b.simps(2)) (simp add: numeral_2_eq_2)
next
  case (2 a)
  have "url_safe 61 = 61"
    by (simp add: url_safe_def)
  then show ?case
    using 2
    by (simp add: a2b_digit base64_parts joined_bytes del: a2b.simps(2)) (simp add: numeral_2_eq_2)
qed simp

lemma b64_body: "b64 data = base64_body (map unat data)"
proof -
  let ?xs = "map unat data"
  note padded = base64_padded [OF bytes_small, of data]
  have "dropWhile (\<lambda>c. c = 61) (rev (base64_body ?xs)) = rev (base64_body ?xs)"
  proof (cases "rev (base64_body ?xs)")
    case (Cons c r)
    then have "c \<in> set (base64_body ?xs)"
      by (metis list.set_intros(1) set_rev)
    then show ?thesis
      using padded Cons by (auto simp: list_all_iff)
  qed simp
  moreover have "dropWhile (\<lambda>c. c = 61) (replicate n 61 @ r) = dropWhile (\<lambda>c. c = 61) r" for n and r :: ustr
    by (induction n) simp_all
  ultimately show ?thesis
    using padded by (simp add: b64_def)
qed

lemma unb64_b64: "unb64 (b64 data) = Inr data"
proof -
  have "ascii (b64 data)" "a2b 0 0 0 (map url_safe (b64 data @ replicate ((4 - length (b64 data) mod 4) mod 4) 61)) = Inr (map unat data)"
    using base64_padded [OF bytes_small] a2b_body [OF bytes_small] by (auto simp: b64_body ascii_def list_all_iff)
  then show ?thesis
    by (simp add: unb64_def map_idI del: map_append)
qed

lemma b64_chars: "list_all (\<lambda>c. c < 128 \<and> c \<noteq> 61 \<and> c \<noteq> 46) (b64 data)"
  using base64_padded [OF bytes_small] by (simp add: b64_body)

lemma b64_length: "length (b64 data) \<le> 2 * length data"
proof -
  have "length (base64_body xs) \<le> 2 * length xs" for xs
    by (induction xs rule: base64_body.induct) simp_all
  from this [of "map unat data"] show ?thesis
    by (simp add: b64_body)
qed

lemma b64_empty: "b64 data = [] \<longleftrightarrow> data = []"
  unfolding b64_body by (cases "map unat data" rule: base64_body.cases) auto

section \<open>Claims\<close>

lemma claims_style_ok [simp]: "style_ok claims_style" "js_ascii claims_style" "js_sort claims_style"
  by (simp_all add: style_ok_def claims_style_def u_def)

lemma quote_ascii: "text_ok True s \<Longrightarrow> list_all (\<lambda>c. 0 < c \<and> c < 128) (quote True s)"
proof -
  have "0 < hex_digit n \<and> hex_digit n < 128" if "n < 16" for n
    using that unfolding hex_digit_def by (auto split: if_split)
  then have "list_all (\<lambda>c. 0 < c \<and> c < 128) (escape_char True c)" for c
    by (simp add: escape_char_def uescape_def hex4_def)
  then show "list_all (\<lambda>c. 0 < c \<and> c < 128) (quote True s)"
    by (induction s) (simp_all add: quote_def)
qed

lemma claims_text:
  assumes "dumps env claims_style (VDict d) = Inr t" "writable True (VDict d)"
  shows "encodable t" "t \<noteq> []" "json_of_bytes env (utf8 t) = Inr (written True (VDict d))"
proof -
  have chars: "list_all (\<lambda>c. 0 < c \<and> c < 128) t"
    by (rule text_chars(1) [OF _ assms(1) [unfolded dumps_def] claims_style_ok(1) _ assms(2)])
      (simp_all add: quote_ascii)
  then have pts: "code_points t" "encodable t"
    by (auto simp: code_points_def encodable_def surrogate_def list_all_iff)
  then show "encodable t"
    by simp
  obtain its where "t = 123 # its @ [125]"
    using assms(1) by (auto simp: dumps_def result_simps split: if_splits)
  then obtain y r where y: "t = 123 # y # r"
    by (cases "its @ [125]") auto
  then show "t \<noteq> []"
    by simp
  have "map unat (utf8 t) = concat (map utf8_char t)"
    by (rule utf8_values [OF pts(1)])
  also have "\<dots> = t"
    using chars by (induction t) (simp_all add: utf8_char_def)
  finally have "json_text (map unat (utf8 t)) = Some t"
    using chars json_text_ascii [of 123 y r] read_utf8_utf8 [OF pts(1)] y by simp
  moreover have "loads env default_hooks t = Inr (written True (VDict d))"
    using loads_dumps [OF claims_style_ok(1) assms(1), of default_hooks] assms(2) y by simp
  ultimately show "json_of_bytes env (utf8 t) = Inr (written True (VDict d))"
    by (simp add: json_of_bytes_def)
qed

definition claims_ok :: "authority \<Rightarrow> principal \<Rightarrow> ustr \<Rightarrow> ustr \<Rightarrow> bool" where
  \<comment> \<open>the texts of the claims are read back as they were written\<close>
  "claims_ok au p binding nonce \<longleftrightarrow>
     list_all (text_ok True) (au_key_id au # binding # nonce # principal_fields p)"

lemma text_ok_literal: "text_ok b (u s)"
proof -
  have "\<not> surrogate (of_char c) \<and> of_char c < (1114112 :: nat)" for c
    using nat_of_char_less_256 [of c] unfolding surrogate_def by linarith
  then show ?thesis
    by (simp add: text_ok_def u_def list_all_iff)
qed

lemma claims_writable:
  "claims_ok au p binding nonce \<Longrightarrow> writable True (VDict (issue_claims env au p binding issued ttl nonce))"
  by (simp add: issue_claims_def claims_ok_def principal_fields_def text_ok_literal)

lemma map_of_sorted_items:
  "distinct (map fst d) \<Longrightarrow> map_of (sort_key fst d) k = map_of (d :: (ustr \<times> 'a) list) k"
proof -
  assume d: "distinct (map fst d)"
  then have "distinct (map fst (sort_key fst d))"
    by (simp add: distinct_map)
  then show ?thesis
    using d by (intro map_of_eqI [THEN fun_cong]) (auto simp: map_of_eq_Some_iff)
qed

lemma claim_issued:
  assumes "(u k, v) \<in> set (issue_claims env au p binding issued ttl nonce)"
  shows "claim_value (written True (VDict (issue_claims env au p binding issued ttl nonce))) k = Inr v"
proof -
  let ?d = "issue_claims env au p binding issued ttl nonce"
  have "distinct (map fst ?d)" "map (\<lambda>kv. (fst kv, written True (snd kv))) ?d = ?d"
    by (simp_all add: issue_claims_def)
  then show ?thesis
    using assms by (simp add: map_of_sorted_items)
qed

section \<open>Issued capabilities\<close>

lemma issue_parts:
  assumes "issue env au p binding issued ttl nonce random = Inr c"
  shows "\<exists>t. dumps (ae_json env) claims_style (VDict (issue_claims env au p binding issued ttl (chosen_nonce nonce random))) = Inr t
    \<and> cp_claims c = b64 (utf8 t) \<and> mac_of env au (b64 (utf8 t)) = Inr (cp_mac c)"
  using assms by (fastforce simp: issue_def Let_def result_simps str_bytes_def split: if_splits)

lemma principal_value:
  "principal_init p = Inr () \<Longrightarrow>
    principal_of_values (VStr (pr_deployment p)) (VStr (pr_household p)) (VStr (pr_actor p)) = Inr p"
  by (cases p) simp

lemma claims_context_issued:
  assumes "dumps (ae_json env) claims_style (VDict (issue_claims env au p binding issued ttl n)) = Inr t"
    and "claims_ok au p binding n" "principal_init p = Inr ()"
  shows "claims_context env au (b64 (utf8 t)) observed now =
    (if millis env now < millis env issued \<or> millis env (ae_round env (issued + ttl)) < millis env now
     then Inl (service_error SE_UNAUTHENTICATED)
     else if \<not> (ascii binding \<and> ascii observed) then Inl (Raises TypeErr)
     else if binding \<noteq> observed then Inl (service_error SE_FORBIDDEN)
     else Inr \<lparr>ac_principal = p, ac_binding = observed, ac_nonce = VStr n\<rparr>)"
proof -
  define cs where "cs = written True (VDict (issue_claims env au p binding issued ttl n))"
  have read: "andthen (unb64 (b64 (utf8 t))) (json_of_bytes (ae_json env)) = Inr cs"
    using claims_text(3) [OF assms(1) claims_writable [OF assms(2)]] by (simp add: unb64_b64 cs_def)
  have claims: "claim_value cs ''v'' = Inr (VInt 1)" "claim_value cs ''kid'' = Inr (VStr (au_key_id au))"
      "claim_value cs ''iat_ms'' = Inr (VInt (millis env issued))"
      "claim_value cs ''exp_ms'' = Inr (VInt (millis env (ae_round env (issued + ttl))))"
      "claim_value cs ''binding'' = Inr (VStr binding)" "claim_value cs ''deployment_id'' = Inr (VStr (pr_deployment p))"
      "claim_value cs ''household_id'' = Inr (VStr (pr_household p))" "claim_value cs ''actor_id'' = Inr (VStr (pr_actor p))"
      "claim_value cs ''nonce'' = Inr (VStr n)"
    unfolding cs_def by (rule claim_issued, simp add: issue_claims_def)+
  show ?thesis
    unfolding claims_context_def read
    by (simp add: raises_def claims with_number_def num_less_def compare_digest_def Let_def principal_value [OF assms(3)]
        del: principal_of_values.simps)
qed

lemma parse_token: "capability_parse token = Inr c \<Longrightarrow> token = capability_token c \<and> length (cp_mac c) = 64"
proof -
  assume parse: "capability_parse token = Inr c"
  let ?claims = "takeWhile (\<lambda>c. c \<noteq> 46) token"
  have c: "46 \<in> set token" "cp_claims c = ?claims" "cp_mac c = drop (length ?claims + 1) token" "length (cp_mac c) = 64"
    using parse by (auto simp: capability_parse_def Let_def split: if_splits)
  obtain pre post where "token = pre @ 46 # post" "46 \<notin> set pre"
    using split_list_first [OF c(1)] by blast
  moreover have "takeWhile (\<lambda>c. c \<noteq> 46) pre = pre"
    using calculation(2) by (metis (mono_tags) takeWhile_eq_all_conv)
  ultimately have "token = capability_token c"
    using c(2,3) by (simp add: capability_token_def)
  then show ?thesis
    using c(4) by simp
qed

lemma parse_issued:
  assumes "46 \<notin> set (cp_claims c)" "cp_claims c \<noteq> []" "length (cp_mac c) = 64"
  shows "capability_parse (capability_token c) = Inr c"
proof -
  have "takeWhile (\<lambda>c. c \<noteq> 46) (capability_token c) = cp_claims c"
    using assms(1) by (auto simp: capability_token_def takeWhile_append takeWhile_eq_all_conv)
  then show ?thesis
    using assms by (simp add: capability_parse_def capability_token_def)
qed

lemma issued_checked:
  assumes "issue env au p binding issued ttl nonce random = Inr c"
    and "claims_ok au p binding (chosen_nonce nonce random)" "principal_init p = Inr ()"
  shows "claims_context env au (cp_claims c) observed now =
      (if millis env now < millis env issued \<or> millis env (ae_round env (issued + ttl)) < millis env now
       then Inl (service_error SE_UNAUTHENTICATED)
       else if \<not> (ascii binding \<and> ascii observed) then Inl (Raises TypeErr)
       else if binding \<noteq> observed then Inl (service_error SE_FORBIDDEN)
       else Inr \<lparr>ac_principal = p, ac_binding = observed, ac_nonce = VStr (chosen_nonce nonce random)\<rparr>)"
    "mac_of env au (cp_claims c) = Inr (cp_mac c)"
    "list_all (\<lambda>c. c < 128 \<and> c \<noteq> 61 \<and> c \<noteq> 46) (cp_claims c)" "cp_claims c \<noteq> []"
proof -
  obtain t where t: "dumps (ae_json env) claims_style (VDict (issue_claims env au p binding issued ttl (chosen_nonce nonce random))) = Inr t"
      "cp_claims c = b64 (utf8 t)" "mac_of env au (b64 (utf8 t)) = Inr (cp_mac c)"
    using issue_parts [OF assms(1)] by blast
  show "claims_context env au (cp_claims c) observed now =
      (if millis env now < millis env issued \<or> millis env (ae_round env (issued + ttl)) < millis env now
       then Inl (service_error SE_UNAUTHENTICATED)
       else if \<not> (ascii binding \<and> ascii observed) then Inl (Raises TypeErr)
       else if binding \<noteq> observed then Inl (service_error SE_FORBIDDEN)
       else Inr \<lparr>ac_principal = p, ac_binding = observed, ac_nonce = VStr (chosen_nonce nonce random)\<rparr>)"
    unfolding t(2) by (rule claims_context_issued [OF t(1) assms(2,3)])
  show "mac_of env au (cp_claims c) = Inr (cp_mac c)" "list_all (\<lambda>c. c < 128 \<and> c \<noteq> 61 \<and> c \<noteq> 46) (cp_claims c)"
    using t(2,3) b64_chars by simp_all
  have "t \<noteq> []"
    by (rule claims_text(2) [OF t(1) claims_writable [OF assms(2)]])
  then show "cp_claims c \<noteq> []"
    by (cases t) (auto simp: t(2) b64_empty utf8_def utf8_char_def)
qed

lemma millis_mono: "mono (ae_round env) \<Longrightarrow> x \<le> y \<Longrightarrow> millis env x \<le> millis env y"
proof -
  assume "mono (ae_round env)" "x \<le> y"
  then have "ae_round env (x * 1000) \<le> ae_round env (y * 1000)"
    by (simp add: monoD)
  then show ?thesis
    by (auto simp: millis_def trunc_def floor_mono intro: order_trans [of _ 0])
qed

lemma verify_issued:
  assumes "issue env au p binding issued ttl nonce random = Inr c"
    and "claims_ok au p binding (chosen_nonce nonce random)" "principal_init p = Inr ()" "ascii binding" "ascii observed"
    and "\<And>key m. length (ae_hmac env key m) = 64 \<and> ascii (ae_hmac env key m)" "mono (ae_round env)"
    and "issued \<le> now" "now \<le> ae_round env (issued + ttl)"
  shows "verify env au (capability_token c) observed now =
    (if observed = binding
     then Inr \<lparr>ac_principal = p, ac_binding = binding, ac_nonce = VStr (chosen_nonce nonce random)\<rparr>
     else Inl (service_error SE_FORBIDDEN))"
proof -
  note issued = issued_checked [OF assms(1-3)]
  obtain m where "ae_hmac env (au_key au) m = cp_mac c"
    using issued(2) by (auto simp: mac_of_def result_simps)
  then have mac: "length (cp_mac c) = 64" "ascii (cp_mac c)"
    using assms(6) by metis+
  have "capability_parse (capability_token c) = Inr c"
    by (rule parse_issued [OF _ issued(4) mac(1)]) (use issued(3) in \<open>auto simp: list_all_iff\<close>)
  moreover have "\<not> millis env now < millis env issued" "\<not> millis env (ae_round env (issued + ttl)) < millis env now"
    using millis_mono [OF assms(7)] assms(8,9) by (simp_all add: not_less)
  ultimately show ?thesis
    using assms(4,5) mac(2) by (simp add: verify_def issued(1,2) raises_def compare_digest_def refused_def service_error_def)
qed

definition example_auth :: auth_env where
  "example_auth = \<lparr>ae_json = example_env, ae_hmac = (\<lambda>k m. replicate 63 97 @ [48 + length m mod 10]),
     ae_sha = (\<lambda>m. replicate 64 98), ae_round = (\<lambda>x. x)\<rparr>"

definition example_issuer :: authority where
  "example_issuer = \<lparr>au_key = replicate 32 7, au_key_id = replicate 32 98\<rparr>"

definition example_subject :: principal where
  "example_subject = \<lparr>pr_deployment = u ''d'', pr_household = u ''h'', pr_actor = u ''a''\<rparr>"

definition example_issue :: "capability res" where
  "example_issue = issue example_auth example_issuer example_subject (u ''unix:7'') 10 300 None (u ''n'')"

lemma example_facts:
  "claims_ok example_issuer example_subject (u ''unix:7'') (chosen_nonce None (u ''n''))"
  "principal_init example_subject = Inr ()" "ascii (u ''unix:7'')" "chosen_nonce None (u ''n'') = u ''n''"
  by code_simp+

lemma example_env_facts:
  "length (ae_hmac example_auth key m) = 64 \<and> ascii (ae_hmac example_auth key m)"
  "mono (ae_round example_auth)" "ae_round example_auth x = x" "millis example_auth (of_nat n) = int (1000 * n)"
proof -
  have "of_nat n * 1000 = (of_int (int (1000 * n)) :: rat)"
    by simp
  then have "\<lfloor>of_nat n * 1000 :: rat\<rfloor> = int (1000 * n)"
    by (simp only: floor_of_int)
  then show "millis example_auth (of_nat n) = int (1000 * n)"
    by (simp add: example_auth_def millis_def trunc_def)
qed (simp_all add: example_auth_def ascii_def list_all_iff mono_def)

lemma example_issued: "\<exists>c. example_issue = Inr c \<and> length (cp_mac c) = 64 \<and> code_points (capability_token c) \<and> ascii (cp_mac c)
    \<and> length (capability_token c) \<le> 5000"
proof -
  have ms: "millis example_auth 10 = 10000" "millis example_auth 310 = 310000"
    using example_env_facts(4) [of 10] example_env_facts(4) [of 310] by simp_all
  have "\<exists>t. dumps (ae_json example_auth) claims_style
      (VDict (issue_claims example_auth example_issuer example_subject (u ''unix:7'') 10 300 (u ''n''))) = Inr t"
    by (simp add: dumps_def issue_claims_def int_text_def ms example_env_facts(3) Let_def)
      (simp add: nat_text.simps DIGIT_LIMIT_def example_auth_def example_env_def)
  then obtain t where t: "dumps (ae_json example_auth) claims_style
      (VDict (issue_claims example_auth example_issuer example_subject (u ''unix:7'') 10 300 (u ''n''))) = Inr t"
    by blast
  have wr: "writable True (VDict (issue_claims example_auth example_issuer example_subject (u ''unix:7'') 10 300 (u ''n'')))"
    using claims_writable example_facts(1,4) by simp
  have "utf8_len t \<le> 2400"
    using text_of_bound(1) [OF t [unfolded dumps_def] claims_style_ok(1) wr]
    by (simp add: issue_claims_def ms example_env_facts(3) example_issuer_def example_subject_def nat_text.simps)
  then have len: "length (b64 (utf8 t)) \<le> 4800"
    using b64_length [of "utf8 t"] by (simp add: utf8_length)
  have "encodable t"
    using claims_text(1) [OF t wr] by simp
  moreover have "encodable (b64 (utf8 t))" "code_points (b64 (utf8 t))"
    using b64_chars [of "utf8 t"] by (auto simp: encodable_def surrogate_def code_points_def list_all_iff)
  moreover have "code_points (ae_hmac example_auth key m)" for key m
    using example_env_facts(1) [of key m] by (auto simp: ascii_def code_points_def list_all_iff)
  ultimately show ?thesis
    using t len example_facts(4) example_env_facts(1)
    by (simp add: example_issue_def issue_def str_bytes_def mac_of_def Let_def capability_token_def)
qed

text \<open>
  C25. A token that is accepted and carries the code of an issued capability stands for exactly what was
  issued: the same principal, binding and nonce, on the channel it is bound to and inside the window. The
  code cannot be moved to other claims, and re-encoding the claims does not change what they say; the one
  way round it is that the messages of the two claims, the tag with their bytes, are different and have the
  same code under the key of the authority.
\<close>

theorem accepted_as_issued:
  assumes "issue env au p binding issued ttl nonce random = Inr c"
    and "claims_ok au p binding (chosen_nonce nonce random)" "principal_init p = Inr ()"
    and "verify env au token observed now = Inr ctx" "code_points token"
    and "capability_parse token = Inr c'" "cp_mac c' = cp_mac c"
  shows "ctx = \<lparr>ac_principal = p, ac_binding = binding, ac_nonce = VStr (chosen_nonce nonce random)\<rparr> \<and> observed = binding
      \<and> millis env issued \<le> millis env now \<and> millis env now \<le> millis env (ae_round env (issued + ttl))
    \<or> utf8 (cp_claims c') \<noteq> utf8 (cp_claims c)
      \<and> ae_hmac env (au_key au) (ascii_bytes ''svc-context-capability-v1'' @ utf8 (cp_claims c'))
        = ae_hmac env (au_key au) (ascii_bytes ''svc-context-capability-v1'' @ utf8 (cp_claims c))"
proof -
  note issued = issued_checked [OF assms(1-3)]
  obtain mac where mac: "mac_of env au (cp_claims c') = Inr mac" "cp_mac c' = mac"
      "claims_context env au (cp_claims c') observed now = Inr ctx"
    using assms(4,6) by (auto simp: verify_def result_simps compare_digest_def split: sum.splits if_splits)
  have same_code: "ae_hmac env (au_key au) (ascii_bytes ''svc-context-capability-v1'' @ utf8 (cp_claims c')) =
      ae_hmac env (au_key au) (ascii_bytes ''svc-context-capability-v1'' @ utf8 (cp_claims c))"
    using mac(1,2) issued(2) assms(7) by (auto simp: mac_of_def result_simps str_bytes_def split: if_splits)
  have "code_points (cp_claims c')"
    using parse_token [OF assms(6)] assms(5) by (simp add: capability_token_def)
  moreover have "code_points (cp_claims c)"
    using issued(3) by (auto simp: code_points_def list_all_iff)
  ultimately consider "cp_claims c' = cp_claims c" | "utf8 (cp_claims c') \<noteq> utf8 (cp_claims c)"
    using utf8_inject by metis
  then show ?thesis
  proof cases
    case 1
    then show ?thesis
      using mac(3) issued(1) by (auto split: if_splits)
  qed (use same_code in simp)
qed

theorem accepted_as_issued_witness:
  "\<exists>c ctx. example_issue = Inr c \<and> verify example_auth example_issuer (capability_token c) (u ''unix:7'') 20 = Inr ctx
    \<and> ctx = \<lparr>ac_principal = example_subject, ac_binding = u ''unix:7'', ac_nonce = vs ''n''\<rparr>"
proof -
  obtain c where c: "example_issue = Inr c" "length (cp_mac c) = 64" "code_points (capability_token c)" "ascii (cp_mac c)"
    using example_issued by blast
  have ms: "millis example_auth 10 = 10000" "millis example_auth 310 = 310000" "millis example_auth 20 = 20000"
    using example_env_facts(4) [of 10] example_env_facts(4) [of 20] example_env_facts(4) [of 310] by simp_all
  note issued = issued_checked [OF c(1) [unfolded example_issue_def] example_facts(1,2)]
  have parse: "capability_parse (capability_token c) = Inr c"
    by (rule parse_issued [OF _ issued(4) c(2)]) (use issued(3) in \<open>auto simp: list_all_iff\<close>)
  then have "\<exists>ctx. verify example_auth example_issuer (capability_token c) (u ''unix:7'') 20 = Inr ctx"
    using c(4) example_facts(3) by (simp add: verify_def issued(1,2) raises_def compare_digest_def ms example_env_facts(3))
  then obtain ctx where ctx: "verify example_auth example_issuer (capability_token c) (u ''unix:7'') 20 = Inr ctx"
    by blast
  show ?thesis
    using accepted_as_issued [OF c(1) [unfolded example_issue_def] example_facts(1,2) ctx c(3) parse refl] c(1) ctx example_facts(4)
    by auto
qed

text \<open>
  What the code does with a token whose code has a character outside ASCII: the comparison raises a
  TypeError, and because it stands before the \<^verbatim>\<open>try\<close>, the caller gets this TypeError and not the
  refusal of the service, for every authority and every channel.
\<close>

lemma foreign_mac_escapes:
  assumes "46 \<notin> set claims" "claims \<noteq> []" "encodable claims" "length mac = 64" "\<not> ascii mac"
  shows "verify env au (claims @ [46] @ mac) observed now = Inl (Raises TypeErr)"
proof -
  have "capability_parse (claims @ [46] @ mac) = Inr \<lparr>cp_claims = claims, cp_mac = mac\<rparr>"
    using parse_issued [of "\<lparr>cp_claims = claims, cp_mac = mac\<rparr>"] assms by (simp add: capability_token_def)
  then show ?thesis
    using assms(3,5) by (simp add: verify_def mac_of_def str_bytes_def compare_digest_def raises_def)
qed

end
