(* ===== verification/Service.thy ===== *)
theory Service
  imports Auth
begin

text \<open>
  \<^verbatim>\<open>service.py\<close> and \<^verbatim>\<open>client.py\<close>: the five methods of the service over the public API of the harness, which is a
  parameter: what its constructors and calls answer, or raise. The identities of a request are projected, the
  errors of the harness are translated, and a command is summarised by one outcome.
\<close>

section \<open>The harness\<close>

datatype command_code =
    CC_NOT_FOUND | CC_INTENT_CONFLICT | CC_RUN_MODE_CONFLICT | CC_NAMESPACE_KEY_CONFLICT | CC_CANCEL_FENCE
  | CC_PAYLOAD_TOO_LARGE | CC_TRANSIENT_FAILURE | CC_RETRY_EXHAUSTED | CC_PERMANENT_FAILURE
  | CC_UNNAMED ustr \<comment> \<open>a member that the source does not name\<close>

datatype herr =
    Command_error command_code ustr \<comment> \<open>with the value of the code\<close>
  | Other_error serr

type_synonym 'a hres = "herr + 'a"

record harness_receipt =
  hr_command :: ustr
  hr_run :: ustr
  hr_accept_seq :: int
  hr_state :: ustr
  hr_version :: int
  hr_kind :: ustr

record harness_output =
  ho_memory :: "ustr option"
  ho_content :: pyval

record harness_snapshot =
  hs_receipt :: harness_receipt
  hs_output :: "harness_output option"
  hs_output_state :: ustr
  hs_error :: "ustr option"

record start_intent =
  si_namespace :: ustr
  si_key_id :: ustr
  si_command :: ustr
  si_run :: ustr
  si_request :: ustr
  si_turn :: ustr
  si_principal :: principal
  si_session :: ustr
  si_message :: ustr
  si_profile :: ustr

record continue_intent =
  ci_namespace :: ustr
  ci_key_id :: ustr
  ci_command :: ustr
  ci_run :: ustr
  ci_continuation :: ustr
  ci_turn :: ustr
  ci_message :: ustr

record cancel_intent =
  ni_namespace :: ustr
  ni_key_id :: ustr
  ni_command :: ustr
  ni_run :: ustr

record harness =
  hn_turn_input :: "principal \<Rightarrow> ustr \<Rightarrow> ustr \<Rightarrow> unit hres" \<comment> \<open>the identity and the input of a turn are constructed\<close>
  hn_start_intent :: "start_intent \<Rightarrow> unit hres" \<comment> \<open>the intent is constructed\<close>
  hn_continue_intent :: "continue_intent \<Rightarrow> unit hres"
  hn_cancel_intent :: "cancel_intent \<Rightarrow> unit hres"
  hn_submit_start :: "start_intent \<Rightarrow> harness_receipt hres"
  hn_submit_continue :: "continue_intent \<Rightarrow> harness_receipt hres"
  hn_submit_cancel :: "cancel_intent \<Rightarrow> harness_receipt hres"
  hn_get_command :: "ustr \<Rightarrow> harness_snapshot hres"
  hn_query :: "ustr \<Rightarrow> ustr option hres" \<comment> \<open>the state of a run, if there is one\<close>
  hn_health :: "(bool \<times> ustr) hres"

definition other :: "'a sres \<Rightarrow> 'a hres" where
  "other r = (case r of Inl e \<Rightarrow> Inl (Other_error e) | Inr a \<Rightarrow> Inr a)"

lemma other_Inr [simp]: "other r = Inr a \<longleftrightarrow> r = Inr a"
  by (cases r) (simp_all add: other_def)

section \<open>Translation of errors and states\<close>

fun mapped_code :: "command_code \<Rightarrow> service_code option" where
  "mapped_code CC_NOT_FOUND = Some SE_NOT_FOUND"
| "mapped_code CC_INTENT_CONFLICT = Some SE_CONFLICT"
| "mapped_code CC_RUN_MODE_CONFLICT = Some SE_CONFLICT"
| "mapped_code CC_NAMESPACE_KEY_CONFLICT = Some SE_CONFLICT"
| "mapped_code CC_CANCEL_FENCE = Some SE_CONFLICT"
| "mapped_code CC_PAYLOAD_TOO_LARGE = Some SE_PAYLOAD_TOO_LARGE"
| "mapped_code CC_TRANSIENT_FAILURE = Some SE_UNAVAILABLE"
| "mapped_code CC_RETRY_EXHAUSTED = Some SE_UNAVAILABLE"
| "mapped_code CC_PERMANENT_FAILURE = Some SE_INVALID_REQUEST"
| "mapped_code (CC_UNNAMED _) = None"

definition mapped_command_error :: "command_code \<Rightarrow> ustr \<Rightarrow> serr" where
  \<comment> \<open>an empty value of the code would leave the value of the service's code as the message\<close>
  "mapped_command_error c v =
    (case mapped_code c of
       Some s \<Rightarrow> if v = [] then service_error s else Service_err s v
     | None \<Rightarrow> Raises KeyErr)"

definition mapped :: "'a hres \<Rightarrow> 'a sres" where
  \<comment> \<open>\<^verbatim>\<open>_call\<close> and the other places where a CommandError is caught\<close>
  "mapped r =
    (case r of
       Inr a \<Rightarrow> Inr a
     | Inl (Command_error c v) \<Rightarrow> Inl (mapped_command_error c v)
     | Inl (Other_error e) \<Rightarrow> Inl e)"

lemma mapped_Inr [simp]: "mapped r = Inr a \<longleftrightarrow> r = Inr a"
  by (simp add: mapped_def split: sum.splits herr.splits)

lemma mapped_simps [simp]:
  "mapped (Inr a) = Inr a" "mapped (Inl (Command_error c v)) = Inl (mapped_command_error c v)"
  "mapped (Inl (Other_error e)) = Inl e"
  by (simp_all add: mapped_def)

definition unmapped :: "'a hres \<Rightarrow> 'a sres" where
  \<comment> \<open>a CommandError that nothing catches\<close>
  "unmapped r =
    (case r of
       Inr a \<Rightarrow> Inr a
     | Inl (Command_error c v) \<Rightarrow> Inl (Raises (OtherErr ''CommandError''))
     | Inl (Other_error e) \<Rightarrow> Inl e)"

definition receipt_of :: "harness_receipt \<Rightarrow> command_receipt sres" where
  "receipt_of h =
    andthen (enum_of command_states (hr_state h)) (\<lambda>st.
    andthen (enum_of command_kinds (hr_kind h)) (\<lambda>k.
      Inr \<lparr>rc_command = hr_command h, rc_run = hr_run h, rc_accept_seq = hr_accept_seq h, rc_state = st,
           rc_version = hr_version h, rc_kind = k\<rparr>))"

definition closed_outcome :: "command_state \<Rightarrow> output_state \<Rightarrow> run_state option \<Rightarrow> command_kind option \<Rightarrow> command_outcome" where
  "closed_outcome cs os rs k =
    (if cs \<in> {CS_ACCEPTED, CS_CONTEXT_CALL_INTENT, CS_CONTEXT_READY} then CO_PENDING
     else if os = OS_UNKNOWN then CO_PROTOCOL_ERROR
     else if os = OS_PRESENT then (if rs = Some RUN_COMPLETED then CO_COMPLETED else CO_PROTOCOL_ERROR)
     else if os = OS_PENDING then
       (if rs \<in> {Some RUN_COMPLETED, Some RUN_FAILED, Some RUN_CANCELLED} then CO_PROTOCOL_ERROR else CO_PENDING)
     else if k = Some CK_CANCEL \<and> cs = CS_APPLIED \<and> os = OS_ABSENT \<and> rs = None then CO_CANCELLED
     else if k \<in> {Some CK_START, Some CK_CONTINUE} \<and> cs = CS_APPLIED \<and> os = OS_ABSENT \<and> rs = None then CO_PROTOCOL_ERROR
     else if rs = Some RUN_FAILED \<or> cs = CS_REJECTED then CO_FAILED
     else if rs = Some RUN_CANCELLED \<or> cs = CS_CANCELLED then CO_CANCELLED
     else if rs = Some RUN_COMPLETED then CO_COMPLETED
     else CO_PENDING)"

definition output_text :: "harness_snapshot \<Rightarrow> ustr option" where
  "output_text h =
    (case hs_output h of
       None \<Rightarrow> None
     | Some o' \<Rightarrow>
         (case ho_memory o' of
            Some t \<Rightarrow> Some t
          | None \<Rightarrow> (case ho_content o' of VStr t \<Rightarrow> Some t | _ \<Rightarrow> None)))"

definition adapter_get :: "harness \<Rightarrow> ustr \<Rightarrow> command_snapshot hres" where
  \<comment> \<open>\<^verbatim>\<open>HarnessAdapter.get_command\<close>\<close>
  "adapter_get hn command =
    andthen (hn_get_command hn command) (\<lambda>h.
    andthen (hn_query hn (hr_run (hs_receipt h))) (\<lambda>run.
    other
      (andthen (case run of None \<Rightarrow> Inr None | Some r \<Rightarrow> andthen (enum_of run_states r) (\<lambda>x. Inr (Some x))) (\<lambda>rs.
       andthen (enum_of output_states (hs_output_state h)) (\<lambda>os.
       andthen (enum_of command_states (hr_state (hs_receipt h))) (\<lambda>cs.
       andthen (receipt_of (hs_receipt h)) (\<lambda>rc.
       andthen (enum_of command_kinds (hr_kind (hs_receipt h))) (\<lambda>k.
         snapshot_init \<lparr>sp_receipt = rc, sp_output_state = os, sp_output_text = output_text h,
           sp_error_code = hs_error h, sp_run_state = rs, sp_outcome = closed_outcome cs os rs (Some k)\<rparr>))))))))"

definition adapter_receipt :: "harness_receipt hres \<Rightarrow> command_receipt hres" where
  \<comment> \<open>\<^verbatim>\<open>submit_start\<close>, \<^verbatim>\<open>submit_continue\<close> and \<^verbatim>\<open>submit_cancel\<close> of the adapter\<close>
  "adapter_receipt r = andthen r (\<lambda>h. other (receipt_of h))"

section \<open>The service\<close>

record service =
  sv_hmac :: "bytes \<Rightarrow> bytes \<Rightarrow> ustr"
  sv_projector :: projector
  sv_harness :: harness

definition service_id :: "service \<Rightarrow> string \<Rightarrow> principal \<Rightarrow> ustr \<Rightarrow> ustr sres" where
  "service_id sv kind p external = project (sv_hmac sv) (sv_projector sv) (u kind) p external"

definition service_health :: "service \<Rightarrow> (bool \<times> ustr) sres" where
  "service_health sv = unmapped (hn_health (sv_harness sv))"

definition service_start :: "service \<Rightarrow> start_run \<Rightarrow> principal \<Rightarrow> command_receipt sres" where
  "service_start sv r p =
    andthen (service_id sv ''session'' p (sr_session r)) (\<lambda>session.
    andthen (service_id sv ''run'' p (sr_run r)) (\<lambda>run.
    andthen (service_id sv ''command'' p (sr_command r)) (\<lambda>command.
    andthen (service_id sv ''turn'' p (sr_command r)) (\<lambda>turn.
    andthen (unmapped (hn_turn_input (sv_harness sv) p session (sr_message r))) (\<lambda>_.
    andthen (service_id sv ''request'' p (sr_command r)) (\<lambda>request.
    let intent = \<lparr>si_namespace = pj_namespace (sv_projector sv), si_key_id = pj_key_id (sv_projector sv),
          si_command = command, si_run = run, si_request = request, si_turn = turn, si_principal = p,
          si_session = session, si_message = sr_message r, si_profile = sr_profile r\<rparr>
    in andthen (mapped (hn_start_intent (sv_harness sv) intent)) (\<lambda>_.
         mapped (adapter_receipt (hn_submit_start (sv_harness sv) intent)))))))))"

definition service_continue :: "service \<Rightarrow> continue_request \<Rightarrow> principal \<Rightarrow> command_receipt sres" where
  "service_continue sv r p =
    andthen (service_id sv ''command'' p (cr_command r)) (\<lambda>command.
    andthen (service_id sv ''run'' p (cr_run r)) (\<lambda>run.
    andthen (service_id sv ''continuation'' p (cr_continuation r)) (\<lambda>continuation.
    andthen (service_id sv ''turn'' p (cr_command r)) (\<lambda>turn.
    let intent = \<lparr>ci_namespace = pj_namespace (sv_projector sv), ci_key_id = pj_key_id (sv_projector sv),
          ci_command = command, ci_run = run, ci_continuation = continuation, ci_turn = turn, ci_message = cr_message r\<rparr>
    in andthen (mapped (hn_continue_intent (sv_harness sv) intent)) (\<lambda>_.
         mapped (adapter_receipt (hn_submit_continue (sv_harness sv) intent)))))))"

definition service_get :: "service \<Rightarrow> ustr \<Rightarrow> principal \<Rightarrow> command_snapshot sres" where
  "service_get sv external p =
    andthen (service_id sv ''command'' p external) (\<lambda>command. mapped (adapter_get (sv_harness sv) command))"

definition service_cancel :: "service \<Rightarrow> cancel_request \<Rightarrow> principal \<Rightarrow> command_receipt sres" where
  "service_cancel sv r p =
    andthen (service_id sv ''command'' p (nr_command r)) (\<lambda>command.
    andthen (service_id sv ''run'' p (nr_run r)) (\<lambda>run.
    let intent = \<lparr>ni_namespace = pj_namespace (sv_projector sv), ni_key_id = pj_key_id (sv_projector sv),
          ni_command = command, ni_run = run\<rparr>
    in andthen (unmapped (hn_cancel_intent (sv_harness sv) intent)) (\<lambda>_.
         mapped (adapter_receipt (hn_submit_cancel (sv_harness sv) intent)))))"

end
