(* ===== verification/Unix_Service.thy ===== *)
theory Unix_Service
  imports Service
begin

text \<open>
  \<^verbatim>\<open>transports/unix.py\<close>: the protocol of the service over a local socket. The server greets a connection with
  a capability for its peer, verifies every request against the connection and dispatches it to the service;
  the client asks one question per connection. A call over the socket is shown to be the call of the
  service. Sockets, file modes and time limits are the environment: what a read and a write answer is an
  argument.
\<close>

section \<open>Requests and results as JSON\<close>

definition text_arg :: "dict \<Rightarrow> string \<Rightarrow> ustr sres" where
  \<comment> \<open>the first check of \<^verbatim>\<open>_text\<close> for an argument of the constructor\<close>
  "text_arg d k = (case map_of d (u k) of Some (VStr s) \<Rightarrow> Inr s | _ \<Rightarrow> Inl (Raises (ValueErr ''is required'')))"

definition arguments_ok :: "dict \<Rightarrow> string list \<Rightarrow> string list \<Rightarrow> unit sres" where
  \<comment> \<open>binding \<^verbatim>\<open>**payload\<close> to parameters, some of them optional\<close>
  "arguments_ok d required optional =
    (if list_all (\<lambda>k. k \<in> set (map u (required @ optional))) (map fst d) \<and> list_all (\<lambda>k. has_key d (u k)) required
     then Inr () else Inl (Raises TypeErr))"

fun checked_args :: "dict \<Rightarrow> (string \<times> nat) list \<Rightarrow> ustr list sres" where
  \<comment> \<open>\<^verbatim>\<open>_text\<close> of the arguments in turn, with their limits\<close>
  "checked_args d [] = Inr []"
| "checked_args d ((k, m) # ks) =
    andthen (text_arg d k) (\<lambda>s. andthen (service_text s m) (\<lambda>_. andthen (checked_args d ks) (\<lambda>ss. Inr (s # ss))))"

definition start_of_payload :: "dict \<Rightarrow> start_run sres" where
  \<comment> \<open>\<^verbatim>\<open>StartRequest(**payload)\<close>\<close>
  "start_of_payload d0 =
    andthen (arguments_ok d0 [''external_session_id'', ''external_run_id'', ''external_command_id'', ''message'']
        [''profile_key'']) (\<lambda>_.
    let d = d0 @ [(u ''profile_key'', vs ''agent.general'')]
    in andthen (checked_args d [(''external_session_id'', 512), (''external_run_id'', 512), (''external_command_id'', 512),
           (''message'', MESSAGE_MAX_BYTES), (''profile_key'', 512)]) (\<lambda>a.
         Inr \<lparr>sr_session = a ! 0, sr_run = a ! 1, sr_command = a ! 2, sr_message = a ! 3, sr_profile = a ! 4\<rparr>))"

definition continue_of_payload :: "dict \<Rightarrow> continue_request sres" where
  "continue_of_payload d =
    andthen (arguments_ok d [''external_session_id'', ''external_run_id'', ''external_command_id'',
        ''external_continuation_id'', ''message''] []) (\<lambda>_.
    andthen (checked_args d [(''external_session_id'', 512), (''external_run_id'', 512), (''external_command_id'', 512),
        (''external_continuation_id'', 512), (''message'', MESSAGE_MAX_BYTES)]) (\<lambda>a.
      Inr \<lparr>cr_session = a ! 0, cr_run = a ! 1, cr_command = a ! 2, cr_continuation = a ! 3, cr_message = a ! 4\<rparr>))"

definition get_of_payload :: "dict \<Rightarrow> ustr sres" where
  "get_of_payload d =
    andthen (arguments_ok d [''external_command_id''] []) (\<lambda>_.
    andthen (checked_args d [(''external_command_id'', 512)]) (\<lambda>a. Inr (a ! 0)))"

definition cancel_of_payload :: "dict \<Rightarrow> cancel_request sres" where
  "cancel_of_payload d =
    andthen (arguments_ok d [''external_run_id'', ''external_command_id''] []) (\<lambda>_.
    andthen (checked_args d [(''external_run_id'', 512), (''external_command_id'', 512)]) (\<lambda>a.
      Inr \<lparr>nr_run = a ! 0, nr_command = a ! 1\<rparr>))"

fun command_state_name :: "command_state \<Rightarrow> string" where
  "command_state_name CS_ACCEPTED = ''accepted''"
| "command_state_name CS_CONTEXT_CALL_INTENT = ''context_call_intent''"
| "command_state_name CS_CONTEXT_READY = ''context_ready''"
| "command_state_name CS_APPLIED = ''applied''"
| "command_state_name CS_REJECTED = ''rejected''"
| "command_state_name CS_CANCELLED = ''cancelled''"

fun command_kind_name :: "command_kind \<Rightarrow> string" where
  "command_kind_name CK_START = ''start''"
| "command_kind_name CK_CONTINUE = ''continue''"
| "command_kind_name CK_CANCEL = ''cancel''"

fun output_state_name :: "output_state \<Rightarrow> string" where
  "output_state_name OS_PENDING = ''pending''"
| "output_state_name OS_PRESENT = ''present''"
| "output_state_name OS_ABSENT = ''absent''"
| "output_state_name OS_UNKNOWN = ''unknown''"

fun run_state_name :: "run_state \<Rightarrow> string" where
  "run_state_name RUN_CREATED = ''created''"
| "run_state_name RUN_ADMISSION_PENDING = ''admission_pending''"
| "run_state_name RUN_QUEUED = ''queued''"
| "run_state_name RUN_RUNNING = ''running''"
| "run_state_name RUN_WAITING = ''waiting''"
| "run_state_name RUN_CANCEL_REQUESTED = ''cancel_requested''"
| "run_state_name RUN_COMPLETED = ''completed''"
| "run_state_name RUN_FAILED = ''failed''"
| "run_state_name RUN_CANCELLED = ''cancelled''"

fun outcome_name :: "command_outcome \<Rightarrow> string" where
  "outcome_name CO_PENDING = ''pending''"
| "outcome_name CO_COMPLETED = ''completed''"
| "outcome_name CO_FAILED = ''failed''"
| "outcome_name CO_CANCELLED = ''cancelled''"
| "outcome_name CO_PROTOCOL_ERROR = ''protocol_error''"

definition command_outcomes :: "(string \<times> command_outcome) list" where
  "command_outcomes = [(''pending'', CO_PENDING), (''completed'', CO_COMPLETED), (''failed'', CO_FAILED),
     (''cancelled'', CO_CANCELLED), (''protocol_error'', CO_PROTOCOL_ERROR)]"

definition receipt_json :: "command_receipt \<Rightarrow> dict" where
  "receipt_json r =
    [(u ''command_id'', VStr (rc_command r)), (u ''run_id'', VStr (rc_run r)), (u ''accept_seq'', VInt (rc_accept_seq r)),
     (u ''state'', vs (command_state_name (rc_state r))), (u ''version'', VInt (rc_version r)),
     (u ''kind'', vs (command_kind_name (rc_kind r)))]"

definition opt_text :: "ustr option \<Rightarrow> pyval" where
  "opt_text t = (case t of None \<Rightarrow> VNone | Some s \<Rightarrow> VStr s)"

definition snapshot_json :: "command_snapshot \<Rightarrow> dict" where
  "snapshot_json s =
    [(u ''receipt'', VDict (receipt_json (sp_receipt s))), (u ''output_state'', vs (output_state_name (sp_output_state s))),
     (u ''output_text'', opt_text (sp_output_text s)), (u ''error_code'', opt_text (sp_error_code s)),
     (u ''run_state'', (case sp_run_state s of None \<Rightarrow> VNone | Some r \<Rightarrow> vs (run_state_name r))),
     (u ''outcome'', vs (outcome_name (sp_outcome s)))]"

definition health_json :: "bool \<times> ustr \<Rightarrow> dict" where
  "health_json h = [(u ''serving'', VBool (fst h)), (u ''detail'', VStr (snd h))]"

section \<open>The server\<close>

definition dispatch :: "service \<Rightarrow> dict \<Rightarrow> principal \<Rightarrow> dict sres" where
  \<comment> \<open>\<^verbatim>\<open>_dispatch\<close>, with the principal of the context\<close>
  "dispatch sv request p =
    (case (dget request (u ''request_id''), dget request (u ''op''), dget request (u ''payload'')) of
       (VStr request_id, VStr op, VDict payload) \<Rightarrow>
         andthen
           (if op = u ''health'' then andthen (service_health sv) (\<lambda>h. Inr (health_json h))
            else if op = u ''start'' then andthen (start_of_payload payload) (\<lambda>r. andthen (service_start sv r p) (\<lambda>x. Inr (receipt_json x)))
            else if op = u ''continue'' then andthen (continue_of_payload payload) (\<lambda>r. andthen (service_continue sv r p) (\<lambda>x. Inr (receipt_json x)))
            else if op = u ''get'' then andthen (get_of_payload payload) (\<lambda>r. andthen (service_get sv r p) (\<lambda>x. Inr (snapshot_json x)))
            else if op = u ''cancel'' then andthen (cancel_of_payload payload) (\<lambda>r. andthen (service_cancel sv r p) (\<lambda>x. Inr (receipt_json x)))
            else Inl (service_error SE_INVALID_REQUEST))
           (\<lambda>result. Inr [(u ''ok'', VBool True), (u ''request_id'', VStr request_id), (u ''result'', VDict result)])
     | _ \<Rightarrow> Inl (service_error SE_INVALID_REQUEST))"

record unix_server =
  us_auth :: auth_env
  us_authority :: authority
  us_service :: service
  us_owner :: nat
  us_principal_for :: "nat \<Rightarrow> principal sres"

definition TIMEOUT_ERROR :: exn where "TIMEOUT_ERROR = OtherErr ''TimeoutError''"
definition CONNECTION_ERROR :: exn where "CONNECTION_ERROR = OtherErr ''ConnectionError''"

definition error_reply :: "serr \<Rightarrow> service_code option" where
  \<comment> \<open>the \<^verbatim>\<open>except\<close> clauses of \<^verbatim>\<open>_handle\<close>: the code of the reply, if there is one\<close>
  "error_reply e =
    (case e of
       Service_err c _ \<Rightarrow> Some c
     | Raises x \<Rightarrow>
         if x = OtherErr ''IncompleteReadError'' \<or> x = CONNECTION_ERROR \<or> x = CancelledErr then None
         else if x = TIMEOUT_ERROR then Some SE_TIMEOUT
         else if x = TypeErr \<or> is_value_error x then Some SE_INVALID_REQUEST
         else Some SE_INTERNAL)"

definition error_json :: "service_code \<Rightarrow> dict" where
  "error_json c = [(u ''ok'', VBool False), (u ''error'', vs (service_code_name c))]"

record turn =
  tn_request :: "dict sres" \<comment> \<open>what reading a frame gave\<close>
  tn_now :: rat
  tn_drained :: "exn option" \<comment> \<open>how waiting for the written reply ended\<close>

definition send :: "unix_server \<Rightarrow> dict \<Rightarrow> exn option \<Rightarrow> unit sres \<times> dict list" where
  \<comment> \<open>\<^verbatim>\<open>_send\<close>: the exception, if any, and what was written\<close>
  "send us v drained =
    (case encode_frame (ae_json (us_auth us)) v of
       Inl e \<Rightarrow> (Inl e, [])
     | Inr _ \<Rightarrow> (case drained of None \<Rightarrow> (Inr (), [v]) | Some x \<Rightarrow> (Inl (Raises x), [v])))"

definition request_context :: "unix_server \<Rightarrow> ustr \<Rightarrow> principal \<Rightarrow> turn \<Rightarrow> (dict \<times> auth_context) sres" where
  \<comment> \<open>a request and its verified context\<close>
  "request_context us binding p t =
    andthen (tn_request t) (\<lambda>request.
    case dget request (u ''capability'') of
      VStr token \<Rightarrow>
        andthen (verify (us_auth us) (us_authority us) token binding (tn_now t)) (\<lambda>ctx.
          if ac_principal ctx \<noteq> p then Inl (service_error SE_FORBIDDEN) else Inr (request, ctx))
    | _ \<Rightarrow> Inl (service_error SE_UNAUTHENTICATED))"

record served =
  sd_written :: "dict list" \<comment> \<open>the objects written to the client\<close>
  sd_dispatched :: "(dict \<times> auth_context) list" \<comment> \<open>the requests given to the service, with their contexts\<close>

definition with_error :: "serr \<Rightarrow> served \<Rightarrow> served" where
  \<comment> \<open>\<^verbatim>\<open>_safe_error\<close>, after which the connection is closed\<close>
  "with_error e sd = (case error_reply e of None \<Rightarrow> sd | Some c \<Rightarrow> sd\<lparr>sd_written := sd_written sd @ [error_json c]\<rparr>)"

fun serve_turns :: "unix_server \<Rightarrow> ustr \<Rightarrow> principal \<Rightarrow> turn list \<Rightarrow> served \<Rightarrow> served" where
  \<comment> \<open>the \<^verbatim>\<open>while\<close> loop until the reader is at its end\<close>
  "serve_turns us binding p [] sd = sd"
| "serve_turns us binding p (t # ts) sd =
    (case request_context us binding p t of
       Inl e \<Rightarrow> with_error e sd
     | Inr (request, ctx) \<Rightarrow>
         (let sd1 = sd\<lparr>sd_dispatched := sd_dispatched sd @ [(request, ctx)]\<rparr>
          in case dispatch (us_service us) request (ac_principal ctx) of
               Inl e \<Rightarrow> with_error e sd1
             | Inr response \<Rightarrow>
                 (case send us response (tn_drained t) of
                    (Inl e, w) \<Rightarrow> with_error e (sd1\<lparr>sd_written := sd_written sd1 @ w\<rparr>)
                  | (Inr _, w) \<Rightarrow> serve_turns us binding p ts (sd1\<lparr>sd_written := sd_written sd1 @ w\<rparr>))))"

definition hello_json :: "ustr \<Rightarrow> capability \<Rightarrow> dict" where
  "hello_json binding c =
    [(u ''type'', vs ''hello''), (u ''binding'', VStr binding), (u ''capability'', VStr (capability_token c))]"

definition handle :: "unix_server \<Rightarrow> nat \<Rightarrow> ustr \<Rightarrow> ustr \<Rightarrow> rat \<Rightarrow> exn option \<Rightarrow> turn list \<Rightarrow> served" where
  \<comment> \<open>\<^verbatim>\<open>_handle\<close> for a peer, with its random binding and nonce and the time of the greeting\<close>
  "handle us peer binding nonce now drained ts =
    (let none = \<lparr>sd_written = [], sd_dispatched = []\<rparr>
     in if peer \<noteq> us_owner us then with_error (service_error SE_FORBIDDEN) none
        else
          (case us_principal_for us peer of
             Inl e \<Rightarrow> with_error e none
           | Inr p \<Rightarrow>
               (case issue (us_auth us) (us_authority us) p binding now 300 None nonce of
                  Inl e \<Rightarrow> with_error (Raises e) none
                | Inr c \<Rightarrow>
                    (case send us (hello_json binding c) drained of
                       (Inl e, w) \<Rightarrow> with_error e (none\<lparr>sd_written := w\<rparr>)
                     | (Inr _, w) \<Rightarrow> serve_turns us binding p ts (none\<lparr>sd_written := w\<rparr>)))))"

section \<open>The client\<close>

record client_env =
  ce_str :: "pyval \<Rightarrow> ustr" \<comment> \<open>\<^verbatim>\<open>str\<close> of a value that is no text\<close>
  ce_int :: "pyval \<Rightarrow> int res" \<comment> \<open>\<^verbatim>\<open>int\<close> of a value that is no integer\<close>

definition str_of :: "client_env \<Rightarrow> pyval \<Rightarrow> ustr" where
  "str_of ce v = (case v of VStr s \<Rightarrow> s | _ \<Rightarrow> ce_str ce v)"

definition int_of :: "client_env \<Rightarrow> pyval \<Rightarrow> int sres" where
  "int_of ce v = (case v of VInt i \<Rightarrow> Inr i | _ \<Rightarrow> raises (ce_int ce v))"

definition value_at :: "dict \<Rightarrow> string \<Rightarrow> pyval sres" where
  \<comment> \<open>\<^verbatim>\<open>value[key]\<close>\<close>
  "value_at d k = (case map_of d (u k) of Some v \<Rightarrow> Inr v | None \<Rightarrow> Inl (Raises KeyErr))"

definition object_of :: "pyval \<Rightarrow> dict sres" where
  "object_of v = (case v of VDict d \<Rightarrow> Inr d | _ \<Rightarrow> Inl (service_error SE_INVALID_REQUEST))"

definition client_receipt :: "client_env \<Rightarrow> dict \<Rightarrow> command_receipt sres" where
  "client_receipt ce d =
    andthen (value_at d ''command_id'') (\<lambda>c.
    andthen (value_at d ''run_id'') (\<lambda>r.
    andthen (andthen (value_at d ''accept_seq'') (int_of ce)) (\<lambda>a.
    andthen (andthen (value_at d ''state'') (\<lambda>v. enum_of command_states (str_of ce v))) (\<lambda>st.
    andthen (andthen (value_at d ''version'') (int_of ce)) (\<lambda>n.
    andthen (andthen (value_at d ''kind'') (\<lambda>v. enum_of command_kinds (str_of ce v))) (\<lambda>k.
      Inr \<lparr>rc_command = str_of ce c, rc_run = str_of ce r, rc_accept_seq = a, rc_state = st, rc_version = n, rc_kind = k\<rparr>))))))"

record remote_snapshot =
  rm_receipt :: command_receipt
  rm_output_state :: output_state
  rm_output_text :: pyval \<comment> \<open>not checked to be a text\<close>
  rm_error_code :: pyval
  rm_run_state :: "run_state option"
  rm_outcome :: command_outcome

definition client_snapshot :: "client_env \<Rightarrow> dict \<Rightarrow> remote_snapshot sres" where
  \<comment> \<open>\<^verbatim>\<open>UnixServiceClient.get\<close> on the result\<close>
  "client_snapshot ce d =
    andthen (andthen (value_at d ''receipt'') (\<lambda>v. andthen (object_of v) (client_receipt ce))) (\<lambda>rc.
    andthen (value_at d ''output_state'') (\<lambda>o'.
    andthen (if dget d (u ''run_state'') = VNone then Inr None
       else andthen (enum_of run_states (str_of ce (dget d (u ''run_state'')))) (\<lambda>x. Inr (Some x))) (\<lambda>rs.
    andthen (andthen (value_at d ''outcome'') (\<lambda>v. enum_of command_outcomes (str_of ce v))) (\<lambda>oc.
    andthen (case o' of VStr t \<Rightarrow> enum_of output_states t | _ \<Rightarrow> Inl (Raises (ValueErr ''not a valid member''))) (\<lambda>os.
      if os = OS_PRESENT \<and> dget d (u ''output_text'') = VNone then Inl (Raises (ValueErr ''present output requires text''))
      else if os \<noteq> OS_PRESENT \<and> dget d (u ''output_text'') \<noteq> VNone
      then Inl (Raises (ValueErr ''only present output may contain text''))
      else Inr \<lparr>rm_receipt = rc, rm_output_state = os, rm_output_text = dget d (u ''output_text''),
             rm_error_code = dget d (u ''error_code''), rm_run_state = rs, rm_outcome = oc\<rparr>)))))"

definition client_health :: "client_env \<Rightarrow> dict \<Rightarrow> (bool \<times> ustr) sres" where
  "client_health ce d =
    andthen (value_at d ''serving'') (\<lambda>v. andthen (value_at d ''detail'') (\<lambda>w. Inr (truthy v, str_of ce w)))"

definition rpc_request :: "dict \<Rightarrow> ustr \<Rightarrow> ustr \<Rightarrow> dict \<Rightarrow> dict sres" where
  \<comment> \<open>the request for the greeting of the server\<close>
  "rpc_request hello request_id op payload =
    (case (dget hello (u ''type''), dget hello (u ''capability'')) of
       (VStr t, VStr capability) \<Rightarrow>
         if t = u ''hello''
         then Inr [(u ''request_id'', VStr request_id), (u ''op'', VStr op), (u ''payload'', VDict payload),
                (u ''capability'', VStr capability)]
         else Inl (service_error SE_UNAUTHENTICATED)
     | _ \<Rightarrow> Inl (service_error SE_UNAUTHENTICATED))"

definition service_code_of :: "ustr \<Rightarrow> service_code sres" where
  "service_code_of s =
    enum_of (map (\<lambda>c. (service_code_name c, c)) [SE_INVALID_REQUEST, SE_UNAUTHENTICATED, SE_FORBIDDEN, SE_NOT_FOUND,
      SE_CONFLICT, SE_PAYLOAD_TOO_LARGE, SE_UNAVAILABLE, SE_TIMEOUT, SE_INTERNAL]) s"

definition rpc_result :: "ustr \<Rightarrow> dict \<Rightarrow> dict sres" where
  \<comment> \<open>the result of a response\<close>
  "rpc_result request_id response =
    (if dget response (u ''ok'') \<noteq> VBool True then
       andthen (case dget response (u ''error'') of VStr c \<Rightarrow> service_code_of c | _ \<Rightarrow> Inr SE_INTERNAL)
         (\<lambda>c. Inl (service_error c))
     else if dget response (u ''request_id'') \<noteq> VStr request_id then Inl (service_error SE_INVALID_REQUEST)
     else object_of (dget response (u ''result'')))"

definition rpc_error :: "serr \<Rightarrow> serr" where
  \<comment> \<open>the \<^verbatim>\<open>except\<close> clauses of \<^verbatim>\<open>_rpc\<close>\<close>
  "rpc_error e =
    (if e = Raises TIMEOUT_ERROR then service_error SE_TIMEOUT
     else if e = Raises CONNECTION_ERROR \<or> e = Raises (OtherErr ''OSError'') then service_error SE_UNAVAILABLE
     else e)"

definition rpc :: "auth_env \<Rightarrow> exn option \<Rightarrow> bool \<Rightarrow> dict sres \<Rightarrow> ustr \<Rightarrow> ustr \<Rightarrow> dict \<Rightarrow> exn option
    \<Rightarrow> (dict \<Rightarrow> dict sres) \<Rightarrow> dict sres" where
  \<comment> \<open>\<^verbatim>\<open>_rpc\<close>: how the connection was opened, whether the peer is the owner, the greeting that was read, the random
     identity of the request, how the write ended, and what was read after a request\<close>
  "rpc env opened owner hello request_id op payload drained answer =
    (case
       (case opened of
          Some x \<Rightarrow> Inl (Raises x)
        | None \<Rightarrow>
            if \<not> owner then Inl (service_error SE_FORBIDDEN)
            else
              andthen hello (\<lambda>h.
              andthen (rpc_request h request_id op payload) (\<lambda>r.
              andthen (encode_frame (ae_json env) r) (\<lambda>_.
              case drained of
                Some x \<Rightarrow> Inl (Raises x)
              | None \<Rightarrow> andthen (answer r) (rpc_result request_id)))))
     of Inl e \<Rightarrow> Inl (rpc_error e) | Inr d \<Rightarrow> Inr d)"

section \<open>A call over the socket\<close>

definition transmitted :: "json_env \<Rightarrow> dict \<Rightarrow> dict sres" where
  \<comment> \<open>an object that is written and read as one frame\<close>
  "transmitted env v = andthen (encode_frame env v) (\<lambda>f. andthen (read_frame env f) (\<lambda>x. Inr (fst x)))"

definition written_at :: "served \<Rightarrow> nat \<Rightarrow> json_env \<Rightarrow> dict sres" where
  "written_at sd n env =
    (if n < length (sd_written sd) then transmitted env (sd_written sd ! n)
     else Inl (Raises (OtherErr ''IncompleteReadError'')))"

definition remote_call :: "unix_server \<Rightarrow> ustr \<Rightarrow> ustr \<Rightarrow> rat \<Rightarrow> rat \<Rightarrow> ustr \<Rightarrow> ustr \<Rightarrow> dict \<Rightarrow> dict sres" where
  \<comment> \<open>the owner's client calls the server, whose greeting and answer it reads\<close>
  "remote_call us binding nonce t0 t1 request_id op payload =
    (let env = ae_json (us_auth us);
         run = handle us (us_owner us) binding nonce t0 None
     in rpc (us_auth us) None True (written_at (run []) 0 env) request_id op payload None
          (\<lambda>r. written_at (run [\<lparr>tn_request = transmitted env r, tn_now = t1, tn_drained = None\<rparr>]) 1 env))"

definition remote_get :: "client_env \<Rightarrow> unix_server \<Rightarrow> ustr \<Rightarrow> ustr \<Rightarrow> rat \<Rightarrow> rat \<Rightarrow> ustr \<Rightarrow> ustr \<Rightarrow> remote_snapshot sres" where
  "remote_get ce us binding nonce t0 t1 request_id command =
    andthen (remote_call us binding nonce t0 t1 request_id (u ''get'') [(u ''external_command_id'', VStr command)])
      (client_snapshot ce)"

section \<open>The call is the call of the service\<close>

lemma transmitted_frame:
  assumes "fits env v" "writable True (VDict v)"
  shows "transmitted env v = Inr (frame_object v)"
proof -
  obtain f where f: "encode_frame env v = Inr f"
    using assms(1) by (auto simp: fits_def split: sum.splits)
  obtain h b where "f = h @ b" "length h = 4" "from_bytes h = length b" "length b \<le> FRAME_MAX_BYTES"
      "decode_payload env b = Inr (frame_object v)"
    using frame_parts_of [OF f assms(2)] by blast
  then show ?thesis
    using f by (simp add: transmitted_def read_frame_def read_exactly_def)
qed

lemma frame_object_get:
  assumes "distinct (map fst v)"
  shows "map_of (frame_object v) k = map_option (written True) (map_of v k)"
    "dget (frame_object v) k = written True (dget v k)"
proof -
  have "map_of (frame_object v) k = map_of (map (\<lambda>kv. (fst kv, written True (snd kv))) v) k"
    unfolding frame_object_def using assms by (intro map_of_sorted_items) (simp add: comp_def)
  also have "\<dots> = map_option (written True) (map_of v k)"
    by (induction v) auto
  finally show get: "map_of (frame_object v) k = map_option (written True) (map_of v k)" .
  show "dget (frame_object v) k = written True (dget v k)"
    by (simp add: dget_def get split: option.splits)
qed

lemma written_object: "written True (VDict d) = VDict (frame_object d)"
  by (simp add: frame_object_def)

definition remote_of :: "command_snapshot \<Rightarrow> remote_snapshot" where
  "remote_of s = \<lparr>rm_receipt = sp_receipt s, rm_output_state = sp_output_state s, rm_output_text = opt_text (sp_output_text s),
     rm_error_code = opt_text (sp_error_code s), rm_run_state = sp_run_state s, rm_outcome = sp_outcome s\<rparr>"

lemma enum_names [simp]:
  "enum_of command_states (u (command_state_name cs)) = Inr cs"
  "enum_of command_kinds (u (command_kind_name k)) = Inr k"
  "enum_of output_states (u (output_state_name os)) = Inr os"
  "enum_of run_states (u (run_state_name rs)) = Inr rs"
  "enum_of command_outcomes (u (outcome_name oc)) = Inr oc"
  "service_code_of (u (service_code_name c)) = Inr c"
proof -
  show "enum_of command_states (u (command_state_name cs)) = Inr cs"
    by (cases cs) (simp_all add: enum_of_def command_states_def)
  show "enum_of command_kinds (u (command_kind_name k)) = Inr k"
    by (cases k) (simp_all add: enum_of_def command_kinds_def)
  show "enum_of output_states (u (output_state_name os)) = Inr os"
    by (cases os) (simp_all add: enum_of_def output_states_def)
  show "enum_of run_states (u (run_state_name rs)) = Inr rs"
    by (cases rs) (simp_all add: enum_of_def run_states_def)
  show "enum_of command_outcomes (u (outcome_name oc)) = Inr oc"
    by (cases oc) (simp_all add: enum_of_def command_outcomes_def)
  show "service_code_of (u (service_code_name c)) = Inr c"
    by (cases c) (simp_all add: enum_of_def service_code_of_def)
qed

lemma client_receipt_json: "client_receipt ce (frame_object (receipt_json r)) = Inr r"
  by (simp add: client_receipt_def value_at_def frame_object_get receipt_json_def str_of_def int_of_def)

lemma opt_text_None [simp]: "opt_text t = VNone \<longleftrightarrow> t = None" "written b (opt_text t) = opt_text t"
  by (cases t; simp add: opt_text_def)+

lemma client_snapshot_json:
  assumes "snapshot_init s = Inr s"
  shows "client_snapshot ce (frame_object (snapshot_json s)) = Inr (remote_of s)"
proof -
  define d where "d = frame_object (snapshot_json s)"
  have "distinct (map fst (snapshot_json s))"
    by (simp add: snapshot_json_def)
  note get = frame_object_get [OF this, folded d_def]
  have "value_at d ''receipt'' = Inr (VDict (frame_object (receipt_json (sp_receipt s))))"
      "value_at d ''output_state'' = Inr (vs (output_state_name (sp_output_state s)))"
      "value_at d ''outcome'' = Inr (vs (outcome_name (sp_outcome s)))"
    by (simp_all add: value_at_def get(1)) (simp_all add: snapshot_json_def written_object del: written.simps(2))
  moreover have "dget d (u ''output_text'') = opt_text (sp_output_text s)" "dget d (u ''error_code'') = opt_text (sp_error_code s)"
      "dget d (u ''run_state'') = (case sp_run_state s of None \<Rightarrow> VNone | Some r \<Rightarrow> vs (run_state_name r))"
    by (simp_all add: get(2)) (simp_all add: snapshot_json_def dget_def split: option.splits)
  ultimately show ?thesis
    using assms unfolding d_def [symmetric]
    by (cases "sp_run_state s") (auto simp: client_snapshot_def str_of_def object_of_def client_receipt_json
        remote_of_def snapshot_init_def split: if_splits)
qed

definition get_request :: "ustr \<Rightarrow> ustr \<Rightarrow> capability \<Rightarrow> dict" where
  \<comment> \<open>what the client sends for a command\<close>
  "get_request request_id command c =
    [(u ''request_id'', VStr request_id), (u ''op'', vs ''get''),
     (u ''payload'', VDict [(u ''external_command_id'', VStr command)]), (u ''capability'', VStr (capability_token c))]"

definition get_response :: "ustr \<Rightarrow> command_snapshot \<Rightarrow> dict" where
  "get_response request_id s =
    [(u ''ok'', VBool True), (u ''request_id'', VStr request_id), (u ''result'', VDict (snapshot_json s))]"

lemma request_fields:
  "dget (frame_object (get_request i m c)) (u ''request_id'') = VStr i"
  "dget (frame_object (get_request i m c)) (u ''op'') = vs ''get''"
  "dget (frame_object (get_request i m c)) (u ''payload'') = VDict [(u ''external_command_id'', VStr m)]"
  "dget (frame_object (get_request i m c)) (u ''capability'') = VStr (capability_token c)"
  by (simp_all add: frame_object_get get_request_def) (simp_all add: dget_def)

lemma response_fields:
  "dget (frame_object (get_response i s)) (u ''ok'') = VBool True"
  "dget (frame_object (get_response i s)) (u ''request_id'') = VStr i"
  "dget (frame_object (get_response i s)) (u ''result'') = VDict (frame_object (snapshot_json s))"
  by (simp_all add: frame_object_get get_response_def) (simp_all add: dget_def written_object del: written.simps(2))

lemma hello_fields:
  "dget (frame_object (hello_json b c)) (u ''type'') = vs ''hello''"
  "dget (frame_object (hello_json b c)) (u ''capability'') = VStr (capability_token c)"
  by (simp_all add: frame_object_get hello_json_def) (simp_all add: dget_def)

lemma error_fields:
  "dget (frame_object (error_json c)) (u ''ok'') = VBool False"
  "dget (frame_object (error_json c)) (u ''error'') = vs (service_code_name c)"
  by (simp_all add: frame_object_get error_json_def) (simp_all add: dget_def)

lemma dispatch_get:
  assumes "service_text m 512 = Inr ()"
  shows "dispatch sv (frame_object (get_request i m c)) p =
    andthen (service_get sv m p) (\<lambda>s. Inr (get_response i s))"
proof -
  have "get_of_payload [(u ''external_command_id'', VStr m)] = Inr m"
    using assms by (simp add: get_of_payload_def arguments_ok_def has_key_def text_arg_def)
  then show ?thesis
    by (cases "service_get sv m p") (simp_all add: dispatch_def request_fields get_response_def)
qed

lemma send_fits: "fits (ae_json (us_auth us)) v \<Longrightarrow> send us v None = (Inr (), [v])"
  by (auto simp: fits_def send_def split: sum.splits)

lemma get_request_writable:
  "text_ok True i \<Longrightarrow> text_ok True m \<Longrightarrow> text_ok True (capability_token c) \<Longrightarrow> writable True (VDict (get_request i m c))"
  by (simp add: get_request_def text_ok_literal)

lemma hello_writable:
  "text_ok True b \<Longrightarrow> text_ok True (capability_token c) \<Longrightarrow> writable True (VDict (hello_json b c))"
  by (simp add: hello_json_def text_ok_literal)

lemma error_writable: "writable True (VDict (error_json c))"
  by (simp add: error_json_def text_ok_literal)

lemma error_fits: "0 < je_nesting env \<Longrightarrow> fits env (error_json c)"
proof (rule fitsI [OF _ error_writable])
  assume "0 < je_nesting env"
  then show "plain (je_nesting env) (VDict (error_json c))"
    by (simp add: error_json_def)
  show "text_bound (VDict (error_json c)) \<le> FRAME_MAX_BYTES"
    by (cases c) (simp_all add: error_json_def FRAME_MAX_BYTES_def)
qed

definition snapshot_texts :: "command_snapshot \<Rightarrow> ustr list" where
  "snapshot_texts s =
    [rc_command (sp_receipt s), rc_run (sp_receipt s)] @ (case sp_output_text s of None \<Rightarrow> [] | Some t \<Rightarrow> [t])
      @ (case sp_error_code s of None \<Rightarrow> [] | Some t \<Rightarrow> [t])"

lemma response_writable:
  assumes "text_ok True i" "list_all (text_ok True) (snapshot_texts s)"
  shows "writable True (VDict (get_response i s))"
  using assms
  by (auto simp: get_response_def snapshot_json_def receipt_json_def text_ok_literal snapshot_texts_def opt_text_def
      split: option.splits)

lemma ascii_text_ok: "ascii s \<Longrightarrow> text_ok True s"
  by (auto simp: ascii_def text_ok_def surrogate_def list_all_iff)

lemma issued_token_ok:
  assumes "issue env au p binding issued ttl nonce random = Inr c"
    and "claims_ok au p binding (chosen_nonce nonce random)" "principal_init p = Inr ()"
    and "\<And>key m. length (ae_hmac env key m) = 64 \<and> ascii (ae_hmac env key m)"
  shows "text_ok True (capability_token c)"
proof -
  note issued = issued_checked [OF assms(1-3)]
  obtain m where "ae_hmac env (au_key au) m = cp_mac c"
    using issued(2) by (auto simp: mac_of_def result_simps)
  then have "ascii (cp_mac c)"
    using assms(4) by metis
  moreover have "ascii (cp_claims c)"
    using issued(3) by (auto simp: ascii_def list_all_iff)
  ultimately have "ascii (capability_token c)"
    by (simp add: ascii_def capability_token_def)
  then show ?thesis
    by (rule ascii_text_ok)
qed

lemma snapshot_from_service: "service_get sv m p = Inr s \<Longrightarrow> snapshot_init s = Inr s"
  by (auto simp: service_get_def adapter_get_def result_simps snapshot_init_def split: if_splits)

lemma served_request:
  assumes "us_principal_for us (us_owner us) = Inr p"
    and "issue (us_auth us) (us_authority us) p b t0 300 None nonce = Inr c"
    and "claims_ok (us_authority us) p b nonce" "principal_init p = Inr ()" "ascii b"
    and "\<And>key m. length (ae_hmac (us_auth us) key m) = 64 \<and> ascii (ae_hmac (us_auth us) key m)" "mono (ae_round (us_auth us))"
    and "t0 \<le> t1" "t1 \<le> ae_round (us_auth us) (t0 + 300)"
    and "text_ok True i" "text_ok True m" "service_text m 512 = Inr ()"
    and "fits (ae_json (us_auth us)) (hello_json b c)" "fits (ae_json (us_auth us)) (get_request i m c)"
    and "\<forall>s. service_get (us_service us) m p = Inr s \<longrightarrow> fits (ae_json (us_auth us)) (get_response i s)"
  shows "sd_written (handle us (us_owner us) b nonce t0 None []) = [hello_json b c]"
    "sd_written (handle us (us_owner us) b nonce t0 None
        [\<lparr>tn_request = transmitted (ae_json (us_auth us)) (get_request i m c), tn_now = t1, tn_drained = None\<rparr>]) =
      hello_json b c #
        (case service_get (us_service us) m p of
           Inr s \<Rightarrow> [get_response i s]
         | Inl e \<Rightarrow> (case error_reply e of Some x \<Rightarrow> [error_json x] | None \<Rightarrow> []))"
    "sd_dispatched (handle us (us_owner us) b nonce t0 None
        [\<lparr>tn_request = transmitted (ae_json (us_auth us)) (get_request i m c), tn_now = t1, tn_drained = None\<rparr>]) =
      [(frame_object (get_request i m c), \<lparr>ac_principal = p, ac_binding = b, ac_nonce = VStr nonce\<rparr>)]"
proof -
  have nonce: "chosen_nonce None nonce = nonce"
    by (simp add: chosen_nonce_def)
  have token: "text_ok True (capability_token c)"
    using issued_token_ok [OF assms(2)] assms(3,4,6) nonce by simp
  have read: "transmitted (ae_json (us_auth us)) (get_request i m c) = Inr (frame_object (get_request i m c))"
    by (rule transmitted_frame [OF assms(14) get_request_writable [OF assms(10,11) token]])
  have "verify (us_auth us) (us_authority us) (capability_token c) b t1 =
      Inr \<lparr>ac_principal = p, ac_binding = b, ac_nonce = VStr nonce\<rparr>"
    using verify_issued [OF assms(2) _ assms(4,5,5,6,7,8,9)] assms(3) nonce by simp
  then have ctx: "request_context us b p
      \<lparr>tn_request = transmitted (ae_json (us_auth us)) (get_request i m c), tn_now = t1, tn_drained = None\<rparr> =
      Inr (frame_object (get_request i m c), \<lparr>ac_principal = p, ac_binding = b, ac_nonce = VStr nonce\<rparr>)"
    by (simp add: request_context_def read request_fields)
  note step = assms(1,2) send_fits [OF assms(13)] dispatch_get [OF assms(12)]
  show "sd_written (handle us (us_owner us) b nonce t0 None []) = [hello_json b c]"
    by (simp add: handle_def step)
  show "sd_written (handle us (us_owner us) b nonce t0 None
        [\<lparr>tn_request = transmitted (ae_json (us_auth us)) (get_request i m c), tn_now = t1, tn_drained = None\<rparr>]) =
      hello_json b c #
        (case service_get (us_service us) m p of
           Inr s \<Rightarrow> [get_response i s]
         | Inl e \<Rightarrow> (case error_reply e of Some x \<Rightarrow> [error_json x] | None \<Rightarrow> []))"
  proof (cases "service_get (us_service us) m p")
    case (Inl e)
    then show ?thesis
      by (cases "error_reply e") (simp_all add: handle_def step ctx with_error_def)
  next
    case (Inr s)
    then show ?thesis
      using send_fits [OF assms(15) [rule_format, OF Inr]] by (simp add: handle_def step ctx)
  qed
  show "sd_dispatched (handle us (us_owner us) b nonce t0 None
        [\<lparr>tn_request = transmitted (ae_json (us_auth us)) (get_request i m c), tn_now = t1, tn_drained = None\<rparr>]) =
      [(frame_object (get_request i m c), \<lparr>ac_principal = p, ac_binding = b, ac_nonce = VStr nonce\<rparr>)]"
  proof (cases "service_get (us_service us) m p")
    case (Inl e)
    then show ?thesis
      by (simp add: handle_def step ctx with_error_def Let_def split: option.split)
  next
    case (Inr s)
    then show ?thesis
      using send_fits [OF assms(15) [rule_format, OF Inr]] by (simp add: handle_def step ctx)
  qed
qed

text \<open>
  C28. Asking for a command over the socket is asking the service: the client gets the snapshot that the
  service has for the principal of the peer, and where the service raises, the code of its error, whatever
  the identities and texts are. The greeting, the capability, the request and the answer go through their
  frames; only when the server leaves without a reply does the client see the end of the stream.
\<close>

theorem remote_get_is_get:
  assumes "us_principal_for us (us_owner us) = Inr p"
    and "issue (us_auth us) (us_authority us) p b t0 300 None nonce = Inr c"
    and "claims_ok (us_authority us) p b nonce" "principal_init p = Inr ()" "ascii b"
    and "\<And>key m. length (ae_hmac (us_auth us) key m) = 64 \<and> ascii (ae_hmac (us_auth us) key m)" "mono (ae_round (us_auth us))"
    and "t0 \<le> t1" "t1 \<le> ae_round (us_auth us) (t0 + 300)"
    and "text_ok True i" "text_ok True m" "service_text m 512 = Inr ()"
    and "fits (ae_json (us_auth us)) (hello_json b c)" "fits (ae_json (us_auth us)) (get_request i m c)"
    and "\<And>s. service_get (us_service us) m p = Inr s \<Longrightarrow>
      fits (ae_json (us_auth us)) (get_response i s) \<and> list_all (text_ok True) (snapshot_texts s)"
    and "0 < je_nesting (ae_json (us_auth us))"
  shows "remote_get ce us b nonce t0 t1 i m =
    (case service_get (us_service us) m p of
       Inr s \<Rightarrow> Inr (remote_of s)
     | Inl e \<Rightarrow> Inl (case error_reply e of Some x \<Rightarrow> service_error x | None \<Rightarrow> Raises (OtherErr ''IncompleteReadError'')))"
proof -
  let ?env = "ae_json (us_auth us)"
  have "\<forall>s. service_get (us_service us) m p = Inr s \<longrightarrow> fits ?env (get_response i s)"
    using assms(15) by blast
  note served = served_request [OF assms(1-14) this]
  have token: "text_ok True (capability_token c)"
    using issued_token_ok [OF assms(2)] assms(3,4,6) by (simp add: chosen_nonce_def)
  have hello: "written_at (handle us (us_owner us) b nonce t0 None []) 0 ?env = Inr (frame_object (hello_json b c))"
    using transmitted_frame [OF assms(13) hello_writable [OF ascii_text_ok [OF assms(5)] token]]
    by (simp add: written_at_def served(1))
  have request: "rpc_request (frame_object (hello_json b c)) i (u ''get'') [(u ''external_command_id'', VStr m)] =
      Inr (get_request i m c)"
    by (simp add: rpc_request_def hello_fields get_request_def)
  obtain f where f: "encode_frame ?env (get_request i m c) = Inr f"
    using assms(14) by (auto simp: fits_def split: sum.splits)
  let ?answer = "written_at (handle us (us_owner us) b nonce t0 None
      [\<lparr>tn_request = transmitted ?env (get_request i m c), tn_now = t1, tn_drained = None\<rparr>]) 1 ?env"
  have call: "remote_get ce us b nonce t0 t1 i m =
      andthen (case andthen ?answer (rpc_result i) of Inl e \<Rightarrow> Inl (rpc_error e) | Inr d \<Rightarrow> Inr d) (client_snapshot ce)"
    by (simp add: remote_get_def remote_call_def rpc_def Let_def hello request f)
  show ?thesis
  proof (cases "service_get (us_service us) m p")
    case (Inr s)
    have "transmitted ?env (get_response i s) = Inr (frame_object (get_response i s))"
      using assms(15) [OF Inr] transmitted_frame response_writable [OF assms(10)] by blast
    then have "?answer = Inr (frame_object (get_response i s))"
      using Inr by (simp add: written_at_def served(2))
    then show ?thesis
      using Inr client_snapshot_json [OF snapshot_from_service [OF Inr]]
      by (simp add: call rpc_result_def response_fields object_of_def)
  next
    case (Inl e)
    show ?thesis
    proof (cases "error_reply e")
      case None
      then have "?answer = Inl (Raises (OtherErr ''IncompleteReadError''))"
        using Inl by (simp add: written_at_def served(2))
      then show ?thesis
        using Inl None by (simp add: call rpc_error_def TIMEOUT_ERROR_def CONNECTION_ERROR_def)
    next
      case (Some x)
      have "transmitted ?env (error_json x) = Inr (frame_object (error_json x))"
        by (rule transmitted_frame [OF error_fits [OF assms(16)] error_writable])
      then have "?answer = Inr (frame_object (error_json x))"
        using Inl Some by (simp add: written_at_def served(2))
      then show ?thesis
        using Inl Some by (simp add: call rpc_result_def error_fields rpc_error_def service_error_def)
    qed
  qed
qed

section \<open>For whom the server acts\<close>

definition refusal :: "dict \<Rightarrow> bool" where
  "refusal v \<longleftrightarrow> dget v (u ''ok'') = VBool False"

definition authorised :: "unix_server \<Rightarrow> ustr \<Rightarrow> principal \<Rightarrow> turn list \<Rightarrow> dict \<times> auth_context \<Rightarrow> bool" where
  "authorised us binding p ts rc \<longleftrightarrow>
     ac_principal (snd rc) = p \<and> ac_binding (snd rc) = binding
     \<and> (\<exists>t\<in>set ts. \<exists>token. tn_request t = Inr (fst rc) \<and> dget (fst rc) (u ''capability'') = VStr token
          \<and> verify (us_auth us) (us_authority us) token binding (tn_now t) = Inr (snd rc))"

lemma verify_binding: "verify env au token observed now = Inr ctx \<Longrightarrow> ac_binding ctx = observed"
proof -
  assume "verify env au token observed now = Inr ctx"
  then have "\<exists>claims. claims_context env au claims observed now = Inr ctx"
    unfolding verify_def andthen_Inr_iff by (elim exE conjE) (auto split: if_splits sum.splits)
  then obtain claims where "claims_context env au claims observed now = Inr ctx"
    by blast
  then show "ac_binding ctx = observed"
    unfolding claims_context_def Let_def andthen_Inr_iff by (auto simp: andthen_Inr_iff split: if_splits)
qed

lemma request_authorised:
  assumes "request_context us binding p t = Inr (request, ctx)"
  shows "authorised us binding p (t # ts) (request, ctx)"
proof -
  obtain r where r: "tn_request t = Inr r"
      "(case dget r (u ''capability'') of
          VStr token \<Rightarrow> andthen (verify (us_auth us) (us_authority us) token binding (tn_now t)) (\<lambda>ctx.
            if ac_principal ctx \<noteq> p then Inl (service_error SE_FORBIDDEN) else Inr (r, ctx))
        | _ \<Rightarrow> Inl (service_error SE_UNAUTHENTICATED)) = Inr (request, ctx)"
    using assms unfolding request_context_def andthen_Inr_iff by blast
  then obtain token where "tn_request t = Inr request" "dget request (u ''capability'') = VStr token"
      "verify (us_auth us) (us_authority us) token binding (tn_now t) = Inr ctx" "ac_principal ctx = p"
    by (cases "dget r (u ''capability'')") (auto simp: andthen_Inr_iff split: if_splits)
  then show ?thesis
    using verify_binding by (fastforce simp: authorised_def)
qed

lemma authorised_more: "authorised us binding p ts rc \<Longrightarrow> authorised us binding p (t # ts) rc"
  by (auto simp: authorised_def)

lemma dispatch_accepts: "dispatch sv request p = Inr v \<Longrightarrow> \<not> refusal v"
  by (auto simp: dispatch_def result_simps refusal_def dget_def split: pyval.splits)

lemma send_writes: "send us v d = (r, w) \<Longrightarrow> w = [] \<or> w = [v]"
  by (auto simp: send_def split: sum.splits option.splits)

lemma with_error_writes:
  "sd_dispatched (with_error e sd) = sd_dispatched sd"
  "list_all (\<lambda>v. \<not> refusal v) (sd_written sd) \<Longrightarrow> list_all (\<lambda>v. \<not> refusal v) (butlast (sd_written (with_error e sd)))"
  by (auto simp: with_error_def list_all_iff dest: in_set_butlastD split: option.splits)

lemma serve_turns_acts:
  assumes "list_all (\<lambda>v. \<not> refusal v) (sd_written sd)"
  shows "list_all (\<lambda>v. \<not> refusal v) (butlast (sd_written (serve_turns us binding p ts sd)))
    \<and> (\<forall>rc \<in> set (sd_dispatched (serve_turns us binding p ts sd)). rc \<in> set (sd_dispatched sd) \<or> authorised us binding p ts rc)"
  using assms
proof (induction us binding p ts sd rule: serve_turns.induct)
  case (1 us binding p sd)
  then show ?case
    by (auto simp: list_all_iff dest: in_set_butlastD)
next
  case (2 us binding p t ts sd)
  show ?case
  proof (cases "request_context us binding p t")
    case (Inl e)
    then show ?thesis
      using with_error_writes(1) [of e sd] with_error_writes(2) [of sd e] 2(2) by simp
  next
    case (Inr rc)
    then obtain request ctx where rc: "request_context us binding p t = Inr (request, ctx)"
      by (cases rc) auto
    note auth = request_authorised [OF rc, of ts]
    let ?sd1 = "sd\<lparr>sd_dispatched := sd_dispatched sd @ [(request, ctx)]\<rparr>"
    show ?thesis
    proof (cases "dispatch (us_service us) request (ac_principal ctx)")
      case (Inl e)
      then show ?thesis
        using with_error_writes(1) [of e ?sd1] with_error_writes(2) [of ?sd1 e] 2(2) rc auth by (auto simp: Let_def)
    next
      case (Inr v)
      obtain r w where w: "send us v (tn_drained t) = (r, w)"
        by (cases "send us v (tn_drained t)")
      let ?sd2 = "?sd1\<lparr>sd_written := sd_written ?sd1 @ w\<rparr>"
      have quiet: "list_all (\<lambda>v. \<not> refusal v) (sd_written ?sd2)"
        using send_writes [OF w] dispatch_accepts [OF Inr] 2(2) by auto
      show ?thesis
      proof (cases r)
        case (Inl e)
        then show ?thesis
          using with_error_writes(1) [of e ?sd2] with_error_writes(2) [OF quiet, of e] rc Inr w auth
          by (auto simp: Let_def)
      next
        case ok: (Inr x)
        then show ?thesis
          using 2(1) [OF rc refl refl Inr w [unfolded ok, symmetric] refl quiet] rc Inr w auth authorised_more
          by (fastforce simp: Let_def)
      qed
    qed
  qed
qed

text \<open>
  C29. The server acts only for the owner of the socket and only on requests that prove it: whatever a peer
  sends on a connection, and however its reads and writes fail, every request that reaches the service came
  from the owner's process, carried a capability that was verified for this very connection at that time, and
  is executed for the principal of this peer. An error is the last thing the connection gets.
\<close>

theorem server_acts_for_peer:
  assumes sd_def: "sd = handle us peer binding nonce now drained ts"
  shows "(\<forall>rc \<in> set (sd_dispatched sd). peer = us_owner us \<and> us_principal_for us peer = Inr (ac_principal (snd rc))
      \<and> authorised us binding (ac_principal (snd rc)) ts rc)
    \<and> list_all (\<lambda>v. \<not> refusal v) (butlast (sd_written sd))"
proof -
  have hello: "\<not> refusal (hello_json binding c)" for c
    by (simp add: refusal_def hello_json_def dget_def)
  define none where "none = \<lparr>sd_written = [], sd_dispatched = []\<rparr>"
  show ?thesis
  proof (cases "peer = us_owner us")
    case False
    then show ?thesis
      by (simp add: sd_def handle_def with_error_def error_reply_def service_error_def)
  next
    case owner: True
    show ?thesis
    proof (cases "us_principal_for us peer")
      case (Inl e)
      then show ?thesis
        using owner with_error_writes(1) [of e none] with_error_writes(2) [of none e] by (simp add: sd_def handle_def none_def)
    next
      case p: (Inr p)
      show ?thesis
      proof (cases "issue (us_auth us) (us_authority us) p binding now 300 None nonce")
        case (Inl e)
        then show ?thesis
          using owner p with_error_writes(1) [of "Raises e" none] with_error_writes(2) [of none "Raises e"]
          by (simp add: sd_def handle_def none_def)
      next
        case c: (Inr c)
        obtain r w where w: "send us (hello_json binding c) drained = (r, w)"
          by (cases "send us (hello_json binding c) drained")
        let ?sd = "\<lparr>sd_written = w, sd_dispatched = []\<rparr>"
        have quiet: "list_all (\<lambda>v. \<not> refusal v) (sd_written ?sd)"
          using send_writes [OF w] hello by auto
        show ?thesis
          using owner p c w with_error_writes(1) [of _ ?sd] with_error_writes(2) [OF quiet]
            serve_turns_acts [OF quiet, of us binding p ts]
          by (cases r) (auto simp: sd_def handle_def authorised_def)
      qed
    qed
  qed
qed

definition example_harness :: harness where
  \<comment> \<open>it knows one command, which has completed\<close>
  "example_harness =
    (let no = Command_error CC_NOT_FOUND (u ''not_found'')
     in \<lparr>hn_turn_input = (\<lambda>_ _ _. Inr ()), hn_start_intent = (\<lambda>_. Inr ()), hn_continue_intent = (\<lambda>_. Inr ()),
         hn_cancel_intent = (\<lambda>_. Inr ()), hn_submit_start = (\<lambda>_. Inl no), hn_submit_continue = (\<lambda>_. Inl no), hn_submit_cancel = (\<lambda>_. Inl no),
         hn_get_command = (\<lambda>c. Inr \<lparr>
           hs_receipt = \<lparr>hr_command = u ''svc_command'', hr_run = u ''svc_run'', hr_accept_seq = 3, hr_state = u ''applied'', hr_version = 2, hr_kind = u ''start''\<rparr>,
           hs_output = Some \<lparr>ho_memory = None, ho_content = vs ''hi''\<rparr>, hs_output_state = u ''present'', hs_error = None\<rparr>),
         hn_query = (\<lambda>_. Inr (Some (u ''completed''))), hn_health = Inr (True, u ''ready'')\<rparr>)"

definition example_snapshot :: command_snapshot where
  "example_snapshot = \<lparr>
     sp_receipt = \<lparr>rc_command = u ''svc_command'', rc_run = u ''svc_run'', rc_accept_seq = 3, rc_state = CS_APPLIED, rc_version = 2, rc_kind = CK_START\<rparr>,
     sp_output_state = OS_PRESENT, sp_output_text = Some (u ''hi''), sp_error_code = None,
     sp_run_state = Some RUN_COMPLETED, sp_outcome = CO_COMPLETED\<rparr>"

definition example_service :: service where
  "example_service = \<lparr>sv_hmac = (\<lambda>k m. replicate 64 97), sv_projector = example_projector, sv_harness = example_harness\<rparr>"

definition example_unix :: unix_server where
  "example_unix = \<lparr>us_auth = example_auth, us_authority = example_issuer, us_service = example_service, us_owner = 501,
     us_principal_for = (\<lambda>_. Inr example_subject)\<rparr>"

lemma example_adapter_get: "adapter_get example_harness c = Inr example_snapshot"
  by (simp add: adapter_get_def example_harness_def Let_def enum_of_def run_states_def output_states_def command_states_def
      command_kinds_def receipt_of_def output_text_def snapshot_init_def closed_outcome_def other_def example_snapshot_def)

lemma example_get: "service_get example_service (u ''c1'') example_subject = Inr example_snapshot"
proof -
  have "encodable (u ''n'')" "encodable (u ''command'')" "encodable (u ''c1'')" "encodable (u ''d'')" "encodable (u ''h'')" "encodable (u ''a'')"
    by code_simp+
  then have "\<exists>i. service_id example_service ''command'' example_subject (u ''c1'') = Inr i"
    by (simp add: service_id_def project_def project_payload_def id_bytes_def str_bytes_def raises_def to_bytes4_def
        utf8_length utf8_len_u principal_canonical_def principal_fields_def example_subject_def example_projector_def example_service_def)
  then show ?thesis
    by (auto simp: service_get_def example_service_def example_adapter_get)
qed

lemma example_rpc:
  "\<exists>c. issue example_auth example_issuer example_subject (u ''unix:7'') 10 300 None (u ''n'') = Inr c
    \<and> fits (ae_json example_auth) (hello_json (u ''unix:7'') c)
    \<and> fits (ae_json example_auth) (get_request (u ''r1'') (u ''c1'') c)"
  "fits (ae_json example_auth) (get_response (u ''r1'') example_snapshot)"
  "us_principal_for example_unix (us_owner example_unix) = Inr example_subject" "us_auth example_unix = example_auth"
  "us_authority example_unix = example_issuer" "us_service example_unix = example_service"
  "je_nesting (ae_json example_auth) = 100" "claims_ok example_issuer example_subject (u ''unix:7'') (u ''n'')"
  "list_all (text_ok True) (snapshot_texts example_snapshot)" "service_text (u ''c1'') 512 = Inr ()" "us_owner example_unix = 501"
proof -
  show us: "us_principal_for example_unix (us_owner example_unix) = Inr example_subject" "us_auth example_unix = example_auth"
      "us_authority example_unix = example_issuer" "us_service example_unix = example_service"
      "je_nesting (ae_json example_auth) = 100" "us_owner example_unix = 501"
    by (simp_all add: example_unix_def example_auth_def example_env_def)
  obtain c where c: "issue example_auth example_issuer example_subject (u ''unix:7'') 10 300 None (u ''n'') = Inr c"
      "length (capability_token c) \<le> 5000"
    using example_issued unfolding example_issue_def by blast
  have token: "text_ok True (capability_token c)"
    by (rule issued_token_ok [OF c(1) example_facts(1,2) example_env_facts(1)])
  have fits: "fits (ae_json example_auth) (hello_json (u ''unix:7'') c)"
      "fits (ae_json example_auth) (get_request (u ''r1'') (u ''c1'') c)"
    by (rule fitsI; use c(2) token in \<open>simp add: us hello_json_def get_request_def text_ok_literal FRAME_MAX_BYTES_def\<close>)+
  then show "\<exists>c. issue example_auth example_issuer example_subject (u ''unix:7'') 10 300 None (u ''n'') = Inr c
    \<and> fits (ae_json example_auth) (hello_json (u ''unix:7'') c)
    \<and> fits (ae_json example_auth) (get_request (u ''r1'') (u ''c1'') c)"
    using c(1) by blast
  show "fits (ae_json example_auth) (get_response (u ''r1'') example_snapshot)"
    by (rule fitsI; simp add: us get_response_def snapshot_json_def receipt_json_def example_snapshot_def opt_text_def
        text_ok_literal nat_text.simps DIGIT_LIMIT_def FRAME_MAX_BYTES_def)
  show "claims_ok example_issuer example_subject (u ''unix:7'') (u ''n'')"
    using example_facts(1,4) by simp
  show "list_all (text_ok True) (snapshot_texts example_snapshot)"
    by (simp add: snapshot_texts_def example_snapshot_def text_ok_literal)
  show "service_text (u ''c1'') 512 = Inr ()"
    by code_simp
qed

theorem remote_get_is_get_witness:
  "remote_get \<lparr>ce_str = (\<lambda>_. []), ce_int = (\<lambda>_. Inl TypeErr)\<rparr> example_unix (u ''unix:7'') (u ''n'') 10 20 (u ''r1'') (u ''c1'') =
    Inr (remote_of example_snapshot)"
proof -
  obtain c where c: "issue example_auth example_issuer example_subject (u ''unix:7'') 10 300 None (u ''n'') = Inr c"
      "fits (ae_json example_auth) (hello_json (u ''unix:7'') c)" "fits (ae_json example_auth) (get_request (u ''r1'') (u ''c1'') c)"
    using example_rpc(1) by blast
  show ?thesis
    using remote_get_is_get [of example_unix example_subject "u ''unix:7''" 10 "u ''n''" c 20 "u ''r1''" "u ''c1''"
        "\<lparr>ce_str = (\<lambda>_. []), ce_int = (\<lambda>_. Inl TypeErr)\<rparr>", unfolded example_rpc(4-6)]
      c example_rpc(2-10) example_facts(2,3) example_env_facts(1-3) example_get
    by (simp add: text_ok_literal)
qed

theorem server_acts_for_peer_witness:
  "\<exists>t rc. sd_dispatched (handle example_unix 501 (u ''unix:7'') (u ''n'') 10 None [t]) = [rc]
    \<and> us_principal_for example_unix 501 = Inr (ac_principal (snd rc)) \<and> authorised example_unix (u ''unix:7'') (ac_principal (snd rc)) [t] rc"
proof -
  obtain c where c: "issue example_auth example_issuer example_subject (u ''unix:7'') 10 300 None (u ''n'') = Inr c"
      "fits (ae_json example_auth) (hello_json (u ''unix:7'') c)" "fits (ae_json example_auth) (get_request (u ''r1'') (u ''c1'') c)"
    using example_rpc(1) by blast
  let ?t = "\<lparr>tn_request = transmitted (ae_json example_auth) (get_request (u ''r1'') (u ''c1'') c), tn_now = 20, tn_drained = None\<rparr>"
  have "\<exists>rc. sd_dispatched (handle example_unix 501 (u ''unix:7'') (u ''n'') 10 None [?t]) = [rc]"
    using served_request(3) [of example_unix example_subject "u ''unix:7''" 10 "u ''n''" c 20 "u ''r1''" "u ''c1''",
        unfolded example_rpc(4-6,11)]
      c example_rpc(2-10) [unfolded example_rpc(11)] example_facts(2,3) example_env_facts(1-3) example_get
    by (simp add: text_ok_literal)
  then obtain rc where "sd_dispatched (handle example_unix 501 (u ''unix:7'') (u ''n'') 10 None [?t]) = [rc]"
    by blast
  then show ?thesis
    using server_acts_for_peer [OF refl, of example_unix 501 "u ''unix:7''" "u ''n''" 10 None "[?t]"]
    by (intro exI [of _ ?t] exI [of _ rc]) auto
qed

end
