(* ===== verification/Chat.thy ===== *)
theory Chat
  imports Service
begin

text \<open>
  \<^verbatim>\<open>chat_controller.py\<close>: the state machine of an interactive chat. A coroutine is cut at its suspension points;
  what it awaited is an argument of the next part. \<^verbatim>\<open>observe_once\<close> reads the snapshots of the start command
  and of the cancel command and settles the run when they agree on an end.
\<close>

section \<open>Actions, events and state\<close>

datatype chat_action =
    Submit ustr | Cancel | Quit | Clear | Help | Status | SetSession ustr | NewSession

datatype chat_event =
    Ev_Accepted ustr ustr
  | Ev_Pending ustr ustr "ustr option"
  | Ev_Completed ustr
  | Ev_Failed "ustr option"
  | Ev_Cancelled
  | Ev_Timeout ustr ustr
  | Ev_CancelPending ustr ustr ustr
  | Ev_ProtocolError string
  | Ev_Notice ustr
  | Ev_TranscriptCleared
  | Ev_SessionChanged ustr
  | Ev_QuitRequested bool

record chat =
  ch_session :: ustr
  ch_run :: "ustr option"
  ch_start :: "ustr option" \<comment> \<open>the start command\<close>
  ch_cancel :: "ustr option" \<comment> \<open>the cancel command\<close>
  ch_task :: "nat option" \<comment> \<open>the task that sends the cancellation\<close>
  ch_accepted :: bool
  ch_reported :: bool
  ch_start_snapshot :: "command_snapshot option"
  ch_cancel_snapshot :: "command_snapshot option"
  ch_quit :: bool
  ch_run_deadline :: "rat option"
  ch_cancel_deadline :: "rat option"
  ch_last :: ustr
  ch_tasks :: nat \<comment> \<open>how many tasks there have been: the identity of the next\<close>
  ch_locked :: bool

definition chat_init :: "ustr \<Rightarrow> chat res" where
  "chat_init session =
    (if blank session then Inl (ValueErr ''session is required'')
     else Inr \<lparr>ch_session = session, ch_run = None, ch_start = None, ch_cancel = None, ch_task = None,
            ch_accepted = False, ch_reported = False, ch_start_snapshot = None, ch_cancel_snapshot = None,
            ch_quit = False, ch_run_deadline = None, ch_cancel_deadline = None, ch_last = u ''idle'',
            ch_tasks = 0, ch_locked = False\<rparr>)"

datatype controller_state = CT_IDLE | CT_PENDING | CT_CANCEL_IN_FLIGHT

definition chat_state :: "chat \<Rightarrow> controller_state" where
  "chat_state s =
    (if ch_run s = None then CT_IDLE else if ch_task s \<noteq> None then CT_CANCEL_IN_FLIGHT else CT_PENDING)"

fun controller_state_name :: "controller_state \<Rightarrow> string" where
  "controller_state_name CT_IDLE = ''idle''"
| "controller_state_name CT_PENDING = ''pending''"
| "controller_state_name CT_CANCEL_IN_FLIGHT = ''cancel_in_flight''"

record command_descriptor =
  cd_name :: string
  cd_usage :: string
  cd_description :: string
  cd_while_pending :: bool

definition COMMANDS :: "command_descriptor list" where
  "COMMANDS =
    [\<lparr>cd_name = ''help'', cd_usage = ''/help'', cd_description = ''Show commands and shortcuts'', cd_while_pending = True\<rparr>,
     \<lparr>cd_name = ''session'', cd_usage = ''/session NAME'', cd_description = ''Show or change session'', cd_while_pending = False\<rparr>,
     \<lparr>cd_name = ''new'', cd_usage = ''/new'', cd_description = ''Start a new display context'', cd_while_pending = False\<rparr>,
     \<lparr>cd_name = ''cancel'', cd_usage = ''/cancel'', cd_description = ''Cancel the active run'', cd_while_pending = True\<rparr>,
     \<lparr>cd_name = ''quit'', cd_usage = ''/quit'', cd_description = ''Cancel the active run and exit'', cd_while_pending = True\<rparr>,
     \<lparr>cd_name = ''status'', cd_usage = ''/status'', cd_description = ''Show local chat status'', cd_while_pending = True\<rparr>,
     \<lparr>cd_name = ''clear'', cd_usage = ''/clear'', cd_description = ''Clear the display transcript'', cd_while_pending = True\<rparr>]"

section \<open>Settling a run\<close>

fun event_name :: "chat_event \<Rightarrow> string" where
  "event_name (Ev_Completed t) = ''completed''"
| "event_name (Ev_Failed e) = ''failed''"
| "event_name Ev_Cancelled = ''cancelled''"
| "event_name (Ev_ProtocolError d) = ''protocol_error''"
| "event_name _ = ''settled''"

definition settle :: "chat_event \<Rightarrow> chat \<Rightarrow> chat" where
  "settle ev s =
    s\<lparr>ch_last := u (event_name ev), ch_run := None, ch_start := None, ch_cancel := None, ch_task := None,
      ch_accepted := False, ch_reported := False, ch_start_snapshot := None, ch_cancel_snapshot := None,
      ch_quit := False, ch_run_deadline := None, ch_cancel_deadline := None\<rparr>"

definition terminal_run :: "run_state option \<Rightarrow> bool" where
  "terminal_run r \<longleftrightarrow> r \<in> {Some RUN_COMPLETED, Some RUN_FAILED, Some RUN_CANCELLED}"

definition or_text :: "ustr option \<Rightarrow> ustr option \<Rightarrow> ustr option" where
  \<comment> \<open>\<^verbatim>\<open>a or b\<close>\<close>
  "or_text a b = (if a = None \<or> a = Some [] then b else a)"

definition reconcile :: "command_snapshot \<Rightarrow> command_snapshot option \<Rightarrow> chat_event option" where
  "reconcile start cancel =
    (let snapshots = start # (case cancel of None \<Rightarrow> [] | Some c \<Rightarrow> [c]);
         ends = remdups (filter terminal_run (map sp_run_state snapshots))
     in case ends of
          _ # _ # _ \<Rightarrow> Some (Ev_ProtocolError ''conflicting terminal run states'')
        | [r] \<Rightarrow>
            if r = Some RUN_COMPLETED then
              (case sp_output_text start of
                 Some t \<Rightarrow>
                   if sp_outcome start = CO_COMPLETED \<and> sp_output_state start = OS_PRESENT then Some (Ev_Completed t)
                   else Some (Ev_ProtocolError ''completed run lacks start output'')
               | None \<Rightarrow> Some (Ev_ProtocolError ''completed run lacks start output''))
            else if r = Some RUN_FAILED then
              Some (Ev_Failed (or_text (sp_error_code start) (case cancel of None \<Rightarrow> None | Some c \<Rightarrow> sp_error_code c)))
            else Some Ev_Cancelled
        | [] \<Rightarrow>
            if list_ex (\<lambda>x. sp_outcome x = CO_PROTOCOL_ERROR) snapshots then Some (Ev_ProtocolError ''backend protocol error'')
            else if cancel \<noteq> None \<and> list_all (\<lambda>x. sp_outcome x = CO_CANCELLED \<and> sp_run_state x = None) snapshots
            then Some Ev_Cancelled
            else if list_ex (\<lambda>x. sp_outcome x \<in> {CO_COMPLETED, CO_FAILED, CO_CANCELLED}) snapshots
            then Some (Ev_ProtocolError ''closed command lacks authoritative run state'')
            else None)"

section \<open>Actions without a suspension point\<close>

definition set_session :: "ustr \<Rightarrow> chat \<Rightarrow> chat_event list \<times> chat" where
  "set_session name s =
    (if chat_state s \<noteq> CT_IDLE then ([Ev_Notice (u ''Cancel the active run before changing session'')], s)
     else if blank name then ([Ev_Notice (u ''Session is required'')], s)
     else ([Ev_SessionChanged (strip name)], s\<lparr>ch_session := strip name, ch_last := u ''idle''\<rparr>))"

definition text_or_none :: "ustr option \<Rightarrow> ustr" where
  "text_or_none t = (case t of Some s \<Rightarrow> s | None \<Rightarrow> u ''None'')"

definition status_text :: "chat \<Rightarrow> ustr" where
  "status_text s =
    (case ch_run s of
       None \<Rightarrow> u ''session='' @ ch_session s @ u '' state=idle outcome='' @ ch_last s
     | Some run \<Rightarrow>
         u ''session='' @ ch_session s @ u '' state='' @ u (controller_state_name (chat_state s))
           @ u '' run='' @ run @ u '' command='' @ text_or_none (ch_start s)
           @ (case ch_cancel s of None \<Rightarrow> [] | Some c \<Rightarrow> u '' cancel='' @ c))"

definition dispatch_now :: "chat_action \<Rightarrow> chat \<Rightarrow> (chat_event list \<times> chat) option" where
  \<comment> \<open>\<^verbatim>\<open>dispatch\<close> where it does not go on to \<^verbatim>\<open>_submit\<close> or \<^verbatim>\<open>_cancel\<close>\<close>
  "dispatch_now a s =
    (case a of
       Quit \<Rightarrow> if chat_state s = CT_IDLE then Some ([Ev_QuitRequested False], s) else None
     | Clear \<Rightarrow> Some ([Ev_TranscriptCleared], s)
     | Help \<Rightarrow> Some ([Ev_Notice (join (u '' '') (map (\<lambda>c. u (cd_usage c)) COMMANDS))], s)
     | Status \<Rightarrow> Some ([Ev_Notice (status_text s)], s)
     | SetSession name \<Rightarrow> Some (set_session name s)
     | NewSession \<Rightarrow>
         if chat_state s \<noteq> CT_IDLE then Some ([Ev_Notice (u ''Cancel the active run before /new'')], s)
         else Some ([Ev_TranscriptCleared, Ev_Notice (u ''New display context'')], s\<lparr>ch_last := u ''idle''\<rparr>)
     | _ \<Rightarrow> None)"

definition quit_first :: "chat_action \<Rightarrow> chat \<Rightarrow> chat" where
  \<comment> \<open>what \<^verbatim>\<open>dispatch\<close> changes before it goes on to \<^verbatim>\<open>_cancel\<close>\<close>
  "quit_first a s = (if a = Quit then s\<lparr>ch_quit := True\<rparr> else s)"

definition text_action :: "ustr \<Rightarrow> chat \<Rightarrow> chat_event list + chat_action" where
  \<comment> \<open>\<^verbatim>\<open>dispatch_text\<close>: its own answer, or the action it dispatches\<close>
  "text_action t s =
    (if blank t then Inl []
     else if t = u ''?'' then Inr Help
     else if \<not> starts_with t (u ''/'') then Inr (Submit t)
     else
       (let command = takeWhile (\<lambda>c. c \<noteq> 32) t; argument = drop (length command + 1) t
        in if command = u ''/help'' \<and> argument = [] then Inr Help
           else if command = u ''/status'' \<and> argument = [] then Inr Status
           else if command = u ''/clear'' \<and> argument = [] then Inr Clear
           else if command = u ''/cancel'' \<and> argument = [] then Inr Cancel
           else if command = u ''/quit'' \<and> argument = [] then Inr Quit
           else if command = u ''/new'' \<and> argument = [] then Inr NewSession
           else if command = u ''/session'' then
             (if argument = [] then Inl [Ev_Notice (ch_session s)] else Inr (SetSession (strip argument)))
           else Inl [Ev_Notice (u ''Unknown command: '' @ command)]))"

section \<open>Submitting\<close>

datatype submit_step = Submit_answer "chat_event list" | Submit_raises serr | Submit_call start_run

definition submit_begin :: "ustr \<Rightarrow> ustr \<Rightarrow> ustr \<Rightarrow> chat \<Rightarrow> submit_step \<times> chat" where
  \<comment> \<open>\<^verbatim>\<open>_submit\<close> up to the call of the client, with the fresh identities of the run and the command; the lock
     stays held during the call\<close>
  "submit_begin t run command s =
    (if blank t then (Submit_answer [], s)
     else if ch_run s \<noteq> None then (Submit_answer [Ev_Notice (u ''A run is already active'')], s)
     else
       (let r = \<lparr>sr_session = ch_session s, sr_run = run, sr_command = command, sr_message = t, sr_profile = u ''agent.general''\<rparr>
        in case start_run_init r of
             Inl e \<Rightarrow> (Submit_raises e, s)
           | Inr _ \<Rightarrow> (Submit_call r, s\<lparr>ch_locked := True\<rparr>)))"

definition submit_end :: "start_run \<Rightarrow> rat \<Rightarrow> chat \<Rightarrow> chat_event list \<times> chat" where
  \<comment> \<open>after the call, with the deadline of the observation\<close>
  "submit_end r deadline s =
    ([Ev_Accepted (sr_run r) (sr_command r), Ev_Pending (sr_run r) (sr_command r) None],
     s\<lparr>ch_run := Some (sr_run r), ch_start := Some (sr_command r), ch_last := u ''pending'',
       ch_run_deadline := Some deadline, ch_locked := False\<rparr>)"

definition submit_failed :: "chat \<Rightarrow> chat" where
  "submit_failed s = s\<lparr>ch_locked := False\<rparr>"

section \<open>Cancelling\<close>

datatype cancel_step =
    Cancel_answer "chat_event list" | Cancel_raises serr
  | Cancel_waits nat ustr ustr "ustr option" \<comment> \<open>for the task, with the identities\<close>

definition cancel_start :: "ustr \<Rightarrow> rat \<Rightarrow> ustr \<Rightarrow> chat \<Rightarrow> (serr + cancel_request option) \<times> chat" where
  \<comment> \<open>the task that sends the cancellation, unless there is one\<close>
  "cancel_start run deadline command s =
    (if ch_task s \<noteq> None then (Inr None, s)
     else
       (let r = \<lparr>nr_run = run, nr_command = command\<rparr>; s1 = s\<lparr>ch_cancel := Some command\<rparr>
        in case cancel_request_init r of
             Inl e \<Rightarrow> (Inl e, s1)
           | Inr _ \<Rightarrow> (Inr (Some r), s1\<lparr>ch_task := Some (ch_tasks s), ch_tasks := ch_tasks s + 1,
               ch_cancel_deadline := Some deadline\<rparr>)))"

definition cancel_begin :: "rat \<Rightarrow> ustr \<Rightarrow> chat \<Rightarrow> cancel_step \<times> cancel_request option \<times> chat" where
  \<comment> \<open>\<^verbatim>\<open>_cancel\<close> up to the wait, with a fresh identity: the step, the request a new task sends\<close>
  "cancel_begin deadline command s =
    (case (ch_run s, ch_start s) of
       (Some run, Some start) \<Rightarrow>
         (case cancel_start run deadline command s of
            (Inl e, s1) \<Rightarrow> (Cancel_raises e, None, s1)
          | (Inr q, s1) \<Rightarrow>
              (if ch_reported s1 then
                 (case ch_cancel s1 of
                    None \<Rightarrow> (Cancel_raises (Raises RuntimeErr), q, s1)
                  | Some c \<Rightarrow> (Cancel_answer [Ev_CancelPending run start c], q, s1))
               else (case ch_task s1 of
                       Some task \<Rightarrow> (Cancel_waits task run start (ch_cancel s1), q, s1)
                     | None \<Rightarrow> (Cancel_raises (Raises TypeErr), q, s1))))
     | _ \<Rightarrow> (Cancel_answer [Ev_Notice (u ''No active run'')], None, s))"

definition cancel_timeout :: "nat \<Rightarrow> ustr \<Rightarrow> ustr \<Rightarrow> ustr option \<Rightarrow> chat \<Rightarrow> (serr + chat_event list) \<times> chat" where
  "cancel_timeout task run start cancel s =
    ((case cancel of None \<Rightarrow> Inl (Raises RuntimeErr) | Some c \<Rightarrow> Inr [Ev_CancelPending run start c]),
     if ch_task s = Some task then s\<lparr>ch_reported := True, ch_cancel_deadline := None\<rparr> else s)"

definition cancel_returned :: "nat \<Rightarrow> ustr \<Rightarrow> ustr \<Rightarrow> ustr option \<Rightarrow> chat \<Rightarrow> chat_event list \<times> chat" where
  "cancel_returned task run start cancel s =
    ([Ev_Pending run start cancel], if ch_task s = Some task then s\<lparr>ch_accepted := True\<rparr> else s)"

definition supervise_cancel :: "nat \<Rightarrow> bool \<Rightarrow> chat \<Rightarrow> chat" where
  \<comment> \<open>the callback of a task that has ended, with a result or not\<close>
  "supervise_cancel task ok s = (if ok \<and> ch_task s = Some task then s\<lparr>ch_accepted := True\<rparr> else s)"

section \<open>Observing\<close>

datatype observe_step =
    Observe_answer "chat_event list" | Observe_raises exn
  | Observe_reads ustr ustr "ustr option" \<comment> \<open>the run, the start command and, where it is read, the cancel command\<close>

definition observe_begin :: "rat \<Rightarrow> rat \<Rightarrow> chat \<Rightarrow> observe_step \<times> chat" where
  \<comment> \<open>\<^verbatim>\<open>observe_once\<close> up to its reads, with two readings of the clock\<close>
  "observe_begin now1 now2 s =
    (case (ch_run s, ch_start s) of
       (Some run, Some start) \<Rightarrow>
         if (case ch_cancel_deadline s of Some d \<Rightarrow> d \<le> now1 | None \<Rightarrow> False) then
           (let s1 = s\<lparr>ch_cancel_deadline := None\<rparr>
            in case ch_cancel s1 of
                 None \<Rightarrow> (Observe_raises RuntimeErr, s1)
               | Some c \<Rightarrow> (Observe_answer [Ev_CancelPending run start c], s1))
         else if (case ch_run_deadline s of Some d \<Rightarrow> d \<le> now2 | None \<Rightarrow> False) then (Observe_answer [Ev_Timeout run start], s)
         else (Observe_reads run start (if ch_accepted s then ch_cancel s else None), s)
     | _ \<Rightarrow> (Observe_raises RuntimeErr, s))"

definition observe_end :: "ustr \<Rightarrow> ustr \<Rightarrow> command_snapshot \<Rightarrow> command_snapshot option \<Rightarrow> chat \<Rightarrow> chat_event list \<times> chat" where
  "observe_end run start snapshot cancelled s =
    (let s1 = s\<lparr>ch_start_snapshot := Some snapshot\<rparr>;
         s2 = (if cancelled = None then s1 else s1\<lparr>ch_cancel_snapshot := cancelled\<rparr>)
     in case reconcile snapshot (ch_cancel_snapshot s2) of
          Some ev \<Rightarrow> ((if ch_quit s2 then [ev, Ev_QuitRequested True] else [ev]), settle ev s2)
        | None \<Rightarrow> ([Ev_Pending run start (ch_cancel s2)], s2))"

definition is_pending :: "chat_event list \<Rightarrow> bool" where
  "is_pending evs = (case evs of Ev_Pending _ _ _ # _ \<Rightarrow> True | _ \<Rightarrow> False)"

partial_function (option) observe_rounds ::
  "('w \<Rightarrow> rat \<times> 'w) \<Rightarrow> ('w \<Rightarrow> (serr + chat_event list) \<times> 'w) \<Rightarrow> (rat \<Rightarrow> 'w \<Rightarrow> 'w) \<Rightarrow> rat \<Rightarrow> rat \<Rightarrow> chat_event
    \<Rightarrow> rat \<Rightarrow> 'w \<Rightarrow> ((serr + chat_event list) \<times> 'w) option" where
  \<comment> \<open>the \<^verbatim>\<open>while\<close> loop of \<^verbatim>\<open>observe_until\<close>. The loop threads the world \<open>w\<close> through its calls: reading the clock,
    one \<^verbatim>\<open>observe_once\<close> and the sleep each leave it changed\<close>
  "observe_rounds clock once sleep deadline maximum timeout delay w =
    (if fst (clock w) < deadline then
       (case once (snd (clock w)) of
          (Inl e, w2) \<Rightarrow> Some (Inl e, w2)
        | (Inr evs, w2) \<Rightarrow>
            if \<not> is_pending evs then Some (Inr evs, w2)
            else observe_rounds clock once sleep deadline maximum timeout (min maximum (delay * 2)) (sleep delay w2))
     else Some (Inr [timeout], snd (clock w)))"

definition observe_until ::
  "('w \<Rightarrow> rat \<times> 'w) \<Rightarrow> ('w \<Rightarrow> (serr + chat_event list) \<times> 'w) \<Rightarrow> (rat \<Rightarrow> 'w \<Rightarrow> 'w) \<Rightarrow> rat \<Rightarrow> rat \<Rightarrow> rat \<Rightarrow> chat
    \<Rightarrow> 'w \<Rightarrow> ((serr + chat_event list) \<times> 'w) option" where
  "observe_until clock once sleep seconds initial maximum s w =
    (case (ch_run s, ch_start s) of
       (Some run, Some start) \<Rightarrow>
         observe_rounds clock once sleep (fst (clock w) + seconds) maximum (Ev_Timeout run start) initial (snd (clock w))
     | _ \<Rightarrow> Some (Inl (Raises RuntimeErr), w))"

end
