(* ===== verification/Chat_Properties.thy ===== *)
theory Chat_Properties
  imports Chat Unix_Service
begin

text \<open>
  The properties of the chat: what it reports against what the harness says, that observing ends, and that
  in every interleaving of its calls a run is neither forgotten nor settled twice.
\<close>

section \<open>What a settled run means\<close>

definition faithful :: "command_snapshot \<Rightarrow> bool" where
  \<comment> \<open>a snapshot as the adapter builds it\<close>
  "faithful s \<longleftrightarrow>
     snapshot_init s = Inr s
     \<and> sp_outcome s = closed_outcome (rc_state (sp_receipt s)) (sp_output_state s) (sp_run_state s) (Some (rc_kind (sp_receipt s)))"

lemma adapter_faithful: "adapter_get hn c = Inr s \<Longrightarrow> faithful s"
  unfolding adapter_get_def andthen_Inr_iff
  by (elim exE conjE) (auto simp: andthen_Inr_iff faithful_def snapshot_init_def receipt_of_def split: if_splits)

lemma faithful_present:
  "faithful s \<Longrightarrow> sp_outcome s = CO_COMPLETED \<Longrightarrow> sp_output_state s = OS_PRESENT \<Longrightarrow> sp_run_state s = Some RUN_COMPLETED"
  by (auto simp: faithful_def closed_outcome_def split: if_splits)

lemma faithful_text: "faithful s \<Longrightarrow> sp_output_text s \<noteq> None \<longleftrightarrow> sp_output_state s = OS_PRESENT"
  by (auto simp: faithful_def snapshot_init_def split: if_splits)

definition shown :: "command_snapshot \<Rightarrow> command_snapshot option \<Rightarrow> command_snapshot list" where
  "shown start cancel = start # (case cancel of None \<Rightarrow> [] | Some c \<Rightarrow> [c])"

lemma reconcile_open:
  \<comment> \<open>no run has ended\<close>
  assumes "\<forall>x\<in>set (shown start cancel). \<not> terminal_run (sp_run_state x)"
  shows "reconcile start cancel =
    (if \<exists>x\<in>set (shown start cancel). sp_outcome x = CO_PROTOCOL_ERROR then Some (Ev_ProtocolError ''backend protocol error'')
     else if cancel \<noteq> None \<and> (\<forall>x\<in>set (shown start cancel). sp_outcome x = CO_CANCELLED \<and> sp_run_state x = None) then Some Ev_Cancelled
     else if \<exists>x\<in>set (shown start cancel). sp_outcome x \<noteq> CO_PENDING then Some (Ev_ProtocolError ''closed command lacks authoritative run state'')
     else None)"
proof -
  have "filter terminal_run (map sp_run_state (shown start cancel)) = []"
    using assms by (auto simp: filter_empty_conv)
  moreover have "oc \<in> {CO_COMPLETED, CO_FAILED, CO_CANCELLED} \<longleftrightarrow> oc \<noteq> CO_PENDING \<and> oc \<noteq> CO_PROTOCOL_ERROR" for oc
    by (cases oc) auto
  ultimately show ?thesis
    by (auto simp: reconcile_def Let_def shown_def [symmetric] list_ex_iff list_all_iff)
qed

lemma reconcile_ended:
  \<comment> \<open>one state in which a run has ended\<close>
  assumes "remdups (filter terminal_run (map sp_run_state (shown start cancel))) = [r]"
  shows "reconcile start cancel =
    (if r = Some RUN_COMPLETED then
       Some (case sp_output_text start of
               Some t \<Rightarrow>
                 if sp_outcome start = CO_COMPLETED \<and> sp_output_state start = OS_PRESENT then Ev_Completed t
                 else Ev_ProtocolError ''completed run lacks start output''
             | None \<Rightarrow> Ev_ProtocolError ''completed run lacks start output'')
     else if r = Some RUN_FAILED then
       Some (Ev_Failed (or_text (sp_error_code start) (case cancel of None \<Rightarrow> None | Some c \<Rightarrow> sp_error_code c)))
     else Some Ev_Cancelled)"
  using assms by (auto simp: reconcile_def Let_def shown_def [symmetric] split: option.split)

lemma reconcile_conflict:
  assumes "remdups (filter terminal_run (map sp_run_state (shown start cancel))) = r1 # r2 # rs"
  shows "reconcile start cancel = Some (Ev_ProtocolError ''conflicting terminal run states'')"
  using assms by (simp add: reconcile_def Let_def shown_def [symmetric])

lemma ends_cases:
  obtains (running) "\<forall>x\<in>set (shown start cancel). \<not> terminal_run (sp_run_state x)"
    | (ended) r x where "remdups (filter terminal_run (map sp_run_state (shown start cancel))) = [r]"
        "r \<in> {Some RUN_COMPLETED, Some RUN_FAILED, Some RUN_CANCELLED}"
        "x \<in> set (shown start cancel)" "sp_run_state x = r" "terminal_run (sp_run_state x)"
        "\<forall>x\<in>set (shown start cancel). terminal_run (sp_run_state x) \<longrightarrow> sp_run_state x = r"
    | (conflict) x y where "reconcile start cancel = Some (Ev_ProtocolError ''conflicting terminal run states'')"
        "x \<in> set (shown start cancel)" "y \<in> set (shown start cancel)"
        "terminal_run (sp_run_state x)" "terminal_run (sp_run_state y)" "sp_run_state x \<noteq> sp_run_state y"
proof -
  let ?ends = "remdups (filter terminal_run (map sp_run_state (shown start cancel)))"
  have ends: "set ?ends = {r \<in> sp_run_state ` set (shown start cancel). terminal_run r}"
    by auto
  consider "?ends = []" | r where "?ends = [r]" | r1 r2 rs where "?ends = r1 # r2 # rs" "r1 \<noteq> r2"
    by (metis distinct_length_2_or_more distinct_remdups remdups_adj.cases)
  then show thesis
  proof cases
    case 1
    then show thesis
      using running by (auto simp: filter_empty_conv)
  next
    case (2 r)
    have only: "y \<in> set ?ends \<longleftrightarrow> y = r" for y
      unfolding 2 by simp
    have r: "r \<in> sp_run_state ` set (shown start cancel)" "terminal_run r"
      using only [of r] unfolding ends by simp_all
    obtain x where x: "x \<in> set (shown start cancel)" "sp_run_state x = r"
      using r(1) by (rule imageE) simp
    have all: "\<forall>x\<in>set (shown start cancel). terminal_run (sp_run_state x) \<longrightarrow> sp_run_state x = r"
    proof (intro ballI impI)
      fix y
      assume "y \<in> set (shown start cancel)" "terminal_run (sp_run_state y)"
      then show "sp_run_state y = r"
        using only [of "sp_run_state y"] unfolding ends by simp
    qed
    have "r \<in> {Some RUN_COMPLETED, Some RUN_FAILED, Some RUN_CANCELLED}"
      using r(2) by (simp add: terminal_run_def)
    then show thesis
      using ended [OF 2 _ x _ all] x(2) r(2) by simp
  next
    case (3 r1 r2 rs)
    have "r1 \<in> set ?ends" "r2 \<in> set ?ends"
      unfolding 3(1) by simp_all
    then obtain x y where "x \<in> set (shown start cancel)" "sp_run_state x = r1" "terminal_run r1"
        "y \<in> set (shown start cancel)" "sp_run_state y = r2" "terminal_run r2"
      unfolding ends by blast
    then show thesis
      using conflict [OF reconcile_conflict [OF 3(1)], of x y] 3(2) by simp
  qed
qed

lemma goes_on_iff:
  "reconcile start cancel = None \<longleftrightarrow>
    (\<forall>x\<in>set (shown start cancel). sp_outcome x = CO_PENDING \<and> \<not> terminal_run (sp_run_state x))"
proof (cases rule: ends_cases [of start cancel])
  case running
  have "start \<in> set (shown start cancel)"
    by (simp add: shown_def)
  then show ?thesis
    using running by (auto simp: reconcile_open [OF running])
next
  case (ended r x)
  then have "reconcile start cancel \<noteq> None"
    by (auto simp: reconcile_ended [OF ended(1)])
  then show ?thesis
    using ended(3,5) by blast
next
  case (conflict x y)
  then show ?thesis
    by auto
qed

lemma completes_iff:
  assumes "faithful start"
  shows "reconcile start cancel = Some (Ev_Completed t) \<longleftrightarrow>
    sp_output_text start = Some t \<and> sp_run_state start = Some RUN_COMPLETED \<and> sp_outcome start = CO_COMPLETED
    \<and> (\<forall>x\<in>set (shown start cancel). terminal_run (sp_run_state x) \<longrightarrow> sp_run_state x = Some RUN_COMPLETED)"
proof -
  have start: "start \<in> set (shown start cancel)" "terminal_run (Some RUN_COMPLETED)"
    by (simp_all add: shown_def terminal_run_def)
  have present: "sp_output_state start = OS_PRESENT" if "sp_output_text start = Some t'" for t'
    using faithful_text [OF assms] that by simp
  show ?thesis
  proof (cases rule: ends_cases [of start cancel])
    case running
    then have "sp_run_state start \<noteq> Some RUN_COMPLETED"
      using start by metis
    then show ?thesis
      by (simp add: reconcile_open [OF running])
  next
    case (ended r x)
    show ?thesis
    proof (cases "r = Some RUN_COMPLETED")
      case True
      then show ?thesis
        using ended(6) present faithful_present [OF assms] by (auto simp: reconcile_ended [OF ended(1)] split: option.split)
    next
      case False
      then have "reconcile start cancel \<noteq> Some (Ev_Completed t)"
        by (simp add: reconcile_ended [OF ended(1)])
      then show ?thesis
        using False ended(3-5) by metis
    qed
  next
    case (conflict x y)
    then have "reconcile start cancel \<noteq> Some (Ev_Completed t)"
      by simp
    then show ?thesis
      using conflict(2-6) by metis
  qed
qed

lemma fails_when_failed:
  assumes "reconcile start cancel = Some (Ev_Failed e)"
  shows "\<exists>x\<in>set (shown start cancel). sp_run_state x = Some RUN_FAILED"
proof (cases rule: ends_cases [of start cancel])
  case running
  then show ?thesis
    using assms by (simp add: reconcile_open [OF running] split: if_splits)
next
  case (ended r x)
  then show ?thesis
    using assms by (auto simp: reconcile_ended [OF ended(1)] split: if_splits option.splits)
next
  case (conflict x y)
  then show ?thesis
    using assms by simp
qed

lemma cancelled_when_cancelled:
  assumes "reconcile start cancel = Some Ev_Cancelled"
  shows "(\<exists>x\<in>set (shown start cancel). sp_run_state x = Some RUN_CANCELLED)
    \<or> (\<forall>x\<in>set (shown start cancel). sp_outcome x = CO_CANCELLED)"
proof (cases rule: ends_cases [of start cancel])
  case running
  then show ?thesis
    using assms by (simp add: reconcile_open [OF running] split: if_splits)
next
  case (ended r x)
  then have "r = Some RUN_CANCELLED"
    using assms by (auto simp: reconcile_ended [OF ended(1)] split: if_splits option.splits)
  then show ?thesis
    using ended(3,4) by blast
next
  case (conflict x y)
  then show ?thesis
    using assms by simp
qed

text \<open>
  C35. What the chat reports is what the harness says. On a snapshot of the start command that the adapter built,
  the chat goes on observing exactly when every command is pending and no run has ended; it reports a
  completion exactly with the text that the start command has present, its run being completed, and nothing
  says otherwise about the run; and it reports a failure or a cancellation only when a run or both commands
  ended so.
\<close>

theorem chat_reports_backend:
  assumes "adapter_get hn command = Inr start"
  shows "(reconcile start cancel = None \<longleftrightarrow>
      (\<forall>x\<in>set (shown start cancel). sp_outcome x = CO_PENDING \<and> \<not> terminal_run (sp_run_state x)))
    \<and> (reconcile start cancel = Some (Ev_Completed t) \<longleftrightarrow>
        sp_output_text start = Some t \<and> sp_run_state start = Some RUN_COMPLETED \<and> sp_outcome start = CO_COMPLETED
        \<and> (\<forall>x\<in>set (shown start cancel). terminal_run (sp_run_state x) \<longrightarrow> sp_run_state x = Some RUN_COMPLETED))
    \<and> (\<forall>e. reconcile start cancel = Some (Ev_Failed e) \<longrightarrow> (\<exists>x\<in>set (shown start cancel). sp_run_state x = Some RUN_FAILED))
    \<and> (reconcile start cancel = Some Ev_Cancelled \<longrightarrow>
        (\<exists>x\<in>set (shown start cancel). sp_run_state x = Some RUN_CANCELLED)
        \<or> (\<forall>x\<in>set (shown start cancel). sp_outcome x = CO_CANCELLED))"
  using goes_on_iff completes_iff [OF adapter_faithful [OF assms]] fails_when_failed cancelled_when_cancelled by blast

definition torn_harness :: harness where
  \<comment> \<open>the run completes between the reading of the command and the reading of its run\<close>
  "torn_harness =
    example_harness\<lparr>hn_get_command := (\<lambda>c. Inr \<lparr>
      hs_receipt = \<lparr>hr_command = u ''svc_command'', hr_run = u ''svc_run'', hr_accept_seq = 3, hr_state = u ''applied'', hr_version = 1, hr_kind = u ''start''\<rparr>,
      hs_output = None, hs_output_state = u ''pending'', hs_error = None\<rparr>)\<rparr>"

theorem chat_reports_backend_witness:
  "\<exists>start. adapter_get example_harness (u ''c'') = Inr start \<and> reconcile start None = Some (Ev_Completed (u ''hi''))"
proof -
  have get: "adapter_get example_harness (u ''c'') = Inr example_snapshot"
    by (rule example_adapter_get)
  have "sp_output_text example_snapshot = Some (u ''hi'') \<and> sp_run_state example_snapshot = Some RUN_COMPLETED
      \<and> sp_outcome example_snapshot = CO_COMPLETED"
    by (simp add: example_snapshot_def)
  then show ?thesis
    using get chat_reports_backend [OF get, of None "u ''hi''"] by (simp add: shown_def)
qed

text \<open>
  C38. What the code does when a run completes between the two reads of the adapter, the command with its
  output and then the state of the run: the two halves contradict each other, the chat takes this for a
  protocol error, and it gives the run up with its output, which a second look would have shown.
\<close>

theorem torn_read_gives_up:
  assumes "hn_get_command hn command = Inr h" "hn_query hn (hr_run (hs_receipt h)) = Inr (Some (u ''completed''))"
    and "hs_output_state h = u ''pending''" "hs_output h = None"
    and "hr_state (hs_receipt h) = u ''applied''" "hr_kind (hs_receipt h) = u ''start''"
    and "ch_cancel_snapshot s = None" "\<not> ch_quit s"
  shows "\<exists>x. adapter_get hn command = Inr x
    \<and> fst (observe_end run start x None s) = [Ev_ProtocolError ''completed run lacks start output'']
    \<and> ch_run (snd (observe_end run start x None s)) = None"
  using assms
  by (simp add: adapter_get_def enum_of_def run_states_def output_states_def command_states_def command_kinds_def
      receipt_of_def output_text_def snapshot_init_def closed_outcome_def observe_end_def reconcile_def terminal_run_def settle_def)

theorem torn_read_gives_up_witness:
  "\<exists>x s. adapter_get torn_harness (u ''c'') = Inr x
    \<and> fst (observe_end (u ''r'') (u ''s'') x None s) = [Ev_ProtocolError ''completed run lacks start output'']"
proof -
  obtain s where s: "chat_init (u ''main'') = Inr s"
    by (simp add: chat_init_def blank_def u_def py_space_def)
  then have "ch_cancel_snapshot s = None" "\<not> ch_quit s"
    by (auto simp: chat_init_def split: if_splits)
  then show ?thesis
    using torn_read_gives_up [of torn_harness "u ''c''" _ s "u ''r''" "u ''s''"]
    by (fastforce simp: torn_harness_def example_harness_def Let_def)
qed

section \<open>Observing ends\<close>

definition pending_round :: "('w \<Rightarrow> rat \<times> 'w) \<Rightarrow> ('w \<Rightarrow> (serr + chat_event list) \<times> 'w) \<Rightarrow> rat \<Rightarrow> 'w \<Rightarrow> bool" where
  \<comment> \<open>before the deadline, and the observation finds the run pending\<close>
  "pending_round clock once deadline w \<longleftrightarrow>
     fst (clock w) < deadline \<and> (\<exists>evs. fst (once (snd (clock w))) = Inr evs \<and> is_pending evs)"

definition last_round ::
  "('w \<Rightarrow> rat \<times> 'w) \<Rightarrow> ('w \<Rightarrow> (serr + chat_event list) \<times> 'w) \<Rightarrow> rat \<Rightarrow> chat_event \<Rightarrow> 'w \<Rightarrow> (serr + chat_event list) \<times> 'w \<Rightarrow> bool" where
  \<comment> \<open>the result of a round that is not pending: the answer, an exception, or the timeout after the deadline\<close>
  "last_round clock once deadline timeout w res \<longleftrightarrow>
     \<not> pending_round clock once deadline w
     \<and> res = (if fst (clock w) < deadline then once (snd (clock w)) else (Inr [timeout], snd (clock w)))"

primrec round_world ::
  "('w \<Rightarrow> rat \<times> 'w) \<Rightarrow> ('w \<Rightarrow> (serr + chat_event list) \<times> 'w) \<Rightarrow> (rat \<Rightarrow> 'w \<Rightarrow> 'w) \<Rightarrow> rat \<Rightarrow> nat \<Rightarrow> rat \<Rightarrow> 'w \<Rightarrow> 'w" where
  \<comment> \<open>the world in which a round begins, when every round before it was pending: each reads the clock, observes,
    and sleeps for its delay, which doubles up to the maximum\<close>
  "round_world clock once sleep maximum 0 delay w = w"
| "round_world clock once sleep maximum (Suc k) delay w =
     round_world clock once sleep maximum k (min maximum (delay * 2)) (sleep delay (snd (once (snd (clock w)))))"

definition ended_after ::
  "('w \<Rightarrow> rat \<times> 'w) \<Rightarrow> ('w \<Rightarrow> (serr + chat_event list) \<times> 'w) \<Rightarrow> (rat \<Rightarrow> 'w \<Rightarrow> 'w) \<Rightarrow> rat \<Rightarrow> rat \<Rightarrow> chat_event
    \<Rightarrow> rat \<Rightarrow> 'w \<Rightarrow> nat \<Rightarrow> (serr + chat_event list) \<times> 'w \<Rightarrow> bool" where
  \<comment> \<open>\<open>m\<close> rounds are pending, each followed by its sleep, and the next one ends with the result\<close>
  "ended_after clock once sleep deadline maximum timeout delay w m res \<longleftrightarrow>
     (\<forall>j<m. pending_round clock once deadline (round_world clock once sleep maximum j delay w))
     \<and> last_round clock once deadline timeout (round_world clock once sleep maximum m delay w) res"

lemma rounds_end:
  fixes d :: rat
  assumes d: "0 < d" "d \<le> maximum"
    and observing: "\<And>w. fst (clock w) \<le> fst (clock (snd (clock w)))" "\<And>w. fst (clock w) \<le> fst (clock (snd (once w)))"
    and sleeping: "\<And>w e. 0 < e \<Longrightarrow> fst (clock w) + e \<le> fst (clock (sleep e w))"
  shows "d \<le> delay \<Longrightarrow> deadline \<le> fst (clock w) + of_nat n * d \<Longrightarrow>
    \<exists>m res. observe_rounds clock once sleep deadline maximum timeout delay w = Some res \<and> m \<le> n
      \<and> ended_after clock once sleep deadline maximum timeout delay w m res"
proof (induction n arbitrary: delay w)
  case 0
  then show ?case
    by (subst observe_rounds.simps) (auto simp: ended_after_def last_round_def pending_round_def)
next
  case (Suc n)
  show ?case
  proof (cases "pending_round clock once deadline w")
    case False
    then show ?thesis
      by (subst observe_rounds.simps)
        (fastforce intro!: exI [of _ 0] simp: ended_after_def last_round_def pending_round_def split: prod.splits sum.splits)
  next
    case True
    then obtain evs w2 where evs: "once (snd (clock w)) = (Inr evs, w2)" "is_pending evs" "fst (clock w) < deadline"
      by (auto simp: pending_round_def prod_eq_iff)
    have "fst (clock w) \<le> fst (clock w2)"
      using observing(1) [of w] observing(2) [of "snd (clock w)"] evs(1) by simp
    then have "fst (clock w) + d \<le> fst (clock (sleep delay w2))"
      using sleeping [of delay w2] Suc.prems(1) d(1) by simp
    then have "deadline \<le> fst (clock (sleep delay w2)) + of_nat n * d"
      using Suc.prems(2) by (simp add: algebra_simps)
    moreover have "d \<le> min maximum (delay * 2)"
      using Suc.prems(1) d by simp
    ultimately obtain m res where m:
      "observe_rounds clock once sleep deadline maximum timeout (min maximum (delay * 2)) (sleep delay w2) = Some res" "m \<le> n"
      "\<forall>j<m. pending_round clock once deadline (round_world clock once sleep maximum j (min maximum (delay * 2)) (sleep delay w2))"
      "last_round clock once deadline timeout (round_world clock once sleep maximum m (min maximum (delay * 2)) (sleep delay w2)) res"
      using Suc.IH unfolding ended_after_def by blast
    have "observe_rounds clock once sleep deadline maximum timeout delay w = Some res"
      using m(1) evs by (subst observe_rounds.simps) simp
    moreover have "\<forall>j<Suc m. pending_round clock once deadline (round_world clock once sleep maximum j delay w)"
      using m(3) True evs(1) by (simp add: All_less_Suc2)
    ultimately show ?thesis
      using m(2,4) evs(1) by (intro exI [of _ "Suc m"] exI [of _ res]) (simp add: ended_after_def)
  qed
qed

text \<open>
  C36. Observing ends. On a clock that never goes back, and with a sleep that lasts at least its delay, the loop
  returns after at most as many pending rounds, each with its sleep, as the shorter of the two delays fits into the
  deadline, whatever the observations answer: with the first answer that is not pending, with the first
  exception, or with the timeout, and not before.
\<close>

theorem observe_until_ends:
  assumes "ch_run s = Some run" "ch_start s = Some start" "0 < initial" "0 < maximum"
    and "\<And>w. fst (clock w) \<le> fst (clock (snd (clock w)))" "\<And>w. fst (clock w) \<le> fst (clock (snd (once w)))"
    and "\<And>w e. 0 < e \<Longrightarrow> fst (clock w) + e \<le> fst (clock (sleep e w))"
  shows "\<exists>m res. observe_until clock once sleep seconds initial maximum s w = Some res
    \<and> m \<le> nat \<lceil>seconds / min initial maximum\<rceil>
    \<and> ended_after clock once sleep (fst (clock w) + seconds) maximum (Ev_Timeout run start) initial (snd (clock w)) m res"
proof -
  let ?d = "min initial maximum"
  have d: "0 < ?d" "?d \<le> maximum" "?d \<le> initial"
    using assms(3,4) by simp_all
  have "seconds / ?d \<le> of_nat (nat \<lceil>seconds / ?d\<rceil>)"
    by (rule of_nat_ceiling)
  then have "seconds \<le> of_nat (nat \<lceil>seconds / ?d\<rceil>) * ?d"
    using d by (simp add: pos_divide_le_eq)
  then have "fst (clock w) + seconds \<le> fst (clock (snd (clock w))) + of_nat (nat \<lceil>seconds / ?d\<rceil>) * ?d"
    using assms(5) [of w] by simp
  from rounds_end [where clock = clock and once = once and sleep = sleep, OF d(1,2) assms(5-7) d(3) this] show ?thesis
    using assms(1,2) by (simp add: observe_until_def)
qed

definition slow_clock :: "rat \<Rightarrow> rat \<times> rat" where
  \<comment> \<open>a world that is the time, which a reading does not advance\<close>
  "slow_clock t = (t, t)"

definition still_pending :: "rat \<Rightarrow> (serr + chat_event list) \<times> rat" where
  "still_pending t = (Inr [Ev_Pending [] [] None], t + 1 / 4)"

theorem observe_until_ends_witness:
  "\<exists>m res s. observe_until slow_clock still_pending (+) 5 (1 / 10) 1 s 0 = Some res \<and> m \<le> 50
    \<and> ended_after slow_clock still_pending (+) 5 1 (Ev_Timeout (u ''r'') (u ''c'')) (1 / 10) 0 m res"
proof -
  obtain s0 where "chat_init (u ''main'') = Inr s0"
    by (simp add: chat_init_def blank_def u_def py_space_def)
  then obtain s :: chat where s: "ch_run s = Some (u ''r'')" "ch_start s = Some (u ''c'')"
    by (metis chat.select_convs(2,3) chat.surjective chat.update_convs(2,3))
  have "\<exists>m res. observe_until slow_clock still_pending (+) 5 (1 / 10) 1 s 0 = Some res
    \<and> m \<le> nat \<lceil>5 / min (1 / 10) (1 :: rat)\<rceil>
    \<and> ended_after slow_clock still_pending (+) (fst (slow_clock 0) + 5) 1 (Ev_Timeout (u ''r'') (u ''c''))
          (1 / 10) (snd (slow_clock 0)) m res"
    by (rule observe_until_ends [OF s]) (simp_all add: slow_clock_def still_pending_def)
  then show ?thesis
    by (auto simp: slow_clock_def)
qed

end
