(* ===== verification/Chat_System.thy ===== *)
theory Chat_System
  imports Chat_Properties
begin

text \<open>
  The chat in every interleaving of its coroutines: one submission at a time behind the lock, any number of
  cancellations that wait, the tasks that send them, and one observer, as the terminal has.
\<close>

section \<open>The state of the controller\<close>

definition chat_ok :: "chat \<Rightarrow> bool" where
  "chat_ok s \<longleftrightarrow>
     (ch_run s = None \<longleftrightarrow> ch_start s = None)
     \<and> (ch_run s = None \<longrightarrow> ch_cancel s = None \<and> ch_task s = None \<and> \<not> ch_accepted s \<and> \<not> ch_reported s \<and> \<not> ch_quit s
          \<and> ch_run_deadline s = None \<and> ch_cancel_deadline s = None \<and> ch_start_snapshot s = None \<and> ch_cancel_snapshot s = None)
     \<and> (ch_task s \<noteq> None \<longrightarrow> ch_cancel s \<noteq> None)
     \<and> (ch_accepted s \<or> ch_reported s \<longrightarrow> ch_task s \<noteq> None)
     \<and> (ch_cancel_deadline s \<noteq> None \<longrightarrow> ch_cancel s \<noteq> None)
     \<and> (ch_locked s \<longrightarrow> ch_run s = None)"

lemma settle_ok: "\<not> ch_locked s \<Longrightarrow> chat_ok (settle ev s)"
  by (simp add: chat_ok_def settle_def)

definition same_run :: "chat \<Rightarrow> chat \<Rightarrow> bool" where
  \<comment> \<open>the run, its cancellation and the lock are the same\<close>
  "same_run s t \<longleftrightarrow>
     ch_run t = ch_run s \<and> ch_start t = ch_start s \<and> ch_task t = ch_task s \<and> ch_locked t = ch_locked s"

lemma same_run_refl [simp]: "same_run s s"
  by (simp add: same_run_def)

lemma labels_ok [simp]:
  "chat_ok (s\<lparr>ch_last := x\<rparr>) \<longleftrightarrow> chat_ok s" "chat_ok (s\<lparr>ch_session := y\<rparr>) \<longleftrightarrow> chat_ok s"
  by (simp_all add: chat_ok_def)

lemma now_ok:
  assumes "dispatch_now a s = Some (evs, t)" "chat_ok s"
  shows "chat_ok t \<and> same_run s t"
proof -
  have "t = s \<or> (\<exists>x. t = s\<lparr>ch_last := x\<rparr>) \<or> (\<exists>x y. t = s\<lparr>ch_session := y, ch_last := x\<rparr>)"
    using assms(1) by (cases a) (auto simp: dispatch_now_def set_session_def split: if_splits)
  then show ?thesis
    using assms(2) by (auto simp: same_run_def)
qed

lemma submit_begin_ok:
  assumes "submit_begin m run command s = (q, t)" "chat_ok s" "\<not> ch_locked s"
  shows "case q of
      Submit_call r \<Rightarrow> ch_run s = None \<and> t = s\<lparr>ch_locked := True\<rparr> \<and> sr_run r = run \<and> chat_ok t
    | _ \<Rightarrow> t = s"
  using assms by (auto simp: submit_begin_def Let_def chat_ok_def split: if_splits sum.splits)

lemma submit_end_ok:
  assumes "chat_ok s" "ch_locked s"
  shows "chat_ok (snd (submit_end r d s))" "ch_run (snd (submit_end r d s)) = Some (sr_run r)"
    "ch_task (snd (submit_end r d s)) = None" "\<not> ch_locked (snd (submit_end r d s))"
  using assms by (auto simp: submit_end_def chat_ok_def)

lemma submit_failed_ok:
  assumes "chat_ok s" "ch_locked s"
  shows "chat_ok (submit_failed s)" "ch_run (submit_failed s) = None" "\<not> ch_locked (submit_failed s)"
  using assms by (auto simp: submit_failed_def chat_ok_def)

lemma cancel_start_ok:
  assumes "cancel_start run d command s = (q, t)" "chat_ok s" "ch_run s = Some run" "\<not> ch_locked s"
  shows "chat_ok t \<and> ch_run t = ch_run s \<and> ch_start t = ch_start s \<and> \<not> ch_locked t
    \<and> (case q of
         Inl e \<Rightarrow> ch_task s = None \<and> ch_task t = None
       | Inr None \<Rightarrow> ch_task s \<noteq> None \<and> t = s
       | Inr (Some r) \<Rightarrow> ch_task s = None \<and> ch_task t \<noteq> None \<and> nr_run r = run)"
  using assms by (auto simp: cancel_start_def Let_def chat_ok_def split: if_splits sum.splits)

definition fatal :: "serr \<Rightarrow> bool" where
  \<comment> \<open>an exception that says that the controller's own state is wrong\<close>
  "fatal e \<longleftrightarrow> e = Raises RuntimeErr \<or> e = Raises TypeErr"

lemma request_not_fatal: "cancel_request_init r = Inl e \<Longrightarrow> \<not> fatal e"
proof -
  have one: "service_text t m = Inl e \<Longrightarrow> \<not> fatal e" for t m
    by (auto simp: service_text_def fatal_def split: if_splits)
  have "texts_checked ts = Inl e \<Longrightarrow> \<not> fatal e" for ts
    by (induction ts) (auto simp: andthen_Inl_iff dest: one)
  then show "cancel_request_init r = Inl e \<Longrightarrow> \<not> fatal e"
    unfolding cancel_request_init_def by blast
qed

lemma cancel_begin_ok:
  assumes "cancel_begin d command s = (st, q, t)" "chat_ok s" "\<not> ch_locked s"
  shows "chat_ok t \<and> ch_run t = ch_run s \<and> ch_start t = ch_start s \<and> \<not> ch_locked t
    \<and> (ch_task s \<noteq> None \<longrightarrow> ch_task t \<noteq> None)
    \<and> (\<forall>r. q = Some r \<longrightarrow> ch_run s = Some (nr_run r) \<and> ch_task s = None \<and> ch_task t \<noteq> None)
    \<and> (q = None \<longrightarrow> ch_task t = ch_task s)
    \<and> (\<forall>e. st = Cancel_raises e \<longrightarrow> \<not> fatal e)
    \<and> (\<forall>k r b c. st = Cancel_waits k r b c \<longrightarrow> c \<noteq> None)"
proof (cases "\<exists>run b. ch_run s = Some run \<and> ch_start s = Some b")
  case False
  then have "t = s" "q = None" "st = Cancel_answer [Ev_Notice (u ''No active run'')]"
    using assms(1) by (auto simp: cancel_begin_def split: option.splits)
  then show ?thesis
    using assms(2,3) by simp
next
  case True
  then obtain run b where rb: "ch_run s = Some run" "ch_start s = Some b"
    by blast
  obtain x y where xy: "cancel_start run d command s = (x, y)"
    by (cases "cancel_start run d command s")
  note ok = cancel_start_ok [OF xy assms(2) rb(1) assms(3)]
  show ?thesis
  proof (cases x)
    case (Inl e)
    have "\<not> fatal e"
      using xy Inl request_not_fatal by (auto simp: cancel_start_def Let_def split: if_splits sum.splits)
    then show ?thesis
      using assms(1) ok Inl rb by (auto simp: cancel_begin_def xy)
  next
    case (Inr z)
    have task: "ch_task y \<noteq> None" "ch_cancel y \<noteq> None"
      using ok Inr by (auto simp: chat_ok_def split: option.splits)
    have "(st, q, t) =
        (if ch_reported y then
           (case ch_cancel y of
              None \<Rightarrow> (Cancel_raises (Raises RuntimeErr), z, y)
            | Some c \<Rightarrow> (Cancel_answer [Ev_CancelPending run b c], z, y))
         else (case ch_task y of
                 Some k \<Rightarrow> (Cancel_waits k run b (ch_cancel y), z, y)
               | None \<Rightarrow> (Cancel_raises (Raises TypeErr), z, y)))"
      using assms(1) rb xy Inr by (simp add: cancel_begin_def)
    then have "t = y" "q = z" "\<forall>e. st \<noteq> Cancel_raises e" "\<forall>k r b c. st = Cancel_waits k r b c \<longrightarrow> c \<noteq> None"
      using task by (auto split: if_splits option.splits)
    then show ?thesis
      using ok Inr task rb by (auto split: option.splits)
  qed
qed

lemma cancel_answered_ok:
  assumes "chat_ok s"
  shows "chat_ok (snd (cancel_timeout k r b c s)) \<and> same_run s (snd (cancel_timeout k r b c s))"
    "chat_ok (snd (cancel_returned k r b c s)) \<and> same_run s (snd (cancel_returned k r b c s))"
    "chat_ok (supervise_cancel k ok s) \<and> same_run s (supervise_cancel k ok s)"
  using assms by (auto simp: cancel_timeout_def cancel_returned_def supervise_cancel_def chat_ok_def same_run_def)

lemma quit_first_ok:
  "chat_ok s \<Longrightarrow> a = Quit \<longrightarrow> ch_run s \<noteq> None \<Longrightarrow> chat_ok (quit_first a s) \<and> same_run s (quit_first a s)"
  by (auto simp: quit_first_def chat_ok_def same_run_def)

lemma observe_begin_ok:
  assumes "observe_begin n1 n2 s = (st, t)" "chat_ok s"
  shows "chat_ok t \<and> same_run s t"
    "\<And>r b c. st = Observe_reads r b c \<Longrightarrow> ch_run s = Some r \<and> ch_start s = Some b \<and> t = s"
    "\<And>e. st = Observe_raises e \<Longrightarrow> ch_run s = None"
proof -
  have clear: "chat_ok (s\<lparr>ch_cancel_deadline := None\<rparr>)"
    using assms(2) by (simp add: chat_ok_def)
  have cancel: "ch_cancel s = None \<Longrightarrow> ch_cancel_deadline s = None" "ch_run s = None \<longleftrightarrow> ch_start s = None"
    using assms(2) by (auto simp: chat_ok_def)
  have "t = s \<or> t = s\<lparr>ch_cancel_deadline := None\<rparr>"
    using assms(1) by (auto simp: observe_begin_def Let_def split: option.splits if_splits)
  then show "chat_ok t \<and> same_run s t"
    using clear assms(2) by (auto simp: same_run_def)
  show "ch_run s = Some r \<and> ch_start s = Some b \<and> t = s" if "st = Observe_reads r b c" for r b c
    using assms(1) that by (auto simp: observe_begin_def Let_def split: option.splits if_splits)
  show "ch_run s = None" if "st = Observe_raises e" for e
    using assms(1) that cancel by (auto simp: observe_begin_def Let_def split: option.splits if_splits)
qed

lemma observe_end_ok:
  assumes "observe_end r b x c s = (evs, t)" "chat_ok s" "ch_run s = Some r"
  shows "chat_ok t \<and> (same_run s t \<or> ch_run t = None \<and> ch_task t = None \<and> \<not> ch_locked t)"
proof -
  have "\<not> ch_locked s"
    using assms(2,3) by (auto simp: chat_ok_def)
  let ?s = "if c = None then s\<lparr>ch_start_snapshot := Some x\<rparr> else s\<lparr>ch_start_snapshot := Some x, ch_cancel_snapshot := c\<rparr>"
  have s: "chat_ok ?s" "same_run s ?s" "\<not> ch_locked ?s"
    using assms(2,3) \<open>\<not> ch_locked s\<close> by (simp_all add: chat_ok_def same_run_def)
  have "t = ?s \<or> (\<exists>ev. t = settle ev ?s)"
    using assms(1) unfolding observe_end_def Let_def by (auto split: option.splits)
  then show ?thesis
  proof
    assume "\<exists>ev. t = settle ev ?s"
    then obtain ev where "t = settle ev ?s"
      by blast
    then show ?thesis
      using settle_ok [OF s(3)] s(3) by (simp add: settle_def)
  qed (use s in simp)
qed

section \<open>Interleavings\<close>

record chat_world =
  cw_chat :: chat
  cw_submit :: "start_run option" \<comment> \<open>the start that is under way, behind the lock\<close>
  cw_waits :: "(nat \<times> ustr \<times> ustr \<times> ustr option) list" \<comment> \<open>the cancellations that have come to their wait\<close>
  cw_observer :: "(ustr \<times> ustr) option" \<comment> \<open>the reads that are under way\<close>
  cw_started :: "ustr list" \<comment> \<open>the runs whose start the client has accepted\<close>
  cw_cancels :: "cancel_request list" \<comment> \<open>the cancellations that were sent\<close>
  cw_settled :: "(ustr \<times> chat_event list) list" \<comment> \<open>the runs that were given up, with what was reported\<close>

inductive chat_step :: "chat_world \<Rightarrow> chat_world \<Rightarrow> bool" where
  now_step: "dispatch_now a (cw_chat w) = Some (evs, t) \<Longrightarrow> chat_step w (w\<lparr>cw_chat := t\<rparr>)"
| submit_step: "submit_begin m run command (cw_chat w) = (q, t) \<Longrightarrow> \<not> ch_locked (cw_chat w) \<Longrightarrow>
    run \<notin> set (cw_started w) \<comment> \<open>the identities are fresh\<close> \<Longrightarrow>
    chat_step w (w\<lparr>cw_chat := t, cw_submit := (case q of Submit_call r \<Rightarrow> Some r | _ \<Rightarrow> cw_submit w)\<rparr>)"
| started_step: "cw_submit w = Some r \<Longrightarrow>
    chat_step w (w\<lparr>cw_chat := snd (submit_end r d (cw_chat w)), cw_submit := None, cw_started := sr_run r # cw_started w\<rparr>)"
| failed_step: "cw_submit w = Some r \<Longrightarrow>
    chat_step w (w\<lparr>cw_chat := submit_failed (cw_chat w), cw_submit := None\<rparr>)"
| quit_step: "chat_state (cw_chat w) \<noteq> CT_IDLE \<Longrightarrow> \<comment> \<open>then it goes on to cancel\<close>
    chat_step w (w\<lparr>cw_chat := quit_first Quit (cw_chat w)\<rparr>)"
| cancel_step: "\<not> ch_locked (cw_chat w) \<Longrightarrow> cancel_begin d command (cw_chat w) = (st, q, t) \<Longrightarrow>
    chat_step w (w\<lparr>cw_chat := t, cw_cancels := (case q of Some r \<Rightarrow> r # cw_cancels w | None \<Rightarrow> cw_cancels w),
      cw_waits := (case st of Cancel_waits k r b c \<Rightarrow> (k, r, b, c) # cw_waits w | _ \<Rightarrow> cw_waits w)\<rparr>)"
| timeout_step: "(k, r, b, c) \<in> set (cw_waits w) \<Longrightarrow> \<not> ch_locked (cw_chat w) \<Longrightarrow>
    chat_step w (w\<lparr>cw_chat := snd (cancel_timeout k r b c (cw_chat w))\<rparr>)"
| returned_step: "(k, r, b, c) \<in> set (cw_waits w) \<Longrightarrow> \<not> ch_locked (cw_chat w) \<Longrightarrow>
    chat_step w (w\<lparr>cw_chat := snd (cancel_returned k r b c (cw_chat w))\<rparr>)"
| supervise_step: "chat_step w (w\<lparr>cw_chat := supervise_cancel k ok (cw_chat w)\<rparr>)"
| observe_step: "cw_observer w = None \<Longrightarrow> observe_begin n1 n2 (cw_chat w) = (st, t) \<Longrightarrow>
    chat_step w (w\<lparr>cw_chat := t, cw_observer := (case st of Observe_reads r b c \<Rightarrow> Some (r, b) | _ \<Rightarrow> None)\<rparr>)"
| unread_step: "cw_observer w = Some (r, b) \<Longrightarrow> chat_step w (w\<lparr>cw_observer := None\<rparr>)"
| observed_step: "cw_observer w = Some (r, b) \<Longrightarrow> observe_end r b x c (cw_chat w) = (evs, t) \<Longrightarrow>
    chat_step w (w\<lparr>cw_chat := t, cw_observer := None,
      cw_settled := (if ch_run t = None then (r, evs) # cw_settled w else cw_settled w)\<rparr>)"

definition chat_world_start :: "chat_world \<Rightarrow> bool" where
  "chat_world_start w \<longleftrightarrow>
     (\<exists>session s. chat_init session = Inr s \<and> w = \<lparr>cw_chat = s, cw_submit = None, cw_waits = [], cw_observer = None,
        cw_started = [], cw_cancels = [], cw_settled = []\<rparr>)"

definition ledger_ok :: "chat_world \<Rightarrow> bool" where
  \<comment> \<open>every run that was started is active or settled, and has at most one cancellation\<close>
  "ledger_ok w \<longleftrightarrow>
     distinct (cw_started w) \<and> distinct (map fst (cw_settled w)) \<and> distinct (map nr_run (cw_cancels w))
     \<and> set (cw_started w) = set_option (ch_run (cw_chat w)) \<union> set (map fst (cw_settled w))
     \<and> (\<forall>r. ch_run (cw_chat w) = Some r \<longrightarrow> r \<notin> set (map fst (cw_settled w)))
     \<and> set (map nr_run (cw_cancels w)) \<subseteq> set (cw_started w)
     \<and> (\<forall>r. ch_run (cw_chat w) = Some r \<longrightarrow> r \<in> set (map nr_run (cw_cancels w)) \<longrightarrow> ch_task (cw_chat w) \<noteq> None)"

definition world_ok :: "chat_world \<Rightarrow> bool" where
  "world_ok w \<longleftrightarrow>
     chat_ok (cw_chat w) \<and> ledger_ok w
     \<and> (ch_locked (cw_chat w) \<longleftrightarrow> cw_submit w \<noteq> None)
     \<and> (\<forall>r. cw_submit w = Some r \<longrightarrow> sr_run r \<notin> set (cw_started w))
     \<and> (\<forall>r b. cw_observer w = Some (r, b) \<longrightarrow> ch_run (cw_chat w) = Some r \<and> ch_start (cw_chat w) = Some b)
     \<and> (\<forall>(k, r, b, c) \<in> set (cw_waits w). c \<noteq> None)"

lemma ledger_observer [simp]: "ledger_ok (w\<lparr>cw_observer := x\<rparr>) \<longleftrightarrow> ledger_ok w"
  by (simp add: ledger_ok_def)

lemma same_run_world:
  \<comment> \<open>a step that keeps the run, its cancellation and the lock\<close>
  assumes "world_ok w" "chat_ok t" "same_run (cw_chat w) t"
  shows "world_ok (w\<lparr>cw_chat := t\<rparr>)"
proof -
  have "ledger_ok (w\<lparr>cw_chat := t\<rparr>) \<longleftrightarrow> ledger_ok w"
    using assms(3) by (simp add: ledger_ok_def same_run_def)
  then show ?thesis
    using assms by (simp add: world_ok_def same_run_def)
qed

lemma chat_step_ok:
  assumes "world_ok w" "chat_step w v"
  shows "world_ok v"
  using assms(2,1)
proof cases
  case (now_step a evs t)
  then show ?thesis
    using assms(1) now_ok same_run_world by (metis world_ok_def)
next
  case (submit_step m run command q t)
  have ok: "chat_ok (cw_chat w)"
    using assms(1) by (simp add: world_ok_def)
  show ?thesis
    using submit_begin_ok [OF submit_step(2) ok submit_step(3)] assms(1) submit_step(1,3,4)
    by (cases q) (auto simp: world_ok_def ledger_ok_def)
next
  case (started_step r d)
  have ok: "chat_ok (cw_chat w)" "ch_locked (cw_chat w)" "ch_run (cw_chat w) = None" "cw_observer w = None"
    using assms(1) started_step(2) by (auto simp: world_ok_def chat_ok_def)
  have "sr_run r \<notin> set (cw_started w)"
    using assms(1) started_step(2) by (simp add: world_ok_def)
  then show ?thesis
    using submit_end_ok [OF ok(1,2), of r d] ok(3,4) assms(1) unfolding started_step(1)
    by (auto simp: world_ok_def ledger_ok_def)
next
  case (failed_step r)
  have ok: "chat_ok (cw_chat w)" "ch_locked (cw_chat w)" "ch_run (cw_chat w) = None" "cw_observer w = None"
    using assms(1) failed_step(2) by (auto simp: world_ok_def chat_ok_def)
  then show ?thesis
    using submit_failed_ok [OF ok(1,2)] assms(1) unfolding failed_step(1)
    by (auto simp: world_ok_def ledger_ok_def)
next
  case quit_step
  then have "ch_run (cw_chat w) \<noteq> None"
    by (auto simp: chat_state_def split: if_splits)
  then show ?thesis
    using quit_first_ok [of "cw_chat w" Quit] assms(1) same_run_world unfolding quit_step(1) by (metis world_ok_def)
next
  case (cancel_step d command st q t)
  have ok: "chat_ok (cw_chat w)"
    using assms(1) by (simp add: world_ok_def)
  note begun = cancel_begin_ok [OF cancel_step(3) ok cancel_step(2)]
  have same: "ch_run t = ch_run (cw_chat w)" "ch_start t = ch_start (cw_chat w)" "ch_locked t = ch_locked (cw_chat w)"
    using begun cancel_step(2) by auto
  have ledger: "ledger_ok v"
    using begun assms(1) same unfolding cancel_step(1)
    by (cases q) (auto simp: world_ok_def ledger_ok_def)
  have "\<forall>(k, r, b, c) \<in> set (cw_waits v). c \<noteq> None"
    using begun assms(1) unfolding cancel_step(1) by (auto simp: world_ok_def split: cancel_step.splits)
  then show ?thesis
    using ledger begun same assms(1) unfolding cancel_step(1) by (auto simp: world_ok_def)
next
  case (timeout_step k r b c)
  then show ?thesis
    using assms(1) cancel_answered_ok(1) same_run_world by (metis world_ok_def)
next
  case (returned_step k r b c)
  then show ?thesis
    using assms(1) cancel_answered_ok(2) same_run_world by (metis world_ok_def)
next
  case (supervise_step k ok)
  then show ?thesis
    using assms(1) cancel_answered_ok(3) same_run_world by (metis world_ok_def)
next
  case (observe_step n1 n2 st t)
  have ok: "chat_ok (cw_chat w)"
    using assms(1) by (simp add: world_ok_def)
  note begun = observe_begin_ok [OF observe_step(3) ok]
  have "world_ok (w\<lparr>cw_chat := t\<rparr>)"
    using begun(1) assms(1) same_run_world by blast
  then show ?thesis
    using begun(1,2) unfolding observe_step(1) by (cases st) (auto simp: world_ok_def ledger_ok_def)
next
  case (unread_step r b)
  then show ?thesis
    using assms(1) by (simp add: world_ok_def)
next
  case (observed_step r b x c evs t)
  have ok: "chat_ok (cw_chat w)" "ch_run (cw_chat w) = Some r"
    using assms(1) observed_step(2) by (auto simp: world_ok_def)
  note done' = observe_end_ok [OF observed_step(3) ok]
  have unlocked: "\<not> ch_locked (cw_chat w)" "cw_submit w = None"
    using ok assms(1) by (auto simp: world_ok_def chat_ok_def)
  show ?thesis
  proof (cases "ch_run t = None")
    case True
    then have "chat_ok t" "ch_task t = None" "\<not> ch_locked t"
      using done' ok(2) by (auto simp: same_run_def)
    moreover have "ledger_ok (w\<lparr>cw_chat := t, cw_observer := None, cw_settled := (r, evs) # cw_settled w\<rparr>)"
      using True assms(1) ok(2) by (auto simp: world_ok_def ledger_ok_def)
    ultimately show ?thesis
      using True assms(1) unlocked(2) unfolding observed_step(1) by (simp add: world_ok_def)
  next
    case False
    then have "world_ok (w\<lparr>cw_chat := t\<rparr>)"
      using done' assms(1) by (auto intro!: same_run_world simp: same_run_def)
    then show ?thesis
      using False ledger_observer [of None "w\<lparr>cw_chat := t\<rparr>"] unfolding observed_step(1) by (auto simp: world_ok_def)
  qed
qed

interpretation chat_runs: invariant_system chat_world_start chat_step world_ok
proof unfold_locales
  show "world_ok w" if "chat_world_start w" for w
    using that by (auto simp: chat_world_start_def chat_init_def world_ok_def ledger_ok_def chat_ok_def split: if_splits)
  show "world_ok v" if "world_ok w" "chat_step w v" for w v
    using that by (rule chat_step_ok)
qed

section \<open>Properties\<close>

text \<open>
  C34. Whatever is typed and however submissions, cancellations, timeouts, callbacks and observations
  interleave, a run is neither forgotten nor settled twice: the runs that were started are the active one, if
  there is one, and those that have been settled, each once; a run is cancelled at most once, and only after
  it was started.
\<close>

theorem runs_are_settled_once:
  assumes "reach chat_world_start chat_step w"
  shows "distinct (cw_started w) \<and> distinct (map fst (cw_settled w)) \<and> distinct (map nr_run (cw_cancels w))
    \<and> set (cw_started w) = set_option (ch_run (cw_chat w)) \<union> set (map fst (cw_settled w))
    \<and> set_option (ch_run (cw_chat w)) \<inter> set (map fst (cw_settled w)) = {}
    \<and> set (map nr_run (cw_cancels w)) \<subseteq> set (cw_started w)"
  using chat_runs.inv_reach [OF assms] by (auto simp: world_ok_def ledger_ok_def)

text \<open>
  C37. The exceptions with which the controller reports that its own state is wrong are never raised: no
  cancellation and no timeout of one lacks its identity, no wait lacks its task, and an observation only fails
  when there is no run.
\<close>

theorem internal_errors_unreachable:
  assumes "reach chat_world_start chat_step w"
  shows "(ch_run (cw_chat w) \<noteq> None \<longrightarrow> (\<forall>n1 n2 e. fst (observe_begin n1 n2 (cw_chat w)) \<noteq> Observe_raises e))
    \<and> (\<not> ch_locked (cw_chat w) \<longrightarrow> (\<forall>d command e. fst (cancel_begin d command (cw_chat w)) = Cancel_raises e \<longrightarrow> \<not> fatal e))
    \<and> (\<forall>(k, r, b, c) \<in> set (cw_waits w). \<exists>evs. fst (cancel_timeout k r b c (cw_chat w)) = Inr evs)"
proof -
  have ok: "chat_ok (cw_chat w)" "\<forall>(k, r, b, c) \<in> set (cw_waits w). c \<noteq> None"
    using chat_runs.inv_reach [OF assms] by (simp_all add: world_ok_def)
  have "fst (observe_begin n1 n2 (cw_chat w)) \<noteq> Observe_raises e" if "ch_run (cw_chat w) \<noteq> None" for n1 n2 e
    using observe_begin_ok(3) [OF prod.collapse [symmetric] ok(1)] that by metis
  moreover have "\<not> fatal e" if "\<not> ch_locked (cw_chat w)" "fst (cancel_begin d command (cw_chat w)) = Cancel_raises e" for d command e
    using cancel_begin_ok [OF _ ok(1) that(1)] that(2) by (metis prod.collapse)
  ultimately show ?thesis
    using ok(2) by (auto simp: cancel_timeout_def)
qed

definition example_start :: start_run where
  "example_start = \<lparr>sr_session = u ''main'', sr_run = u ''run-1'', sr_command = u ''command-1'', sr_message = u ''hi'', sr_profile = u ''agent.general''\<rparr>"

lemma example_chat:
  "\<exists>w. reach chat_world_start chat_step w \<and> cw_started w = [u ''run-1''] \<and> ch_run (cw_chat w) = Some (u ''run-1'')"
proof -
  obtain s where s: "chat_init (u ''main'') = Inr s" "ch_session s = u ''main''" "ch_run s = None" "\<not> ch_locked s"
    by (simp add: chat_init_def blank_def u_def py_space_def)
  let ?w = "\<lparr>cw_chat = s, cw_submit = None, cw_waits = [], cw_observer = None, cw_started = [], cw_cancels = [], cw_settled = []\<rparr> :: chat_world"
  have "reach chat_world_start chat_step ?w"
    by (rule reach_start) (use s in \<open>auto simp: chat_world_start_def\<close>)
  moreover have "start_run_init example_start = Inr ()"
    by code_simp
  then have "submit_begin (u ''hi'') (u ''run-1'') (u ''command-1'') s = (Submit_call example_start, s\<lparr>ch_locked := True\<rparr>)"
    using s by (simp add: submit_begin_def example_start_def blank_def u_def py_space_def)
  then have "chat_step ?w (?w\<lparr>cw_chat := s\<lparr>ch_locked := True\<rparr>, cw_submit := Some example_start\<rparr>)"
    using submit_step [of "u ''hi''" "u ''run-1''" "u ''command-1''" ?w "Submit_call example_start" "s\<lparr>ch_locked := True\<rparr>"] s(4)
    by simp
  moreover have "chat_step (?w\<lparr>cw_chat := s\<lparr>ch_locked := True\<rparr>, cw_submit := Some example_start\<rparr>)
      (?w\<lparr>cw_chat := snd (submit_end example_start 315 (s\<lparr>ch_locked := True\<rparr>)), cw_submit := None, cw_started := [u ''run-1'']\<rparr>)"
    using started_step [of "?w\<lparr>cw_chat := s\<lparr>ch_locked := True\<rparr>, cw_submit := Some example_start\<rparr>" example_start 315]
    by (simp add: example_start_def)
  ultimately have "reach chat_world_start chat_step
      (?w\<lparr>cw_chat := snd (submit_end example_start 315 (s\<lparr>ch_locked := True\<rparr>)), cw_submit := None, cw_started := [u ''run-1'']\<rparr>)"
    by (blast intro: reach_step)
  then show ?thesis
    by (intro exI conjI) (assumption, simp_all add: submit_end_def example_start_def)
qed

theorem runs_are_settled_once_witness:
  "\<exists>w. reach chat_world_start chat_step w \<and> cw_started w = [u ''run-1''] \<and> u ''run-1'' \<notin> set (map fst (cw_settled w))"
proof -
  obtain w where w: "reach chat_world_start chat_step w" "cw_started w = [u ''run-1'']" "ch_run (cw_chat w) = Some (u ''run-1'')"
    using example_chat by blast
  then show ?thesis
    using runs_are_settled_once [OF w(1)] by (intro exI [of _ w]) auto
qed

theorem internal_errors_unreachable_witness:
  "\<exists>w. reach chat_world_start chat_step w \<and> fst (observe_begin 1 2 (cw_chat w)) \<noteq> Observe_raises RuntimeErr"
proof -
  obtain w where w: "reach chat_world_start chat_step w" "ch_run (cw_chat w) = Some (u ''run-1'')"
    using example_chat by blast
  then show ?thesis
    using internal_errors_unreachable [OF w(1)] by (intro exI [of _ w]) auto
qed

end
