(* ===== verification/Text_Rendering.thy ===== *)
theory Text_Rendering
  imports Json_Roundtrip
begin

text \<open>
  \<^verbatim>\<open>text_rendering.py\<close>: how a text that is not trusted reaches the terminal. The categories of Unicode that it
  asks for are fixed by the standard: the control characters are C0, the delete character and C1.
\<close>

type_synonym text_fragment = "string \<times> ustr" \<comment> \<open>a style and a text\<close>

section \<open>Characters\<close>

definition BIDI_CONTROLS :: "nat list" where
  "BIDI_CONTROLS =
    [0x061c, 0x200e, 0x200f, 0x202a, 0x202b, 0x202c, 0x202d, 0x202e, 0x2066, 0x2067, 0x2068, 0x2069]"

definition control :: "nat \<Rightarrow> bool" where
  \<comment> \<open>\<^verbatim>\<open>unicodedata.category(character) == "Cc"\<close>\<close>
  "control c \<longleftrightarrow> c < 32 \<or> 127 \<le> c \<and> c < 160"

definition upper_hex :: "nat \<Rightarrow> nat" where
  "upper_hex d = (if d < 10 then 48 + d else 55 + d)"

fun hex_text :: "nat \<Rightarrow> ustr" where
  "hex_text n = (if n < 16 then [upper_hex n] else hex_text (n div 16) @ [upper_hex (n mod 16)])"

declare hex_text.simps [simp del]

definition visible_control :: "nat \<Rightarrow> ustr" where
  "visible_control c =
    (if c = 0x7f then [0x2421]
     else if c < 32 then [0x2400 + c]
     else u ''<U+'' @ replicate (4 - length (hex_text c)) 48 @ hex_text c @ u ''>'')"

definition shown_character :: "nat \<Rightarrow> ustr" where
  "shown_character c =
    (if c = 10 \<or> c = 9 then [c]
     else if c \<in> set BIDI_CONTROLS \<or> c = 27 \<or> control c then visible_control c
     else [c])"

definition sanitize_characters :: "ustr \<Rightarrow> ustr" where
  "sanitize_characters t = concat (map shown_character t)"

section \<open>Tabs and lines\<close>

fun expandtabs :: "nat \<Rightarrow> ustr \<Rightarrow> ustr" where
  \<comment> \<open>\<^verbatim>\<open>str.expandtabs(4)\<close>, from a column\<close>
  "expandtabs col [] = []"
| "expandtabs col (c # cs) =
    (if c = 9 then replicate (4 - col mod 4) 32 @ expandtabs (col + (4 - col mod 4)) cs
     else c # expandtabs (if c = 10 \<or> c = 13 then 0 else col + 1) cs)"

fun inline_tabs :: "bool \<Rightarrow> nat \<Rightarrow> ustr \<Rightarrow> ustr" where
  \<comment> \<open>the loop of \<^verbatim>\<open>_sanitize_tabs\<close>: within inline code or not, and the length of what was written\<close>
  "inline_tabs code n [] = []"
| "inline_tabs code n (c # cs) =
    (if c = 96 then c # inline_tabs (\<not> code) (n + 1) cs
     else if c = 9 then
       (if code then replicate (4 - n mod 4) 32 @ inline_tabs code (n + (4 - n mod 4)) cs
        else 0x2409 # inline_tabs code (n + 1) cs)
     else c # inline_tabs code (n + 1) cs)"

definition sanitize_tabs :: "bool \<Rightarrow> ustr \<Rightarrow> ustr" where
  "sanitize_tabs fenced line =
    (if 9 \<notin> set line then line
     else if fenced \<or> starts_with line [9] \<or> starts_with line [32, 32, 32, 32] then expandtabs 0 line
     else inline_tabs False 0 line)"

definition fence :: "ustr \<Rightarrow> bool" where
  \<comment> \<open>\<^verbatim>\<open>_FENCE.fullmatch\<close> of a line\<close>
  "fence line \<longleftrightarrow>
     (let r = dropWhile py_space line in starts_with r [96, 96, 96] \<and> 96 \<notin> set (drop 3 r))"

fun split_lines :: "ustr \<Rightarrow> ustr list" where
  \<comment> \<open>\<^verbatim>\<open>split("\n")\<close>\<close>
  "split_lines [] = [[]]"
| "split_lines (c # cs) =
    (if c = 10 then [] # split_lines cs
     else (case split_lines cs of [] \<Rightarrow> [[c]] | l # ls \<Rightarrow> (c # l) # ls))"

fun replace_crlf :: "ustr \<Rightarrow> ustr" where
  "replace_crlf (c # d # cs) = (if c = 13 \<and> d = 10 then 10 # replace_crlf cs else c # replace_crlf (d # cs))"
| "replace_crlf cs = cs"

fun sanitize_lines :: "bool \<Rightarrow> ustr list \<Rightarrow> ustr list" where
  "sanitize_lines fenced [] = []"
| "sanitize_lines fenced (l # ls) =
    sanitize_tabs (fenced \<and> \<not> fence l) l # sanitize_lines (if fence l then \<not> fenced else fenced) ls"

definition sanitize_untrusted_text :: "ustr \<Rightarrow> ustr" where
  "sanitize_untrusted_text t =
    (let normalized = map (\<lambda>c. if c = 13 then 10 else c) (replace_crlf t)
     in join [10] (sanitize_lines False (split_lines (sanitize_characters normalized))))"

section \<open>Fragments\<close>

function inline_fragments :: "string \<Rightarrow> ustr \<Rightarrow> text_fragment list" where
  \<comment> \<open>the rest of the text from the cursor\<close>
  "inline_fragments base t =
    (if t = [] then []
     else
       (case dropWhile (\<lambda>c. c \<noteq> 96) t of
          [] \<Rightarrow> [(base, t)]
        | _ # r \<Rightarrow>
            (case dropWhile (\<lambda>c. c \<noteq> 96) r of
               [] \<Rightarrow> [(base, t)]
             | _ # rest \<Rightarrow>
                 (let opening = takeWhile (\<lambda>c. c \<noteq> 96) t
                  in (if opening \<noteq> [] then [(base, opening)] else [])
                    @ [(''class:inline-code'', takeWhile (\<lambda>c. c \<noteq> 96) r)] @ inline_fragments base rest))))"
  by pat_completeness auto
termination
proof (relation "measure (\<lambda>(b, t). length t)", simp, clarify)
  fix t :: ustr and base :: string and a r b rest
  assume "dropWhile (\<lambda>c. c \<noteq> 96) t = a # r" "dropWhile (\<lambda>c. c \<noteq> 96) r = b # rest"
  then have "length (a # r) \<le> length t" "length (b # rest) \<le> length r"
    by (metis length_dropWhile_le)+
  then show "((base, rest), base, t) \<in> measure (\<lambda>(b, t). length t)"
    by simp
qed

declare inline_fragments.simps [simp del]

definition marker_length :: "ustr \<Rightarrow> nat option" where
  \<comment> \<open>how long a marker the text begins with: a bullet, or digits and a dot\<close>
  "marker_length t =
    (case t of
       [] \<Rightarrow> None
     | c # _ \<Rightarrow>
         if c = 45 \<or> c = 43 \<or> c = 42 then Some 1
         else
           (let digits = takeWhile is_digit t
            in if digits \<noteq> [] \<and> starts_with (drop (length digits) t) [46] then Some (length digits + 1) else None))"

definition list_item :: "ustr \<Rightarrow> (ustr \<times> ustr) option" where
  \<comment> \<open>\<^verbatim>\<open>_LIST_ITEM.fullmatch\<close> of a line: what stands before the body, and the body\<close>
  "list_item line =
    (let indent = takeWhile (\<lambda>c. c = 32) line; rest = dropWhile (\<lambda>c. c = 32) line
     in case marker_length rest of
          None \<Rightarrow> None
        | Some n \<Rightarrow>
            (let space = takeWhile (\<lambda>c. c = 32) (drop n rest)
             in if space = [] then None
                else Some (indent @ take n rest @ space, dropWhile (\<lambda>c. c = 32) (drop n rest))))"

definition line_fragments :: "bool \<Rightarrow> ustr \<Rightarrow> text_fragment list" where
  "line_fragments fenced line =
    (if fenced then [(''class:code'', line)]
     else (case list_item line of
             Some (prefix, body) \<Rightarrow> (''class:list-marker'', prefix) # inline_fragments '''' body
           | None \<Rightarrow> inline_fragments '''' line))"

fun render_lines :: "bool \<Rightarrow> ustr list \<Rightarrow> text_fragment list" where
  "render_lines fenced [] = []"
| "render_lines fenced (l # ls) =
    (if fence l then render_lines (\<not> fenced) ls
     else line_fragments fenced l @ (if ls \<noteq> [] then [('''', [10])] else []) @ render_lines fenced ls)"

definition render_markdown_fragments :: "ustr \<Rightarrow> text_fragment list" where
  "render_markdown_fragments t =
    filter (\<lambda>f. snd f \<noteq> []) (render_lines False (split_lines (sanitize_untrusted_text t)))"

definition safe_character :: "nat \<Rightarrow> bool" where
  "safe_character c \<longleftrightarrow> c = 10 \<or> \<not> (c \<in> set BIDI_CONTROLS \<or> c = 27) \<and> \<not> control c"

definition fragments_are_terminal_safe :: "text_fragment list \<Rightarrow> bool" where
  "fragments_are_terminal_safe fragments \<longleftrightarrow> list_all (\<lambda>(style, t). list_all safe_character t) fragments"

section \<open>What reaches the terminal\<close>

lemma upper_hex_safe: "d < 16 \<Longrightarrow> 48 \<le> upper_hex d \<and> upper_hex d \<le> 70"
  by (simp add: upper_hex_def)

lemma hex_text_safe: "c \<in> set (hex_text n) \<Longrightarrow> 48 \<le> c \<and> c \<le> 70"
proof (induction n rule: hex_text.induct)
  case (1 n)
  then show ?case
    using upper_hex_safe [of n] upper_hex_safe [of "n mod 16"]
    by (subst (asm) (2) hex_text.simps) (auto split: if_splits)
qed

lemma plain_safe: "33 \<le> c \<and> c \<le> 126 \<Longrightarrow> safe_character c"
  by (auto simp: safe_character_def control_def BIDI_CONTROLS_def)

lemma visible_control_safe: "d \<in> set (visible_control c) \<Longrightarrow> safe_character d"
proof -
  have "d \<in> set (hex_text c) \<Longrightarrow> safe_character d" for c
    using hex_text_safe [of d c] by (auto intro: plain_safe)
  moreover have "d \<in> set (u ''<U+'') \<union> set (u ''>'') \<union> {48} \<Longrightarrow> safe_character d"
    by (auto simp: u_def intro: plain_safe)
  moreover have "c < 32 \<Longrightarrow> safe_character (0x2400 + c)" "safe_character 0x2421"
    by (auto simp: safe_character_def control_def BIDI_CONTROLS_def)
  ultimately show "d \<in> set (visible_control c) \<Longrightarrow> safe_character d"
    by (auto simp: visible_control_def split: if_splits)
qed

lemma shown_safe: "d \<in> set (shown_character c) \<Longrightarrow> d = 9 \<or> safe_character d"
  using visible_control_safe [of d c] by (auto simp: shown_character_def safe_character_def split: if_splits)

lemma shown_same: "safe_character c \<Longrightarrow> shown_character c = [c]"
  by (auto simp: shown_character_def safe_character_def)

lemma expandtabs_set: "c \<in> set (expandtabs n cs) \<Longrightarrow> c \<in> set cs \<and> c \<noteq> 9 \<or> c = 32"
  by (induction n cs rule: expandtabs.induct) (auto split: if_splits)

lemma inline_tabs_set: "c \<in> set (inline_tabs b n cs) \<Longrightarrow> c \<in> set cs \<and> c \<noteq> 9 \<or> c = 32 \<or> c = 0x2409"
  by (induction b n cs rule: inline_tabs.induct) (auto split: if_splits)

lemma blanks_safe: "safe_character 32" "safe_character 0x2409" "safe_character 10"
  by (simp_all add: safe_character_def control_def BIDI_CONTROLS_def)

lemma sanitize_tabs_safe:
  assumes "\<forall>c\<in>set l. c = 9 \<or> safe_character c"
  shows "\<forall>c\<in>set (sanitize_tabs b l). safe_character c"
proof -
  have "set (sanitize_tabs b l) \<subseteq> set l - {9} \<union> {32, 0x2409}"
    using expandtabs_set [of _ 0 l] inline_tabs_set [of _ False 0 l] by (auto simp: sanitize_tabs_def)
  then show ?thesis
    using assms blanks_safe by auto
qed

lemma split_lines_not_Nil [simp]: "split_lines t \<noteq> []"
  by (cases t) (auto split: list.splits)

lemma split_lines_set: "l \<in> set (split_lines t) \<Longrightarrow> set l \<subseteq> set t - {10}"
proof -
  have "\<forall>l\<in>set (split_lines t). \<forall>c\<in>set l. c \<in> set t \<and> c \<noteq> 10"
    by (induction t) (auto split: list.split)
  then show "l \<in> set (split_lines t) \<Longrightarrow> set l \<subseteq> set t - {10}"
    by blast
qed

lemma join_split: "join [10] (split_lines t) = t"
proof (induction t)
  case (Cons c t)
  then show ?case
    by (cases "split_lines t") (auto simp: join_Cons)
qed simp

lemma join_set: "set (join sep ls) \<subseteq> set sep \<union> \<Union> (set ` set ls)"
  by (induction ls) (auto simp: join_Cons)

lemma sanitize_lines_safe:
  "\<forall>l\<in>set ls. \<forall>c\<in>set l. c = 9 \<or> safe_character c \<Longrightarrow>
    \<forall>l\<in>set (sanitize_lines b ls). \<forall>c\<in>set l. safe_character c"
proof (induction b ls rule: sanitize_lines.induct)
  case (2 b l ls)
  then show ?case
    using sanitize_tabs_safe [of l] by simp
qed simp

lemma sanitized_safe: "\<forall>c\<in>set (sanitize_untrusted_text t). safe_character c"
proof -
  let ?t = "sanitize_characters (map (\<lambda>c. if c = 13 then 10 else c) (replace_crlf t))"
  have "\<forall>c\<in>set ?t. c = 9 \<or> safe_character c"
    using shown_safe by (auto simp: sanitize_characters_def)
  then have "\<forall>l\<in>set (split_lines ?t). \<forall>c\<in>set l. c = 9 \<or> safe_character c"
    using split_lines_set by blast
  then have "\<forall>l\<in>set (sanitize_lines False (split_lines ?t)). \<forall>c\<in>set l. safe_character c"
    by (rule sanitize_lines_safe)
  then show ?thesis
    using join_set [of "[10]" "sanitize_lines False (split_lines ?t)"] blanks_safe(3)
    by (auto simp: sanitize_untrusted_text_def Let_def)
qed

lemma replace_crlf_same: "13 \<notin> set t \<Longrightarrow> replace_crlf t = t"
  by (induction t rule: replace_crlf.induct) auto

lemma sanitize_lines_same: "\<forall>l\<in>set ls. 9 \<notin> set l \<Longrightarrow> sanitize_lines b ls = ls"
  by (induction b ls rule: sanitize_lines.induct) (auto simp: sanitize_tabs_def)

lemma safe_same:
  assumes "\<forall>c\<in>set t. safe_character c"
  shows "sanitize_untrusted_text t = t"
proof -
  have no: "13 \<notin> set t" "9 \<notin> set t"
    using assms by (auto simp: safe_character_def control_def)
  have "map (\<lambda>c. if c = 13 then 10 else c) t = t"
    using no(1) by (intro map_idI) auto
  moreover have "concat (map shown_character t) = t"
    using assms by (induction t) (simp_all add: shown_same)
  moreover have "sanitize_lines False (split_lines t) = split_lines t"
    using no(2) split_lines_set by (intro sanitize_lines_same) blast
  ultimately show ?thesis
    by (simp add: sanitize_untrusted_text_def sanitize_characters_def replace_crlf_same [OF no(1)] join_split)
qed

lemma cut_at:
  "dropWhile (\<lambda>c. c \<noteq> x) t = y # r \<Longrightarrow> t = takeWhile (\<lambda>c. c \<noteq> x) t @ x # r \<and> y = x"
  by (metis (mono_tags, lifting) dropWhile_eq_Cons_conv takeWhile_dropWhile_id)

lemma inline_plain:
  "dropWhile (\<lambda>c. c \<noteq> 96) t = [] \<Longrightarrow> inline_fragments base t = (if t = [] then [] else [(base, t)])"
  by (subst inline_fragments.simps) (simp del: dropWhile_eq_Nil_conv)

lemma inline_open:
  "dropWhile (\<lambda>c. c \<noteq> 96) t = a # r \<Longrightarrow> dropWhile (\<lambda>c. c \<noteq> 96) r = [] \<Longrightarrow> inline_fragments base t = [(base, t)]"
  by (subst inline_fragments.simps) (auto simp del: dropWhile_eq_Nil_conv)

lemma inline_code:
  assumes "dropWhile (\<lambda>c. c \<noteq> 96) t = a # r" "dropWhile (\<lambda>c. c \<noteq> 96) r = b # rest"
  shows "inline_fragments base t =
      (if takeWhile (\<lambda>c. c \<noteq> 96) t \<noteq> [] then [(base, takeWhile (\<lambda>c. c \<noteq> 96) t)] else [])
      @ [(''class:inline-code'', takeWhile (\<lambda>c. c \<noteq> 96) r)] @ inline_fragments base rest"
    "t = takeWhile (\<lambda>c. c \<noteq> 96) t @ 96 # takeWhile (\<lambda>c. c \<noteq> 96) r @ 96 # rest"
    "length rest < length t"
proof -
  show parts: "t = takeWhile (\<lambda>c. c \<noteq> 96) t @ 96 # takeWhile (\<lambda>c. c \<noteq> 96) r @ 96 # rest"
    using cut_at [OF assms(1)] cut_at [OF assms(2)] by metis
  show "length rest < length t"
    by (subst parts) simp
  have "t \<noteq> []"
    using assms(1) by auto
  then show "inline_fragments base t =
      (if takeWhile (\<lambda>c. c \<noteq> 96) t \<noteq> [] then [(base, takeWhile (\<lambda>c. c \<noteq> 96) t)] else [])
      @ [(''class:inline-code'', takeWhile (\<lambda>c. c \<noteq> 96) r)] @ inline_fragments base rest"
    by (subst inline_fragments.simps) (simp add: assms Let_def)
qed

lemma inline_induct [case_names plain code]:
  \<comment> \<open>up to the first pair of back-quotes, and after it\<close>
  assumes "\<And>t. inline_fragments base t = (if t = [] then [] else [(base, t)]) \<Longrightarrow> P t"
    and "\<And>t before c rest. t = before @ 96 # c @ 96 # rest \<Longrightarrow> P rest \<Longrightarrow>
      inline_fragments base t = (if before \<noteq> [] then [(base, before)] else []) @ [(''class:inline-code'', c)] @ inline_fragments base rest \<Longrightarrow> P t"
  shows "P t"
proof (induction t rule: length_induct)
  case (1 t)
  show ?case
  proof (cases "dropWhile (\<lambda>c. c \<noteq> 96) t")
    case Nil
    then show ?thesis
      using assms(1) inline_plain by blast
  next
    case (Cons a r)
    note t = this
    then have "t \<noteq> []"
      by auto
    show ?thesis
    proof (cases "dropWhile (\<lambda>c. c \<noteq> 96) r")
      case Nil
      then show ?thesis
        using assms(1) inline_open [OF t] \<open>t \<noteq> []\<close> by simp
    next
      case (Cons b rest)
      then show ?thesis
        using assms(2) [OF inline_code(2) [OF t Cons] _ inline_code(1) [OF t Cons]] inline_code(3) [OF t Cons] 1 by blast
    qed
  qed
qed

lemma inline_text:
  "filter (\<lambda>c. c \<noteq> 96) (concat (map snd (inline_fragments base t))) = filter (\<lambda>c. c \<noteq> 96) t"
  by (induction t rule: inline_induct [where base = base]) auto

lemma inline_set: "f \<in> set (inline_fragments base t) \<Longrightarrow> set (snd f) \<subseteq> set t"
  by (induction t rule: inline_induct [where base = base]) (auto split: if_splits)

lemma list_item_parts: "list_item l = Some (p, b) \<Longrightarrow> l = p @ b"
  by (auto simp: list_item_def Let_def split: option.splits if_splits)

lemma line_fragments_text:
  "filter (\<lambda>c. c \<noteq> 96) (concat (map snd (line_fragments b l))) = filter (\<lambda>c. c \<noteq> 96) l"
  by (auto simp: line_fragments_def inline_text dest!: list_item_parts split: option.split)

lemma line_fragments_set: "f \<in> set (line_fragments b l) \<Longrightarrow> set (snd f) \<subseteq> set l"
  by (auto simp: line_fragments_def dest!: inline_set list_item_parts split: option.splits if_splits)

lemma render_lines_set: "f \<in> set (render_lines b ls) \<Longrightarrow> set (snd f) \<subseteq> {10} \<union> \<Union> (set ` set ls)"
proof (induction b ls rule: render_lines.induct)
  case (2 b l ls)
  then show ?case
    using line_fragments_set [of f b l] by (auto split: if_splits)
qed simp

text \<open>
  C39. Nothing that is rendered drives the terminal: whatever the text, the fragments hold no control character
  but the line feed, no escape and no bidirectional control, so that the code's own check of them succeeds.
\<close>

theorem rendered_is_terminal_safe: "fragments_are_terminal_safe (render_markdown_fragments t)"
proof -
  have "\<forall>l\<in>set (split_lines (sanitize_untrusted_text t)). \<forall>c\<in>set l. safe_character c"
    using split_lines_set sanitized_safe [of t] by blast
  then have "\<forall>f\<in>set (render_lines False (split_lines (sanitize_untrusted_text t))). \<forall>c\<in>set (snd f). safe_character c"
    using render_lines_set blanks_safe(3) by fastforce
  then show ?thesis
    by (auto simp: fragments_are_terminal_safe_def render_markdown_fragments_def list_all_iff)
qed

fun kept :: "ustr list \<Rightarrow> ustr" where
  \<comment> \<open>the lines that are no fences, each with its line feed\<close>
  "kept [] = []"
| "kept (l # ls) = (if fence l then [] else l @ (if ls \<noteq> [] then [10] else [])) @ kept ls"

lemma render_lines_text:
  "filter (\<lambda>c. c \<noteq> 96) (concat (map snd (render_lines b ls))) = filter (\<lambda>c. c \<noteq> 96) (kept ls)"
  by (induction b ls rule: render_lines.induct) (simp_all add: line_fragments_text)

lemma drop_empty: "concat (map snd (filter (\<lambda>f. snd f \<noteq> []) fs)) = concat (map snd fs)"
  by (induction fs) auto

text \<open>
  C40. Making a text safe is a projection onto the safe texts, and rendering loses no text: a text is left as it
  is exactly when it is safe, doing it twice is doing it once, and the fragments hold, in their order, all of
  the safe text but the fences and the back-quotes.
\<close>

theorem rendering_keeps_the_text:
  "sanitize_untrusted_text (sanitize_untrusted_text t) = sanitize_untrusted_text t
    \<and> (sanitize_untrusted_text t = t \<longleftrightarrow> list_all safe_character t)
    \<and> filter (\<lambda>c. c \<noteq> 96) (concat (map snd (render_markdown_fragments t)))
      = filter (\<lambda>c. c \<noteq> 96) (kept (split_lines (sanitize_untrusted_text t)))"
proof -
  have "sanitize_untrusted_text t = t \<longleftrightarrow> list_all safe_character t"
    using sanitized_safe [of t] safe_same [of t] by (auto simp: list_all_iff)
  then show ?thesis
    using safe_same [OF sanitized_safe] by (simp add: render_markdown_fragments_def drop_empty render_lines_text)
qed

lemma fence_after_tab:
  \<comment> \<open>a fence indented by a space and a tab is one for the tabs of the lines below, but is not rendered as one\<close>
  "render_markdown_fragments [32, 9, 96, 96, 96, 10, 120, 9, 121] =
    [('''', [32, 0x2409]), ('''', [96]), ('''', [10]), ('''', [120, 32, 32, 32, 121])]"
  by code_simp

end
