(* ===== verification/Client.thy ===== *)
theory Client
  imports Session_System Relay_Control
begin

text \<open>
  \<^verbatim>\<open>realtime/client.py\<close>: the opening of a session. The coroutine is cut at its suspension points: the minting of
  a credential, the connection, the write of the opening, the read of the reply, the first write of the
  session, and the close of a connection that is given up. What was awaited is an argument of the next part:
  a result, or an exception with its attribute \<^verbatim>\<open>diagnostic_kind\<close>.
\<close>

section \<open>State\<close>

record client_config =
  cc_env :: json_env
  cc_sha :: "ustr \<Rightarrow> ustr"
  cc_manifest :: ustr
  cc_profile :: rt_profile
  cc_capability :: rt_capability \<comment> \<open>of the adapter\<close>
  cc_dispatcher :: bool

record client =
  cl_generation :: int
  cl_recovery :: recovery
  cl_seen :: "(ustr \<times> ustr set) list" \<comment> \<open>\<^verbatim>\<open>_seen_tool_calls\<close>\<close>
  cl_used :: "ustr set" \<comment> \<open>the correlations\<close>

definition client_init :: "rt_profile \<Rightarrow> rt_capability \<Rightarrow> rat list \<Rightarrow> recovery \<Rightarrow> client res" where
  \<comment> \<open>with the timeouts of opening, writing, acknowledging and closing\<close>
  "client_init p cap timeouts rs =
    (if pr_capability p \<noteq> cap then Inl (rt_error E_INVALID_REQUEST ''profile/adapter mismatch'')
     else if list_ex (\<lambda>t. t \<le> 0) timeouts then Inl (ValueErr ''Realtime timeouts must be positive'')
     else Inr \<lparr>cl_generation = 0, cl_recovery = rs, cl_seen = [], cl_used = {}\<rparr>)"

type_synonym raised = "exn \<times> pyval" \<comment> \<open>an exception and its attribute \<^verbatim>\<open>diagnostic_kind\<close>\<close>

definition timeout_error :: exn where
  "timeout_error = OtherErr ''TimeoutError''"

datatype phase =
    At_mint
  | At_connect minted_credential
  | At_send minted_credential ustr ustr \<comment> \<open>the opening, and its identity\<close>
  | At_receive minted_credential ustr
  | At_start minted_credential ustr ustr dict session \<comment> \<open>the identity, the reply, the update that is written\<close>
  | At_close string raised \<comment> \<open>the reason, and the exception that follows\<close>
  | Opened minted_credential ustr ustr session
  | Failed exn

record open_call =
  op_request :: open_request
  op_correlation :: ustr
  op_phase :: phase
  op_connected :: bool \<comment> \<open>a connection was returned\<close>
  op_closed :: "string list" \<comment> \<open>the reasons with which its close was called\<close>
  op_log :: "diag_event list" \<comment> \<open>what this opening emitted\<close>

section \<open>Correlations\<close>

definition CROCKFORD :: ustr where
  "CROCKFORD = u ''0123456789ABCDEFGHJKMNPQRSTVWXYZ''"

definition new_correlation :: "nat list \<Rightarrow> ustr" where
  \<comment> \<open>from the 26 choices\<close>
  "new_correlation choices = u ''corr_'' @ map (\<lambda>i. CROCKFORD ! (i mod 32)) choices"

fun reserve_generated :: "ustr list \<Rightarrow> client \<Rightarrow> ustr res \<times> client" where
  \<comment> \<open>\<^verbatim>\<open>_reserve_generated_correlation\<close> with the correlations that are drawn\<close>
  "reserve_generated [] c =
    (Inl (RealtimeErr E_INTERNAL ''unable to allocate an opaque correlation'' True None None None), c)"
| "reserve_generated (x # xs) c =
    (if x \<notin> cl_used c then (Inr x, c\<lparr>cl_used := insert x (cl_used c)\<rparr>) else reserve_generated xs c)"

definition reserve_given :: "ustr \<Rightarrow> client \<Rightarrow> ustr res \<times> client" where
  \<comment> \<open>\<^verbatim>\<open>_open_with_correlation\<close> up to the opening\<close>
  "reserve_given x c =
    (if \<not> correlation_ok x
     then (Inl (rt_error E_INVALID_REQUEST ''correlation must match the SDK opaque format''), c)
     else if x \<in> cl_used c then (Inl (rt_error E_INVALID_REQUEST ''correlation has already been used''), c)
     else (Inr x, c\<lparr>cl_used := insert x (cl_used c)\<rparr>))"

section \<open>Diagnostics and failures\<close>

definition stable_code :: "exn \<Rightarrow> error_code" where
  "stable_code e =
    (case e of RealtimeErr c m b f r x \<Rightarrow> c | _ \<Rightarrow> if e = timeout_error then E_TIMEOUT else E_UNAVAILABLE)"

definition failure_operation_kind :: "raised \<Rightarrow> string \<Rightarrow> ustr" where
  "failure_operation_kind r fallback =
    (case snd r of VStr k \<Rightarrow> if stable_metadata k then k else u fallback | _ \<Rightarrow> u fallback)"

definition emit_open :: "diag_event \<Rightarrow> open_call \<Rightarrow> open_call" where
  "emit_open d op = op\<lparr>op_log := op_log op @ [d]\<rparr>"

definition emit_stage :: "diag_stage \<Rightarrow> open_call \<Rightarrow> open_call" where
  "emit_stage st op = emit_open (diag (op_correlation op) st) op"

definition emit_failed :: "diag_stage \<Rightarrow> error_code \<Rightarrow> ustr \<Rightarrow> failure_context option \<Rightarrow> open_call \<Rightarrow> open_call" where
  "emit_failed st code kind f op =
    emit_open ((diag (op_correlation op) st)\<lparr>dg_stable_code := Some code, dg_operation_kind := Some kind,
      dg_failure := f\<rparr>) op"

definition next_generation :: "open_request \<Rightarrow> client \<Rightarrow> (int \<times> client) res" where
  \<comment> \<open>the generation the opening would have; asking for the table enters the logical session\<close>
  "next_generation req c =
    andthen (get_session (cl_recovery c) (or_external_session_id req)) (\<lambda>(l, rs).
      Inr (max (cl_generation c + 1) (tb_generation (ls_table l) + 1), c\<lparr>cl_recovery := rs\<rparr>))"

definition bare_failure :: "ustr \<Rightarrow> ustr \<Rightarrow> int \<Rightarrow> failure_context" where
  "bare_failure stage kind g =
    \<lparr>fc_stage = stage, fc_event_type = kind, fc_generation = g, fc_field_names = [], fc_validation_field = None,
     fc_validation_reason = None, fc_related_event_id = None, fc_client_event_type = None, fc_control_code = None,
     fc_message_class = None, fc_retryable = None, fc_fatal = None, fc_retry_after_ms = None\<rparr>"

definition carried_failure :: "exn \<Rightarrow> failure_context option" where
  "carried_failure e = (case e of RealtimeErr c m b f r x \<Rightarrow> x | _ \<Rightarrow> None)"

definition with_failure_of :: "failure_context \<Rightarrow> exn \<Rightarrow> exn" where
  \<comment> \<open>\<^verbatim>\<open>error.failure = failure\<close>\<close>
  "with_failure_of x e = (case e of RealtimeErr c m b f r y \<Rightarrow> RealtimeErr c m b f r (Some x) | _ \<Rightarrow> e)"

definition fail_open :: "raised \<Rightarrow> client \<Rightarrow> open_call \<Rightarrow> client \<times> open_call" where
  \<comment> \<open>the handler of \<^verbatim>\<open>_open_reserved\<close>; a cancellation is no \<^verbatim>\<open>Exception\<close>\<close>
  "fail_open r c op =
    (if fst r = CancelledErr then (c, op\<lparr>op_phase := Failed CancelledErr\<rparr>)
     else
       (let kind = failure_operation_kind r ''open.failure'';
            code = stable_code (fst r)
        in case carried_failure (fst r) of
             Some f \<Rightarrow> (c, (emit_failed DS_OPEN_FAILED code kind (Some f) op)\<lparr>op_phase := Failed (fst r)\<rparr>)
           | None \<Rightarrow>
               (case next_generation (op_request op) c of
                  Inl e \<Rightarrow> (c, op\<lparr>op_phase := Failed e\<rparr>)
                | Inr (g, c1) \<Rightarrow>
                    (case build_failure (bare_failure (u ''open.failure'') kind g) of
                       Inl e \<Rightarrow> (c1, op\<lparr>op_phase := Failed e\<rparr>)
                     | Inr f \<Rightarrow>
                         (c1, (emit_failed DS_OPEN_FAILED code kind (Some f) op)
                            \<lparr>op_phase := Failed (with_failure_of f (fst r))\<rparr>)))))"

section \<open>Before the connection\<close>

definition request_checked :: "client_config \<Rightarrow> open_request \<Rightarrow> unit res" where
  "request_checked k req =
    (let cap = cc_capability k
     in case validate_tools (cc_env k) (nat (li_tool_payload_bytes (ca_limits cap))) (or_tools req) of
          Inl e \<Rightarrow> Inl (if is_value_error e \<or> e = TypeErr then rt_error E_INVALID_REQUEST ''invalid tool catalog'' else e)
        | Inr _ \<Rightarrow>
            if truthy (or_tools req) \<and> \<not> fs_tool_calling (ca_features cap) then Inl (rt_plain E_UNSUPPORTED)
            else if \<not> supports (ca_features cap) (or_required_features req)
            then Inl (rt_error E_UNSUPPORTED ''required feature unavailable'')
            else if or_input_audio req \<noteq> ca_input_audio cap then Inl (rt_error E_UNSUPPORTED ''input audio unavailable'')
            else if or_output_audio req \<noteq> ca_output_audio cap then Inl (rt_error E_UNSUPPORTED ''output audio unavailable'')
            else Inr ())"

definition open_begin :: "client_config \<Rightarrow> open_request \<Rightarrow> ustr \<Rightarrow> client \<Rightarrow> client \<times> open_call" where
  "open_begin k req corr c =
    (let op = emit_stage DS_OPEN_STARTED \<lparr>op_request = req, op_correlation = corr, op_phase = At_mint,
                op_connected = False, op_closed = [], op_log = []\<rparr>
     in case request_checked k req of
          Inl e \<Rightarrow> fail_open (e, VNone) c op
        | Inr _ \<Rightarrow> (c, emit_stage DS_MINT_STARTED op))"

definition mint_answered :: "client_config \<Rightarrow> raised + minted_credential \<Rightarrow> client \<Rightarrow> open_call \<Rightarrow> client \<times> open_call" where
  "mint_answered k answer c op =
    (case answer of
       Inl r \<Rightarrow>
         fail_open r c (if fst r = CancelledErr then op
           else emit_failed DS_MINT_FAILED (stable_code (fst r)) (failure_operation_kind r ''mint.failure'') None op)
     | Inr m \<Rightarrow>
         (let op1 = emit_stage DS_MINT_COMPLETED op
          in case validate_minted (cc_env k) (cc_sha k) (cc_manifest k) m (cc_profile k) (op_request op) of
               Inl e \<Rightarrow> fail_open (e, VNone) c op1
             | Inr _ \<Rightarrow> (c, (emit_stage DS_CONNECT_STARTED op1)\<lparr>op_phase := At_connect m\<rparr>)))"

section \<open>On the connection\<close>

definition give_up :: "raised \<Rightarrow> client \<Rightarrow> open_call \<Rightarrow> client \<times> open_call" where
  \<comment> \<open>the handlers around everything that uses the connection\<close>
  "give_up r c op =
    (if fst r = CancelledErr then fail_open r c op
     else if fst r = timeout_error then
       (c, op\<lparr>op_closed := op_closed op @ [''open timeout''], op_phase := At_close ''open timeout''
              (RealtimeErr E_TIMEOUT (code_name E_TIMEOUT) True None None None, vs ''transport.open.timeout'')\<rparr>)
     else (c, op\<lparr>op_closed := op_closed op @ [''open failed''], op_phase := At_close ''open failed'' r\<rparr>))"

definition connect_answered ::
  "client_config \<Rightarrow> ustr \<Rightarrow> raised + unit \<Rightarrow> minted_credential \<Rightarrow> client \<Rightarrow> open_call \<Rightarrow> client \<times> open_call" where
  \<comment> \<open>with the fresh part of the identity of the opening\<close>
  "connect_answered k hex answer m c op =
    (case answer of
       Inl r \<Rightarrow>
         if fst r = timeout_error then
           fail_open (RealtimeErr E_TIMEOUT (code_name E_TIMEOUT) True None None None, VNone) c
             (emit_failed DS_CONNECT_FAILED E_TIMEOUT (u ''transport.connect.timeout'') None op)
         else fail_open r c (if fst r = CancelledErr then op
           else emit_failed DS_CONNECT_FAILED (stable_code (fst r))
                  (failure_operation_kind r ''transport.connect.failure'') None op)
     | Inr _ \<Rightarrow>
         (let op1 = (emit_stage DS_CONNECT_COMPLETED op)\<lparr>op_connected := True\<rparr>
          in case build_session_open (cc_env k) hex m (op_correlation op) of
               Inl e \<Rightarrow> give_up (e, VNone) c op1
             | Inr (payload, i) \<Rightarrow> (c, op1\<lparr>op_phase := At_send m payload i\<rparr>)))"

definition send_answered :: "raised + unit \<Rightarrow> minted_credential \<Rightarrow> ustr \<Rightarrow> client \<Rightarrow> open_call \<Rightarrow> client \<times> open_call" where
  "send_answered answer m i c op =
    (case answer of Inl r \<Rightarrow> give_up r c op | Inr _ \<Rightarrow> (c, op\<lparr>op_phase := At_receive m i\<rparr>))"

definition safe_control :: "json_env \<Rightarrow> ustr \<Rightarrow> session_failed option res" where
  \<comment> \<open>the reply as a control failure, where a \<^verbatim>\<open>RealtimeError\<close> of the decoder is suppressed\<close>
  "safe_control env reply =
    (case decode_runtime_event env reply of
       Inl (RealtimeErr a b d e f g) \<Rightarrow> Inr None
     | Inl x \<Rightarrow> Inl x
     | Inr (Some (SessionFailed x)) \<Rightarrow> Inr (Some x)
     | Inr _ \<Rightarrow> Inr None)"

definition created_failure ::
  "ustr \<Rightarrow> ustr list \<Rightarrow> int \<Rightarrow> ustr \<Rightarrow> session_failed option \<Rightarrow> ustr option \<Rightarrow> ustr option \<Rightarrow> failure_context" where
  "created_failure kind names g i control field reason =
    \<lparr>fc_stage = u ''control.open'', fc_event_type = kind, fc_generation = g, fc_field_names = names,
     fc_validation_field = Some (case field of Some f \<Rightarrow> if f \<in> set names then f else u ''fields'' | None \<Rightarrow> u ''fields''),
     fc_validation_reason =
       Some (case reason of Some r \<Rightarrow> if r \<in> set FAILURE_REASONS then r else u ''validation_failed'' | None \<Rightarrow> u ''validation_failed''),
     fc_related_event_id = (case control of Some x \<Rightarrow> sf_related_event_id x | None \<Rightarrow> Some i),
     fc_client_event_type = Some (u ''tokenseller.session.open''),
     fc_control_code = Option.bind control sf_control_code,
     fc_message_class = Option.bind control sf_message_class,
     fc_retryable = map_option sf_retryable control,
     fc_fatal = Option.bind control sf_fatal,
     fc_retry_after_ms = None\<rparr>"

definition reply_refused :: "client_config \<Rightarrow> ustr \<Rightarrow> ustr \<Rightarrow> exn \<Rightarrow> client \<Rightarrow> open_call \<Rightarrow> exn \<times> client" where
  \<comment> \<open>the exception of a reply that was refused with \<open>e\<close>\<close>
  "reply_refused k i reply e c op =
    (case e of
       RealtimeErr code m b field reason x \<Rightarrow>
         (case andthen (payload_fields (cc_env k) reply) (\<lambda>(kind, names).
               andthen (safe_control (cc_env k) reply) (\<lambda>control.
               andthen (next_generation (op_request op) c) (\<lambda>(g, c1).
               andthen (build_failure (created_failure kind names g i control field reason)) (\<lambda>f.
                 Inr (f, c1))))) of
            Inl x \<Rightarrow> (x, c)
          | Inr (f, c1) \<Rightarrow> (with_failure_of f e, c1))
     | _ \<Rightarrow> (e, c))"

definition begin_managed ::
  "client_config \<Rightarrow> dict res \<Rightarrow> minted_credential \<Rightarrow> ustr \<Rightarrow> ustr \<Rightarrow> client \<Rightarrow> open_call \<Rightarrow> client \<times> open_call" where
  \<comment> \<open>the session, up to its first write; \<open>update\<close> is what the adapter builds for it\<close>
  "begin_managed k update m i reply c op =
    (let g = cl_generation c + 1;
         ext = or_external_session_id (op_request op);
         seen = (case map_of (cl_seen c) ext of Some s \<Rightarrow> s | None \<Rightarrow> {});
         c1 = c\<lparr>cl_generation := g, cl_seen := (if ext \<in> fst ` set (cl_seen c) then cl_seen c else cl_seen c @ [(ext, {})])\<rparr>
     in case session_init (cc_env k) (cc_sha k) (op_request op) (mc_capability m) g (op_correlation op)
               (cc_dispatcher k) seen [(i, u ''tokenseller.session.open'')] (cl_recovery c) of
          Inl e \<Rightarrow> give_up (e, VNone) c1 op
        | Inr s \<Rightarrow>
            (let c2 = c1\<lparr>cl_generation := cf_generation (sn_cfg s), cl_recovery := sn_recovery s\<rparr>
             in case (start_session (case update of Inr ev \<Rightarrow> ev | Inl _ \<Rightarrow> []) s, update) of
                  ((Inl e, _), _) \<Rightarrow> give_up (e, VNone) c2 op
                | ((Inr _, _), Inl e) \<Rightarrow> give_up (e, VNone) c2 op
                | ((Inr _, s1), Inr ev) \<Rightarrow> (c2, op\<lparr>op_phase := At_start m i reply ev s1\<rparr>)))"

definition receive_answered ::
  "client_config \<Rightarrow> dict res \<Rightarrow> raised + ustr option \<Rightarrow> minted_credential \<Rightarrow> ustr \<Rightarrow> client \<Rightarrow> open_call \<Rightarrow> client \<times> open_call" where
  "receive_answered k update answer m i c op =
    (case answer of
       Inl r \<Rightarrow> give_up r c op
     | Inr None \<Rightarrow> give_up (RealtimeErr E_UNAVAILABLE (code_name E_UNAVAILABLE) True None None None, VNone) c op
     | Inr (Some reply) \<Rightarrow>
         (case validate_session_created (cc_env k) reply m i of
            Inl e \<Rightarrow> (case reply_refused k i reply e c op of (x, c1) \<Rightarrow> give_up (x, VNone) c1 op)
          | Inr _ \<Rightarrow> begin_managed k update m i reply c op))"

definition start_answered ::
  "raised + send_outcome \<Rightarrow> minted_credential \<Rightarrow> ustr \<Rightarrow> ustr \<Rightarrow> dict \<Rightarrow> session \<Rightarrow> client \<Rightarrow> open_call \<Rightarrow> client \<times> open_call" where
  \<comment> \<open>\<open>Inl\<close>: the wait for the whole of \<^verbatim>\<open>start\<close> ended\<close>
  "start_answered answer m i reply ev s c op =
    (case answer of
       Inl r \<Rightarrow> give_up r c op
     | Inr outcome \<Rightarrow>
         (case send_done ev outcome s of
            (Inl e, s1) \<Rightarrow> give_up (e, VNone) c op
          | (Inr _, s1) \<Rightarrow>
              (c, (emit_open ((diag (op_correlation op) DS_OPEN_COMPLETED)\<lparr>dg_generation := Some (cf_generation (sn_cfg s1))\<rparr>) op)
                 \<lparr>op_phase := Opened m i reply s1\<rparr>)))"

definition close_answered :: "raised + unit \<Rightarrow> raised \<Rightarrow> client \<Rightarrow> open_call \<Rightarrow> client \<times> open_call" where
  \<comment> \<open>an \<^verbatim>\<open>Exception\<close> of the close is suppressed\<close>
  "close_answered answer r c op =
    (case answer of Inl (CancelledErr, x) \<Rightarrow> fail_open (CancelledErr, x) c op | _ \<Rightarrow> fail_open r c op)"

section \<open>The current session\<close>

definition session_is_current :: "client \<Rightarrow> session \<Rightarrow> bool" where
  \<comment> \<open>the session's generation is the client's and the one of its identity table\<close>
  "session_is_current c s \<longleftrightarrow>
     cl_generation c = cf_generation (sn_cfg s)
     \<and> tb_generation (ls_table (the_session (cl_recovery c) (or_external_session_id (cf_request (sn_cfg s)))))
       = cf_generation (sn_cfg s)"

end
