(* ===== verification/Client_System.thy ===== *)
theory Client_System
  imports Client Recovery_System
begin

text \<open>
  The openings of one client in every interleaving, with every answer of the minter, the transport and the
  peer, cancellations included: a session that is returned is bound to what was asked for, an opening that
  fails says so and closes its connection, and only the newest session is current.
\<close>

section \<open>What an opening has reported\<close>

definition stages :: "open_call \<Rightarrow> diag_stage list" where
  "stages op = map dg_stage (op_log op)"

definition minting_stages :: "diag_stage list" where
  "minting_stages = [DS_OPEN_STARTED, DS_MINT_STARTED]"

definition connecting_stages :: "diag_stage list" where
  "connecting_stages = minting_stages @ [DS_MINT_COMPLETED, DS_CONNECT_STARTED]"

definition connected_stages :: "diag_stage list" where
  "connected_stages = connecting_stages @ [DS_CONNECT_COMPLETED]"

definition given_up :: "diag_stage list list" where
  \<comment> \<open>after what an opening may fail\<close>
  "given_up = [[DS_OPEN_STARTED], minting_stages @ [DS_MINT_FAILED], minting_stages @ [DS_MINT_COMPLETED],
     connecting_stages @ [DS_CONNECT_FAILED], connected_stages]"

definition sound_op :: "open_call \<Rightarrow> bool" where
  \<comment> \<open>the recorder accepts every event, and the identity of the logical session is one\<close>
  "sound_op op \<longleftrightarrow>
     correlation_ok (op_correlation op) \<and> identity_text (or_external_session_id (op_request op))
     \<and> (\<forall>d\<in>set (op_log op). diag_error d = None)"

definition minted_ok :: "client_config \<Rightarrow> minted_credential \<Rightarrow> open_call \<Rightarrow> bool" where
  "minted_ok k m op \<longleftrightarrow>
     request_checked k (op_request op) = Inr ()
     \<and> validate_minted (cc_env k) (cc_sha k) (cc_manifest k) m (cc_profile k) (op_request op) = Inr ()"

definition session_bound :: "client_config \<Rightarrow> minted_credential \<Rightarrow> ustr \<Rightarrow> ustr \<Rightarrow> session \<Rightarrow> open_call \<Rightarrow> bool" where
  "session_bound k m i reply s op \<longleftrightarrow>
     minted_ok k m op \<and> validate_session_created (cc_env k) reply m i = Inr ()
     \<and> cf_request (sn_cfg s) = op_request op \<and> cf_capability (sn_cfg s) = mc_capability m
     \<and> cf_correlation (sn_cfg s) = op_correlation op"

definition has_failure :: "exn \<Rightarrow> bool" where
  \<comment> \<open>a \<^verbatim>\<open>RealtimeError\<close> carries a failure context\<close>
  "has_failure e \<longleftrightarrow> (case e of RealtimeErr c m b f r x \<Rightarrow> x \<noteq> None | _ \<Rightarrow> True)"

definition phase_ok :: "client_config \<Rightarrow> open_call \<Rightarrow> bool" where
  "phase_ok k op \<longleftrightarrow>
     (case op_phase op of
        At_mint \<Rightarrow> stages op = minting_stages \<and> \<not> op_connected op \<and> op_closed op = [] \<and> request_checked k (op_request op) = Inr ()
      | At_connect m \<Rightarrow> stages op = connecting_stages \<and> \<not> op_connected op \<and> op_closed op = [] \<and> minted_ok k m op
      | At_send m p i \<Rightarrow> stages op = connected_stages \<and> op_connected op \<and> op_closed op = [] \<and> minted_ok k m op
      | At_receive m i \<Rightarrow> stages op = connected_stages \<and> op_connected op \<and> op_closed op = [] \<and> minted_ok k m op
      | At_start m i reply ev s \<Rightarrow> stages op = connected_stages \<and> op_connected op \<and> op_closed op = [] \<and> session_bound k m i reply s op
      | At_close reason r \<Rightarrow> stages op = connected_stages \<and> op_connected op \<and> op_closed op = [reason] \<and> fst r \<noteq> CancelledErr
      | Opened m i reply s \<Rightarrow>
          stages op = connected_stages @ [DS_OPEN_COMPLETED] \<and> op_connected op \<and> op_closed op = [] \<and> session_bound k m i reply s op
      | Failed e \<Rightarrow>
          if e = CancelledErr then stages op \<in> {minting_stages, connecting_stages} \<union> set given_up
          else stages op \<in> set (map (\<lambda>p. p @ [DS_OPEN_FAILED]) given_up)
            \<and> length (op_closed op) = (if op_connected op then 1 else 0) \<and> has_failure e)"

definition call_ok :: "client_config \<Rightarrow> open_call \<Rightarrow> bool" where
  "call_ok k op \<longleftrightarrow> sound_op op \<and> phase_ok k op"

definition session_of :: "open_call \<Rightarrow> session option" where
  "session_of op =
    (case op_phase op of At_start m i reply ev s \<Rightarrow> Some s | Opened m i reply s \<Rightarrow> Some s | _ \<Rightarrow> None)"

definition generation_of :: "open_call \<Rightarrow> int option" where
  "generation_of op = map_option (\<lambda>s. cf_generation (sn_cfg s)) (session_of op)"

definition table_generation :: "client \<Rightarrow> ustr \<Rightarrow> int" where
  "table_generation c ext = tb_generation (ls_table (the_session (cl_recovery c) ext))"

definition kept_call :: "open_call \<Rightarrow> open_call \<Rightarrow> bool" where
  "kept_call op op' \<longleftrightarrow> op_correlation op' = op_correlation op \<and> op_request op' = op_request op"

definition client_le :: "client \<Rightarrow> client \<Rightarrow> bool" where
  "client_le c c' \<longleftrightarrow>
     cl_used c' = cl_used c \<and> cl_generation c \<le> cl_generation c'
     \<and> (cl_generation c' = cl_generation c \<longrightarrow> table_generation c' = table_generation c)"

definition goes :: "client_config \<Rightarrow> client \<Rightarrow> open_call \<Rightarrow> client \<times> open_call \<Rightarrow> bool" where
  \<comment> \<open>an opening goes on to a sound state, without a session that it did not have\<close>
  "goes k c op r \<longleftrightarrow>
     call_ok k (snd r) \<and> kept_call op (snd r) \<and> client_le c (fst r) \<and> generation_of (snd r) \<in> {None, generation_of op}"

section \<open>Emitting\<close>

lemma stages_simps [simp]:
  "stages (emit_open d op) = stages op @ [dg_stage d]" "stages (emit_stage st op) = stages op @ [st]"
  "stages (emit_failed st c kind f op) = stages op @ [st]"
  "stages (op\<lparr>op_phase := p\<rparr>) = stages op" "stages (op\<lparr>op_connected := b\<rparr>) = stages op"
  "stages (op\<lparr>op_closed := x\<rparr>) = stages op"
  by (simp_all add: stages_def emit_open_def emit_stage_def emit_failed_def diag_def)

lemma emit_fields [simp]:
  "op_phase (emit_open d op) = op_phase op" "op_phase (emit_stage st op) = op_phase op"
  "op_phase (emit_failed st c kind f op) = op_phase op"
  "op_request (emit_open d op) = op_request op" "op_request (emit_stage st op) = op_request op"
  "op_request (emit_failed st c kind f op) = op_request op"
  "op_correlation (emit_open d op) = op_correlation op" "op_correlation (emit_stage st op) = op_correlation op"
  "op_correlation (emit_failed st c kind f op) = op_correlation op"
  "op_connected (emit_open d op) = op_connected op" "op_connected (emit_stage st op) = op_connected op"
  "op_connected (emit_failed st c kind f op) = op_connected op"
  "op_closed (emit_open d op) = op_closed op" "op_closed (emit_stage st op) = op_closed op"
  "op_closed (emit_failed st c kind f op) = op_closed op"
  by (simp_all add: emit_open_def emit_stage_def emit_failed_def)

lemma sound_simps [simp]:
  "sound_op (op\<lparr>op_phase := p\<rparr>) \<longleftrightarrow> sound_op op" "sound_op (op\<lparr>op_connected := b\<rparr>) \<longleftrightarrow> sound_op op"
  "sound_op (op\<lparr>op_closed := x\<rparr>) \<longleftrightarrow> sound_op op"
  by (simp_all add: sound_op_def)

lemma sound_emit:
  "sound_op op \<Longrightarrow> sound_op (emit_stage st op)"
  "sound_op op \<Longrightarrow> stable_metadata kind \<Longrightarrow> sound_op (emit_failed st c kind f op)"
  "sound_op op \<Longrightarrow> 0 < g \<Longrightarrow> sound_op (emit_open ((diag (op_correlation op) st)\<lparr>dg_generation := Some g\<rparr>) op)"
  by (auto simp: sound_op_def emit_stage_def emit_failed_def emit_open_def diag_def diag_error_def)

lemma kind_stable: "stable_metadata (u fallback) \<Longrightarrow> stable_metadata (failure_operation_kind r fallback)"
  by (auto simp: failure_operation_kind_def split: pyval.split)

lemma fallbacks_stable [simp]:
  "stable_metadata (u ''open.failure'')" "stable_metadata (u ''mint.failure'')"
  "stable_metadata (u ''transport.connect.failure'')" "stable_metadata (u ''transport.connect.timeout'')"
  by code_simp+

section \<open>Failing\<close>

lemma client_le_refl [simp]: "client_le c c"
  by (simp add: client_le_def)

lemma kept_call_refl [simp]: "kept_call op op"
  by (simp add: kept_call_def)

lemma next_generation_Inr:
  assumes "identity_text (or_external_session_id req)"
  obtains g c' where "next_generation req c = Inr (g, c')" "cl_generation c + 1 \<le> g" "client_le c c'" "cl_generation c' = cl_generation c"
proof -
  obtain l rs where l: "get_session (cl_recovery c) (or_external_session_id req) = Inr (l, rs)"
    using assms by (cases "map_of (cl_recovery c) (or_external_session_id req)") (auto simp: get_session_def)
  then have "\<forall>e. the_session rs e = the_session (cl_recovery c) e"
    using the_session_get by blast
  then have "client_le c (c\<lparr>cl_recovery := rs\<rparr>)"
    by (simp add: client_le_def table_generation_def fun_eq_iff)
  then show thesis
    using that [of "max (cl_generation c + 1) (tb_generation (ls_table l) + 1)" "c\<lparr>cl_recovery := rs\<rparr>"]
    by (simp add: next_generation_def l)
qed

lemma fail_open_ok:
  assumes "sound_op op" "0 \<le> cl_generation c"
    and "fst r = CancelledErr \<Longrightarrow> stages op \<in> {minting_stages, connecting_stages} \<union> set given_up"
    and "fst r \<noteq> CancelledErr \<Longrightarrow> stages op \<in> set given_up \<and> length (op_closed op) = (if op_connected op then 1 else 0)"
  shows "goes k c op (fail_open r c op)"
proof (cases "fst r = CancelledErr")
  case True
  then show ?thesis
    using assms(1,3)
    by (simp add: fail_open_def goes_def call_ok_def phase_ok_def generation_of_def session_of_def kept_call_def)
next
  case False
  let ?kind = "failure_operation_kind r ''open.failure''"
  have failed: "goes k c op (c', (emit_failed DS_OPEN_FAILED code ?kind x op)\<lparr>op_phase := Failed e\<rparr>)"
    if "client_le c c'" "e \<noteq> CancelledErr" "has_failure e" for c' code x e
    using assms(1,4) False that sound_emit(2) [OF assms(1) kind_stable]
    by (auto simp: goes_def call_ok_def phase_ok_def generation_of_def session_of_def kept_call_def)
  show ?thesis
  proof (cases "carried_failure (fst r)")
    case (Some f)
    then have "has_failure (fst r)"
      by (auto simp: has_failure_def carried_failure_def split: exn.splits)
    then show ?thesis
      using failed [of c] False Some by (simp add: fail_open_def Let_def)
  next
    case None
    have "identity_text (or_external_session_id (op_request op))"
      using assms(1) by (simp add: sound_op_def)
    then obtain g c' where g: "next_generation (op_request op) c = Inr (g, c')" "cl_generation c + 1 \<le> g" "client_le c c'"
      by (rule next_generation_Inr)
    have "failure_ok (bare_failure (u ''open.failure'') ?kind g)"
      using g(2) assms(2) kind_stable by (simp add: failure_ok_iff bare_failure_def)
    then have "build_failure (bare_failure (u ''open.failure'') ?kind g) = Inr (bare_failure (u ''open.failure'') ?kind g)"
      by (simp add: build_failure_Inr)
    moreover have "with_failure_of f (fst r) \<noteq> CancelledErr" "has_failure (with_failure_of f (fst r))" for f
      using False by (simp_all add: with_failure_of_def has_failure_def split: exn.split)
    ultimately show ?thesis
      using failed [OF g(3)] False None g(1) by (simp add: fail_open_def Let_def)
  qed
qed

lemma goes_emitted:
  "goes k c (emit_open d op) x \<longleftrightarrow> goes k c op x" "goes k c (emit_stage st op) x \<longleftrightarrow> goes k c op x"
  "goes k c (emit_failed st code kind f op) x \<longleftrightarrow> goes k c op x"
  "goes k c (op\<lparr>op_connected := b\<rparr>) x \<longleftrightarrow> goes k c op x"
  by (simp_all add: goes_def kept_call_def generation_of_def session_of_def)

lemma give_up_ok:
  assumes "sound_op op" "0 \<le> cl_generation c" "stages op = connected_stages" "op_connected op" "op_closed op = []"
  shows "goes k c op (give_up r c op)"
proof (cases "fst r = CancelledErr")
  case True
  then show ?thesis
    using assms fail_open_ok [of op c r k] by (simp add: give_up_def given_up_def)
next
  case False
  then show ?thesis
    using assms
    by (auto simp: give_up_def goes_def call_ok_def phase_ok_def generation_of_def session_of_def kept_call_def)
qed

section \<open>Going on\<close>

lemma start_stages: "[DS_OPEN_STARTED] \<in> set given_up" "minting_stages @ [DS_MINT_FAILED] \<in> set given_up"
  "minting_stages @ [DS_MINT_COMPLETED] \<in> set given_up" "connecting_stages @ [DS_CONNECT_FAILED] \<in> set given_up"
  "connected_stages \<in> set given_up"
  by (simp_all add: given_up_def)

lemma open_begin_ok:
  assumes "correlation_ok corr" "identity_text (or_external_session_id req)" "0 \<le> cl_generation c"
    and "open_begin k req corr c = (c', op)"
  shows "call_ok k op" "op_correlation op = corr" "op_request op = req" "client_le c c'" "generation_of op = None"
proof -
  obtain a where a: "a = emit_stage DS_OPEN_STARTED \<lparr>op_request = req, op_correlation = corr, op_phase = At_mint,
      op_connected = False, op_closed = [], op_log = []\<rparr>"
    by blast
  have "sound_op a"
    unfolding a by (rule sound_emit(1)) (use assms(1,2) in \<open>simp add: sound_op_def\<close>)
  moreover have "stages a = [DS_OPEN_STARTED]"
    unfolding a by (simp add: stages_def emit_stage_def emit_open_def diag_def)
  ultimately have op: "sound_op a" "stages a = [DS_OPEN_STARTED]" "op_phase a = At_mint" "\<not> op_connected a"
      "op_closed a = []" "op_correlation a = corr" "op_request a = req"
    unfolding a by simp_all
  have "goes k c a (c', op)"
  proof (cases "request_checked k req")
    case (Inl e)
    then have "(c', op) = fail_open (e, VNone) c a"
      using assms(4) by (simp add: open_begin_def Let_def a)
    then show ?thesis
      using fail_open_ok [OF op(1) assms(3), of "(e, VNone)" k] start_stages(1) op by simp
  next
    case (Inr x)
    then have "c' = c" "op = emit_stage DS_MINT_STARTED a"
      using assms(4) by (simp_all add: open_begin_def Let_def a)
    then show ?thesis
      using op sound_emit(1) [OF op(1)] Inr
      by (simp add: goes_def call_ok_def phase_ok_def minting_stages_def kept_call_def generation_of_def session_of_def)
  qed
  then show "call_ok k op" "op_correlation op = corr" "op_request op = req" "client_le c c'" "generation_of op = None"
    using op by (auto simp: goes_def kept_call_def generation_of_def session_of_def)
qed

lemma mint_answered_ok:
  assumes "call_ok k op" "op_phase op = At_mint" "0 \<le> cl_generation c"
  shows "goes k c op (mint_answered k answer c op)"
proof -
  have op: "sound_op op" "stages op = minting_stages" "\<not> op_connected op" "op_closed op = []" "request_checked k (op_request op) = Inr ()"
    using assms(1,2) by (simp_all add: call_ok_def phase_ok_def)
  show ?thesis
  proof (cases answer)
    case (Inl r)
    let ?op = "emit_failed DS_MINT_FAILED (stable_code (fst r)) (failure_operation_kind r ''mint.failure'') None op"
    have "sound_op ?op"
      by (rule sound_emit(2)) (simp_all add: op(1) kind_stable)
    then show ?thesis
      using fail_open_ok [of op c r k] fail_open_ok [of ?op c r k] op assms(3) start_stages(2) Inl
      by (auto simp: mint_answered_def goes_emitted)
  next
    case (Inr m)
    let ?op = "emit_stage DS_MINT_COMPLETED op"
    have sound: "sound_op ?op" "sound_op (emit_stage DS_CONNECT_STARTED ?op)"
      by (simp_all add: op(1) sound_emit(1))
    show ?thesis
    proof (cases "validate_minted (cc_env k) (cc_sha k) (cc_manifest k) m (cc_profile k) (op_request op)")
      case (Inl e)
      then show ?thesis
        using fail_open_ok [OF sound(1) assms(3), of "(e, VNone)" k] op start_stages(3) Inr
        by (simp add: mint_answered_def Let_def goes_emitted)
    next
      case (Inr x)
      then show ?thesis
        using \<open>answer = Inr m\<close> sound op
        by (simp add: mint_answered_def Let_def goes_def call_ok_def phase_ok_def connecting_stages_def minted_ok_def
            kept_call_def generation_of_def session_of_def)
    qed
  qed
qed

lemma connect_answered_ok:
  assumes "call_ok k op" "op_phase op = At_connect m" "0 \<le> cl_generation c"
  shows "goes k c op (connect_answered k hex answer m c op)"
proof -
  have op: "sound_op op" "stages op = connecting_stages" "\<not> op_connected op" "op_closed op = []" "minted_ok k m op"
    using assms(1,2) by (simp_all add: call_ok_def phase_ok_def)
  show ?thesis
  proof (cases answer)
    case (Inl r)
    have failed: "goes k c op (fail_open q c (emit_failed DS_CONNECT_FAILED code kind None op))"
      if "stable_metadata kind" for q code kind
      using fail_open_ok [OF sound_emit(2) [OF op(1) that] assms(3), of q DS_CONNECT_FAILED code None k] op start_stages(4)
      by (simp add: goes_emitted)
    show ?thesis
      using Inl failed fail_open_ok [of op c r k] op assms(3)
      by (auto simp: connect_answered_def kind_stable timeout_error_def)
  next
    case (Inr x)
    let ?op = "(emit_stage DS_CONNECT_COMPLETED op)\<lparr>op_connected := True\<rparr>"
    have sound: "sound_op ?op" "stages ?op = connected_stages"
      by (simp_all add: op(1,2) sound_emit(1) connected_stages_def)
    show ?thesis
    proof (cases "build_session_open (cc_env k) hex m (op_correlation op)")
      case (Inl e)
      then show ?thesis
        using give_up_ok [OF sound(1) assms(3) sound(2), of k "(e, VNone)"] op Inr
        by (simp add: connect_answered_def Let_def goes_emitted)
    next
      case (Inr y)
      then show ?thesis
        using \<open>answer = Inr x\<close> sound op
        by (cases y) (simp add: connect_answered_def Let_def goes_def call_ok_def phase_ok_def minted_ok_def
            kept_call_def generation_of_def session_of_def)
    qed
  qed
qed

lemma on_connection:
  assumes "call_ok k op" "stages op = connected_stages" "op_connected op" "op_closed op = []" "0 \<le> cl_generation c"
  shows "goes k c op (give_up r c op)"
  using give_up_ok [of op c k r] assms by (simp add: call_ok_def)

lemma send_answered_ok:
  assumes "call_ok k op" "op_phase op = At_send m p i" "0 \<le> cl_generation c"
  shows "goes k c op (send_answered answer m i c op)"
proof -
  have op: "sound_op op" "stages op = connected_stages" "op_connected op" "op_closed op = []" "minted_ok k m op"
    using assms(1,2) by (simp_all add: call_ok_def phase_ok_def)
  show ?thesis
  proof (cases answer)
    case (Inl r)
    then show ?thesis
      using on_connection [OF assms(1) op(2-4) assms(3)] by (simp add: send_answered_def)
  next
    case (Inr x)
    then show ?thesis
      using op by (simp add: send_answered_def goes_def call_ok_def phase_ok_def minted_ok_def kept_call_def
          generation_of_def session_of_def)
  qed
qed

lemma close_answered_ok:
  assumes "call_ok k op" "op_phase op = At_close reason r" "0 \<le> cl_generation c"
  shows "goes k c op (close_answered answer r c op)"
proof -
  have op: "sound_op op" "stages op = connected_stages" "op_connected op" "op_closed op = [reason]"
    using assms(1,2) by (simp_all add: call_ok_def phase_ok_def)
  then have "goes k c op (fail_open q c op)" for q
    using fail_open_ok [OF op(1) assms(3)] start_stages(5) by simp
  then show ?thesis
    by (auto simp: close_answered_def split: sum.split exn.split)
qed

section \<open>The session\<close>

definition advances :: "client_config \<Rightarrow> client \<Rightarrow> open_call \<Rightarrow> client \<times> open_call \<Rightarrow> bool" where
  \<comment> \<open>an opening goes on as before, or takes a new generation, which its session has if it gets one\<close>
  "advances k c op r \<longleftrightarrow>
     goes k c op r
     \<or> call_ok k (snd r) \<and> kept_call op (snd r) \<and> cl_used (fst r) = cl_used c \<and> cl_generation c < cl_generation (fst r)
       \<and> (generation_of (snd r) = None
          \<or> generation_of (snd r) = Some (cl_generation (fst r))
            \<and> table_generation (fst r) (or_external_session_id (op_request op)) = cl_generation (fst r))"

lemma session_init_bound:
  assumes "session_init env sha req cap g corr disp seen sent rs = Inr s"
  shows "cf_request (sn_cfg s) = req" "cf_capability (sn_cfg s) = cap" "cf_correlation (sn_cfg s) = corr"
    "g \<le> cf_generation (sn_cfg s)"
    "tb_generation (ls_table (the_session (sn_recovery s) (or_external_session_id req))) = cf_generation (sn_cfg s)"
proof -
  obtain h rs' where h: "begin_session rs (or_external_session_id req) g = Inr (h, rs')"
    using assms by (auto simp: session_init_def andthen_Inr_iff)
  then have "g \<le> h" "tb_generation (ls_table (the_session rs' (or_external_session_id req))) = h"
    by (auto simp: begin_session_def andthen_Inr_iff Let_def the_session_put begin_generation_def)
  then show "cf_request (sn_cfg s) = req" "cf_capability (sn_cfg s) = cap" "cf_correlation (sn_cfg s) = corr"
    "g \<le> cf_generation (sn_cfg s)"
    "tb_generation (ls_table (the_session (sn_recovery s) (or_external_session_id req))) = cf_generation (sn_cfg s)"
    using assms by (auto simp: session_init_def h Let_def the_session_put)
qed

lemma start_session_cfg: "sn_cfg (snd (start_session ev s)) = sn_cfg s"
  by (simp add: start_session_def split: sum.split)

lemma begin_managed_ok:
  assumes "call_ok k op" "op_phase op = At_receive m i" "0 \<le> cl_generation c"
    and "validate_session_created (cc_env k) reply m i = Inr ()"
  shows "advances k c op (begin_managed k update m i reply c op)"
proof -
  have op: "sound_op op" "stages op = connected_stages" "op_connected op" "op_closed op = []" "minted_ok k m op"
    using assms(1,2) by (simp_all add: call_ok_def phase_ok_def)
  have gone: "advances k c op (give_up r d op)"
    if "cl_generation c < cl_generation d" "cl_used d = cl_used c" for r d
  proof -
    have "goes k d op (give_up r d op)"
      using on_connection [OF assms(1) op(2-4)] assms(3) that(1) by simp
    then show ?thesis
      using that assms(2) by (auto simp: advances_def goes_def client_le_def generation_of_def session_of_def)
  qed
  let ?ext = "or_external_session_id (op_request op)"
  let ?seen = "case map_of (cl_seen c) ?ext of Some s \<Rightarrow> s | None \<Rightarrow> {}"
  show ?thesis
  proof (cases "session_init (cc_env k) (cc_sha k) (op_request op) (mc_capability m) (cl_generation c + 1)
      (op_correlation op) (cc_dispatcher k) ?seen [(i, u ''tokenseller.session.open'')] (cl_recovery c)")
    case (Inl e)
    then show ?thesis
      by (simp add: begin_managed_def Let_def gone)
  next
    case (Inr s)
    note bound = session_init_bound [OF Inr]
    obtain x s1 where s1: "start_session (case update of Inr ev \<Rightarrow> ev | Inl _ \<Rightarrow> []) s = (x, s1)"
      by (cases "start_session (case update of Inr ev \<Rightarrow> ev | Inl _ \<Rightarrow> []) s")
    have cfg: "sn_cfg s1 = sn_cfg s"
      using start_session_cfg [of "case update of Inr ev \<Rightarrow> ev | Inl _ \<Rightarrow> []" s] by (simp add: s1)
    show ?thesis
    proof (cases "\<exists>y ev. x = Inr y \<and> update = Inr ev")
      case False
      then show ?thesis
        using bound(4) by (auto simp: begin_managed_def Let_def Inr s1 gone split: sum.splits)
    next
      case True
      then obtain y ev where y: "x = Inr y" "update = Inr ev"
        by blast
      have "session_bound k m i reply s1 (op\<lparr>op_phase := At_start m i reply ev s1\<rparr>)"
        using op(5) assms(4) bound(1-3) by (simp add: session_bound_def minted_ok_def cfg)
      then show ?thesis
        using s1 y bound(4,5) op cfg
        by (simp add: begin_managed_def Let_def Inr advances_def call_ok_def phase_ok_def kept_call_def generation_of_def
            session_of_def table_generation_def)
    qed
  qed
qed

lemma reply_refused_ok:
  assumes "identity_text (or_external_session_id (op_request op))"
  shows "client_le c (snd (reply_refused k i reply e c op))"
proof -
  obtain g c' where "next_generation (op_request op) c = Inr (g, c')" "client_le c c'"
    using next_generation_Inr [OF assms] by metis
  then show ?thesis
    by (auto simp: reply_refused_def andthen_case split: exn.split sum.split)
qed

text \<open>
  The context of a refused reply is always one that its constructor accepts, whatever field and reason the
  refusal names: the exception keeps its code and carries the context of the reply.
\<close>

lemma decoded_failure:
  assumes "decode_runtime_event env reply = Inr (Some (SessionFailed x))"
  shows "failed_ok x"
  using assms
  by (cases rule: decode_runtime_event_Some) (auto dest: decode_control_error_Inr decode_control_closed_Inr)

lemma created_failure_ok:
  assumes "payload_fields env reply = Inr (kind, names)" "safe_control env reply = Inr control" "printable_id i" "1 \<le> g"
  shows "failure_ok (created_failure kind names g i control field reason)"
proof -
  have names: "stable_metadata kind" "set names \<subseteq> set SAFE_FAILURE_FIELDS"
    using payload_fields_ok [OF assms(1)] by simp_all
  have control: "failed_ok x" if "control = Some x" for x
    using assms(2) that
    by (auto simp: safe_control_def intro!: decoded_failure split: sum.splits exn.splits option.splits rt_event.splits)
  have stable: "stable_metadata (u ''control.open'')" "stable_metadata (u ''tokenseller.session.open'')"
      "list_all stable_metadata FAILURE_REASONS" "stable_metadata (u ''validation_failed'')" "list_all stable_metadata MESSAGE_CLASSES"
      "u ''fields'' \<in> set EXTRA_VALIDATION_FIELDS"
    by code_simp+
  then show ?thesis
    using names control assms(3,4)
    by (auto simp: failure_ok_iff created_failure_def failed_ok_def list_all_iff split: option.splits)
qed

lemma refused_reply_has_context:
  assumes "payload_fields (cc_env k) reply = Inr (kind, names)" "safe_control (cc_env k) reply = Inr control"
    and "printable_id i" "next_generation (op_request op) c = Inr (g, c1)" "1 \<le> g"
  shows "reply_refused k i reply (RealtimeErr code m b field reason x) c op
    = (RealtimeErr code m b field reason (Some (created_failure kind names g i control field reason)), c1)"
  using assms created_failure_ok [OF assms(1-3,5)]
  by (simp add: reply_refused_def build_failure_Inr [THEN iffD2] with_failure_of_def)

lemma receive_answered_ok:
  assumes "call_ok k op" "op_phase op = At_receive m i" "0 \<le> cl_generation c"
  shows "advances k c op (receive_answered k update answer m i c op)"
proof -
  have op: "sound_op op" "stages op = connected_stages" "op_connected op" "op_closed op = []"
    using assms(1,2) by (simp_all add: call_ok_def phase_ok_def)
  have gone: "advances k c op (give_up r d op)" if "client_le c d" for r d
  proof -
    have "goes k d op (give_up r d op)"
      using on_connection [OF assms(1) op(2-4)] assms(3) that by (auto simp: client_le_def)
    then show ?thesis
      using that by (auto simp: advances_def goes_def client_le_def)
  qed
  consider r where "answer = Inl r" | "answer = Inr None" | reply where "answer = Inr (Some reply)"
    by (metis option.exhaust sum.exhaust)
  then show ?thesis
  proof cases
    case (3 reply)
    show ?thesis
    proof (cases "validate_session_created (cc_env k) reply m i")
      case (Inl e)
      have "client_le c (snd (reply_refused k i reply e c op))"
        using reply_refused_ok op(1) by (simp add: sound_op_def)
      then show ?thesis
        using gone 3 Inl by (cases "reply_refused k i reply e c op") (simp add: receive_answered_def)
    next
      case (Inr x)
      then show ?thesis
        using begin_managed_ok [OF assms] 3 by (simp add: receive_answered_def)
    qed
  qed (simp_all add: receive_answered_def gone)
qed

lemma send_fails: "outcome \<noteq> Sent \<Longrightarrow> \<exists>e s1. send_done ev outcome s = (Inl e, s1)"
  by (cases outcome) (auto simp: send_done_def Let_def split: exn.split)

lemma start_answered_ok:
  assumes "call_ok k op" "op_phase op = At_start m i reply ev s" "0 \<le> cl_generation c" "0 < cf_generation (sn_cfg s)"
  shows "goes k c op (start_answered answer m i reply ev s c op)"
proof -
  have op: "sound_op op" "stages op = connected_stages" "op_connected op" "op_closed op = []" "session_bound k m i reply s op"
    using assms(1,2) by (simp_all add: call_ok_def phase_ok_def)
  note gone = on_connection [OF assms(1) op(2-4) assms(3)]
  consider r where "answer = Inl r" | "answer = Inr Sent" | outcome e s1 where "answer = Inr outcome" "send_done ev outcome s = (Inl e, s1)"
    using send_fails [of _ ev s] by (cases answer) blast+
  then show ?thesis
  proof cases
    case 2
    let ?op = "emit_open ((diag (op_correlation op) DS_OPEN_COMPLETED)\<lparr>dg_generation := Some (cf_generation (sn_cfg s))\<rparr>) op"
    have "sound_op ?op"
      by (rule sound_emit(3) [OF op(1) assms(4)])
    moreover have "stages ?op = connected_stages @ [DS_OPEN_COMPLETED]"
      by (simp add: op(2)) (simp add: diag_def)
    ultimately show ?thesis
      using 2 op assms(2)
      by (simp add: start_answered_def send_done_def goes_def call_ok_def phase_ok_def session_bound_def minted_ok_def
          kept_call_def generation_of_def session_of_def)
  qed (simp_all add: start_answered_def gone)
qed

section \<open>Correlations\<close>

lemma reserve_generated_Inr:
  "reserve_generated xs c = (Inr x, c') \<Longrightarrow> x \<in> set xs \<and> x \<notin> cl_used c \<and> c' = c\<lparr>cl_used := insert x (cl_used c)\<rparr>"
  by (induction xs) (auto split: if_splits)

lemma reserve_given_Inr:
  "reserve_given x c = (Inr y, c') \<Longrightarrow>
    y = x \<and> correlation_ok x \<and> x \<notin> cl_used c \<and> c' = c\<lparr>cl_used := insert x (cl_used c)\<rparr>"
  by (auto simp: reserve_given_def split: if_splits)

lemma new_correlation_ok: "length choices = 26 \<Longrightarrow> correlation_ok (new_correlation choices)"
proof -
  have "list_all correlation_char CROCKFORD" "length CROCKFORD = 32"
    by code_simp+
  then have "correlation_char (CROCKFORD ! (i mod 32))" for i
    by (simp add: list_all_length)
  moreover have "length (u ''corr_'') = 5"
    by simp
  ultimately show "length choices = 26 \<Longrightarrow> correlation_ok (new_correlation choices)"
    by (simp add: correlation_ok_def new_correlation_def list_all_iff)
qed

section \<open>Interleavings\<close>

datatype answer =
    Minted "raised + minted_credential"
  | Connected ustr "raised + unit" \<comment> \<open>with the fresh part of the identity\<close>
  | Opening_sent "raised + unit"
  | Replied "dict res" "raised + ustr option" \<comment> \<open>with what the adapter builds for the session\<close>
  | Update_sent "raised + send_outcome"
  | Close_returned "raised + unit"

definition open_continue :: "client_config \<Rightarrow> answer \<Rightarrow> client \<Rightarrow> open_call \<Rightarrow> (client \<times> open_call) option" where
  \<comment> \<open>what the coroutine awaited is answered\<close>
  "open_continue k a c op =
    (case (op_phase op, a) of
       (At_mint, Minted x) \<Rightarrow> Some (mint_answered k x c op)
     | (At_connect m, Connected hex x) \<Rightarrow> Some (connect_answered k hex x m c op)
     | (At_send m p i, Opening_sent x) \<Rightarrow> Some (send_answered x m i c op)
     | (At_receive m i, Replied upd x) \<Rightarrow> Some (receive_answered k upd x m i c op)
     | (At_start m i reply ev s, Update_sent x) \<Rightarrow> Some (start_answered x m i reply ev s c op)
     | (At_close reason r, Close_returned x) \<Rightarrow> Some (close_answered x r c op)
     | _ \<Rightarrow> None)"

record client_world =
  ow_client :: client
  ow_calls :: "open_call list"

inductive client_step :: "client_config \<Rightarrow> client_world \<Rightarrow> client_world \<Rightarrow> bool" for k where
  generated_step: "reserve_generated (map new_correlation draws) (ow_client w) = (Inr corr, c) \<Longrightarrow>
    length draws = 4 \<Longrightarrow> \<forall>d\<in>set draws. length d = 26 \<Longrightarrow> open_request_init (cc_env k) req = Inr () \<Longrightarrow>
    open_begin k req corr c = (c', op) \<Longrightarrow> client_step k w (w\<lparr>ow_client := c', ow_calls := ow_calls w @ [op]\<rparr>)"
| given_step: "reserve_given x (ow_client w) = (Inr corr, c) \<Longrightarrow> open_request_init (cc_env k) req = Inr () \<Longrightarrow>
    open_begin k req corr c = (c', op) \<Longrightarrow> client_step k w (w\<lparr>ow_client := c', ow_calls := ow_calls w @ [op]\<rparr>)"
| answer_step: "n < length (ow_calls w) \<Longrightarrow> open_continue k a (ow_client w) (ow_calls w ! n) = Some (c', op) \<Longrightarrow>
    client_step k w (w\<lparr>ow_client := c', ow_calls := (ow_calls w)[n := op]\<rparr>)"
| sessions_step: \<comment> \<open>the sessions use what they share with the client\<close>
    "table_generation (c\<lparr>cl_recovery := rs\<rparr>) = table_generation c \<Longrightarrow> c = ow_client w \<Longrightarrow>
    client_step k w (w\<lparr>ow_client := c\<lparr>cl_recovery := rs, cl_seen := seen\<rparr>\<rparr>)"

definition client_start :: "client_config \<Rightarrow> client_world \<Rightarrow> bool" where
  "client_start k w \<longleftrightarrow>
     (\<exists>timeouts rs. client_init (cc_profile k) (cc_capability k) timeouts rs = Inr (ow_client w)) \<and> ow_calls w = []"

definition generations_ok :: "client \<Rightarrow> open_call list \<Rightarrow> bool" where
  \<comment> \<open>every session has its own generation, and the newest one that of its table\<close>
  "generations_ok c calls \<longleftrightarrow>
     (\<forall>i g. i < length calls \<longrightarrow> generation_of (calls ! i) = Some g \<longrightarrow>
        0 < g \<and> g \<le> cl_generation c
        \<and> (g = cl_generation c \<longrightarrow> table_generation c (or_external_session_id (op_request (calls ! i))) = g)
        \<and> (\<forall>j < length calls. generation_of (calls ! j) = Some g \<longrightarrow> j = i))"

definition client_world_ok :: "client_config \<Rightarrow> client_world \<Rightarrow> bool" where
  "client_world_ok k w \<longleftrightarrow>
     0 \<le> cl_generation (ow_client w) \<and> (\<forall>op\<in>set (ow_calls w). call_ok k op)
     \<and> distinct (map op_correlation (ow_calls w)) \<and> set (map op_correlation (ow_calls w)) \<subseteq> cl_used (ow_client w)
     \<and> generations_ok (ow_client w) (ow_calls w)"

lemma request_identity:
  "open_request_init env req = Inr () \<Longrightarrow> identity_text (or_external_session_id req)"
  using length_le_utf8_len [of "or_external_session_id req"]
  by (auto simp: open_request_init_def required_text_def identity_text_def result_simps split: if_splits)

lemma goes_advances: "goes k c op r \<Longrightarrow> advances k c op r"
  by (simp add: advances_def)

lemma continue_advances:
  assumes "open_continue k a c op = Some r" "call_ok k op" "0 \<le> cl_generation c"
    and "\<And>g. generation_of op = Some g \<Longrightarrow> 0 < g"
  shows "advances k c op r"
proof (cases "op_phase op")
  case At_mint
  then show ?thesis
    using assms(1) goes_advances [OF mint_answered_ok [OF assms(2) At_mint assms(3)]]
    by (auto simp: open_continue_def split: answer.splits)
next
  case (At_connect m)
  then show ?thesis
    using assms(1) goes_advances [OF connect_answered_ok [OF assms(2) At_connect assms(3)]]
    by (auto simp: open_continue_def split: answer.splits)
next
  case (At_send m p i)
  then show ?thesis
    using assms(1) goes_advances [OF send_answered_ok [OF assms(2) At_send assms(3)]]
    by (auto simp: open_continue_def split: answer.splits)
next
  case (At_receive m i)
  then show ?thesis
    using assms(1) receive_answered_ok [OF assms(2) At_receive assms(3)]
    by (auto simp: open_continue_def split: answer.splits)
next
  case (At_start m i reply ev s)
  then have "0 < cf_generation (sn_cfg s)"
    using assms(4) by (simp add: generation_of_def session_of_def)
  then show ?thesis
    using At_start assms(1) goes_advances [OF start_answered_ok [OF assms(2) At_start assms(3)]]
    by (auto simp: open_continue_def split: answer.splits)
next
  case (At_close reason r)
  then show ?thesis
    using assms(1) goes_advances [OF close_answered_ok [OF assms(2) At_close assms(3)]]
    by (auto simp: open_continue_def split: answer.splits)
qed (use assms(1) in \<open>simp_all add: open_continue_def\<close>)

lemma generations_kept:
  \<comment> \<open>a step that takes no new generation\<close>
  assumes "generations_ok c calls" "client_le c c'"
    and "length calls' = length calls"
    and "\<And>i. i < length calls \<Longrightarrow> op_request (calls' ! i) = op_request (calls ! i)
          \<and> generation_of (calls' ! i) \<in> {None, generation_of (calls ! i)}"
  shows "generations_ok c' calls'"
proof -
  have old: "generation_of (calls ! i) = Some g" if "i < length calls" "generation_of (calls' ! i) = Some g" for i g
    using assms(4) [OF that(1)] that(2) by auto
  have le: "cl_generation c \<le> cl_generation c'" "cl_generation c' = cl_generation c \<Longrightarrow> table_generation c' = table_generation c"
    using assms(2) by (auto simp: client_le_def)
  show ?thesis
    unfolding generations_ok_def
  proof (intro allI impI)
    fix i g
    assume i: "i < length calls'" "generation_of (calls' ! i) = Some g"
    then have g: "i < length calls" "generation_of (calls ! i) = Some g"
      using old assms(3) by simp_all
    then have "0 < g" "g \<le> cl_generation c"
        "g = cl_generation c \<Longrightarrow> table_generation c (or_external_session_id (op_request (calls ! i))) = g"
        "\<And>j. j < length calls \<Longrightarrow> generation_of (calls ! j) = Some g \<Longrightarrow> j = i"
      using assms(1) by (auto simp: generations_ok_def)
    then show "0 < g \<and> g \<le> cl_generation c'
        \<and> (g = cl_generation c' \<longrightarrow> table_generation c' (or_external_session_id (op_request (calls' ! i))) = g)
        \<and> (\<forall>j<length calls'. generation_of (calls' ! j) = Some g \<longrightarrow> j = i)"
      using le old assms(3) assms(4) [OF g(1)] by auto
  qed
qed

lemma generations_new:
  \<comment> \<open>an opening takes a new generation\<close>
  assumes "generations_ok c calls" "n < length calls" "cl_generation c < cl_generation c'" "0 \<le> cl_generation c"
    and "generation_of op = None
      \<or> generation_of op = Some (cl_generation c') \<and> table_generation c' (or_external_session_id (op_request op)) = cl_generation c'"
  shows "generations_ok c' (calls[n := op])"
  unfolding generations_ok_def
proof (intro allI impI)
  fix i g
  assume i: "i < length (calls[n := op])" "generation_of (calls[n := op] ! i) = Some g"
  have old: "0 < h \<and> h \<le> cl_generation c \<and> (\<forall>j<length calls. generation_of (calls ! j) = Some h \<longrightarrow> j = l)"
    if "l < length calls" "generation_of (calls ! l) = Some h" for l h
    using assms(1) that by (simp add: generations_ok_def)
  have new: "h = cl_generation c'" "table_generation c' (or_external_session_id (op_request op)) = cl_generation c'"
    if "generation_of op = Some h" for h
    using assms(5) that by auto
  show "0 < g \<and> g \<le> cl_generation c'
      \<and> (g = cl_generation c' \<longrightarrow> table_generation c' (or_external_session_id (op_request (calls[n := op] ! i))) = g)
      \<and> (\<forall>j<length (calls[n := op]). generation_of (calls[n := op] ! j) = Some g \<longrightarrow> j = i)"
  proof (cases "i = n")
    case True
    then have g: "generation_of op = Some g"
      using i by simp
    have "j = n" if "j < length calls" "generation_of (calls[n := op] ! j) = Some g" for j
    proof (rule ccontr)
      assume "j \<noteq> n"
      then have "generation_of (calls ! j) = Some g"
        using that(2) by simp
      then show False
        using old [OF that(1)] new(1) [OF g] assms(3) by fastforce
    qed
    then show ?thesis
      using True assms(2-4) new [OF g] by simp
  next
    case False
    then have g: "i < length calls" "generation_of (calls ! i) = Some g"
      using i by simp_all
    note mine = old [OF g]
    have "j = i" if "j < length calls" "generation_of (calls[n := op] ! j) = Some g" for j
    proof (cases "j = n")
      case True
      then have "generation_of op = Some g"
        using that by simp
      then show ?thesis
        using new(1) mine assms(3) by fastforce
    next
      case False
      then show ?thesis
        using that mine by simp
    qed
    then show ?thesis
      using mine assms(3) by simp
  qed
qed

lemma generations_append:
  assumes "generations_ok c calls" "generation_of op = None" "client_le c c'"
  shows "generations_ok c' (calls @ [op])"
proof -
  have kept: "generations_ok c' calls"
    by (rule generations_kept [OF assms(1,3)]) simp_all
  have "generation_of ((calls @ [op]) ! i) = Some g \<longleftrightarrow> i < length calls \<and> generation_of (calls ! i) = Some g"
    if "i < length (calls @ [op])" for i g
    using that assms(2) by (auto simp: nth_append not_less)
  then show ?thesis
    using kept unfolding generations_ok_def by (auto simp: nth_append)
qed

lemma opened_ok:
  \<comment> \<open>a new opening under a correlation that was not used\<close>
  assumes "client_world_ok k w" "correlation_ok corr" "corr \<notin> cl_used (ow_client w)"
    and "open_request_init (cc_env k) req = Inr ()"
    and "open_begin k req corr (ow_client w\<lparr>cl_used := insert corr (cl_used (ow_client w))\<rparr>) = (c', op)"
  shows "client_world_ok k (w\<lparr>ow_client := c', ow_calls := ow_calls w @ [op]\<rparr>)"
proof -
  let ?c = "ow_client w\<lparr>cl_used := insert corr (cl_used (ow_client w))\<rparr>"
  have pos: "0 \<le> cl_generation ?c"
    using assms(1) by (simp add: client_world_ok_def)
  note begun = open_begin_ok [OF assms(2) request_identity [OF assms(4)] pos assms(5)]
  have "generations_ok ?c (ow_calls w)"
    using assms(1) by (simp add: client_world_ok_def generations_ok_def table_generation_def)
  then have "generations_ok c' (ow_calls w @ [op])"
    using generations_append begun(4,5) by blast
  then show ?thesis
    using assms(1,3) begun by (auto simp: client_world_ok_def client_le_def)
qed

lemma continued_ok:
  assumes "client_world_ok k w" "n < length (ow_calls w)"
    and "open_continue k a (ow_client w) (ow_calls w ! n) = Some (c', op)"
  shows "client_world_ok k (w\<lparr>ow_client := c', ow_calls := (ow_calls w)[n := op]\<rparr>)"
proof -
  let ?old = "ow_calls w ! n"
  have inv: "0 \<le> cl_generation (ow_client w)" "\<forall>x\<in>set (ow_calls w). call_ok k x"
      "generations_ok (ow_client w) (ow_calls w)"
    using assms(1) by (simp_all add: client_world_ok_def)
  have "0 < g" if "generation_of ?old = Some g" for g
    using inv(3) assms(2) that by (simp add: generations_ok_def)
  then have adv: "advances k (ow_client w) ?old (c', op)"
    using continue_advances [OF assms(3)] inv(1,2) assms(2) by simp
  then have op: "call_ok k op" "kept_call ?old op" "cl_used c' = cl_used (ow_client w)"
      "cl_generation (ow_client w) \<le> cl_generation c'"
    by (auto simp: advances_def goes_def client_le_def)
  have "generations_ok c' ((ow_calls w)[n := op])"
    using adv unfolding advances_def
  proof
    assume "goes k (ow_client w) ?old (c', op)"
    then show ?thesis
      using generations_kept [OF inv(3), of c' "(ow_calls w)[n := op]"] assms(2)
      by (auto simp: goes_def kept_call_def nth_list_update)
  next
    assume "call_ok k (snd (c', op)) \<and> kept_call ?old (snd (c', op)) \<and> cl_used (fst (c', op)) = cl_used (ow_client w)
      \<and> cl_generation (ow_client w) < cl_generation (fst (c', op))
      \<and> (generation_of (snd (c', op)) = None \<or> generation_of (snd (c', op)) = Some (cl_generation (fst (c', op)))
        \<and> table_generation (fst (c', op)) (or_external_session_id (op_request ?old)) = cl_generation (fst (c', op)))"
    then show ?thesis
      using generations_new [OF inv(3) assms(2) _ inv(1), of c' op] by (auto simp: kept_call_def)
  qed
  moreover have "map op_correlation ((ow_calls w)[n := op]) = map op_correlation (ow_calls w)"
    using op(2) assms(2) by (metis kept_call_def list_update_id map_update nth_map)
  moreover have "\<forall>x\<in>set ((ow_calls w)[n := op]). call_ok k x"
    using inv(2) op(1) set_update_subset_insert by fastforce
  ultimately show ?thesis
    using assms(1) op(3,4) by (simp add: client_world_ok_def del: list_update_id)
qed

lemma client_step_ok:
  assumes "client_world_ok k w" "client_step k w v"
  shows "client_world_ok k v"
  using assms(2,1)
proof cases
  case (generated_step draws corr c req c' op)
  then have "corr \<in> set (map new_correlation draws)" "corr \<notin> cl_used (ow_client w)"
      "c = ow_client w\<lparr>cl_used := insert corr (cl_used (ow_client w))\<rparr>"
    using reserve_generated_Inr by blast+
  moreover from this have "correlation_ok corr"
    using generated_step(4) new_correlation_ok by auto
  ultimately show ?thesis
    using opened_ok [OF assms(1), of corr req c' op] generated_step by simp
next
  case (given_step x corr c req c' op)
  then have "correlation_ok corr" "corr \<notin> cl_used (ow_client w)"
      "c = ow_client w\<lparr>cl_used := insert corr (cl_used (ow_client w))\<rparr>"
    using reserve_given_Inr by blast+
  then show ?thesis
    using opened_ok [OF assms(1), of corr req c' op] given_step by simp
next
  case (answer_step n a c' op)
  then show ?thesis
    using continued_ok [OF assms(1)] by simp
next
  case (sessions_step rs c seen)
  then have "client_le c (c\<lparr>cl_recovery := rs, cl_seen := seen\<rparr>)"
    by (simp add: client_le_def table_generation_def fun_eq_iff)
  moreover have "generations_ok c (ow_calls w)"
    using assms(1) sessions_step by (simp add: client_world_ok_def)
  ultimately have "generations_ok (c\<lparr>cl_recovery := rs, cl_seen := seen\<rparr>) (ow_calls w)"
    using generations_kept by blast
  then show ?thesis
    using assms(1) sessions_step by (simp add: client_world_ok_def)
qed

interpretation client_runs: invariant_system "client_start k" "client_step k" "client_world_ok k" for k
proof unfold_locales
  show "client_world_ok k w" if "client_start k w" for w
    using that by (cases "ow_client w") (auto simp: client_start_def client_init_def client_world_ok_def generations_ok_def split: if_splits)
  show "client_world_ok k v" if "client_world_ok k w" "client_step k w v" for w v
    using that by (rule client_step_ok)
qed

end
