(* ===== verification/Client_Properties.thy ===== *)
theory Client_Properties
  imports Client_System
begin

text \<open>
  The properties of the opening of sessions, and an opening that is played to each of its ends.
\<close>

section \<open>Properties\<close>

text \<open>
  C30. A session that the client returns, in whatever interleaving of its openings, is bound to what was asked
  for: the request passed the checks against the adapter, the credential was validated for the profile and the
  request, the peer's reply was validated for this credential and this opening, the session runs with the
  credential's capability, the request and the correlation of the opening; its connection was not closed, and
  the reported stages are the complete ones.
\<close>

theorem returned_session_is_bound:
  assumes "reach (client_start k) (client_step k) w" "op \<in> set (ow_calls w)" "op_phase op = Opened m i reply s"
  shows "request_checked k (op_request op) = Inr ()
    \<and> validate_minted (cc_env k) (cc_sha k) (cc_manifest k) m (cc_profile k) (op_request op) = Inr ()
    \<and> validate_session_created (cc_env k) reply m i = Inr ()
    \<and> cf_request (sn_cfg s) = op_request op \<and> cf_capability (sn_cfg s) = mc_capability m
    \<and> cf_correlation (sn_cfg s) = op_correlation op \<and> op_closed op = []
    \<and> stages op = [DS_OPEN_STARTED, DS_MINT_STARTED, DS_MINT_COMPLETED, DS_CONNECT_STARTED, DS_CONNECT_COMPLETED,
        DS_OPEN_COMPLETED]"
proof -
  have "call_ok k op"
    using client_runs.inv_reach [OF assms(1)] assms(2) by (simp add: client_world_ok_def)
  then show ?thesis
    using assms(3) by (simp add: call_ok_def phase_ok_def session_bound_def minted_ok_def connected_stages_def
        connecting_stages_def minting_stages_def)
qed

text \<open>
  C31. An opening that fails without being cancelled closes its connection and says so: the close was called
  exactly once when there was a connection, the last reported stage is the failure of the opening and no other
  is, every event is one that the recorder accepts, and a \<^verbatim>\<open>RealtimeError\<close> carries a failure context.
\<close>

theorem failed_open_closes:
  assumes "reach (client_start k) (client_step k) w" "op \<in> set (ow_calls w)" "op_phase op = Failed e" "e \<noteq> CancelledErr"
  shows "length (op_closed op) = (if op_connected op then 1 else 0)
    \<and> last (stages op) = DS_OPEN_FAILED \<and> DS_OPEN_FAILED \<notin> set (butlast (stages op)) \<and> DS_OPEN_COMPLETED \<notin> set (stages op)
    \<and> list_all (\<lambda>d. diag_error d = None) (op_log op) \<and> has_failure e"
proof -
  have ok: "call_ok k op"
    using client_runs.inv_reach [OF assms(1)] assms(2) by (simp add: client_world_ok_def)
  then obtain p where p: "stages op = p @ [DS_OPEN_FAILED]" "p \<in> set given_up"
      "length (op_closed op) = (if op_connected op then 1 else 0)" "has_failure e"
    using assms(3,4) by (auto simp: call_ok_def phase_ok_def)
  moreover have "DS_OPEN_FAILED \<notin> set p" "DS_OPEN_COMPLETED \<notin> set p"
    using p(2) by (auto simp: given_up_def minting_stages_def connecting_stages_def connected_stages_def)
  ultimately show ?thesis
    using ok by (simp add: call_ok_def sound_op_def list_all_iff)
qed

text \<open>
  C32. Only the newest session of a client is current: whatever openings, failures and uses of the shared state
  follow, a session is current exactly while it has the client's generation, its generation is positive and no
  other session of the client has it, and no two openings share a correlation.
\<close>

theorem newest_session_is_current:
  assumes "reach (client_start k) (client_step k) w" "n < length (ow_calls w)" "session_of (ow_calls w ! n) = Some s"
  shows "(session_is_current (ow_client w) s \<longleftrightarrow> cf_generation (sn_cfg s) = cl_generation (ow_client w))
    \<and> 0 < cf_generation (sn_cfg s) \<and> cf_generation (sn_cfg s) \<le> cl_generation (ow_client w)
    \<and> (\<forall>j t. j < length (ow_calls w) \<longrightarrow> session_of (ow_calls w ! j) = Some t \<longrightarrow>
         cf_generation (sn_cfg t) = cf_generation (sn_cfg s) \<longrightarrow> j = n)
    \<and> distinct (map op_correlation (ow_calls w))"
proof -
  note inv = client_runs.inv_reach [OF assms(1)]
  have gen: "generation_of (ow_calls w ! n) = Some (cf_generation (sn_cfg s))"
    using assms(3) by (simp add: generation_of_def)
  have "call_ok k (ow_calls w ! n)"
    using inv assms(2) by (simp add: client_world_ok_def)
  then have "cf_request (sn_cfg s) = op_request (ow_calls w ! n)"
    using assms(3) by (auto simp: call_ok_def phase_ok_def session_bound_def session_of_def split: phase.splits)
  moreover have "generations_ok (ow_client w) (ow_calls w)" "distinct (map op_correlation (ow_calls w))"
    using inv by (simp_all add: client_world_ok_def)
  ultimately show ?thesis
    using assms(2) gen
    by (auto simp: generations_ok_def session_is_current_def table_generation_def generation_of_def)
qed

section \<open>An opening played to its ends\<close>

definition example_limits :: rt_limits where
  "example_limits = \<lparr>li_json_frame_bytes = 9, li_input_audio_event_bytes = 9, li_output_audio_event_bytes = 9,
     li_input_queue_frames = 9, li_input_queue_bytes = 9, li_output_queue_frames = 9, li_output_queue_bytes = 9,
     li_tool_payload_bytes = 9\<rparr>"

definition example_minted_credential :: minted_credential where
  "example_minted_credential = \<lparr>mc_secret = u ''s'', mc_expires_at_ms = 1, mc_websocket_path = u ''x'',
     mc_capability = (pr_capability example_profile)\<lparr>ca_limits := example_limits\<rparr>,
     mc_capability_document = example_document, mc_capability_digest = replicate 64 48\<rparr>"

definition example_request :: open_request where
  "example_request = \<lparr>or_external_session_id = u ''call'', or_instructions = u ''hi'', or_required_features = [],
     or_input_audio = example_audio, or_output_audio = example_audio, or_tools = VList []\<rparr>"

definition example_client :: "ustr \<Rightarrow> client_config" where
  "example_client manifest = \<lparr>cc_env = plain_env, cc_sha = zero_sha, cc_manifest = manifest,
     cc_profile = example_profile, cc_capability = pr_capability example_profile, cc_dispatcher = False\<rparr>"

definition example_corr :: ustr where
  "example_corr = u ''corr_00000000000000000000000000''"

definition opening_id :: ustr where
  "opening_id = u ''ctl_open_1''"

lemma example_request_ok: "open_request_init plain_env example_request = Inr ()"
proof -
  have "case open_request_init plain_env example_request of Inr _ \<Rightarrow> True | Inl _ \<Rightarrow> False"
    by code_simp
  then show ?thesis
    by (simp split: sum.splits)
qed

lemma example_request_checked: "request_checked (example_client manifest) example_request = Inr ()"
proof -
  have "case request_checked (example_client []) example_request of Inr _ \<Rightarrow> True | Inl _ \<Rightarrow> False"
    by code_simp
  then show ?thesis
    by (simp add: request_checked_def example_client_def split: sum.splits)
qed

lemma example_validated:
  assumes "strict_json_object plain_env manifest = Inr example_authority"
  shows "validate_minted plain_env zero_sha manifest example_minted_credential example_profile example_request = Inr ()"
proof -
  have "case capability_fields example_document example_profile of
      Inr c \<Rightarrow> c = (pr_capability example_profile)\<lparr>ca_limits := example_limits\<rparr> | Inl _ \<Rightarrow> False"
    by code_simp
  then have "parse_capability plain_env manifest example_document example_profile
      = Inr ((pr_capability example_profile)\<lparr>ca_limits := example_limits\<rparr>)"
    using example_capability [OF assms] by (auto simp: parse_capability_def andthen_Inr_iff split: sum.splits)
  then show ?thesis
    using example_digest
    by (simp add: validate_minted_def example_minted_credential_def check_def example_request_def supports_def example_profile_def)
qed

definition example_reply :: dict where
  "example_reply = [(u ''type'', vs ''tokenseller.session.created''), (u ''event_id'', vs ''e1''),
     (u ''related_event_id'', VStr opening_id), (u ''control_version'', vs ''1''),
     (u ''sdk_protocol_version'', vs ''1''), (u ''relay_session_id'', vs ''s1''),
     (u ''provider'', vs ''p''), (u ''wire_protocol'', vs ''w''), (u ''wire_version'', vs ''1''),
     (u ''capability'', VDict example_document), (u ''capability_digest'', VStr (replicate 64 48)),
     (u ''expires_at_ms'', VInt 1)]"

lemma zeros_ok: "text_ok True (replicate 64 48)"
  by (simp add: text_ok_def surrogate_def list_all_iff)

lemma example_reply_accepted:
  "\<exists>reply. validate_session_created plain_env reply example_minted_credential opening_id = Inr ()"
proof -
  have "case dumps plain_env wire_style (VDict example_reply) of Inr t \<Rightarrow> True | Inl e \<Rightarrow> False"
    by code_simp
  then obtain t where t: "dumps plain_env wire_style (VDict example_reply) = Inr t"
    by (auto split: sum.splits)
  have read: "strict_json_object plain_env t = Inr example_reply"
    by (rule strict_object_of_dumps [OF styles_ok(2) t])
       (simp_all add: wire_style_def example_reply_def example_document_def example_authority_def static_fields_def
          audio_document_def example_profile_def example_audio_def all_features_def opening_id_def zeros_ok)
  have "opaque_id (vs ''e1'') ''event_id'' = Inr (u ''e1'')" "opaque_id (vs ''s1'') ''relay_session_id'' = Inr (u ''s1'')"
    "opaque_id (VStr opening_id) n = Inr opening_id" for n
    by (simp_all add: opaque_id_def string_field_def printable_id_def u_def utf8_len_def utf8_size_def opening_id_def)
  moreover have "py_eq (VDict example_document) (VDict example_document)"
    by code_simp
  ultimately have "validate_session_created plain_env t example_minted_credential opening_id = Inr ()"
    by (simp add: validate_session_created_def read)
       (simp add: example_reply_def dget_def exact_keys_def key_set_is_def has_key_def check_def
         created_field_def integer_field_def object_field_def example_minted_credential_def example_profile_def)
  then show ?thesis ..
qed

lemma answered:
  \<comment> \<open>the only opening of a client goes on\<close>
  "reach (client_start k) (client_step k) \<lparr>ow_client = c, ow_calls = [op]\<rparr> \<Longrightarrow> open_continue k a c op = Some (c', op') \<Longrightarrow>
    reach (client_start k) (client_step k) \<lparr>ow_client = c', ow_calls = [op']\<rparr>"
  by (erule reach_step) (use answer_step [of 0 "\<lparr>ow_client = c, ow_calls = [op]\<rparr>" k a c' op'] in simp)

definition reached :: "ustr \<Rightarrow> client \<Rightarrow> open_call \<Rightarrow> bool" where
  "reached manifest c op \<longleftrightarrow>
     reach (client_start (example_client manifest)) (client_step (example_client manifest)) \<lparr>ow_client = c, ow_calls = [op]\<rparr>
     \<and> op_request op = example_request \<and> op_correlation op = example_corr
     \<and> cl_generation c = 0 \<and> cl_recovery c = [] \<and> cl_seen c = []"

lemma example_at_mint: "\<exists>c op. reached manifest c op \<and> op_phase op = At_mint \<and> \<not> op_connected op \<and> op_closed op = []"
proof -
  let ?k = "example_client manifest"
  let ?c = "\<lparr>cl_generation = 0, cl_recovery = [], cl_seen = [], cl_used = {}\<rparr> :: client"
  let ?w = "\<lparr>ow_client = ?c, ow_calls = []\<rparr>"
  have "client_start ?k ?w"
    by (auto simp: client_start_def client_init_def example_client_def intro!: exI [of _ "[]"])
  then have start: "reach (client_start ?k) (client_step ?k) ?w"
    by (rule reach_start)
  have "correlation_ok example_corr"
    by code_simp
  then have given: "reserve_given example_corr (ow_client ?w) = (Inr example_corr, ?c\<lparr>cl_used := {example_corr}\<rparr>)"
    by (simp add: reserve_given_def)
  obtain c' op where begun: "open_begin ?k example_request example_corr (?c\<lparr>cl_used := {example_corr}\<rparr>) = (c', op)"
    by (cases "open_begin ?k example_request example_corr (?c\<lparr>cl_used := {example_corr}\<rparr>)")
  have "client_step ?k ?w (?w\<lparr>ow_client := c', ow_calls := ow_calls ?w @ [op]\<rparr>)"
    by (rule given_step [OF given _ begun]) (simp add: example_client_def example_request_ok)
  then have "reach (client_start ?k) (client_step ?k) \<lparr>ow_client = c', ow_calls = [op]\<rparr>"
    using reach_step [OF start] by fastforce
  moreover have "op_phase op = At_mint" "op_request op = example_request" "op_correlation op = example_corr"
      "c' = ?c\<lparr>cl_used := {example_corr}\<rparr>" "\<not> op_connected op" "op_closed op = []"
    using begun by (auto simp: open_begin_def example_request_checked Let_def)
  ultimately have "reached manifest c' op"
    by (simp add: reached_def)
  then show ?thesis
    using \<open>op_phase op = At_mint\<close> \<open>\<not> op_connected op\<close> \<open>op_closed op = []\<close> by blast
qed

lemma example_at_send:
  "\<exists>manifest c op p. reached manifest c op \<and> op_phase op = At_send example_minted_credential p opening_id
    \<and> op_connected op \<and> op_closed op = []"
proof -
  obtain manifest where manifest: "strict_json_object plain_env manifest = Inr example_authority"
    using example_manifest by blast
  let ?k = "example_client manifest" and ?m = example_minted_credential
  obtain c op where op: "reached manifest c op" "op_phase op = At_mint" "op_closed op = []"
    using example_at_mint by blast
  obtain op1 where op1: "open_continue ?k (Minted (Inr ?m)) c op = Some (c, op1)" "op_phase op1 = At_connect ?m"
      "op_request op1 = op_request op" "op_correlation op1 = op_correlation op" "op_closed op1 = []"
    using op example_validated [OF manifest]
    by (simp add: open_continue_def mint_answered_def Let_def example_client_def reached_def)
  then have "reached manifest c op1"
    using op(1) answered by (auto simp: reached_def)
  moreover have "case build_session_open plain_env (u ''1'') ?m example_corr of Inr (p, i) \<Rightarrow> i = opening_id | Inl _ \<Rightarrow> False"
    by code_simp
  then obtain p where p: "build_session_open plain_env (u ''1'') ?m example_corr = Inr (p, opening_id)"
    by (auto split: sum.splits)
  ultimately obtain op2 where op2: "open_continue ?k (Connected (u ''1'') (Inr ())) c op1 = Some (c, op2)"
      "op_phase op2 = At_send ?m p opening_id" "op_request op2 = op_request op1" "op_correlation op2 = op_correlation op1"
      "op_connected op2" "op_closed op2 = []"
    using op1 by (simp add: open_continue_def connect_answered_def Let_def example_client_def reached_def)
  then have "reached manifest c op2"
    using \<open>reached manifest c op1\<close> answered by (auto simp: reached_def)
  then show ?thesis
    using op2 by blast
qed

lemma example_opened:
  "\<exists>manifest w op m i reply s. reach (client_start (example_client manifest)) (client_step (example_client manifest)) w
    \<and> ow_calls w = [op] \<and> op_phase op = Opened m i reply s"
proof -
  obtain manifest c op p where op: "reached manifest c op" "op_phase op = At_send example_minted_credential p opening_id"
    using example_at_send by blast
  let ?k = "example_client manifest" and ?m = example_minted_credential
  obtain reply where reply: "validate_session_created plain_env reply ?m opening_id = Inr ()"
    using example_reply_accepted by blast
  obtain op1 where op1: "open_continue ?k (Opening_sent (Inr ())) c op = Some (c, op1)" "op_phase op1 = At_receive ?m opening_id"
      "op_request op1 = op_request op" "op_correlation op1 = op_correlation op"
    using op by (simp add: open_continue_def send_answered_def)
  then have at: "reached manifest c op1"
    using op(1) answered by (auto simp: reached_def)
  have "identity_text (u ''call'')"
    by code_simp
  then have "\<exists>s. session_init plain_env zero_sha example_request (mc_capability ?m) 1 example_corr False {}
      [(opening_id, u ''tokenseller.session.open'')] [] = Inr s"
    by (simp add: session_init_def begin_session_def get_session_def example_request_def Let_def)
  then obtain s where s: "session_init plain_env zero_sha example_request (mc_capability ?m) 1 example_corr False {}
      [(opening_id, u ''tokenseller.session.open'')] [] = Inr s"
    by blast
  then have cfg: "cf_env (sn_cfg s) = plain_env" "cf_request (sn_cfg s) = example_request" "cf_capability (sn_cfg s) = mc_capability ?m"
    by (auto simp: session_init_def andthen_Inr_iff Let_def)
  have "case validate_tools plain_env 9 (VList []) of Inr _ \<Rightarrow> True | Inl _ \<Rightarrow> False"
    by code_simp
  then have "validate_tools plain_env 9 (VList []) = Inr ()"
    by (simp split: sum.splits)
  then obtain s1 where "start_session [] s = (Inr (), s1)"
    using cfg by (simp add: start_session_def limits_of_def example_request_def example_minted_credential_def example_limits_def)
  then obtain c2 op2 where op2: "open_continue ?k (Replied (Inr []) (Inr (Some reply))) c op1 = Some (c2, op2)"
      "op_phase op2 = At_start ?m opening_id reply [] s1"
    using op1 at s reply
    by (simp add: open_continue_def receive_answered_def begin_managed_def Let_def example_client_def reached_def example_request_def)
  then have at2: "reach (client_start ?k) (client_step ?k) \<lparr>ow_client = c2, ow_calls = [op2]\<rparr>"
    using at answered by (auto simp: reached_def)
  obtain op3 where "open_continue ?k (Update_sent (Inr Sent)) c2 op2 = Some (c2, op3)" "op_phase op3 = Opened ?m opening_id reply s1"
    using op2(2) by (simp add: open_continue_def start_answered_def send_done_def)
  then show ?thesis
    using answered [OF at2] by (metis client_world.select_convs(2))
qed

theorem returned_session_is_bound_witness:
  "\<exists>(op :: open_call) m i reply s. op_phase op = Opened m i reply s \<and> validate_session_created plain_env reply m i = Inr ()
    \<and> cf_capability (sn_cfg s) = mc_capability m \<and> op_closed op = []"
proof -
  obtain manifest w op m i reply s where
    w: "reach (client_start (example_client manifest)) (client_step (example_client manifest)) w"
      "ow_calls w = [op]" "op_phase op = Opened m i reply s"
    using example_opened by blast
  then have "op \<in> set (ow_calls w)"
    by simp
  note bound = returned_session_is_bound [OF w(1) this w(3)]
  have "cc_env (example_client manifest) = plain_env"
    by (simp add: example_client_def)
  then show ?thesis
    using bound w(3) by (intro exI [of _ op] exI [of _ m] exI [of _ i] exI [of _ reply] exI [of _ s]) simp
qed

theorem newest_session_is_current_witness:
  "\<exists>manifest w s. reach (client_start (example_client manifest)) (client_step (example_client manifest)) w
    \<and> (session_is_current (ow_client w) s \<longleftrightarrow> cf_generation (sn_cfg s) = cl_generation (ow_client w))
    \<and> 0 < cf_generation (sn_cfg s)"
proof -
  obtain manifest w op m i reply s where
    w: "reach (client_start (example_client manifest)) (client_step (example_client manifest)) w"
      "ow_calls w = [op]" "op_phase op = Opened m i reply s"
    using example_opened by blast
  then have "0 < length (ow_calls w)" "session_of (ow_calls w ! 0) = Some s"
    by (simp_all add: session_of_def)
  from newest_session_is_current [OF w(1) this] w(1) show ?thesis
    by blast
qed

theorem failed_open_closes_witness:
  "\<exists>(op :: open_call) e. op_phase op = Failed e \<and> e \<noteq> CancelledErr \<and> op_connected op \<and> length (op_closed op) = 1 \<and> last (stages op) = DS_OPEN_FAILED"
proof -
  obtain manifest c op p where op: "reached manifest c op" "op_phase op = At_send example_minted_credential p opening_id"
      "op_connected op"
    using example_at_send by blast
  let ?k = "example_client manifest"
  let ?r = "(rt_plain E_UNAVAILABLE, VNone)"
  obtain op1 where op1: "open_continue ?k (Opening_sent (Inl ?r)) c op = Some (c, op1)" "op_phase op1 = At_close ''open failed'' ?r"
      "op_connected op1" "op_request op1 = op_request op"
    using op(2,3) by (simp add: open_continue_def send_answered_def give_up_def timeout_error_def)
  then have at: "reach (client_start ?k) (client_step ?k) \<lparr>ow_client = c, ow_calls = [op1]\<rparr>"
    using op(1) answered by (auto simp: reached_def)
  have id: "identity_text (or_external_session_id (op_request op1))"
    using op(1) op1(4) request_identity [OF example_request_ok] by (simp add: reached_def)
  obtain g c2 where g: "next_generation (op_request op1) c = Inr (g, c2)" "cl_generation c + 1 \<le> g"
    using next_generation_Inr [OF id] by metis
  have "failure_ok (bare_failure (u ''open.failure'') (failure_operation_kind ?r ''open.failure'') g)"
    using g(2) op(1) kind_stable [of "''open.failure''" ?r] by (simp add: failure_ok_iff bare_failure_def reached_def)
  then obtain op2 e where op2: "open_continue ?k (Close_returned (Inr ())) c op1 = Some (c2, op2)" "op_phase op2 = Failed e"
      "e \<noteq> CancelledErr" "op_connected op2"
    using op1(2,3) g(1)
    by (simp add: open_continue_def close_answered_def fail_open_def carried_failure_def Let_def build_failure_def
        failure_ok_def with_failure_of_def)
  have "op2 \<in> set (ow_calls \<lparr>ow_client = c2, ow_calls = [op2]\<rparr>)"
    by simp
  from failed_open_closes [OF answered [OF at op2(1)] this op2(2,3)] op2 show ?thesis
    by auto
qed

text \<open>
  C33. What the code does when the opening is cancelled while it uses its connection: a cancellation is no
  \<^verbatim>\<open>Exception\<close>, so neither handler runs, the connection is left open and no failure is reported.
\<close>

theorem cancelled_open_leaks:
  "\<exists>manifest w op. reach (client_start (example_client manifest)) (client_step (example_client manifest)) w
    \<and> op \<in> set (ow_calls w) \<and> op_phase op = Failed CancelledErr \<and> op_connected op \<and> op_closed op = []
    \<and> DS_OPEN_FAILED \<notin> set (stages op)"
proof -
  obtain manifest c op p where op: "reached manifest c op" "op_phase op = At_send example_minted_credential p opening_id"
      "op_connected op" "op_closed op = []"
    using example_at_send by blast
  let ?k = "example_client manifest"
  obtain op1 where op1: "open_continue ?k (Opening_sent (Inl (CancelledErr, VNone))) c op = Some (c, op1)"
      "op_phase op1 = Failed CancelledErr" "op_connected op1" "op_closed op1 = []" "stages op1 = stages op"
    using op(2-4) by (simp add: open_continue_def send_answered_def give_up_def fail_open_def)
  then have at: "reach (client_start ?k) (client_step ?k) \<lparr>ow_client = c, ow_calls = [op1]\<rparr>"
    using op(1) answered by (auto simp: reached_def)
  have "call_ok ?k op"
    using client_runs.inv_reach [of ?k] op(1) by (fastforce simp: client_world_ok_def reached_def)
  then have "stages op1 = connected_stages"
    using op(2) op1(5) by (simp add: call_ok_def phase_ok_def)
  then have "DS_OPEN_FAILED \<notin> set (stages op1)"
    by (simp add: connected_stages_def connecting_stages_def minting_stages_def)
  then show ?thesis
    using at op1 by (intro exI [of _ manifest] exI [of _ "\<lparr>ow_client = c, ow_calls = [op1]\<rparr>"] exI [of _ op1]) simp
qed

end
