(* ===== verification/Spec2Isabelle.thy ===== *)
theory Spec2Isabelle
  imports Tool_Schema Recovery_System Observability Session_Properties Relay_Control Qwen_Properties OpenAI_Properties Local_Calls
    Unix_Service Chat_System Text_Rendering Client_Properties
begin

text \<open>
  A verification development for \<^verbatim>\<open>simple_harness_service\<close>, the SDK that lets a product hold realtime voice
  calls with a provider and run text commands on a harness. Paths are relative to
  \<^verbatim>\<open>src/simple_harness_service\<close>.

  \<^bold>\<open>The program.\<close> The realtime half opens a connection to a provider (over a relay), wraps it in a
  \<^verbatim>\<open>ManagedRealtimeSession\<close> and hands the product a stream of neutral events. A provider adapter
  (\<^verbatim>\<open>realtime/adapters\<close>) turns wire frames into decoded events and calls of the product into wire frames;
  the codec of the relay's control frames (\<^verbatim>\<open>realtime/relay_control.py\<close>) does the same for the relay. The
  session (\<^verbatim>\<open>realtime/session.py\<close>) applies decoded events to its state, queues what the product may see, runs
  tool calls, and ends with one terminal event. What must survive a reconnection (item identities, tool calls,
  messages under idempotency keys) is in \<^verbatim>\<open>realtime/recovery.py\<close>. A local product process reaches the session
  through \<^verbatim>\<open>realtime/local_channel.py\<close>, which speaks the protocol of \<^verbatim>\<open>realtime/local.py\<close>: JSON messages,
  PCM frames with sequence numbers, windows and acknowledgements. The service half (\<^verbatim>\<open>contracts.py\<close>,
  \<^verbatim>\<open>identity.py\<close>, \<^verbatim>\<open>codec.py\<close>, \<^verbatim>\<open>auth.py\<close>, \<^verbatim>\<open>service.py\<close>, \<^verbatim>\<open>chat_controller.py\<close>) authenticates a caller,
  projects its identities, submits commands to the harness and lets a chat observe them.

  \<^bold>\<open>Theories and what they model.\<close>

  \<^item> \<open>Prelude\<close>: texts as lists of code points, bytes as 8-bit words, Python values and \<^verbatim>\<open>==\<close>, results with the
    exception as a value (\<open>res\<close>), dictionaries in insertion order, and the locales \<open>invariant_system\<close> and
    \<open>monotone_system\<close> for a step relation with an invariant, and with an order that every step respects.
  \<^item> \<open>Errors\<close>, \<open>Contracts\<close>: \<^verbatim>\<open>realtime/contracts.py\<close> and \<^verbatim>\<open>realtime/ports.py\<close>: codes, the failure context,
    exceptions, limits, capability, events, and the checks of their constructors.
  \<^item> \<open>Json_Text\<close>, \<open>Json_Roundtrip\<close>, \<open>Utf8\<close>: the \<^verbatim>\<open>json\<close> module as the source uses it, UTF-8 and the guessing of
    encodings, with the round trip of writing and reading.
  \<^item> \<open>Tool_Schema\<close>: \<^verbatim>\<open>realtime/tool_schema.py\<close>. A schema that was accepted never makes the matching raise.
  \<^item> \<open>Shared_Validation\<close>, \<open>Adapter_Events\<close>: \<^verbatim>\<open>realtime/adapters/_shared.py\<close> and what the two adapters share.
  \<^item> \<open>Qwen\<close>, \<open>Qwen_Properties\<close>, \<open>OpenAI\<close>, \<open>OpenAI_Properties\<close>: the two wire codecs and adapters; a state record
    each, one function per operation, and a transition system of their calls.
  \<^item> \<open>Recovery\<close>, \<open>Recovery_Snapshot\<close>, \<open>Recovery_System\<close>: \<^verbatim>\<open>realtime/recovery.py\<close>, its snapshot, and any
    sequence of its operations.
  \<^item> \<open>Observability\<close>: \<^verbatim>\<open>realtime/observability.py\<close>, the bounded recorder with its worker.
  \<^item> \<open>Session\<close>, \<open>Session_Ops\<close>: the state of \<^verbatim>\<open>ManagedRealtimeSession\<close> and every operation of it between two
    suspension points. \<open>Session_Frames\<close>: which view of the state an operation leaves alone. \<open>Session_Laws\<close>: the
    locales that list the changes of state an invariant has to survive. \<open>Session_Responses\<close>, \<open>Session_Tools\<close>,
    \<open>Session_Terminal\<close>: the invariants as interpretations of them. \<open>Session_System\<close>, \<open>Session_Progress\<close>: the
    interleavings as a transition system, and what a run never undoes. \<open>Session_Example\<close>: the states of the
    witnesses. \<open>Session_Properties\<close>: the properties.
  \<^item> \<open>Relay_Control\<close>: \<^verbatim>\<open>realtime/relay_control.py\<close>: canonical JSON, capability, minted credential, control frames.
  \<^item> \<open>Local\<close>, \<open>Local_Properties\<close>: \<^verbatim>\<open>realtime/local.py\<close>. \<open>Local_Windows\<close>: its sequence window as a set of accepted
    sequences, in the locale \<open>receive_window\<close>. \<open>Input_Window\<close>: the window of the local channel, which is
    another interpretation of that locale.
  \<^item> \<open>Tasks\<close>: coroutines as programs that run to their next \<^verbatim>\<open>await\<close>, with rules for what every stretch keeps and
    for what it may spend. \<open>Local_Channel\<close>, \<open>Local_Channel_Laws\<close>, \<open>Local_System\<close>, \<open>Local_Bridge\<close>, \<open>Local_Calls\<close>:
    \<^verbatim>\<open>realtime/local_channel.py\<close> as three tasks on one state, in every interleaving.
  \<^item> \<open>Service_Contracts\<close>: \<^verbatim>\<open>contracts.py\<close> and \<^verbatim>\<open>identity.py\<close>. \<open>Frames\<close>: \<^verbatim>\<open>codec.py\<close>. \<open>Auth\<close>: \<^verbatim>\<open>auth.py\<close>.
  \<^item> \<open>Client\<close>: \<^verbatim>\<open>realtime/client.py\<close>, the opening of a session over the relay. \<open>Client_System\<close>: the openings of one
    client in every interleaving. \<open>Client_Properties\<close>: the properties, and an opening played to each of its ends.
  \<^item> \<open>Service\<close>: \<^verbatim>\<open>service.py\<close> (and \<^verbatim>\<open>client.py\<close>, which calls it in the process): the adapter to the harness, the
    outcome of a command and the five methods. \<open>Unix_Service\<close>: \<^verbatim>\<open>transports/unix.py\<close>, both ends of the socket.
  \<^item> \<open>Chat\<close>: \<^verbatim>\<open>chat_controller.py\<close>, each coroutine cut at its suspension points. \<open>Chat_Properties\<close>: what it reports
    and that observing ends. \<open>Chat_System\<close>: the interleavings of its coroutines.
  \<^item> \<open>Text_Rendering\<close>: \<^verbatim>\<open>text_rendering.py\<close>, how a text that is not trusted is made safe and rendered.

  \<^bold>\<open>What the lemmas show.\<close> For the session: one terminal event, no output of a response after its end, exact
  accounting of the queues, tool calls that only advance, a first cause of failure that stays. For recovery:
  a message is sent once, a snapshot restores the state. For the adapters: a request is settled once, output
  keeps the scope of its response, and identities survive. For the relay: a credential and a session are bound
  to what was asked for, the client returns no other session, closes what it gives up, and only its newest session
  is current. For the local channel: frames are delivered in order whatever the order of arrival,
  the windows refine their specification, acknowledgements never run ahead, a call is closed at most once. For
  the service half: capabilities verify exactly what was issued, identities collide only where their authentication
  codes do, a cut stream is
  decoded as a whole, a call over the
  socket is the call in the process, and the server acts only for its peer. For the chat: a run is settled
  once, with what the harness says of it, and nothing that is rendered drives the terminal. Some theorems state a behaviour that the comments, the documentation or the other
  branches of the code do not suggest; their text says so.

  \<^bold>\<open>Bounds and fuel.\<close> The parser of \<open>Json_Text\<close> has twice the length of the text as fuel: every value consumes
  a character and every level of nesting takes two units, and the round trip shows that it suffices for every
  text that was written. Schemas are checked to depth 32, as in the code. The loops of the sequence windows are
  \<open>while_option\<close>, and their refinement shows that they end. The decoder of frames recurses on a buffer that
  shrinks by at least the four bytes of a header. The loop in which the chat observes is a
  partial function that threads the clock, the observations and the sleeps, and a theorem bounds its rounds by
  what is slept. The recursion of the schema matcher and of its comparison of constants is bounded by the room on
  the interpreter's stack, a parameter: without room they raise a \<^verbatim>\<open>RecursionError\<close>, and a theorem says how
  much room always suffices. The loops of the coroutines that need not end are not
  programs: the transition system starts the next turn. Machine integers occur as bytes; Python's integers are
  unbounded, and the model of the decimal conversion has the interpreter's limit of 4300 digits.

  \<^bold>\<open>Parameters.\<close> SHA-256, HMAC, fresh identities and random texts, clock readings, the decimal text of floats
  and their rounding, the nesting limits of the interpreter and the text of the packaged manifest are arguments;
  a theorem that relies on them states the property of the algorithm or of IEEE arithmetic that it needs.
  Durations are modelled where the chat observes, in the loop that sleeps; elsewhere a wait may end whenever what
  it waits for holds, or by its timeout.

  \<^bold>\<open>Not modelled.\<close> The transports of the realtime half (\<^verbatim>\<open>realtime/transports\<close>) and
  \<^verbatim>\<open>realtime/connectors\<close> are I/O over sockets and third-party packages; \<^verbatim>\<open>credentials.py\<close> and \<^verbatim>\<open>bom.py\<close> read files
  and package metadata; \<^verbatim>\<open>cli.py\<close> and \<^verbatim>\<open>terminal_ui.py\<close> draw on a terminal; \<^verbatim>\<open>testing\<close> and
  the \<^verbatim>\<open>scripts\<close> are test support and release tooling; the \<^verbatim>\<open>__init__\<close> modules re-export names.
\<close>

end
